(* ===== verification/Prelude.thy ===== *)
theory Prelude
  imports Main "HOL-Library.Word" "HOL-Library.AList" "HOL-Library.Sublist"
begin

text \<open>
  Shared vocabulary of the development: machine integers, clock readings, results of fallible
  calls, hash maps (Rust's \<open>HashMap\<close> and \<open>DashMap\<close>) with their interface as a locale, and the
  parts of Rust's string and integer libraries that the components call (\<open>str::split\<close>,
  \<open>starts_with\<close>, \<open>ends_with\<close>, \<open>contains\<close>, \<open>trim_end_matches\<close>, decimal formatting, \<open>FromStr\<close> of
  the unsigned integers and of \<open>Ipv4Addr\<close>).
  The collection \<open>hm_laws\<close> holds the rewrite rules of hash maps, \<open>str_laws\<close> those of strings.
\<close>

named_theorems hm_laws "equations of the hash map operations"
named_theorems str_laws "equations of the string operations"

section \<open>Machine integers, time and results\<close>

type_synonym u8 = "8 word"
type_synonym u16 = "16 word"
type_synonym u32 = "32 word"
type_synonym u64 = "64 word"

text \<open>
  \<open>Duration\<close> and \<open>Instant\<close> count nanoseconds. \<open>Instant::elapsed\<close> saturates at zero, as the
  subtraction of natural numbers does. \<open>DateTime<Utc>\<close> is an integer number of nanoseconds since
  the epoch, so that differences can be negative.
\<close>

type_synonym duration = nat
type_synonym instant = nat
type_synonym datetime = int

definition from_secs :: "nat \<Rightarrow> duration" where
  "from_secs n = n * 1000000000"

definition as_secs :: "duration \<Rightarrow> nat" where
  "as_secs d = d div 1000000000"

definition from_millis :: "nat \<Rightarrow> duration" where
  "from_millis n = n * 1000000"

definition elapsed :: "instant \<Rightarrow> instant \<Rightarrow> duration" where
  "elapsed t0 now = now - t0"

text \<open>\<open>chrono::Duration::to_std\<close>: an error (here \<open>None\<close>) on a negative difference.\<close>

definition to_std :: "int \<Rightarrow> duration option" where
  "to_std d = (if d < 0 then None else Some (nat d))"

text \<open>\<open>chrono::Duration::num_seconds\<close> truncates toward zero.\<close>

definition num_seconds :: "int \<Rightarrow> int" where
  "num_seconds d = sgn d * (\<bar>d\<bar> div 1000000000)"

lemma as_secs_from_secs [simp]: "as_secs (from_secs n) = n"
  by (simp add: as_secs_def from_secs_def)

lemma from_secs_less [simp]: "from_secs a < from_secs b \<longleftrightarrow> a < b"
  by (simp add: from_secs_def)

lemma from_secs_le [simp]: "from_secs a \<le> from_secs b \<longleftrightarrow> a \<le> b"
  by (simp add: from_secs_def)

lemma elapsed_mono: "t \<le> t' \<Longrightarrow> elapsed t0 t \<le> elapsed t0 t'"
  by (simp add: elapsed_def)

lemma elapsed_self [simp]: "elapsed t t = 0"
  by (simp add: elapsed_def)

text \<open>
  The \<open>?\<close> operator: an error is returned at once, a value is passed on.
\<close>

definition and_then :: "'e + 'a \<Rightarrow> ('a \<Rightarrow> 'e + 'b) \<Rightarrow> 'e + 'b" where
  "and_then r f = (case r of Inl e \<Rightarrow> Inl e | Inr a \<Rightarrow> f a)"

lemma and_then_simps [simp]:
  "and_then (Inl e) f = Inl e"
  "and_then (Inr a) f = f a"
  by (simp_all add: and_then_def)

lemma and_then_Inr_iff: "and_then r f = Inr b \<longleftrightarrow> (\<exists>a. r = Inr a \<and> f a = Inr b)"
  by (cases r) auto

fun ok :: "'e + 'a \<Rightarrow> 'a option" where
  "ok (Inl e) = None"
| "ok (Inr a) = Some a"

text \<open>\<open>Iterator::filter_map\<close>.\<close>

lemma set_map_filter_iff: "y \<in> set (List.map_filter f xs) \<longleftrightarrow> (\<exists>x \<in> set xs. f x = Some y)"
  by (induction xs) (auto split: option.splits)

text \<open>Counters and lengths: words as natural numbers.\<close>

lemma word_of_unat_eq: "n = unat (w :: 'a::len word) \<Longrightarrow> of_nat n = w"
  by simp

lemma unat_u32_less: "unat (w :: u32) < 2 ^ 32"
  using unsigned_less [of w, where ?'a = nat] by simp

lemma unat_of_nat_u32: "n < 2 ^ 32 \<Longrightarrow> unat (of_nat n :: u32) = n"
  by (simp add: unat_of_nat)

lemma unat_inc_less: "a < b \<Longrightarrow> unat (a + 1 :: u32) = Suc (unat a)"
  using unat_u32_less [of b] by (simp add: unat_word_ariths word_less_nat_alt)

lemma of_nat_less_u32:
  assumes "n < unat (w :: u32)"
  shows "(of_nat n :: u32) < w"
proof -
  have "n < 2 ^ 32" using assms unat_u32_less [of w] by (rule less_trans)
  then have "unat (of_nat n :: u32) = n" by (rule unat_of_nat_u32)
  with assms show ?thesis by (simp add: word_less_nat_alt)
qed

section \<open>Hash maps\<close>

text \<open>
  A hash map is an association list without duplicate keys; the order of the list is one
  iteration order of the map, about which the code assumes nothing.
\<close>

type_synonym ('k, 'v) hmap = "('k \<times> 'v) list"

definition hm_wf :: "('k, 'v) hmap \<Rightarrow> bool" where
  "hm_wf m = distinct (map fst m)"

definition hm_get :: "('k, 'v) hmap \<Rightarrow> 'k \<Rightarrow> 'v option" where
  "hm_get m k = map_of m k"

definition hm_insert :: "'k \<Rightarrow> 'v \<Rightarrow> ('k, 'v) hmap \<Rightarrow> ('k, 'v) hmap" where
  "hm_insert k v m = AList.update k v m"

definition hm_remove :: "'k \<Rightarrow> ('k, 'v) hmap \<Rightarrow> ('k, 'v) hmap" where
  "hm_remove k m = filter (\<lambda>(k', _). k' \<noteq> k) m"

definition hm_retain :: "('k \<Rightarrow> 'v \<Rightarrow> bool) \<Rightarrow> ('k, 'v) hmap \<Rightarrow> ('k, 'v) hmap" where
  "hm_retain P m = filter (\<lambda>(k, v). P k v) m"

definition hm_contains :: "('k, 'v) hmap \<Rightarrow> 'k \<Rightarrow> bool" where
  "hm_contains m k = (hm_get m k \<noteq> None)"

definition hm_values :: "('k, 'v) hmap \<Rightarrow> 'v list" where
  "hm_values m = map snd m"

definition hm_keys :: "('k, 'v) hmap \<Rightarrow> 'k list" where
  "hm_keys m = map fst m"

definition hm_len :: "('k, 'v) hmap \<Rightarrow> nat" where
  "hm_len m = length m"

lemma hm_wf_empty [simp]: "hm_wf []"
  by (simp add: hm_wf_def)

lemma hm_get_empty [simp]: "hm_get [] k = None"
  by (simp add: hm_get_def)

lemma hm_wf_insert [simp, intro]: "hm_wf m \<Longrightarrow> hm_wf (hm_insert k v m)"
  by (simp add: hm_wf_def hm_insert_def distinct_update)

lemma hm_wf_filter: "hm_wf m \<Longrightarrow> hm_wf (filter P m)"
  unfolding hm_wf_def by (induction m) (auto simp: image_iff)

lemma hm_wf_remove [simp, intro]: "hm_wf m \<Longrightarrow> hm_wf (hm_remove k m)"
  by (simp add: hm_remove_def hm_wf_filter)

lemma hm_wf_retain [simp, intro]: "hm_wf m \<Longrightarrow> hm_wf (hm_retain P m)"
  by (simp add: hm_retain_def hm_wf_filter)

lemma hm_get_insert [hm_laws, simp]:
  "hm_get (hm_insert k v m) k' = (if k' = k then Some v else hm_get m k')"
  by (simp add: hm_get_def hm_insert_def update_conv)

lemma hm_get_remove [hm_laws, simp]:
  "hm_get (hm_remove k m) k' = (if k' = k then None else hm_get m k')"
  unfolding hm_get_def hm_remove_def by (induction m) auto

lemma hm_get_retain [hm_laws]:
  assumes "hm_wf m"
  shows "hm_get (hm_retain P m) k =
    (case hm_get m k of None \<Rightarrow> None | Some v \<Rightarrow> if P k v then Some v else None)"
  using assms unfolding hm_get_def hm_retain_def hm_wf_def
proof (induction m)
  case (Cons a m)
  obtain k' v where a: "a = (k', v)" by (cases a)
  with Cons.prems have k': "map_of m k' = None"
    by (simp add: map_of_eq_None_iff)
  with Cons a show ?case by (auto split: option.splits)
qed simp

lemma hm_get_Some_mem: "hm_get m k = Some v \<Longrightarrow> (k, v) \<in> set m"
  by (simp add: hm_get_def map_of_SomeD)

lemma hm_mem_get: "hm_wf m \<Longrightarrow> (k, v) \<in> set m \<Longrightarrow> hm_get m k = Some v"
  by (simp add: hm_get_def hm_wf_def)

lemma hm_mem_iff: "hm_wf m \<Longrightarrow> (k, v) \<in> set m \<longleftrightarrow> hm_get m k = Some v"
  by (blast intro: hm_mem_get hm_get_Some_mem)

lemma hm_keys_get: "k \<in> set (hm_keys m) \<longleftrightarrow> hm_get m k \<noteq> None"
  by (force simp: hm_keys_def hm_get_def map_of_eq_None_iff)

lemma hm_len_insert:
  "hm_len (hm_insert k v m) = (if hm_get m k = None then Suc (hm_len m) else hm_len m)"
  unfolding hm_len_def hm_insert_def hm_get_def
  by (induction m) (auto split: if_splits)

lemma hm_len_card: "hm_wf m \<Longrightarrow> hm_len m = card {k. hm_get m k \<noteq> None}"
proof -
  assume wf: "hm_wf m"
  have "{k. hm_get m k \<noteq> None} = set (map fst m)"
    by (force simp: hm_get_def map_of_eq_None_iff)
  with wf show ?thesis
    by (metis distinct_card hm_len_def hm_wf_def length_map)
qed

text \<open>
  The interface every keyed store of the program relies on: what a lookup returns after an
  insertion, a removal or a \<open>retain\<close>, and that the representation stays well formed.
\<close>

locale kv_store =
  fixes empty :: "'m"
    and get :: "'m \<Rightarrow> 'k \<Rightarrow> 'v option"
    and put :: "'k \<Rightarrow> 'v \<Rightarrow> 'm \<Rightarrow> 'm"
    and del :: "'k \<Rightarrow> 'm \<Rightarrow> 'm"
    and keep :: "('k \<Rightarrow> 'v \<Rightarrow> bool) \<Rightarrow> 'm \<Rightarrow> 'm"
    and wf :: "'m \<Rightarrow> bool"
  assumes get_empty: "get empty k = None"
    and get_put: "get (put k v m) k' = (if k' = k then Some v else get m k')"
    and get_del: "get (del k m) k' = (if k' = k then None else get m k')"
    and get_keep: "wf m \<Longrightarrow> get (keep P m) k =
          (case get m k of None \<Rightarrow> None | Some v \<Rightarrow> if P k v then Some v else None)"
    and wf_empty: "wf empty"
    and wf_put: "wf m \<Longrightarrow> wf (put k v m)"
    and wf_del: "wf m \<Longrightarrow> wf (del k m)"
    and wf_keep: "wf m \<Longrightarrow> wf (keep P m)"
begin

text \<open>
  A predicate on entries that holds of every stored value is kept by insertions of values that
  satisfy it, by removals and by \<open>retain\<close>: the induction step of every store invariant.
\<close>

definition all_entries :: "('k \<Rightarrow> 'v \<Rightarrow> bool) \<Rightarrow> 'm \<Rightarrow> bool" where
  "all_entries Q m = (\<forall>k v. get m k = Some v \<longrightarrow> Q k v)"

lemma all_entries_empty: "all_entries Q empty"
  by (simp add: all_entries_def get_empty)

lemma all_entries_put: "all_entries Q m \<Longrightarrow> Q k v \<Longrightarrow> all_entries Q (put k v m)"
  by (simp add: all_entries_def get_put)

lemma all_entries_del: "all_entries Q m \<Longrightarrow> all_entries Q (del k m)"
  by (simp add: all_entries_def get_del)

lemma all_entries_keep: "wf m \<Longrightarrow> all_entries Q m \<Longrightarrow> all_entries Q (keep P m)"
  by (auto simp: all_entries_def get_keep split: option.splits if_splits)

lemma all_entries_mono: "all_entries P m \<Longrightarrow> (\<And>k v. P k v \<Longrightarrow> Q k v) \<Longrightarrow> all_entries Q m"
  by (auto simp: all_entries_def)

lemma keep_gone: "wf m \<Longrightarrow> get m k = Some v \<Longrightarrow> \<not> P k v \<Longrightarrow> get (keep P m) k = None"
  by (simp add: get_keep)

lemma keep_sub: "wf m \<Longrightarrow> get (keep P m) k = Some v \<Longrightarrow> get m k = Some v \<and> P k v"
  by (auto simp: get_keep split: option.splits if_splits)

lemma del_put: "get (del k (put k v m)) k' = get (del k m) k'"
  by (simp add: get_put get_del)

end

interpretation hm: kv_store "[]" hm_get hm_insert hm_remove hm_retain hm_wf
  by unfold_locales (simp_all add: hm_get_retain)

section \<open>Strings\<close>

text \<open>
  A string is the list of its bytes. Case conversion and white space are modelled on ASCII.
\<close>

definition starts_with :: "string \<Rightarrow> string \<Rightarrow> bool" where
  "starts_with s p = (take (length p) s = p)"

definition ends_with :: "string \<Rightarrow> string \<Rightarrow> bool" where
  "ends_with s p = starts_with (rev s) (rev p)"

fun str_contains :: "string \<Rightarrow> string \<Rightarrow> bool" where
  "str_contains [] p = (p = [])"
| "str_contains (c # s) p = (starts_with (c # s) p \<or> str_contains s p)"

definition to_lower_char :: "char \<Rightarrow> char" where
  "to_lower_char c = (let n = of_char c :: nat in
     if 65 \<le> n \<and> n \<le> 90 then char_of (n + 32) else c)"

definition to_lowercase :: "string \<Rightarrow> string" where
  "to_lowercase s = map to_lower_char s"

definition is_ascii_space :: "char \<Rightarrow> bool" where
  "is_ascii_space c = (let n = of_char c :: nat in n = 32 \<or> (9 \<le> n \<and> n \<le> 13))"

definition trim :: "string \<Rightarrow> string" where
  "trim s = rev (dropWhile is_ascii_space (rev (dropWhile is_ascii_space s)))"

definition trim_end_matches :: "char \<Rightarrow> string \<Rightarrow> string" where
  "trim_end_matches c s = rev (dropWhile (\<lambda>x. x = c) (rev s))"

fun split_on :: "char \<Rightarrow> string \<Rightarrow> string list" where
  "split_on c [] = [[]]"
| "split_on c (x # xs) =
     (if x = c then [] # split_on c xs
      else (x # hd (split_on c xs)) # tl (split_on c xs))"

fun join_with :: "string \<Rightarrow> string list \<Rightarrow> string" where
  "join_with sep [] = []"
| "join_with sep [s] = s"
| "join_with sep (s # t # ts) = s @ sep @ join_with sep (t # ts)"

lemma starts_with_iff [str_laws]: "starts_with s p \<longleftrightarrow> (\<exists>t. s = p @ t)"
  unfolding starts_with_def by (metis append_eq_conv_conj append_take_drop_id)

lemma starts_with_self [simp]: "starts_with s s"
  by (simp add: starts_with_def)

lemma starts_with_append [simp]: "starts_with (p @ t) p"
  by (simp add: starts_with_def)

lemma starts_with_trans: "starts_with s (p @ q) \<Longrightarrow> starts_with s p"
  by (auto simp: starts_with_iff)

lemma ends_with_iff [str_laws]: "ends_with s p \<longleftrightarrow> (\<exists>t. s = t @ p)"
  unfolding ends_with_def starts_with_iff by (metis rev_append rev_rev_ident)

lemma str_contains_iff [str_laws]: "str_contains s p \<longleftrightarrow> (\<exists>a b. s = a @ p @ b)"
proof (induction s)
  case (Cons c s)
  show ?case
    by (auto simp: Cons starts_with_iff Cons_eq_append_conv)
qed simp

lemma split_on_ne [simp]: "split_on c s \<noteq> []"
  by (cases s) auto

lemma join_split [simp]: "join_with [c] (split_on c s) = s"
proof (induction s)
  case (Cons x xs)
  obtain h t where ht: "split_on c xs = h # t"
    by (cases "split_on c xs") auto
  with Cons show ?case by (cases t) auto
qed simp

lemma split_on_none: "c \<notin> set s \<Longrightarrow> split_on c s = [s]"
  by (induction s) auto

lemma split_on_append: "c \<notin> set a \<Longrightarrow> split_on c (a @ c # s) = a # split_on c s"
  by (induction a) auto

lemma split_on_case:
  "split_on c (x # xs) = (case split_on c xs of h # t \<Rightarrow> if x = c then [] # h # t else (x # h) # t)"
proof -
  obtain h t where "split_on c xs = h # t" by (cases "split_on c xs") auto
  then show ?thesis by simp
qed

lemma split_on_glue: "split_on c (a @ c # s) = split_on c a @ split_on c s"
proof (induction a)
  case (Cons x xs)
  obtain h t where "split_on c xs = h # t" by (cases "split_on c xs") auto
  with Cons show ?case by simp
qed simp

lemma split_on_pieces: "p \<in> set (split_on c s) \<Longrightarrow> c \<notin> set p"
proof (induction s arbitrary: p)
  case (Cons x xs)
  obtain h t where ht: "split_on c xs = h # t"
    by (cases "split_on c xs") auto
  with Cons show ?case by (auto split: if_splits)
qed simp

section \<open>Decimal numbers\<close>

definition digit_char :: "nat \<Rightarrow> char" where
  "digit_char d = char_of (48 + d)"

definition digit_val :: "char \<Rightarrow> nat option" where
  "digit_val c = (let n = of_char c :: nat in
     if 48 \<le> n \<and> n \<le> 57 then Some (n - 48) else None)"

fun show_nat :: "nat \<Rightarrow> string" where
  "show_nat n = (if n < 10 then [digit_char n] else show_nat (n div 10) @ [digit_char (n mod 10)])"

declare show_nat.simps [simp del]

fun parse_digits :: "nat \<Rightarrow> string \<Rightarrow> nat option" where
  "parse_digits acc [] = Some acc"
| "parse_digits acc (c # cs) =
     (case digit_val c of None \<Rightarrow> None | Some d \<Rightarrow> parse_digits (acc * 10 + d) cs)"

text \<open>
  \<open>FromStr\<close> of an unsigned integer of \<open>w\<close> bits: an optional plus sign, at least one digit, and no
  overflow.
\<close>

definition parse_uint :: "nat \<Rightarrow> string \<Rightarrow> nat option" where
  "parse_uint w s =
     (let ds = (case s of c # cs \<Rightarrow> if c = CHR ''+'' then cs else s | [] \<Rightarrow> []) in
      if ds = [] then None
      else case parse_digits 0 ds of
             None \<Rightarrow> None
           | Some n \<Rightarrow> if n < 2 ^ w then Some n else None)"

lemma digit_val_char [simp]: "d < 10 \<Longrightarrow> digit_val (digit_char d) = Some d"
  by (simp add: digit_val_def digit_char_def)

lemma parse_digits_append:
  "parse_digits acc (xs @ ys) = Option.bind (parse_digits acc xs) (\<lambda>a. parse_digits a ys)"
  by (induction xs arbitrary: acc) (auto split: option.splits)

lemma show_nat_ne [simp]: "show_nat n \<noteq> []"
  by (subst show_nat.simps) simp

lemma show_nat_digits: "c \<in> set (show_nat n) \<Longrightarrow> 48 \<le> (of_char c :: nat) \<and> (of_char c :: nat) \<le> 57"
proof (induction n rule: show_nat.induct)
  case (1 n)
  show ?case
  proof (cases "n < 10")
    case True
    with "1.prems" have "c = digit_char n" by (simp add: show_nat.simps [of n])
    with True show ?thesis by (simp add: digit_char_def)
  next
    case False
    with "1.prems" have "c \<in> set (show_nat (n div 10)) \<or> c = digit_char (n mod 10)"
      by (auto simp: show_nat.simps [of n])
    moreover have "n mod 10 < 10" by simp
    ultimately show ?thesis using "1.IH" [OF False]
      by (auto simp: digit_char_def)
  qed
qed

lemma show_nat_char:
  "(of_char c :: nat) < 48 \<or> 57 < (of_char c :: nat) \<Longrightarrow> c \<notin> set (show_nat n)"
  using show_nat_digits [of c n] by auto

lemma parse_digits_show: "\<exists>k. \<forall>acc. parse_digits acc (show_nat n) = Some (acc * 10 ^ k + n)"
proof (induction n rule: show_nat.induct)
  case (1 n)
  show ?case
  proof (cases "n < 10")
    case True
    then have "\<forall>acc. parse_digits acc (show_nat n) = Some (acc * 10 ^ 1 + n)"
      by (simp add: show_nat.simps [of n])
    then show ?thesis by blast
  next
    case False
    then obtain k where k: "\<forall>acc. parse_digits acc (show_nat (n div 10)) = Some (acc * 10 ^ k + n div 10)"
      using "1.IH" by blast
    have "\<forall>acc. parse_digits acc (show_nat n) = Some (acc * 10 ^ Suc k + n)"
      using False k by (simp add: show_nat.simps [of n] parse_digits_append algebra_simps)
    then show ?thesis by blast
  qed
qed

lemma parse_digits_show0 [simp]: "parse_digits 0 (show_nat n) = Some n"
  using parse_digits_show [of n] by auto

lemma parse_uint_show [simp]:
  assumes "n < 2 ^ w"
  shows "parse_uint w (show_nat n) = Some n"
proof (cases "show_nat n")
  case (Cons c cs)
  then have "CHR ''+'' \<notin> set (c # cs)"
    using show_nat_char [of "CHR ''+''" n] by simp
  then have "c \<noteq> CHR ''+''" by auto
  moreover have "parse_digits 0 (c # cs) = Some n"
    using Cons parse_digits_show0 [of n] by simp
  ultimately show ?thesis using assms Cons
    by (simp add: parse_uint_def)
qed simp

lemma show_nat_inj [simp]: "show_nat m = show_nat n \<longleftrightarrow> m = n"
  by (metis option.inject parse_digits_show0)

lemma parse_uint_bound: "parse_uint w s = Some n \<Longrightarrow> n < 2 ^ w"
  by (auto simp: parse_uint_def Let_def split: if_splits option.splits list.splits)

section \<open>Addresses\<close>

text \<open>
  \<open>std::net::IpAddr\<close>, IPv6 as the list of its sixteen octets. The textual form of IPv6 is a parameter
  of the definitions that need it.
\<close>

datatype ip_addr = V4 nat nat nat nat | V6 "nat list"

datatype socket_addr = SocketAddr (sa_ip: ip_addr) (sa_port: nat)

definition parse_octet :: "string \<Rightarrow> nat option" where
  "parse_octet s =
     (if s = [] \<or> length s > 3 \<or> (hd s = CHR ''0'' \<and> length s > 1) then None
      else case parse_digits 0 s of
             None \<Rightarrow> None
           | Some n \<Rightarrow> if n < 256 then Some n else None)"

definition parse_ipv4 :: "string \<Rightarrow> ip_addr option" where
  "parse_ipv4 s =
     (case map parse_octet (split_on (CHR ''.'') s) of
        [Some a, Some b, Some c, Some d] \<Rightarrow> Some (V4 a b c d)
      | _ \<Rightarrow> None)"

definition parse_ip :: "(string \<Rightarrow> ip_addr option) \<Rightarrow> string \<Rightarrow> ip_addr option" where
  "parse_ip parse_v6 s = (case parse_ipv4 s of Some a \<Rightarrow> Some a | None \<Rightarrow> parse_v6 s)"

definition show_ipv4 :: "nat \<Rightarrow> nat \<Rightarrow> nat \<Rightarrow> nat \<Rightarrow> string" where
  "show_ipv4 a b c d =
     join_with ''.'' [show_nat a, show_nat b, show_nat c, show_nat d]"

lemma length_show_nat_256: "n < 256 \<Longrightarrow> length (show_nat n) \<le> 3"
  by (subst show_nat.simps, cases "n < 10", simp,
      subst show_nat.simps, cases "n div 10 < 10", simp, subst show_nat.simps, simp)

lemma hd_show_nat_0: "hd (show_nat n) = CHR ''0'' \<Longrightarrow> n = 0"
proof (induction n rule: show_nat.induct)
  case (1 n)
  show ?case
  proof (cases "n < 10")
    case True
    with "1.prems" have "char_of (48 + n) = CHR ''0''"
      by (simp add: show_nat.simps [of n] digit_char_def)
    then have "(of_char (char_of (48 + n) :: char) :: nat) = of_char (CHR ''0'')" by simp
    with True show ?thesis by simp
  next
    case False
    with "1.prems" have "hd (show_nat (n div 10)) = CHR ''0''"
      by (simp add: show_nat.simps [of n])
    with "1.IH" False show ?thesis by fastforce
  qed
qed

lemma show_nat_0: "show_nat 0 = ''0''"
  by code_simp

lemma parse_octet_show [simp]: "n < 256 \<Longrightarrow> parse_octet (show_nat n) = Some n"
  using length_show_nat_256 [of n] hd_show_nat_0 [of n]
  by (auto simp: parse_octet_def show_nat_0)

lemma dot_notin_show [simp]: "CHR ''.'' \<notin> set (show_nat n)"
  by (rule show_nat_char) simp

lemma colon_notin_show [simp]: "CHR '':'' \<notin> set (show_nat n)"
  by (rule show_nat_char) simp

lemma parse_show_ipv4 [simp]:
  assumes "a < 256" "b < 256" "c < 256" "d < 256"
  shows "parse_ipv4 (show_ipv4 a b c d) = Some (V4 a b c d)"
  using assms
  by (simp add: parse_ipv4_def show_ipv4_def split_on_append split_on_none)

section \<open>Bytes and UTF-8\<close>

text \<open>
  \<open>utf8_step\<close> looks at the first bytes: the length of a well-formed character, or of the longest start
  of one that goes wrong. \<open>String::from_utf8\<close> accepts a sequence of characters; \<open>from_utf8_lossy\<close>
  puts U+FFFD in the place of each wrong part.
\<close>

definition utf8_cont :: "nat \<Rightarrow> bool" where
  "utf8_cont b \<longleftrightarrow> 128 \<le> b \<and> b \<le> 191"

definition utf8_second :: "nat \<Rightarrow> nat \<Rightarrow> bool" where
  "utf8_second a b \<longleftrightarrow>
     (if a = 224 then 160 \<le> b \<and> b \<le> 191 else if a = 237 then 128 \<le> b \<and> b \<le> 159
      else if a = 240 then 144 \<le> b \<and> b \<le> 191 else if a = 244 then 128 \<le> b \<and> b \<le> 143
      else utf8_cont b)"

definition byte_at :: "nat list \<Rightarrow> nat \<Rightarrow> nat" where
  "byte_at bs i = (if i < length bs then bs ! i else 0)"

definition utf8_step :: "nat list \<Rightarrow> nat \<times> bool" where
  "utf8_step bs =
     (let a = byte_at bs 0; b = byte_at bs 1; c = byte_at bs 2; d = byte_at bs 3 in
      if a < 128 then (1, True)
      else if 194 \<le> a \<and> a \<le> 223 then (if utf8_cont b then (2, True) else (1, False))
      else if 224 \<le> a \<and> a \<le> 239 then
        (if \<not> utf8_second a b then (1, False) else if utf8_cont c then (3, True) else (2, False))
      else if 240 \<le> a \<and> a \<le> 244 then
        (if \<not> utf8_second a b then (1, False) else if \<not> utf8_cont c then (2, False)
         else if utf8_cont d then (4, True) else (3, False))
      else (1, False))"

lemma utf8_step_pos: "0 < fst (utf8_step bs)"
  by (auto simp: utf8_step_def Let_def)

function utf8_ok :: "nat list \<Rightarrow> bool" where
  "utf8_ok bs =
     (if bs = [] then True else snd (utf8_step bs) \<and> utf8_ok (drop (fst (utf8_step bs)) bs))"
  by auto
termination
  by (relation "measure length") (use utf8_step_pos in auto)

function utf8_lossy :: "nat list \<Rightarrow> nat list" where
  "utf8_lossy bs =
     (if bs = [] then []
      else (if snd (utf8_step bs) then take (fst (utf8_step bs)) bs else [239, 191, 189])
           @ utf8_lossy (drop (fst (utf8_step bs)) bs))"
  by auto
termination
  by (relation "measure length") (use utf8_step_pos in auto)

declare utf8_ok.simps [simp del] utf8_lossy.simps [simp del]

lemma utf8_Nil [simp]: "utf8_ok []" "utf8_lossy [] = []"
  by (simp_all add: utf8_ok.simps utf8_lossy.simps)

lemma utf8_lossy_ok: "utf8_ok bs \<Longrightarrow> utf8_lossy bs = bs"
proof (induction bs rule: utf8_ok.induct)
  case (1 bs)
  show ?case
  proof (cases "bs = []")
    case True
    then show ?thesis by simp
  next
    case False
    with "1.prems" have "snd (utf8_step bs)" "utf8_ok (drop (fst (utf8_step bs)) bs)"
      by (simp_all add: utf8_ok.simps [of bs])
    with "1.IH" False show ?thesis by (simp add: utf8_lossy.simps [of bs])
  qed
qed

lemma utf8_ok_ascii: "(\<And>b. b \<in> set bs \<Longrightarrow> b < 128) \<Longrightarrow> utf8_ok bs"
proof (induction bs)
  case (Cons b bs)
  then have "utf8_step (b # bs) = (1, True)" by (simp add: utf8_step_def byte_at_def)
  with Cons show ?case by (simp add: utf8_ok.simps [of "b # bs"])
qed simp

definition bytes_of :: "string \<Rightarrow> u8 list" where
  "bytes_of s = map (\<lambda>c. of_nat (of_char c)) s"

definition string_of_bytes :: "u8 list \<Rightarrow> string" where
  "string_of_bytes bs = map (\<lambda>b. char_of (unat b :: nat)) bs"

definition well_encoded :: "string \<Rightarrow> bool" where
  "well_encoded s = utf8_ok (map of_char s)"

lemma unat_byte [simp]: "unat (of_nat (of_char c) :: u8) = of_char c"
proof -
  have "(of_char c :: nat) < 256" by simp
  then show ?thesis by (simp add: unat_of_nat)
qed

lemma string_of_bytes_of [simp]: "string_of_bytes (bytes_of s) = s"
  by (induction s) (simp_all add: string_of_bytes_def bytes_of_def)

lemma bytes_of_inj [simp]: "bytes_of s = bytes_of t \<longleftrightarrow> s = t"
  by (metis string_of_bytes_of)

lemma utf8_bytes_of [simp]: "utf8_ok (map unat (bytes_of s)) = well_encoded s"
  by (simp add: bytes_of_def well_encoded_def comp_def)

definition from_utf8 :: "u8 list \<Rightarrow> string option" where
  "from_utf8 bs = (if utf8_ok (map unat bs) then Some (string_of_bytes bs) else None)"

definition from_utf8_lossy :: "u8 list \<Rightarrow> string" where
  "from_utf8_lossy bs = map char_of (utf8_lossy (map unat bs))"

lemma from_utf8_bytes_of: "well_encoded s \<Longrightarrow> from_utf8 (bytes_of s) = Some s"
  by (simp add: from_utf8_def)

lemma from_utf8_lossy_bytes_of: "well_encoded s \<Longrightarrow> from_utf8_lossy (bytes_of s) = s"
proof -
  assume w: "well_encoded s"
  have "utf8_lossy (map of_char s) = map of_char s"
    using w utf8_lossy_ok by (simp add: well_encoded_def)
  then show ?thesis by (simp add: from_utf8_lossy_def bytes_of_def comp_def)
qed

text \<open>\<open>s.chars().take(n)\<close>: the first \<open>n\<close> characters with their continuation bytes.\<close>

fun take_chars :: "nat \<Rightarrow> string \<Rightarrow> string" where
  "take_chars n [] = []"
| "take_chars n (c # cs) =
     (if utf8_cont (of_char c) then c # take_chars n cs
      else if n = 0 then []
      else c # take_chars (n - 1) cs)"

end
