(* ===== verification/Ssh_Types.thy ===== *)
theory Ssh_Types
  imports Prelude
begin

text \<open>
  The shared types of the SSH subsystem: \<open>crates/omni-ssh/src/types.rs\<close>, and \<open>PeerIdentity\<close>,
  \<open>PeerInfo\<close> and \<open>SshEvent\<close> of \<open>crates/omni-ssh/src/server/mod.rs\<close>. Each Rust struct is a record
  whose fields carry a prefix (\<open>ni_\<close> for \<open>NodeInfo\<close>, \<open>act_\<close> for \<open>SshAction\<close>, ...), each enum a
  datatype with the source's constructors.
\<close>

section \<open>Identities\<close>

record node_info =
  ni_id :: string
  ni_name :: string
  ni_virtual_ip :: string
  ni_tags :: "string list"
  ni_online :: bool
  ni_network_id :: string

record user_profile =
  up_id :: string
  up_email :: string
  up_name :: "string option"

record peer_identity =
  pi_node :: node_info
  pi_user :: user_profile

record ssh_conn_info =
  ci_connection_id :: string
  ci_ssh_user :: string
  ci_src_addr :: socket_addr
  ci_dst_addr :: socket_addr
  ci_peer_node :: node_info
  ci_user_profile :: user_profile

record peer_info =
  pf_name :: string
  pf_vpn_ip :: ip_addr
  pf_online :: bool
  pf_device_id :: "string option"

section \<open>Policies\<close>

record time_range =
  tr_start :: string
  tr_end :: string

record time_restrictions =
  tm_allowed_hours :: "time_range option"
  tm_allowed_days :: "string list option"
  tm_timezone :: string
  tm_override_with_approval :: bool

record recording_failure_action =
  rf_reject_session_with_message :: "string option"
  rf_terminate_session_with_message :: "string option"

record ssh_action =
  act_accept :: bool
  act_reject :: bool
  act_message :: "string option"
  act_allow_agent_forwarding :: bool
  act_allow_local_port_forwarding :: bool
  act_allow_remote_port_forwarding :: bool
  act_allow_sftp :: bool
  act_session_duration :: "duration option"
  act_record_session :: bool
  act_recorders :: "string list"
  act_on_recording_failure :: "recording_failure_action option"
  act_hold_and_delegate :: "string option"
  act_allowed_commands :: "string list option"
  act_blocked_commands :: "string list option"
  act_allowed_paths :: "string list option"
  act_read_only :: bool
  act_time_restrictions :: "time_restrictions option"

record ssh_principal =
  pr_node_id :: "string option"
  pr_node_ip :: "string option"
  pr_user_email :: "string option"
  pr_network_id :: "string option"
  pr_tag :: "string option"
  pr_any :: bool

record ssh_rule =
  ru_id :: string
  ru_principals :: "ssh_principal list"
  ru_ssh_users :: "(string, string) hmap"
  ru_action :: ssh_action
  ru_accept_env :: "string list"
  ru_expires :: "datetime option"

record ssh_policy =
  po_version :: u64
  po_updated_at :: datetime
  po_rules :: "ssh_rule list"

datatype auth_result =
    Accept (ar_local_user: string) (ar_action: ssh_action)
  | Reject (ar_message: string)
  | HoldAndDelegate (ar_url: string)

datatype session_command = Shell | Exec string | Sftp

record recording_config =
  rc_enabled :: bool
  rc_local_dir :: "string option"
  rc_cloud_url :: "string option"
  rc_chunk_size :: nat

section \<open>Defaults\<close>

text \<open>The regular expression class for white space in the default block list.\<close>

abbreviation re_ws :: string where
  "re_ws \<equiv> [CHR 0x5C, CHR ''s'']"

definition SshAction_default :: ssh_action where
  "SshAction_default =
     \<lparr>act_accept = False, act_reject = False, act_message = None,
      act_allow_agent_forwarding = False, act_allow_local_port_forwarding = False,
      act_allow_remote_port_forwarding = False, act_allow_sftp = True,
      act_session_duration = None, act_record_session = False, act_recorders = [],
      act_on_recording_failure = None, act_hold_and_delegate = None,
      act_allowed_commands = None,
      act_blocked_commands = Some
        [''^rm'' @ re_ws @ ''+-rf'', ''^rm'' @ re_ws @ ''+.*-rf'', ''^shutdown'', ''^reboot'',
         ''^halt'', ''^poweroff'', ''^dd'' @ re_ws @ ''+if='', ''^mkfs'', ''^format'', ''^fdisk'',
         ''^parted''],
      act_allowed_paths = None, act_read_only = False, act_time_restrictions = None\<rparr>"

definition SshPrincipal_default :: ssh_principal where
  "SshPrincipal_default =
     \<lparr>pr_node_id = None, pr_node_ip = None, pr_user_email = None, pr_network_id = None,
      pr_tag = None, pr_any = False\<rparr>"

definition default_chunk_size :: nat where
  "default_chunk_size = 65536"

definition RecordingConfig_default :: recording_config where
  "RecordingConfig_default =
     \<lparr>rc_enabled = False, rc_local_dir = None, rc_cloud_url = None,
      rc_chunk_size = default_chunk_size\<rparr>"

definition SshPolicy_new :: "datetime \<Rightarrow> ssh_policy" where
  "SshPolicy_new now = \<lparr>po_version = 0, po_updated_at = now, po_rules = []\<rparr>"

definition deny_all :: "datetime \<Rightarrow> ssh_policy" where
  "deny_all now =
     \<lparr>po_version = 0, po_updated_at = now,
      po_rules =
        [\<lparr>ru_id = ''default-deny'',
          ru_principals = [SshPrincipal_default\<lparr>pr_any := True\<rparr>],
          ru_ssh_users = [],
          ru_action = SshAction_default
            \<lparr>act_reject := True,
             act_message := Some ''SSH access denied by default policy''\<rparr>,
          ru_accept_env = [],
          ru_expires = None\<rparr>]\<rparr>"

definition SshPolicy_default :: "datetime \<Rightarrow> ssh_policy" where
  "SshPolicy_default now = deny_all now"

text \<open>
  \<open>option_duration_secs\<close>: the session duration travels as a whole number of seconds.
\<close>

definition serialize_duration :: "duration option \<Rightarrow> nat option" where
  "serialize_duration d = map_option as_secs d"

definition deserialize_duration :: "nat option \<Rightarrow> duration option" where
  "deserialize_duration s = map_option from_secs s"

lemma serialize_deserialize_duration: "serialize_duration (deserialize_duration s) = s"
  by (cases s) (simp_all add: serialize_duration_def deserialize_duration_def)

lemma deserialize_serialize_duration:
  "deserialize_duration (serialize_duration (Some d)) = Some d \<longleftrightarrow> 1000000000 dvd d"
  unfolding serialize_duration_def deserialize_duration_def as_secs_def from_secs_def
  by (simp add: dvd_eq_mod_eq_0 minus_mod_eq_div_mult [symmetric])
     (metis minus_mod_eq_div_mult dvd_div_mult_self dvd_eq_mod_eq_0 dvd_triv_right)

section \<open>Events\<close>

datatype ssh_event =
    ConnectionAttempt socket_addr socket_addr
  | ConnectionAuthenticated string string string
  | ConnectionRejected socket_addr string
  | ConnectionClosed string
  | SessionStarted string string
  | SessionEnded string
  | RecordingStarted string
  | RecordingFailed string string
  | CommandBlocked string string string
  | RateLimitExceeded ip_addr u32

end
