(* ===== verification/Machines.thy ===== *)
theory Machines
  imports Prelude
begin

text \<open>
  Components as machines: an operation takes a state to a list of outputs and the next state, and
  a run is a sequence of operations. The locales hold what is proved once for every component: an
  invariant that each operation keeps holds after every run and bounds what a run can put out, also
  when an operation uses up one of a limited number of identifiers.
\<close>

fun run_ops :: "('x \<Rightarrow> 's \<Rightarrow> 'o list \<times> 's) \<Rightarrow> 'x list \<Rightarrow> 's \<Rightarrow> 'o list \<times> 's" where
  "run_ops step [] s = ([], s)"
| "run_ops step (x # xs) s =
     (let (os, s1) = step x s; (os', s2) = run_ops step xs s1 in (os @ os', s2))"

lemma run_ops_append:
  "run_ops step (xs @ ys) s =
     (let (os, s1) = run_ops step xs s; (os', s2) = run_ops step ys s1 in (os @ os', s2))"
  by (induction xs arbitrary: s) (simp_all add: split_beta Let_def)

lemma run_ops_outputs:
  "r \<in> set (fst (run_ops step xs s)) \<Longrightarrow>
   \<exists>ys x zs. xs = ys @ x # zs \<and> r \<in> set (fst (step x (snd (run_ops step ys s))))"
proof (induction xs arbitrary: s)
  case (Cons x xs)
  then consider "r \<in> set (fst (step x s))" | "r \<in> set (fst (run_ops step xs (snd (step x s))))"
    by (auto simp: split_beta Let_def)
  then show ?case
  proof cases
    case 1
    then show ?thesis by (intro exI [of _ "[]"] exI [of _ x] exI [of _ xs]) simp
  next
    case 2
    from Cons.IH [OF this] obtain ys y zs where "xs = ys @ y # zs"
      "r \<in> set (fst (step y (snd (run_ops step ys (snd (step x s))))))" by blast
    then show ?thesis
      by (intro exI [of _ "x # ys"] exI [of _ y] exI [of _ zs]) (simp add: split_beta Let_def)
  qed
qed simp

text \<open>An invariant indexed by the number of operations made, below a bound.\<close>

locale counted_machine =
  fixes step :: "'x \<Rightarrow> 's \<Rightarrow> 'o list \<times> 's"
    and inv :: "nat \<Rightarrow> 's \<Rightarrow> bool"
    and bound :: nat
  assumes step_counted: "inv n s \<Longrightarrow> n < bound \<Longrightarrow> inv (Suc n) (snd (step x s))"
begin

lemma run_counted:
  "inv n s \<Longrightarrow> n + length xs \<le> bound \<Longrightarrow> inv (n + length xs) (snd (run_ops step xs s))"
proof (induction xs arbitrary: n s)
  case (Cons x xs)
  have "inv (Suc n) (snd (step x s))" using Cons.prems by (intro step_counted) auto
  from Cons.IH [OF this] Cons.prems(2) show ?case by (simp add: split_beta Let_def)
qed simp

end

text \<open>An invariant that the operations of a kind keep.\<close>

locale guarded_machine =
  fixes step :: "'x \<Rightarrow> 's \<Rightarrow> 'o list \<times> 's"
    and inv :: "'s \<Rightarrow> bool"
    and ok :: "'x \<Rightarrow> bool"
  assumes step_guarded: "inv s \<Longrightarrow> ok x \<Longrightarrow> inv (snd (step x s))"
begin

lemma run_guarded: "inv s \<Longrightarrow> list_all ok xs \<Longrightarrow> inv (snd (run_ops step xs s))"
  by (induction xs arbitrary: s) (simp_all add: split_beta Let_def step_guarded)

end

text \<open>An invariant that every operation keeps.\<close>

locale invariant_machine =
  fixes step :: "'x \<Rightarrow> 's \<Rightarrow> 'o list \<times> 's"
    and inv :: "'s \<Rightarrow> bool"
  assumes step_inv: "inv s \<Longrightarrow> inv (snd (step x s))"

sublocale invariant_machine \<subseteq> guarded: guarded_machine step inv "\<lambda>x. True"
  by unfold_locales (rule step_inv)

context invariant_machine
begin

lemma run_inv: "inv s \<Longrightarrow> inv (snd (run_ops step xs s))"
  by (rule guarded.run_guarded) (simp_all add: list_all_iff)

lemma run_output:
  assumes "inv s" and "r \<in> set (fst (run_ops step xs s))"
  shows "\<exists>x s'. inv s' \<and> r \<in> set (fst (step x s'))"
  using run_ops_outputs [OF assms(2)] run_inv [OF assms(1)] by blast

end

text \<open>An invariant without a count is one that counts nothing.\<close>

sublocale invariant_machine \<subseteq> counted: counted_machine step "\<lambda>n. inv" bound for bound
  by unfold_locales (rule step_inv)

text \<open>
  A quantity that no operation changes, such as a part of the configuration, is that of the start
  after every run.
\<close>

locale framed_machine =
  fixes step :: "'x \<Rightarrow> 's \<Rightarrow> 'o list \<times> 's"
    and part :: "'s \<Rightarrow> 'p"
  assumes step_frame: "part (snd (step x s)) = part s"
begin

lemma run_frame: "part (snd (run_ops step xs s)) = part s"
  by (induction xs arbitrary: s) (simp_all add: split_beta Let_def step_frame)

end

sublocale framed_machine \<subseteq> inv: invariant_machine step "\<lambda>s. part s = p" for p
  by unfold_locales (simp add: step_frame)

end
