(* ===== verification/Rate_Limit.thy ===== *)
theory Rate_Limit
  imports Ssh_Types Machines
begin

text \<open>
  \<open>crates/omni-ssh/src/server/rate_limit.rs\<close>: the connection rate limiter. The three \<open>DashMap\<close>s are
  hash maps; tokio's semaphore is a state of the type parameter \<open>'s\<close>, read through the parameter
  \<open>avail\<close> (\<open>available_permits\<close>) and changed through \<open>acq\<close> (\<open>try_acquire_owned\<close>). Every call reads
  the clock once, as \<open>now\<close>; counters are 32 bits wide.
\<close>

section \<open>State\<close>

record connection_count =
  cc_count :: u32
  cc_window_start :: instant

record failed_auth_count =
  fa_count :: u32
  fa_first_failure :: instant

record 's rate_limiter =
  rl_per_ip_per_minute :: u32
  rl_max_failed_auth :: u32
  rl_ban_duration :: duration
  rl_max_concurrent :: u32
  rl_connection_counts :: "(ip_addr, connection_count) hmap"
  rl_failed_auth_counts :: "(ip_addr, failed_auth_count) hmap"
  rl_banned_ips :: "(ip_addr, instant) hmap"
  rl_concurrent_semaphore :: 's

datatype rate_limit_result =
    Allowed
  | RateLimited duration
  | Banned duration
  | TooManyConnections

record rate_limiter_stats =
  rs_active_connections :: int
  rs_banned_ips :: nat
  rs_tracked_ips :: nat

section \<open>Operations\<close>

definition rl_new :: "(nat \<Rightarrow> 's) \<Rightarrow> u32 \<Rightarrow> u32 \<Rightarrow> duration \<Rightarrow> u32 \<Rightarrow> 's rate_limiter" where
  "rl_new sem_new per_ip max_failed ban maxc =
     \<lparr>rl_per_ip_per_minute = per_ip, rl_max_failed_auth = max_failed, rl_ban_duration = ban,
      rl_max_concurrent = maxc, rl_connection_counts = [], rl_failed_auth_counts = [],
      rl_banned_ips = [], rl_concurrent_semaphore = sem_new (unat maxc)\<rparr>"

definition rl_default :: "(nat \<Rightarrow> 's) \<Rightarrow> 's rate_limiter" where
  "rl_default sem_new = rl_new sem_new 10 5 (from_secs 900) 100"

text \<open>Steps 2 and 3 of \<open>check_allowed\<close>: the window of the address and the global limit.\<close>

definition window_entry :: "instant \<Rightarrow> ip_addr \<Rightarrow> 's rate_limiter \<Rightarrow> connection_count" where
  "window_entry now ip l =
     (let entry = (case hm_get (rl_connection_counts l) ip of
                     Some c \<Rightarrow> c
                   | None \<Rightarrow> \<lparr>cc_count = 0, cc_window_start = now\<rparr>) in
      if elapsed (cc_window_start entry) now > from_secs 60
      then \<lparr>cc_count = 0, cc_window_start = now\<rparr> else entry)"

definition set_window :: "ip_addr \<Rightarrow> connection_count \<Rightarrow> 's rate_limiter \<Rightarrow> 's rate_limiter" where
  "set_window ip c l = l\<lparr>rl_connection_counts := hm_insert ip c (rl_connection_counts l)\<rparr>"

definition check_window ::
  "('s \<Rightarrow> nat) \<Rightarrow> instant \<Rightarrow> ip_addr \<Rightarrow> 's rate_limiter \<Rightarrow> rate_limit_result \<times> 's rate_limiter" where
  "check_window avail now ip l =
     (let entry = window_entry now ip l in
      if rl_per_ip_per_minute l \<le> cc_count entry then
        (let e = elapsed (cc_window_start entry) now in
         (RateLimited (if e \<le> from_secs 60 then from_secs 60 - e else from_secs 1),
          set_window ip entry l))
      else if avail (rl_concurrent_semaphore l) = 0 then
        (TooManyConnections, set_window ip entry l)
      else
        (Allowed, set_window ip (entry\<lparr>cc_count := cc_count entry + 1\<rparr>) l))"

definition check_allowed ::
  "('s \<Rightarrow> nat) \<Rightarrow> instant \<Rightarrow> ip_addr \<Rightarrow> 's rate_limiter \<Rightarrow> rate_limit_result \<times> 's rate_limiter" where
  "check_allowed avail now ip l =
     (case hm_get (rl_banned_ips l) ip of
        Some ban_time \<Rightarrow>
          if elapsed ban_time now < rl_ban_duration l then
            (Banned (rl_ban_duration l - elapsed ban_time now), l)
          else
            check_window avail now ip
              (l\<lparr>rl_banned_ips := hm_remove ip (rl_banned_ips l),
                 rl_failed_auth_counts := hm_remove ip (rl_failed_auth_counts l)\<rparr>)
      | None \<Rightarrow> check_window avail now ip l)"

definition try_acquire_permit ::
  "('s \<Rightarrow> ('p \<times> 's) option) \<Rightarrow> 's rate_limiter \<Rightarrow> 'p option \<times> 's rate_limiter" where
  "try_acquire_permit acq l =
     (case acq (rl_concurrent_semaphore l) of
        None \<Rightarrow> (None, l)
      | Some (p, s) \<Rightarrow> (Some p, l\<lparr>rl_concurrent_semaphore := s\<rparr>))"

definition record_failed_auth :: "instant \<Rightarrow> ip_addr \<Rightarrow> 's rate_limiter \<Rightarrow> 's rate_limiter" where
  "record_failed_auth now ip l =
     (let entry0 = (case hm_get (rl_failed_auth_counts l) ip of
                      Some c \<Rightarrow> c
                    | None \<Rightarrow> \<lparr>fa_count = 0, fa_first_failure = now\<rparr>);
          entry1 = (if elapsed (fa_first_failure entry0) now > from_secs 3600
                    then \<lparr>fa_count = 0, fa_first_failure = now\<rparr> else entry0);
          entry = entry1\<lparr>fa_count := fa_count entry1 + 1\<rparr>;
          l1 = l\<lparr>rl_failed_auth_counts := hm_insert ip entry (rl_failed_auth_counts l)\<rparr> in
      if rl_max_failed_auth l \<le> fa_count entry
      then l1\<lparr>rl_banned_ips := hm_insert ip now (rl_banned_ips l1)\<rparr> else l1)"

definition record_successful_auth :: "ip_addr \<Rightarrow> 's rate_limiter \<Rightarrow> 's rate_limiter" where
  "record_successful_auth ip l =
     l\<lparr>rl_failed_auth_counts := hm_remove ip (rl_failed_auth_counts l)\<rparr>"

definition is_banned :: "instant \<Rightarrow> ip_addr \<Rightarrow> 's rate_limiter \<Rightarrow> bool" where
  "is_banned now ip l =
     (case hm_get (rl_banned_ips l) ip of
        Some ban_time \<Rightarrow> elapsed ban_time now < rl_ban_duration l
      | None \<Rightarrow> False)"

definition ban_remaining :: "instant \<Rightarrow> ip_addr \<Rightarrow> 's rate_limiter \<Rightarrow> duration option" where
  "ban_remaining now ip l =
     (case hm_get (rl_banned_ips l) ip of
        Some ban_time \<Rightarrow>
          if elapsed ban_time now < rl_ban_duration l
          then Some (rl_ban_duration l - elapsed ban_time now) else None
      | None \<Rightarrow> None)"

definition ban_ip :: "instant \<Rightarrow> ip_addr \<Rightarrow> 's rate_limiter \<Rightarrow> 's rate_limiter" where
  "ban_ip now ip l = l\<lparr>rl_banned_ips := hm_insert ip now (rl_banned_ips l)\<rparr>"

definition unban_ip :: "ip_addr \<Rightarrow> 's rate_limiter \<Rightarrow> 's rate_limiter" where
  "unban_ip ip l =
     l\<lparr>rl_banned_ips := hm_remove ip (rl_banned_ips l),
       rl_failed_auth_counts := hm_remove ip (rl_failed_auth_counts l)\<rparr>"

definition cleanup :: "instant \<Rightarrow> 's rate_limiter \<Rightarrow> 's rate_limiter" where
  "cleanup now l =
     l\<lparr>rl_banned_ips :=
         hm_retain (\<lambda>_ ban_time. elapsed ban_time now < rl_ban_duration l) (rl_banned_ips l),
       rl_connection_counts :=
         hm_retain (\<lambda>_ c. elapsed (cc_window_start c) now < from_secs 120) (rl_connection_counts l),
       rl_failed_auth_counts :=
         hm_retain (\<lambda>_ c. elapsed (fa_first_failure c) now < from_secs 3600) (rl_failed_auth_counts l)\<rparr>"

text \<open>\<open>stats\<close> subtracts in \<open>usize\<close>; the integer result is negative where the code would overflow.\<close>

definition rl_stats :: "('s \<Rightarrow> nat) \<Rightarrow> 's rate_limiter \<Rightarrow> rate_limiter_stats" where
  "rl_stats avail l =
     \<lparr>rs_active_connections =
        int (unat (rl_max_concurrent l)) - int (avail (rl_concurrent_semaphore l)),
      rs_banned_ips = hm_len (rl_banned_ips l),
      rs_tracked_ips = hm_len (rl_connection_counts l)\<rparr>"

definition banned_ip_list :: "instant \<Rightarrow> 's rate_limiter \<Rightarrow> (ip_addr \<times> duration) list" where
  "banned_ip_list now l =
     List.map_filter (\<lambda>(ip, ban_time).
        let e = elapsed ban_time now in
        if e < rl_ban_duration l then Some (ip, rl_ban_duration l - e) else None)
       (rl_banned_ips l)"

section \<open>Runs\<close>

text \<open>
  Every state change of the limiter as an operation, and a run of operations at given times. The
  list holds the answers of the \<open>check_allowed\<close> calls with the address that asked.
\<close>

datatype rl_op =
    Check ip_addr
  | FailedAuth ip_addr
  | SuccessfulAuth ip_addr
  | Ban ip_addr
  | Unban ip_addr
  | Cleanup

fun rl_step ::
  "('s \<Rightarrow> nat) \<Rightarrow> instant \<Rightarrow> rl_op \<Rightarrow> 's rate_limiter \<Rightarrow>
     (ip_addr \<times> rate_limit_result) list \<times> 's rate_limiter" where
  "rl_step avail now (Check ip) l =
     (let (r, l') = check_allowed avail now ip l in ([(ip, r)], l'))"
| "rl_step avail now (FailedAuth ip) l = ([], record_failed_auth now ip l)"
| "rl_step avail now (SuccessfulAuth ip) l = ([], record_successful_auth ip l)"
| "rl_step avail now (Ban ip) l = ([], ban_ip now ip l)"
| "rl_step avail now (Unban ip) l = ([], unban_ip ip l)"
| "rl_step avail now Cleanup l = ([], cleanup now l)"

definition rl_run ::
  "('s \<Rightarrow> nat) \<Rightarrow> (instant \<times> rl_op) list \<Rightarrow> 's rate_limiter \<Rightarrow>
     (ip_addr \<times> rate_limit_result) list \<times> 's rate_limiter" where
  "rl_run avail xs l = run_ops (\<lambda>(t, x). rl_step avail t x) xs l"

lemma rl_run_simps [simp]:
  "rl_run avail [] l = ([], l)"
  "rl_run avail ((t, x) # xs) l =
     (let (rs, l1) = rl_step avail t x l; (rs', l2) = rl_run avail xs l1 in (rs @ rs', l2))"
  by (simp_all add: rl_run_def)

definition rl_wf :: "'s rate_limiter \<Rightarrow> bool" where
  "rl_wf l \<longleftrightarrow> hm_wf (rl_connection_counts l) \<and> hm_wf (rl_failed_auth_counts l)
     \<and> hm_wf (rl_banned_ips l)"

definition allowed_count :: "ip_addr \<Rightarrow> (ip_addr \<times> rate_limit_result) list \<Rightarrow> nat" where
  "allowed_count ip rs = count_list rs (ip, Allowed)"

lemmas rl_defs = check_allowed_def check_window_def set_window_def Let_def
  record_failed_auth_def record_successful_auth_def ban_ip_def unban_ip_def cleanup_def

section \<open>Invariant and frame\<close>

lemma rl_wf_new [simp]: "rl_wf (rl_new s p m b c)"
  by (simp add: rl_wf_def rl_new_def)

lemma rl_wf_step: "rl_wf l \<Longrightarrow> rl_wf (snd (rl_step avail t x l))"
  by (cases x) (auto simp: rl_wf_def rl_defs split: option.splits if_splits)

interpretation limiter: invariant_machine "\<lambda>(t, x). rl_step avail t x" rl_wf for avail
  by unfold_locales (auto intro: rl_wf_step)

lemma rl_run_wf: "rl_wf l \<Longrightarrow> rl_wf (snd (rl_run avail xs l))"
  unfolding rl_run_def by (rule limiter.run_inv)

text \<open>The configuration and the semaphore are never changed by these operations.\<close>

lemma rl_step_config [simp]:
  "rl_per_ip_per_minute (snd (rl_step avail t x l)) = rl_per_ip_per_minute l"
  "rl_max_failed_auth (snd (rl_step avail t x l)) = rl_max_failed_auth l"
  "rl_ban_duration (snd (rl_step avail t x l)) = rl_ban_duration l"
  "rl_max_concurrent (snd (rl_step avail t x l)) = rl_max_concurrent l"
  "rl_concurrent_semaphore (snd (rl_step avail t x l)) = rl_concurrent_semaphore l"
  by (cases x; auto simp: rl_defs split: option.splits if_splits)+

interpretation limiter_config: framed_machine "\<lambda>(t, x). rl_step avail t x"
    "\<lambda>l. (rl_per_ip_per_minute l, rl_ban_duration l, rl_concurrent_semaphore l)" for avail
  by unfold_locales auto

text \<open>The parts of \<open>check_allowed\<close> that the proofs below use.\<close>

lemma check_allowed_counts_other:
  "ip' \<noteq> ip \<Longrightarrow> hm_get (rl_connection_counts (snd (check_allowed avail t ip l))) ip'
     = hm_get (rl_connection_counts l) ip'"
  by (auto simp: rl_defs split: option.splits)

lemma check_allowed_bans:
  "hm_get (rl_banned_ips (snd (check_allowed avail t ip l))) ip'
     = (if ip' = ip \<and> \<not> is_banned t ip l then None else hm_get (rl_banned_ips l) ip')"
  by (auto simp: rl_defs is_banned_def split: option.splits)

lemma window_entry_cong:
  "hm_get (rl_connection_counts l) ip = hm_get (rl_connection_counts l') ip \<Longrightarrow>
   window_entry t ip l = window_entry t ip l'"
  by (simp add: window_entry_def)

text \<open>What a call of \<open>check_allowed\<close> does to the window of its own address.\<close>

lemma check_allowed_window:
  "check_allowed avail t ip l = (r, l') \<Longrightarrow>
   (\<exists>d. r = Banned d \<and> hm_get (rl_connection_counts l') ip = hm_get (rl_connection_counts l) ip) \<or>
   (let e = window_entry t ip l in
     (r \<noteq> Allowed \<and> hm_get (rl_connection_counts l') ip = Some e) \<or>
     (r = Allowed \<and> cc_count e < rl_per_ip_per_minute l \<and>
      hm_get (rl_connection_counts l') ip = Some (e\<lparr>cc_count := cc_count e + 1\<rparr>)))"
  by (auto simp: rl_defs window_entry_def not_le word_neq_0_conv
      split: option.splits if_splits)

section \<open>The per-address limit\<close>

text \<open>
  The number of further connections the limiter can grant an address during the sixty seconds
  from \<open>t0\<close>: what is left of a window that began at or after \<open>t0\<close>; a window that began earlier
  can still be reset once.
\<close>

definition budget :: "instant \<Rightarrow> ip_addr \<Rightarrow> 's rate_limiter \<Rightarrow> nat" where
  "budget t0 ip l =
     (let n = unat (rl_per_ip_per_minute l) in
      case hm_get (rl_connection_counts l) ip of
        None \<Rightarrow> n
      | Some e \<Rightarrow> (n - unat (cc_count e)) + (if t0 \<le> cc_window_start e then 0 else n))"

lemma budget_bound: "budget t0 ip l \<le> 2 * unat (rl_per_ip_per_minute l)"
  by (auto simp: budget_def Let_def split: option.splits)

lemma budget_cong:
  "hm_get (rl_connection_counts l) ip = hm_get (rl_connection_counts l') ip \<Longrightarrow>
   rl_per_ip_per_minute l = rl_per_ip_per_minute l' \<Longrightarrow> budget t0 ip l = budget t0 ip l'"
  by (simp add: budget_def)

lemma unat_Suc_less: "(c :: u32) < n \<Longrightarrow> unat (c + 1) = Suc (unat c)"
  by unat_arith

text \<open>A window entry never raises the budget: it is the stored one, or a reset one.\<close>

lemma budget_window_entry:
  assumes "t0 \<le> t" and "t \<le> t0 + from_secs 60"
  shows "(unat (rl_per_ip_per_minute l) - unat (cc_count (window_entry t ip l)))
     + (if t0 \<le> cc_window_start (window_entry t ip l) then 0 else unat (rl_per_ip_per_minute l))
     \<le> budget t0 ip l"
  using assms
  by (auto simp: budget_def window_entry_def elapsed_def Let_def split: option.splits)

lemma check_allowed_budget:
  assumes t: "t0 \<le> t" "t \<le> t0 + from_secs 60"
    and c: "check_allowed avail t ip l = (r, l')"
  shows "(if r = Allowed then 1 else 0) + budget t0 ip l' \<le> budget t0 ip l"
proof -
  have cfg: "rl_per_ip_per_minute l' = rl_per_ip_per_minute l"
    using c rl_step_config(1) [of avail t "Check ip" l] by (simp add: split_beta Let_def)
  let ?e = "window_entry t ip l"
  consider (ban) d where "r = Banned d"
      "hm_get (rl_connection_counts l') ip = hm_get (rl_connection_counts l) ip"
    | (no) "r \<noteq> Allowed" "hm_get (rl_connection_counts l') ip = Some ?e"
    | (yes) "r = Allowed" "cc_count ?e < rl_per_ip_per_minute l"
      "hm_get (rl_connection_counts l') ip = Some (?e\<lparr>cc_count := cc_count ?e + 1\<rparr>)"
    using check_allowed_window [OF c] by (auto simp: Let_def)
  then show ?thesis
  proof cases
    case ban
    then show ?thesis using budget_cong [of l' ip l t0] cfg by simp
  next
    case no
    then show ?thesis using budget_window_entry [OF t, of l ip] cfg
      by (simp add: budget_def [of t0 ip l'] Let_def)
  next
    case yes
    then have "unat (cc_count ?e) < unat (rl_per_ip_per_minute l)"
      and "unat (cc_count ?e + 1) = Suc (unat (cc_count ?e))"
      by (simp_all add: word_less_nat_alt unat_Suc_less)
    with yes show ?thesis using budget_window_entry [OF t, of l ip] cfg
      by (auto simp: budget_def [of t0 ip l'] Let_def)
  qed
qed

lemma cleanup_budget:
  assumes wf: "rl_wf l" and t: "t0 \<le> t" "t \<le> t0 + from_secs 60"
  shows "budget t0 ip (cleanup t l) \<le> budget t0 ip l"
proof -
  have w: "hm_wf (rl_connection_counts l)" using wf by (simp add: rl_wf_def)
  have gap: "from_secs 120 = from_secs 60 + from_secs 60"
    by (simp add: from_secs_def)
  have pos: "0 < from_secs 60" by (simp add: from_secs_def)
  show ?thesis
    using t gap pos
    by (auto simp: budget_def cleanup_def Let_def hm_get_retain [OF w] elapsed_def split: option.splits)
qed

lemma rl_step_budget:
  assumes "rl_wf l" "t0 \<le> t" "t \<le> t0 + from_secs 60"
  shows "allowed_count ip (fst (rl_step avail t x l)) + budget t0 ip (snd (rl_step avail t x l))
     \<le> budget t0 ip l"
proof (cases x)
  case (Check ip')
  obtain r l' where c: "check_allowed avail t ip' l = (r, l')"
    by (cases "check_allowed avail t ip' l")
  show ?thesis
  proof (cases "ip' = ip")
    case True
    with check_allowed_budget [OF assms(2,3) c] Check c show ?thesis
      by (auto simp: allowed_count_def)
  next
    case False
    then have "budget t0 ip l' = budget t0 ip l"
      using check_allowed_counts_other [of ip ip' avail t l] c
        rl_step_config(1) [of avail t "Check ip'" l]
      by (intro budget_cong) (simp_all add: split_beta Let_def)
    with False Check c show ?thesis by (simp add: allowed_count_def)
  qed
qed (use cleanup_budget [OF assms, of ip] in
       \<open>auto simp: allowed_count_def rl_defs intro!: eq_imp_le budget_cong\<close>)

lemma allowed_count_append [simp]:
  "allowed_count ip (a @ b) = allowed_count ip a + allowed_count ip b"
  by (simp add: allowed_count_def)

lemma rl_run_budget:
  assumes "rl_wf l" "\<forall>(t, x) \<in> set xs. t0 \<le> t \<and> t \<le> t0 + from_secs 60"
  shows "allowed_count ip (fst (rl_run avail xs l)) + budget t0 ip (snd (rl_run avail xs l))
     \<le> budget t0 ip l"
  using assms
proof (induction xs arbitrary: l)
  case (Cons a xs)
  obtain t x where a: "a = (t, x)" by (cases a)
  let ?l1 = "snd (rl_step avail t x l)"
  have "rl_wf ?l1" using Cons.prems(1) by (rule rl_wf_step)
  with Cons have "allowed_count ip (fst (rl_run avail xs ?l1))
      + budget t0 ip (snd (rl_run avail xs ?l1)) \<le> budget t0 ip ?l1"
    by simp
  moreover have "allowed_count ip (fst (rl_step avail t x l)) + budget t0 ip ?l1 \<le> budget t0 ip l"
    using Cons.prems a by (intro rl_step_budget) auto
  ultimately show ?case using a by (simp add: split_beta Let_def)
qed (simp add: allowed_count_def)

lemma rl_run_config [simp]:
  "rl_per_ip_per_minute (snd (rl_run avail xs l)) = rl_per_ip_per_minute l"
  "rl_ban_duration (snd (rl_run avail xs l)) = rl_ban_duration l"
  "rl_concurrent_semaphore (snd (rl_run avail xs l)) = rl_concurrent_semaphore l"
  using limiter_config.run_frame [of avail xs l] by (simp_all add: rl_run_def)

section \<open>Bans\<close>

lemma cleanup_bans:
  "rl_wf l \<Longrightarrow> hm_get (rl_banned_ips (cleanup t l)) ip =
     (if is_banned t ip l then hm_get (rl_banned_ips l) ip else None)"
  by (auto simp: cleanup_def rl_wf_def hm_get_retain is_banned_def split: option.splits)

lemma record_failed_auth_bans:
  "hm_get (rl_banned_ips (record_failed_auth t ip' l)) ip \<in>
     {hm_get (rl_banned_ips l) ip} \<union> (if ip' = ip then {Some t} else {})"
  by (auto simp: rl_defs)

text \<open>Every operation but \<open>unban_ip\<close> keeps a ban that has not run out.\<close>

lemma rl_step_keeps_ban:
  assumes "rl_wf l" and ban: "hm_get (rl_banned_ips l) ip = Some b" "tb \<le> b"
    and t: "tb \<le> t" "t < tb + rl_ban_duration l" and x: "x \<noteq> Unban ip"
  shows "\<exists>b'. hm_get (rl_banned_ips (snd (rl_step avail t x l))) ip = Some b' \<and> tb \<le> b'"
proof -
  have banned: "is_banned t ip l"
    using ban t by (auto simp: is_banned_def elapsed_def)
  show ?thesis
  proof (cases x)
    case (FailedAuth ip')
    then show ?thesis using record_failed_auth_bans [of t ip' l ip] ban t
      by (auto split: if_splits)
  next
    case Cleanup
    then show ?thesis using cleanup_bans [OF assms(1), of t ip] banned ban by simp
  qed (use ban t x banned in
    \<open>auto simp: check_allowed_bans split_beta Let_def record_successful_auth_def ban_ip_def unban_ip_def\<close>)
qed

lemma is_banned_check:
  "fst (check_allowed avail t ip l) = Banned d \<longleftrightarrow> ban_remaining t ip l = Some d"
  by (auto simp: rl_defs ban_remaining_def split: option.splits)

lemma is_banned_remaining: "is_banned t ip l \<longleftrightarrow> ban_remaining t ip l \<noteq> None"
  by (auto simp: is_banned_def ban_remaining_def split: option.splits)

lemma rl_run_banned:
  assumes "rl_wf l" and "hm_get (rl_banned_ips l) ip = Some b" "tb \<le> b"
    and "\<forall>(t, x) \<in> set xs. tb \<le> t \<and> t < tb + rl_ban_duration l \<and> x \<noteq> Unban ip"
    and "(ip, r) \<in> set (fst (rl_run avail xs l))"
  shows "\<exists>d. r = Banned d"
  using assms
proof (induction xs arbitrary: l b)
  case (Cons a xs)
  obtain t x where a: "a = (t, x)" by (cases a)
  let ?l1 = "snd (rl_step avail t x l)"
  obtain b' where b': "hm_get (rl_banned_ips ?l1) ip = Some b'" "tb \<le> b'"
    using rl_step_keeps_ban [OF Cons.prems(1-3), of t x avail] Cons.prems(4) a by auto
  have wf: "rl_wf ?l1" using Cons.prems(1) by (rule rl_wf_step)
  from Cons.prems(5) a consider
    (now) "(ip, r) \<in> set (fst (rl_step avail t x l))"
    | (later) "(ip, r) \<in> set (fst (rl_run avail xs ?l1))"
    by (auto simp: split_beta Let_def)
  then show ?case
  proof cases
    case now
    then have x: "x = Check ip" and r: "r = fst (check_allowed avail t ip l)"
      by (cases x; auto simp: split_beta Let_def)+
    have "ban_remaining t ip l \<noteq> None"
      using Cons.prems a by (auto simp: ban_remaining_def elapsed_def)
    with r show ?thesis by (metis is_banned_check not_None_eq)
  next
    case later
    show ?thesis
      by (rule Cons.IH [OF wf b' _ later]) (use Cons.prems(4) a in auto)
  qed
qed simp

text \<open>The failure counter after a series of failures within an hour of the first.\<close>

abbreviation failures :: "instant list \<Rightarrow> ip_addr \<Rightarrow> 's rate_limiter \<Rightarrow> 's rate_limiter" where
  "failures ts ip l \<equiv> fold (\<lambda>t. record_failed_auth t ip) ts l"

lemma failures_config [simp]:
  "rl_max_failed_auth (failures ts ip l) = rl_max_failed_auth l"
  "rl_ban_duration (failures ts ip l) = rl_ban_duration l"
  by (induction ts arbitrary: l) (auto simp: rl_defs)

lemma record_failed_auth_first:
  assumes "hm_get (rl_failed_auth_counts l) ip = None"
  shows "hm_get (rl_failed_auth_counts (record_failed_auth t ip l)) ip
      = Some \<lparr>fa_count = 1, fa_first_failure = t\<rparr>"
    and "hm_get (rl_banned_ips (record_failed_auth t ip l)) ip
      = (if rl_max_failed_auth l \<le> 1 then Some t else hm_get (rl_banned_ips l) ip)"
  using assms by (simp_all add: record_failed_auth_def Let_def)

lemma record_failed_auth_next:
  assumes "hm_get (rl_failed_auth_counts l) ip = Some \<lparr>fa_count = c, fa_first_failure = t1\<rparr>"
    and "t \<le> t1 + from_secs 3600"
  shows "hm_get (rl_failed_auth_counts (record_failed_auth t ip l)) ip
      = Some \<lparr>fa_count = c + 1, fa_first_failure = t1\<rparr>"
    and "hm_get (rl_banned_ips (record_failed_auth t ip l)) ip
      = (if rl_max_failed_auth l \<le> c + 1 then Some t else hm_get (rl_banned_ips l) ip)"
proof -
  have "\<not> elapsed t1 t > from_secs 3600" using assms(2) by (simp add: elapsed_def)
  with assms(1) show "hm_get (rl_failed_auth_counts (record_failed_auth t ip l)) ip
      = Some \<lparr>fa_count = c + 1, fa_first_failure = t1\<rparr>"
    and "hm_get (rl_banned_ips (record_failed_auth t ip l)) ip
      = (if rl_max_failed_auth l \<le> c + 1 then Some t else hm_get (rl_banned_ips l) ip)"
    by (simp_all add: record_failed_auth_def Let_def)
qed

lemma failures_count:
  assumes "hm_get (rl_failed_auth_counts l) ip = None"
    and "\<forall>t \<in> set ts. t \<le> hd ts + from_secs 3600" and "ts \<noteq> []"
  shows "hm_get (rl_failed_auth_counts (failures ts ip l)) ip
     = Some \<lparr>fa_count = of_nat (length ts), fa_first_failure = hd ts\<rparr>"
  using assms(2,3)
proof (induction ts rule: rev_induct)
  case (snoc t ts)
  show ?case
  proof (cases "ts = []")
    case True
    with assms(1) show ?thesis by (simp add: record_failed_auth_first)
  next
    case False
    with snoc have "hm_get (rl_failed_auth_counts (failures ts ip l)) ip
       = Some \<lparr>fa_count = of_nat (length ts), fa_first_failure = hd ts\<rparr>" by simp
    from record_failed_auth_next(1) [OF this, of t] snoc.prems(1) False show ?thesis
      by (simp add: add.commute)
  qed
qed simp

text \<open>The bans after one failure more: exactly when the counter has reached the limit.\<close>

lemma failures_snoc_ban:
  assumes "hm_get (rl_failed_auth_counts l) ip = None"
    and "\<forall>t' \<in> set (ts @ [t]). t' \<le> hd (ts @ [t]) + from_secs 3600"
  shows "hm_get (rl_banned_ips (failures (ts @ [t]) ip l)) ip
     = (if rl_max_failed_auth l \<le> of_nat (length (ts @ [t])) then Some t
        else hm_get (rl_banned_ips (failures ts ip l)) ip)"
proof (cases "ts = []")
  case True
  with assms(1) show ?thesis by (simp add: record_failed_auth_first)
next
  case False
  with assms have "hm_get (rl_failed_auth_counts (failures ts ip l)) ip
     = Some \<lparr>fa_count = of_nat (length ts), fa_first_failure = hd ts\<rparr>"
    by (intro failures_count) auto
  from record_failed_auth_next(2) [OF this, of t] assms(2) False show ?thesis
    by (simp add: add.commute)
qed

lemma failures_ban:
  assumes "hm_get (rl_failed_auth_counts l) ip = None"
    and "\<forall>t' \<in> set (ts @ [t]). t' \<le> hd (ts @ [t]) + from_secs 3600"
    and "length (ts @ [t]) = unat (rl_max_failed_auth l)"
  shows "hm_get (rl_banned_ips (failures (ts @ [t]) ip l)) ip = Some t"
  using failures_snoc_ban [OF assms(1,2)] word_of_unat_eq [OF assms(3)] by simp

lemma failures_below:
  assumes "hm_get (rl_failed_auth_counts l) ip = None"
    and "\<forall>t \<in> set ts. t \<le> hd ts + from_secs 3600"
    and "length ts < unat (rl_max_failed_auth l)"
  shows "hm_get (rl_banned_ips (failures ts ip l)) ip = hm_get (rl_banned_ips l) ip"
  using assms(2,3)
proof (induction ts rule: rev_induct)
  case (snoc t ts)
  then have IH: "hm_get (rl_banned_ips (failures ts ip l)) ip = hm_get (rl_banned_ips l) ip"
    by (cases ts) auto
  have "(of_nat (length (ts @ [t])) :: u32) < rl_max_failed_auth l"
    using of_nat_less_u32 [OF snoc.prems(2)] .
  with failures_snoc_ban [OF assms(1) snoc.prems(1)] IH show ?case
    by (simp add: not_le [symmetric])
qed simp

section \<open>Properties\<close>

text \<open>
  Rate limit. Whatever happened before, during any sixty seconds an address is granted at most
  twice \<open>per_ip_per_minute\<close> connections, by any interleaving of the limiter's operations
  (clean-ups, bans and authentication results included); twice, because a window that began
  before the interval may be reset once inside it.
\<close>

theorem rate_limit_per_minute:
  assumes "\<forall>(t, x) \<in> set xs. t0 \<le> t \<and> t \<le> t0 + from_secs 60"
  shows "allowed_count ip
      (fst (rl_run avail xs (snd (rl_run avail history (rl_new sem_new per_ip mf ban mc)))))
    \<le> 2 * unat per_ip"
proof -
  let ?l = "snd (rl_run avail history (rl_new sem_new per_ip mf ban mc))"
  have "allowed_count ip (fst (rl_run avail xs ?l)) \<le> budget t0 ip ?l"
    using rl_run_budget [OF rl_run_wf [OF rl_wf_new] assms] by (rule add_leD1)
  also have "\<dots> \<le> 2 * unat per_ip"
    using budget_bound [of t0 ip ?l] by (simp add: rl_new_def)
  finally show ?thesis .
qed

text \<open>
  C10. Bans. \<open>max_failed_auth\<close> failures of an address within an hour of the first ban it, one fewer
  does not touch the bans; from then on, whatever operations other than \<open>unban_ip\<close> follow, every
  connection attempt before the ban has run out is answered \<open>Banned\<close>.
\<close>

theorem failed_auth_bans:
  assumes "rl_wf l" and "hm_get (rl_failed_auth_counts l) ip = None"
    and "\<forall>t' \<in> set (ts @ [t]). t' \<le> hd (ts @ [t]) + from_secs 3600"
    and "length (ts @ [t]) = unat (rl_max_failed_auth l)"
    and "\<forall>(t', x) \<in> set xs. t \<le> t' \<and> t' < t + rl_ban_duration l \<and> x \<noteq> Unban ip"
  shows "hm_get (rl_banned_ips (failures ts ip l)) ip = hm_get (rl_banned_ips l) ip
    \<and> (\<forall>r. (ip, r) \<in> set (fst (rl_run avail xs (failures (ts @ [t]) ip l))) \<longrightarrow>
          (\<exists>d. r = Banned d))"
proof (intro conjI allI impI)
  show "hm_get (rl_banned_ips (failures ts ip l)) ip = hm_get (rl_banned_ips l) ip"
    by (rule failures_below [OF assms(2)]) (use assms(3,4) in \<open>cases ts, auto\<close>)
next
  fix r
  assume r: "(ip, r) \<in> set (fst (rl_run avail xs (failures (ts @ [t]) ip l)))"
  have "rl_wf (failures us ip l)" for us
    using assms(1) by (induction us arbitrary: l) (auto simp: rl_wf_def rl_defs)
  moreover have "\<forall>(t', x) \<in> set xs. t \<le> t'
      \<and> t' < t + rl_ban_duration (failures (ts @ [t]) ip l) \<and> x \<noteq> Unban ip"
    using assms(5) unfolding failures_config .
  ultimately show "\<exists>d. r = Banned d"
    using rl_run_banned [OF _ failures_ban [OF assms(2,3,4)] order_refl _ r] by blast
qed

text \<open>
  The periodic clean-up is invisible to later connection attempts: removing the entries that
  have run out at \<open>t\<close> changes no decision taken at \<open>t\<close> or later, for any address.
\<close>

theorem cleanup_invisible:
  assumes "rl_wf l" and "t \<le> t'"
  shows "fst (check_allowed avail t' ip (cleanup t l)) = fst (check_allowed avail t' ip l)"
proof -
  have mono: "elapsed x t \<le> elapsed x t'" for x
    using assms(2) by (rule elapsed_mono)
  have w: "window_entry t' ip (cleanup t l) = window_entry t' ip l"
  proof (cases "hm_get (rl_connection_counts l) ip")
    case (Some c)
    have "from_secs 60 < from_secs 120" by simp
    then have "\<not> elapsed (cc_window_start c) t < from_secs 120 \<Longrightarrow>
        from_secs 60 < elapsed (cc_window_start c) t'"
      using mono [of "cc_window_start c"] by linarith
    with Some assms(1) show ?thesis
      by (auto simp: window_entry_def cleanup_def rl_wf_def hm_get_retain)
  qed (use assms(1) in \<open>simp add: window_entry_def cleanup_def rl_wf_def hm_get_retain\<close>)
  have cw: "fst (check_window avail t' ip l1) = fst (check_window avail t' ip l2)"
    if "window_entry t' ip l1 = window_entry t' ip l2"
      "rl_per_ip_per_minute l1 = rl_per_ip_per_minute l2"
      "rl_concurrent_semaphore l1 = rl_concurrent_semaphore l2" for l1 l2
    using that by (simp add: check_window_def Let_def)
  have res: "fst (check_allowed avail t' ip l0) =
      (case ban_remaining t' ip l0 of Some d \<Rightarrow> Banned d
       | None \<Rightarrow> fst (check_window avail t' ip l0))" for l0
    by (auto simp: check_allowed_def ban_remaining_def window_entry_def split: option.splits intro!: cw)
  have "ban_remaining t' ip (cleanup t l) = ban_remaining t' ip l"
    using cleanup_bans [OF assms(1), of t ip] mono
    by (auto simp: ban_remaining_def is_banned_def cleanup_def dest: le_less_trans split: option.splits)
  moreover have "fst (check_window avail t' ip (cleanup t l)) = fst (check_window avail t' ip l)"
    by (rule cw [OF w]) (simp_all add: cleanup_def)
  ultimately show ?thesis by (simp add: res split: option.split)
qed

text \<open>
  The four views of a ban agree: \<open>check_allowed\<close> answers \<open>Banned\<close> with the remaining time
  exactly when \<open>ban_remaining\<close> reports it, exactly when the listing of banned addresses holds it,
  and \<open>is_banned\<close> says so exactly then.
\<close>

theorem ban_views_agree:
  assumes "rl_wf l"
  shows "(fst (check_allowed avail t ip l) = Banned d \<longleftrightarrow> ban_remaining t ip l = Some d)
    \<and> ((ip, d) \<in> set (banned_ip_list t l) \<longleftrightarrow> ban_remaining t ip l = Some d)
    \<and> (is_banned t ip l \<longleftrightarrow> (\<exists>d. ban_remaining t ip l = Some d))"
proof (intro conjI)
  have wf: "hm_wf (rl_banned_ips l)" using assms by (simp add: rl_wf_def)
  have mem: "(ip, d) \<in> set (banned_ip_list t l) \<longleftrightarrow>
      (\<exists>b. (ip, b) \<in> set (rl_banned_ips l) \<and> elapsed b t < rl_ban_duration l
         \<and> d = rl_ban_duration l - elapsed b t)"
    unfolding banned_ip_list_def set_map_filter_iff Let_def Bex_def split_paired_Ex
    by (auto split: if_splits)
  show "(ip, d) \<in> set (banned_ip_list t l) \<longleftrightarrow> ban_remaining t ip l = Some d"
    unfolding mem hm_mem_iff [OF wf] ban_remaining_def
    by (cases "hm_get (rl_banned_ips l) ip") (simp_all, blast)
qed (auto simp: is_banned_check is_banned_remaining)

section \<open>Witnesses\<close>

theorem rate_limit_per_minute_witness:
  "allowed_count (V4 10 0 0 1)
     (fst (rl_run (\<lambda>s. s) [(from_secs 61, Check (V4 10 0 0 1)), (from_secs 100, Check (V4 10 0 0 1))]
       (snd (rl_run (\<lambda>s. s) [(0, Check (V4 10 0 0 1))] (rl_new (\<lambda>n. n) 1 5 (from_secs 900) 100)))))
   \<le> 2 * unat (1 :: u32)"
  by (rule rate_limit_per_minute [where ?t0.0 = "from_secs 50"]) (simp add: from_secs_def)

theorem failed_auth_bans_witness:
  "\<exists>d. snd (hd (fst (rl_run (\<lambda>s. s) [(5, Check (V4 10 0 0 1))]
       (failures ([0, 1] @ [2]) (V4 10 0 0 1) (rl_new (\<lambda>n. n) 10 3 (from_secs 60) 100))))) = Banned d"
proof -
  let ?l = "rl_new (\<lambda>n :: nat. n) 10 3 (from_secs 60) 100"
  let ?rs = "fst (rl_run (\<lambda>s. s) [(5, Check (V4 10 0 0 1))]
       (failures ([0, 1] @ [2]) (V4 10 0 0 1) ?l))"
  have "(V4 10 0 0 1, snd (hd ?rs)) \<in> set ?rs" by (simp add: split_beta Let_def)
  moreover have "\<forall>r. (V4 10 0 0 1, r) \<in> set ?rs \<longrightarrow> (\<exists>d. r = Banned d)"
    by (rule failed_auth_bans [THEN conjunct2]) (simp_all add: rl_new_def rl_wf_def from_secs_def)
  ultimately show ?thesis by blast
qed

theorem cleanup_invisible_witness:
  "fst (check_allowed (\<lambda>s. s) 5 (V4 10 0 0 1) (cleanup 3 (rl_new (\<lambda>n. n) 10 3 (from_secs 60) 100)))
   = fst (check_allowed (\<lambda>s. s) 5 (V4 10 0 0 1) (rl_new (\<lambda>n. n) 10 3 (from_secs 60) 100))"
  by (rule cleanup_invisible) simp_all

theorem ban_views_agree_witness:
  "(fst (check_allowed (\<lambda>s. s) 5 (V4 10 0 0 1)
        (ban_ip 3 (V4 10 0 0 1) (rl_new (\<lambda>n. n) 10 3 10 100))) = Banned 8
      \<longleftrightarrow> ban_remaining 5 (V4 10 0 0 1) (ban_ip 3 (V4 10 0 0 1) (rl_new (\<lambda>n :: nat. n) 10 3 10 100)) = Some 8)
   \<and> ((V4 10 0 0 1, 8) \<in> set (banned_ip_list 5 (ban_ip 3 (V4 10 0 0 1) (rl_new (\<lambda>n :: nat. n) 10 3 10 100)))
      \<longleftrightarrow> ban_remaining 5 (V4 10 0 0 1) (ban_ip 3 (V4 10 0 0 1) (rl_new (\<lambda>n :: nat. n) 10 3 10 100)) = Some 8)
   \<and> (is_banned 5 (V4 10 0 0 1) (ban_ip 3 (V4 10 0 0 1) (rl_new (\<lambda>n :: nat. n) 10 3 10 100))
      \<longleftrightarrow> (\<exists>d. ban_remaining 5 (V4 10 0 0 1) (ban_ip 3 (V4 10 0 0 1) (rl_new (\<lambda>n :: nat. n) 10 3 10 100)) = Some d))"
  by (rule ban_views_agree) (simp add: rl_wf_def ban_ip_def rl_new_def)

end
