(* ===== verification/Command_Filter.thy ===== *)
theory Command_Filter
  imports Ssh_Types
begin

text \<open>
  \<open>crates/omni-ssh/src/server/command_filter.rs\<close>: allow and block lists for commands and working
  directories. Regular expressions are those of the \<open>regex\<close> crate: a compiled one is a value of the
  type parameter \<open>'r\<close>, made by the parameter \<open>compile\<close> (\<open>Regex::new(..).ok()\<close>) and used by the
  parameter \<open>is_match\<close>.
\<close>

section \<open>State\<close>

record 'r compiled_pattern =
  cp_regex :: 'r
  cp_original :: string

record 'r command_filter =
  cf_allowed_patterns :: "'r compiled_pattern list option"
  cf_blocked_patterns :: "'r compiled_pattern list option"
  cf_allowed_paths :: "string list option"
  cf_read_only :: bool

datatype command_filter_result =
    CmdAllowed
  | Blocked string
  | PathNotAllowed string
  | ReadOnlyViolation

section \<open>Operations\<close>

definition compile_pattern :: "(string \<Rightarrow> 'r option) \<Rightarrow> string \<Rightarrow> 'r compiled_pattern option" where
  "compile_pattern compile p =
     map_option (\<lambda>r. \<lparr>cp_regex = r, cp_original = p\<rparr>) (compile p)"

definition cf_new :: "(string \<Rightarrow> 'r option) \<Rightarrow> ssh_action \<Rightarrow> 'r command_filter" where
  "cf_new compile action =
     \<lparr>cf_allowed_patterns =
        map_option (List.map_filter (compile_pattern compile)) (act_allowed_commands action),
      cf_blocked_patterns =
        map_option (List.map_filter (compile_pattern compile)) (act_blocked_commands action),
      cf_allowed_paths = act_allowed_paths action,
      cf_read_only = act_read_only action\<rparr>"

definition allow_all :: "'r command_filter" where
  "allow_all =
     \<lparr>cf_allowed_patterns = None, cf_blocked_patterns = None, cf_allowed_paths = None,
      cf_read_only = False\<rparr>"

definition block_all :: "'r command_filter" where
  "block_all =
     \<lparr>cf_allowed_patterns = Some [], cf_blocked_patterns = None, cf_allowed_paths = None,
      cf_read_only = False\<rparr>"

definition write_indicators :: "string list" where
  "write_indicators =
     [''rm '', ''rm'' @ [CHR 0x09], ''rmdir'', ''unlink'',
      ''> '', ''>> '',
      ''mv '', ''mv'' @ [CHR 0x09], ''cp '', ''cp'' @ [CHR 0x09], ''touch '', ''mkdir'',
      ''chmod'', ''chown'', ''chgrp'',
      ''nano '', ''vim '', ''vi '', ''emacs '', ''ed '',
      ''echo '', ''tee '', ''dd '', ''install '', ''rsync '',
      ''apt '', ''apt-get '', ''yum '', ''dnf '', ''pacman '', ''brew '', ''pip '', ''npm '', ''cargo '',
      ''systemctl start'', ''systemctl stop'', ''systemctl restart'', ''systemctl enable'',
      ''systemctl disable'', ''service '',
      ''mkfs'', ''fdisk'', ''parted'', ''format'', ''mount'', ''umount'']"

definition is_write_command :: "string \<Rightarrow> bool" where
  "is_write_command command =
     (let cmd_lower = to_lowercase command in
      list_ex (\<lambda>ind. str_contains cmd_lower ind) write_indicators)"

definition check_command ::
  "('r \<Rightarrow> string \<Rightarrow> bool) \<Rightarrow> 'r command_filter \<Rightarrow> string \<Rightarrow> command_filter_result" where
  "check_command is_match f command =
     (let blocked = (case cf_blocked_patterns f of
                       Some ps \<Rightarrow> List.find (\<lambda>p. is_match (cp_regex p) command) ps
                     | None \<Rightarrow> None) in
      case blocked of
        Some p \<Rightarrow> Blocked (''Command matches blocked pattern: '' @ cp_original p)
      | None \<Rightarrow>
          (let listed = (case cf_allowed_patterns f of
                           Some ps \<Rightarrow> list_ex (\<lambda>p. is_match (cp_regex p) command) ps
                         | None \<Rightarrow> True) in
           if \<not> listed then Blocked ''Command not in allowed list''
           else if cf_read_only f \<and> is_write_command command then ReadOnlyViolation
           else CmdAllowed))"

definition path_listed :: "string \<Rightarrow> string \<Rightarrow> bool" where
  "path_listed path_str allowed =
     (let allowed_normalized = trim_end_matches (CHR ''/'') allowed in
      starts_with path_str allowed_normalized
      \<or> starts_with path_str (allowed_normalized @ ''/'')
      \<or> path_str = allowed_normalized)"

definition check_path :: "'r command_filter \<Rightarrow> string \<Rightarrow> command_filter_result" where
  "check_path f path_str =
     (case cf_allowed_paths f of
        Some allowed_paths \<Rightarrow>
          if list_ex (path_listed path_str) allowed_paths then CmdAllowed
          else PathNotAllowed path_str
      | None \<Rightarrow> CmdAllowed)"

definition is_read_only :: "'r command_filter \<Rightarrow> bool" where
  "is_read_only f = cf_read_only f"

text \<open>The runtime additions return the error of \<open>Regex::new\<close> and leave the filter unchanged then.\<close>

definition add_blocked_pattern ::
  "(string \<Rightarrow> 'e + 'r) \<Rightarrow> string \<Rightarrow> 'r command_filter \<Rightarrow> ('e + unit) \<times> 'r command_filter" where
  "add_blocked_pattern compile_r pattern f =
     (case compile_r pattern of
        Inl e \<Rightarrow> (Inl e, f)
      | Inr regex \<Rightarrow>
          (let compiled = \<lparr>cp_regex = regex, cp_original = pattern\<rparr> in
           (Inr (), f\<lparr>cf_blocked_patterns :=
              (case cf_blocked_patterns f of
                 Some ps \<Rightarrow> Some (ps @ [compiled]) | None \<Rightarrow> Some [compiled])\<rparr>)))"

definition add_allowed_pattern ::
  "(string \<Rightarrow> 'e + 'r) \<Rightarrow> string \<Rightarrow> 'r command_filter \<Rightarrow> ('e + unit) \<times> 'r command_filter" where
  "add_allowed_pattern compile_r pattern f =
     (case compile_r pattern of
        Inl e \<Rightarrow> (Inl e, f)
      | Inr regex \<Rightarrow>
          (let compiled = \<lparr>cp_regex = regex, cp_original = pattern\<rparr> in
           (Inr (), f\<lparr>cf_allowed_patterns :=
              (case cf_allowed_patterns f of
                 Some ps \<Rightarrow> Some (ps @ [compiled]) | None \<Rightarrow> Some [compiled])\<rparr>)))"

definition add_allowed_path :: "string \<Rightarrow> 'r command_filter \<Rightarrow> 'r command_filter" where
  "add_allowed_path path f =
     f\<lparr>cf_allowed_paths :=
         (case cf_allowed_paths f of Some ps \<Rightarrow> Some (ps @ [path]) | None \<Rightarrow> Some [path])\<rparr>"

definition default_block_list :: "string list" where
  "default_block_list =
     [''^rm'' @ re_ws @ ''+-rf'' @ re_ws @ ''*/'', ''^rm'' @ re_ws @ ''+.*-rf'' @ re_ws @ ''*/'',
      ''^shutdown'', ''^reboot'', ''^halt'', ''^poweroff'', ''^mkfs'', ''^dd'' @ re_ws @ ''+if='']"

text \<open>\<open>Default\<close> unwraps each compilation: \<open>None\<close> stands for the panic of a failed one.\<close>

definition cf_default :: "(string \<Rightarrow> 'r option) \<Rightarrow> 'r command_filter option" where
  "cf_default compile =
     map_option (\<lambda>ps. \<lparr>cf_allowed_patterns = None, cf_blocked_patterns = Some ps,
                       cf_allowed_paths = None, cf_read_only = False\<rparr>)
       (those (map (compile_pattern compile) default_block_list))"

section \<open>The decision\<close>

lemma find_iff: "List.find P xs = None \<longleftrightarrow> \<not> list_ex P xs"
  by (auto simp: find_None_iff list_ex_iff)

text \<open>The patterns of a list that compile, and the commands they match.\<close>

definition matches_any :: "(string \<Rightarrow> 'r option) \<Rightarrow> ('r \<Rightarrow> string \<Rightarrow> bool) \<Rightarrow> string list \<Rightarrow> string \<Rightarrow> bool" where
  "matches_any compile is_match ps command \<longleftrightarrow>
     (\<exists>p \<in> set ps. \<exists>r. compile p = Some r \<and> is_match r command)"

lemma compiled_match:
  "list_ex (\<lambda>p. is_match (cp_regex p) c) (List.map_filter (compile_pattern compile) ps)
     = matches_any compile is_match ps c"
  by (force simp: list_ex_iff matches_any_def set_map_filter_iff compile_pattern_def)

lemma check_command_allowed:
  "check_command is_match f c = CmdAllowed \<longleftrightarrow>
     (\<forall>ps. cf_blocked_patterns f = Some ps \<longrightarrow> \<not> list_ex (\<lambda>p. is_match (cp_regex p) c) ps) \<and>
     (\<forall>ps. cf_allowed_patterns f = Some ps \<longrightarrow> list_ex (\<lambda>p. is_match (cp_regex p) c) ps) \<and>
     \<not> (cf_read_only f \<and> is_write_command c)"
  by (auto simp: check_command_def Let_def find_iff split: option.splits) (metis find_iff option.distinct(1))+

lemma path_listed_iff:
  "path_listed p a \<longleftrightarrow> starts_with p (trim_end_matches (CHR ''/'') a)"
  by (auto simp: path_listed_def Let_def dest: starts_with_trans)

section \<open>Properties\<close>

text \<open>
  C11. A session's command passes the filter built from its policy action exactly when no blocked
  pattern that compiles matches it, some allowed pattern that compiles matches it if the action
  has an allow list, and it is not a write command of a read-only session. In particular a block
  list wins over an allow list, and an allow list none of whose patterns compiles lets nothing
  through.
\<close>

theorem check_command_characterised:
  "check_command is_match (cf_new compile action) c = CmdAllowed \<longleftrightarrow>
     (case act_blocked_commands action of
        None \<Rightarrow> True | Some ps \<Rightarrow> \<not> matches_any compile is_match ps c) \<and>
     (case act_allowed_commands action of
        None \<Rightarrow> True | Some ps \<Rightarrow> matches_any compile is_match ps c) \<and>
     \<not> (act_read_only action \<and> is_write_command c)"
  by (auto simp: check_command_allowed cf_new_def compiled_match split: option.splits)

text \<open>
  A blocked pattern that does not compile is dropped without an error: an action whose block
  list holds only such patterns, with no allow list and not read-only, lets every command through.
\<close>

theorem invalid_block_list_fails_open:
  assumes "act_blocked_commands action = Some ps" and "\<forall>p \<in> set ps. compile p = None"
    and "act_allowed_commands action = None" and "\<not> act_read_only action"
  shows "check_command is_match (cf_new compile action) c = CmdAllowed"
  using assms
  by (auto simp: check_command_characterised matches_any_def)

text \<open>
  The working-directory check compares strings, not path components: for every directory of
  the allow list, each path that continues its name is accepted, a sibling such as
  \<open>/home/user2\<close> next to an allowed \<open>/home/user\<close> included; and a path is accepted only if it
  continues the name of an allowed directory.
\<close>

theorem check_path_by_prefix:
  assumes "act_allowed_paths action = Some ds"
  shows "check_path (cf_new compile action) path = CmdAllowed \<longleftrightarrow>
    (\<exists>d \<in> set ds. \<exists>rest. path = trim_end_matches (CHR ''/'') d @ rest)"
  using assms
  by (auto simp: check_path_def cf_new_def path_listed_iff list_ex_iff starts_with_iff)

text \<open>
  Adding a blocked pattern at run time only takes commands away: if it compiles, a command is
  allowed afterwards exactly when it was before and the new pattern does not match it; if it does
  not compile, the caller gets the error and the filter is unchanged.
\<close>

theorem add_blocked_pattern_restricts:
  "(case compile_r p of
      Inl e \<Rightarrow> add_blocked_pattern compile_r p f = (Inl e, f)
    | Inr r \<Rightarrow>
        fst (add_blocked_pattern compile_r p f) = Inr () \<and>
        (check_command is_match (snd (add_blocked_pattern compile_r p f)) c = CmdAllowed \<longleftrightarrow>
           check_command is_match f c = CmdAllowed \<and> \<not> is_match r c))"
  by (auto simp: add_blocked_pattern_def Let_def check_command_allowed split: sum.splits option.splits)

section \<open>Witnesses\<close>

theorem invalid_block_list_fails_open_witness:
  "check_command (\<lambda>r c. starts_with c r)
     (cf_new (\<lambda>p. if p = ''['' then None else Some p)
        (SshAction_default\<lparr>act_blocked_commands := Some [''['']\<rparr>)) ''shutdown now'' = CmdAllowed"
  by (rule invalid_block_list_fails_open [where ps = "[''['']"])
     (simp_all add: SshAction_default_def)

theorem check_path_by_prefix_witness:
  "check_path (cf_new (\<lambda>p. Some p)
      (SshAction_default\<lparr>act_allowed_paths := Some [''/home/user'']\<rparr>)) ''/home/user2/.ssh'' = CmdAllowed"
proof -
  have "\<exists>d \<in> set [''/home/user'']. \<exists>rest. ''/home/user2/.ssh'' = trim_end_matches (CHR ''/'') d @ rest"
    by (simp add: trim_end_matches_def)
  then show ?thesis
    by (subst check_path_by_prefix [where ds = "[''/home/user'']"]) simp_all
qed

end
