(* ===== verification/Ssh_Auth.thy ===== *)
theory Ssh_Auth
  imports Ssh_Types
begin

text \<open>
  \<open>crates/omni-ssh/src/server/auth.rs\<close>: authentication by OmniEdge identity. The \<open>SshBackend\<close> trait
  is a record of its answers for the duration of one call; the clock is a reading of \<open>Utc::now()\<close>
  with the calendar fields the code asks \<open>chrono\<close> for.
\<close>

section \<open>Parameters of a call\<close>

record 'e ssh_backend =
  bk_is_omniedge_ip :: "ip_addr \<Rightarrow> bool"
  bk_who_is :: "ip_addr \<Rightarrow> 'e + peer_identity option"
  bk_get_ssh_policy :: "'e + ssh_policy"

datatype weekday = Mon | Tue | Wed | Thu | Fri | Sat | Sun

record utc_now =
  un_time :: datetime
  un_weekday :: weekday
  un_hour :: u32
  un_minute :: u32

datatype 'e auth_error = BackendError 'e | NoUserMapping string

section \<open>Operations\<close>

definition email_matches :: "string \<Rightarrow> string \<Rightarrow> bool" where
  "email_matches pattern email =
     (if pattern = ''*'' then True
      else if starts_with pattern ''*'' \<and> length pattern > 1 then ends_with email (tl pattern)
      else pattern = email)"

definition principal_match :: "ssh_principal \<Rightarrow> peer_identity \<Rightarrow> bool" where
  "principal_match p peer =
     (pr_any p
      \<or> (case pr_node_id p of Some i \<Rightarrow> i = ni_id (pi_node peer) | None \<Rightarrow> False)
      \<or> (case pr_node_ip p of Some i \<Rightarrow> i = ni_virtual_ip (pi_node peer) | None \<Rightarrow> False)
      \<or> (case pr_user_email p of Some e \<Rightarrow> email_matches e (up_email (pi_user peer)) | None \<Rightarrow> False)
      \<or> (case pr_network_id p of Some n \<Rightarrow> n = ni_network_id (pi_node peer) | None \<Rightarrow> False)
      \<or> (case pr_tag p of Some t \<Rightarrow> t \<in> set (ni_tags (pi_node peer)) | None \<Rightarrow> False))"

definition principal_matches :: "ssh_principal list \<Rightarrow> peer_identity \<Rightarrow> bool" where
  "principal_matches ps peer = list_ex (\<lambda>p. principal_match p peer) ps"

definition no_match_action :: ssh_action where
  "no_match_action =
     SshAction_default\<lparr>act_accept := False, act_reject := True,
       act_message := Some ''No matching SSH policy rule''\<rparr>"

fun evaluate_rules ::
  "datetime \<Rightarrow> ssh_rule list \<Rightarrow> peer_identity \<Rightarrow> string \<Rightarrow> ssh_action \<times> ssh_rule option" where
  "evaluate_rules now [] peer ssh_user = (no_match_action, None)"
| "evaluate_rules now (rule # rules) peer ssh_user =
     (if (case ru_expires rule of Some e \<Rightarrow> e < now | None \<Rightarrow> False)
      then evaluate_rules now rules peer ssh_user
      else if principal_matches (ru_principals rule) peer
        \<and> (hm_contains (ru_ssh_users rule) ssh_user \<or> hm_contains (ru_ssh_users rule) ''*'')
      then (ru_action rule, Some rule)
      else evaluate_rules now rules peer ssh_user)"

definition evaluate_policy ::
  "datetime \<Rightarrow> ssh_policy \<Rightarrow> peer_identity \<Rightarrow> string \<Rightarrow> ssh_action \<times> ssh_rule option" where
  "evaluate_policy now policy peer ssh_user = evaluate_rules now (po_rules policy) peer ssh_user"

definition resolve_local_user :: "ssh_rule option \<Rightarrow> string \<Rightarrow> 'e auth_error + string" where
  "resolve_local_user rule_opt ssh_user =
     (case rule_opt of
        Some rule \<Rightarrow>
          (case hm_get (ru_ssh_users rule) ssh_user of
             Some u \<Rightarrow> Inr (if u = ''='' then ssh_user else u)
           | None \<Rightarrow>
               (case hm_get (ru_ssh_users rule) ''*'' of
                  Some u \<Rightarrow> Inr (if u = ''='' then ssh_user else u)
                | None \<Rightarrow> Inl (NoUserMapping ssh_user)))
      | None \<Rightarrow> Inl (NoUserMapping ssh_user))"

fun day_name :: "weekday \<Rightarrow> string" where
  "day_name Mon = ''monday''"
| "day_name Tue = ''tuesday''"
| "day_name Wed = ''wednesday''"
| "day_name Thu = ''thursday''"
| "day_name Fri = ''friday''"
| "day_name Sat = ''saturday''"
| "day_name Sun = ''sunday''"

definition parse_time :: "string \<Rightarrow> u32 option" where
  "parse_time time =
     (case split_on (CHR '':'') time of
        [h, m] \<Rightarrow>
          (case parse_uint 32 h of
             None \<Rightarrow> None
           | Some hour \<Rightarrow>
               (case parse_uint 32 m of
                  None \<Rightarrow> None
                | Some minute \<Rightarrow> Some (of_nat hour * 100 + of_nat minute)))
      | _ \<Rightarrow> None)"

definition check_time_restrictions :: "utc_now \<Rightarrow> time_restrictions \<Rightarrow> bool" where
  "check_time_restrictions now restrictions =
     ((case tm_allowed_days restrictions of
         Some days \<Rightarrow> list_ex (\<lambda>d. to_lowercase d = day_name (un_weekday now)) days
       | None \<Rightarrow> True)
      \<and> (case tm_allowed_hours restrictions of
           Some hours \<Rightarrow>
             (let current_time = un_hour now * 100 + un_minute now;
                  start_time = (case parse_time (tr_start hours) of Some t \<Rightarrow> t | None \<Rightarrow> 0);
                  end_time = (case parse_time (tr_end hours) of Some t \<Rightarrow> t | None \<Rightarrow> 2400) in
              if start_time \<le> end_time
              then \<not> (current_time < start_time \<or> current_time > end_time)
              else \<not> (current_time < start_time \<and> current_time > end_time))
         | None \<Rightarrow> True))"

text \<open>Steps 4 to 7 of \<open>authenticate\<close>: what the action of the matched rule means.\<close>

definition apply_action ::
  "utc_now \<Rightarrow> ssh_action \<Rightarrow> ssh_rule option \<Rightarrow> string \<Rightarrow> 'e auth_error + auth_result" where
  "apply_action now action matched_rule ssh_user =
     (case act_hold_and_delegate action of
        Some url \<Rightarrow> Inr (HoldAndDelegate url)
      | None \<Rightarrow>
          (let outside = (case act_time_restrictions action of
                            Some r \<Rightarrow> \<not> check_time_restrictions now r | None \<Rightarrow> False) in
           if outside then
             (if (case act_time_restrictions action of
                    Some r \<Rightarrow> tm_override_with_approval r | None \<Rightarrow> False)
              then (case act_hold_and_delegate action of
                      Some url \<Rightarrow> Inr (HoldAndDelegate url)
                    | None \<Rightarrow> Inr (Reject ''Access not allowed at this time''))
              else Inr (Reject ''Access not allowed at this time''))
           else if act_reject action then
             Inr (Reject (case act_message action of Some m \<Rightarrow> m | None \<Rightarrow> ''Access denied''))
           else if \<not> act_accept action then Inr (Reject ''No matching rule'')
           else and_then (resolve_local_user matched_rule ssh_user)
                  (\<lambda>local_user. Inr (Accept local_user action))))"

definition authenticate ::
  "'e ssh_backend \<Rightarrow> utc_now \<Rightarrow> ip_addr \<Rightarrow> string \<Rightarrow> 'e auth_error + auth_result" where
  "authenticate backend now src_ip ssh_user =
     (if \<not> bk_is_omniedge_ip backend src_ip
      then Inr (Reject ''Connection not from OmniEdge network'')
      else case bk_who_is backend src_ip of
             Inl e \<Rightarrow> Inl (BackendError e)
           | Inr None \<Rightarrow> Inr (Reject ''Unknown peer'')
           | Inr (Some peer) \<Rightarrow>
               (case bk_get_ssh_policy backend of
                  Inl e \<Rightarrow> Inl (BackendError e)
                | Inr policy \<Rightarrow>
                    (let (action, matched_rule) = evaluate_policy (un_time now) policy peer ssh_user in
                     apply_action now action matched_rule ssh_user)))"

section \<open>The rule that decides\<close>

definition rule_applies :: "datetime \<Rightarrow> peer_identity \<Rightarrow> string \<Rightarrow> ssh_rule \<Rightarrow> bool" where
  "rule_applies now peer ssh_user rule \<longleftrightarrow>
     \<not> (case ru_expires rule of Some e \<Rightarrow> e < now | None \<Rightarrow> False)
     \<and> principal_matches (ru_principals rule) peer
     \<and> (hm_contains (ru_ssh_users rule) ssh_user \<or> hm_contains (ru_ssh_users rule) ''*'')"

definition mapped_user :: "ssh_rule \<Rightarrow> string \<Rightarrow> string" where
  "mapped_user rule ssh_user =
     (let u = (case hm_get (ru_ssh_users rule) ssh_user of
                 Some u \<Rightarrow> u | None \<Rightarrow> the (hm_get (ru_ssh_users rule) ''*'')) in
      if u = ''='' then ssh_user else u)"

lemma evaluate_rules_find:
  "evaluate_rules now rules peer user =
     (case List.find (rule_applies now peer user) rules of
        Some rule \<Rightarrow> (ru_action rule, Some rule) | None \<Rightarrow> (no_match_action, None))"
  by (induction rules) (auto simp: rule_applies_def)

lemma resolve_matched:
  "rule_applies now peer user rule \<Longrightarrow>
   resolve_local_user (Some rule) user = Inr (mapped_user rule user)"
  by (auto simp: rule_applies_def resolve_local_user_def mapped_user_def hm_contains_def Let_def
      split: option.splits)

lemma find_Some_prefix:
  "List.find P xs = Some x \<longleftrightarrow>
     (\<exists>pre post. xs = pre @ x # post \<and> P x \<and> (\<forall>y \<in> set pre. \<not> P y))"
proof (induction xs)
  case (Cons y ys)
  show ?case
  proof (cases "P y")
    case True
    then show ?thesis by (auto simp: Cons_eq_append_conv)
  next
    case False
    then have "List.find P (y # ys) = Some x \<longleftrightarrow>
        (\<exists>pre post. ys = pre @ x # post \<and> P x \<and> (\<forall>z \<in> set pre. \<not> P z))"
      using Cons.IH by simp
    also have "\<dots> \<longleftrightarrow> (\<exists>pre post. y # ys = pre @ x # post \<and> P x \<and> (\<forall>z \<in> set pre. \<not> P z))"
      using False by (auto simp: Cons_eq_append_conv) (metis append_Cons set_ConsD)
    finally show ?thesis .
  qed
qed simp

lemma no_match_rejects [simp]:
  "apply_action now no_match_action r user = Inr (Reject ''No matching SSH policy rule'')"
  by (simp add: apply_action_def no_match_action_def SshAction_default_def)

lemma authenticate_known:
  assumes "bk_is_omniedge_ip b ip" and "bk_who_is b ip = Inr (Some peer)"
    and "bk_get_ssh_policy b = Inr policy"
  shows "authenticate b now ip user =
    (case List.find (rule_applies (un_time now) peer user) (po_rules policy) of
       Some rule \<Rightarrow> apply_action now (ru_action rule) (Some rule) user
     | None \<Rightarrow> Inr (Reject ''No matching SSH policy rule''))"
  using assms
  by (simp add: authenticate_def evaluate_policy_def evaluate_rules_find split: option.splits)

definition within_times :: "utc_now \<Rightarrow> ssh_action \<Rightarrow> bool" where
  "within_times now action =
     (case act_time_restrictions action of Some r \<Rightarrow> check_time_restrictions now r | None \<Rightarrow> True)"

lemma apply_action_accept:
  "rule_applies t peer user rule \<Longrightarrow>
   apply_action now (ru_action rule) (Some rule) user = Inr (Accept u a) \<longleftrightarrow>
     a = ru_action rule \<and> u = mapped_user rule user \<and> act_hold_and_delegate a = None
     \<and> within_times now a \<and> \<not> act_reject a \<and> act_accept a"
  by (auto simp: apply_action_def within_times_def resolve_matched split: option.splits)

section \<open>Times of day\<close>

definition show_hm :: "nat \<Rightarrow> nat \<Rightarrow> string" where
  "show_hm h m = show_nat h @ '':'' @ show_nat m"

lemma parse_time_show:
  assumes "h < 24" "m < 60"
  shows "parse_time (show_hm h m) = Some (of_nat (h * 100 + m))"
proof -
  have "split_on (CHR '':'') (show_hm h m) = [show_nat h, show_nat m]"
    by (simp add: show_hm_def split_on_append split_on_none)
  moreover have "h < 2 ^ 32" "m < 2 ^ 32" using assms by simp_all
  ultimately show ?thesis by (simp add: parse_time_def)
qed

lemma time_order:
  assumes "h < 24" "m < 60" "h' < 24" "m' < (60 :: nat)"
  shows "h * 100 + m \<le> h' * 100 + m' \<longleftrightarrow> h * 60 + m \<le> h' * 60 + m'"
proof (cases h h' rule: linorder_cases)
  case less
  then have "h * 100 + m \<le> h' * 100 + m'" "h * 60 + m \<le> h' * 60 + m'" using assms by linarith+
  then show ?thesis by simp
next
  case greater
  then have "\<not> h * 100 + m \<le> h' * 100 + m'" "\<not> h * 60 + m \<le> h' * 60 + m'" using assms by linarith+
  then show ?thesis by simp
qed simp

lemma of_nat_time_le:
  assumes "h < 24" "m < 60" "h' < 24" "m' < 60"
  shows "(of_nat (h * 100 + m) :: u32) \<le> of_nat (h' * 100 + m') \<longleftrightarrow> h * 60 + m \<le> h' * 60 + m'"
proof -
  have "unat (of_nat (h * 100 + m) :: u32) = h * 100 + m"
    and "unat (of_nat (h' * 100 + m') :: u32) = h' * 100 + m'"
    using assms by (intro unat_of_nat_u32; simp)+
  then have "(of_nat (h * 100 + m) :: u32) \<le> of_nat (h' * 100 + m') \<longleftrightarrow>
      h * 100 + m \<le> h' * 100 + m'"
    by (simp only: word_le_nat_alt)
  also have "\<dots> \<longleftrightarrow> h * 60 + m \<le> h' * 60 + m'"
    using time_order assms by simp
  finally show ?thesis .
qed

section \<open>Properties\<close>

text \<open>
  C1. Access is granted exactly when the address belongs to the VPN, the peer is known, the policy
  is available, and the first rule of the policy that applies (not expired, a principal matches,
  the SSH user is mapped) accepts without rejecting, without asking for approval and within its
  times; the session runs as the user that rule maps to and with that rule's action.
\<close>

theorem authenticate_accept_iff:
  "authenticate b now ip user = Inr (Accept u a) \<longleftrightarrow>
     (\<exists>peer policy rule pre post.
        bk_is_omniedge_ip b ip \<and> bk_who_is b ip = Inr (Some peer)
        \<and> bk_get_ssh_policy b = Inr policy
        \<and> po_rules policy = pre @ rule # post
        \<and> (\<forall>r \<in> set pre. \<not> rule_applies (un_time now) peer user r)
        \<and> rule_applies (un_time now) peer user rule
        \<and> a = ru_action rule \<and> u = mapped_user rule user
        \<and> act_accept a \<and> \<not> act_reject a \<and> act_hold_and_delegate a = None
        \<and> within_times now a)"
  (is "?L \<longleftrightarrow> ?R")
proof
  assume L: ?L
  then obtain peer policy where b: "bk_is_omniedge_ip b ip" "bk_who_is b ip = Inr (Some peer)"
      "bk_get_ssh_policy b = Inr policy"
    by (auto simp: authenticate_def split: if_splits sum.splits option.splits)
  from L authenticate_known [OF b, of now user] obtain rule where
    f: "List.find (rule_applies (un_time now) peer user) (po_rules policy) = Some rule"
    and ap: "apply_action now (ru_action rule) (Some rule) user = (Inr (Accept u a) :: 'a auth_error + auth_result)"
    by (auto split: option.splits)
  from f obtain pre post where
    "po_rules policy = pre @ rule # post" and r: "rule_applies (un_time now) peer user rule"
    and "\<forall>r \<in> set pre. \<not> rule_applies (un_time now) peer user r"
    by (auto simp: find_Some_prefix)
  with b ap apply_action_accept [OF r, of now u a] show ?R by blast
next
  assume ?R
  then obtain peer policy rule pre post where
    b: "bk_is_omniedge_ip b ip" "bk_who_is b ip = Inr (Some peer)" "bk_get_ssh_policy b = Inr policy"
    and rules: "po_rules policy = pre @ rule # post"
      "\<forall>r \<in> set pre. \<not> rule_applies (un_time now) peer user r"
    and r: "rule_applies (un_time now) peer user rule"
    and a: "a = ru_action rule \<and> u = mapped_user rule user \<and> act_hold_and_delegate a = None
       \<and> within_times now a \<and> \<not> act_reject a \<and> act_accept a"
    by blast
  have "List.find (rule_applies (un_time now) peer user) (po_rules policy) = Some rule"
    using rules r by (auto simp: find_Some_prefix)
  then show ?L
    using a by (auto simp: authenticate_known [OF b] apply_action_accept [OF r])
qed

text \<open>
  Authentication fails with an error only when the backend does: once the peer and the policy
  are known, the user mapping it needs exists, so a verdict is always reached.
\<close>

theorem authenticate_errors:
  "(\<exists>e. authenticate b now ip user = Inl e) \<longleftrightarrow>
     bk_is_omniedge_ip b ip \<and>
     ((\<exists>e. bk_who_is b ip = Inl e) \<or>
      (\<exists>peer e. bk_who_is b ip = Inr (Some peer) \<and> bk_get_ssh_policy b = Inl e))"
proof -
  have verdict: "\<not> (\<exists>e. apply_action now (ru_action rule) (Some rule) user = Inl e)"
    if "rule_applies t peer user rule" for t peer rule
    by (auto simp: apply_action_def resolve_matched [OF that] split: option.splits)
  have known: "\<not> (\<exists>e. authenticate b now ip user = Inl e)"
    if "bk_is_omniedge_ip b ip" "bk_who_is b ip = Inr (Some peer)" "bk_get_ssh_policy b = Inr policy"
    for peer policy
    using verdict by (auto simp: authenticate_known [OF that] find_Some_prefix split: option.splits)
  show ?thesis
  proof (cases "bk_is_omniedge_ip b ip \<and> (\<exists>peer policy. bk_who_is b ip = Inr (Some peer)
      \<and> bk_get_ssh_policy b = Inr policy)")
    case True
    with known show ?thesis by auto
  next
    case False
    then show ?thesis
      by (auto simp: authenticate_def split: sum.splits option.splits)
  qed
qed

text \<open>
  Interactive approval is asked for exactly when the deciding rule names a URL, whatever its
  time restrictions say: \<open>override_with_approval\<close> has no effect, since step 4 of \<open>authenticate\<close>
  has already returned when a URL is there, and outside the allowed times a rule without a URL
  rejects.
\<close>

theorem approval_ignores_time_override:
  assumes "bk_is_omniedge_ip b ip" and "bk_who_is b ip = Inr (Some peer)"
    and "bk_get_ssh_policy b = Inr policy"
    and "List.find (rule_applies (un_time now) peer user) (po_rules policy) = Some rule"
  shows "(authenticate b now ip user = Inr (HoldAndDelegate url)
        \<longleftrightarrow> act_hold_and_delegate (ru_action rule) = Some url)
    \<and> (act_hold_and_delegate (ru_action rule) = None \<and> \<not> within_times now (ru_action rule)
        \<longrightarrow> authenticate b now ip user = Inr (Reject ''Access not allowed at this time''))"
proof -
  have r: "rule_applies (un_time now) peer user rule"
    using assms(4) by (auto simp: find_Some_prefix)
  have au: "authenticate b now ip user = apply_action now (ru_action rule) (Some rule) user"
    using authenticate_known [OF assms(1-3), of now user] assms(4) by simp
  show ?thesis unfolding au
    by (auto simp: apply_action_def within_times_def resolve_matched [OF r] split: option.splits)
qed

text \<open>
  The built-in deny-all policy rejects every peer, but never through its own rule: that rule
  maps no SSH user, so it does not apply, and the message shown is the one for no matching rule
  instead of \<open>SSH access denied by default policy\<close>.
\<close>

theorem deny_all_rejects:
  assumes "bk_is_omniedge_ip b ip" and "bk_who_is b ip = Inr (Some peer)"
    and "bk_get_ssh_policy b = Inr (SshPolicy_default t)"
  shows "authenticate b now ip user = Inr (Reject ''No matching SSH policy rule'')"
  using authenticate_known [OF assms]
  by (simp add: SshPolicy_default_def deny_all_def rule_applies_def hm_contains_def)

text \<open>
  For well-formed bounds the daily window is the interval of minutes of the day from the start
  to the end, both included, and wraps around midnight when the end is before the start; the
  configured time zone plays no part: the comparison is in UTC.
\<close>

theorem allowed_hours_window:
  assumes "h1 < 24" "m1 < 60" "h2 < 24" "m2 < 60" "h < 24" "m < 60"
    and "tm_allowed_days r = None"
    and "tm_allowed_hours r = Some \<lparr>tr_start = show_hm h1 m1, tr_end = show_hm h2 m2\<rparr>"
    and "un_hour now = of_nat h" and "un_minute now = of_nat m"
  shows "check_time_restrictions now (r\<lparr>tm_timezone := z\<rparr>) \<longleftrightarrow>
    (let s = h1 * 60 + m1; e = h2 * 60 + m2; c = h * 60 + m in
     if s \<le> e then s \<le> c \<and> c \<le> e else s \<le> c \<or> c \<le> e)"
proof -
  have cur: "un_hour now * 100 + un_minute now = (of_nat (h * 100 + m) :: u32)"
    using assms(9,10) by simp
  note le = of_nat_time_le [OF assms(1-4)] of_nat_time_le [OF assms(1,2,5,6)]
    of_nat_time_le [OF assms(5,6,3,4)]
  show ?thesis
    unfolding check_time_restrictions_def
    by (simp add: cur Let_def not_less assms(7,8) le parse_time_show [OF assms(1,2)]
        parse_time_show [OF assms(3,4)] del: of_nat_add of_nat_mult)
qed

section \<open>Witnesses\<close>

definition sample_peer :: peer_identity where
  "sample_peer =
     \<lparr>pi_node = \<lparr>ni_id = ''n1'', ni_name = ''robot'', ni_virtual_ip = ''10.0.0.7'', ni_tags = [],
                 ni_online = True, ni_network_id = ''net''\<rparr>,
      pi_user = \<lparr>up_id = ''u1'', up_email = ''ann@example.com'', up_name = None\<rparr>\<rparr>"

definition sample_rule :: ssh_rule where
  "sample_rule =
     \<lparr>ru_id = ''night'', ru_principals = [SshPrincipal_default\<lparr>pr_user_email := Some ''*@example.com''\<rparr>],
      ru_ssh_users = [(''*'', ''='')],
      ru_action = SshAction_default\<lparr>act_accept := True,
        act_time_restrictions := Some \<lparr>tm_allowed_hours = None, tm_allowed_days = Some [],
          tm_timezone = ''UTC'', tm_override_with_approval = True\<rparr>\<rparr>,
      ru_accept_env = [], ru_expires = None\<rparr>"

definition sample_now :: utc_now where
  "sample_now = \<lparr>un_time = 0, un_weekday = Mon, un_hour = 23, un_minute = 30\<rparr>"

definition sample_backend :: "ssh_policy \<Rightarrow> unit ssh_backend" where
  "sample_backend p =
     \<lparr>bk_is_omniedge_ip = (\<lambda>_. True), bk_who_is = (\<lambda>_. Inr (Some sample_peer)),
      bk_get_ssh_policy = Inr p\<rparr>"

definition open_rule :: ssh_rule where
  "open_rule = sample_rule\<lparr>ru_action := SshAction_default\<lparr>act_accept := True\<rparr>\<rparr>"

lemmas sample_defs = sample_backend_def sample_rule_def sample_peer_def rule_applies_def
  principal_matches_def principal_match_def email_matches_def SshPrincipal_default_def
  hm_contains_def hm_get_def ends_with_def starts_with_def

theorem authenticate_accept_iff_witness:
  "authenticate (sample_backend \<lparr>po_version = 1, po_updated_at = 0, po_rules = [open_rule]\<rparr>)
     sample_now (V4 10 0 0 7) ''ann'' = Inr (Accept ''ann'' (ru_action open_rule))"
  by (rule authenticate_accept_iff [THEN iffD2],
      rule exI [of _ sample_peer],
      rule exI [of _ "\<lparr>po_version = 1, po_updated_at = 0, po_rules = [open_rule]\<rparr>"],
      rule exI [of _ open_rule], rule exI [of _ "[]"], rule exI [of _ "[]"])
     (simp add: sample_defs open_rule_def mapped_user_def within_times_def SshAction_default_def)

theorem approval_ignores_time_override_witness:
  "authenticate (sample_backend \<lparr>po_version = 1, po_updated_at = 0, po_rules = [sample_rule]\<rparr>)
     sample_now (V4 10 0 0 7) ''ann'' = Inr (Reject ''Access not allowed at this time'')"
proof -
  let ?p = "\<lparr>po_version = 1, po_updated_at = 0, po_rules = [sample_rule]\<rparr>"
  have "bk_is_omniedge_ip (sample_backend ?p) (V4 10 0 0 7)"
    "bk_who_is (sample_backend ?p) (V4 10 0 0 7) = Inr (Some sample_peer)"
    "bk_get_ssh_policy (sample_backend ?p) = Inr ?p"
    "List.find (rule_applies (un_time sample_now) sample_peer ''ann'') (po_rules ?p) = Some sample_rule"
    by (simp_all add: sample_defs)
  note hyp = this
  have "act_hold_and_delegate (ru_action sample_rule) = None
      \<and> \<not> within_times sample_now (ru_action sample_rule)"
    by (simp add: sample_rule_def SshAction_default_def within_times_def check_time_restrictions_def)
  with approval_ignores_time_override [OF hyp] show ?thesis by blast
qed

theorem deny_all_rejects_witness:
  "authenticate (sample_backend (SshPolicy_default 0)) sample_now (V4 10 0 0 7) ''root''
   = Inr (Reject ''No matching SSH policy rule'')"
  by (rule deny_all_rejects [where peer = sample_peer]) (simp_all add: sample_backend_def)

theorem allowed_hours_window_witness:
  "check_time_restrictions sample_now
     (\<lparr>tm_allowed_hours = Some \<lparr>tr_start = show_hm 22 0, tr_end = show_hm 6 0\<rparr>,
       tm_allowed_days = None, tm_timezone = ''UTC'', tm_override_with_approval = False\<rparr>
      \<lparr>tm_timezone := ''Asia/Tokyo''\<rparr>)
   \<longleftrightarrow> (let s = 22 * 60 + 0; e = 6 * 60 + 0; c = 23 * 60 + 30 in
        if s \<le> e then s \<le> c \<and> c \<le> e else s \<le> c \<or> c \<le> (e :: nat))"
  by (rule allowed_hours_window) (simp_all add: sample_now_def)

end
