(* ===== verification/Policy_Cache.thy ===== *)
theory Policy_Cache
  imports Ssh_Types Machines
begin

text \<open>
  \<open>crates/omni-ssh/src/policy/mod.rs\<close>: the policy cache and its manager. The backend's answer to
  \<open>get_ssh_policy\<close>, the JSON codec and the file system are parameters: the answer is an argument of
  \<open>refresh\<close> and \<open>get_policy\<close>, the others are the record \<open>policy_io\<close> over a file-system state of
  type \<open>'fs\<close>. \<open>get_policy\<close> reads the clock before (\<open>t0\<close>) and after (\<open>t1\<close>) the call of the backend. A
  background refresh is a task of its own: \<open>get_policy\<close> reports whether it spawned one. The
  configured time-outs are small enough for their sum to fit a \<open>Duration\<close>.

  Calls are made one after another, and whoever makes one waits for it. The cache is behind a
  read-write lock of tokio, which lets nobody in once a writer waits. \<open>pm_blocked\<close> says that a writer waits for a lock that
  will not be released; a call that then needs the lock does not return, and its result is \<open>None\<close>.
\<close>

section \<open>Cache entries\<close>

datatype policy_validity = Fresh | Stale | Expired | Invalid

record policy_cache =
  pc_policy :: ssh_policy
  pc_fetched_at :: datetime
  pc_etag :: "string option"
  pc_max_age :: duration
  pc_grace_period :: duration
  pc_hard_expiry :: duration

definition with_timeouts ::
  "datetime \<Rightarrow> ssh_policy \<Rightarrow> string option \<Rightarrow> duration \<Rightarrow> duration \<Rightarrow> duration \<Rightarrow> policy_cache" where
  "with_timeouts now policy etag max_age grace hard =
     \<lparr>pc_policy = policy, pc_fetched_at = now, pc_etag = etag, pc_max_age = max_age,
      pc_grace_period = grace, pc_hard_expiry = hard\<rparr>"

definition pc_new :: "datetime \<Rightarrow> ssh_policy \<Rightarrow> string option \<Rightarrow> policy_cache" where
  "pc_new now policy etag =
     \<lparr>pc_policy = policy, pc_fetched_at = now, pc_etag = etag, pc_max_age = from_secs 60,
      pc_grace_period = from_secs 300, pc_hard_expiry = from_secs 3600\<rparr>"

text \<open>\<open>Duration::MAX\<close>.\<close>

definition duration_max :: duration where
  "duration_max = from_secs (2 ^ 64 - 1) + 999999999"

definition validity :: "datetime \<Rightarrow> policy_cache \<Rightarrow> policy_validity" where
  "validity now c =
     (let age = (case to_std (now - pc_fetched_at c) of Some d \<Rightarrow> d | None \<Rightarrow> duration_max) in
      if age < pc_max_age c then Fresh
      else if age < pc_max_age c + pc_grace_period c then Stale
      else if age < pc_hard_expiry c then Expired
      else Invalid)"

definition should_refresh :: "datetime \<Rightarrow> policy_cache \<Rightarrow> bool" where
  "should_refresh now c = (validity now c \<in> {Stale, Expired, Invalid})"

definition pc_age :: "datetime \<Rightarrow> policy_cache \<Rightarrow> duration" where
  "pc_age now c = (case to_std (now - pc_fetched_at c) of Some d \<Rightarrow> d | None \<Rightarrow> 0)"

section \<open>The manager\<close>

record 'fs policy_io =
  io_to_json :: "ssh_policy \<Rightarrow> string option"
  io_from_json :: "string \<Rightarrow> ssh_policy option"
  io_write :: "string \<Rightarrow> string \<Rightarrow> 'fs \<Rightarrow> 'fs"
  io_read :: "'fs \<Rightarrow> string \<Rightarrow> string option"

record 'fs policy_manager =
  pm_cache :: "policy_cache option"
  pm_cache_file :: "string option"
  pm_refresh_interval :: duration
  pm_fs :: 'fs
  pm_blocked :: bool

definition pm_with_refresh_interval :: "'fs \<Rightarrow> string option \<Rightarrow> duration \<Rightarrow> 'fs policy_manager" where
  "pm_with_refresh_interval fs cache_file interval =
     \<lparr>pm_cache = None, pm_cache_file = cache_file, pm_refresh_interval = interval, pm_fs = fs,
      pm_blocked = False\<rparr>"

definition pm_new :: "'fs \<Rightarrow> string option \<Rightarrow> 'fs policy_manager" where
  "pm_new fs cache_file =
     \<lparr>pm_cache = None, pm_cache_file = cache_file, pm_refresh_interval = from_secs 60, pm_fs = fs,
      pm_blocked = False\<rparr>"

definition save_to_disk :: "'fs policy_io \<Rightarrow> ssh_policy \<Rightarrow> 'fs policy_manager \<Rightarrow> 'fs policy_manager" where
  "save_to_disk io policy m =
     (case pm_cache_file m of
        Some path \<Rightarrow>
          (case io_to_json io policy of
             Some json \<Rightarrow> m\<lparr>pm_fs := io_write io path json (pm_fs m)\<rparr>
           | None \<Rightarrow> m)
      | None \<Rightarrow> m)"

definition load_from_disk :: "'fs policy_io \<Rightarrow> 'fs policy_manager \<Rightarrow> ssh_policy option" where
  "load_from_disk io m =
     (case pm_cache_file m of
        Some path \<Rightarrow>
          (case io_read io (pm_fs m) path of
             Some json \<Rightarrow> io_from_json io json
           | None \<Rightarrow> None)
      | None \<Rightarrow> None)"

text \<open>The backend is asked first; the write lock is taken only for a policy it returned.\<close>

definition refresh ::
  "'fs policy_io \<Rightarrow> 'e + ssh_policy \<Rightarrow> datetime \<Rightarrow> 'fs policy_manager \<Rightarrow>
     ('e + ssh_policy) option \<times> 'fs policy_manager" where
  "refresh io backend now m =
     (case backend of
        Inl e \<Rightarrow> (Some (Inl e), m)
      | Inr policy \<Rightarrow>
          if pm_blocked m then (None, m)
          else (Some (Inr policy), save_to_disk io policy (m\<lparr>pm_cache := Some (pc_new now policy None)\<rparr>)))"

text \<open>
  The fall-back takes the read lock for the rest of the call. The policy from the disk is to be put into the cache
  under the write lock while the read lock is still held, so this call waits for itself.
\<close>

definition refresh_or_fallback ::
  "'fs policy_io \<Rightarrow> 'e + ssh_policy \<Rightarrow> datetime \<Rightarrow> 'fs policy_manager \<Rightarrow>
     ('e + ssh_policy \<times> policy_validity) option \<times> 'fs policy_manager" where
  "refresh_or_fallback io backend t1 m =
     (case refresh io backend t1 m of
        (None, m1) \<Rightarrow> (None, m1)
      | (Some (Inr policy), m1) \<Rightarrow> (Some (Inr (policy, Fresh)), m1)
      | (Some (Inl e), m1) \<Rightarrow>
          if (case pm_cache m1 of Some cached \<Rightarrow> validity t1 cached \<noteq> Invalid | None \<Rightarrow> False)
          then (Some (case pm_cache m1 of
                        Some cached \<Rightarrow> Inr (pc_policy cached, validity t1 cached) | None \<Rightarrow> Inl e), m1)
          else (case load_from_disk io m1 of
                  Some policy \<Rightarrow> (None, m1\<lparr>pm_blocked := True\<rparr>)
                | None \<Rightarrow> (Some (Inl e), m1)))"

definition get_policy ::
  "'fs policy_io \<Rightarrow> 'e + ssh_policy \<Rightarrow> datetime \<Rightarrow> datetime \<Rightarrow> 'fs policy_manager \<Rightarrow>
     ('e + ssh_policy \<times> policy_validity) option \<times> bool \<times> 'fs policy_manager" where
  "get_policy io backend t0 t1 m =
     (if pm_blocked m then (None, False, m)
      else case pm_cache m of
        Some cached \<Rightarrow>
          (case validity t0 cached of
             Fresh \<Rightarrow> (Some (Inr (pc_policy cached, Fresh)), False, m)
           | Stale \<Rightarrow> (Some (Inr (pc_policy cached, Stale)), True, m)
           | Expired \<Rightarrow> (let (r, m') = refresh_or_fallback io backend t1 m in (r, False, m'))
           | Invalid \<Rightarrow> (let (r, m') = refresh_or_fallback io backend t1 m in (r, False, m')))
      | None \<Rightarrow> (let (r, m') = refresh_or_fallback io backend t1 m in (r, False, m')))"

definition cache_status ::
  "datetime \<Rightarrow> 'fs policy_manager \<Rightarrow> (policy_validity \<times> duration) option option" where
  "cache_status now m =
     (if pm_blocked m then None else Some (map_option (\<lambda>c. (validity now c, pc_age now c)) (pm_cache m)))"

definition clear_cache :: "'fs policy_manager \<Rightarrow> unit option \<times> 'fs policy_manager" where
  "clear_cache m = (if pm_blocked m then (None, m) else (Some (), m\<lparr>pm_cache := None\<rparr>))"

definition has_valid_policy :: "datetime \<Rightarrow> 'fs policy_manager \<Rightarrow> bool option" where
  "has_valid_policy now m =
     (if pm_blocked m then None
      else Some (case pm_cache m of Some c \<Rightarrow> validity now c \<noteq> Invalid | None \<Rightarrow> False))"

section \<open>The manager as a machine\<close>

text \<open>The calls of a program; a background refresh is a call of \<open>refresh\<close>.\<close>

datatype 'e policy_op =
    OpGet "'e + ssh_policy" datetime datetime
  | OpRefresh "'e + ssh_policy" datetime
  | OpStatus datetime
  | OpClear
  | OpHasValid datetime

datatype 'e policy_reply =
    ReplyPolicy "'e + ssh_policy \<times> policy_validity"
  | ReplyRefresh "'e + ssh_policy"
  | ReplyStatus "(policy_validity \<times> duration) option"
  | ReplyUnit
  | ReplyBool bool

fun policy_step ::
  "'fs policy_io \<Rightarrow> 'e policy_op \<Rightarrow> 'fs policy_manager \<Rightarrow> 'e policy_reply option list \<times> 'fs policy_manager" where
  "policy_step io (OpGet b t0 t1) m =
     (case get_policy io b t0 t1 m of (r, _, m') \<Rightarrow> ([map_option ReplyPolicy r], m'))"
| "policy_step io (OpRefresh b now) m = (case refresh io b now m of (r, m') \<Rightarrow> ([map_option ReplyRefresh r], m'))"
| "policy_step io (OpStatus now) m = ([map_option ReplyStatus (cache_status now m)], m)"
| "policy_step io OpClear m = (case clear_cache m of (r, m') \<Rightarrow> ([map_option (\<lambda>_. ReplyUnit) r], m'))"
| "policy_step io (OpHasValid now) m = ([map_option ReplyBool (has_valid_policy now m)], m)"

text \<open>No call but a refresh that fails at the backend gets past the lock, and the lock is never released.\<close>

definition hangs :: "'e policy_reply option \<Rightarrow> bool" where
  "hangs r \<longleftrightarrow> (case r of None \<Rightarrow> True | Some (ReplyRefresh (Inl e)) \<Rightarrow> True | _ \<Rightarrow> False)"

lemma blocked_step:
  assumes "pm_blocked m"
  shows "pm_blocked (snd (policy_step io x m)) \<and> list_all hangs (fst (policy_step io x m))"
  using assms
  by (cases x) (auto simp: get_policy_def refresh_def cache_status_def clear_cache_def has_valid_policy_def hangs_def
      split: sum.split)

interpretation blocked: invariant_machine "policy_step io" pm_blocked for io
  by unfold_locales (simp add: blocked_step)

lemma blocked_run:
  assumes "pm_blocked m"
  shows "list_all hangs (fst (run_ops (policy_step io) xs m))"
proof -
  have "hangs r" if "r \<in> set (fst (run_ops (policy_step io) xs m))" for r
    using blocked.run_output [OF assms that] blocked_step by (fastforce simp: list_all_iff)
  then show ?thesis by (simp add: list_all_iff)
qed

section \<open>Validity over time\<close>

fun validity_rank :: "policy_validity \<Rightarrow> nat" where
  "validity_rank Fresh = 0"
| "validity_rank Stale = 1"
| "validity_rank Expired = 2"
| "validity_rank Invalid = 3"

lemmas pm_defs = get_policy_def refresh_or_fallback_def refresh_def Let_def

section \<open>Properties\<close>

text \<open>
  C20. The offline fall-back deadlocks. \<open>get_policy\<close> does not return exactly when the manager is blocked already, or when
  the backend fails, the cache has nothing usable (it is empty, or past its grace period at the first
  look and past its hard expiry at the second) and the policy on disk can be read, which is the case that copy is kept for. From then on nothing returns,
  for any calls at any times and also when the backend answers again, but a refresh that fails at the backend.
\<close>

theorem disk_fallback_deadlocks:
  "(fst (get_policy io backend t0 t1 m) = None \<longleftrightarrow>
      pm_blocked m \<or>
      ((\<exists>e. backend = Inl e) \<and> load_from_disk io m \<noteq> None \<and>
       (case pm_cache m of None \<Rightarrow> True
        | Some c \<Rightarrow> validity t0 c \<in> {Expired, Invalid} \<and> validity t1 c = Invalid))) \<and>
   (fst (get_policy io backend t0 t1 m) = None \<longrightarrow>
      list_all hangs (fst (run_ops (policy_step io) xs (snd (snd (get_policy io backend t0 t1 m))))))"
proof -
  let ?g = "get_policy io backend t0 t1 m"
  have "fst ?g = None \<longleftrightarrow> pm_blocked m \<or>
      ((\<exists>e. backend = Inl e) \<and> load_from_disk io m \<noteq> None \<and>
       (case pm_cache m of None \<Rightarrow> True
        | Some c \<Rightarrow> validity t0 c \<in> {Expired, Invalid} \<and> validity t1 c = Invalid))"
    by (auto simp: pm_defs split: option.splits policy_validity.splits sum.splits if_splits)
  moreover have "fst ?g = None \<Longrightarrow> pm_blocked (snd (snd ?g))"
    by (auto simp: pm_defs split: option.splits policy_validity.splits sum.splits if_splits)
  ultimately show ?thesis using blocked_run by blast
qed

text \<open>
  What \<open>get_policy\<close> returns, when it returns: a policy labelled \<open>Fresh\<close> was fetched just now or is cached and
  younger than \<open>max_age\<close>; labelled \<open>Expired\<close>, it is the cached one, past its grace period and
  before the hard expiry, and the backend failed; labelled \<open>Stale\<close>, it is the cached one in its
  grace period, never the one on disk; nothing is ever returned as \<open>Invalid\<close>, and an error is the
  backend's.
\<close>

theorem get_policy_sound:
  "(case get_policy io backend t0 t1 m of (r, _, _) \<Rightarrow>
     (case r of
        None \<Rightarrow> True
      | Some (Inl e) \<Rightarrow> backend = Inl e
      | Some (Inr (p, Fresh)) \<Rightarrow>
          backend = Inr p \<or> (\<exists>c t. t \<in> {t0, t1} \<and> pm_cache m = Some c \<and> pc_policy c = p \<and> validity t c = Fresh)
      | Some (Inr (p, Stale)) \<Rightarrow>
          (\<exists>c t. t \<in> {t0, t1} \<and> pm_cache m = Some c \<and> pc_policy c = p \<and> validity t c = Stale)
      | Some (Inr (p, Expired)) \<Rightarrow>
          (\<exists>c e. pm_cache m = Some c \<and> pc_policy c = p \<and> validity t1 c = Expired \<and> backend = Inl e)
      | Some (Inr (p, Invalid)) \<Rightarrow> False))"
  by (auto simp: pm_defs split: option.splits policy_validity.splits sum.splits if_splits)

text \<open>
  Ageing. As time passes, a cached policy only loses validity: it goes through \<open>Fresh\<close>,
  \<open>Stale\<close>, \<open>Expired\<close> and \<open>Invalid\<close> in this order and never back.
\<close>

theorem validity_ages:
  assumes "pc_fetched_at c \<le> t" and "t \<le> t'"
  shows "validity_rank (validity t c) \<le> validity_rank (validity t' c)"
proof -
  have "nat (t - pc_fetched_at c) \<le> nat (t' - pc_fetched_at c)" using assms by simp
  then show ?thesis using assms
    by (auto simp: validity_def to_std_def Let_def)
qed

text \<open>
  Without a cache file the hard expiry is enforced: when the cached policy has passed it and
  the backend fails, \<open>get_policy\<close> returns the error and the cache is left as it is.
\<close>

theorem hard_expiry_without_file:
  assumes "pm_cache_file m = None" and "pm_cache m = Some c" and "\<not> pm_blocked m"
    and "validity t0 c = Invalid" and "validity t1 c = Invalid"
  shows "get_policy io (Inl e) t0 t1 m = (Some (Inl e), False, m)"
  using assms by (simp add: pm_defs load_from_disk_def)

section \<open>Witnesses\<close>

definition sample_io :: "((string, string) hmap) policy_io" where
  "sample_io =
     \<lparr>io_to_json = (\<lambda>p. Some (show_nat (unat (po_version p)))),
      io_from_json = (\<lambda>s. map_option (\<lambda>n. \<lparr>po_version = of_nat n, po_updated_at = 0, po_rules = []\<rparr>)
                                      (parse_digits 0 s)),
      io_write = hm_insert, io_read = hm_get\<rparr>"

theorem validity_ages_witness:
  "validity_rank (validity 0 (pc_new 0 (SshPolicy_new 0) None))
     \<le> validity_rank (validity 70000000000 (pc_new 0 (SshPolicy_new 0) None))"
  by (rule validity_ages) (simp_all add: pc_new_def)

text \<open>
  A node that starts while the backend is down, with a policy on disk: the first \<open>get_policy\<close> hangs, and so
  does one a minute later, when the backend answers.
\<close>

definition cold_start :: "((string, string) hmap) policy_manager" where
  "cold_start = pm_new [(''/var/cache/policy'', ''7'')] (Some ''/var/cache/policy'')"

definition cold_ops :: "unit policy_op list" where
  "cold_ops = [OpGet (Inr (SshPolicy_new 0)) 60000000000 61000000000]"

lemma cold_start_file: "load_from_disk sample_io cold_start \<noteq> None" "pm_cache cold_start = None" "\<not> pm_blocked cold_start"
proof -
  have "parse_digits 0 ''7'' = Some 7" by code_simp
  then show "load_from_disk sample_io cold_start \<noteq> None" "pm_cache cold_start = None" "\<not> pm_blocked cold_start"
    by (simp_all add: cold_start_def pm_new_def load_from_disk_def sample_io_def hm_get_def)
qed

theorem disk_fallback_deadlocks_witness:
  "fst (get_policy sample_io (Inl ()) 5 6 cold_start) = None
   \<and> fst (run_ops (policy_step sample_io) cold_ops
        (snd (snd (get_policy sample_io (Inl ()) 5 6 cold_start)))) = [None]"
proof
  show n: "fst (get_policy sample_io (Inl ()) 5 6 cold_start) = None"
    using disk_fallback_deadlocks [of sample_io "Inl ()" 5 6 cold_start "[]"] cold_start_file by simp
  let ?s = "snd (snd (get_policy sample_io (Inl ()) 5 6 cold_start))"
  have "list_all hangs (fst (run_ops (policy_step sample_io) cold_ops ?s))"
    using disk_fallback_deadlocks [of sample_io "Inl ()" 5 6 cold_start cold_ops] n
    by simp
  then show "fst (run_ops (policy_step sample_io) cold_ops ?s) = [None]"
    by (auto simp: cold_ops_def hangs_def split: prod.splits option.splits)
qed

theorem hard_expiry_without_file_witness:
  "get_policy sample_io (Inl ()) (10 ^ 13) (10 ^ 13)
     ((pm_new [] None)\<lparr>pm_cache := Some (pc_new 0 (SshPolicy_new 0) None)\<rparr>)
   = (Some (Inl ()), False, (pm_new [] None)\<lparr>pm_cache := Some (pc_new 0 (SshPolicy_new 0) None)\<rparr>)"
  by (rule hard_expiry_without_file [where c = "pc_new 0 (SshPolicy_new 0) None"])
     (simp_all add: pm_new_def pc_new_def validity_def to_std_def from_secs_def)

end
