(* ===== verification/Ssh_Session.thy ===== *)
theory Ssh_Session
  imports Ssh_Types
begin

text \<open>
  \<open>crates/omni-ssh/src/server/session.rs\<close> and \<open>crates/omni-ssh/src/server/config.rs\<close>: the session
  with its maximal duration, and the server configuration with its builder functions.
\<close>

section \<open>Sessions\<close>

record pty_request =
  pty_term :: string
  pty_width :: u32
  pty_height :: u32
  pty_width_px :: u32
  pty_height_px :: u32

definition PtyRequest_default :: pty_request where
  "PtyRequest_default =
     \<lparr>pty_term = ''xterm-256color'', pty_width = 80, pty_height = 24, pty_width_px = 0,
      pty_height_px = 0\<rparr>"

record session_args =
  sx_uid :: u32
  sx_gid :: u32
  sx_groups :: "u32 list"
  sx_home_dir :: string
  sx_shell :: string
  sx_command :: session_command
  sx_env :: "(string, string) hmap"
  sx_pty :: "pty_request option"

record session =
  se_id :: string
  se_connection_id :: string
  se_session_type :: session_command
  se_action :: ssh_action
  se_started_at :: datetime
  se_pty :: "pty_request option"

definition session_new ::
  "datetime \<Rightarrow> string \<Rightarrow> string \<Rightarrow> session_command \<Rightarrow> ssh_action \<Rightarrow> session" where
  "session_new now i connection_id session_type action =
     \<lparr>se_id = i, se_connection_id = connection_id, se_session_type = session_type,
      se_action = action, se_started_at = now, se_pty = None\<rparr>"

definition with_pty :: "pty_request \<Rightarrow> session \<Rightarrow> session" where
  "with_pty pty s = s\<lparr>se_pty := Some pty\<rparr>"

definition se_duration :: "datetime \<Rightarrow> session \<Rightarrow> int" where
  "se_duration now s = now - se_started_at s"

definition is_expired :: "datetime \<Rightarrow> session \<Rightarrow> bool" where
  "is_expired now s =
     (case act_session_duration (se_action s) of
        Some max_duration \<Rightarrow>
          (case to_std (se_duration now s) of Some d \<Rightarrow> d | None \<Rightarrow> 0) > max_duration
      | None \<Rightarrow> False)"

section \<open>Server configuration\<close>

record ssh_server_config =
  sc_port :: u16
  sc_enable_sftp :: bool
  sc_enable_forwarding :: bool
  sc_enable_pty :: bool
  sc_recording :: recording_config
  sc_rate_limit_per_ip :: u32
  sc_max_failed_auth :: u32
  sc_ban_duration :: duration
  sc_max_concurrent :: u32
  sc_idle_timeout :: duration
  sc_keepalive_interval :: duration
  sc_handshake_timeout :: duration

definition SshServerConfig_default :: ssh_server_config where
  "SshServerConfig_default =
     \<lparr>sc_port = 22, sc_enable_sftp = True, sc_enable_forwarding = False, sc_enable_pty = True,
      sc_recording = RecordingConfig_default, sc_rate_limit_per_ip = 10, sc_max_failed_auth = 5,
      sc_ban_duration = from_secs (15 * 60), sc_max_concurrent = 100,
      sc_idle_timeout = from_secs (30 * 60), sc_keepalive_interval = from_secs 60,
      sc_handshake_timeout = from_secs 30\<rparr>"

definition with_local_recording :: "string \<Rightarrow> ssh_server_config \<Rightarrow> ssh_server_config" where
  "with_local_recording dir c =
     c\<lparr>sc_recording := (sc_recording c)\<lparr>rc_enabled := True, rc_local_dir := Some dir\<rparr>\<rparr>"

definition with_cloud_recording :: "string \<Rightarrow> ssh_server_config \<Rightarrow> ssh_server_config" where
  "with_cloud_recording url c =
     c\<lparr>sc_recording := (sc_recording c)\<lparr>rc_enabled := True, rc_cloud_url := Some url\<rparr>\<rparr>"

definition with_forwarding :: "bool \<Rightarrow> ssh_server_config \<Rightarrow> ssh_server_config" where
  "with_forwarding enable c = c\<lparr>sc_enable_forwarding := enable\<rparr>"

definition with_rate_limit ::
  "u32 \<Rightarrow> u32 \<Rightarrow> duration \<Rightarrow> ssh_server_config \<Rightarrow> ssh_server_config" where
  "with_rate_limit per_ip max_failed ban c =
     c\<lparr>sc_rate_limit_per_ip := per_ip, sc_max_failed_auth := max_failed, sc_ban_duration := ban\<rparr>"

section \<open>Lemmas\<close>

lemma with_pty_frame [simp]:
  "is_expired now (with_pty pty s) = is_expired now s"
  by (simp add: is_expired_def with_pty_def se_duration_def cong: option.case_cong)

lemma recording_builders_commute:
  "with_local_recording d (with_cloud_recording u c) = with_cloud_recording u (with_local_recording d c)"
  by (simp add: with_local_recording_def with_cloud_recording_def)

section \<open>Properties\<close>

text \<open>
  A session started at \<open>t\<close> with a maximal duration expires exactly when more than that duration
  has passed since, so once expired it stays so; a session without one never expires, and a clock
  that has been set back never expires one.
\<close>

theorem session_expiry:
  "is_expired now (session_new t i c k action) \<longleftrightarrow>
     (\<exists>d. act_session_duration action = Some d \<and> t + int d < now)"
  by (auto simp: is_expired_def session_new_def se_duration_def to_std_def split: option.splits)

end
