(* ===== verification/Health.thy ===== *)
theory Health
  imports Machines Complex_Main
begin

text \<open>
  \<open>crates/omni-ssh/src/health/mod.rs\<close>: health tracking of connections. The atomic counters are 64-bit
  words, the watch channel is its current value, a loss percentage (\<open>f32\<close>, finite) is a rational
  number whose formatting \<open>{:.1}\<close> is the parameter \<open>fmt\<close>. Trackers are shared through \<open>Arc\<close>: the
  monitor holds indices into a store of trackers, as the callers do.
\<close>

section \<open>State\<close>

datatype health_status =
    Healthy
  | Degraded string
  | Unhealthy string
  | Dead string

record health_threshold =
  ht_max_rtt_degraded_ms :: u64
  ht_max_rtt_unhealthy_ms :: u64
  ht_max_loss_degraded_pct :: rat
  ht_max_loss_unhealthy_pct :: rat
  ht_keepalive_interval_secs :: u64
  ht_max_missed_keepalives :: u32
  ht_operation_timeout_secs :: u64

record connection_health =
  ch_conn_id :: string
  ch_status :: health_status
  ch_last_activity :: u64
  ch_last_keepalive_sent :: u64
  ch_last_keepalive_received :: u64
  ch_missed_keepalives :: u64
  ch_bytes_received :: u64
  ch_bytes_sent :: u64
  ch_active :: bool
  ch_thresholds :: health_threshold
  ch_start_time :: instant

record connection_stats =
  cs_conn_id :: string
  cs_uptime :: duration
  cs_bytes_received :: u64
  cs_bytes_sent :: u64
  cs_missed_keepalives :: u32
  cs_status :: health_status

section \<open>Operations\<close>

definition should_terminate :: "health_status \<Rightarrow> bool" where
  "should_terminate s = (case s of Dead _ \<Rightarrow> True | _ \<Rightarrow> False)"

definition is_usable :: "health_status \<Rightarrow> bool" where
  "is_usable s = (case s of Healthy \<Rightarrow> True | Degraded _ \<Rightarrow> True | _ \<Rightarrow> False)"

definition HealthThreshold_default :: health_threshold where
  "HealthThreshold_default =
     \<lparr>ht_max_rtt_degraded_ms = 500, ht_max_rtt_unhealthy_ms = 2000,
      ht_max_loss_degraded_pct = 5, ht_max_loss_unhealthy_pct = 20,
      ht_keepalive_interval_secs = 30, ht_max_missed_keepalives = 3,
      ht_operation_timeout_secs = 60\<rparr>"

definition ch_new :: "instant \<Rightarrow> string \<Rightarrow> health_threshold \<Rightarrow> connection_health" where
  "ch_new now conn_id thresholds =
     \<lparr>ch_conn_id = conn_id, ch_status = Healthy, ch_last_activity = 0,
      ch_last_keepalive_sent = 0, ch_last_keepalive_received = 0, ch_missed_keepalives = 0,
      ch_bytes_received = 0, ch_bytes_sent = 0, ch_active = True, ch_thresholds = thresholds,
      ch_start_time = now\<rparr>"

definition uptime_secs :: "instant \<Rightarrow> connection_health \<Rightarrow> u64" where
  "uptime_secs now c = of_nat (as_secs (elapsed (ch_start_time c) now))"

definition record_activity :: "instant \<Rightarrow> connection_health \<Rightarrow> connection_health" where
  "record_activity now c = c\<lparr>ch_last_activity := uptime_secs now c\<rparr>"

definition record_received :: "instant \<Rightarrow> u64 \<Rightarrow> connection_health \<Rightarrow> connection_health" where
  "record_received now bytes c =
     record_activity now (c\<lparr>ch_bytes_received := ch_bytes_received c + bytes\<rparr>)"

definition record_sent :: "instant \<Rightarrow> u64 \<Rightarrow> connection_health \<Rightarrow> connection_health" where
  "record_sent now bytes c =
     record_activity now (c\<lparr>ch_bytes_sent := ch_bytes_sent c + bytes\<rparr>)"

definition record_keepalive_sent :: "instant \<Rightarrow> connection_health \<Rightarrow> connection_health" where
  "record_keepalive_sent now c = c\<lparr>ch_last_keepalive_sent := uptime_secs now c\<rparr>"

definition record_keepalive_received :: "instant \<Rightarrow> connection_health \<Rightarrow> connection_health" where
  "record_keepalive_received now c =
     record_activity now
       (c\<lparr>ch_last_keepalive_received := uptime_secs now c, ch_missed_keepalives := 0\<rparr>)"

definition update_status :: "health_status \<Rightarrow> connection_health \<Rightarrow> connection_health" where
  "update_status s c = (if ch_active c then c\<lparr>ch_status := s\<rparr> else c)"

definition show_u64 :: "u64 \<Rightarrow> string" where
  "show_u64 n = show_nat (unat n)"

definition record_missed_keepalive :: "connection_health \<Rightarrow> connection_health" where
  "record_missed_keepalive c =
     (let missed = ch_missed_keepalives c + 1;
          c1 = c\<lparr>ch_missed_keepalives := missed\<rparr>;
          limit = ht_max_missed_keepalives (ch_thresholds c) in
      if ucast limit \<le> missed then
        update_status (Dead (''Missed '' @ show_u64 missed @ '' keepalives'')) c1
      else
        update_status
          (Unhealthy (''Missed '' @ show_u64 missed @ '' of '' @ show_nat (unat limit) @ '' keepalives'')) c1)"

definition rtt_status :: "health_threshold \<Rightarrow> u64 \<Rightarrow> health_status" where
  "rtt_status th rtt_ms =
     (if rtt_ms > ht_max_rtt_unhealthy_ms th then Unhealthy (''High RTT: '' @ show_u64 rtt_ms @ ''ms'')
      else if rtt_ms > ht_max_rtt_degraded_ms th then Degraded (''Elevated RTT: '' @ show_u64 rtt_ms @ ''ms'')
      else Healthy)"

definition update_rtt :: "u64 \<Rightarrow> connection_health \<Rightarrow> connection_health" where
  "update_rtt rtt_ms c = update_status (rtt_status (ch_thresholds c) rtt_ms) c"

definition loss_status :: "(rat \<Rightarrow> string) \<Rightarrow> health_threshold \<Rightarrow> rat \<Rightarrow> health_status" where
  "loss_status fmt th loss =
     (if loss > ht_max_loss_unhealthy_pct th then Unhealthy (''High packet loss: '' @ fmt loss @ ''%'')
      else if loss > ht_max_loss_degraded_pct th then Degraded (''Elevated packet loss: '' @ fmt loss @ ''%'')
      else Healthy)"

definition update_packet_loss :: "(rat \<Rightarrow> string) \<Rightarrow> rat \<Rightarrow> connection_health \<Rightarrow> connection_health" where
  "update_packet_loss fmt loss c = update_status (loss_status fmt (ch_thresholds c) loss) c"

definition mark_dead :: "string \<Rightarrow> connection_health \<Rightarrow> connection_health" where
  "mark_dead reason c = update_status (Dead reason) c"

definition needs_keepalive :: "instant \<Rightarrow> connection_health \<Rightarrow> bool" where
  "needs_keepalive now c =
     (uptime_secs now c - ch_last_activity c \<ge> ht_keepalive_interval_secs (ch_thresholds c))"

definition ch_stats :: "instant \<Rightarrow> connection_health \<Rightarrow> connection_stats" where
  "ch_stats now c =
     \<lparr>cs_conn_id = ch_conn_id c, cs_uptime = elapsed (ch_start_time c) now,
      cs_bytes_received = ch_bytes_received c, cs_bytes_sent = ch_bytes_sent c,
      cs_missed_keepalives = ucast (ch_missed_keepalives c), cs_status = ch_status c\<rparr>"

definition ch_stop :: "connection_health \<Rightarrow> connection_health" where
  "ch_stop c = c\<lparr>ch_active := False\<rparr>"

section \<open>The monitor\<close>

record health_monitor =
  hmn_connections :: "(string, nat) hmap"
  hmn_store :: "connection_health list"
  hmn_default_thresholds :: health_threshold

record monitor_stats =
  ms_total :: nat
  ms_healthy :: nat
  ms_degraded :: nat
  ms_unhealthy :: nat
  ms_dead :: nat

definition hmn_new :: "health_threshold \<Rightarrow> health_monitor" where
  "hmn_new th = \<lparr>hmn_connections = [], hmn_store = [], hmn_default_thresholds = th\<rparr>"

definition monitor_with_thresholds ::
  "instant \<Rightarrow> string \<Rightarrow> health_threshold \<Rightarrow> health_monitor \<Rightarrow> nat \<times> health_monitor" where
  "monitor_with_thresholds now conn_id th h =
     (let ptr = length (hmn_store h) in
      (ptr, h\<lparr>hmn_store := hmn_store h @ [ch_new now conn_id th],
              hmn_connections := hm_insert conn_id ptr (hmn_connections h)\<rparr>))"

definition monitor :: "instant \<Rightarrow> string \<Rightarrow> health_monitor \<Rightarrow> nat \<times> health_monitor" where
  "monitor now conn_id h = monitor_with_thresholds now conn_id (hmn_default_thresholds h) h"

definition upd_tracker ::
  "nat \<Rightarrow> (connection_health \<Rightarrow> connection_health) \<Rightarrow> health_monitor \<Rightarrow> health_monitor" where
  "upd_tracker ptr f h = h\<lparr>hmn_store := (hmn_store h)[ptr := f (hmn_store h ! ptr)]\<rparr>"

definition stop_monitoring :: "string \<Rightarrow> health_monitor \<Rightarrow> health_monitor" where
  "stop_monitoring conn_id h =
     (case hm_get (hmn_connections h) conn_id of
        Some ptr \<Rightarrow>
          upd_tracker ptr ch_stop (h\<lparr>hmn_connections := hm_remove conn_id (hmn_connections h)\<rparr>)
      | None \<Rightarrow> h)"

definition hmn_get :: "health_monitor \<Rightarrow> string \<Rightarrow> nat option" where
  "hmn_get h conn_id = hm_get (hmn_connections h) conn_id"

definition status_of :: "health_monitor \<Rightarrow> nat \<Rightarrow> health_status" where
  "status_of h ptr = ch_status (hmn_store h ! ptr)"

definition unhealthy_connections :: "health_monitor \<Rightarrow> string list" where
  "unhealthy_connections h =
     map fst (filter (\<lambda>(k, ptr). case status_of h ptr of
                        Unhealthy _ \<Rightarrow> True | Dead _ \<Rightarrow> True | _ \<Rightarrow> False) (hmn_connections h))"

definition hmn_needs_keepalive :: "instant \<Rightarrow> health_monitor \<Rightarrow> string list" where
  "hmn_needs_keepalive now h =
     map fst (filter (\<lambda>(k, ptr). needs_keepalive now (hmn_store h ! ptr)) (hmn_connections h))"

fun count_status :: "health_status \<Rightarrow> monitor_stats \<Rightarrow> monitor_stats" where
  "count_status Healthy m = m\<lparr>ms_healthy := Suc (ms_healthy m)\<rparr>"
| "count_status (Degraded _) m = m\<lparr>ms_degraded := Suc (ms_degraded m)\<rparr>"
| "count_status (Unhealthy _) m = m\<lparr>ms_unhealthy := Suc (ms_unhealthy m)\<rparr>"
| "count_status (Dead _) m = m\<lparr>ms_dead := Suc (ms_dead m)\<rparr>"

definition overall_stats :: "health_monitor \<Rightarrow> monitor_stats" where
  "overall_stats h =
     fold (\<lambda>(k, ptr). count_status (status_of h ptr)) (hmn_connections h)
       \<lparr>ms_total = hm_len (hmn_connections h), ms_healthy = 0, ms_degraded = 0, ms_unhealthy = 0,
        ms_dead = 0\<rparr>"

section \<open>Events of one tracker\<close>

datatype health_op =
    Activity
  | Received u64
  | Sent u64
  | KeepaliveSent
  | KeepaliveReceived
  | MissedKeepalive
  | Rtt u64
  | PacketLoss rat
  | MarkDead string
  | Stop

fun health_step :: "(rat \<Rightarrow> string) \<Rightarrow> instant \<Rightarrow> health_op \<Rightarrow> connection_health \<Rightarrow> connection_health" where
  "health_step fmt now Activity c = record_activity now c"
| "health_step fmt now (Received n) c = record_received now n c"
| "health_step fmt now (Sent n) c = record_sent now n c"
| "health_step fmt now KeepaliveSent c = record_keepalive_sent now c"
| "health_step fmt now KeepaliveReceived c = record_keepalive_received now c"
| "health_step fmt now MissedKeepalive c = record_missed_keepalive c"
| "health_step fmt now (Rtt n) c = update_rtt n c"
| "health_step fmt now (PacketLoss x) c = update_packet_loss fmt x c"
| "health_step fmt now (MarkDead r) c = mark_dead r c"
| "health_step fmt now Stop c = ch_stop c"

definition health_run :: "(rat \<Rightarrow> string) \<Rightarrow> (instant \<times> health_op) list \<Rightarrow> connection_health \<Rightarrow> connection_health" where
  "health_run fmt xs c = snd (run_ops (\<lambda>(t, x) c. ([] :: unit list, health_step fmt t x c)) xs c)"

lemma health_run_simps [simp]:
  "health_run fmt [] c = c"
  "health_run fmt ((t, x) # xs) c = health_run fmt xs (health_step fmt t x c)"
  by (simp_all add: health_run_def split_beta Let_def)

lemmas health_defs = record_activity_def record_received_def record_sent_def
  record_keepalive_sent_def record_keepalive_received_def record_missed_keepalive_def
  update_rtt_def update_packet_loss_def mark_dead_def ch_stop_def update_status_def Let_def

lemma health_step_frame [simp]:
  "ch_start_time (health_step fmt t x c) = ch_start_time c"
  "ch_thresholds (health_step fmt t x c) = ch_thresholds c"
  by (cases x; simp add: health_defs)+

lemma health_step_inactive:
  "\<not> ch_active c \<Longrightarrow> \<not> ch_active (health_step fmt t x c) \<and> ch_status (health_step fmt t x c) = ch_status c"
  by (cases x) (simp_all add: health_defs)

interpretation inactive: invariant_machine "\<lambda>(t, x) c. ([] :: unit list, health_step fmt t x c)"
    "\<lambda>c. \<not> ch_active c \<and> ch_status c = st" for fmt st
  by unfold_locales (auto simp: health_step_inactive)

lemma health_run_inactive:
  "\<not> ch_active c \<Longrightarrow> \<not> ch_active (health_run fmt xs c) \<and> ch_status (health_run fmt xs c) = ch_status c"
  using inactive.run_inv [of c "ch_status c" fmt xs] by (simp add: health_run_def)

lemma health_step_active [simp]: "x \<noteq> Stop \<Longrightarrow> ch_active (health_step fmt t x c) = ch_active c"
  by (cases x) (simp_all add: health_defs)

text \<open>The measurement an event reports, if it reports one.\<close>

fun measured :: "(rat \<Rightarrow> string) \<Rightarrow> health_op \<Rightarrow> connection_health \<Rightarrow> health_status option" where
  "measured fmt (Rtt n) c = Some (rtt_status (ch_thresholds c) n)"
| "measured fmt (PacketLoss x) c = Some (loss_status fmt (ch_thresholds c) x)"
| "measured fmt (MarkDead r) c = Some (Dead r)"
| "measured fmt MissedKeepalive c = Some (ch_status (record_missed_keepalive (c\<lparr>ch_active := True\<rparr>)))"
| "measured fmt _ c = None"

lemma health_step_status:
  "ch_active c \<Longrightarrow> ch_status (health_step fmt t x c) =
     (case measured fmt x c of Some s \<Rightarrow> s | None \<Rightarrow> ch_status c)"
  by (cases x) (auto simp: health_defs)

text \<open>Uptime in seconds fits 64 bits for any run of less than \<open>2 ^ 64\<close> seconds.\<close>

definition activity_ok :: "instant \<Rightarrow> connection_health \<Rightarrow> bool" where
  "activity_ok now c \<longleftrightarrow> unat (ch_last_activity c) \<le> as_secs (elapsed (ch_start_time c) now)"

lemma activity_ok_mono: "activity_ok t c \<Longrightarrow> t \<le> t' \<Longrightarrow> activity_ok t' c"
  unfolding activity_ok_def as_secs_def
  by (meson div_le_mono elapsed_mono le_trans)

lemma unat_uptime: "unat (uptime_secs now c) \<le> as_secs (elapsed (ch_start_time c) now)"
  by (simp add: uptime_secs_def unat_of_nat)

lemma activity_ok_step: "activity_ok t c \<Longrightarrow> activity_ok t (health_step fmt t x c)"
proof -
  assume ok: "activity_ok t c"
  have "ch_last_activity (health_step fmt t x c) \<in> {ch_last_activity c, uptime_secs t c}"
    by (cases x) (auto simp: health_defs uptime_secs_def)
  with ok unat_uptime [of t c] show ?thesis by (auto simp: activity_ok_def)
qed

fun times_sorted :: "instant \<Rightarrow> (instant \<times> 'x) list \<Rightarrow> bool" where
  "times_sorted t [] = True"
| "times_sorted t ((t', x) # xs) = (t \<le> t' \<and> times_sorted t' xs)"

fun end_time :: "instant \<Rightarrow> (instant \<times> 'x) list \<Rightarrow> instant" where
  "end_time t [] = t"
| "end_time t ((t', x) # xs) = end_time t' xs"

lemma activity_ok_run:
  "activity_ok t c \<Longrightarrow> times_sorted t xs \<Longrightarrow> activity_ok (end_time t xs) (health_run fmt xs c)"
proof (induction xs arbitrary: t c)
  case (Cons a xs)
  obtain t' x where a: "a = (t', x)" by (cases a)
  with Cons.prems have "activity_ok t' (health_step fmt t' x c)"
    by (auto intro: activity_ok_step activity_ok_mono)
  with Cons a show ?case by simp
qed simp

interpretation tracker: framed_machine "\<lambda>(t, x) c. ([] :: unit list, health_step fmt t x c)"
    "\<lambda>c. (ch_start_time c, ch_thresholds c)" for fmt
  by unfold_locales auto

lemma health_run_frame [simp]:
  "ch_start_time (health_run fmt xs c) = ch_start_time c"
  "ch_thresholds (health_run fmt xs c) = ch_thresholds c"
  using tracker.run_frame [of fmt xs c] by (simp_all add: health_run_def)

lemma health_run_append: "health_run fmt (xs @ ys) c = health_run fmt ys (health_run fmt xs c)"
  by (simp add: health_run_def run_ops_append split_beta Let_def)

text \<open>The number of keepalives missed since the last one received, and the last activity.\<close>

fun missed_since :: "nat \<Rightarrow> (instant \<times> health_op) list \<Rightarrow> nat" where
  "missed_since n [] = n"
| "missed_since n ((t, x) # xs) =
     missed_since (case x of MissedKeepalive \<Rightarrow> Suc n | KeepaliveReceived \<Rightarrow> 0 | _ \<Rightarrow> n) xs"

fun is_activity :: "health_op \<Rightarrow> bool" where
  "is_activity Activity = True"
| "is_activity (Received n) = True"
| "is_activity (Sent n) = True"
| "is_activity KeepaliveReceived = True"
| "is_activity x = False"

fun last_active :: "instant \<Rightarrow> (instant \<times> health_op) list \<Rightarrow> instant" where
  "last_active t [] = t"
| "last_active t ((t', x) # xs) = last_active (if is_activity x then t' else t) xs"

lemma missed_step:
  assumes "ch_missed_keepalives c = of_nat n"
  shows "ch_missed_keepalives (health_step fmt t x c) =
    of_nat (case x of MissedKeepalive \<Rightarrow> Suc n | KeepaliveReceived \<Rightarrow> 0 | _ \<Rightarrow> n)"
  using assms by (cases x) (simp_all add: health_defs)

lemma missed_run:
  "ch_missed_keepalives c = of_nat n \<Longrightarrow>
   ch_missed_keepalives (health_run fmt xs c) = of_nat (missed_since n xs)"
proof (induction xs arbitrary: c n)
  case (Cons a xs)
  obtain t x where a: "a = (t, x)" by (cases a)
  show ?case
    unfolding a health_run_simps missed_since.simps
    by (rule Cons.IH) (rule missed_step [OF Cons.prems])
qed simp

lemma missed_since_bound: "missed_since n xs \<le> n + length xs"
proof (induction xs arbitrary: n)
  case (Cons a xs)
  obtain t x where a: "a = (t, x)" by (cases a)
  show ?case using Cons.IH [of "Suc n"] Cons.IH [of 0] Cons.IH [of n]
    by (cases x) (simp_all add: a)
qed simp

lemma activity_step:
  assumes "ch_last_activity c = uptime_secs t c"
  shows "ch_last_activity (health_step fmt t' x c) =
    uptime_secs (if is_activity x then t' else t) c"
  using assms by (cases x) (simp_all add: health_defs uptime_secs_def)

lemma activity_run:
  "ch_last_activity c = uptime_secs t c \<Longrightarrow>
   ch_last_activity (health_run fmt xs c) = uptime_secs (last_active t xs) c"
proof (induction xs arbitrary: c t)
  case (Cons a xs)
  obtain t' x where a: "a = (t', x)" by (cases a)
  let ?c = "health_step fmt t' x c"
  have up: "uptime_secs s ?c = uptime_secs s c" for s by (simp add: uptime_secs_def)
  have "ch_last_activity ?c = uptime_secs (if is_activity x then t' else t) ?c"
    using activity_step [OF Cons.prems] up by simp
  from Cons.IH [OF this] show ?case by (simp add: a up)
qed simp

lemma last_active_le: "times_sorted t xs \<Longrightarrow> s \<le> t \<Longrightarrow> last_active s xs \<le> end_time t xs"
proof (induction xs arbitrary: s t)
  case (Cons a xs)
  obtain t' x where a: "a = (t', x)" by (cases a)
  with Cons show ?case by auto
qed simp

lemma count_status_fold:
  "fold (\<lambda>(k, p). count_status (f p)) xs
     \<lparr>ms_total = n, ms_healthy = a, ms_degraded = b, ms_unhealthy = c, ms_dead = d\<rparr> =
   \<lparr>ms_total = n,
    ms_healthy = a + length (filter (\<lambda>(k, p). f p = Healthy) xs),
    ms_degraded = b + length (filter (\<lambda>(k, p). is_usable (f p) \<and> f p \<noteq> Healthy) xs),
    ms_unhealthy = c + length (filter (\<lambda>(k, p). \<not> is_usable (f p) \<and> \<not> should_terminate (f p)) xs),
    ms_dead = d + length (filter (\<lambda>(k, p). should_terminate (f p)) xs)\<rparr>"
proof (induction xs arbitrary: a b c d)
  case (Cons x xs)
  obtain k p where x: "x = (k, p)" by (cases x)
  show ?case
    by (cases "f p") (simp_all add: x Cons is_usable_def should_terminate_def)
qed simp

lemma status_partition:
  "length (filter (\<lambda>(k, p). f p = Healthy) xs) +
   length (filter (\<lambda>(k, p). is_usable (f p) \<and> f p \<noteq> Healthy) xs) +
   length (filter (\<lambda>(k, p). \<not> is_usable (f p) \<and> \<not> should_terminate (f p)) xs) +
   length (filter (\<lambda>(k, p). should_terminate (f p)) xs) = length xs"
proof (induction xs)
  case (Cons x xs)
  obtain k p where x: "x = (k, p)" by (cases x)
  show ?case using Cons
    by (cases "f p") (simp_all add: x is_usable_def should_terminate_def)
qed simp

section \<open>Properties\<close>

text \<open>
  A tracker that is active after any sequence of events and then misses a keepalive becomes dead
  exactly when the keepalives missed since the last one received reach the configured maximum, and
  unhealthy otherwise.
\<close>

theorem missed_keepalives_kill:
  assumes "ch_active (health_run fmt xs (ch_new t0 i th))"
    and "length xs + 1 < 2 ^ 64"
  shows "should_terminate (ch_status (health_run fmt (xs @ [(t, MissedKeepalive)]) (ch_new t0 i th)))
           = (unat (ht_max_missed_keepalives th) \<le> Suc (missed_since 0 xs)) \<and>
    \<not> is_usable (ch_status (health_run fmt (xs @ [(t, MissedKeepalive)]) (ch_new t0 i th)))"
proof -
  let ?c = "health_run fmt xs (ch_new t0 i th)"
  have n: "Suc (missed_since 0 xs) < 2 ^ 64"
    using missed_since_bound [of 0 xs] assms(2) by simp
  have m: "ch_missed_keepalives ?c = of_nat (missed_since 0 xs)"
    by (rule missed_run) (simp add: ch_new_def)
  have th: "ch_thresholds ?c = th" by (simp add: ch_new_def)
  have u: "unat (1 + of_nat (missed_since 0 xs) :: u64) = Suc (missed_since 0 xs)"
    using n unat_of_nat [of "Suc (missed_since 0 xs)", where ?'a = 64] by simp
  have le: "(ucast (ht_max_missed_keepalives th) :: u64) \<le> 1 + of_nat (missed_since 0 xs)
      \<longleftrightarrow> unat (ht_max_missed_keepalives th) \<le> Suc (missed_since 0 xs)"
    unfolding word_le_nat_alt u using unat_u32_less [of "ht_max_missed_keepalives th"]
    by (simp add: unsigned_ucast_eq take_bit_nat_eq_self)
  show ?thesis
    using assms(1) m th le
    by (simp add: health_run_append record_missed_keepalive_def update_status_def should_terminate_def
        is_usable_def Let_def add.commute)
qed

theorem missed_keepalives_kill_witness:
  "should_terminate (ch_status (health_run (\<lambda>x. ''0.0'')
     ([(1, MissedKeepalive), (2, KeepaliveReceived), (3, MissedKeepalive), (4, Rtt 7), (5, MissedKeepalive)]
      @ [(6, MissedKeepalive)]) (ch_new 0 ''c'' HealthThreshold_default)))"
proof -
  let ?xs = "[(1, MissedKeepalive), (2, KeepaliveReceived), (3, MissedKeepalive), (4, Rtt 7), (5, MissedKeepalive)]"
  have "ch_active (health_run (\<lambda>x. ''0.0'') ?xs (ch_new 0 ''c'' HealthThreshold_default))"
    by (simp add: ch_new_def del: health_step.simps)
  from missed_keepalives_kill [OF this, of 6] show ?thesis
    by (simp add: HealthThreshold_default_def)
qed

text \<open>
  The keepalive test compares whole seconds of uptime: with a monotone clock and an uptime below
  \<open>2 ^ 64\<close> seconds the unsigned subtraction never wraps, and a keepalive is due exactly when the
  uptime of now exceeds that of the last activity (the start, if there was none) by the interval.
\<close>

theorem needs_keepalive_exact:
  assumes "times_sorted t0 xs" "end_time t0 xs \<le> now"
    and "as_secs (elapsed t0 now) < 2 ^ 64"
  shows "needs_keepalive now (health_run fmt xs (ch_new t0 i th)) \<longleftrightarrow>
    as_secs (elapsed t0 (last_active t0 xs)) + unat (ht_keepalive_interval_secs th)
      \<le> as_secs (elapsed t0 now)"
proof -
  let ?c = "health_run fmt xs (ch_new t0 i th)"
  have st: "ch_start_time ?c = t0" "ch_start_time (ch_new t0 i th) = t0" "ch_thresholds ?c = th"
    by (simp_all add: ch_new_def)
  have la: "ch_last_activity ?c = uptime_secs (last_active t0 xs) (ch_new t0 i th)"
    by (rule activity_run) (simp add: ch_new_def uptime_secs_def as_secs_def)
  have le: "as_secs (elapsed t0 (last_active t0 xs)) \<le> as_secs (elapsed t0 now)"
    unfolding as_secs_def using last_active_le [OF assms(1), of t0] assms(2)
    by (intro div_le_mono elapsed_mono) simp
  have un: "unat (uptime_secs now ?c) = as_secs (elapsed t0 now)"
    using assms(3) by (simp add: uptime_secs_def st unat_of_nat)
  have ul: "unat (ch_last_activity ?c) = as_secs (elapsed t0 (last_active t0 xs))"
    using assms(3) le by (simp add: la uptime_secs_def st unat_of_nat)
  have "unat (uptime_secs now ?c - ch_last_activity ?c) =
      as_secs (elapsed t0 now) - as_secs (elapsed t0 (last_active t0 xs))"
    using le un ul by (metis unat_sub word_le_nat_alt)
  then show ?thesis
    unfolding needs_keepalive_def word_le_nat_alt unfolding st using le by linarith
qed

theorem needs_keepalive_exact_witness:
  "needs_keepalive (from_secs 40)
     (health_run (\<lambda>x. ''0.0'') [(from_secs 4, Sent 9), (from_secs 6, Rtt 3)]
        (ch_new 0 ''c'' HealthThreshold_default))"
  by (subst needs_keepalive_exact)
    (simp_all add: HealthThreshold_default_def elapsed_def)

text \<open>
  Stopping the monitoring of a connection forgets it and freezes its tracker: whatever events a
  holder of the tracker still reports, its last status stays, so later deaths go unnoticed.
\<close>

theorem stop_monitoring_freezes:
  assumes "hmn_get h i = Some ptr" "ptr < length (hmn_store h)"
  shows "hmn_get (stop_monitoring i h) i = None \<and>
    ch_status (health_run fmt xs (hmn_store (stop_monitoring i h) ! ptr)) = status_of h ptr"
proof -
  have "hmn_store (stop_monitoring i h) ! ptr = ch_stop (hmn_store h ! ptr)"
    using assms by (simp add: stop_monitoring_def hmn_get_def upd_tracker_def)
  moreover have "\<not> ch_active (ch_stop (hmn_store h ! ptr))" by (simp add: ch_stop_def)
  ultimately show ?thesis
    using health_run_inactive [of "ch_stop (hmn_store h ! ptr)" fmt xs] assms
    by (simp add: stop_monitoring_def hmn_get_def upd_tracker_def status_of_def ch_stop_def)
qed

theorem stop_monitoring_freezes_witness:
  "ch_status (health_run (\<lambda>x. ''0.0'') [(7, MarkDead ''gone'')]
     (hmn_store (stop_monitoring ''c'' (snd (monitor 0 ''c'' (hmn_new HealthThreshold_default)))) ! 0)) = Healthy"
  using stop_monitoring_freezes
    [of "snd (monitor 0 ''c'' (hmn_new HealthThreshold_default))" "''c''" 0 "\<lambda>x. ''0.0''" "[(7, MarkDead ''gone'')]"]
  by (simp add: monitor_def monitor_with_thresholds_def hmn_new_def hmn_get_def status_of_def ch_new_def Let_def)

text \<open>
  The status of an active tracker is the verdict of the last measurement alone: a round trip time
  within limits makes a dead connection healthy again, while a keepalive response, which resets the
  missed count, leaves an unhealthy or dead status as it is.
\<close>

theorem status_is_last_measurement:
  assumes "ch_active (health_run fmt xs c)"
    and "unat n \<le> unat (ht_max_rtt_degraded_ms (ch_thresholds c))"
    and "unat n \<le> unat (ht_max_rtt_unhealthy_ms (ch_thresholds c))"
  shows "ch_status (health_run fmt (xs @ [(t, Rtt n)]) c) = Healthy \<and>
    ch_status (health_run fmt (xs @ [(t, KeepaliveReceived)]) c) = ch_status (health_run fmt xs c) \<and>
    ch_missed_keepalives (health_run fmt (xs @ [(t, KeepaliveReceived)]) c) = 0"
  using assms
  by (simp add: health_run_append update_rtt_def update_status_def rtt_status_def word_less_nat_alt
      record_keepalive_received_def record_activity_def)

theorem status_is_last_measurement_witness:
  "ch_status (health_run (\<lambda>x. ''0.0'') ([(1, MarkDead ''gone'')] @ [(2, Rtt 20)])
     (ch_new 0 ''c'' HealthThreshold_default)) = Healthy"
  using status_is_last_measurement [of "\<lambda>x. ''0.0''" "[(1, MarkDead ''gone'')]"
      "ch_new 0 ''c'' HealthThreshold_default" 20 2]
  by (simp add: ch_new_def HealthThreshold_default_def health_defs)

text \<open>
  The overall statistics of the monitor count every monitored connection in exactly one class.
\<close>

theorem overall_stats_partition:
  "ms_healthy (overall_stats h) + ms_degraded (overall_stats h) + ms_unhealthy (overall_stats h)
     + ms_dead (overall_stats h) = ms_total (overall_stats h) \<and>
   ms_unhealthy (overall_stats h) + ms_dead (overall_stats h) = length (unhealthy_connections h)"
proof -
  have split: "length (filter (\<lambda>(k, p). \<not> is_usable (f p) \<and> \<not> should_terminate (f p)) xs) +
      length (filter (\<lambda>(k, p). should_terminate (f p)) xs) =
      length (filter (\<lambda>(k, p). case f p of Unhealthy _ \<Rightarrow> True | Dead _ \<Rightarrow> True | _ \<Rightarrow> False) xs)"
    for f :: "nat \<Rightarrow> health_status" and xs :: "(string \<times> nat) list"
  proof (induction xs)
    case (Cons x xs)
    obtain k p where x: "x = (k, p)" by (cases x)
    show ?case using Cons
      by (cases "f p") (simp_all add: x is_usable_def should_terminate_def)
  qed simp
  show ?thesis
    using status_partition [of "status_of h" "hmn_connections h"] split [of "status_of h" "hmn_connections h"]
    by (simp add: overall_stats_def count_status_fold hm_len_def unhealthy_connections_def)
qed

end
