(* ===== verification/Emergency.thy ===== *)
theory Emergency
  imports Prelude
begin

text \<open>
  \<open>crates/omni-ssh/src/emergency/mod.rs\<close>: break-glass access. The cloud service behind the trait
  \<open>EmergencyHttpClient\<close> is a parameter: each operation takes the answer it received. The status
  broadcasts and the audit entries handed to the service are logs of the state. \<open>em_uuid\<close> gives the
  identifiers drawn for the audit entries, one per entry.
  \<open>wait_for_approval\<close> is driven by the list of what its iterations see, a clock reading and an
  answer each; running out of the list (\<open>None\<close>) is still being in the loop.
\<close>

section \<open>Data\<close>

datatype emergency_severity = Critical | High | Medium | Low

record emergency_access_config =
  ec_api_endpoint :: string
  ec_api_key :: string
  ec_max_duration_secs :: u64
  ec_default_duration_secs :: u64
  ec_auto_approve_enabled :: bool
  ec_auto_approve_roles :: "string list"
  ec_webhook_url :: "string option"
  ec_token_cache_ttl_secs :: u64
  ec_require_mfa :: bool
  ec_min_approvers :: u32

definition EmergencyAccessConfig_default :: emergency_access_config where
  "EmergencyAccessConfig_default =
     \<lparr>ec_api_endpoint = ''https://api.omniedge.io/v1/emergency'', ec_api_key = [],
      ec_max_duration_secs = 14400, ec_default_duration_secs = 3600,
      ec_auto_approve_enabled = False, ec_auto_approve_roles = [''admin'', ''oncall''],
      ec_webhook_url = None, ec_token_cache_ttl_secs = 60, ec_require_mfa = True,
      ec_min_approvers = 1\<rparr>"

record emergency_access_request =
  er_request_id :: string
  er_requester_id :: string
  er_requester_email :: "string option"
  er_target_node_id :: string
  er_target_node_name :: "string option"
  er_network_id :: "string option"
  er_reason :: string
  er_incident_id :: "string option"
  er_severity :: emergency_severity
  er_requested_at :: datetime
  er_duration_secs :: u64
  er_allowed_commands :: "string list"
  er_mfa_token :: "string option"
  er_metadata :: "(string, string) hmap"

record emergency_access_request_builder =
  eb_requester_id :: "string option"
  eb_requester_email :: "string option"
  eb_target_node_id :: "string option"
  eb_target_node_name :: "string option"
  eb_network_id :: "string option"
  eb_reason :: "string option"
  eb_incident_id :: "string option"
  eb_severity :: emergency_severity
  eb_duration_secs :: "u64 option"
  eb_allowed_commands :: "string list"
  eb_mfa_token :: "string option"
  eb_metadata :: "(string, string) hmap"

definition er_builder :: emergency_access_request_builder where
  "er_builder =
     \<lparr>eb_requester_id = None, eb_requester_email = None, eb_target_node_id = None,
      eb_target_node_name = None, eb_network_id = None, eb_reason = None, eb_incident_id = None,
      eb_severity = Medium, eb_duration_secs = None, eb_allowed_commands = [], eb_mfa_token = None,
      eb_metadata = []\<rparr>"

definition set_requester_id ::
  "string \<Rightarrow> emergency_access_request_builder \<Rightarrow> emergency_access_request_builder" where
  "set_requester_id v b = b\<lparr>eb_requester_id := Some v\<rparr>"

definition set_requester_email ::
  "string \<Rightarrow> emergency_access_request_builder \<Rightarrow> emergency_access_request_builder" where
  "set_requester_email v b = b\<lparr>eb_requester_email := Some v\<rparr>"

definition set_target_node_id ::
  "string \<Rightarrow> emergency_access_request_builder \<Rightarrow> emergency_access_request_builder" where
  "set_target_node_id v b = b\<lparr>eb_target_node_id := Some v\<rparr>"

definition set_target_node_name ::
  "string \<Rightarrow> emergency_access_request_builder \<Rightarrow> emergency_access_request_builder" where
  "set_target_node_name v b = b\<lparr>eb_target_node_name := Some v\<rparr>"

definition set_network_id ::
  "string \<Rightarrow> emergency_access_request_builder \<Rightarrow> emergency_access_request_builder" where
  "set_network_id v b = b\<lparr>eb_network_id := Some v\<rparr>"

definition set_reason ::
  "string \<Rightarrow> emergency_access_request_builder \<Rightarrow> emergency_access_request_builder" where
  "set_reason v b = b\<lparr>eb_reason := Some v\<rparr>"

definition set_incident_id ::
  "string \<Rightarrow> emergency_access_request_builder \<Rightarrow> emergency_access_request_builder" where
  "set_incident_id v b = b\<lparr>eb_incident_id := Some v\<rparr>"

definition set_mfa_token ::
  "string \<Rightarrow> emergency_access_request_builder \<Rightarrow> emergency_access_request_builder" where
  "set_mfa_token v b = b\<lparr>eb_mfa_token := Some v\<rparr>"

definition set_severity ::
  "emergency_severity \<Rightarrow> emergency_access_request_builder \<Rightarrow> emergency_access_request_builder" where
  "set_severity v b = b\<lparr>eb_severity := v\<rparr>"

definition set_duration_secs ::
  "u64 \<Rightarrow> emergency_access_request_builder \<Rightarrow> emergency_access_request_builder" where
  "set_duration_secs v b = b\<lparr>eb_duration_secs := Some v\<rparr>"

definition add_allowed_command ::
  "string \<Rightarrow> emergency_access_request_builder \<Rightarrow> emergency_access_request_builder" where
  "add_allowed_command v b = b\<lparr>eb_allowed_commands := eb_allowed_commands b @ [v]\<rparr>"

definition set_allowed_commands ::
  "string list \<Rightarrow> emergency_access_request_builder \<Rightarrow> emergency_access_request_builder" where
  "set_allowed_commands v b = b\<lparr>eb_allowed_commands := v\<rparr>"

definition add_metadata ::
  "string \<Rightarrow> string \<Rightarrow> emergency_access_request_builder \<Rightarrow> emergency_access_request_builder" where
  "add_metadata k v b = b\<lparr>eb_metadata := hm_insert k v (eb_metadata b)\<rparr>"

definition build_request ::
  "string \<Rightarrow> datetime \<Rightarrow> emergency_access_request_builder \<Rightarrow> string + emergency_access_request" where
  "build_request uuid now b =
     (case eb_requester_id b of
        None \<Rightarrow> Inl ''requester_id is required''
      | Some requester_id \<Rightarrow>
     (case eb_target_node_id b of
        None \<Rightarrow> Inl ''target_node_id is required''
      | Some target_node_id \<Rightarrow>
     (case eb_reason b of
        None \<Rightarrow> Inl ''reason is required''
      | Some reason \<Rightarrow>
          Inr \<lparr>er_request_id = uuid, er_requester_id = requester_id,
               er_requester_email = eb_requester_email b, er_target_node_id = target_node_id,
               er_target_node_name = eb_target_node_name b, er_network_id = eb_network_id b,
               er_reason = reason, er_incident_id = eb_incident_id b, er_severity = eb_severity b,
               er_requested_at = now,
               er_duration_secs = (case eb_duration_secs b of Some d \<Rightarrow> d | None \<Rightarrow> 3600),
               er_allowed_commands = eb_allowed_commands b, er_mfa_token = eb_mfa_token b,
               er_metadata = eb_metadata b\<rparr>)))"

fun show_severity :: "emergency_severity \<Rightarrow> string" where
  "show_severity Critical = ''critical''"
| "show_severity High = ''high''"
| "show_severity Medium = ''medium''"
| "show_severity Low = ''low''"

record access_restrictions =
  ar_read_only :: bool
  ar_allowed_commands :: "string list"
  ar_blocked_commands :: "string list"
  ar_allowed_source_ips :: "string list"
  ar_recording_required :: bool
  ar_sftp_disabled :: bool
  ar_port_forwarding_disabled :: bool

record emergency_access_grant =
  eg_grant_id :: string
  eg_request :: emergency_access_request
  eg_approver_id :: "string option"
  eg_approver_name :: "string option"
  eg_granted_at :: datetime
  eg_expires_at :: datetime
  eg_access_token :: string
  eg_auto_approved :: bool
  eg_approval_notes :: "string option"
  eg_restrictions :: access_restrictions

definition eg_is_valid :: "datetime \<Rightarrow> emergency_access_grant \<Rightarrow> bool" where
  "eg_is_valid now g \<longleftrightarrow> now < eg_expires_at g"

definition remaining_duration :: "datetime \<Rightarrow> emergency_access_grant \<Rightarrow> int option" where
  "remaining_duration now g =
     (let remaining = eg_expires_at g - now in if remaining > 0 then Some remaining else None)"

datatype emergency_access_status =
    Pending
  | AwaitingApprovers u32 u32
  | Approved
  | Denied "string option"
  | Expired
  | Revoked "string option" "string option"
  | TimedOut

fun show_status :: "emergency_access_status \<Rightarrow> string" where
  "show_status Pending = ''pending''"
| "show_status (AwaitingApprovers current required) =
     ''awaiting_approvers ('' @ show_nat (unat current) @ ''/'' @ show_nat (unat required) @ '')''"
| "show_status Approved = ''approved''"
| "show_status (Denied reason) =
     (case reason of Some r \<Rightarrow> ''denied: '' @ r | None \<Rightarrow> ''denied'')"
| "show_status Expired = ''expired''"
| "show_status (Revoked revoked_by reason) =
     ''revoked'' @ (case revoked_by of Some by \<Rightarrow> '' by '' @ by | None \<Rightarrow> [])
       @ (case reason of Some r \<Rightarrow> '': '' @ r | None \<Rightarrow> [])"
| "show_status TimedOut = ''timed_out''"

record approver_response =
  apr_approver_id :: string
  apr_approver_name :: "string option"
  apr_approved :: bool
  apr_message :: "string option"
  apr_responded_at :: datetime

record emergency_status_response =
  esr_request_id :: string
  esr_status :: emergency_access_status
  esr_grant :: "emergency_access_grant option"
  esr_estimated_wait_secs :: "u64 option"
  esr_approver_responses :: "approver_response list"

datatype emergency_audit_event =
    AccessRequested
  | AccessApproved
  | AccessDenied
  | AccessGranted
  | SessionStarted
  | CommandExecuted
  | FileAccessed
  | SessionEnded
  | AccessExpired
  | AccessRevoked
  | TokenValidated
  | TokenValidationFailed

text \<open>The JSON values put into audit details.\<close>

datatype json_value = JString string | JNumber u64

record emergency_audit_entry =
  au_entry_id :: string
  au_request_id :: string
  au_event_type :: emergency_audit_event
  au_actor_id :: string
  au_timestamp :: datetime
  au_details :: "(string, json_value) hmap"
  au_source_ip :: "string option"

record cached_grant =
  cg_grant :: emergency_access_grant
  cg_cached_at :: datetime

record status_change_event =
  sce_request_id :: string
  sce_status :: emergency_access_status
  sce_grant :: "emergency_access_grant option"

record emergency_access_manager =
  em_config :: emergency_access_config
  em_token_cache :: "(string, cached_grant) hmap"
  em_active_grants :: "(string, emergency_access_grant) hmap"
  em_status_events :: "status_change_event list"
  em_pending_polls :: "string set"
  em_audit_log :: "emergency_audit_entry list"
  em_uuid :: "nat \<Rightarrow> string"

definition with_http_client ::
  "(nat \<Rightarrow> string) \<Rightarrow> emergency_access_config \<Rightarrow> emergency_access_manager" where
  "with_http_client uuid config =
     \<lparr>em_config = config, em_token_cache = [], em_active_grants = [], em_status_events = [],
      em_pending_polls = {}, em_audit_log = [], em_uuid = uuid\<rparr>"

section \<open>The HTTP client\<close>

text \<open>
  What reqwest returns for a call: a transport error, or a status code with a body. The JSON codec is
  a parameter.
\<close>

datatype http_reply = TransportError string | HttpReply (hr_status: nat) (hr_body: string)

definition is_success :: "nat \<Rightarrow> bool" where
  "is_success c \<longleftrightarrow> 200 \<le> c \<and> c < 300"

definition expect_success :: "string \<Rightarrow> (nat \<Rightarrow> string) \<Rightarrow> http_reply \<Rightarrow> string + string" where
  "expect_success what show_code r =
     (case r of
        TransportError e \<Rightarrow> Inl e
      | HttpReply c body \<Rightarrow>
          if is_success c then Inr body
          else Inl (what @ show_code c @ '' - '' @ body))"

definition http_submit_request ::
  "(nat \<Rightarrow> string) \<Rightarrow> (string \<Rightarrow> string + string) \<Rightarrow> http_reply \<Rightarrow> string + string" where
  "http_submit_request show_code parse r =
     and_then (expect_success ''Failed to submit request: '' show_code r) parse"

definition http_check_status ::
  "(nat \<Rightarrow> string) \<Rightarrow> (string \<Rightarrow> string + emergency_status_response) \<Rightarrow> http_reply \<Rightarrow>
     string + emergency_status_response" where
  "http_check_status show_code parse r =
     and_then (expect_success ''Failed to check status: '' show_code r) parse"

definition http_validate_token ::
  "(nat \<Rightarrow> string) \<Rightarrow> (string \<Rightarrow> string + bool \<times> emergency_access_grant option) \<Rightarrow> http_reply \<Rightarrow>
     string + emergency_access_grant option" where
  "http_validate_token show_code parse r =
     (if (case r of HttpReply c body \<Rightarrow> c = 404 | TransportError e \<Rightarrow> False) then Inr None
      else and_then (expect_success ''Failed to validate token: '' show_code r)
             (\<lambda>body. and_then (parse body) (\<lambda>(valid, grant). Inr (if valid then grant else None))))"

definition http_revoke_access :: "(nat \<Rightarrow> string) \<Rightarrow> http_reply \<Rightarrow> string + unit" where
  "http_revoke_access show_code r =
     and_then (expect_success ''Failed to revoke access: '' show_code r) (\<lambda>_. Inr ())"

definition http_submit_audit :: "http_reply \<Rightarrow> string + unit" where
  "http_submit_audit r = (case r of TransportError e \<Rightarrow> Inl e | HttpReply c body \<Rightarrow> Inr ())"

section \<open>The manager\<close>

definition audit ::
  "string \<Rightarrow> emergency_audit_event \<Rightarrow> string \<Rightarrow> datetime \<Rightarrow> (string, json_value) hmap \<Rightarrow> string option \<Rightarrow>
     emergency_access_manager \<Rightarrow> emergency_access_manager" where
  "audit request_id event actor now details source_ip m =
     m\<lparr>em_audit_log := em_audit_log m @
        [\<lparr>au_entry_id = em_uuid m (length (em_audit_log m)), au_request_id = request_id,
          au_event_type = event, au_actor_id = actor, au_timestamp = now, au_details = details,
          au_source_ip = source_ip\<rparr>]\<rparr>"

definition notify ::
  "string \<Rightarrow> emergency_access_status \<Rightarrow> emergency_access_grant option \<Rightarrow>
     emergency_access_manager \<Rightarrow> emergency_access_manager" where
  "notify request_id status grant m =
     m\<lparr>em_status_events := em_status_events m @
        [\<lparr>sce_request_id = request_id, sce_status = status, sce_grant = grant\<rparr>]\<rparr>"

text \<open>The answer of \<open>submit_request\<close> is the argument \<open>answer\<close>.\<close>

definition request_access ::
  "string + string \<Rightarrow> datetime \<Rightarrow> emergency_access_request \<Rightarrow> emergency_access_manager \<Rightarrow>
     (string + string) \<times> emergency_access_manager" where
  "request_access answer now request m =
     (if trim (er_reason request) = [] then
        (Inl ''Reason is required for emergency access'', m)
      else if er_duration_secs request > ec_max_duration_secs (em_config m) then
        (Inl (''Requested duration '' @ show_nat (unat (er_duration_secs request)) @
              '' exceeds maximum allowed '' @ show_nat (unat (ec_max_duration_secs (em_config m)))), m)
      else if ec_require_mfa (em_config m) \<and> er_mfa_token request = None then
        (Inl ''MFA token is required for emergency access'', m)
      else
        (case answer of
           Inl e \<Rightarrow> (Inl e, m)
         | Inr request_id \<Rightarrow>
             (let d1 = hm_insert ''target_node_id'' (JString (er_target_node_id request)) [];
                  d2 = hm_insert ''severity'' (JString (show_severity (er_severity request))) d1;
                  d3 = hm_insert ''duration_secs'' (JNumber (er_duration_secs request)) d2;
                  d4 = (case er_incident_id request of
                          Some incident_id \<Rightarrow> hm_insert ''incident_id'' (JString incident_id) d3
                        | None \<Rightarrow> d3) in
              (Inr request_id,
               audit request_id AccessRequested (er_requester_id request) now d4 None m))))"

definition em_check_status ::
  "string + emergency_status_response \<Rightarrow> string \<Rightarrow> emergency_access_manager \<Rightarrow>
     (string + emergency_status_response) \<times> emergency_access_manager" where
  "em_check_status answer request_id m =
     (case answer of
        Inl e \<Rightarrow> (Inl e, m)
      | Inr response \<Rightarrow>
          (case esr_grant response of
             Some grant \<Rightarrow>
               (Inr response,
                notify request_id (esr_status response) (Some grant)
                  (m\<lparr>em_active_grants := hm_insert request_id grant (em_active_grants m)\<rparr>))
           | None \<Rightarrow> (Inr response, m)))"

definition stop_polling :: "string \<Rightarrow> emergency_access_manager \<Rightarrow> emergency_access_manager" where
  "stop_polling request_id m = m\<lparr>em_pending_polls := em_pending_polls m - {request_id}\<rparr>"

definition no_reason :: "string option \<Rightarrow> string" where
  "no_reason reason = (case reason of Some r \<Rightarrow> r | None \<Rightarrow> ''No reason provided'')"

text \<open>
  One poll: the time since the start of the wait at the head of the iteration, and the answer of the
  status request made in it.
\<close>

type_synonym poll = "duration \<times> (string + emergency_status_response)"

definition poll_interval :: duration where
  "poll_interval = from_secs 5"

fun wait_loop ::
  "duration \<Rightarrow> string \<Rightarrow> poll list \<Rightarrow> emergency_access_manager \<Rightarrow>
     ((string + emergency_access_grant) \<times> emergency_access_manager) option" where
  "wait_loop timeout request_id [] m = None"
| "wait_loop timeout request_id ((since, answer) # polls) m =
     (if since > timeout then
        Some (Inl ''Timed out waiting for approval'', stop_polling request_id m)
      else
        (case em_check_status answer request_id m of
           (Inl e, m1) \<Rightarrow> Some (Inl e, m1)
         | (Inr response, m1) \<Rightarrow>
             (case esr_status response of
                Approved \<Rightarrow>
                  (case esr_grant response of
                     Some grant \<Rightarrow> Some (Inr grant, stop_polling request_id m1)
                   | None \<Rightarrow> wait_loop timeout request_id polls m1)
              | Denied reason \<Rightarrow>
                  Some (Inl (''Emergency access denied: '' @ no_reason reason), stop_polling request_id m1)
              | TimedOut \<Rightarrow>
                  Some (Inl ''Emergency access request timed out'', stop_polling request_id m1)
              | Revoked by reason \<Rightarrow>
                  Some (Inl (''Emergency access was revoked: '' @ no_reason reason), stop_polling request_id m1)
              | Pending \<Rightarrow> wait_loop timeout request_id polls m1
              | AwaitingApprovers c r \<Rightarrow> wait_loop timeout request_id polls m1
              | Expired \<Rightarrow>
                  Some (Inl ''Emergency access request expired before approval'', stop_polling request_id m1))))"

definition wait_for_approval ::
  "string \<Rightarrow> duration \<Rightarrow> poll list \<Rightarrow> emergency_access_manager \<Rightarrow>
     ((string + emergency_access_grant) \<times> emergency_access_manager) option" where
  "wait_for_approval request_id timeout polls m =
     wait_loop timeout request_id polls (m\<lparr>em_pending_polls := insert request_id (em_pending_polls m)\<rparr>)"

definition cache_key :: "string \<Rightarrow> string \<Rightarrow> string" where
  "cache_key token target_node_id = token @ '':'' @ target_node_id"

text \<open>
  The cached answer, if there is one to give: younger than the time to live, which is read as a
  signed 64-bit number, and not past the expiry of the grant.
\<close>

definition ttl :: "emergency_access_manager \<Rightarrow> int" where
  "ttl m = sint (ec_token_cache_ttl_secs (em_config m))"

definition cache_hit :: "datetime \<Rightarrow> string \<Rightarrow> emergency_access_manager \<Rightarrow> emergency_access_grant option" where
  "cache_hit now key m =
     (case hm_get (em_token_cache m) key of
        Some cached \<Rightarrow>
          if num_seconds (now - cg_cached_at cached) < ttl m \<and> eg_is_valid now (cg_grant cached)
          then Some (cg_grant cached) else None
      | None \<Rightarrow> None)"

text \<open>The cache after the lookup: an expired grant found within its time to live is dropped.\<close>

definition drop_expired :: "datetime \<Rightarrow> string \<Rightarrow> emergency_access_manager \<Rightarrow> emergency_access_manager" where
  "drop_expired now key m =
     (case hm_get (em_token_cache m) key of
        Some cached \<Rightarrow>
          if num_seconds (now - cg_cached_at cached) < ttl m \<and> \<not> eg_is_valid now (cg_grant cached)
          then m\<lparr>em_token_cache := hm_remove key (em_token_cache m)\<rparr> else m
      | None \<Rightarrow> m)"

definition validate_token ::
  "string + emergency_access_grant option \<Rightarrow> datetime \<Rightarrow> string \<Rightarrow> string \<Rightarrow> emergency_access_manager \<Rightarrow>
     (string + emergency_access_grant option) \<times> emergency_access_manager" where
  "validate_token answer now token target_node_id m =
     (let key = cache_key token target_node_id;
          details = hm_insert ''target_node_id'' (JString target_node_id) [] in
      case cache_hit now key m of
        Some grant \<Rightarrow> (Inr (Some grant), m)
      | None \<Rightarrow>
          (let m1 = drop_expired now key m in
           case answer of
             Inl e \<Rightarrow> (Inl e, m1)
           | Inr (Some grant) \<Rightarrow>
               (Inr (Some grant),
                audit (er_request_id (eg_request grant)) TokenValidated (er_requester_id (eg_request grant))
                  now details None
                  (m1\<lparr>em_token_cache := hm_insert key \<lparr>cg_grant = grant, cg_cached_at = now\<rparr> (em_token_cache m1)\<rparr>))
           | Inr None \<Rightarrow>
               (Inr None,
                audit ''unknown'' TokenValidationFailed ''unknown'' now details None m1)))"

definition revoke_access ::
  "string + unit \<Rightarrow> datetime \<Rightarrow> string \<Rightarrow> string option \<Rightarrow> emergency_access_manager \<Rightarrow>
     (string + unit) \<times> emergency_access_manager" where
  "revoke_access answer now request_id reason m =
     (case answer of
        Inl e \<Rightarrow> (Inl e, m)
      | Inr _ \<Rightarrow>
          (case hm_get (em_active_grants m) request_id of
             Some grant \<Rightarrow>
               (let key = cache_key (eg_access_token grant) (er_target_node_id (eg_request grant));
                    m1 = m\<lparr>em_active_grants := hm_remove request_id (em_active_grants m),
                           em_token_cache := hm_remove key (em_token_cache m)\<rparr>;
                    m2 = notify request_id (Revoked None reason) None m1;
                    details = (case reason of Some r \<Rightarrow> hm_insert ''reason'' (JString r) [] | None \<Rightarrow> []) in
                (Inr (), audit request_id AccessRevoked (er_requester_id (eg_request grant)) now details None m2))
           | None \<Rightarrow> (Inr (), m)))"

definition get_active_grant :: "emergency_access_manager \<Rightarrow> string \<Rightarrow> emergency_access_grant option" where
  "get_active_grant m request_id = hm_get (em_active_grants m) request_id"

definition list_active_grants :: "datetime \<Rightarrow> emergency_access_manager \<Rightarrow> emergency_access_grant list" where
  "list_active_grants now m = filter (eg_is_valid now) (hm_values (em_active_grants m))"

definition expire_grant :: "datetime \<Rightarrow> string \<Rightarrow> emergency_access_manager \<Rightarrow> emergency_access_manager" where
  "expire_grant now request_id m =
     (case hm_get (em_active_grants m) request_id of
        Some grant \<Rightarrow>
          audit request_id AccessExpired (er_requester_id (eg_request grant)) now [] None
            (notify request_id Expired None
              (m\<lparr>em_active_grants := hm_remove request_id (em_active_grants m)\<rparr>))
      | None \<Rightarrow> m)"

definition cleanup_expired :: "datetime \<Rightarrow> emergency_access_manager \<Rightarrow> emergency_access_manager" where
  "cleanup_expired now m =
     (let expired_requests = map (\<lambda>g. er_request_id (eg_request g))
            (filter (\<lambda>g. \<not> eg_is_valid now g) (hm_values (em_active_grants m)));
          m1 = fold (expire_grant now) expired_requests m;
          stale_keys = map fst (filter (\<lambda>(k, c).
            num_seconds (now - cg_cached_at c) > sint (ec_token_cache_ttl_secs (em_config m1) * 2))
            (em_token_cache m1)) in
      m1\<lparr>em_token_cache := fold hm_remove stale_keys (em_token_cache m1)\<rparr>)"

definition record_session_start ::
  "datetime \<Rightarrow> string \<Rightarrow> string option \<Rightarrow> emergency_access_manager \<Rightarrow> emergency_access_manager" where
  "record_session_start now request_id source_ip m =
     (case hm_get (em_active_grants m) request_id of
        Some grant \<Rightarrow> audit request_id SessionStarted (er_requester_id (eg_request grant)) now [] source_ip m
      | None \<Rightarrow> m)"

definition record_command ::
  "datetime \<Rightarrow> string \<Rightarrow> string \<Rightarrow> string option \<Rightarrow> emergency_access_manager \<Rightarrow> emergency_access_manager" where
  "record_command now request_id command source_ip m =
     (case hm_get (em_active_grants m) request_id of
        Some grant \<Rightarrow>
          audit request_id CommandExecuted (er_requester_id (eg_request grant)) now
            (hm_insert ''command'' (JString command) []) source_ip m
      | None \<Rightarrow> m)"

definition record_session_end ::
  "datetime \<Rightarrow> string \<Rightarrow> string option \<Rightarrow> emergency_access_manager \<Rightarrow> emergency_access_manager" where
  "record_session_end now request_id source_ip m =
     (case hm_get (em_active_grants m) request_id of
        Some grant \<Rightarrow> audit request_id SessionEnded (er_requester_id (eg_request grant)) now [] source_ip m
      | None \<Rightarrow> m)"

section \<open>Reachable states\<close>

text \<open>
  The calls made of a manager, with the answers the cloud service gave. The history is a ghost of the
  step relation: the newest call comes first.
\<close>

datatype em_op =
    CRequest datetime emergency_access_request "string + string"
  | CStatus string "string + emergency_status_response"
  | CWait string duration "poll list"
  | CValidate datetime string string "string + emergency_access_grant option"
  | CRevoke datetime string "string option" "string + unit"
  | CCleanup datetime
  | CStart datetime string "string option"
  | CCommand datetime string string "string option"
  | CEnd datetime string "string option"

fun em_call :: "em_op \<Rightarrow> emergency_access_manager \<Rightarrow> emergency_access_manager option" where
  "em_call (CRequest now r a) m = Some (snd (request_access a now r m))"
| "em_call (CStatus i a) m = Some (snd (em_check_status a i m))"
| "em_call (CWait i t ps) m = map_option snd (wait_for_approval i t ps m)"
| "em_call (CValidate now tok node a) m = Some (snd (validate_token a now tok node m))"
| "em_call (CRevoke now i r a) m = Some (snd (revoke_access a now i r m))"
| "em_call (CCleanup now) m = Some (cleanup_expired now m)"
| "em_call (CStart now i ip) m = Some (record_session_start now i ip m)"
| "em_call (CCommand now i c ip) m = Some (record_command now i c ip m)"
| "em_call (CEnd now i ip) m = Some (record_session_end now i ip m)"

inductive em_reach ::
  "emergency_access_config \<Rightarrow> em_op list \<Rightarrow> emergency_access_manager \<Rightarrow> bool" for config where
  em_init: "em_reach config [] (with_http_client uuid config)"
| em_next: "em_reach config hist m \<Longrightarrow> em_call c m = Some m' \<Longrightarrow> em_reach config (c # hist) m'"

inductive_cases em_reach_ConsE: "em_reach config (c # hist) m"

lemma audit_frame [simp]:
  "em_token_cache (audit i e a t d ip m) = em_token_cache m"
  "em_active_grants (audit i e a t d ip m) = em_active_grants m"
  "em_pending_polls (audit i e a t d ip m) = em_pending_polls m"
  "em_config (audit i e a t d ip m) = em_config m"
  by (simp_all add: audit_def)

lemma notify_frame [simp]:
  "em_token_cache (notify i s g m) = em_token_cache m"
  "em_active_grants (notify i s g m) = em_active_grants m"
  "em_pending_polls (notify i s g m) = em_pending_polls m"
  "em_config (notify i s g m) = em_config m"
  by (simp_all add: notify_def)

lemma stop_polling_frame [simp]:
  "em_token_cache (stop_polling i m) = em_token_cache m"
  "em_active_grants (stop_polling i m) = em_active_grants m"
  "em_pending_polls (stop_polling i m) = em_pending_polls m - {i}"
  "em_config (stop_polling i m) = em_config m"
  by (simp_all add: stop_polling_def)

lemma em_check_status_frame [simp]:
  "em_token_cache (snd (em_check_status a i m)) = em_token_cache m"
  "em_pending_polls (snd (em_check_status a i m)) = em_pending_polls m"
  "em_config (snd (em_check_status a i m)) = em_config m"
  by (auto simp: em_check_status_def split: sum.splits option.splits)

lemma wait_loop_frame:
  "wait_loop t i ps m = Some (r, m') \<Longrightarrow>
   em_token_cache m' = em_token_cache m \<and> em_config m' = em_config m"
proof (induction ps arbitrary: m)
  case (Cons p ps)
  obtain since a where p: "p = (since, a)" by (cases p)
  obtain x m1 where c: "em_check_status a i m = (x, m1)" by fastforce
  have fr: "em_token_cache m1 = em_token_cache m" "em_config m1 = em_config m"
    using em_check_status_frame(1,3) [of a i m] by (simp_all add: c)
  show ?case using Cons.prems Cons.IH [of m1] fr
    by (auto simp: p c split: if_splits sum.splits option.splits emergency_access_status.splits)
qed simp

lemma wait_for_approval_frame:
  "wait_for_approval i t ps m = Some (r, m') \<Longrightarrow>
   em_token_cache m' = em_token_cache m \<and> em_config m' = em_config m"
  using wait_loop_frame [of t i ps _ r m'] by (fastforce simp: wait_for_approval_def)

lemma request_access_frame [simp]:
  "em_token_cache (snd (request_access a t r m)) = em_token_cache m"
  "em_config (snd (request_access a t r m)) = em_config m"
  by (auto simp: request_access_def Let_def split: sum.splits)

lemma record_frame [simp]:
  "em_token_cache (record_session_start t i ip m) = em_token_cache m"
  "em_token_cache (record_command t i c ip m) = em_token_cache m"
  "em_token_cache (record_session_end t i ip m) = em_token_cache m"
  "em_config (record_session_start t i ip m) = em_config m"
  "em_config (record_command t i c ip m) = em_config m"
  "em_config (record_session_end t i ip m) = em_config m"
  by (simp_all add: record_session_start_def record_command_def record_session_end_def split: option.split)

lemma expire_grant_frame [simp]:
  "em_token_cache (expire_grant t i m) = em_token_cache m"
  "em_config (expire_grant t i m) = em_config m"
  by (simp_all add: expire_grant_def split: option.split)

lemma fold_expire_frame [simp]:
  "em_token_cache (fold (expire_grant t) is m) = em_token_cache m"
  "em_config (fold (expire_grant t) is m) = em_config m"
  by (induction "is" arbitrary: m) simp_all

lemma fold_remove_get: "hm_get (fold hm_remove ks c) k = (if k \<in> set ks then None else hm_get c k)"
  by (induction ks arbitrary: c) auto

lemma cleanup_frame:
  "em_config (cleanup_expired t m) = em_config m"
  "hm_get (em_token_cache (cleanup_expired t m)) k = Some c \<Longrightarrow> hm_get (em_token_cache m) k = Some c"
  by (auto simp: cleanup_expired_def Let_def fold_remove_get split: if_splits)

lemma drop_expired_frame [simp]:
  "em_config (drop_expired t k m) = em_config m"
  by (simp add: drop_expired_def split: option.split)

lemma validate_token_config [simp]: "em_config (snd (validate_token a t tok node m)) = em_config m"
  by (simp add: validate_token_def Let_def split: option.split sum.split)

lemma revoke_access_config [simp]: "em_config (snd (revoke_access a t i r m)) = em_config m"
  by (simp add: revoke_access_def Let_def split: option.split sum.split)

lemma em_call_config: "em_call c m = Some m' \<Longrightarrow> em_config m' = em_config m"
  by (cases c) (auto simp: cleanup_frame(1) dest: wait_for_approval_frame)

lemma em_reach_config: "em_reach config hist m \<Longrightarrow> em_config m = config"
  by (induction rule: em_reach.induct) (auto simp: with_http_client_def dest: em_call_config)

text \<open>Every cached grant is one the service vouched for at the time noted.\<close>

definition vouched :: "em_op list \<Rightarrow> string \<Rightarrow> cached_grant \<Rightarrow> bool" where
  "vouched hist k c \<longleftrightarrow>
     (\<exists>tok node. k = cache_key tok node \<and> CValidate (cg_cached_at c) tok node (Inr (Some (cg_grant c))) \<in> set hist)"

lemma em_call_cache:
  assumes "em_call c m = Some m'" and "hm_get (em_token_cache m') k = Some x"
  shows "hm_get (em_token_cache m) k = Some x \<or> vouched [c] k x"
  using assms
proof (cases c)
  case (CValidate now tok node a)
  show ?thesis
  proof (cases "cache_hit now (cache_key tok node) m")
    case None
    then show ?thesis using assms CValidate
      by (auto simp: validate_token_def vouched_def drop_expired_def Let_def
          split: option.splits sum.splits if_splits)
  qed (use assms CValidate in \<open>simp add: validate_token_def Let_def\<close>)
next
  case (CWait i t ps)
  then show ?thesis using assms by (auto dest: wait_for_approval_frame)
next
  case (CRevoke now i r a)
  then show ?thesis using assms
    by (auto simp: revoke_access_def Let_def split: option.splits sum.splits if_splits)
next
  case (CCleanup now)
  then show ?thesis using assms by (auto dest: cleanup_frame(2))
qed auto

lemma vouched_mono: "vouched hist k x \<Longrightarrow> vouched (c # hist) k x"
  by (auto simp: vouched_def)

lemma vouched_now: "vouched [c] k x \<Longrightarrow> vouched (c # hist) k x"
  by (auto simp: vouched_def)

lemma em_reach_vouched:
  "em_reach config hist m \<Longrightarrow> hm_get (em_token_cache m) k = Some x \<Longrightarrow> vouched hist k x"
proof (induction arbitrary: k x rule: em_reach.induct)
  case (em_next hist m c m')
  from em_call_cache [OF em_next.hyps(2) em_next.prems] em_next.IH show ?case
    by (blast intro: vouched_mono vouched_now)
qed (simp add: with_http_client_def)

lemma cache_key_inj:
  assumes "CHR '':'' \<notin> set a" "CHR '':'' \<notin> set b" "cache_key a n = cache_key b k"
  shows "a = b \<and> n = k"
  using assms
proof (induction a arbitrary: b)
  case Nil then show ?case by (cases b) (auto simp: cache_key_def)
next
  case (Cons c a) then show ?case by (cases b) (auto simp: cache_key_def)
qed

text \<open>A manager answers a validation from its cache or passes on the service's answer.\<close>

lemma validate_token_fst:
  "fst (validate_token a now tok node m) =
     (case cache_hit now (cache_key tok node) m of Some g \<Rightarrow> Inr (Some g) | None \<Rightarrow> a)"
  by (auto simp: validate_token_def Let_def split: option.splits sum.splits)

lemma wait_loop_returns:
  assumes "i < length ps" "t < fst (ps ! i)"
  shows "\<exists>r m'. wait_loop t req ps m = Some (r, m')"
  using assms
proof (induction ps arbitrary: i m)
  case (Cons p ps)
  obtain since a where p: "p = (since, a)" by (cases p)
  obtain x m1 where c: "em_check_status a req m = (x, m1)" by fastforce
  show ?case
  proof (cases i)
    case 0
    then show ?thesis using Cons.prems by (simp add: p)
  next
    case (Suc j)
    with Cons.prems have "\<exists>r m'. wait_loop t req ps m1 = Some (r, m')"
      by (intro Cons.IH [of j]) simp_all
    then show ?thesis
      by (auto simp: p c split: sum.split option.split emergency_access_status.split)
  qed
qed simp

lemma em_check_status_grant:
  "esr_grant resp = Some g \<Longrightarrow> em_check_status (Inr resp) i m = (r, m1) \<Longrightarrow>
   hm_get (em_active_grants m1) i = Some g"
  by (auto simp: em_check_status_def)

lemma em_check_status_Inr:
  "em_check_status a i m = (Inr resp, m1) \<Longrightarrow> a = Inr resp"
  by (auto simp: em_check_status_def split: sum.splits option.splits)

lemma wait_loop_grant:
  "wait_loop t i ps m = Some (Inr g, m') \<Longrightarrow>
   hm_get (em_active_grants m') i = Some g \<and> i \<notin> em_pending_polls m' \<and>
   (\<exists>since resp. (since, Inr resp) \<in> set ps \<and> since \<le> t \<and> esr_status resp = Approved \<and>
      esr_grant resp = Some g)"
proof (induction ps arbitrary: m)
  case (Cons p ps)
  obtain since a where p: "p = (since, a)" by (cases p)
  obtain x m1 where c: "em_check_status a i m = (x, m1)" by fastforce
  show ?case
  proof (cases "\<exists>resp. x = Inr resp \<and> esr_status resp = Approved \<and> esr_grant resp = Some g \<and> since \<le> t
      \<and> m' = stop_polling i m1")
    case True
    then obtain resp where r: "a = Inr resp" "esr_status resp = Approved" "esr_grant resp = Some g"
      using c em_check_status_Inr by blast
    with True c em_check_status_grant [of resp g i m] show ?thesis by (auto simp: p)
  next
    case False
    with Cons.prems have "wait_loop t i ps m1 = Some (Inr g, m')"
      by (auto simp: p c split: if_splits sum.splits option.splits emergency_access_status.splits)
    from Cons.IH [OF this] show ?thesis by auto
  qed
qed simp

lemma expire_grant_get:
  "hm_get (em_active_grants (expire_grant t i m)) k =
     (if k = i then None else hm_get (em_active_grants m) k)"
  by (simp add: expire_grant_def split: option.split)

lemma fold_expire_get:
  "hm_get (em_active_grants (fold (expire_grant t) is m)) k =
     (if k \<in> set is then None else hm_get (em_active_grants m) k)"
  by (induction "is" arbitrary: m) (simp_all add: expire_grant_get)

lemma cleanup_active: "em_active_grants (cleanup_expired now m) =
  em_active_grants (fold (expire_grant now) (map (\<lambda>g. er_request_id (eg_request g))
     (filter (\<lambda>g. \<not> eg_is_valid now g) (hm_values (em_active_grants m)))) m)"
  by (simp add: cleanup_expired_def Let_def)

section \<open>Properties\<close>

text \<open>
  C13. Break-glass tokens are never accepted on the manager's own word: whenever \<open>validate_token\<close>
  returns a grant, either the service has just vouched for it, or it vouched for this same token and
  node less than the cache's time to live ago and the grant has not expired since. (Tokens contain no
  colon, the separator of the cache key.)
\<close>

theorem validate_token_sound:
  assumes "em_reach config hist m"
    and "fst (validate_token answer now token node m) = Inr (Some g)"
    and "CHR '':'' \<notin> set token"
    and "\<And>t tok n a. CValidate t tok n a \<in> set hist \<Longrightarrow> CHR '':'' \<notin> set tok"
  shows "answer = Inr (Some g) \<or>
    (now < eg_expires_at g \<and>
     (\<exists>t. CValidate t token node (Inr (Some g)) \<in> set hist \<and>
          num_seconds (now - t) < sint (ec_token_cache_ttl_secs config)))"
proof (cases "cache_hit now (cache_key token node) m")
  case None
  then show ?thesis using assms(2) by (simp add: validate_token_fst)
next
  case (Some g')
  then obtain c where c: "hm_get (em_token_cache m) (cache_key token node) = Some c"
      "num_seconds (now - cg_cached_at c) < ttl m" "eg_is_valid now (cg_grant c)" "g' = cg_grant c"
    by (auto simp: cache_hit_def split: option.splits if_splits)
  have g: "g' = g" using assms(2) Some by (simp add: validate_token_fst)
  from em_reach_vouched [OF assms(1) c(1)] obtain tok n where v:
      "cache_key token node = cache_key tok n"
      "CValidate (cg_cached_at c) tok n (Inr (Some (cg_grant c))) \<in> set hist"
    by (auto simp: vouched_def)
  with cache_key_inj [OF assms(3) assms(4) [OF v(2)] v(1)] c g em_reach_config [OF assms(1)]
  show ?thesis by (auto simp: ttl_def eg_is_valid_def)
qed

text \<open>
  Revocation reaches the token cache when the manager knows the grant: after \<open>revoke_access\<close> of an
  active grant, the request is no longer active and a validation of its token on its node is
  answered by the service alone.
\<close>

theorem revoke_access_clears_cache:
  assumes "get_active_grant m request_id = Some g"
  shows "get_active_grant (snd (revoke_access (Inr ()) now request_id reason m)) request_id = None \<and>
    fst (validate_token answer t (eg_access_token g) (er_target_node_id (eg_request g))
           (snd (revoke_access (Inr ()) now request_id reason m))) = answer"
  using assms
  by (simp add: validate_token_fst revoke_access_def get_active_grant_def cache_hit_def Let_def)

text \<open>
  Revocation misses the cache otherwise: a manager that only ever validated the token (the node
  the token is for, which never polls the request) has no active grant, so after a successful
  \<open>revoke_access\<close> it still accepts the token from its cache although the service rejects it.
\<close>

theorem revoked_token_still_accepted:
  assumes "get_active_grant m request_id = None"
    and "cache_hit now (cache_key token node) m = Some g"
  shows "fst (validate_token (Inr None) now token node
           (snd (revoke_access (Inr ()) t request_id reason m))) = Inr (Some g)"
  using assms by (simp add: validate_token_fst revoke_access_def get_active_grant_def)

text \<open>
  C18. \<open>wait_for_approval\<close> returns: if iteration \<open>i\<close> starts no earlier than \<open>i\<close> poll intervals after the
  beginning (each iteration sleeps that long), it ends within \<open>timeout / 5s + 2\<close> iterations.
\<close>

theorem wait_for_approval_returns:
  assumes "\<And>i. i < length polls \<Longrightarrow> i * poll_interval \<le> fst (polls ! i)"
    and "timeout div poll_interval + 2 \<le> length polls"
  shows "\<exists>r m'. wait_for_approval request_id timeout polls m = Some (r, m')"
proof -
  let ?i = "Suc (timeout div poll_interval)"
  have "timeout < ?i * poll_interval"
    using dividend_less_div_times [of poll_interval timeout]
    by (simp add: poll_interval_def from_secs_def)
  also have "\<dots> \<le> fst (polls ! ?i)" by (rule assms(1)) (use assms(2) in simp)
  finally show ?thesis
    using wait_loop_returns [of ?i polls timeout] assms(2) by (simp add: wait_for_approval_def)
qed

text \<open>
  What \<open>wait_for_approval\<close> returns: a grant only from an \<open>Approved\<close> answer received within the
  time-out, and then the grant is active and the request no longer polled; a failing status request
  ends the wait with its error and leaves the request marked as polled.
\<close>

theorem wait_for_approval_outcome:
  "(\<forall>g m'. wait_for_approval i timeout polls m = Some (Inr g, m') \<longrightarrow>
     get_active_grant m' i = Some g \<and> i \<notin> em_pending_polls m' \<and>
     (\<exists>since resp. (since, Inr resp) \<in> set polls \<and> since \<le> timeout \<and>
        esr_status resp = Approved \<and> esr_grant resp = Some g)) \<and>
   (\<exists>m'. wait_for_approval i timeout ((0, Inl e) # polls) m = Some (Inl e, m') \<and> i \<in> em_pending_polls m')"
  using wait_loop_grant [of timeout i polls]
  by (auto simp: wait_for_approval_def get_active_grant_def em_check_status_def)

text \<open>
  The periodic clean-up drops the entries stored under the request ids that expired grants carry,
  and only those: an expired grant whose own request id is not the key it was stored under stays, and
  a valid grant stored under the id that an expired one carries is dropped.
\<close>

theorem cleanup_expired_by_inner_id:
  assumes "hm_wf (em_active_grants m)"
  shows "get_active_grant (cleanup_expired now m) k =
    (if \<exists>k' g. get_active_grant m k' = Some g \<and> eg_expires_at g \<le> now \<and> er_request_id (eg_request g) = k
     then None else get_active_grant m k)"
proof -
  have "k \<in> set (map (\<lambda>g. er_request_id (eg_request g))
      (filter (\<lambda>g. \<not> eg_is_valid now g) (hm_values (em_active_grants m)))) \<longleftrightarrow>
    (\<exists>k' g. get_active_grant m k' = Some g \<and> eg_expires_at g \<le> now \<and> er_request_id (eg_request g) = k)"
    using hm_mem_iff [OF assms]
    by (force simp: hm_values_def get_active_grant_def eg_is_valid_def)
  then show ?thesis
    unfolding get_active_grant_def cleanup_active fold_expire_get by (simp only:)
qed

section \<open>Witnesses\<close>

definition sample_request :: "string \<Rightarrow> emergency_access_request" where
  "sample_request i =
     \<lparr>er_request_id = i, er_requester_id = ''alice'', er_requester_email = None,
      er_target_node_id = ''n1'', er_target_node_name = None, er_network_id = None,
      er_reason = ''outage'', er_incident_id = None, er_severity = Critical, er_requested_at = 0,
      er_duration_secs = 60, er_allowed_commands = [], er_mfa_token = None, er_metadata = []\<rparr>"

definition sample_grant :: "string \<Rightarrow> emergency_access_grant" where
  "sample_grant i =
     \<lparr>eg_grant_id = ''g'', eg_request = sample_request i, eg_approver_id = None,
      eg_approver_name = None, eg_granted_at = 0, eg_expires_at = 60000000000,
      eg_access_token = ''tok'', eg_auto_approved = False, eg_approval_notes = None,
      eg_restrictions = \<lparr>ar_read_only = True, ar_allowed_commands = [], ar_blocked_commands = [],
        ar_allowed_source_ips = [], ar_recording_required = False, ar_sftp_disabled = False,
        ar_port_forwarding_disabled = False\<rparr>\<rparr>"

abbreviation fresh_manager :: emergency_access_manager where
  "fresh_manager \<equiv> with_http_client show_nat EmergencyAccessConfig_default"

abbreviation validated_manager :: emergency_access_manager where
  "validated_manager \<equiv> snd (validate_token (Inr (Some (sample_grant ''r''))) 0 ''tok'' ''n1'' fresh_manager)"

lemma validated_hit: "cache_hit 1000000000 (cache_key ''tok'' ''n1'') validated_manager = Some (sample_grant ''r'')"
  by (simp add: validate_token_def with_http_client_def cache_hit_def drop_expired_def Let_def ttl_def
      EmergencyAccessConfig_default_def num_seconds_def sample_grant_def eg_is_valid_def)

theorem validate_token_sound_witness:
  "(Inr None :: string + emergency_access_grant option) = Inr (Some (sample_grant ''r'')) \<or>
    ((1000000000 :: int) < eg_expires_at (sample_grant ''r'') \<and>
     (\<exists>t. CValidate t ''tok'' ''n1'' (Inr (Some (sample_grant ''r''))) \<in>
            set [CValidate 0 ''tok'' ''n1'' (Inr (Some (sample_grant ''r'')))] \<and>
          num_seconds (1000000000 - t) < sint (ec_token_cache_ttl_secs EmergencyAccessConfig_default)))"
proof (rule validate_token_sound [where m = validated_manager])
  show "em_reach EmergencyAccessConfig_default [CValidate 0 ''tok'' ''n1'' (Inr (Some (sample_grant ''r'')))] validated_manager"
    by (rule em_next [OF em_init]) simp
  show "fst (validate_token (Inr None) 1000000000 ''tok'' ''n1'' validated_manager) = Inr (Some (sample_grant ''r''))"
    by (simp add: validate_token_fst validated_hit)
qed auto

theorem revoke_access_clears_cache_witness:
  "fst (validate_token (Inr None) 5 ''tok'' ''n1''
     (snd (revoke_access (Inr ()) 3 ''r'' None
        (fresh_manager\<lparr>em_active_grants := [(''r'', sample_grant ''r'')]\<rparr>)))) = Inr None"
proof -
  have "get_active_grant (fresh_manager\<lparr>em_active_grants := [(''r'', sample_grant ''r'')]\<rparr>) ''r''
      = Some (sample_grant ''r'')"
    by (simp add: get_active_grant_def hm_get_def)
  from revoke_access_clears_cache [OF this, of 3 None "Inr None" 5] show ?thesis
    by (simp add: sample_grant_def sample_request_def)
qed

theorem revoked_token_still_accepted_witness:
  "fst (validate_token (Inr None) 1000000000 ''tok'' ''n1''
     (snd (revoke_access (Inr ()) 500 ''r'' None validated_manager))) = Inr (Some (sample_grant ''r''))"
  by (rule revoked_token_still_accepted [OF _ validated_hit])
    (simp add: get_active_grant_def validate_token_def with_http_client_def cache_hit_def
      drop_expired_def Let_def)

theorem wait_for_approval_returns_witness:
  "\<exists>r m'. wait_for_approval ''r'' (from_secs 6) [(0, Inl ''e''), (from_secs 5, Inl ''e''), (from_secs 10, Inl ''e'')]
     fresh_manager = Some (r, m')"
  by (rule wait_for_approval_returns)
    (auto simp: poll_interval_def from_secs_def less_Suc_eq numeral_3_eq_3)

theorem wait_for_approval_outcome_witness:
  "\<exists>m'. wait_for_approval ''r'' 7 [(0, Inl ''e'')] fresh_manager = Some (Inl ''e'', m') \<and> ''r'' \<in> em_pending_polls m'"
  using wait_for_approval_outcome [of "''r''" 7 "[]" fresh_manager "''e''"] by blast

theorem cleanup_expired_by_inner_id_witness:
  "get_active_grant (cleanup_expired 60000000000
     (fresh_manager\<lparr>em_active_grants := [(''r'', sample_grant ''uuid'')]\<rparr>)) ''r'' = Some (sample_grant ''uuid'')"
  by (subst cleanup_expired_by_inner_id)
    (auto simp: hm_wf_def get_active_grant_def hm_get_def sample_grant_def sample_request_def split: if_splits)

end
