(* ===== verification/Paths.thy ===== *)
theory Paths
  imports Prelude
begin

text \<open>
  \<open>std::path\<close> on Unix, as far as the SFTP server and the recorder use it: components, joining,
  stripping of the root, parent and file name; normal paths, on which joining and taking the parent are
  inverse.
\<close>

section \<open>Paths\<close>

type_synonym path = string

datatype path_component = RootDir | CurDir | ParentDir | Normal string

definition slash :: char where
  "slash = CHR ''/''"

definition is_absolute :: "path \<Rightarrow> bool" where
  "is_absolute p = starts_with p ''/''"

definition void_piece :: "string \<Rightarrow> bool" where
  "void_piece s \<longleftrightarrow> s = [] \<or> s = ''.''"

definition to_component :: "string \<Rightarrow> path_component" where
  "to_component s = (if s = ''..'' then ParentDir else Normal s)"

definition path_components :: "path \<Rightarrow> path_component list" where
  "path_components p =
     (if is_absolute p then [RootDir]
      else if hd (split_on slash p) = ''.'' then [CurDir] else [])
     @ map to_component (filter (\<lambda>s. \<not> void_piece s) (split_on slash p))"

text \<open>\<open>Path::strip_prefix("/")\<close> of an absolute path: the rest without void pieces at either end.\<close>

definition trim_pieces_right :: "string list \<Rightarrow> string list" where
  "trim_pieces_right ps = rev (dropWhile void_piece (rev ps))"

definition strip_root :: "path \<Rightarrow> path" where
  "strip_root p = join_with ''/'' (trim_pieces_right (dropWhile void_piece (split_on slash p)))"

definition path_join :: "path \<Rightarrow> path \<Rightarrow> path" where
  "path_join base p =
     (if is_absolute p then p
      else if base = [] \<or> ends_with base ''/'' then base @ p
      else base @ ''/'' @ p)"

text \<open>The textual body of a path: what follows the root, as pieces.\<close>

definition body_pieces :: "path \<Rightarrow> string list" where
  "body_pieces p = split_on slash (if is_absolute p then tl p else p)"

definition path_parent :: "path \<Rightarrow> path option" where
  "path_parent p =
     (let ps = trim_pieces_right (body_pieces p) in
      if ps = [] then None
      else Some ((if is_absolute p then ''/'' else []) @ join_with ''/'' (trim_pieces_right (butlast ps))))"

definition path_file_name :: "path \<Rightarrow> string option" where
  "path_file_name p =
     (let ps = trim_pieces_right (body_pieces p) in
      if ps = [] \<or> last ps = ''..'' then None else Some (last ps))"

definition path_starts_with :: "path \<Rightarrow> path \<Rightarrow> bool" where
  "path_starts_with p base = prefix (path_components base) (path_components p)"

lemma path_components_below:
  assumes "is_absolute dir"
  shows "path_components (dir @ slash # q)
     = path_components dir @ map to_component (filter (\<lambda>s. \<not> void_piece s) (split_on slash q))"
proof -
  have "is_absolute (dir @ slash # q)"
    using assms by (cases dir) (auto simp: is_absolute_def starts_with_def)
  with assms show ?thesis by (simp add: path_components_def split_on_glue)
qed

section \<open>Normal paths\<close>

text \<open>
  Normal absolute paths: the root, or plain pieces (no void piece, no \<open>..\<close>) after it. They are the
  results of \<open>canonicalize\<close>; joining a plain piece to one and taking the parent undo each other.
\<close>

definition plain_piece :: "string \<Rightarrow> bool" where
  "plain_piece s \<longleftrightarrow> \<not> void_piece s \<and> s \<noteq> ''..'' \<and> slash \<notin> set s"

definition normal_path :: "path \<Rightarrow> bool" where
  "normal_path p \<longleftrightarrow> is_absolute p \<and> (tl p = [] \<or> list_all plain_piece (split_on slash (tl p)))"

definition normal_pieces :: "path \<Rightarrow> string list" where
  "normal_pieces p = (if tl p = [] then [] else split_on slash (tl p))"

lemma is_absolute_iff: "is_absolute p \<longleftrightarrow> (\<exists>q. p = slash # q)"
  by (auto simp: is_absolute_def starts_with_iff slash_def)

lemma normal_pathE:
  assumes "normal_path p"
  obtains "p = [slash]" "normal_pieces p = []"
  | q where "p = slash # q" "q \<noteq> []" "normal_pieces p = split_on slash q" "list_all plain_piece (split_on slash q)"
proof -
  obtain q where q: "p = slash # q" "q = [] \<or> list_all plain_piece (split_on slash q)"
    using assms by (auto simp: normal_path_def is_absolute_iff)
  show thesis
    by (cases "q = []") (use q that in \<open>auto simp: normal_pieces_def\<close>)
qed

lemma normal_pieces_plain: "normal_path p \<Longrightarrow> list_all plain_piece (normal_pieces p)"
  by (elim normal_pathE) simp_all

lemma normal_path_text: "normal_path p \<Longrightarrow> slash # join_with [slash] (normal_pieces p) = p"
  by (elim normal_pathE) (simp_all)

lemma normal_absolute [simp]: "normal_path p \<Longrightarrow> is_absolute p"
  by (simp add: normal_path_def)

lemma trim_right_plain [simp]:
  "list_all plain_piece ps \<Longrightarrow> trim_pieces_right ps = ps"
  "plain_piece n \<Longrightarrow> trim_pieces_right (ps @ [n]) = ps @ [n]"
  "trim_pieces_right (ps @ [[]]) = trim_pieces_right ps"
  "trim_pieces_right [[]] = []"
  by (cases ps rule: rev_cases)
    (simp_all add: trim_pieces_right_def plain_piece_def void_piece_def)

lemma split_ends: "s \<noteq> [] \<Longrightarrow> ends_with s [c] \<Longrightarrow> [] \<in> set (split_on c s)"
  by (auto simp: ends_with_iff split_on_glue)

lemma plain_not_nil: "\<not> plain_piece []"
  by (simp add: plain_piece_def void_piece_def)

lemma slash_text: "''/'' = [slash]"
  by (simp add: slash_def)

lemma join_normal:
  assumes "normal_path d" "slash \<notin> set n"
  shows "path_join d n = (if tl d = [] then slash # n else d @ slash # n)"
proof -
  have "\<not> is_absolute n" using assms(2) by (auto simp: is_absolute_iff)
  moreover have "ends_with d [slash] \<longleftrightarrow> tl d = []"
  proof (cases rule: normal_pathE [OF assms(1)])
    case 1
    then show ?thesis by (simp add: ends_with_iff)
  next
    case (2 q)
    have "\<not> ends_with q [slash]"
      using 2(2,4) split_ends [of q slash] plain_not_nil by (auto simp: list_all_iff)
    moreover have "ends_with (slash # q) [slash] \<longleftrightarrow> ends_with q [slash]"
      using 2(2) by (auto simp: ends_with_iff Cons_eq_append_conv)
    ultimately show ?thesis using 2 by simp
  qed
  moreover have "d \<noteq> []" "tl d = [] \<Longrightarrow> d = [slash]" using assms(1) by (auto elim!: normal_pathE)
  ultimately show ?thesis by (auto simp: path_join_def slash_text)
qed

lemma join_body:
  assumes "normal_path d" "slash \<notin> set n"
  shows "is_absolute (path_join d n)"
    and "body_pieces (path_join d n) = normal_pieces d @ [n]"
    and "path_components (path_join d n) = path_components d @ (if void_piece n then [] else [to_component n])"
proof -
  show a: "is_absolute (path_join d n)"
    using assms by (auto simp: join_normal is_absolute_iff elim!: normal_pathE)
  show b: "body_pieces (path_join d n) = normal_pieces d @ [n]"
    using a join_normal [OF assms] by (cases rule: normal_pathE [OF assms(1)])
      (simp_all add: body_pieces_def split_on_glue split_on_none assms(2))
  have "split_on slash (path_join d n) = [] # body_pieces (path_join d n)"
    using a by (auto simp: body_pieces_def is_absolute_iff)
  moreover have "filter (\<lambda>s. \<not> void_piece s) (split_on slash d) = normal_pieces d"
    using assms(1) by (cases rule: normal_pathE)
      (auto simp: void_piece_def list_all_iff plain_piece_def intro!: filter_True)
  moreover have "filter (\<lambda>s. \<not> void_piece s) (normal_pieces d) = normal_pieces d"
    using normal_pieces_plain [OF assms(1)] by (auto simp: list_all_iff plain_piece_def)
  ultimately show "path_components (path_join d n) = path_components d @ (if void_piece n then [] else [to_component n])"
    using a b assms(1) by (simp add: path_components_def) (simp add: void_piece_def)
qed

lemma join_parent:
  assumes "normal_path d" "plain_piece n"
  shows "path_parent (path_join d n) = Some d" "path_file_name (path_join d n) = Some n"
    "normal_path (path_join d n)"
proof -
  have n: "slash \<notin> set n" using assms(2) by (simp add: plain_piece_def)
  show "path_parent (path_join d n) = Some d"
    using join_body [OF assms(1) n] assms normal_pieces_plain [OF assms(1)] normal_path_text [OF assms(1)]
    by (simp add: path_parent_def Let_def slash_text)
  show "path_file_name (path_join d n) = Some n"
    using join_body [OF assms(1) n] assms by (simp add: path_file_name_def Let_def plain_piece_def)
  show "normal_path (path_join d n)"
    using join_body [OF assms(1) n] assms normal_pieces_plain [OF assms(1)]
    by (simp add: normal_path_def body_pieces_def)
qed

text \<open>A trailing slash changes neither the components nor the parent and the file name.\<close>

lemma join_void:
  assumes "normal_path d"
  shows "path_components (path_join d []) = path_components d"
    "path_parent (path_join d []) = path_parent d" "path_file_name (path_join d []) = path_file_name d"
proof -
  have a: "is_absolute (path_join d [])" "body_pieces (path_join d []) = normal_pieces d @ [[]]"
    using join_body [OF assms, of "[]"] by simp_all
  have t: "trim_pieces_right (body_pieces d) = normal_pieces d"
    using assms by (cases rule: normal_pathE) (simp_all add: body_pieces_def is_absolute_iff)
  show "path_components (path_join d []) = path_components d"
    using join_body [OF assms, of "[]"] by (simp add: void_piece_def)
  show "path_parent (path_join d []) = path_parent d" "path_file_name (path_join d []) = path_file_name d"
    using a t assms normal_pieces_plain [OF assms] by (simp_all add: path_parent_def path_file_name_def)
qed

lemma normal_cases:
  assumes "normal_path p"
  obtains "p = [slash]" | d n where "normal_path d" "plain_piece n" "p = path_join d n"
proof (cases rule: normal_pathE [OF assms])
  case (2 q)
  show thesis
  proof (cases "slash \<in> set q")
    case True
    then obtain a n where q: "q = a @ slash # n" "slash \<notin> set n" by (meson split_list_last)
    then have ps: "list_all plain_piece (split_on slash a)" "plain_piece n"
      using 2(4) by (simp_all add: split_on_glue split_on_none)
    then have "a \<noteq> []" using plain_not_nil by auto
    then have d: "normal_path (slash # a)" using ps by (simp add: normal_path_def is_absolute_iff)
    then have "p = path_join (slash # a) n" using join_normal [OF d q(2)] \<open>a \<noteq> []\<close> q(1) 2(1) by simp
    then show thesis using that(2) d ps(2) by blast
  next
    case False
    have d: "normal_path [slash]" by (simp add: normal_path_def is_absolute_iff)
    have "plain_piece q" using 2(4) False by (simp add: split_on_none)
    moreover have "p = path_join [slash] q" using join_normal [OF d False] 2(1) by simp
    ultimately show thesis using that(2) d by blast
  qed
qed (rule that(1))

lemma normal_split:
  assumes "normal_path p" "path_parent p = Some d"
  obtains n where "normal_path d" "plain_piece n" "path_file_name p = Some n" "p = path_join d n"
proof (cases rule: normal_cases [OF assms(1)])
  case 1
  then show thesis using assms(2) by (simp add: path_parent_def body_pieces_def is_absolute_iff)
next
  case (2 d' n)
  with assms(2) show thesis using that join_parent [of d' n] by simp
qed

lemma file_name_plain:
  assumes "path_file_name p = Some n"
  shows "plain_piece n"
proof -
  have v: "trim_pieces_right ps = [] \<or> \<not> void_piece (last (trim_pieces_right ps))" for ps
    by (induction ps rule: rev_induct) (auto simp: trim_pieces_right_def)
  have "set (trim_pieces_right ps) \<subseteq> set ps" for ps
    by (auto simp: trim_pieces_right_def dest: set_dropWhileD)
  then have "trim_pieces_right ps \<noteq> [] \<Longrightarrow> last (trim_pieces_right ps) \<in> set ps" for ps
    using last_in_set by blast
  with v [of "body_pieces p"] assms show ?thesis
    unfolding path_file_name_def Let_def plain_piece_def
    by (auto split: if_splits simp: body_pieces_def dest: split_on_pieces)
qed

lemma no_parent_components: "normal_path p \<Longrightarrow> ParentDir \<notin> set (path_components p)"
  by (elim normal_pathE)
    (auto simp: path_components_def is_absolute_iff to_component_def void_piece_def list_all_iff plain_piece_def)

end
