(* ===== verification/Sftp.thy ===== *)
theory Sftp
  imports Ssh_Types Paths Machines
begin

text \<open>
  \<open>crates/omni-ssh/src/sftp/mod.rs\<close>: the SFTP server handler. Paths are Unix paths as text; the parts of
  \<open>std::path\<close> the code uses (components, join, parent, file name, prefix test) are defined on the text.
  The operating system's file system is a parameter: the record \<open>fs_api\<close> of the calls the handler
  makes, over a state of type \<open>'fs\<close>. The request lock makes each request one step. The default
  attributes of the protocol crate are a parameter.
\<close>

section \<open>The file system interface\<close>

text \<open>
  \<open>fs_seek\<close> moves the position of an open file. \<open>fs_write_at\<close> is the write that follows it, as the operating
  system makes it: at the position asked for, but at the end of the file, wherever the position is, on a
  descriptor that was opened for appending (\<open>O_APPEND\<close>). Data the asynchronous file library still buffers
  counts as written.
\<close>

datatype io_error = NotFound | IoPermissionDenied | AlreadyExists | IoOther

record fs_metadata =
  md_len :: u64
  md_mode :: u32
  md_uid :: u32
  md_gid :: u32
  md_modified :: "nat option"
  md_accessed :: "nat option"

record open_options =
  oo_read :: bool
  oo_write :: bool
  oo_create :: bool
  oo_truncate :: bool
  oo_append :: bool
  oo_create_new :: bool

record 'fs fs_api =
  fs_exists :: "'fs \<Rightarrow> path \<Rightarrow> bool"
  fs_is_dir :: "'fs \<Rightarrow> path \<Rightarrow> bool"
  fs_canonicalize :: "'fs \<Rightarrow> path \<Rightarrow> io_error + path"
  fs_metadata_of :: "'fs \<Rightarrow> path \<Rightarrow> io_error + fs_metadata"
  fs_symlink_metadata :: "'fs \<Rightarrow> path \<Rightarrow> io_error + fs_metadata"
  fs_current_dir :: "'fs \<Rightarrow> path option"
  fs_read_dir :: "'fs \<Rightarrow> path \<Rightarrow> io_error + string list"
  fs_read_link :: "'fs \<Rightarrow> path \<Rightarrow> io_error + path"
  fs_open :: "open_options \<Rightarrow> path \<Rightarrow> 'fs \<Rightarrow> (io_error + nat) \<times> 'fs"
  fs_read_at :: "'fs \<Rightarrow> nat \<Rightarrow> u64 \<Rightarrow> u32 \<Rightarrow> io_error + u8 list"
  fs_seek :: "'fs \<Rightarrow> nat \<Rightarrow> u64 \<Rightarrow> io_error + unit"
  fs_write_at :: "nat \<Rightarrow> u64 \<Rightarrow> u8 list \<Rightarrow> 'fs \<Rightarrow> (io_error + unit) \<times> 'fs"
  fs_set_permissions :: "path \<Rightarrow> u32 \<Rightarrow> 'fs \<Rightarrow> (io_error + unit) \<times> 'fs"
  fs_remove_file :: "path \<Rightarrow> 'fs \<Rightarrow> (io_error + unit) \<times> 'fs"
  fs_create_dir :: "path \<Rightarrow> 'fs \<Rightarrow> (io_error + unit) \<times> 'fs"
  fs_remove_dir :: "path \<Rightarrow> 'fs \<Rightarrow> (io_error + unit) \<times> 'fs"
  fs_rename :: "path \<Rightarrow> path \<Rightarrow> 'fs \<Rightarrow> (io_error + unit) \<times> 'fs"
  fs_symlink :: "path \<Rightarrow> path \<Rightarrow> 'fs \<Rightarrow> (io_error + unit) \<times> 'fs"

section \<open>Configuration and state\<close>

record sftp_server_config =
  sf_root_dir :: "path option"
  sf_allow_read :: bool
  sf_allow_write :: bool
  sf_max_file_size :: "u64 option"
  sf_allowed_paths :: "string list option"

definition SftpServerConfig_default :: sftp_server_config where
  "SftpServerConfig_default =
     \<lparr>sf_root_dir = None, sf_allow_read = True, sf_allow_write = True, sf_max_file_size = None,
      sf_allowed_paths = None\<rparr>"

definition sftp_read_only :: "path option \<Rightarrow> sftp_server_config" where
  "sftp_read_only root_dir =
     \<lparr>sf_root_dir = root_dir, sf_allow_read = True, sf_allow_write = False, sf_max_file_size = None,
      sf_allowed_paths = None\<rparr>"

definition sftp_from_action :: "ssh_action \<Rightarrow> sftp_server_config" where
  "sftp_from_action action =
     \<lparr>sf_root_dir = None, sf_allow_read = True, sf_allow_write = (\<not> act_read_only action),
      sf_max_file_size = None, sf_allowed_paths = act_allowed_paths action\<rparr>"

datatype sftp_error =
    PermissionDenied string
  | NoSuchFile string
  | FileExists string
  | NotDirectory string
  | IsDirectory string
  | InvalidHandle string
  | NotSupported
  | Io io_error
  | PathEscape
  | ReadOnly
  | FileTooLarge
  | Eof

datatype status_code = ScOk | ScEof | ScNoSuchFile | ScPermissionDenied | ScFailure | ScOpUnsupported

fun to_status_code :: "sftp_error \<Rightarrow> status_code" where
  "to_status_code (PermissionDenied _) = ScPermissionDenied"
| "to_status_code (NoSuchFile _) = ScNoSuchFile"
| "to_status_code (FileExists _) = ScFailure"
| "to_status_code (NotDirectory _) = ScFailure"
| "to_status_code (IsDirectory _) = ScFailure"
| "to_status_code (InvalidHandle _) = ScFailure"
| "to_status_code NotSupported = ScOpUnsupported"
| "to_status_code (Io e) =
     (case e of NotFound \<Rightarrow> ScNoSuchFile | IoPermissionDenied \<Rightarrow> ScPermissionDenied
      | AlreadyExists \<Rightarrow> ScFailure | IoOther \<Rightarrow> ScFailure)"
| "to_status_code PathEscape = ScPermissionDenied"
| "to_status_code ReadOnly = ScPermissionDenied"
| "to_status_code FileTooLarge = ScFailure"
| "to_status_code Eof = ScEof"

record file_attributes =
  fa_size :: "u64 option"
  fa_uid :: "u32 option"
  fa_gid :: "u32 option"
  fa_permissions :: "u32 option"
  fa_atime :: "u32 option"
  fa_mtime :: "u32 option"

record file_handle =
  fh_file :: nat
  fh_path :: path
  fh_write_mode :: bool

record dir_handle =
  dh_path :: path
  dh_entries :: "string list"
  dh_position :: nat
  dh_read_complete :: bool

record sftp_handler =
  sh_config :: sftp_server_config
  sh_next_handle :: u64
  sh_file_handles :: "(string, file_handle) hmap"
  sh_dir_handles :: "(string, dir_handle) hmap"
  sh_conn_id :: string
  sh_username :: string
  sh_default_attrs :: file_attributes

definition sftp_new ::
  "file_attributes \<Rightarrow> sftp_server_config \<Rightarrow> string \<Rightarrow> string \<Rightarrow> sftp_handler" where
  "sftp_new default_attrs config conn_id username =
     \<lparr>sh_config = config, sh_next_handle = 1, sh_file_handles = [], sh_dir_handles = [],
      sh_conn_id = conn_id, sh_username = username, sh_default_attrs = default_attrs\<rparr>"

definition handle_name :: "u64 \<Rightarrow> string" where
  "handle_name i = ''h'' @ show_nat (unat i)"

definition next_handle_id :: "sftp_handler \<Rightarrow> string \<times> sftp_handler" where
  "next_handle_id h =
     (handle_name (sh_next_handle h), h\<lparr>sh_next_handle := sh_next_handle h + 1\<rparr>)"

section \<open>Path resolution\<close>

definition path_allowed :: "string \<Rightarrow> string \<Rightarrow> bool" where
  "path_allowed path_str p =
     (if ends_with p ''/*'' then starts_with path_str (take (length p - 2) p)
      else if ends_with p ''/**'' then starts_with path_str (take (length p - 3) p)
      else path_str = p \<or> starts_with path_str (p @ ''/''))"

definition requested_path :: "'fs fs_api \<Rightarrow> 'fs \<Rightarrow> sftp_server_config \<Rightarrow> string \<Rightarrow> path" where
  "requested_path api fs config path_str =
     (case sf_root_dir config of
        Some root \<Rightarrow>
          if is_absolute path_str then path_join root (strip_root path_str)
          else path_join root path_str
      | None \<Rightarrow>
          if is_absolute path_str then path_str
          else path_join (case fs_current_dir api fs of Some d \<Rightarrow> d | None \<Rightarrow> ''.'') path_str)"

definition canonical_path :: "'fs fs_api \<Rightarrow> 'fs \<Rightarrow> path \<Rightarrow> sftp_error + path" where
  "canonical_path api fs resolved =
     (if fs_exists api fs resolved then
        (case fs_canonicalize api fs resolved of Inl e \<Rightarrow> Inl (Io e) | Inr c \<Rightarrow> Inr c)
      else
        (case path_parent resolved of
           Some parent \<Rightarrow>
             if fs_exists api fs parent then
               (case fs_canonicalize api fs parent of
                  Inl e \<Rightarrow> Inl (Io e)
                | Inr canonical_parent \<Rightarrow>
                    Inr (path_join canonical_parent
                           (case path_file_name resolved of Some n \<Rightarrow> n | None \<Rightarrow> [])))
             else Inr resolved
         | None \<Rightarrow> Inr resolved))"

definition canonical_root :: "'fs fs_api \<Rightarrow> 'fs \<Rightarrow> path \<Rightarrow> path" where
  "canonical_root api fs root =
     (case fs_canonicalize api fs root of Inr r \<Rightarrow> r | Inl _ \<Rightarrow> root)"

definition resolve_path :: "'fs fs_api \<Rightarrow> 'fs \<Rightarrow> sftp_server_config \<Rightarrow> string \<Rightarrow> sftp_error + path" where
  "resolve_path api fs config path_str =
     and_then (canonical_path api fs (requested_path api fs config path_str)) (\<lambda>canonical.
       if (case sf_root_dir config of
             Some root \<Rightarrow> \<not> path_starts_with canonical (canonical_root api fs root)
           | None \<Rightarrow> False)
       then Inl PathEscape
       else if (case sf_allowed_paths config of
                  Some allowed \<Rightarrow> \<not> list_ex (path_allowed canonical) allowed
                | None \<Rightarrow> False)
       then Inl (PermissionDenied (''Path not allowed: '' @ canonical))
       else Inr canonical)"

definition check_write :: "sftp_server_config \<Rightarrow> sftp_error + unit" where
  "check_write config = (if \<not> sf_allow_write config then Inl ReadOnly else Inr ())"

definition check_read :: "sftp_server_config \<Rightarrow> sftp_error + unit" where
  "check_read config =
     (if \<not> sf_allow_read config then Inl (PermissionDenied ''Read operations not allowed'') else Inr ())"

text \<open>On Unix; times are truncated to 32 bits, a time before the epoch is left at the default.\<close>

definition metadata_to_attrs :: "file_attributes \<Rightarrow> fs_metadata \<Rightarrow> file_attributes" where
  "metadata_to_attrs default_attrs metadata =
     default_attrs\<lparr>fa_size := Some (md_len metadata),
       fa_permissions := Some (md_mode metadata),
       fa_uid := Some (md_uid metadata),
       fa_gid := Some (md_gid metadata),
       fa_mtime := (case md_modified metadata of Some s \<Rightarrow> Some (of_nat s) | None \<Rightarrow> fa_mtime default_attrs),
       fa_atime := (case md_accessed metadata of Some s \<Rightarrow> Some (of_nat s) | None \<Rightarrow> fa_atime default_attrs)\<rparr>"

section \<open>Requests\<close>

text \<open>
  A request runs in a state of the handler and the file system and leaves an error or a response.
  \<open>ret_err\<close> is the \<open>?\<close> operator in this setting.
\<close>

record open_flags =
  of_read :: bool
  of_write :: bool
  of_append :: bool
  of_create :: bool
  of_truncate :: bool
  of_exclude :: bool

datatype sftp_response =
    RStatusOk u32
  | RHandle u32 string
  | RData u32 "u8 list"
  | RAttrs u32 file_attributes
  | RName u32 "(string \<times> file_attributes) list"

type_synonym 'fs sftp_state = "sftp_handler \<times> 'fs"
type_synonym 'fs sftp_result = "(sftp_error + sftp_response) \<times> 'fs sftp_state"

definition ret_err :: "sftp_error + 'a \<Rightarrow> 'fs sftp_state \<Rightarrow> ('a \<Rightarrow> 'fs sftp_result) \<Rightarrow> 'fs sftp_result" where
  "ret_err r s f = (case r of Inl e \<Rightarrow> (Inl e, s) | Inr a \<Rightarrow> f a)"

definition lift_io :: "io_error + 'a \<Rightarrow> sftp_error + 'a" where
  "lift_io r = (case r of Inl e \<Rightarrow> Inl (Io e) | Inr a \<Rightarrow> Inr a)"

definition get_handle :: "(string, 'v) hmap \<Rightarrow> string \<Rightarrow> sftp_error + 'v" where
  "get_handle m k =
     (case hm_get m k of Some v \<Rightarrow> Inr v | None \<Rightarrow> Inl (InvalidHandle k))"

text \<open>A call that changes the file system, ending the request with the given response.\<close>

definition fs_do ::
  "sftp_handler \<Rightarrow> (io_error + unit) \<times> 'fs \<Rightarrow> sftp_response \<Rightarrow> 'fs sftp_result" where
  "fs_do h r resp =
     (case r of (Inl e, fs) \<Rightarrow> (Inl (Io e), h, fs) | (Inr _, fs) \<Rightarrow> (Inr resp, h, fs))"

definition is_write_open :: "open_flags \<Rightarrow> bool" where
  "is_write_open f \<longleftrightarrow> of_write f \<or> of_create f \<or> of_truncate f \<or> of_append f"

definition build_options :: "open_flags \<Rightarrow> open_options" where
  "build_options f =
     \<lparr>oo_read = of_read f, oo_write = of_write f, oo_create = of_create f,
      oo_truncate = of_truncate f, oo_append = of_append f, oo_create_new = of_exclude f\<rparr>"

definition too_large :: "'fs fs_api \<Rightarrow> 'fs \<Rightarrow> sftp_server_config \<Rightarrow> path \<Rightarrow> sftp_error + unit" where
  "too_large api fs config path =
     (case sf_max_file_size config of
        Some max_size \<Rightarrow>
          if fs_exists api fs path then
            and_then (lift_io (fs_metadata_of api fs path)) (\<lambda>md.
              if md_len md > max_size then Inl FileTooLarge else Inr ())
          else Inr ()
      | None \<Rightarrow> Inr ())"

definition sftp_open ::
  "'fs fs_api \<Rightarrow> u32 \<Rightarrow> string \<Rightarrow> open_flags \<Rightarrow> 'fs sftp_state \<Rightarrow> 'fs sftp_result" where
  "sftp_open api i filename pflags s =
     (case s of (h, fs) \<Rightarrow>
      ret_err (resolve_path api fs (sh_config h) filename) s (\<lambda>path.
      ret_err (if is_write_open pflags then check_write (sh_config h) else Inr ()) s (\<lambda>_.
      ret_err (if of_read pflags then check_read (sh_config h) else Inr ()) s (\<lambda>_.
      ret_err (if is_write_open pflags then too_large api fs (sh_config h) path else Inr ()) s (\<lambda>_.
        (case fs_open api (build_options pflags) path fs of
           (Inl e, fs1) \<Rightarrow> (Inl (Io e), h, fs1)
         | (Inr file, fs1) \<Rightarrow>
             (case next_handle_id h of (handle_id, h1) \<Rightarrow>
                (Inr (RHandle i handle_id),
                 h1\<lparr>sh_file_handles := hm_insert handle_id
                      \<lparr>fh_file = file, fh_path = path, fh_write_mode = is_write_open pflags\<rparr>
                      (sh_file_handles h1)\<rparr>, fs1))))))))"

definition sftp_close :: "u32 \<Rightarrow> string \<Rightarrow> 'fs sftp_state \<Rightarrow> 'fs sftp_result" where
  "sftp_close i handle s =
     (case s of (h, fs) \<Rightarrow>
        if hm_contains (sh_file_handles h) handle then
          (Inr (RStatusOk i), h\<lparr>sh_file_handles := hm_remove handle (sh_file_handles h)\<rparr>, fs)
        else if hm_contains (sh_dir_handles h) handle then
          (Inr (RStatusOk i), h\<lparr>sh_dir_handles := hm_remove handle (sh_dir_handles h)\<rparr>, fs)
        else (Inl (InvalidHandle handle), s))"

definition sftp_read ::
  "'fs fs_api \<Rightarrow> u32 \<Rightarrow> string \<Rightarrow> u64 \<Rightarrow> u32 \<Rightarrow> 'fs sftp_state \<Rightarrow> 'fs sftp_result" where
  "sftp_read api i handle offset len s =
     (case s of (h, fs) \<Rightarrow>
      ret_err (check_read (sh_config h)) s (\<lambda>_.
      ret_err (get_handle (sh_file_handles h) handle) s (\<lambda>fh.
      ret_err (lift_io (fs_seek api fs (fh_file fh) offset)) s (\<lambda>_.
      ret_err (lift_io (fs_read_at api fs (fh_file fh) offset len)) s (\<lambda>buffer.
        if buffer = [] then (Inl Eof, s) else (Inr (RData i buffer), s))))))"

definition sftp_write ::
  "'fs fs_api \<Rightarrow> u32 \<Rightarrow> string \<Rightarrow> u64 \<Rightarrow> u8 list \<Rightarrow> 'fs sftp_state \<Rightarrow> 'fs sftp_result" where
  "sftp_write api i handle offset data s =
     (case s of (h, fs) \<Rightarrow>
      ret_err (check_write (sh_config h)) s (\<lambda>_.
      ret_err (get_handle (sh_file_handles h) handle) s (\<lambda>fh.
        if \<not> fh_write_mode fh then (Inl (PermissionDenied ''File not opened for writing''), s)
        else if (case sf_max_file_size (sh_config h) of
                   Some max_size \<Rightarrow> offset + of_nat (length data) > max_size
                 | None \<Rightarrow> False) then (Inl FileTooLarge, s)
        else
          ret_err (lift_io (fs_seek api fs (fh_file fh) offset)) s (\<lambda>_.
            fs_do h (fs_write_at api (fh_file fh) offset data fs) (RStatusOk i)))))"

definition sftp_lstat :: "'fs fs_api \<Rightarrow> u32 \<Rightarrow> string \<Rightarrow> 'fs sftp_state \<Rightarrow> 'fs sftp_result" where
  "sftp_lstat api i path s =
     (case s of (h, fs) \<Rightarrow>
      ret_err (check_read (sh_config h)) s (\<lambda>_.
      ret_err (resolve_path api fs (sh_config h) path) s (\<lambda>resolved.
      ret_err (lift_io (fs_symlink_metadata api fs resolved)) s (\<lambda>md.
        (Inr (RAttrs i (metadata_to_attrs (sh_default_attrs h) md)), s)))))"

definition sftp_fstat :: "'fs fs_api \<Rightarrow> u32 \<Rightarrow> string \<Rightarrow> 'fs sftp_state \<Rightarrow> 'fs sftp_result" where
  "sftp_fstat api i handle s =
     (case s of (h, fs) \<Rightarrow>
      ret_err (check_read (sh_config h)) s (\<lambda>_.
      ret_err (get_handle (sh_file_handles h) handle) s (\<lambda>fh.
      ret_err (lift_io (fs_metadata_of api fs (fh_path fh))) s (\<lambda>md.
        (Inr (RAttrs i (metadata_to_attrs (sh_default_attrs h) md)), s)))))"

definition set_perms ::
  "'fs fs_api \<Rightarrow> u32 \<Rightarrow> path \<Rightarrow> file_attributes \<Rightarrow> 'fs sftp_state \<Rightarrow> 'fs sftp_result" where
  "set_perms api i path attrs s =
     (case s of (h, fs) \<Rightarrow>
        case fa_permissions attrs of
          Some perm \<Rightarrow> fs_do h (fs_set_permissions api path perm fs) (RStatusOk i)
        | None \<Rightarrow> (Inr (RStatusOk i), s))"

definition sftp_setstat ::
  "'fs fs_api \<Rightarrow> u32 \<Rightarrow> string \<Rightarrow> file_attributes \<Rightarrow> 'fs sftp_state \<Rightarrow> 'fs sftp_result" where
  "sftp_setstat api i path attrs s =
     (case s of (h, fs) \<Rightarrow>
      ret_err (check_write (sh_config h)) s (\<lambda>_.
      ret_err (resolve_path api fs (sh_config h) path) s (\<lambda>resolved.
        set_perms api i resolved attrs s)))"

definition sftp_fsetstat ::
  "'fs fs_api \<Rightarrow> u32 \<Rightarrow> string \<Rightarrow> file_attributes \<Rightarrow> 'fs sftp_state \<Rightarrow> 'fs sftp_result" where
  "sftp_fsetstat api i handle attrs s =
     (case s of (h, fs) \<Rightarrow>
      ret_err (check_write (sh_config h)) s (\<lambda>_.
      ret_err (get_handle (sh_file_handles h) handle) s (\<lambda>fh.
        set_perms api i (fh_path fh) attrs s)))"

definition sftp_opendir :: "'fs fs_api \<Rightarrow> u32 \<Rightarrow> string \<Rightarrow> 'fs sftp_state \<Rightarrow> 'fs sftp_result" where
  "sftp_opendir api i path s =
     (case s of (h, fs) \<Rightarrow>
      ret_err (check_read (sh_config h)) s (\<lambda>_.
      ret_err (resolve_path api fs (sh_config h) path) s (\<lambda>resolved.
        if \<not> fs_is_dir api fs resolved then (Inl (NotDirectory path), s)
        else
          ret_err (lift_io (fs_read_dir api fs resolved)) s (\<lambda>entries.
            (case next_handle_id h of (handle_id, h1) \<Rightarrow>
               (Inr (RHandle i handle_id),
                h1\<lparr>sh_dir_handles := hm_insert handle_id
                     \<lparr>dh_path = resolved, dh_entries = entries, dh_position = 0, dh_read_complete = False\<rparr>
                     (sh_dir_handles h1)\<rparr>, fs))))))"

definition batch_size :: nat where
  "batch_size = 100"

text \<open>\<open>DirEntry::metadata\<close> does not follow links: it is the link metadata of the joined path.\<close>

definition dot_entries :: "'fs fs_api \<Rightarrow> 'fs \<Rightarrow> file_attributes \<Rightarrow> path \<Rightarrow> (string \<times> file_attributes) list" where
  "dot_entries api fs da p =
     (case fs_metadata_of api fs p of
        Inr md \<Rightarrow> [(''.'', metadata_to_attrs da md)] | Inl _ \<Rightarrow> [])
     @ (case path_parent p of
          Some parent \<Rightarrow>
            (case fs_metadata_of api fs parent of
               Inr md \<Rightarrow> [(''..'', metadata_to_attrs da md)] | Inl _ \<Rightarrow> [])
        | None \<Rightarrow> [])"

fun read_entries ::
  "(string \<Rightarrow> (string \<times> file_attributes) option) \<Rightarrow> string list \<Rightarrow> nat \<Rightarrow>
     (string \<times> file_attributes) list \<Rightarrow> nat \<times> (string \<times> file_attributes) list" where
  "read_entries attrs_of [] pos files = (pos, files)"
| "read_entries attrs_of (e # es) pos files =
     (if length files < batch_size then
        read_entries attrs_of es (Suc pos)
          (case attrs_of e of Some f \<Rightarrow> files @ [f] | None \<Rightarrow> files)
      else (pos, files))"

definition entry_attrs ::
  "'fs fs_api \<Rightarrow> 'fs \<Rightarrow> file_attributes \<Rightarrow> path \<Rightarrow> string \<Rightarrow> (string \<times> file_attributes) option" where
  "entry_attrs api fs da p name =
     (case fs_symlink_metadata api fs (path_join p name) of
        Inr md \<Rightarrow> Some (name, metadata_to_attrs da md) | Inl _ \<Rightarrow> None)"

definition read_batch ::
  "'fs fs_api \<Rightarrow> 'fs \<Rightarrow> file_attributes \<Rightarrow> dir_handle \<Rightarrow> (string \<times> file_attributes) list \<times> dir_handle" where
  "read_batch api fs da dh =
     (let dots = (if dh_position dh = 0 then dot_entries api fs da (dh_path dh) else []) in
      case read_entries (entry_attrs api fs da (dh_path dh)) (drop (dh_position dh) (dh_entries dh))
             (dh_position dh) dots of
        (pos, files) \<Rightarrow>
          (files, dh\<lparr>dh_position := pos,
                     dh_read_complete := (if pos \<ge> length (dh_entries dh) then True else dh_read_complete dh)\<rparr>))"

definition sftp_readdir :: "'fs fs_api \<Rightarrow> u32 \<Rightarrow> string \<Rightarrow> 'fs sftp_state \<Rightarrow> 'fs sftp_result" where
  "sftp_readdir api i handle s =
     (case s of (h, fs) \<Rightarrow>
      ret_err (check_read (sh_config h)) s (\<lambda>_.
      ret_err (get_handle (sh_dir_handles h) handle) s (\<lambda>dh.
        if dh_read_complete dh then (Inl Eof, s)
        else
          (case read_batch api fs (sh_default_attrs h) dh of
             (files, dh1) \<Rightarrow>
               (let h1 = h\<lparr>sh_dir_handles := hm_insert handle dh1 (sh_dir_handles h)\<rparr> in
                if files = [] then (Inl Eof, h1, fs) else (Inr (RName i files), h1, fs))))))"

definition sftp_remove :: "'fs fs_api \<Rightarrow> u32 \<Rightarrow> string \<Rightarrow> 'fs sftp_state \<Rightarrow> 'fs sftp_result" where
  "sftp_remove api i filename s =
     (case s of (h, fs) \<Rightarrow>
      ret_err (check_write (sh_config h)) s (\<lambda>_.
      ret_err (resolve_path api fs (sh_config h) filename) s (\<lambda>path.
        if fs_is_dir api fs path then (Inl (IsDirectory filename), s)
        else fs_do h (fs_remove_file api path fs) (RStatusOk i))))"

definition sftp_mkdir ::
  "'fs fs_api \<Rightarrow> u32 \<Rightarrow> string \<Rightarrow> file_attributes \<Rightarrow> 'fs sftp_state \<Rightarrow> 'fs sftp_result" where
  "sftp_mkdir api i path attrs s =
     (case s of (h, fs) \<Rightarrow>
      ret_err (check_write (sh_config h)) s (\<lambda>_.
      ret_err (resolve_path api fs (sh_config h) path) s (\<lambda>resolved.
        (case fs_create_dir api resolved fs of
           (Inl e, fs1) \<Rightarrow> (Inl (Io e), h, fs1)
         | (Inr _, fs1) \<Rightarrow> set_perms api i resolved attrs (h, fs1)))))"

definition sftp_rmdir :: "'fs fs_api \<Rightarrow> u32 \<Rightarrow> string \<Rightarrow> 'fs sftp_state \<Rightarrow> 'fs sftp_result" where
  "sftp_rmdir api i path s =
     (case s of (h, fs) \<Rightarrow>
      ret_err (check_write (sh_config h)) s (\<lambda>_.
      ret_err (resolve_path api fs (sh_config h) path) s (\<lambda>resolved.
        if \<not> fs_is_dir api fs resolved then (Inl (NotDirectory path), s)
        else fs_do h (fs_remove_dir api resolved fs) (RStatusOk i))))"

definition display_path :: "sftp_server_config \<Rightarrow> path \<Rightarrow> string" where
  "display_path config canonical =
     (case sf_root_dir config of
        Some root \<Rightarrow>
          if starts_with canonical root then
            (let relative = drop (length root) canonical in
             if relative = [] then ''/''
             else if starts_with relative ''/'' \<or> hd relative = char_of (92 :: nat) then relative
             else ''/'' @ relative)
          else canonical
      | None \<Rightarrow> canonical)"

definition sftp_realpath :: "'fs fs_api \<Rightarrow> u32 \<Rightarrow> string \<Rightarrow> 'fs sftp_state \<Rightarrow> 'fs sftp_result" where
  "sftp_realpath api i path s =
     (case s of (h, fs) \<Rightarrow>
      ret_err (resolve_path api fs (sh_config h) path) s (\<lambda>resolved.
      ret_err (if fs_exists api fs resolved
               then and_then (lift_io (fs_metadata_of api fs resolved)) (\<lambda>md.
                      Inr (metadata_to_attrs (sh_default_attrs h) md))
               else Inr (sh_default_attrs h)) s (\<lambda>attrs.
        (Inr (RName i [(display_path (sh_config h) resolved, attrs)]), s))))"

definition sftp_stat :: "'fs fs_api \<Rightarrow> u32 \<Rightarrow> string \<Rightarrow> 'fs sftp_state \<Rightarrow> 'fs sftp_result" where
  "sftp_stat api i path s =
     (case s of (h, fs) \<Rightarrow>
      ret_err (check_read (sh_config h)) s (\<lambda>_.
      ret_err (resolve_path api fs (sh_config h) path) s (\<lambda>resolved.
      ret_err (lift_io (fs_metadata_of api fs resolved)) s (\<lambda>md.
        (Inr (RAttrs i (metadata_to_attrs (sh_default_attrs h) md)), s)))))"

definition sftp_rename :: "'fs fs_api \<Rightarrow> u32 \<Rightarrow> string \<Rightarrow> string \<Rightarrow> 'fs sftp_state \<Rightarrow> 'fs sftp_result" where
  "sftp_rename api i oldpath newpath s =
     (case s of (h, fs) \<Rightarrow>
      ret_err (check_write (sh_config h)) s (\<lambda>_.
      ret_err (resolve_path api fs (sh_config h) oldpath) s (\<lambda>old_resolved.
      ret_err (resolve_path api fs (sh_config h) newpath) s (\<lambda>new_resolved.
        fs_do h (fs_rename api old_resolved new_resolved fs) (RStatusOk i)))))"

definition sftp_readlink :: "'fs fs_api \<Rightarrow> u32 \<Rightarrow> string \<Rightarrow> 'fs sftp_state \<Rightarrow> 'fs sftp_result" where
  "sftp_readlink api i path s =
     (case s of (h, fs) \<Rightarrow>
      ret_err (check_read (sh_config h)) s (\<lambda>_.
      ret_err (resolve_path api fs (sh_config h) path) s (\<lambda>resolved.
      ret_err (lift_io (fs_read_link api fs resolved)) s (\<lambda>target.
        (Inr (RName i [(target, sh_default_attrs h)]), s)))))"

definition sftp_symlink :: "'fs fs_api \<Rightarrow> u32 \<Rightarrow> string \<Rightarrow> string \<Rightarrow> 'fs sftp_state \<Rightarrow> 'fs sftp_result" where
  "sftp_symlink api i linkpath targetpath s =
     (case s of (h, fs) \<Rightarrow>
      ret_err (check_write (sh_config h)) s (\<lambda>_.
      ret_err (resolve_path api fs (sh_config h) linkpath) s (\<lambda>link_resolved.
        fs_do h (fs_symlink api targetpath link_resolved fs) (RStatusOk i))))"

definition sftp_extended :: "u32 \<Rightarrow> string \<Rightarrow> u8 list \<Rightarrow> 'fs sftp_state \<Rightarrow> 'fs sftp_result" where
  "sftp_extended i request data s = (Inl NotSupported, s)"

text \<open>The request dispatcher.\<close>

datatype sftp_request =
    QOpen u32 string open_flags
  | QClose u32 string
  | QRead u32 string u64 u32
  | QWrite u32 string u64 "u8 list"
  | QLstat u32 string
  | QFstat u32 string
  | QSetstat u32 string file_attributes
  | QFsetstat u32 string file_attributes
  | QOpendir u32 string
  | QReaddir u32 string
  | QRemove u32 string
  | QMkdir u32 string file_attributes
  | QRmdir u32 string
  | QRealpath u32 string
  | QStat u32 string
  | QRename u32 string string
  | QReadlink u32 string
  | QSymlink u32 string string
  | QExtended u32 string "u8 list"

fun sftp_step :: "'fs fs_api \<Rightarrow> sftp_request \<Rightarrow> 'fs sftp_state \<Rightarrow> 'fs sftp_result" where
  "sftp_step api (QOpen i f fl) s = sftp_open api i f fl s"
| "sftp_step api (QClose i h) s = sftp_close i h s"
| "sftp_step api (QRead i h off n) s = sftp_read api i h off n s"
| "sftp_step api (QWrite i h off d) s = sftp_write api i h off d s"
| "sftp_step api (QLstat i p) s = sftp_lstat api i p s"
| "sftp_step api (QFstat i h) s = sftp_fstat api i h s"
| "sftp_step api (QSetstat i p a) s = sftp_setstat api i p a s"
| "sftp_step api (QFsetstat i h a) s = sftp_fsetstat api i h a s"
| "sftp_step api (QOpendir i p) s = sftp_opendir api i p s"
| "sftp_step api (QReaddir i h) s = sftp_readdir api i h s"
| "sftp_step api (QRemove i p) s = sftp_remove api i p s"
| "sftp_step api (QMkdir i p a) s = sftp_mkdir api i p a s"
| "sftp_step api (QRmdir i p) s = sftp_rmdir api i p s"
| "sftp_step api (QRealpath i p) s = sftp_realpath api i p s"
| "sftp_step api (QStat i p) s = sftp_stat api i p s"
| "sftp_step api (QRename i p q) s = sftp_rename api i p q s"
| "sftp_step api (QReadlink i p) s = sftp_readlink api i p s"
| "sftp_step api (QSymlink i l t) s = sftp_symlink api i l t s"
| "sftp_step api (QExtended i r d) s = sftp_extended i r d s"

definition sftp_run :: "'fs fs_api \<Rightarrow> sftp_request list \<Rightarrow> 'fs sftp_state \<Rightarrow> 'fs sftp_state" where
  "sftp_run api qs s = snd (run_ops (\<lambda>q s. ([fst (sftp_step api q s)], snd (sftp_step api q s))) qs s)"

lemma sftp_run_simps [simp]:
  "sftp_run api [] s = s"
  "sftp_run api (q # qs) s = sftp_run api qs (snd (sftp_step api q s))"
  by (simp_all add: sftp_run_def split_beta Let_def)

section \<open>Which paths are touched\<close>

text \<open>
  The file system instrumented with a log of the paths handed to the calls that open, create, change
  or remove something, each with the state the call finds. A change of permissions is logged apart:
  \<open>fsetstat\<close> makes it on the path kept with a handle, \<open>mkdir\<close> on the directory it has just made.
\<close>

datatype 'fs access = Touch 'fs path | Chmod 'fs path

definition touched :: "'fs access list \<Rightarrow> path set" where
  "touched log = {q. \<exists>fs. Touch fs q \<in> set log}"

lemma touched_simps [simp]:
  "touched [] = {}" "touched (xs @ ys) = touched xs \<union> touched ys"
  "touched (Touch fs q # xs) = insert q (touched xs)" "touched (Chmod fs q # xs) = touched xs"
  by (auto simp: touched_def)

definition note1 ::
  "('fs \<Rightarrow> 'fs access list) \<Rightarrow> ('fs \<Rightarrow> 'r \<times> 'fs) \<Rightarrow> 'fs \<times> 'fs access list \<Rightarrow> 'r \<times> 'fs \<times> 'fs access list" where
  "note1 acc f s = (case f (fst s) of (r, fs) \<Rightarrow> (r, fs, snd s @ acc (fst s)))"

definition logged :: "'fs fs_api \<Rightarrow> ('fs \<times> 'fs access list) fs_api" where
  "logged api =
     \<lparr>fs_exists = \<lambda>s. fs_exists api (fst s), fs_is_dir = \<lambda>s. fs_is_dir api (fst s),
      fs_canonicalize = \<lambda>s. fs_canonicalize api (fst s),
      fs_metadata_of = \<lambda>s. fs_metadata_of api (fst s),
      fs_symlink_metadata = \<lambda>s. fs_symlink_metadata api (fst s),
      fs_current_dir = \<lambda>s. fs_current_dir api (fst s),
      fs_read_dir = \<lambda>s. fs_read_dir api (fst s),
      fs_read_link = \<lambda>s. fs_read_link api (fst s),
      fs_open = \<lambda>opts p. note1 (\<lambda>fs. [Touch fs p]) (fs_open api opts p),
      fs_read_at = \<lambda>s. fs_read_at api (fst s), fs_seek = \<lambda>s. fs_seek api (fst s),
      fs_write_at = \<lambda>fd off d. note1 (\<lambda>fs. []) (fs_write_at api fd off d),
      fs_set_permissions = \<lambda>p m. note1 (\<lambda>fs. [Chmod fs p]) (fs_set_permissions api p m),
      fs_remove_file = \<lambda>p. note1 (\<lambda>fs. [Touch fs p]) (fs_remove_file api p),
      fs_create_dir = \<lambda>p. note1 (\<lambda>fs. [Touch fs p]) (fs_create_dir api p),
      fs_remove_dir = \<lambda>p. note1 (\<lambda>fs. [Touch fs p]) (fs_remove_dir api p),
      fs_rename = \<lambda>p q. note1 (\<lambda>fs. [Touch fs p, Touch fs q]) (fs_rename api p q),
      fs_symlink = \<lambda>t l. note1 (\<lambda>fs. [Touch fs l]) (fs_symlink api t l)\<rparr>"

lemma logged_sel [simp]:
  "fs_exists (logged api) s = fs_exists api (fst s)"
  "fs_is_dir (logged api) s = fs_is_dir api (fst s)"
  "fs_canonicalize (logged api) s = fs_canonicalize api (fst s)"
  "fs_current_dir (logged api) s = fs_current_dir api (fst s)"
  "fs_open (logged api) opts p = note1 (\<lambda>fs. [Touch fs p]) (fs_open api opts p)"
  "fs_write_at (logged api) fd off d = note1 (\<lambda>fs. []) (fs_write_at api fd off d)"
  "fs_set_permissions (logged api) p m = note1 (\<lambda>fs. [Chmod fs p]) (fs_set_permissions api p m)"
  "fs_remove_file (logged api) p = note1 (\<lambda>fs. [Touch fs p]) (fs_remove_file api p)"
  "fs_create_dir (logged api) p = note1 (\<lambda>fs. [Touch fs p]) (fs_create_dir api p)"
  "fs_remove_dir (logged api) p = note1 (\<lambda>fs. [Touch fs p]) (fs_remove_dir api p)"
  "fs_rename (logged api) p q = note1 (\<lambda>fs. [Touch fs p, Touch fs q]) (fs_rename api p q)"
  "fs_symlink (logged api) p q = note1 (\<lambda>fs. [Touch fs q]) (fs_symlink api p q)"
  by (simp_all add: logged_def)

lemma resolve_path_logged [simp]:
  "resolve_path (logged api) s config p = resolve_path api (fst s) config p"
proof -
  have "requested_path (logged api) s config p = requested_path api (fst s) config p" for p
    by (simp add: requested_path_def split: option.split)
  moreover have "canonical_path (logged api) s p = canonical_path api (fst s) p" for p
    by (simp add: canonical_path_def split: option.split)
  moreover have "canonical_root (logged api) s p = canonical_root api (fst s) p" for p
    by (simp add: canonical_root_def)
  ultimately show ?thesis by (simp add: resolve_path_def cong: option.case_cong)
qed

text \<open>
  \<open>log_in C\<close>: every logged path satisfies \<open>C\<close> in the state its call finds, except that permissions may
  also be changed on a path of an earlier entry. \<open>paths_in C\<close> adds that the path of every open file
  handle was touched.
\<close>

definition access_in :: "('fs \<Rightarrow> path \<Rightarrow> bool) \<Rightarrow> path set \<Rightarrow> 'fs access \<Rightarrow> bool" where
  "access_in C old x = (case x of Touch fs q \<Rightarrow> C fs q | Chmod fs q \<Rightarrow> C fs q \<or> q \<in> old)"

definition log_in :: "('fs \<Rightarrow> path \<Rightarrow> bool) \<Rightarrow> 'fs access list \<Rightarrow> bool" where
  "log_in C log \<longleftrightarrow> list_all (access_in C (touched log)) log"

lemma access_in_simps [simp]:
  "access_in C old (Touch fs q) = C fs q" "access_in C old (Chmod fs q) = (C fs q \<or> q \<in> old)"
  by (simp_all add: access_in_def)

lemma access_in_mono: "access_in C old x \<Longrightarrow> old \<subseteq> new \<Longrightarrow> access_in C new x"
  by (auto simp: access_in_def split: access.splits)

lemma log_in_append:
  assumes "log_in C xs" "list_all (access_in C (touched xs)) ys"
  shows "log_in C (xs @ ys)"
  using assms by (auto simp: log_in_def list_all_iff intro: access_in_mono [where old = "touched xs"])

definition paths_in ::
  "('fs \<Rightarrow> path \<Rightarrow> bool) \<Rightarrow> sftp_server_config \<Rightarrow> ('fs \<times> 'fs access list) sftp_state \<Rightarrow> bool" where
  "paths_in C config s \<longleftrightarrow>
     sh_config (fst s) = config \<and>
     hm.all_entries (\<lambda>k fh. fh_path fh \<in> touched (snd (snd s))) (sh_file_handles (fst s)) \<and>
     log_in C (snd (snd s))"

lemma paths_in_handle:
  "paths_in C config (h, s) \<Longrightarrow> hm_get (sh_file_handles h) k = Some fh \<Longrightarrow> fh_path fh \<in> touched (snd s)"
  by (simp add: paths_in_def hm.all_entries_def)

lemma paths_in_note:
  assumes "paths_in C config (h, s)" "list_all (access_in C (touched (snd s))) (acc (fst s))"
    "note1 acc f s = (r, s')"
  shows "paths_in C config (h, s')" "touched (acc (fst s)) \<subseteq> touched (snd s')"
  using assms log_in_append [of C "snd s" "acc (fst s)"]
  by (auto simp: paths_in_def note1_def hm.all_entries_def split: prod.splits)

lemma fs_do_paths:
  assumes "paths_in C config (h, s)" "list_all (access_in C (touched (snd s))) (acc (fst s))"
  shows "paths_in C config (snd (fs_do h (note1 acc f s) resp))"
proof -
  obtain r s' where n: "note1 acc f s = (r, s')" by (cases "note1 acc f s")
  show ?thesis using paths_in_note(1) [OF assms n] by (auto simp: n fs_do_def split: sum.split)
qed

lemma ret_err_paths:
  "paths_in C config s \<Longrightarrow> (\<And>a. r = Inr a \<Longrightarrow> paths_in C config (snd (f a))) \<Longrightarrow>
   paths_in C config (snd (ret_err r s f))"
  by (auto simp: ret_err_def split: sum.splits)

lemma paths_in_new_file:
  assumes "paths_in C config (h, s)" "fh_path fh \<in> touched (snd s)" "next_handle_id h = (k, h1)"
  shows "paths_in C config (h1\<lparr>sh_file_handles := hm_insert k fh (sh_file_handles h1)\<rparr>, s)"
  using assms by (auto simp: paths_in_def next_handle_id_def intro: hm.all_entries_put)

lemma paths_in_dirs:
  "paths_in C config (h\<lparr>sh_dir_handles := d\<rparr>, s) = paths_in C config (h, s)"
  "paths_in C config (h\<lparr>sh_next_handle := n\<rparr>, s) = paths_in C config (h, s)"
  "paths_in C config (h\<lparr>sh_next_handle := n, sh_dir_handles := d\<rparr>, s) = paths_in C config (h, s)"
  by (simp_all add: paths_in_def)

lemma get_handle_Inr: "get_handle m k = Inr v \<longleftrightarrow> hm_get m k = Some v"
  by (simp add: get_handle_def split: option.split)

definition resolves_in :: "('fs \<Rightarrow> path \<Rightarrow> bool) \<Rightarrow> sftp_server_config \<Rightarrow> 'fs fs_api \<Rightarrow> bool" where
  "resolves_in C config api \<longleftrightarrow> (\<forall>fs p q. resolve_path api fs config p = Inr q \<longrightarrow> C fs q)"

lemma resolves_inD: "resolves_in C config api \<Longrightarrow> resolve_path api fs config p = Inr q \<Longrightarrow> C fs q"
  by (auto simp: resolves_in_def)

lemma paths_in_config: "paths_in C config (h, s) \<Longrightarrow> sh_config h = config"
  by (simp add: paths_in_def)

lemma set_perms_paths:
  "paths_in C config (h, s) \<Longrightarrow> C (fst s) p \<or> p \<in> touched (snd s) \<Longrightarrow>
   paths_in C config (snd (set_perms (logged api) i p a (h, s)))"
  by (auto simp: set_perms_def intro!: fs_do_paths split: option.split)

lemma sftp_open_paths:
  assumes "resolves_in C config api" "paths_in C config (h, s)"
  shows "paths_in C config (snd (sftp_open (logged api) i f fl (h, s)))"
proof -
  have key: "paths_in C config (snd (case note1 (\<lambda>fs. [Touch fs path]) (fs_open api (build_options fl) path) s of
           (Inl e, fs1) \<Rightarrow> (Inl (Io e), h, fs1)
         | (Inr file, fs1) \<Rightarrow>
             (case next_handle_id h of (handle_id, h1) \<Rightarrow>
                (Inr (RHandle i handle_id),
                 h1\<lparr>sh_file_handles := hm_insert handle_id
                      \<lparr>fh_file = file, fh_path = path, fh_write_mode = is_write_open fl\<rparr>
                      (sh_file_handles h1)\<rparr>, fs1))))" if "C (fst s) path" for path
  proof -
    obtain r s1 where n: "note1 (\<lambda>fs. [Touch fs path]) (fs_open api (build_options fl) path) s = (r, s1)"
      by (cases "note1 (\<lambda>fs. [Touch fs path]) (fs_open api (build_options fl) path) s")
    then have "paths_in C config (h, s1)" "path \<in> touched (snd s1)"
      using paths_in_note [OF assms(2) _ n] that by simp_all
    then show ?thesis using paths_in_new_file [of C config h s1]
      by (auto simp: n split: sum.split prod.split)
  qed
  show ?thesis
    using assms key unfolding sftp_open_def prod.case
    by (intro ret_err_paths) (auto dest: resolves_inD paths_in_config)
qed

lemma sftp_mkdir_paths:
  assumes "resolves_in C config api" "paths_in C config (h, s)"
  shows "paths_in C config (snd (sftp_mkdir (logged api) i d a (h, s)))"
proof -
  have key: "paths_in C config (snd (case fs_create_dir (logged api) r s of
           (Inl e, fs1) \<Rightarrow> (Inl (Io e), h, fs1)
         | (Inr _, fs1) \<Rightarrow> set_perms (logged api) i r a (h, fs1)))" if "C (fst s) r" for r
  proof -
    obtain x s1 where n: "note1 (\<lambda>fs. [Touch fs r]) (fs_create_dir api r) s = (x, s1)"
      by (cases "note1 (\<lambda>fs. [Touch fs r]) (fs_create_dir api r) s")
    then have "paths_in C config (h, s1)" "r \<in> touched (snd s1)"
      using paths_in_note [OF assms(2) _ n] that by simp_all
    then show ?thesis by (auto simp: n split: sum.split intro!: set_perms_paths)
  qed
  show ?thesis
    using assms key unfolding sftp_mkdir_def prod.case
    by (intro ret_err_paths) (auto dest: resolves_inD paths_in_config)
qed

lemma sftp_step_paths:
  assumes "resolves_in C config api" "paths_in C config s"
  shows "paths_in C config (snd (sftp_step (logged api) q s))"
proof -
  obtain h fs where s: "s = (h, fs)" by (cases s)
  have p: "paths_in C config (h, fs)" and c: "sh_config h = config"
    using assms(2) s paths_in_config [of C config h fs] by auto
  have r: "resolve_path api fs' (sh_config h) p = Inr q \<Longrightarrow> C fs' q" for fs' p q
    using resolves_inD [OF assms(1)] c by blast
  show ?thesis
  proof (cases q)
    case (QOpen i f fl)
    then show ?thesis using sftp_open_paths [OF assms(1) p] s by simp
  next
    case (QClose i k)
    then show ?thesis using p
      by (auto simp: s sftp_close_def paths_in_def intro: hm.all_entries_del)
  next
    case (QWrite i k off d)
    then show ?thesis using p
      by (auto simp: s sftp_write_def intro!: ret_err_paths fs_do_paths)
  next
    case (QFsetstat i k a)
    then show ?thesis using p
      by (auto simp: s sftp_fsetstat_def get_handle_Inr intro!: ret_err_paths set_perms_paths
          dest: paths_in_handle)
  next
    case (QOpendir i d)
    then show ?thesis using p
      by (auto simp: s sftp_opendir_def next_handle_id_def paths_in_dirs intro!: ret_err_paths)
  next
    case (QReaddir i k)
    then show ?thesis using p
      by (auto simp: s sftp_readdir_def Let_def paths_in_dirs split: prod.split intro!: ret_err_paths)
  next
    case (QMkdir i d a)
    then show ?thesis using sftp_mkdir_paths [OF assms(1) p] s by simp
  next
    case (QRemove i f)
    have "paths_in C config (snd (fs_do h (fs_remove_file (logged api) q fs) (RStatusOk i)))" if "C (fst fs) q" for q
      using fs_do_paths [OF p, of "\<lambda>fs. [Touch fs q]"] that by simp
    with p r show ?thesis
      by (auto simp: s QRemove sftp_remove_def simp del: logged_sel intro!: ret_err_paths)
  next
    case (QRmdir i f)
    have "paths_in C config (snd (fs_do h (fs_remove_dir (logged api) q fs) (RStatusOk i)))" if "C (fst fs) q" for q
      using fs_do_paths [OF p, of "\<lambda>fs. [Touch fs q]"] that by simp
    with p r show ?thesis
      by (auto simp: s QRmdir sftp_rmdir_def simp del: logged_sel intro!: ret_err_paths)
  qed (use p in \<open>auto simp: s sftp_read_def sftp_lstat_def sftp_fstat_def sftp_setstat_def
      sftp_realpath_def sftp_stat_def sftp_rename_def sftp_readlink_def
      sftp_symlink_def sftp_extended_def intro!: ret_err_paths fs_do_paths set_perms_paths
      intro: r\<close>)
qed

interpretation confined: invariant_machine
    "\<lambda>q s. ([fst (sftp_step (logged api) q s)], snd (sftp_step (logged api) q s))"
    "\<lambda>s. resolves_in C config api \<and> paths_in C config s" for api C config
  by unfold_locales (simp add: sftp_step_paths)

lemma sftp_run_paths:
  "resolves_in C config api \<Longrightarrow> paths_in C config s \<Longrightarrow> paths_in C config (sftp_run (logged api) qs s)"
  unfolding sftp_run_def using confined.run_inv [of C config api s qs] by simp

lemma sftp_run_log:
  assumes "resolves_in C config api"
  shows "log_in C (snd (snd (sftp_run (logged api) qs (sftp_new da config c u, fs, []))))"
  using sftp_run_paths [OF assms, of "(sftp_new da config c u, fs, [])" qs]
  by (simp add: paths_in_def sftp_new_def hm.all_entries_def log_in_def)

section \<open>Where a path leads\<close>

text \<open>
  The directory entry a path names: its file name in the canonical form of its parent. Removing,
  renaming and making a link act on the entry. Opening, making a directory and changing permissions act on what the
  path leads to, its own canonical form when that exists, else the entry.
\<close>

definition entry_place :: "'fs fs_api \<Rightarrow> 'fs \<Rightarrow> path \<Rightarrow> path option" where
  "entry_place api fs q =
     (case path_parent q of
        None \<Rightarrow> None
      | Some d \<Rightarrow>
          (case path_file_name q of
             None \<Rightarrow> None
           | Some n \<Rightarrow>
               (case fs_canonicalize api fs d of Inl _ \<Rightarrow> None | Inr c \<Rightarrow> Some (path_join c n))))"

definition is_symlink :: "'fs fs_api \<Rightarrow> 'fs \<Rightarrow> path \<Rightarrow> bool" where
  "is_symlink api fs q = (case fs_read_link api fs q of Inl _ \<Rightarrow> False | Inr _ \<Rightarrow> True)"

definition under_root :: "'fs fs_api \<Rightarrow> path \<Rightarrow> 'fs \<Rightarrow> path \<Rightarrow> bool" where
  "under_root api root fs l \<longleftrightarrow>
     path_starts_with l (canonical_root api fs root) \<and> ParentDir \<notin> set (path_components l)"

text \<open>
  A confined path: its entry lies below the root directory, and so does what it leads to unless it
  is itself a symbolic link; it is within the allowed paths if there are any.
\<close>

definition path_confined :: "'fs fs_api \<Rightarrow> sftp_server_config \<Rightarrow> path \<Rightarrow> 'fs \<Rightarrow> path \<Rightarrow> bool" where
  "path_confined api config root fs q \<longleftrightarrow>
     (case entry_place api fs q of None \<Rightarrow> True | Some l \<Rightarrow> under_root api root fs l) \<and>
     (case fs_canonicalize api fs q of
        Inl _ \<Rightarrow> True | Inr l \<Rightarrow> is_symlink api fs q \<or> under_root api root fs l) \<and>
     (case sf_allowed_paths config of None \<Rightarrow> True | Some allowed \<Rightarrow> list_ex (path_allowed q) allowed)"

text \<open>
  What \<open>realpath\<close> promises: its result is a normal path that exists and is its own canonical form, as
  is its parent; a name in a canonical directory that is no link is canonical, and a slash after a
  canonical path adds nothing.
\<close>

definition canonicalize_laws :: "'fs fs_api \<Rightarrow> bool" where
  "canonicalize_laws api \<longleftrightarrow>
     (\<forall>fs p c. fs_canonicalize api fs p = Inr c \<longrightarrow>
        fs_exists api fs p \<and> normal_path c \<and> fs_canonicalize api fs c = Inr c) \<and>
     (\<forall>fs c d. fs_canonicalize api fs c = Inr c \<longrightarrow> path_parent c = Some d \<longrightarrow> fs_canonicalize api fs d = Inr d) \<and>
     (\<forall>fs c n l. fs_canonicalize api fs c = Inr c \<longrightarrow> plain_piece n \<longrightarrow>
        \<not> is_symlink api fs (path_join c n) \<longrightarrow> fs_canonicalize api fs (path_join c n) = Inr l \<longrightarrow> l = path_join c n) \<and>
     (\<forall>fs c l. fs_canonicalize api fs c = Inr c \<longrightarrow> fs_canonicalize api fs (path_join c []) = Inr l \<longrightarrow> l = c)"

lemma canonicalD:
  assumes "canonicalize_laws api" "fs_canonicalize api fs p = Inr c"
  shows "fs_exists api fs p" "normal_path c" "fs_canonicalize api fs c = Inr c"
  using assms unfolding canonicalize_laws_def by blast+

lemma canonical_parentD:
  assumes "canonicalize_laws api" "fs_canonicalize api fs c = Inr c" "path_parent c = Some d"
  shows "fs_canonicalize api fs d = Inr d"
  using assms unfolding canonicalize_laws_def by blast

lemma canonical_slashD:
  assumes "canonicalize_laws api" "fs_canonicalize api fs c = Inr c" "fs_canonicalize api fs (path_join c []) = Inr l"
  shows "l = c"
  using assms unfolding canonicalize_laws_def by blast

lemma canonical_nameD:
  assumes "canonicalize_laws api" "fs_canonicalize api fs c = Inr c" "plain_piece n"
    "\<not> is_symlink api fs (path_join c n)" "fs_canonicalize api fs (path_join c n) = Inr l"
  shows "l = path_join c n"
  using assms unfolding canonicalize_laws_def by blast

lemma canonical_entry:
  assumes "canonicalize_laws api" "fs_canonicalize api fs c = Inr c" "entry_place api fs c = Some l"
  shows "l = c"
proof -
  obtain d where d: "path_parent c = Some d" using assms(3) by (auto simp: entry_place_def split: option.splits)
  then obtain n where n: "path_file_name c = Some n" "c = path_join d n"
    using normal_split canonicalD(2) [OF assms(1,2)] by metis
  have "fs_canonicalize api fs d = Inr d" by (rule canonical_parentD [OF assms(1,2) d])
  with d n assms(3) show ?thesis by (simp add: entry_place_def)
qed

text \<open>
  The three ways \<open>canonical_path\<close> ends: with a canonical path, with a name in a canonical directory
  (or a slash after it, where the request ends in \<open>..\<close> and the parent is no directory), or with a path
  whose parent does not exist, so that it leads nowhere.
\<close>

lemma canonical_path_cases:
  assumes "canonicalize_laws api" "canonical_path api fs p = Inr q"
  obtains "fs_canonicalize api fs q = Inr q" "normal_path q"
  | c n where "fs_canonicalize api fs c = Inr c" "normal_path c" "plain_piece n" "q = path_join c n"
  | c where "fs_canonicalize api fs c = Inr c" "normal_path c" "q = path_join c []"
  | "\<And>l. fs_canonicalize api fs q \<noteq> Inr l" "entry_place api fs q = None"
proof (cases "fs_exists api fs p")
  case True
  then have "fs_canonicalize api fs p = Inr q" using assms(2) by (auto simp: canonical_path_def split: sum.splits)
  with assms(1) show thesis using that(1) canonicalD(2,3) by metis
next
  case False
  show thesis
  proof (cases "\<exists>d. path_parent p = Some d \<and> fs_exists api fs d")
    case True
    then obtain d where d: "path_parent p = Some d" "fs_exists api fs d" by blast
    then obtain c where c: "fs_canonicalize api fs d = Inr c"
        "q = path_join c (case path_file_name p of Some n \<Rightarrow> n | None \<Rightarrow> [])"
      using assms(2) False by (cases "fs_canonicalize api fs d") (auto simp: canonical_path_def)
    then have "fs_canonicalize api fs c = Inr c" "normal_path c" using canonicalD(2,3) [OF assms(1)] by blast+
    with c(2) show thesis using that(2,3) file_name_plain [of p] by (cases "path_file_name p") auto
  next
    case none: False
    then have "q = p" using assms(2) False by (auto simp: canonical_path_def split: option.splits)
    then have "fs_canonicalize api fs q \<noteq> Inr l" for l using False canonicalD(1) [OF assms(1)] by blast
    moreover have "path_parent q = Some d \<Longrightarrow> fs_canonicalize api fs d \<noteq> Inr l" for d l
      using none \<open>q = p\<close> canonicalD(1) [OF assms(1)] by blast
    then have "entry_place api fs q = None"
      by (cases "entry_place api fs q") (auto simp: entry_place_def split: option.splits sum.splits)
    ultimately show thesis using that(4) by blast
  qed
qed

lemma under_root_components:
  "path_starts_with q (canonical_root api fs root) \<Longrightarrow> path_components l = path_components q \<Longrightarrow> normal_path l \<Longrightarrow>
   under_root api root fs l"
  using no_parent_components [of l] by (simp add: under_root_def path_starts_with_def)

lemma canonical_path_confined:
  assumes "canonicalize_laws api" "canonical_path api fs p = Inr q"
    "path_starts_with q (canonical_root api fs root)"
  shows "(\<forall>l. entry_place api fs q = Some l \<longrightarrow> under_root api root fs l) \<and>
    (\<forall>l. fs_canonicalize api fs q = Inr l \<longrightarrow> is_symlink api fs q \<or> under_root api root fs l)"
  using assms(1,2)
proof (cases rule: canonical_path_cases)
  case 1
  then show ?thesis
    using canonical_entry [OF assms(1) 1(1)] under_root_components [OF assms(3) refl 1(2)] by (metis sum.inject(2))
next
  case (2 c n)
  have "path_parent q = Some c" "path_file_name q = Some n" "normal_path q"
    using join_parent [OF 2(2,3)] 2(4) by simp_all
  moreover from this have "entry_place api fs q = Some q" using 2(1,4) by (simp add: entry_place_def)
  ultimately show ?thesis
    using canonical_nameD [OF assms(1) 2(1,3)] 2(4) under_root_components [OF assms(3) refl] by auto
next
  case (3 c)
  have e: "entry_place api fs q = entry_place api fs c" using join_void [OF 3(2)] 3(3) by (simp add: entry_place_def cong: option.case_cong)
  have u: "under_root api root fs c"
    using join_void(1) [OF 3(2)] 3 by (intro under_root_components [OF assms(3)]) simp_all
  have "fs_canonicalize api fs q = Inr l \<Longrightarrow> l = c" for l
    using canonical_slashD [OF assms(1) 3(1)] 3(3) by simp
  with e u show ?thesis using canonical_entry [OF assms(1) 3(1)] by metis
qed simp

lemma resolves_confined:
  assumes "canonicalize_laws api" "sf_root_dir config = Some root"
  shows "resolves_in (path_confined api config root) config api"
  unfolding resolves_in_def
proof (intro allI impI)
  fix fs p q
  assume r: "resolve_path api fs config p = Inr q"
  then have "canonical_path api fs (requested_path api fs config p) = Inr q"
      "path_starts_with q (canonical_root api fs root)"
    using assms(2) by (auto simp: resolve_path_def and_then_Inr_iff split: if_splits)
  from canonical_path_confined [OF assms(1) this] r show "path_confined api config root fs q"
    by (auto simp: path_confined_def resolve_path_def and_then_Inr_iff split: if_splits option.splits sum.splits)
qed

section \<open>Read-only handlers\<close>

text \<open>Opening a file without write or append access leaves the file system as it is.\<close>

definition open_reads :: "'fs fs_api \<Rightarrow> bool" where
  "open_reads api \<longleftrightarrow>
     (\<forall>opts p fs. \<not> oo_write opts \<longrightarrow> \<not> oo_append opts \<longrightarrow> snd (fs_open api opts p fs) = fs)"

definition unchanged :: "bool \<Rightarrow> 'fs \<Rightarrow> 'fs sftp_state \<Rightarrow> bool" where
  "unchanged w fs s \<longleftrightarrow> sf_allow_write (sh_config (fst s)) = w \<and> snd s = fs"

lemma ret_err_unchanged:
  "unchanged w fs s \<Longrightarrow> (\<And>a. r = Inr a \<Longrightarrow> unchanged w fs (snd (f a))) \<Longrightarrow>
   unchanged w fs (snd (ret_err r s f))"
  by (auto simp: ret_err_def split: sum.splits)

lemma check_write_ro: "\<not> sf_allow_write c \<Longrightarrow> check_write c = Inl ReadOnly"
  by (simp add: check_write_def)

lemma ret_err_Inl [simp]: "ret_err (Inl e) s f = (Inl e, s)"
  by (simp add: ret_err_def)

lemma ret_err_Inr [simp]: "ret_err (Inr a) s f = f a"
  by (simp add: ret_err_def)

lemma unchanged_upd [simp]:
  "unchanged w fs (h\<lparr>sh_file_handles := x\<rparr>, fs') = unchanged w fs (h, fs')"
  "unchanged w fs (h\<lparr>sh_dir_handles := y\<rparr>, fs') = unchanged w fs (h, fs')"
  "unchanged w fs (h\<lparr>sh_next_handle := n\<rparr>, fs') = unchanged w fs (h, fs')"
  "unchanged w fs (h\<lparr>sh_next_handle := n, sh_file_handles := x\<rparr>, fs') = unchanged w fs (h, fs')"
  "unchanged w fs (h\<lparr>sh_next_handle := n, sh_dir_handles := y\<rparr>, fs') = unchanged w fs (h, fs')"
  by (simp_all add: unchanged_def)

lemma sftp_open_read_only:
  assumes "open_reads api" "unchanged False fs (h, fs)"
  shows "unchanged False fs (snd (sftp_open api i f fl (h, fs)))"
proof (cases "is_write_open fl")
  case True
  have "\<not> sf_allow_write (sh_config h)" using assms(2) by (simp add: unchanged_def)
  with True assms(2) show ?thesis
    by (auto simp: sftp_open_def check_write_ro intro!: ret_err_unchanged)
next
  case False
  then have "snd (fs_open api (build_options fl) p fs) = fs" for p
    using assms(1) by (simp add: open_reads_def build_options_def is_write_open_def)
  then have "unchanged False fs (snd (case fs_open api (build_options fl) p fs of
        (Inl e, fs1) \<Rightarrow> (Inl (Io e), h, fs1)
      | (Inr file, fs1) \<Rightarrow>
          (case next_handle_id h of (handle_id, h1) \<Rightarrow>
             (Inr (RHandle i handle_id),
              h1\<lparr>sh_file_handles := hm_insert handle_id
                   \<lparr>fh_file = file, fh_path = p, fh_write_mode = is_write_open fl\<rparr>
                   (sh_file_handles h1)\<rparr>, fs1))))" for p
    using assms(2)
    by (auto simp: next_handle_id_def split: prod.split sum.split) (metis snd_conv)+
  with False assms(2) show ?thesis
    by (auto simp: sftp_open_def intro!: ret_err_unchanged)
qed

lemma sftp_step_read_only:
  assumes "open_reads api" "unchanged False fs s"
  shows "unchanged False fs (snd (sftp_step api q s))"
proof -
  obtain h where s: "s = (h, fs)" using assms(2) by (cases s) (simp add: unchanged_def)
  have u: "unchanged False fs (h, fs)" and w: "\<not> sf_allow_write (sh_config h)"
    using assms(2) by (simp_all add: s unchanged_def)
  show ?thesis
  proof (cases q)
    case (QOpen i f fl)
    then show ?thesis using sftp_open_read_only [OF assms(1) u] s by simp
  qed (use u w in \<open>auto simp: s sftp_close_def sftp_read_def sftp_write_def sftp_lstat_def sftp_fstat_def
      sftp_setstat_def sftp_fsetstat_def sftp_opendir_def sftp_readdir_def sftp_remove_def sftp_mkdir_def
      sftp_rmdir_def sftp_realpath_def sftp_stat_def sftp_rename_def sftp_readlink_def sftp_symlink_def
      sftp_extended_def check_write_ro Let_def next_handle_id_def split: prod.split
      intro!: ret_err_unchanged\<close>)
qed

interpretation read_only: invariant_machine
    "\<lambda>q s. ([fst (sftp_step api q s)], snd (sftp_step api q s))"
    "\<lambda>s. open_reads api \<and> unchanged False fs s" for api fs
  by unfold_locales (simp add: sftp_step_read_only)

lemma sftp_run_read_only:
  "open_reads api \<Longrightarrow> unchanged False fs s \<Longrightarrow> unchanged False fs (sftp_run api qs s)"
  unfolding sftp_run_def using read_only.run_inv [of api fs s qs] by simp

section \<open>Handles\<close>

text \<open>
  After handing out the identifiers below \<open>n\<close>: the open handles are among them, and no identifier is
  both a file and a directory handle.
\<close>

definition handles_ok :: "nat \<Rightarrow> sftp_handler \<Rightarrow> bool" where
  "handles_ok n h \<longleftrightarrow>
     sh_next_handle h = of_nat n \<and>
     hm.all_entries (\<lambda>k _. \<exists>m < n. k = ''h'' @ show_nat m) (sh_file_handles h) \<and>
     hm.all_entries (\<lambda>k _. (\<exists>m < n. k = ''h'' @ show_nat m) \<and> hm_get (sh_file_handles h) k = None)
       (sh_dir_handles h)"

lemma handles_ok_fresh:
  assumes "handles_ok n h" "n < 2 ^ 64"
  shows "hm_get (sh_file_handles h) (handle_name (sh_next_handle h)) = None \<and>
    hm_get (sh_dir_handles h) (handle_name (sh_next_handle h)) = None"
proof -
  have name: "handle_name (sh_next_handle h) = ''h'' @ show_nat n"
    using assms by (simp add: handle_name_def handles_ok_def unat_of_nat)
  then have "hm_get (sh_file_handles h) (handle_name (sh_next_handle h)) \<noteq> Some v" for v
    using assms(1) unfolding handles_ok_def hm.all_entries_def by fastforce
  moreover have "hm_get (sh_dir_handles h) (handle_name (sh_next_handle h)) \<noteq> Some v" for v
    using assms(1) name unfolding handles_ok_def hm.all_entries_def by fastforce
  ultimately show ?thesis by (meson not_Some_eq)
qed

lemma handles_ok_new_file:
  assumes "handles_ok n h" "n < 2 ^ 64" "next_handle_id h = (k, h1)"
  shows "handles_ok (Suc n) (h1\<lparr>sh_file_handles := hm_insert k fh (sh_file_handles h1)\<rparr>)"
proof -
  have k: "k = ''h'' @ show_nat n" "h1 = h\<lparr>sh_next_handle := sh_next_handle h + 1\<rparr>"
    using assms by (auto simp: handle_name_def handles_ok_def unat_of_nat next_handle_id_def)
  then show ?thesis using assms(1)
    by (fastforce simp: handles_ok_def hm.all_entries_def less_Suc_eq)
qed

lemma handles_ok_new_dir:
  assumes "handles_ok n h" "n < 2 ^ 64" "next_handle_id h = (k, h1)"
  shows "handles_ok (Suc n) (h1\<lparr>sh_dir_handles := hm_insert k dh (sh_dir_handles h1)\<rparr>)"
proof -
  have k: "k = ''h'' @ show_nat n" "h1 = h\<lparr>sh_next_handle := sh_next_handle h + 1\<rparr>"
    "k = handle_name (sh_next_handle h)"
    using assms by (auto simp: handle_name_def handles_ok_def unat_of_nat next_handle_id_def)
  then show ?thesis using assms(1) handles_ok_fresh [OF assms(1,2)]
    by (fastforce simp: handles_ok_def hm.all_entries_def less_Suc_eq)
qed

lemma handles_ok_upd_dir:
  "handles_ok n h \<Longrightarrow> hm_get (sh_dir_handles h) k = Some d \<Longrightarrow>
   handles_ok n (h\<lparr>sh_dir_handles := hm_insert k d' (sh_dir_handles h)\<rparr>)"
  by (auto simp: handles_ok_def hm.all_entries_def)

lemma handles_ok_close:
  "handles_ok n h \<Longrightarrow> handles_ok n (fst (snd (sftp_close i k (h, fs))))"
  by (auto simp: sftp_close_def handles_ok_def hm.all_entries_def)

lemma fs_do_handler [simp]: "fst (snd (fs_do h r resp)) = h"
  by (cases r) (simp add: fs_do_def split: sum.split)

lemma set_perms_handler [simp]: "fst (snd (set_perms api i p a (h, fs))) = h"
  by (simp add: set_perms_def split: option.split)

definition handles_within :: "nat \<Rightarrow> 'fs sftp_state \<Rightarrow> bool" where
  "handles_within n s \<longleftrightarrow> (\<exists>m \<le> n. handles_ok m (fst s))"

lemma ret_err_handles:
  "handles_within n s \<Longrightarrow> (\<And>a. r = Inr a \<Longrightarrow> handles_within n (snd (f a))) \<Longrightarrow>
   handles_within n (snd (ret_err r s f))"
  by (auto simp: ret_err_def split: sum.splits)

lemma handles_within_eq: "fst s = fst s' \<Longrightarrow> handles_within n s = handles_within n s'"
  by (simp add: handles_within_def)

lemma handles_within_SucI: "handles_ok m (fst s) \<Longrightarrow> m \<le> n \<Longrightarrow> handles_within (Suc n) s"
  by (auto simp: handles_within_def intro: le_SucI)

lemma sftp_step_handles:
  assumes "handles_within n s" "n < 2 ^ 64"
  shows "handles_within (Suc n) (snd (sftp_step api q s))"
proof -
  obtain h fs where s: "s = (h, fs)" by (cases s)
  obtain m where m: "handles_ok m h" "m \<le> n" using assms(1) by (auto simp: handles_within_def s)
  have here: "handles_within (Suc n) (h, fs')" for fs' using m by (auto intro: handles_within_SucI)
  have m64: "m < 2 ^ 64" using assms(2) m(2) by simp
  have stay: "fst x = h \<Longrightarrow> handles_within (Suc n) x" for x :: "'a sftp_state"
    using here handles_within_eq by (metis fst_conv)
  have done_fs: "handles_within (Suc n) (snd (fs_do h r resp))" for r :: "(io_error + unit) \<times> 'a" and resp
    by (rule stay) simp
  show ?thesis
  proof (cases q)
    case (QOpen i f fl)
    have "handles_within (Suc n) (h1\<lparr>sh_file_handles := hm_insert k fh (sh_file_handles h1)\<rparr>, fs')"
      if "next_handle_id h = (k, h1)" for k h1 fh and fs' :: 'a
      using handles_ok_new_file [OF m(1) m64 that] m(2) by (auto simp: handles_within_def)
    then show ?thesis using here
      by (auto simp: s QOpen sftp_open_def intro!: ret_err_handles split: prod.split sum.split)
  next
    case (QOpendir i d)
    have "handles_within (Suc n) (h1\<lparr>sh_dir_handles := hm_insert k dh (sh_dir_handles h1)\<rparr>, fs')"
      if "next_handle_id h = (k, h1)" for k h1 dh and fs' :: 'a
      using handles_ok_new_dir [OF m(1) m64 that] m(2) by (auto simp: handles_within_def)
    then show ?thesis using here
      by (auto simp: s QOpendir sftp_opendir_def intro!: ret_err_handles split: prod.split)
  next
    case (QClose i k)
    then show ?thesis using handles_within_SucI [OF handles_ok_close [OF m(1)] m(2)]
      by (simp add: s)
  next
    case (QReaddir i k)
    have "handles_within (Suc n) (h\<lparr>sh_dir_handles := hm_insert k d' (sh_dir_handles h)\<rparr>, fs')"
      if "hm_get (sh_dir_handles h) k = Some d" for d d' and fs' :: 'a
      using handles_ok_upd_dir [OF m(1) that, of d'] m(2)
      unfolding handles_within_def by (auto intro: le_SucI)
    then show ?thesis using here
      by (auto simp: s QReaddir sftp_readdir_def Let_def get_handle_Inr intro!: ret_err_handles split: prod.split)
  next
    case (QMkdir i d a)
    then show ?thesis using here
      by (auto simp: s sftp_mkdir_def intro!: ret_err_handles intro: stay split: prod.split sum.split)
  qed (use here in \<open>auto simp: s sftp_read_def sftp_write_def sftp_lstat_def sftp_fstat_def sftp_setstat_def
      sftp_fsetstat_def sftp_remove_def sftp_rmdir_def sftp_realpath_def sftp_stat_def sftp_rename_def
      sftp_readlink_def sftp_symlink_def sftp_extended_def intro!: ret_err_handles done_fs intro: stay\<close>)
qed

interpretation handles: counted_machine
    "\<lambda>q s. ([fst (sftp_step api q s)], snd (sftp_step api q s))" handles_within "2 ^ 64" for api
  by unfold_locales (simp add: sftp_step_handles)

lemma sftp_run_handles:
  "handles_within n s \<Longrightarrow> n + length qs \<le> 2 ^ 64 \<Longrightarrow> handles_within (n + length qs) (sftp_run api qs s)"
  unfolding sftp_run_def by (rule handles.run_counted)

lemma handles_within_new: "handles_within 1 (sftp_new da config c u, fs)"
  by (auto simp: handles_within_def handles_ok_def sftp_new_def hm.all_entries_def intro!: exI [of _ 1])

text \<open>Only \<open>open\<close> and \<open>opendir\<close> answer with a handle, and it is the next identifier.\<close>

lemma ret_err_fst: "fst (ret_err r s f) = Inr x \<longleftrightarrow> (\<exists>a. r = Inr a \<and> fst (f a) = Inr x)"
  by (auto simp: ret_err_def split: sum.split)

lemma fs_do_fst: "fst (fs_do h r resp) = Inr x \<Longrightarrow> x = resp"
  by (cases r) (auto simp: fs_do_def split: sum.splits)

lemma sftp_write_cases:
  "snd (snd (sftp_write api i k offset data (h, fs))) = fs \<or>
   (\<exists>fh. hm_get (sh_file_handles h) k = Some fh \<and> fs_seek api fs (fh_file fh) offset = Inr () \<and>
      (\<forall>m. sf_max_file_size (sh_config h) = Some m \<longrightarrow> offset + of_nat (length data) \<le> m) \<and>
      snd (snd (sftp_write api i k offset data (h, fs))) = snd (fs_write_at api (fh_file fh) offset data fs))"
  by (auto simp: sftp_write_def ret_err_def get_handle_def lift_io_def fs_do_def not_less
      split: sum.split option.splits prod.split)

lemma step_handle_name:
  "fst (sftp_step api q (h, fs)) = Inr (RHandle i k) \<Longrightarrow> k = handle_name (sh_next_handle h)"
  apply (cases q)
  apply (auto simp: sftp_open_def sftp_close_def sftp_read_def sftp_write_def sftp_lstat_def sftp_fstat_def
      sftp_setstat_def sftp_fsetstat_def sftp_opendir_def sftp_readdir_def sftp_remove_def sftp_mkdir_def
      sftp_rmdir_def sftp_realpath_def sftp_stat_def sftp_rename_def sftp_readlink_def sftp_symlink_def
      sftp_extended_def set_perms_def ret_err_fst next_handle_id_def Let_def case_prod_beta
      dest!: fs_do_fst split: sum.splits if_splits option.splits)
  apply (metis sumE old.unit.exhaust)+
  done

lemma map_filter_app: "List.map_filter f (xs @ ys) = List.map_filter f xs @ List.map_filter f ys"
  by (induction xs) (auto split: option.splits)

section \<open>Directory listings\<close>

lemma read_entries_spec:
  "\<exists>m \<le> length es. read_entries f es pos files = (pos + m, files @ List.map_filter f (take m es)) \<and>
     (m < length es \<longrightarrow> batch_size \<le> length (snd (read_entries f es pos files)))"
proof (induction es arbitrary: pos files)
  case (Cons e es)
  show ?case
  proof (cases "length files < batch_size")
    case True
    let ?files = "case f e of Some x \<Rightarrow> files @ [x] | None \<Rightarrow> files"
    obtain m where m: "m \<le> length es"
        "read_entries f es (Suc pos) ?files = (Suc pos + m, ?files @ List.map_filter f (take m es))"
        "m < length es \<longrightarrow> batch_size \<le> length (snd (read_entries f es (Suc pos) ?files))"
      using Cons.IH [of "Suc pos" ?files] by blast
    show ?thesis
      by (rule exI [of _ "Suc m"]) (use True m in \<open>auto split: option.splits\<close>)
  qed (auto intro: exI [of _ 0])
qed simp

fun drain_dir ::
  "'fs fs_api \<Rightarrow> string \<Rightarrow> nat \<Rightarrow> 'fs sftp_state \<Rightarrow> (string \<times> file_attributes) list \<times> sftp_error option" where
  "drain_dir api k 0 s = ([], None)"
| "drain_dir api k (Suc n) s =
     (case sftp_readdir api 0 k s of
        (Inr (RName _ files), s') \<Rightarrow>
          (case drain_dir api k n s' of (rest, e) \<Rightarrow> (files @ rest, e))
      | (Inr _, s') \<Rightarrow> ([], None)
      | (Inl e, s') \<Rightarrow> ([], Some e))"

definition dir_content :: "'fs fs_api \<Rightarrow> 'fs \<Rightarrow> file_attributes \<Rightarrow> dir_handle \<Rightarrow> (string \<times> file_attributes) list" where
  "dir_content api fs da dh =
     (if dh_position dh = 0 then dot_entries api fs da (dh_path dh) else [])
     @ List.map_filter (entry_attrs api fs da (dh_path dh)) (drop (dh_position dh) (dh_entries dh))"

lemma dot_entries_length: "length (dot_entries api fs da p) \<le> 2"
  by (auto simp: dot_entries_def split: sum.split option.split)

lemma read_batch_spec:
  assumes "read_batch api fs da dh = (files, dh1)" "\<not> dh_read_complete dh" "dh_position dh \<le> length (dh_entries dh)"
  obtains "dh_read_complete dh1" "files = dir_content api fs da dh"
  | "\<not> dh_read_complete dh1" "files \<noteq> []" "dir_content api fs da dh = files @ dir_content api fs da dh1"
    "dh_position dh < dh_position dh1" "dh_position dh1 \<le> length (dh_entries dh1)"
    "dh_entries dh1 = dh_entries dh"
proof -
  let ?dots = "if dh_position dh = 0 then dot_entries api fs da (dh_path dh) else []"
  let ?f = "entry_attrs api fs da (dh_path dh)"
  let ?es = "drop (dh_position dh) (dh_entries dh)"
  obtain m where m: "m \<le> length ?es"
      "read_entries ?f ?es (dh_position dh) ?dots =
         (dh_position dh + m, ?dots @ List.map_filter ?f (take m ?es))"
      "m < length ?es \<longrightarrow> batch_size \<le> length (snd (read_entries ?f ?es (dh_position dh) ?dots))"
    using read_entries_spec by meson
  have files: "files = ?dots @ List.map_filter ?f (take m ?es)"
    and dh1: "dh_position dh1 = dh_position dh + m" "dh_path dh1 = dh_path dh" "dh_entries dh1 = dh_entries dh"
      "dh_read_complete dh1 \<longleftrightarrow> length (dh_entries dh) \<le> dh_position dh + m"
    using assms(1,2) m(2) by (auto simp: read_batch_def Let_def split: if_splits)
  have parts: "List.map_filter ?f ?es = List.map_filter ?f (take m ?es) @ List.map_filter ?f (drop m ?es)"
    by (metis append_take_drop_id map_filter_app)
  show thesis
  proof (cases "m = length ?es")
    case True
    then show thesis using that(1) files dh1 assms(3) by (simp add: dir_content_def)
  next
    case False
    then have "batch_size \<le> length files" using m files by simp
    moreover have "length ?dots \<le> 2" using dot_entries_length by auto
    moreover have "m = 0 \<Longrightarrow> files = ?dots" using files by simp
    ultimately have "0 < m" "files \<noteq> []" by (auto simp: batch_size_def intro: Nat.gr0I)
    moreover have "dh_position dh + m < length (dh_entries dh)" using False m(1) assms(3) by simp
    moreover have "dir_content api fs da dh = files @ dir_content api fs da dh1"
      using parts files dh1 \<open>0 < m\<close> by (simp add: dir_content_def add.commute)
    ultimately show thesis using that(2) dh1 by simp
  qed
qed

lemma drain_complete:
  assumes "sf_allow_read (sh_config h)" "hm_get (sh_dir_handles h) k = Some dh" "dh_read_complete dh" "0 < n"
  shows "drain_dir api k n (h, fs) = ([], Some Eof)"
  using assms by (cases n) (simp_all add: sftp_readdir_def check_read_def get_handle_def)

lemma drain_dir_content:
  assumes "sf_allow_read (sh_config h)" "hm_get (sh_dir_handles h) k = Some dh" "\<not> dh_read_complete dh"
    "dh_position dh \<le> length (dh_entries dh)" "length (dh_entries dh) - dh_position dh + 2 \<le> n"
  shows "drain_dir api k n (h, fs) = (dir_content api fs (sh_default_attrs h) dh, Some Eof)"
  using assms
proof (induction n arbitrary: h dh)
  case (Suc n)
  obtain files dh1 where b: "read_batch api fs (sh_default_attrs h) dh = (files, dh1)"
    by (cases "read_batch api fs (sh_default_attrs h) dh")
  let ?h = "h\<lparr>sh_dir_handles := hm_insert k dh1 (sh_dir_handles h)\<rparr>"
  have r: "sftp_readdir api 0 k (h, fs) =
      (if files = [] then (Inl Eof, ?h, fs) else (Inr (RName 0 files), ?h, fs))"
    using Suc.prems b by (simp add: sftp_readdir_def check_read_def get_handle_def Let_def)
  from b Suc.prems(3,4) show ?case
  proof (cases rule: read_batch_spec)
    case 1
    have "drain_dir api k n (?h, fs) = ([], Some Eof)"
      by (rule drain_complete [of _ _ dh1]) (use Suc.prems 1 in auto)
    then show ?thesis using 1 r by simp
  next
    case 2
    have "drain_dir api k n (?h, fs) = (dir_content api fs (sh_default_attrs ?h) dh1, Some Eof)"
      by (rule Suc.IH) (use Suc.prems 2 in auto)
    then show ?thesis using 2 r by simp
  qed
qed simp

section \<open>Properties\<close>

text \<open>
  C12. Confinement. With a root directory, over a file system whose \<open>canonicalize\<close> behaves as \<open>realpath\<close>:
  for every path the handler passes to a call that opens, creates, changes or removes something, in any
  sequence of requests, the directory entry it names and the file or directory it leads to lie below
  the canonical root directory of that moment, symbolic links and \<open>..\<close> resolved, and the path is
  within the allowed paths if there are any. Two cases are left out, and the handler does escape there
  (\<open>sftp_dangling_symlink_escapes\<close>, \<open>sftp_trailing_slash_escapes\<close>, \<open>sftp_fsetstat_escapes\<close>): what a path
  leads to that is itself a symbolic link, and a change of permissions on a path an earlier call used.
\<close>

theorem sftp_paths_confined:
  assumes "canonicalize_laws api" and "sf_root_dir config = Some root"
  shows "log_in (path_confined api config root)
           (snd (snd (sftp_run (logged api) qs (sftp_new da config c u, fs, []))))"
  by (rule sftp_run_log [OF resolves_confined [OF assms]])

text \<open>
  A read-only handler (as built for a policy action with \<open>read_only\<close>) never changes the file
  system, whatever requests it serves, given that opening without write or append access changes
  nothing.
\<close>

theorem sftp_read_only_safe:
  assumes "act_read_only action"
    and "\<And>opts p fs. \<not> oo_write opts \<Longrightarrow> \<not> oo_append opts \<Longrightarrow> snd (fs_open api opts p fs) = fs"
  shows "snd (sftp_run api qs (sftp_new da (sftp_from_action action) c u, fs)) = fs"
proof -
  have "open_reads api" using assms(2) by (simp add: open_reads_def)
  then have "unchanged False fs s \<Longrightarrow> unchanged False fs (sftp_run api qs s)" for s
    by (rule sftp_run_read_only)
  from this [of "(sftp_new da (sftp_from_action action) c u, fs)"] assms(1) show ?thesis
    by (simp add: unchanged_def sftp_new_def sftp_from_action_def)
qed

text \<open>
  Handles are never confused: in fewer than \<open>2 ^ 64 - 1\<close> requests, the handle an \<open>open\<close> or
  \<open>opendir\<close> answers with is in use neither for a file nor for a directory, and no handle is ever both.
\<close>

theorem sftp_handles_fresh:
  assumes "1 + length qs < 2 ^ 64"
    and "fst (sftp_step api q (sftp_run api qs (sftp_new da config c u, fs))) = Inr (RHandle i k)"
  shows "hm_get (sh_file_handles (fst (sftp_run api qs (sftp_new da config c u, fs)))) k = None \<and>
    hm_get (sh_dir_handles (fst (sftp_run api qs (sftp_new da config c u, fs)))) k = None \<and>
    (hm_get (sh_dir_handles (fst (sftp_run api qs (sftp_new da config c u, fs)))) k' = None \<or>
     hm_get (sh_file_handles (fst (sftp_run api qs (sftp_new da config c u, fs)))) k' = None)"
proof -
  let ?s = "sftp_run api qs (sftp_new da config c u, fs)"
  have "handles_within (1 + length qs) ?s"
    using assms(1) by (intro sftp_run_handles handles_within_new) simp
  then obtain m where m: "handles_ok m (fst ?s)" "m < 2 ^ 64"
    using assms(1) by (auto simp: handles_within_def)
  have "k = handle_name (sh_next_handle (fst ?s))"
    using assms(2) step_handle_name [of api q "fst ?s" "snd ?s"] by simp
  moreover have "hm_get (sh_dir_handles (fst ?s)) k' = None \<or> hm_get (sh_file_handles (fst ?s)) k' = None"
    using m(1) by (auto simp: handles_ok_def hm.all_entries_def)
  ultimately show ?thesis using handles_ok_fresh [OF m] by simp
qed

text \<open>
  Listing a directory by repeated \<open>readdir\<close> ends with \<open>Eof\<close> and returns, over all batches, the dot
  entries and every entry read at \<open>opendir\<close> whose metadata is available, each once and in order.
\<close>

theorem readdir_complete:
  assumes "sf_allow_read (sh_config h)"
    and "hm_get (sh_dir_handles h) k =
      Some \<lparr>dh_path = p, dh_entries = es, dh_position = 0, dh_read_complete = False\<rparr>"
    and "length es + 2 \<le> n"
  shows "drain_dir api k n (h, fs) =
    (dot_entries api fs (sh_default_attrs h) p
       @ List.map_filter (entry_attrs api fs (sh_default_attrs h) p) es, Some Eof)"
  using drain_dir_content [OF assms(1,2), of n api fs] assms(3) by (simp add: dir_content_def)

text \<open>
  C17. The size limit holds except for appending. A write request leaves the file behind its handle, whether it succeeds,
  fails or is refused, no longer than it was or than the limit, although the sum of the check is computed in 64
  bits: where it would wrap, the offset is at least \<open>2 ^ 63\<close> and the operating system refuses to seek
  there. On a handle opened for appending the offset says nothing about where the data goes, and the
  file may grow by the data. \<open>len\<close> and \<open>app\<close> stand for the length and the append mode of an open file.
\<close>

theorem sftp_write_within_limit:
  assumes "sf_max_file_size (sh_config h) = Some max_size"
    and "hm_get (sh_file_handles h) k = Some fh"
    and "\<And>fs fd off. 2 ^ 63 \<le> unat off \<Longrightarrow> \<exists>e. fs_seek api fs fd off = Inl e"
    and "\<And>fs fd off d. len (snd (fs_write_at api fd off d fs)) fd
      \<le> (if app fs fd then len fs fd + length d else max (len fs fd) (unat off + length d))"
    and "length data < 2 ^ 63"
  shows "len (snd (snd (sftp_write api i k offset data (h, fs)))) (fh_file fh)
    \<le> (if app fs (fh_file fh) then len fs (fh_file fh) + length data else max (len fs (fh_file fh)) (unat max_size))"
proof (cases "snd (snd (sftp_write api i k offset data (h, fs))) = fs")
  case False
  then have le: "offset + of_nat (length data) \<le> max_size" and seek: "fs_seek api fs (fh_file fh) offset = Inr ()"
    and w: "snd (snd (sftp_write api i k offset data (h, fs))) = snd (fs_write_at api (fh_file fh) offset data fs)"
    using sftp_write_cases [of api i k offset data h fs] assms(1,2) by auto
  have "unat offset < 2 ^ 63" using assms(3) [of offset fs "fh_file fh"] seek by (metis Inl_Inr_False not_le)
  then have "unat (offset + of_nat (length data)) = unat offset + length data"
    using assms(5) by (simp add: unat_word_ariths unat_of_nat)
  then have "unat offset + length data \<le> unat max_size" using le by (simp add: word_le_nat_alt)
  then show ?thesis using assms(4) [of "fh_file fh" offset data fs] w by (auto split: if_splits)
qed simp

text \<open>
  Appending passes any limit. On a handle opened for appending, every request to write at offset 0 no
  more than the limit succeeds, and the file grows by the data of each.
\<close>

theorem sftp_append_exceeds_limit:
  assumes "sf_max_file_size (sh_config h) = Some max_size" and "sf_allow_write (sh_config h)"
    and "hm_get (sh_file_handles h) k = Some fh" and "fh_write_mode fh"
    and "of_nat (length data) \<le> max_size"
    and "\<And>fs. fs_seek api fs (fh_file fh) 0 = Inr ()"
    and "\<And>fs. fst (fs_write_at api (fh_file fh) 0 data fs) = Inr ()
      \<and> len (snd (fs_write_at api (fh_file fh) 0 data fs)) = len fs + length data"
  shows "len (snd (sftp_run api (replicate n (QWrite i k 0 data)) (h, fs))) = len fs + n * length data"
proof (induction n arbitrary: fs)
  case (Suc n)
  obtain fs' where w: "fs_write_at api (fh_file fh) 0 data fs = (Inr (), fs')" "len fs' = len fs + length data"
    using assms(7) [of fs] by (cases "fs_write_at api (fh_file fh) 0 data fs") auto
  moreover have "\<not> max_size < of_nat (length data)" using assms(5) by simp
  ultimately have "snd (sftp_write api i k 0 data (h, fs)) = (h, fs')"
    using assms by (simp add: sftp_write_def check_write_def get_handle_def lift_io_def fs_do_def)
  with Suc.IH [of fs'] \<open>len fs' = len fs + length data\<close> show ?case by simp
qed simp

text \<open>
  A pattern \<open>dir/*\<close> of the allowed paths admits every path that continues the text of \<open>dir\<close>, the
  siblings \<open>dir2\<close> included.
\<close>

theorem star_pattern_admits_siblings:
  "path_allowed (dir @ x) (dir @ ''/*'')"
  by (auto simp: path_allowed_def ends_with_iff)

section \<open>A file system in memory\<close>

text \<open>
  Directories, files and symbolic links under normal absolute paths; a link has an absolute target that
  is no link. A path is walked piece by piece from the root, each name followed if it is a link. The
  tables are used only when they are consistent: each directory and file is reached by its own name and
  lies in a directory. Opening with the create option follows a link that leads nowhere, as Unix does.
\<close>

record mem_fs =
  mf_dirs :: "path list"
  mf_files :: "(path, u8 list) hmap"
  mf_links :: "(path, path) hmap"

definition mf_node :: "mem_fs \<Rightarrow> path \<Rightarrow> bool" where
  "mf_node m p \<longleftrightarrow> List.member (mf_dirs m) p \<or> hm_contains (mf_files m) p"

definition mf_follow :: "mem_fs \<Rightarrow> path \<Rightarrow> path" where
  "mf_follow m p = (case hm_get (mf_links m) p of Some t \<Rightarrow> t | None \<Rightarrow> p)"

fun mf_walk :: "mem_fs \<Rightarrow> path \<Rightarrow> string list \<Rightarrow> path option" where
  "mf_walk m cur [] = Some cur"
| "mf_walk m cur (x # xs) =
     (if \<not> List.member (mf_dirs m) cur then None
      else if void_piece x then mf_walk m cur xs
      else if x = ''..'' then mf_walk m (case path_parent cur of Some d \<Rightarrow> d | None \<Rightarrow> cur) xs
      else if mf_node m (mf_follow m (path_join cur x)) then mf_walk m (mf_follow m (path_join cur x)) xs
      else None)"

definition mf_good :: "mem_fs \<Rightarrow> path \<Rightarrow> bool" where
  "mf_good m c \<longleftrightarrow> normal_path c \<and> mf_walk m ''/'' (normal_pieces c) = Some c
     \<and> (case path_parent c of None \<Rightarrow> True | Some d \<Rightarrow> List.member (mf_dirs m) d)"

definition mf_consistent :: "mem_fs \<Rightarrow> bool" where
  "mf_consistent m \<longleftrightarrow> List.member (mf_dirs m) ''/'' \<and> list_all (mf_good m) (mf_dirs m) \<and> list_all (mf_good m) (hm_keys (mf_files m))"

definition mf_canonicalize :: "mem_fs \<Rightarrow> path \<Rightarrow> io_error + path" where
  "mf_canonicalize m p =
     (if mf_consistent m \<and> is_absolute p then
        (case mf_walk m ''/'' (split_on slash (tl p)) of
           Some c \<Rightarrow> if mf_node m c then Inr c else Inl NotFound
         | None \<Rightarrow> Inl NotFound)
      else Inl NotFound)"

definition mf_exists :: "mem_fs \<Rightarrow> path \<Rightarrow> bool" where
  "mf_exists m p = (case mf_canonicalize m p of Inl _ \<Rightarrow> False | Inr _ \<Rightarrow> True)"

definition mf_is_dir :: "mem_fs \<Rightarrow> path \<Rightarrow> bool" where
  "mf_is_dir m p = (case mf_canonicalize m p of Inl _ \<Rightarrow> False | Inr c \<Rightarrow> List.member (mf_dirs m) c)"

definition mf_open :: "open_options \<Rightarrow> path \<Rightarrow> mem_fs \<Rightarrow> (io_error + nat) \<times> mem_fs" where
  "mf_open opts p m =
     (case mf_canonicalize m p of
        Inr c \<Rightarrow> if hm_contains (mf_files m) c then (Inr 3, m) else (Inl IoOther, m)
      | Inl e \<Rightarrow>
          if oo_create opts \<and> (oo_write opts \<or> oo_append opts)
          then (Inr 3, m\<lparr>mf_files := hm_insert (mf_follow m p) [] (mf_files m)\<rparr>)
          else (Inl e, m))"

definition mf_meta :: "mem_fs \<Rightarrow> path \<Rightarrow> io_error + fs_metadata" where
  "mf_meta m p =
     (if mf_exists m p then Inr \<lparr>md_len = 0, md_mode = 493, md_uid = 0, md_gid = 0, md_modified = None, md_accessed = None\<rparr>
      else Inl NotFound)"

definition mem_api :: "mem_fs fs_api" where
  "mem_api =
     \<lparr>fs_exists = mf_exists, fs_is_dir = mf_is_dir, fs_canonicalize = mf_canonicalize,
      fs_metadata_of = mf_meta,
      fs_symlink_metadata = \<lambda>m p. (if hm_contains (mf_links m) p
        then Inr \<lparr>md_len = 0, md_mode = 41471, md_uid = 0, md_gid = 0, md_modified = None, md_accessed = None\<rparr>
        else mf_meta m p),
      fs_current_dir = \<lambda>m. Some ''/'',
      fs_read_dir = \<lambda>m p. Inl IoOther,
      fs_read_link = \<lambda>m p. (case hm_get (mf_links m) p of Some t \<Rightarrow> Inr t | None \<Rightarrow> Inl IoOther),
      fs_open = mf_open, fs_read_at = \<lambda>m fd off n. Inr [],
      fs_seek = \<lambda>m fd off. if 2 ^ 63 \<le> unat off then Inl IoOther else Inr (),
      fs_write_at = \<lambda>fd off d m. (Inr (), m), fs_set_permissions = \<lambda>p perm m. (Inr (), m),
      fs_remove_file = \<lambda>p m. (Inr (), m\<lparr>mf_files := hm_remove p (mf_files m), mf_links := hm_remove p (mf_links m)\<rparr>),
      fs_create_dir = \<lambda>p m. (if mf_exists m p then (Inl AlreadyExists, m) else (Inr (), m\<lparr>mf_dirs := p # mf_dirs m\<rparr>)),
      fs_remove_dir = \<lambda>p m. (Inr (), m\<lparr>mf_dirs := removeAll p (mf_dirs m)\<rparr>),
      fs_rename = \<lambda>p q m. (Inl IoOther, m),
      fs_symlink = \<lambda>t l m. (Inr (), m\<lparr>mf_links := hm_insert l t (mf_links m)\<rparr>)\<rparr>"

lemma mf_walk_append:
  "mf_walk m cur (xs @ ys) = (case mf_walk m cur xs of Some c \<Rightarrow> mf_walk m c ys | None \<Rightarrow> None)"
  by (induction m cur xs rule: mf_walk.induct) simp_all

lemma mf_canonicalize_Inr:
  "mf_canonicalize m p = Inr c \<longleftrightarrow>
     mf_consistent m \<and> is_absolute p \<and> mf_walk m ''/'' (split_on slash (tl p)) = Some c \<and> mf_node m c"
  by (auto simp: mf_canonicalize_def split: option.splits)

lemma mf_good_node: "mf_consistent m \<Longrightarrow> mf_node m c \<Longrightarrow> mf_good m c"
  by (auto simp: mf_consistent_def mf_node_def list_all_iff hm_contains_def hm_keys_get)

text \<open>Its \<open>canonicalize\<close> obeys the laws of \<open>realpath\<close>.\<close>

lemma mf_walk_below:
  assumes "mf_consistent m" "mf_node m c" "slash \<notin> set n"
  shows "mf_walk m ''/'' (split_on slash (tl (path_join c n))) = mf_walk m c [n]"
proof -
  have g: "normal_path c" "mf_walk m ''/'' (normal_pieces c) = Some c"
    using mf_good_node [OF assms(1,2)] by (simp_all add: mf_good_def)
  have "split_on slash (tl (path_join c n)) = normal_pieces c @ [n]"
    using join_body [OF g(1) assms(3)] by (simp add: body_pieces_def)
  with g(2) show ?thesis by (simp add: mf_walk_append)
qed

lemma mf_canonical_node:
  assumes "mf_consistent m" "mf_node m c"
  shows "mf_canonicalize m c = Inr c" "normal_path c"
proof -
  have g: "normal_path c" "mf_walk m ''/'' (normal_pieces c) = Some c"
    using mf_good_node [OF assms] by (simp_all add: mf_good_def)
  then have "mf_walk m ''/'' (split_on slash (tl c)) = Some c"
    using assms(1) by (cases rule: normal_pathE [OF g(1)]) (simp_all add: slash_text mf_consistent_def void_piece_def)
  with g assms show "mf_canonicalize m c = Inr c" "normal_path c" by (simp_all add: mf_canonicalize_Inr)
qed

lemma mem_api_laws: "canonicalize_laws mem_api"
  unfolding canonicalize_laws_def
proof (intro conjI allI impI)
  fix m p c
  assume "fs_canonicalize mem_api m p = Inr c"
  then have c: "mf_canonicalize m p = Inr c" "mf_consistent m" "mf_node m c"
    by (simp_all add: mem_api_def mf_canonicalize_Inr)
  show "fs_exists mem_api m p" using c(1) by (simp add: mem_api_def mf_exists_def)
  show "normal_path c" "fs_canonicalize mem_api m c = Inr c"
    using mf_canonical_node [OF c(2,3)] by (simp_all add: mem_api_def)
next
  fix m c d
  assume "fs_canonicalize mem_api m c = Inr c" "path_parent c = Some d"
  then have "mf_consistent m" "mf_good m c" "path_parent c = Some d"
    using mf_good_node by (auto simp: mem_api_def mf_canonicalize_Inr)
  then show "fs_canonicalize mem_api m d = Inr d"
    using mf_canonical_node(1) [of m d] by (simp add: mf_good_def mf_node_def mem_api_def)
next
  fix m c n l
  assume a: "fs_canonicalize mem_api m c = Inr c" "plain_piece n" "\<not> is_symlink mem_api m (path_join c n)"
    "fs_canonicalize mem_api m (path_join c n) = Inr l"
  have "hm_get (mf_links m) (path_join c n) = None"
    using a(3) by (simp add: is_symlink_def mem_api_def split: option.splits)
  then have "mf_follow m (path_join c n) = path_join c n" by (simp add: mf_follow_def)
  moreover have "mf_walk m c [n] = Some l"
    using a(1,2,4) mf_walk_below [of m c n] by (simp add: mem_api_def mf_canonicalize_Inr plain_piece_def)
  ultimately show "l = path_join c n" using a(2) by (simp add: plain_piece_def split: if_splits)
next
  fix m c l
  assume "fs_canonicalize mem_api m c = Inr c" "fs_canonicalize mem_api m (path_join c []) = Inr l"
  then have "mf_walk m c [[]] = Some l"
    using mf_walk_below [of m c "[]"] by (simp add: mem_api_def mf_canonicalize_Inr)
  then show "l = c" by (simp add: void_piece_def split: if_splits)
qed

definition no_attrs :: file_attributes where
  "no_attrs = \<lparr>fa_size = None, fa_uid = None, fa_gid = None, fa_permissions = None, fa_atime = None, fa_mtime = None\<rparr>"

definition srv_config :: sftp_server_config where
  "srv_config = SftpServerConfig_default\<lparr>sf_root_dir := Some ''/srv''\<rparr>"

definition srv_state :: "mem_fs sftp_state" where
  "srv_state = (sftp_new no_attrs srv_config ''c'' ''u'',
     \<lparr>mf_dirs = [''/'', ''/srv'', ''/etc''], mf_files = [(''/etc/x'', [])], mf_links = []\<rparr>)"

definition create_flags :: open_flags where
  "create_flags = \<lparr>of_read = False, of_write = True, of_append = False, of_create = True, of_truncate = False, of_exclude = False\<rparr>"

definition read_flags :: open_flags where
  "read_flags = \<lparr>of_read = True, of_write = False, of_append = False, of_create = False, of_truncate = False, of_exclude = False\<rparr>"

lemma srv_config_sel [simp]:
  "sf_root_dir srv_config = Some ''/srv''" "sf_allow_write srv_config" "sf_allow_read srv_config"
  "sf_max_file_size srv_config = None" "sf_allowed_paths srv_config = None"
  by (simp_all add: srv_config_def SftpServerConfig_default_def)

lemma create_flags_sel [simp]:
  "is_write_open create_flags" "\<not> of_read create_flags" "\<not> is_write_open read_flags" "of_read read_flags"
  by (simp_all add: create_flags_def read_flags_def is_write_open_def)

lemma mem_api_sel [simp]:
  "fs_open mem_api = mf_open" "fs_exists mem_api = mf_exists" "fs_canonicalize mem_api = mf_canonicalize"
  "fs_is_dir mem_api = mf_is_dir" "fs_set_permissions mem_api p perm m = (Inr (), m)"
  "fs_remove_file mem_api p m = (Inr (), m\<lparr>mf_files := hm_remove p (mf_files m), mf_links := hm_remove p (mf_links m)\<rparr>)"
  "fs_create_dir mem_api p m = (if mf_exists m p then (Inl AlreadyExists, m) else (Inr (), m\<lparr>mf_dirs := p # mf_dirs m\<rparr>))"
  "fs_symlink mem_api t l m = (Inr (), m\<lparr>mf_links := hm_insert l t (mf_links m)\<rparr>)"
  by (simp_all add: mem_api_def)

lemma sftp_new_sel [simp]:
  "sh_config (sftp_new da config c u) = config" "sh_file_handles (sftp_new da config c u) = []"
  by (simp_all add: sftp_new_def)

text \<open>Evaluation on concrete paths.\<close>

lemmas path_eval = path_join_def is_absolute_def starts_with_def ends_with_def path_parent_def
  path_file_name_def body_pieces_def trim_pieces_right_def void_piece_def slash_def path_starts_with_def
  path_components_def to_component_def plain_piece_def normal_path_def normal_pieces_def

lemmas mem_eval = mf_canonicalize_def mf_consistent_def mf_good_def mf_node_def mf_exists_def
  mf_is_dir_def mf_follow_def hm_contains_def hm_get_def hm_keys_def hm_insert_def hm_remove_def List.member_iff path_eval

lemmas resolve_eval = resolve_path_def canonical_path_def canonical_root_def requested_path_def mem_eval

text \<open>The memory after the client has made a link to a file outside the root directory.\<close>

definition srv_linked :: mem_fs where
  "srv_linked = \<lparr>mf_dirs = [''/'', ''/srv'', ''/etc''], mf_files = [(''/etc/x'', [])], mf_links = [(''/srv/l'', ''/etc/x'')]\<rparr>"

definition srv_dangling :: mem_fs where
  "srv_dangling = \<lparr>mf_dirs = [''/'', ''/srv'', ''/etc''], mf_files = [(''/etc/x'', [])], mf_links = [(''/srv/l'', ''/etc/new'')]\<rparr>"

lemma srv_resolves:
  "resolve_path mem_api (snd srv_state) srv_config ''l'' = Inr ''/srv/l''"
  "resolve_path mem_api srv_dangling srv_config ''l'' = Inr ''/srv/l''"
  "resolve_path mem_api srv_linked srv_config ''l'' = Inl PathEscape"
  "resolve_path mem_api srv_linked srv_config ''l/'' = Inr ''/srv/l''"
  "mf_canonicalize srv_linked ''/srv/l'' = Inr ''/etc/x''"
  "mf_canonicalize srv_dangling ''/srv/l'' = Inl NotFound"
  "mf_canonicalize (snd srv_state) ''/srv/l'' = Inl NotFound"
  by (simp_all add: srv_state_def srv_linked_def srv_dangling_def resolve_eval)


lemma srv_links:
  "hm_insert ''/srv/l'' ''/etc/new'' [] = [(''/srv/l'', ''/etc/new'')]"
  "hm_insert ''/srv/l'' ''/etc/x'' [] = [(''/srv/l'', ''/etc/x'')]"
  by (simp_all add: hm_insert_def)

lemma srv_symlink:
  "sftp_symlink mem_api i ''l'' ''/etc/new'' srv_state = (Inr (RStatusOk i), fst srv_state, srv_dangling)"
  "sftp_symlink mem_api i ''l'' ''/etc/x'' srv_state = (Inr (RStatusOk i), fst srv_state, srv_linked)"
proof -
  have r: "resolve_path mem_api m srv_config ''l'' = Inr ''/srv/l''" if "m = snd srv_state" for m
    using srv_resolves(1) that by simp
  show "sftp_symlink mem_api i ''l'' ''/etc/new'' srv_state = (Inr (RStatusOk i), fst srv_state, srv_dangling)"
    "sftp_symlink mem_api i ''l'' ''/etc/x'' srv_state = (Inr (RStatusOk i), fst srv_state, srv_linked)"
    unfolding sftp_symlink_def using r
    by (simp_all add: srv_state_def fs_do_def check_write_def srv_links srv_linked_def srv_dangling_def)
qed

lemma open_created:
  assumes "resolve_path mem_api m (sh_config h) f = Inr p" "mf_canonicalize m p = Inl e"
    "sf_allow_write (sh_config h)" "sf_max_file_size (sh_config h) = None"
  shows "sftp_open mem_api i f create_flags (h, m) =
    (Inr (RHandle i (handle_name (sh_next_handle h))),
     h\<lparr>sh_next_handle := sh_next_handle h + 1,
       sh_file_handles := hm_insert (handle_name (sh_next_handle h))
         \<lparr>fh_file = 3, fh_path = p, fh_write_mode = True\<rparr> (sh_file_handles h)\<rparr>,
     m\<lparr>mf_files := hm_insert (mf_follow m p) [] (mf_files m)\<rparr>)"
  using assms
  by (simp add: sftp_open_def check_write_def too_large_def next_handle_id_def mf_open_def build_options_def)
    (simp add: create_flags_def)

text \<open>
  A link inside the root that points to a file outside which does
  not exist yet passes the check as itself, so a client can make the link and then open it for
  writing, and the file outside the root directory is created.
\<close>

theorem sftp_dangling_symlink_escapes:
  "hm_get (mf_files (snd (sftp_run mem_api
     [QSymlink 1 ''l'' ''/etc/new'', QOpen 2 ''l'' create_flags] srv_state))) ''/etc/new'' = Some []"
proof -
  have f: "mf_follow srv_dangling ''/srv/l'' = ''/etc/new''" by (simp add: srv_dangling_def mem_eval)
  have "snd (snd (sftp_open mem_api 2 ''l'' create_flags (fst srv_state, srv_dangling))) =
      srv_dangling\<lparr>mf_files := hm_insert ''/etc/new'' [] (mf_files srv_dangling)\<rparr>"
    using open_created [of srv_dangling "fst srv_state" "''l''" "''/srv/l''"] srv_resolves(2,6)
    by (simp add: srv_state_def f)
  then show ?thesis by (simp add: srv_symlink)
qed


lemma open_reading:
  assumes "resolve_path mem_api m (sh_config h) f = Inr p" "mf_canonicalize m p = Inr c"
    "hm_contains (mf_files m) c" "sf_allow_read (sh_config h)"
  shows "sftp_open mem_api i f read_flags (h, m) =
    (Inr (RHandle i (handle_name (sh_next_handle h))),
     h\<lparr>sh_next_handle := sh_next_handle h + 1,
       sh_file_handles := hm_insert (handle_name (sh_next_handle h))
         \<lparr>fh_file = 3, fh_path = p, fh_write_mode = False\<rparr> (sh_file_handles h)\<rparr>, m)"
  using assms by (simp add: sftp_open_def check_read_def next_handle_id_def mf_open_def)

text \<open>
  A link to an existing file outside the root is refused by its name. With a slash after the name the
  path does not exist for the operating system, since a file is no directory, so only its parent is
  resolved and the link is opened by its own name, without the slash: the file outside is open.
\<close>

theorem sftp_trailing_slash_escapes:
  "let s = sftp_run mem_api [QSymlink 1 ''l'' ''/etc/x''] srv_state;
       s' = sftp_run mem_api [QSymlink 1 ''l'' ''/etc/x'', QOpen 2 ''l/'' read_flags] srv_state in
   fst (sftp_step mem_api (QOpen 2 ''l'' read_flags) s) = Inl PathEscape \<and>
   map_option fh_path (hm_get (sh_file_handles (fst s')) (handle_name 1)) = Some ''/srv/l'' \<and>
   fs_canonicalize mem_api (snd s) ''/srv/l'' = Inr ''/etc/x''"
proof -
  have x: "hm_contains (mf_files srv_linked) ''/etc/x''" by (simp add: srv_linked_def hm_contains_def hm_get_def)
  have "sh_next_handle (fst srv_state) = 1" by (simp add: srv_state_def sftp_new_def)
  then have "hm_get (sh_file_handles (fst (snd (sftp_open mem_api 2 ''l/'' read_flags (fst srv_state, srv_linked))))) (handle_name 1)
      = Some \<lparr>fh_file = 3, fh_path = ''/srv/l'', fh_write_mode = False\<rparr>"
    using open_reading [of srv_linked "fst srv_state" "''l/''", OF _ _ x] srv_resolves(4,5)
    by (simp add: srv_state_def)
  moreover have "fst (sftp_open mem_api 2 ''l'' read_flags (fst srv_state, srv_linked)) = Inl PathEscape"
    using srv_resolves(3) by (simp add: sftp_open_def srv_state_def)
  ultimately show ?thesis by (simp add: srv_symlink srv_resolves Let_def)
qed

text \<open>
  Permissions are changed on the path a file had when it was opened. When the file has been replaced
  by a link since, they are changed on a file outside the root directory.
\<close>

lemma srv_stale:
  "mf_is_dir ((snd srv_state)\<lparr>mf_files := [(''/etc/x'', []), (''/srv/l'', [])]\<rparr>) ''/srv/l'' = False"
  "resolve_path mem_api ((snd srv_state)\<lparr>mf_files := [(''/etc/x'', []), (''/srv/l'', [])]\<rparr>) srv_config ''l'' = Inr ''/srv/l''"
  "mf_follow (snd srv_state) ''/srv/l'' = ''/srv/l''"
  "hm_insert ''/srv/l'' [] (mf_files (snd srv_state)) = [(''/etc/x'', []), (''/srv/l'', [])]"
  "hm_remove ''/srv/l'' [(''/etc/x'', []), (''/srv/l'', [])] = [(''/etc/x'', [])]"
  by (simp_all add: srv_state_def resolve_eval)

definition stale_run :: "sftp_request list" where
  "stale_run = [QOpen 1 ''l'' create_flags, QRemove 2 ''l'', QSymlink 3 ''l'' ''/etc/x'',
     QFsetstat 4 (handle_name 1) (no_attrs\<lparr>fa_permissions := Some 511\<rparr>)]"

theorem sftp_fsetstat_escapes:
  "Chmod srv_linked ''/srv/l'' \<in> set (snd (snd (sftp_run (logged mem_api) stale_run (fst srv_state, snd srv_state, [])))) \<and>
   fs_canonicalize mem_api srv_linked ''/srv/l'' = Inr ''/etc/x''"
proof -
  let ?h = "(fst srv_state)\<lparr>sh_next_handle := 2, sh_file_handles :=
      [(handle_name 1, \<lparr>fh_file = 3, fh_path = ''/srv/l'', fh_write_mode = True\<rparr>)]\<rparr>"
  let ?m = "(snd srv_state)\<lparr>mf_files := [(''/etc/x'', []), (''/srv/l'', [])]\<rparr>"
  have h0: "sh_config (fst srv_state) = srv_config" "sh_next_handle (fst srv_state) = 1" "sh_file_handles (fst srv_state) = []"
    by (simp_all add: srv_state_def sftp_new_def)
  have o: "mf_open (build_options create_flags) ''/srv/l'' (snd srv_state) = (Inr 3, ?m)"
    using srv_resolves(7) srv_stale(3,4) by (simp add: mf_open_def build_options_def) (simp add: create_flags_def)
  have 1: "snd (sftp_open (logged mem_api) 1 ''l'' create_flags (fst srv_state, snd srv_state, []))
      = (?h, ?m, [Touch (snd srv_state) ''/srv/l''])"
    using srv_resolves(1) h0 o
    by (simp add: sftp_open_def check_write_def too_large_def next_handle_id_def note1_def hm_insert_def)
  have 2: "snd (sftp_remove (logged mem_api) 2 ''l'' (?h, ?m, l)) = (?h, snd srv_state, l @ [Touch ?m ''/srv/l''])" for l
    using srv_stale(1,2) h0(1) srv_stale(5)
    by (simp add: sftp_remove_def check_write_def fs_do_def note1_def) (simp add: srv_state_def hm_remove_def)
  have 3: "snd (sftp_symlink (logged mem_api) 3 ''l'' ''/etc/x'' (?h, snd srv_state, l)) = (?h, srv_linked, l @ [Touch (snd srv_state) ''/srv/l''])" for l
    using srv_resolves(1) h0(1)
    by (simp add: sftp_symlink_def check_write_def fs_do_def note1_def) (simp add: srv_state_def srv_links srv_linked_def)
  have 4: "snd (sftp_fsetstat (logged mem_api) 4 (handle_name 1) (no_attrs\<lparr>fa_permissions := Some 511\<rparr>) (?h, srv_linked, l))
      = (?h, srv_linked, l @ [Chmod srv_linked ''/srv/l''])" for l
    using h0(1)
    by (simp add: sftp_fsetstat_def check_write_def get_handle_def hm_get_def set_perms_def fs_do_def note1_def)
  show ?thesis
    by (simp add: stale_run_def 1 2 3 4 srv_resolves(5) del: logged_sel)
qed

section \<open>Witnesses\<close>

text \<open>
  Requests that make a link to a directory outside, a directory, and a file through \<open>..\<close>; opening
  through the link or above the root is refused.
\<close>

definition srv_visit :: "sftp_request list" where
  "srv_visit = [QSymlink 1 ''e'' ''/etc'', QOpen 2 ''e/x'' create_flags, QOpen 3 ''../etc/x'' create_flags,
     QMkdir 4 ''d'' no_attrs, QOpen 5 ''d/../f'' create_flags]"

definition srv_visited :: mem_fs where
  "srv_visited = \<lparr>mf_dirs = [''/srv/d'', ''/'', ''/srv'', ''/etc''], mf_files = [(''/etc/x'', [])],
     mf_links = [(''/srv/e'', ''/etc'')]\<rparr>"

theorem sftp_paths_confined_witness:
  "log_in (path_confined mem_api srv_config ''/srv'')
     (snd (snd (sftp_run (logged mem_api) srv_visit (sftp_new no_attrs srv_config ''c'' ''u'', snd srv_state, []))))
   \<and> resolve_path mem_api srv_visited srv_config ''e/x'' = Inl PathEscape
   \<and> resolve_path mem_api srv_visited srv_config ''../etc/x'' = Inl PathEscape
   \<and> resolve_path mem_api srv_visited srv_config ''d/../f'' = Inr ''/srv/f''
   \<and> path_confined mem_api srv_config ''/srv'' srv_visited ''/srv/f''
   \<and> \<not> path_confined mem_api srv_config ''/srv'' srv_visited ''/srv/e/x''
   \<and> \<not> path_confined mem_api srv_config ''/srv'' srv_visited ''/srv/../etc/x''"
proof (intro conjI)
  show "log_in (path_confined mem_api srv_config ''/srv'')
     (snd (snd (sftp_run (logged mem_api) srv_visit (sftp_new no_attrs srv_config ''c'' ''u'', snd srv_state, []))))"
    by (rule sftp_paths_confined [OF mem_api_laws]) simp
qed (simp_all add: srv_visited_def resolve_eval path_confined_def entry_place_def under_root_def is_symlink_def)

theorem sftp_read_only_safe_witness:
  "snd (sftp_run mem_api [QSymlink 1 ''l'' ''/etc/new'', QOpen 2 ''l'' create_flags]
     (sftp_new no_attrs (sftp_from_action (SshAction_default\<lparr>act_read_only := True\<rparr>)) ''c'' ''u'', snd srv_state))
   = snd srv_state"
  by (rule sftp_read_only_safe) (auto simp: mf_open_def split: sum.split)

theorem sftp_handles_fresh_witness:
  "hm_get (sh_file_handles (fst (sftp_run mem_api [] (sftp_new no_attrs srv_config ''c'' ''u'', snd srv_state)))) (handle_name 1) = None"
proof -
  have "fst (sftp_open mem_api 2 ''l'' create_flags (sftp_new no_attrs srv_config ''c'' ''u'', snd srv_state))
      = Inr (RHandle 2 (handle_name 1))"
    using open_created [of "snd srv_state" "sftp_new no_attrs srv_config ''c'' ''u''" "''l''"] srv_resolves(1,7)
    by (simp add: sftp_new_def)
  then have "fst (sftp_step mem_api (QOpen 2 ''l'' create_flags)
      (sftp_run mem_api [] (sftp_new no_attrs srv_config ''c'' ''u'', snd srv_state))) = Inr (RHandle 2 (handle_name 1))"
    by simp
  from sftp_handles_fresh [OF _ this] show ?thesis by simp
qed

theorem readdir_complete_witness:
  "drain_dir mem_api ''h1'' 3
     ((sftp_new no_attrs srv_config ''c'' ''u'')\<lparr>sh_dir_handles :=
        [(''h1'', \<lparr>dh_path = ''/srv'', dh_entries = [''a''], dh_position = 0, dh_read_complete = False\<rparr>)]\<rparr>, snd srv_state) =
   (dot_entries mem_api (snd srv_state) no_attrs ''/srv''
      @ List.map_filter (entry_attrs mem_api (snd srv_state) no_attrs ''/srv'') [''a''], Some Eof)"
  using readdir_complete [of "(sftp_new no_attrs srv_config ''c'' ''u'')\<lparr>sh_dir_handles :=
        [(''h1'', \<lparr>dh_path = ''/srv'', dh_entries = [''a''], dh_position = 0, dh_read_complete = False\<rparr>)]\<rparr>"
      "''h1''" "''/srv''" "[''a'']" 3 mem_api "snd srv_state"]
  by (simp add: sftp_new_def srv_config_def SftpServerConfig_default_def hm_get_def)

text \<open>A file system of one open file, its content, with or without the append mode.\<close>

definition one_file :: "bool \<Rightarrow> u8 list fs_api" where
  "one_file append_mode =
     \<lparr>fs_exists = \<lambda>m p. True, fs_is_dir = \<lambda>m p. False, fs_canonicalize = \<lambda>m p. Inr p,
      fs_metadata_of = \<lambda>m p. Inl IoOther, fs_symlink_metadata = \<lambda>m p. Inl IoOther,
      fs_current_dir = \<lambda>m. Some ''/'', fs_read_dir = \<lambda>m p. Inl IoOther, fs_read_link = \<lambda>m p. Inl IoOther,
      fs_open = \<lambda>opts p m. (Inr 3, m), fs_read_at = \<lambda>m fd off n. Inr (take (unat n) (drop (unat off) m)),
      fs_seek = \<lambda>m fd off. if 2 ^ 63 \<le> unat off then Inl IoOther else Inr (),
      fs_write_at = \<lambda>fd off d m. (Inr (),
        if append_mode then m @ d
        else take (unat off) (m @ replicate (unat off) 0) @ d @ drop (unat off + length d) m),
      fs_set_permissions = \<lambda>p perm m. (Inr (), m), fs_remove_file = \<lambda>p m. (Inl IoOther, m),
      fs_create_dir = \<lambda>p m. (Inl IoOther, m), fs_remove_dir = \<lambda>p m. (Inl IoOther, m),
      fs_rename = \<lambda>p q m. (Inl IoOther, m), fs_symlink = \<lambda>t l m. (Inl IoOther, m)\<rparr>"

definition srv_limited :: sftp_handler where
  "srv_limited = (sftp_new no_attrs (srv_config\<lparr>sf_max_file_size := Some 10\<rparr>) ''c'' ''u'')\<lparr>sh_file_handles :=
     [(''h1'', \<lparr>fh_file = 3, fh_path = ''/srv/l'', fh_write_mode = True\<rparr>)]\<rparr>"

lemma srv_limited_sel [simp]:
  "sf_max_file_size (sh_config srv_limited) = Some 10" "sf_allow_write (sh_config srv_limited)"
  "hm_get (sh_file_handles srv_limited) ''h1'' = Some \<lparr>fh_file = 3, fh_path = ''/srv/l'', fh_write_mode = True\<rparr>"
  by (simp_all add: srv_limited_def sftp_new_def hm_get_def)

theorem sftp_write_within_limit_witness:
  "length (snd (snd (sftp_write (one_file False) 7 ''h1'' 2 [1, 2, 3] (srv_limited, [9])))) \<le> 10"
  using sftp_write_within_limit [of srv_limited 10 "''h1''" _ "one_file False" "\<lambda>m fd. length m" "\<lambda>m fd. False" "[1, 2, 3]" 7 2 "[9]"]
  by (simp add: one_file_def)

theorem sftp_append_exceeds_limit_witness:
  "length (snd (sftp_run (one_file True) (replicate 5 (QWrite 7 ''h1'' 0 [1, 2, 3])) (srv_limited, []))) = 15"
  using sftp_append_exceeds_limit [of srv_limited 10 "''h1''" _ "[1, 2, 3]" "one_file True" "length" 5 7 "[]"]
  by (simp add: one_file_def)

end
