(* ===== verification/Ssh_Server.thy ===== *)
theory Ssh_Server
  imports Rate_Limit Ssh_Auth Ssh_Session
begin

text \<open>
  \<open>crates/omni-ssh/src/server/mod.rs\<close>: the server that accepts connections. The answers of the
  \<open>SshBackend\<close> that only the server asks for extend the backend record of \<open>Ssh_Auth\<close>. A TCP stream
  is described by what the code asks of it: its local address, and how \<open>russh::server::run_stream\<close>
  on it ends (after which time and with which result, if at all). Every handler returns its result,
  the events it reported and the shared rate limiter.
\<close>

section \<open>State\<close>

record ssh_connection =
  sn_id :: string
  sn_info :: ssh_conn_info
  sn_action :: ssh_action
  sn_valid :: bool

record ('e, 'k) server_backend = "'e ssh_backend" +
  bk_get_host_keys :: "'e + 'k list"
  bk_ssh_enabled :: bool

record 'k russh_config =
  rs_auth_rejection_time :: duration
  rs_auth_rejection_time_initial :: "duration option"
  rs_keys :: "'k list"

record ('e, 'k) tcp_stream =
  ts_local_addr :: "'e + socket_addr"
  ts_run_stream :: "'k russh_config \<Rightarrow> ssh_server_config \<Rightarrow> socket_addr \<Rightarrow> (duration \<times> ('e + unit)) option"

record ('s, 'k) ssh_server =
  srv_config :: ssh_server_config
  srv_active_conns :: "(string, ssh_connection) hmap"
  srv_host_keys :: "'k list"
  srv_rate_limiter :: "'s rate_limiter"

datatype 'e server_error =
    Backend 'e
  | NoHostKeys
  | SshDisabled
  | BindFailed 'e
  | LocalAddr 'e
  | ErrRateLimited ip_addr duration
  | ErrBanned ip_addr nat
  | ErrTooManyConnections
  | NotFromNetwork
  | MaxConcurrentExceeded
  | SessionError 'e
  | HandshakeTimeout socket_addr

section \<open>Connections\<close>

definition conn_new :: "string \<Rightarrow> ssh_conn_info \<Rightarrow> ssh_action \<Rightarrow> ssh_connection" where
  "conn_new i info action = \<lparr>sn_id = i, sn_info = info, sn_action = action, sn_valid = True\<rparr>"

definition conn_is_valid :: "ssh_connection \<Rightarrow> bool" where
  "conn_is_valid c = sn_valid c"

text \<open>The body of \<open>check_still_valid\<close> is empty.\<close>

definition check_still_valid :: "ssh_connection \<Rightarrow> ssh_connection" where
  "check_still_valid c = c"

definition terminate :: "ssh_connection \<Rightarrow> ssh_connection" where
  "terminate c = c\<lparr>sn_valid := False\<rparr>"

section \<open>Formatting of durations\<close>

text \<open>
  \<open>format!("{:?}", d)\<close> of a \<open>Duration\<close>: the largest unit with a non-zero whole part, then the
  fraction without trailing zeros.
\<close>

fun frac_digits :: "nat \<Rightarrow> nat \<Rightarrow> string" where
  "frac_digits 0 frac = []"
| "frac_digits (Suc k) frac =
     (if frac = 0 then [] else digit_char (frac div 10 ^ k) # frac_digits k (frac mod 10 ^ k))"

definition fmt_decimal :: "nat \<Rightarrow> nat \<Rightarrow> nat \<Rightarrow> string \<Rightarrow> string" where
  "fmt_decimal whole frac places sfx =
     show_nat whole @ (if frac = 0 then [] else CHR ''.'' # frac_digits places frac) @ sfx"

definition show_duration :: "duration \<Rightarrow> string" where
  "show_duration d =
     (if as_secs d > 0 then fmt_decimal (as_secs d) (d mod 10 ^ 9) 9 ''s''
      else if d \<ge> 10 ^ 6 then fmt_decimal (d div 10 ^ 6) (d mod 10 ^ 6) 6 ''ms''
      else if d \<ge> 10 ^ 3 then fmt_decimal (d div 10 ^ 3) (d mod 10 ^ 3) 3 [CHR 0xC2, CHR 0xB5, CHR ''s'']
      else fmt_decimal d 0 0 ''ns'')"

section \<open>The server\<close>

definition server_new ::
  "(nat \<Rightarrow> 's) \<Rightarrow> ssh_server_config \<Rightarrow> ('e, 'k) server_backend \<Rightarrow> 'e server_error + ('s, 'k) ssh_server" where
  "server_new sem_new config backend =
     (case bk_get_host_keys backend of
        Inl e \<Rightarrow> Inl (Backend e)
      | Inr host_keys \<Rightarrow>
          if host_keys = [] then Inl NoHostKeys
          else Inr \<lparr>srv_config = config, srv_active_conns = [], srv_host_keys = host_keys,
                    srv_rate_limiter = rl_new sem_new (sc_rate_limit_per_ip config)
                      (sc_max_failed_auth config) (sc_ban_duration config) (sc_max_concurrent config)\<rparr>)"

text \<open>The first half of \<open>handle_connection\<close>: what a verdict of the rate limiter leads to.\<close>

fun limiter_reject ::
  "socket_addr \<Rightarrow> rate_limit_result \<Rightarrow> ('e server_error \<times> ssh_event) option" where
  "limiter_reject peer_addr Allowed = None"
| "limiter_reject peer_addr (RateLimited retry_after) =
     Some (ErrRateLimited (sa_ip peer_addr) retry_after,
           ConnectionRejected peer_addr (''Rate limited, retry after '' @ show_duration retry_after))"
| "limiter_reject peer_addr (Banned remaining) =
     Some (ErrBanned (sa_ip peer_addr) (as_secs remaining),
           ConnectionRejected peer_addr
             (''IP banned, '' @ show_nat (as_secs remaining) @ '' seconds remaining''))"
| "limiter_reject peer_addr TooManyConnections =
     Some (ErrTooManyConnections,
           ConnectionRejected peer_addr ''Too many concurrent connections'')"

definition russh_config_for :: "'k russh_config \<Rightarrow> 'k list \<Rightarrow> 'k russh_config" where
  "russh_config_for dflt host_keys =
     dflt\<lparr>rs_auth_rejection_time := from_secs 3,
          rs_auth_rejection_time_initial := Some (from_secs 0),
          rs_keys := rs_keys dflt @ host_keys\<rparr>"

text \<open>\<open>tokio::time::timeout\<close> around \<open>run_stream\<close>.\<close>

definition run_session ::
  "ssh_server_config \<Rightarrow> 'k russh_config \<Rightarrow> ('e, 'k) tcp_stream \<Rightarrow> socket_addr \<Rightarrow>
     ('e server_error + unit) \<times> ssh_event list" where
  "run_session config rc stream peer_addr =
     (case ts_run_stream stream rc config peer_addr of
        Some (d, r) \<Rightarrow>
          if d \<le> sc_handshake_timeout config
          then ((case r of Inr _ \<Rightarrow> Inr () | Inl e \<Rightarrow> Inl (SessionError e)), [])
          else (Inl (HandshakeTimeout peer_addr), [ConnectionRejected peer_addr ''SSH handshake timeout''])
      | None \<Rightarrow>
          (Inl (HandshakeTimeout peer_addr), [ConnectionRejected peer_addr ''SSH handshake timeout'']))"

definition handle_connection ::
  "('s \<Rightarrow> nat) \<Rightarrow> 'k russh_config \<Rightarrow> ('e, 'k) server_backend \<Rightarrow> instant \<Rightarrow> ('s, 'k) ssh_server \<Rightarrow>
     ('e, 'k) tcp_stream \<Rightarrow> socket_addr \<Rightarrow>
     ('e server_error + unit) \<times> ssh_event list \<times> 's rate_limiter" where
  "handle_connection avail dflt backend now srv stream peer_addr =
     (case ts_local_addr stream of
        Inl e \<Rightarrow> (Inl (LocalAddr e), [], srv_rate_limiter srv)
      | Inr local_addr \<Rightarrow>
          (let (verdict, l) = check_allowed avail now (sa_ip peer_addr) (srv_rate_limiter srv);
               attempt = ConnectionAttempt peer_addr local_addr in
           case limiter_reject peer_addr verdict of
             Some (err, ev) \<Rightarrow> (Inl err, [attempt, ev], l)
           | None \<Rightarrow>
               if \<not> bk_is_omniedge_ip backend (sa_ip peer_addr) then
                 (Inl NotFromNetwork,
                  [attempt, ConnectionRejected peer_addr ''Connection not from OmniEdge network''], l)
               else if hm_len (srv_active_conns srv) \<ge> unat (sc_max_concurrent (srv_config srv)) then
                 (Inl MaxConcurrentExceeded,
                  [attempt, ConnectionRejected peer_addr ''Max concurrent connections exceeded''], l)
               else
                 (let (r, evs) = run_session (srv_config srv)
                        (russh_config_for dflt (srv_host_keys srv)) stream peer_addr in
                  (r, attempt # evs, l))))"

text \<open>
  \<open>SshServerRef::handle_connection\<close>, which the accept loop runs: the same without the test of the
  number of active connections.
\<close>

definition ref_handle_connection ::
  "('s \<Rightarrow> nat) \<Rightarrow> 'k russh_config \<Rightarrow> ('e, 'k) server_backend \<Rightarrow> instant \<Rightarrow> ('s, 'k) ssh_server \<Rightarrow>
     ('e, 'k) tcp_stream \<Rightarrow> socket_addr \<Rightarrow>
     ('e server_error + unit) \<times> ssh_event list \<times> 's rate_limiter" where
  "ref_handle_connection avail dflt backend now srv stream peer_addr =
     (case ts_local_addr stream of
        Inl e \<Rightarrow> (Inl (LocalAddr e), [], srv_rate_limiter srv)
      | Inr local_addr \<Rightarrow>
          (let (verdict, l) = check_allowed avail now (sa_ip peer_addr) (srv_rate_limiter srv);
               attempt = ConnectionAttempt peer_addr local_addr in
           case limiter_reject peer_addr verdict of
             Some (err, ev) \<Rightarrow> (Inl err, [attempt, ev], l)
           | None \<Rightarrow>
               if \<not> bk_is_omniedge_ip backend (sa_ip peer_addr) then
                 (Inl NotFromNetwork,
                  [attempt, ConnectionRejected peer_addr ''Connection not from OmniEdge network''], l)
               else
                 (let (r, evs) = run_session (srv_config srv)
                        (russh_config_for dflt (srv_host_keys srv)) stream peer_addr in
                  (r, attempt # evs, l))))"

text \<open>
  \<open>clone_for_spawn\<close>: the clone of the limiter shares the counters, which sit behind \<open>Arc\<close>s; the
  clone of the \<open>DashMap\<close> of connections is a copy.
\<close>

definition clone_for_spawn :: "('s, 'k) ssh_server \<Rightarrow> ('s, 'k) ssh_server" where
  "clone_for_spawn srv = srv"

definition on_policy_change :: "('s, 'k) ssh_server \<Rightarrow> ('s, 'k) ssh_server" where
  "on_policy_change srv =
     srv\<lparr>srv_active_conns := map (\<lambda>(k, c). (k, check_still_valid c)) (srv_active_conns srv)\<rparr>"

text \<open>
  \<open>shutdown\<close> also shows the connections it has terminated, which their other owners still see.
\<close>

definition shutdown :: "('s, 'k) ssh_server \<Rightarrow> ssh_connection list \<times> ('s, 'k) ssh_server" where
  "shutdown srv =
     (map terminate (hm_values (srv_active_conns srv)), srv\<lparr>srv_active_conns := []\<rparr>)"

definition num_active_conns :: "('s, 'k) ssh_server \<Rightarrow> nat" where
  "num_active_conns srv = hm_len (srv_active_conns srv)"

section \<open>Runs\<close>

text \<open>
  What reaches a running server: an accepted connection (with the time at which its task asks the
  rate limiter, the only moment it touches shared state), a failed \<open>accept\<close>, a policy change and
  the shutdown call. The list holds the result of every accepted connection with its address.
\<close>

datatype ('e, 'k) server_op =
    Accepted instant "('e, 'k) tcp_stream" socket_addr
  | AcceptFailed 'e
  | PolicyChanged
  | ShutdownCalled

fun server_step ::
  "('s \<Rightarrow> nat) \<Rightarrow> 'k russh_config \<Rightarrow> ('e, 'k) server_backend \<Rightarrow> ('e, 'k) server_op \<Rightarrow> ('s, 'k) ssh_server \<Rightarrow>
     (socket_addr \<times> ('e server_error + unit)) list \<times> ('s, 'k) ssh_server" where
  "server_step avail dflt backend (Accepted now stream peer_addr) srv =
     (let (r, _, l) = ref_handle_connection avail dflt backend now (clone_for_spawn srv) stream peer_addr in
      ([(peer_addr, r)], srv\<lparr>srv_rate_limiter := l\<rparr>))"
| "server_step avail dflt backend (AcceptFailed e) srv = ([], srv)"
| "server_step avail dflt backend PolicyChanged srv = ([], on_policy_change srv)"
| "server_step avail dflt backend ShutdownCalled srv = ([], snd (shutdown srv))"

definition server_run ::
  "('s \<Rightarrow> nat) \<Rightarrow> 'k russh_config \<Rightarrow> ('e, 'k) server_backend \<Rightarrow> ('e, 'k) server_op list \<Rightarrow> ('s, 'k) ssh_server \<Rightarrow>
     (socket_addr \<times> ('e server_error + unit)) list \<times> ('s, 'k) ssh_server" where
  "server_run avail dflt backend xs srv = run_ops (server_step avail dflt backend) xs srv"

lemma server_run_simps [simp]:
  "server_run avail dflt backend [] srv = ([], srv)"
  "server_run avail dflt backend (x # xs) srv =
     (let (rs, srv1) = server_step avail dflt backend x srv;
          (rs', srv2) = server_run avail dflt backend xs srv1 in (rs @ rs', srv2))"
  by (simp_all add: server_run_def)

text \<open>\<open>start\<close>: the accept loop never returns, so its value is what a finite run of it has done.\<close>

definition start ::
  "('s \<Rightarrow> nat) \<Rightarrow> 'k russh_config \<Rightarrow> ('e, 'k) server_backend \<Rightarrow> ('e + unit) \<Rightarrow> ('e, 'k) server_op list \<Rightarrow>
     ('s, 'k) ssh_server \<Rightarrow>
     'e server_error + ((socket_addr \<times> ('e server_error + unit)) list \<times> ('s, 'k) ssh_server)" where
  "start avail dflt backend bind xs srv =
     (if \<not> bk_ssh_enabled backend then Inl SshDisabled
      else case bind of
             Inl e \<Rightarrow> Inl (BindFailed e)
           | Inr _ \<Rightarrow> Inr (server_run avail dflt backend xs srv))"

section \<open>Lemmas\<close>

text \<open>The outcomes that only a connection handed to \<open>run_stream\<close> can have.\<close>

fun session_started :: "'e server_error + unit \<Rightarrow> bool" where
  "session_started (Inr u) = True"
| "session_started (Inl (SessionError e)) = True"
| "session_started (Inl (HandshakeTimeout a)) = True"
| "session_started (Inl e) = False"

definition sessions_of :: "ip_addr \<Rightarrow> (socket_addr \<times> ('e server_error + unit)) list \<Rightarrow> nat" where
  "sessions_of ip rs = length (filter (\<lambda>(a, r). sa_ip a = ip \<and> session_started r) rs)"

text \<open>The calls of the rate limiter that a run of the server makes.\<close>

fun limiter_ops :: "('e, 'k) server_op list \<Rightarrow> (instant \<times> rl_op) list" where
  "limiter_ops [] = []"
| "limiter_ops (Accepted now stream a # xs) =
     (case ts_local_addr stream of
        Inl e \<Rightarrow> limiter_ops xs
      | Inr _ \<Rightarrow> (now, Check (sa_ip a)) # limiter_ops xs)"
| "limiter_ops (_ # xs) = limiter_ops xs"

lemma run_session_started [simp]: "session_started (fst (run_session config rc stream a))"
  by (simp add: run_session_def split: option.split sum.split)

lemma limiter_reject_not_started:
  "limiter_reject a v = Some (err, ev) \<Longrightarrow> v \<noteq> Allowed \<and> \<not> session_started (Inl err)"
  by (cases v) auto

lemma limiter_reject_None [simp]: "limiter_reject a v = None \<longleftrightarrow> v = Allowed"
  by (cases v) simp_all

lemma ref_handle_limiter:
  "snd (snd (ref_handle_connection avail dflt backend now srv stream a)) =
     (case ts_local_addr stream of
        Inl e \<Rightarrow> srv_rate_limiter srv
      | Inr _ \<Rightarrow> snd (check_allowed avail now (sa_ip a) (srv_rate_limiter srv)))"
  by (simp add: ref_handle_connection_def Let_def split_beta split: sum.split option.split)

lemma ref_handle_started:
  "session_started (fst (ref_handle_connection avail dflt backend now srv stream a)) \<longleftrightarrow>
     (\<exists>local_addr. ts_local_addr stream = Inr local_addr)
     \<and> fst (check_allowed avail now (sa_ip a) (srv_rate_limiter srv)) = Allowed
     \<and> bk_is_omniedge_ip backend (sa_ip a)"
  using run_session_started
  by (auto simp: ref_handle_connection_def Let_def split_beta split: sum.split option.split
      dest: limiter_reject_not_started)

text \<open>
  The server refines the rate limiter: a run of it is a run of the limiter's checks, and every
  session that starts is one of the connections the limiter allowed.
\<close>

lemma server_run_refines_limiter:
  "srv_rate_limiter (snd (server_run avail dflt backend xs srv))
     = snd (rl_run avail (limiter_ops xs) (srv_rate_limiter srv))
   \<and> sessions_of ip (fst (server_run avail dflt backend xs srv))
     \<le> allowed_count ip (fst (rl_run avail (limiter_ops xs) (srv_rate_limiter srv)))"
proof (induction xs arbitrary: srv)
  case (Cons x xs)
  show ?case
  proof (cases x)
    case (Accepted now stream a)
    let ?h = "ref_handle_connection avail dflt backend now srv stream a"
    let ?srv' = "srv\<lparr>srv_rate_limiter := snd (snd ?h)\<rparr>"
    note IH = Cons [of ?srv']
    show ?thesis
    proof (cases "ts_local_addr stream")
      case (Inl e)
      then have "\<not> session_started (fst ?h)" by (simp add: ref_handle_started)
      with IH Inl Accepted show ?thesis
        by (simp add: clone_for_spawn_def split_beta Let_def ref_handle_limiter sessions_of_def)
    next
      case (Inr la)
      with IH Accepted show ?thesis
        using ref_handle_started [of avail dflt backend now srv stream a]
        by (auto simp: clone_for_spawn_def split_beta Let_def ref_handle_limiter sessions_of_def
            allowed_count_def)
    qed
  qed (use Cons [of "snd (server_step avail dflt backend x srv)"] in
      \<open>simp_all add: split_beta Let_def on_policy_change_def shutdown_def\<close>)
qed (simp add: sessions_of_def allowed_count_def)

lemma limiter_ops_times:
  "\<forall>now stream a. Accepted now stream a \<in> set xs \<longrightarrow> P now \<Longrightarrow> (t, x) \<in> set (limiter_ops xs) \<Longrightarrow> P t"
  by (induction xs rule: limiter_ops.induct) (auto split: sum.splits)

text \<open>
  What no run of a new server changes: no connection is ever entered, no address ever banned, no
  permit of the semaphore taken.
\<close>

definition server_idle_state :: "'s \<Rightarrow> ('s, 'k) ssh_server \<Rightarrow> bool" where
  "server_idle_state sem srv \<longleftrightarrow>
     srv_active_conns srv = [] \<and> rl_banned_ips (srv_rate_limiter srv) = []
     \<and> rl_concurrent_semaphore (srv_rate_limiter srv) = sem"

lemma check_allowed_idle:
  "rl_banned_ips l = [] \<Longrightarrow> rl_banned_ips (snd (check_allowed avail t ip l)) = []
     \<and> rl_concurrent_semaphore (snd (check_allowed avail t ip l)) = rl_concurrent_semaphore l
     \<and> (\<forall>d. fst (check_allowed avail t ip l) \<noteq> Banned d)
     \<and> (fst (check_allowed avail t ip l) = TooManyConnections \<longrightarrow> avail (rl_concurrent_semaphore l) = 0)"
  by (auto simp: check_allowed_def check_window_def set_window_def Let_def)

lemma server_step_idle:
  "server_idle_state sem srv \<Longrightarrow> server_idle_state sem (snd (server_step avail dflt backend x srv))"
  by (cases x) (auto simp: server_idle_state_def split_beta Let_def clone_for_spawn_def
      ref_handle_limiter check_allowed_idle on_policy_change_def shutdown_def split: sum.split)

lemma server_step_results:
  assumes "server_idle_state sem srv" and "0 < avail sem"
    and "(a, r) \<in> set (fst (server_step avail dflt backend x srv))"
  shows "r \<notin> {Inl (ErrBanned ip n), Inl ErrTooManyConnections, Inl MaxConcurrentExceeded}"
proof (cases x)
  case (Accepted now stream a')
  with assms(3) have r: "r = fst (ref_handle_connection avail dflt backend now srv stream a')"
    by (simp add: split_beta Let_def clone_for_spawn_def)
  have *: "(\<forall>d. fst (check_allowed avail now (sa_ip a') (srv_rate_limiter srv)) \<noteq> Banned d)
      \<and> fst (check_allowed avail now (sa_ip a') (srv_rate_limiter srv)) \<noteq> TooManyConnections"
    using assms(1,2) check_allowed_idle [of "srv_rate_limiter srv" avail now "sa_ip a'"]
    by (auto simp: server_idle_state_def)
  have "\<exists>d. fst (check_allowed avail now (sa_ip a') (srv_rate_limiter srv)) \<in> {Allowed, RateLimited d}"
    using * by (cases "fst (check_allowed avail now (sa_ip a') (srv_rate_limiter srv))") auto
  moreover have "fst (run_session c rc stream a')
      \<notin> {Inl (ErrBanned ip n), Inl ErrTooManyConnections, Inl MaxConcurrentExceeded}" for c rc
    by (simp add: run_session_def split: option.split sum.split)
  ultimately show ?thesis
    unfolding r ref_handle_connection_def by (auto simp: Let_def split_beta split: sum.split)
qed (use assms in simp_all)

interpretation server: invariant_machine "server_step avail dflt backend" "server_idle_state sem"
    for avail dflt backend sem
  by unfold_locales (rule server_step_idle)

lemma server_run_idle:
  "server_idle_state sem srv \<Longrightarrow> server_idle_state sem (snd (server_run avail dflt backend xs srv))"
  unfolding server_run_def by (rule server.run_inv)

lemma server_run_results:
  assumes "server_idle_state sem srv" and "0 < avail sem"
    and "(a, r) \<in> set (fst (server_run avail dflt backend xs srv))"
  shows "r \<notin> {Inl (ErrBanned ip n), Inl ErrTooManyConnections, Inl MaxConcurrentExceeded}"
proof -
  obtain x srv' where "server_idle_state sem srv'" "(a, r) \<in> set (fst (server_step avail dflt backend x srv'))"
    using server.run_output [OF assms(1) assms(3) [unfolded server_run_def]] by blast
  with assms(2) show ?thesis by (metis server_step_results)
qed

lemma server_new_Inr:
  assumes "server_new sem_new config backend = Inr srv"
  shows "srv_rate_limiter srv = rl_new sem_new (sc_rate_limit_per_ip config)
           (sc_max_failed_auth config) (sc_ban_duration config) (sc_max_concurrent config)"
    and "server_idle_state (sem_new (unat (sc_max_concurrent config))) srv"
    and "srv_host_keys srv \<noteq> []"
  using assms
  by (auto simp: server_new_def server_idle_state_def rl_new_def split: sum.splits if_splits)

lemma rate_limited_duration_text:
  "0 < n \<Longrightarrow> show_duration (from_secs n) = show_nat n @ ''s''"
  by (simp add: show_duration_def fmt_decimal_def from_secs_def as_secs_def)

section \<open>Properties\<close>

text \<open>
  C6. Admission. Whatever a server has been through, during any sixty seconds at most twice
  \<open>rate_limit_per_ip\<close> connections of an address get as far as the SSH protocol, by any sequence of
  accepted connections, policy changes and shutdowns.
\<close>

theorem server_sessions_bounded:
  assumes "server_new sem_new config backend = Inr srv"
    and "\<forall>now stream a. Accepted now stream a \<in> set xs \<longrightarrow> t0 \<le> now \<and> now \<le> t0 + from_secs 60"
  shows "sessions_of ip (fst (server_run avail dflt backend xs
      (snd (server_run avail dflt backend history srv)))) \<le> 2 * unat (sc_rate_limit_per_ip config)"
proof -
  let ?l0 = "srv_rate_limiter srv"
  let ?l = "snd (rl_run avail (limiter_ops history) ?l0)"
  have wf: "rl_wf ?l"
    by (rule rl_run_wf) (simp add: server_new_Inr(1) [OF assms(1)])
  have times: "\<forall>(t, x) \<in> set (limiter_ops xs). t0 \<le> t \<and> t \<le> t0 + from_secs 60"
    using limiter_ops_times [OF assms(2)] by auto
  have "sessions_of ip (fst (server_run avail dflt backend xs
      (snd (server_run avail dflt backend history srv)))) \<le> allowed_count ip (fst (rl_run avail (limiter_ops xs) ?l))"
    using server_run_refines_limiter by metis
  also have "\<dots> \<le> budget t0 ip ?l"
    using rl_run_budget [OF wf times] by (rule add_leD1)
  also have "\<dots> \<le> 2 * unat (sc_rate_limit_per_ip config)"
    using budget_bound [of t0 ip ?l] server_new_Inr(1) [OF assms(1)] by (simp add: rl_new_def)
  finally show ?thesis .
qed

text \<open>
  A connection reaches the SSH protocol exactly when its local address is known, the rate
  limiter allows it at that moment and the backend places its address in the VPN. The variant of
  the handler with the test of the number of active connections agrees with the one that is run
  wherever that number is below the limit.
\<close>

theorem server_session_iff:
  "(session_started (fst (ref_handle_connection avail dflt backend now srv stream a)) \<longleftrightarrow>
      (\<exists>local_addr. ts_local_addr stream = Inr local_addr)
      \<and> fst (check_allowed avail now (sa_ip a) (srv_rate_limiter srv)) = Allowed
      \<and> bk_is_omniedge_ip backend (sa_ip a))
   \<and> (handle_connection avail dflt backend now srv stream a
      = ref_handle_connection avail dflt backend now srv stream a
      \<or> unat (sc_max_concurrent (srv_config srv)) \<le> num_active_conns srv)"
proof (rule conjI [OF ref_handle_started], rule disjCI)
  assume "\<not> unat (sc_max_concurrent (srv_config srv)) \<le> num_active_conns srv"
  then show "handle_connection avail dflt backend now srv stream a
      = ref_handle_connection avail dflt backend now srv stream a"
    by (simp add: handle_connection_def ref_handle_connection_def num_active_conns_def Let_def split_beta
        split: sum.split option.split)
qed

text \<open>
  C16. The server never bans and never counts. With at least one permit in the semaphore, no
  connection to a server is ever refused as banned or as one too many, however many failed
  authentications and sessions there are: nothing the server runs records a failed authentication,
  takes a permit or enters a connection in \<open>active_conns\<close>. So \<open>max_failed_auth\<close>, \<open>ban_duration\<close>
  and \<open>max_concurrent\<close> have no effect, and \<open>shutdown\<close> terminates no connection.
\<close>

theorem server_never_bans:
  assumes "server_new sem_new config backend = Inr srv"
    and "0 < avail (sem_new (unat (sc_max_concurrent config)))"
  shows "(\<forall>a e. (a, Inl e) \<in> set (fst (server_run avail dflt backend xs srv)) \<longrightarrow>
           e \<noteq> ErrBanned ip n \<and> e \<noteq> ErrTooManyConnections \<and> e \<noteq> MaxConcurrentExceeded)
    \<and> num_active_conns (snd (server_run avail dflt backend xs srv)) = 0
    \<and> fst (shutdown (snd (server_run avail dflt backend xs srv))) = []"
proof (intro conjI allI impI)
  note idle = server_new_Inr(2) [OF assms(1)]
  have conns: "srv_active_conns (snd (server_run avail dflt backend xs srv)) = []"
    using server_run_idle [OF idle, of avail dflt backend xs] by (simp add: server_idle_state_def)
  then show "num_active_conns (snd (server_run avail dflt backend xs srv)) = 0"
    and "fst (shutdown (snd (server_run avail dflt backend xs srv))) = []"
    by (simp_all add: num_active_conns_def shutdown_def hm_len_def hm_values_def)
next
  fix a e
  assume "(a, Inl e) \<in> set (fst (server_run avail dflt backend xs srv))"
  from server_run_results [of _ srv avail, OF server_new_Inr(2) [OF assms(1)] assms(2) this, of ip n]
  show "e \<noteq> ErrBanned ip n" "e \<noteq> ErrTooManyConnections" "e \<noteq> MaxConcurrentExceeded" by auto
qed

section \<open>Witnesses\<close>

definition example_backend :: "(unit, nat) server_backend" where
  "example_backend =
     \<lparr>bk_is_omniedge_ip = (\<lambda>ip. ip = V4 10 0 0 1), bk_who_is = (\<lambda>_. Inr None),
      bk_get_ssh_policy = Inl (), bk_get_host_keys = Inr [7], bk_ssh_enabled = True\<rparr>"

definition example_stream :: "(unit, nat) tcp_stream" where
  "example_stream =
     \<lparr>ts_local_addr = Inr (SocketAddr (V4 10 0 0 9) 22),
      ts_run_stream = (\<lambda>_ _ _. Some (from_secs 1, Inr ()))\<rparr>"

abbreviation example_ops :: "(unit, nat) server_op list" where
  "example_ops \<equiv> [Accepted 5 example_stream (SocketAddr (V4 10 0 0 1) 4000), PolicyChanged,
     Accepted 6 example_stream (SocketAddr (V4 10 0 0 2) 4001)]"

abbreviation example_russh :: "nat russh_config" where
  "example_russh \<equiv> \<lparr>rs_auth_rejection_time = 1, rs_auth_rejection_time_initial = None, rs_keys = []\<rparr>"

definition example_server :: "(nat, nat) ssh_server" where
  "example_server =
     \<lparr>srv_config = SshServerConfig_default, srv_active_conns = [], srv_host_keys = [7],
      srv_rate_limiter = rl_new (\<lambda>n. n) 10 5 (from_secs (15 * 60)) 100\<rparr>"

lemma example_server_new:
  "server_new (\<lambda>n. n) SshServerConfig_default example_backend = Inr example_server"
  by (simp add: server_new_def example_backend_def example_server_def SshServerConfig_default_def)

theorem server_sessions_bounded_witness:
  "sessions_of (V4 10 0 0 1) (fst (server_run (\<lambda>n. n) example_russh example_backend example_ops
     (snd (server_run (\<lambda>n. n) example_russh example_backend example_ops example_server))))
   \<le> 2 * unat (sc_rate_limit_per_ip SshServerConfig_default)"
  by (rule server_sessions_bounded [OF example_server_new, where ?t0.0 = 0])
     (auto simp: from_secs_def)

theorem server_never_bans_witness:
  "num_active_conns (snd (server_run (\<lambda>n. n) example_russh example_backend example_ops example_server)) = 0"
  by (rule server_never_bans [OF example_server_new, THEN conjunct2, THEN conjunct1])
     (simp add: SshServerConfig_default_def)

end
