(* ===== verification/Forwarding.thy ===== *)
theory Forwarding
  imports Prelude Machines
begin

text \<open>
  \<open>crates/omni-ssh/src/forwarding/mod.rs\<close>: the \<open>-L\<close>, \<open>-R\<close> and \<open>-D\<close> specifications and their parsers,
  the forwarder with its identifiers and statistics, the SOCKS5 handshake and the copy loop of a
  forwarded connection. The textual form of IPv6 addresses, the socket operations and the SSH tunnel
  are parameters: a connection is driven by the list of what its reads and writes return. The
  tasks a forwarder spawns act on it through \<open>fw_accept\<close>, \<open>fw_conn_end\<close> and the cancellations.
\<close>

section \<open>Specifications\<close>

datatype fwd_error = InvalidPort | InvalidAddr | InvalidFormat string | NoTunnelProvider | NetError string

record local_forward =
  lf_bind_addr :: socket_addr
  lf_remote_host :: string
  lf_remote_port :: nat

record remote_forward =
  rf_bind_addr :: socket_addr
  rf_local_host :: string
  rf_local_port :: nat

record dynamic_forward =
  df_bind_addr :: socket_addr

definition lf_new :: "socket_addr \<Rightarrow> string \<Rightarrow> nat \<Rightarrow> local_forward" where
  "lf_new a h p = \<lparr>lf_bind_addr = a, lf_remote_host = h, lf_remote_port = p\<rparr>"

definition rf_new :: "socket_addr \<Rightarrow> string \<Rightarrow> nat \<Rightarrow> remote_forward" where
  "rf_new a h p = \<lparr>rf_bind_addr = a, rf_local_host = h, rf_local_port = p\<rparr>"

definition df_new :: "socket_addr \<Rightarrow> dynamic_forward" where
  "df_new a = \<lparr>df_bind_addr = a\<rparr>"

definition parse_port :: "string \<Rightarrow> fwd_error + nat" where
  "parse_port s = (case parse_uint 16 s of Some p \<Rightarrow> Inr p | None \<Rightarrow> Inl InvalidPort)"

definition parse_addr :: "(string \<Rightarrow> ip_addr option) \<Rightarrow> string \<Rightarrow> fwd_error + ip_addr" where
  "parse_addr v6 s = (case parse_ip v6 s of Some a \<Rightarrow> Inr a | None \<Rightarrow> Inl InvalidAddr)"

fun lf_parse_parts :: "(string \<Rightarrow> ip_addr option) \<Rightarrow> string \<Rightarrow> string list \<Rightarrow> fwd_error + local_forward" where
  "lf_parse_parts v6 s [a, b, c] =
     and_then (parse_port a) (\<lambda>local_port.
     and_then (parse_port c) (\<lambda>remote_port.
       Inr (lf_new (SocketAddr (V4 127 0 0 1) local_port) b remote_port)))"
| "lf_parse_parts v6 s [a, b, c, d] =
     and_then (parse_addr v6 a) (\<lambda>bind_addr.
     and_then (parse_port b) (\<lambda>local_port.
     and_then (parse_port d) (\<lambda>remote_port.
       Inr (lf_new (SocketAddr bind_addr local_port) c remote_port))))"
| "lf_parse_parts v6 s parts = Inl (InvalidFormat (''Invalid local forward format: '' @ s))"

definition lf_parse :: "(string \<Rightarrow> ip_addr option) \<Rightarrow> string \<Rightarrow> fwd_error + local_forward" where
  "lf_parse v6 s = lf_parse_parts v6 s (split_on (CHR '':'') s)"

fun rf_parse_parts :: "(string \<Rightarrow> ip_addr option) \<Rightarrow> string \<Rightarrow> string list \<Rightarrow> fwd_error + remote_forward" where
  "rf_parse_parts v6 s [a, b, c] =
     and_then (parse_port a) (\<lambda>remote_port.
     and_then (parse_port c) (\<lambda>local_port.
       Inr (rf_new (SocketAddr (V4 0 0 0 0) remote_port) b local_port)))"
| "rf_parse_parts v6 s [a, b, c, d] =
     and_then (parse_addr v6 a) (\<lambda>bind_addr.
     and_then (parse_port b) (\<lambda>remote_port.
     and_then (parse_port d) (\<lambda>local_port.
       Inr (rf_new (SocketAddr bind_addr remote_port) c local_port))))"
| "rf_parse_parts v6 s parts = Inl (InvalidFormat (''Invalid remote forward format: '' @ s))"

definition rf_parse :: "(string \<Rightarrow> ip_addr option) \<Rightarrow> string \<Rightarrow> fwd_error + remote_forward" where
  "rf_parse v6 s = rf_parse_parts v6 s (split_on (CHR '':'') s)"

text \<open>\<open>rfind(':')\<close>: the text before and after the last colon.\<close>

definition rsplit_colon :: "string \<Rightarrow> (string \<times> string) option" where
  "rsplit_colon s =
     (let ps = split_on (CHR '':'') s in
      if length ps = 1 then None else Some (join_with '':'' (butlast ps), last ps))"

definition df_parse :: "(string \<Rightarrow> ip_addr option) \<Rightarrow> string \<Rightarrow> fwd_error + dynamic_forward" where
  "df_parse v6 s =
     (case rsplit_colon s of
        Some (addr, p) \<Rightarrow>
          and_then (parse_addr v6 addr) (\<lambda>bind_addr.
          and_then (parse_port p) (\<lambda>port. Inr (df_new (SocketAddr bind_addr port))))
      | None \<Rightarrow>
          and_then (parse_port s) (\<lambda>port. Inr (df_new (SocketAddr (V4 127 0 0 1) port))))"

section \<open>The forwarder\<close>

record forward_stats =
  fs_bytes_sent :: u64
  fs_bytes_received :: u64
  fs_connections :: u64
  fs_active_connections :: u64

definition ForwardStats_default :: forward_stats where
  "ForwardStats_default =
     \<lparr>fs_bytes_sent = 0, fs_bytes_received = 0, fs_connections = 0, fs_active_connections = 0\<rparr>"

record forwarder =
  fw_provider :: bool
  fw_next_id :: u64
  fw_local_handles :: "(u64, local_forward) hmap"
  fw_remote_handles :: "(u64, remote_forward) hmap"
  fw_dynamic_handles :: "(u64, dynamic_forward) hmap"
  fw_stats :: "(u64, forward_stats) hmap"

definition fw_new :: forwarder where
  "fw_new =
     \<lparr>fw_provider = False, fw_next_id = 1, fw_local_handles = [], fw_remote_handles = [],
      fw_dynamic_handles = [], fw_stats = []\<rparr>"

definition fw_with_tunnel_provider :: forwarder where
  "fw_with_tunnel_provider = fw_new\<lparr>fw_provider := True\<rparr>"

definition set_tunnel_provider :: "forwarder \<Rightarrow> forwarder" where
  "set_tunnel_provider f = f\<lparr>fw_provider := True\<rparr>"

text \<open>The identifier a start takes, with its fresh statistics.\<close>

definition fw_take_id :: "forwarder \<Rightarrow> u64 \<times> forwarder" where
  "fw_take_id f =
     (fw_next_id f,
      f\<lparr>fw_next_id := fw_next_id f + 1,
        fw_stats := hm_insert (fw_next_id f) ForwardStats_default (fw_stats f)\<rparr>)"

definition start_local :: "(socket_addr \<Rightarrow> string + unit) \<Rightarrow> local_forward \<Rightarrow> forwarder \<Rightarrow> (fwd_error + u64) \<times> forwarder" where
  "start_local bind config f =
     (if \<not> fw_provider f then (Inl NoTunnelProvider, f)
      else case bind (lf_bind_addr config) of
             Inl e \<Rightarrow> (Inl (NetError e), f)
           | Inr _ \<Rightarrow>
               (case fw_take_id f of (i, f1) \<Rightarrow>
                  (Inr i, f1\<lparr>fw_local_handles := hm_insert i config (fw_local_handles f1)\<rparr>)))"

text \<open>The answer of \<open>tcpip_forward\<close> is the port the server has bound.\<close>

definition start_remote :: "(ip_addr \<Rightarrow> nat \<Rightarrow> string + nat) \<Rightarrow> remote_forward \<Rightarrow> forwarder \<Rightarrow> (fwd_error + u64) \<times> forwarder" where
  "start_remote tcpip_forward config f =
     (if \<not> fw_provider f then (Inl NoTunnelProvider, f)
      else case tcpip_forward (sa_ip (rf_bind_addr config)) (sa_port (rf_bind_addr config)) of
             Inl e \<Rightarrow> (Inl (NetError e), f)
           | Inr actual_port \<Rightarrow>
               (case fw_take_id f of (i, f1) \<Rightarrow>
                  (Inr i, f1\<lparr>fw_remote_handles := hm_insert i config (fw_remote_handles f1)\<rparr>)))"

definition start_dynamic :: "(socket_addr \<Rightarrow> string + unit) \<Rightarrow> dynamic_forward \<Rightarrow> forwarder \<Rightarrow> (fwd_error + u64) \<times> forwarder" where
  "start_dynamic bind config f =
     (if \<not> fw_provider f then (Inl NoTunnelProvider, f)
      else case bind (df_bind_addr config) of
             Inl e \<Rightarrow> (Inl (NetError e), f)
           | Inr _ \<Rightarrow>
               (case fw_take_id f of (i, f1) \<Rightarrow>
                  (Inr i, f1\<lparr>fw_dynamic_handles := hm_insert i config (fw_dynamic_handles f1)\<rparr>)))"

definition upd_stats :: "u64 \<Rightarrow> (forward_stats \<Rightarrow> forward_stats) \<Rightarrow> (u64, forward_stats) hmap \<Rightarrow> (u64, forward_stats) hmap" where
  "upd_stats i g m = (case hm_get m i of Some st \<Rightarrow> hm_insert i (g st) m | None \<Rightarrow> m)"

definition fw_accept :: "u64 \<Rightarrow> forwarder \<Rightarrow> forwarder" where
  "fw_accept i f =
     f\<lparr>fw_stats := upd_stats i (\<lambda>st. st\<lparr>fs_connections := fs_connections st + 1,
                                        fs_active_connections := fs_active_connections st + 1\<rparr>) (fw_stats f)\<rparr>"

text \<open>\<open>saturating_sub\<close>.\<close>

definition fw_conn_end :: "u64 \<Rightarrow> forwarder \<Rightarrow> forwarder" where
  "fw_conn_end i f =
     f\<lparr>fw_stats := upd_stats i (\<lambda>st. st\<lparr>fs_active_connections :=
          (if fs_active_connections st = 0 then 0 else fs_active_connections st - 1)\<rparr>) (fw_stats f)\<rparr>"

definition cancel_local :: "u64 \<Rightarrow> forwarder \<Rightarrow> forwarder" where
  "cancel_local i f = f\<lparr>fw_local_handles := hm_remove i (fw_local_handles f)\<rparr>"

definition cancel_dynamic :: "u64 \<Rightarrow> forwarder \<Rightarrow> forwarder" where
  "cancel_dynamic i f = f\<lparr>fw_dynamic_handles := hm_remove i (fw_dynamic_handles f)\<rparr>"

text \<open>
  The waiting task of a remote forward holds the address and port of its configuration: it asks the
  tunnel to cancel that address and port, then forgets the handle.
\<close>

definition cancel_remote :: "u64 \<Rightarrow> forwarder \<Rightarrow> (ip_addr \<times> nat) option \<times> forwarder" where
  "cancel_remote i f =
     (map_option (\<lambda>c. (sa_ip (rf_bind_addr c), sa_port (rf_bind_addr c))) (hm_get (fw_remote_handles f) i),
      f\<lparr>fw_remote_handles := hm_remove i (fw_remote_handles f)\<rparr>)"

definition get_stats :: "u64 \<Rightarrow> forwarder \<Rightarrow> forward_stats option" where
  "get_stats i f = hm_get (fw_stats f) i"

definition list_local :: "forwarder \<Rightarrow> (u64 \<times> local_forward) list" where
  "list_local f = fw_local_handles f"

definition list_remote :: "forwarder \<Rightarrow> (u64 \<times> remote_forward) list" where
  "list_remote f = fw_remote_handles f"

definition list_dynamic :: "forwarder \<Rightarrow> (u64 \<times> dynamic_forward) list" where
  "list_dynamic f = fw_dynamic_handles f"

section \<open>The copy loop\<close>

text \<open>
  What one round of the loop sees: a read of one side with, if it got data, what the writes to the
  other side return. \<open>tunnel.write\<close> reports how many bytes it took; \<open>write_all\<close> takes all or fails.
\<close>

datatype copy_event =
    FromLocal "string + u8 list" "string + nat" "string + unit"
  | FromTunnel "string + u8 list" "string + unit"

record copy_state =
  cp_to_tunnel :: "u8 list"
  cp_to_local :: "u8 list"
  cp_stats :: "(u64, forward_stats) hmap"

definition count_sent :: "u64 \<Rightarrow> nat \<Rightarrow> (u64, forward_stats) hmap \<Rightarrow> (u64, forward_stats) hmap" where
  "count_sent i n = upd_stats i (\<lambda>st. st\<lparr>fs_bytes_sent := fs_bytes_sent st + of_nat n\<rparr>)"

definition count_received :: "u64 \<Rightarrow> nat \<Rightarrow> (u64, forward_stats) hmap \<Rightarrow> (u64, forward_stats) hmap" where
  "count_received i n = upd_stats i (\<lambda>st. st\<lparr>fs_bytes_received := fs_bytes_received st + of_nat n\<rparr>)"

fun copy_loop :: "u64 \<Rightarrow> copy_event list \<Rightarrow> copy_state \<Rightarrow> ((string + unit) \<times> copy_state) option" where
  "copy_loop i [] c = None"
| "copy_loop i (FromLocal r w fl # evs) c =
     (case r of
        Inl e \<Rightarrow> Some (Inl e, c)
      | Inr bs \<Rightarrow>
          if bs = [] then Some (Inr (), c)
          else
            (case w of
               Inl e \<Rightarrow> Some (Inl e, c)
             | Inr k \<Rightarrow>
                 (let c1 = c\<lparr>cp_to_tunnel := cp_to_tunnel c @ take k bs\<rparr> in
                  case fl of
                    Inl e \<Rightarrow> Some (Inl e, c1)
                  | Inr _ \<Rightarrow>
                      copy_loop i evs (c1\<lparr>cp_stats := count_sent i (length bs) (cp_stats c1)\<rparr>))))"
| "copy_loop i (FromTunnel r w # evs) c =
     (case r of
        Inl e \<Rightarrow> Some (Inl e, c)
      | Inr bs \<Rightarrow>
          if bs = [] then Some (Inr (), c)
          else
            (case w of
               Inl e \<Rightarrow> Some (Inl e, c)
             | Inr _ \<Rightarrow>
                 copy_loop i evs (c\<lparr>cp_to_local := cp_to_local c @ bs,
                                    cp_stats := count_received i (length bs) (cp_stats c)\<rparr>)))"

definition copy_init :: "(u64, forward_stats) hmap \<Rightarrow> copy_state" where
  "copy_init stats = \<lparr>cp_to_tunnel = [], cp_to_local = [], cp_stats = stats\<rparr>"

text \<open>
  \<open>open_direct_tcpip\<close> of the tunnel provider: destination host and port, origin address and port.
\<close>

type_synonym open_direct_tcpip = "string \<Rightarrow> nat \<Rightarrow> ip_addr \<Rightarrow> nat \<Rightarrow> string + unit"

definition handle_local_forward_connection ::
  "open_direct_tcpip \<Rightarrow> u64 \<Rightarrow> socket_addr \<Rightarrow> string \<Rightarrow> nat \<Rightarrow> copy_event list \<Rightarrow> (u64, forward_stats) hmap \<Rightarrow>
     ((string + unit) \<times> copy_state) option" where
  "handle_local_forward_connection open_direct i peer_addr remote_host remote_port evs stats =
     (case open_direct remote_host remote_port (sa_ip peer_addr) (sa_port peer_addr) of
        Inl e \<Rightarrow> Some (Inl e, copy_init stats)
      | Inr _ \<Rightarrow> copy_loop i evs (copy_init stats))"

definition handle_remote_forward_incoming ::
  "(string \<Rightarrow> string + unit) \<Rightarrow> u64 \<Rightarrow> string \<Rightarrow> nat \<Rightarrow> copy_event list \<Rightarrow> (u64, forward_stats) hmap \<Rightarrow>
     ((string + unit) \<times> copy_state) option" where
  "handle_remote_forward_incoming connect i local_host local_port evs stats =
     (case connect (local_host @ '':'' @ show_nat local_port) of
        Inl e \<Rightarrow> Some (Inl e, copy_init stats)
      | Inr _ \<Rightarrow> copy_loop i evs (copy_init stats))"

section \<open>SOCKS5\<close>

datatype socks_error =
    HandshakeTooShort
  | UnsupportedVersion u8
  | UnexpectedEof
  | InvalidRequestVersion
  | UnsupportedCommand u8
  | UnsupportedAddressType u8
  | InvalidUtf8
  | TunnelError string

definition read_exact :: "nat \<Rightarrow> u8 list \<Rightarrow> socks_error + u8 list \<times> u8 list" where
  "read_exact n s = (if length s < n then Inl UnexpectedEof else Inr (take n s, drop n s))"

definition from_be_bytes :: "u8 list \<Rightarrow> nat" where
  "from_be_bytes bs = foldl (\<lambda>a b. a * 256 + unat b) 0 bs"

definition reply :: "u8 \<Rightarrow> u8 list" where
  "reply code = [5, code, 0, 1, 0, 0, 0, 0, 0, 0]"

text \<open>
  A stage of the handshake returns what was written and either an error or its result. The first read
  asks for two bytes and gets \<open>got\<close> of them.
\<close>

definition socks_greeting :: "nat \<Rightarrow> u8 list \<Rightarrow> u8 list \<times> (socks_error + u8 list)" where
  "socks_greeting got s =
     (if min got (length s) < 2 then ([], Inl HandshakeTooShort)
      else if s ! 0 \<noteq> 5 then ([], Inl (UnsupportedVersion (s ! 0)))
      else
        (case read_exact (unat (s ! 1)) (drop 2 s) of
           Inl e \<Rightarrow> ([], Inl e)
         | Inr (methods, rest) \<Rightarrow> ([5, 0], Inr rest)))"

definition read_port :: "string \<Rightarrow> u8 list \<Rightarrow> socks_error + string \<times> nat \<times> u8 list" where
  "read_port host s =
     and_then (read_exact 2 s) (\<lambda>(port_buf, rest). Inr (host, from_be_bytes port_buf, rest))"

definition show_octets :: "u8 list \<Rightarrow> string" where
  "show_octets bs = join_with ''.'' (map (\<lambda>b. show_nat (unat b)) bs)"

definition socks_domain :: "u8 list \<Rightarrow> socks_error + string \<times> nat \<times> u8 list" where
  "socks_domain s =
     and_then (read_exact 1 s) (\<lambda>(len_buf, s1).
     and_then (read_exact (unat (len_buf ! 0)) s1) (\<lambda>(domain, s2).
     and_then (read_exact 2 s2) (\<lambda>(port_buf, rest).
       case from_utf8 domain of
         None \<Rightarrow> Inl InvalidUtf8
       | Some host \<Rightarrow> Inr (host, from_be_bytes port_buf, rest))))"

definition socks_address ::
  "(u8 list \<Rightarrow> string) \<Rightarrow> u8 \<Rightarrow> u8 list \<Rightarrow> u8 list \<times> (socks_error + string \<times> nat \<times> u8 list)" where
  "socks_address show_v6 atyp s =
     (if atyp = 1 then
        ([], and_then (read_exact 4 s) (\<lambda>(addr, s1). read_port (show_octets addr) s1))
      else if atyp = 3 then ([], socks_domain s)
      else if atyp = 4 then
        ([], and_then (read_exact 16 s) (\<lambda>(addr, s1). read_port (show_v6 addr) s1))
      else (reply 8, Inl (UnsupportedAddressType atyp)))"

definition socks_request ::
  "(u8 list \<Rightarrow> string) \<Rightarrow> u8 list \<Rightarrow> u8 list \<times> (socks_error + string \<times> nat \<times> u8 list)" where
  "socks_request show_v6 s =
     (case read_exact 4 s of
        Inl e \<Rightarrow> ([], Inl e)
      | Inr (request, rest) \<Rightarrow>
          if request ! 0 \<noteq> 5 then ([], Inl InvalidRequestVersion)
          else if request ! 1 \<noteq> 1 then (reply 7, Inl (UnsupportedCommand (request ! 1)))
          else socks_address show_v6 (request ! 3) rest)"

definition socks_handshake ::
  "(u8 list \<Rightarrow> string) \<Rightarrow> nat \<Rightarrow> u8 list \<Rightarrow> u8 list \<times> (socks_error + string \<times> nat \<times> u8 list)" where
  "socks_handshake show_v6 got s =
     (case socks_greeting got s of
        (w, Inl e) \<Rightarrow> (w, Inl e)
      | (w, Inr rest) \<Rightarrow> (case socks_request show_v6 rest of (w1, r) \<Rightarrow> (w @ w1, r)))"

text \<open>
  The whole connection: handshake, tunnel, reply, copy. The result is what was written to the client before the copy, and the outcome.
\<close>

definition handle_socks_connection ::
  "(u8 list \<Rightarrow> string) \<Rightarrow> open_direct_tcpip \<Rightarrow> u64 \<Rightarrow> socket_addr \<Rightarrow> nat \<Rightarrow> u8 list \<Rightarrow> copy_event list \<Rightarrow>
     (u64, forward_stats) hmap \<Rightarrow> u8 list \<times> (((socks_error + unit) \<times> copy_state) option)" where
  "handle_socks_connection show_v6 open_direct i peer_addr got s evs stats =
     (case socks_handshake show_v6 got s of
        (w, Inl e) \<Rightarrow> (w, Some (Inl e, copy_init stats))
      | (w, Inr (host, port, rest)) \<Rightarrow>
          (case open_direct host port (sa_ip peer_addr) (sa_port peer_addr) of
             Inr _ \<Rightarrow>
               (w @ reply 0,
                map_option (\<lambda>(r, c). (case r of Inl e \<Rightarrow> Inl (TunnelError e) | Inr u \<Rightarrow> Inr u, c))
                  (copy_loop i evs (copy_init stats)))
           | Inl e \<Rightarrow> (w @ reply 5, Some (Inl (TunnelError e), copy_init stats))))"

section \<open>Lemmas on specifications\<close>

lemma split_on_length: "length (split_on c s) = Suc (count_list s c)"
  by (induction s) auto

lemma parse_port_show [simp]: "p < 65536 \<Longrightarrow> parse_port (show_nat p) = Inr p"
  by (simp add: parse_port_def)

lemma colon_notin_ipv4: "CHR '':'' \<notin> set (show_ipv4 a b c d)"
  by (simp add: show_ipv4_def)

lemma parse_addr_ipv4 [simp]:
  "a < 256 \<Longrightarrow> b < 256 \<Longrightarrow> c < 256 \<Longrightarrow> d < 256 \<Longrightarrow> parse_addr v6 (show_ipv4 a b c d) = Inr (V4 a b c d)"
  by (simp add: parse_addr_def parse_ip_def)

definition colons :: "string list \<Rightarrow> string" where
  "colons ps = join_with '':'' ps"

lemma split_colons: "(\<And>p. p \<in> set ps \<Longrightarrow> CHR '':'' \<notin> set p) \<Longrightarrow> ps \<noteq> [] \<Longrightarrow> split_on (CHR '':'') (colons ps) = ps"
proof (induction ps rule: induct_list012)
  case (3 p q ps)
  have "split_on (CHR '':'') (colons (q # ps)) = q # ps"
    using "3.prems"(1) by (intro "3.IH"(2)) auto
  with "3.prems"(1) [of p] show ?case by (simp add: colons_def split_on_append)
qed (simp_all add: colons_def split_on_none)

lemma rsplit_colons2:
  "CHR '':'' \<notin> set a \<Longrightarrow> CHR '':'' \<notin> set b \<Longrightarrow> rsplit_colon (colons [a, b]) = Some (a, b)"
proof -
  assume "CHR '':'' \<notin> set a" "CHR '':'' \<notin> set b"
  then have "split_on (CHR '':'') (colons [a, b]) = [a, b]" by (intro split_colons) auto
  then show ?thesis by (simp add: rsplit_colon_def)
qed

lemma rsplit_none: "CHR '':'' \<notin> set a \<Longrightarrow> rsplit_colon a = None"
  by (simp add: rsplit_colon_def split_on_none)

section \<open>Lemmas on identifiers\<close>

datatype fw_op =
    StartLocal "socket_addr \<Rightarrow> string + unit" local_forward
  | StartRemote "ip_addr \<Rightarrow> nat \<Rightarrow> string + nat" remote_forward
  | StartDynamic "socket_addr \<Rightarrow> string + unit" dynamic_forward
  | Accept u64
  | ConnEnd u64
  | CancelLocal u64
  | CancelRemote u64
  | CancelDynamic u64
  | SetProvider

fun fw_step :: "fw_op \<Rightarrow> forwarder \<Rightarrow> forwarder" where
  "fw_step (StartLocal b c) f = snd (start_local b c f)"
| "fw_step (StartRemote b c) f = snd (start_remote b c f)"
| "fw_step (StartDynamic b c) f = snd (start_dynamic b c f)"
| "fw_step (Accept i) f = fw_accept i f"
| "fw_step (ConnEnd i) f = fw_conn_end i f"
| "fw_step (CancelLocal i) f = cancel_local i f"
| "fw_step (CancelRemote i) f = snd (cancel_remote i f)"
| "fw_step (CancelDynamic i) f = cancel_dynamic i f"
| "fw_step SetProvider f = set_tunnel_provider f"

definition fw_run :: "fw_op list \<Rightarrow> forwarder \<Rightarrow> forwarder" where
  "fw_run xs f = snd (run_ops (\<lambda>x f. ([] :: unit list, fw_step x f)) xs f)"

lemma fw_run_simps [simp]:
  "fw_run [] f = f"
  "fw_run (x # xs) f = fw_run xs (fw_step x f)"
  by (simp_all add: fw_run_def split_beta Let_def)

text \<open>
  After fewer than \<open>n\<close> operations: every stored identifier is smaller than the next one, and a forward
  has at most as many active connections as connections, and fewer than \<open>n\<close> of those.
\<close>

definition below :: "u64 \<Rightarrow> (u64, 'v) hmap \<Rightarrow> bool" where
  "below n m = hm.all_entries (\<lambda>k _. unat k < unat n) m"

definition stat_ok :: "nat \<Rightarrow> u64 \<Rightarrow> forward_stats \<Rightarrow> bool" where
  "stat_ok n k st \<longleftrightarrow>
     unat (fs_active_connections st) \<le> unat (fs_connections st) \<and> unat (fs_connections st) < n"

definition fw_inv :: "nat \<Rightarrow> forwarder \<Rightarrow> bool" where
  "fw_inv n f \<longleftrightarrow>
     unat (fw_next_id f) \<le> n \<and> below (fw_next_id f) (fw_local_handles f) \<and>
     below (fw_next_id f) (fw_remote_handles f) \<and> below (fw_next_id f) (fw_dynamic_handles f) \<and>
     below (fw_next_id f) (fw_stats f) \<and> hm.all_entries (stat_ok n) (fw_stats f)"

lemma unat_Suc_u64: "unat (w :: u64) < 2 ^ 64 - 1 \<Longrightarrow> unat (w + 1) = Suc (unat w)"
  by (simp add: unat_word_ariths)

lemma below_next: "below w m \<Longrightarrow> unat w < 2 ^ 64 - 1 \<Longrightarrow> below (w + 1) m"
  by (auto simp: below_def hm.all_entries_def unat_Suc_u64 intro: less_SucI)

lemma below_del: "below w m \<Longrightarrow> below w (hm_remove k m)"
  by (simp add: below_def hm.all_entries_del)

lemma below_insert: "below w m \<Longrightarrow> unat w < 2 ^ 64 - 1 \<Longrightarrow> below (w + 1) (hm_insert w v m)"
  using below_next [of w m]
  by (simp add: below_def hm.all_entries_put unat_Suc_u64)

lemma stat_ok_Suc: "hm.all_entries (stat_ok n) m \<Longrightarrow> hm.all_entries (stat_ok (Suc n)) m"
  by (auto simp: hm.all_entries_def stat_ok_def intro: less_SucI)

lemma fw_take_id_inv:
  assumes "fw_inv n f" "n < 2 ^ 64 - 1" "fw_take_id f = (i, f1)"
  shows "fw_inv (Suc n) f1 \<and> i = fw_next_id f \<and> fw_next_id f1 = i + 1 \<and> unat i < 2 ^ 64 - 1 \<and>
    fw_local_handles f1 = fw_local_handles f \<and> fw_remote_handles f1 = fw_remote_handles f \<and>
    fw_dynamic_handles f1 = fw_dynamic_handles f"
proof -
  have w: "unat (fw_next_id f) < 2 ^ 64 - 1" using assms(1,2) by (simp add: fw_inv_def)
  have "hm.all_entries (stat_ok (Suc n)) (hm_insert (fw_next_id f) ForwardStats_default (fw_stats f))"
    using assms(1) by (intro hm.all_entries_put stat_ok_Suc) (simp_all add: fw_inv_def stat_ok_def ForwardStats_default_def)
  then show ?thesis using assms w
    by (auto simp: fw_take_id_def fw_inv_def unat_Suc_u64 intro: below_next [OF _ w] below_insert [OF _ w])
qed

lemma upd_stats_all:
  "hm.all_entries P m \<Longrightarrow> (\<And>k st. P k st \<Longrightarrow> Q k (g st)) \<Longrightarrow> (\<And>k st. P k st \<Longrightarrow> Q k st) \<Longrightarrow>
   hm.all_entries Q (upd_stats i g m)"
  by (auto simp: upd_stats_def hm.all_entries_def split: option.split)

lemma stat_ok_accept:
  assumes "stat_ok n k st" "n < 2 ^ 64 - 1"
  shows "stat_ok (Suc n) k (st\<lparr>fs_connections := fs_connections st + 1,
    fs_active_connections := fs_active_connections st + 1\<rparr>)"
proof -
  have "unat (fs_connections st) < 2 ^ 64 - 1" "unat (fs_active_connections st) < 2 ^ 64 - 1"
    using assms by (auto simp: stat_ok_def)
  then show ?thesis using assms by (simp add: stat_ok_def unat_Suc_u64)
qed

lemma stat_ok_end:
  assumes "stat_ok n k st"
  shows "stat_ok (Suc n) k (st\<lparr>fs_active_connections :=
    (if fs_active_connections st = 0 then 0 else fs_active_connections st - 1)\<rparr>)"
proof -
  have "unat (w - 1) \<le> unat w" if "w \<noteq> 0" for w :: u64
    using that by (simp add: unat_minus_one)
  with assms have "unat (if fs_active_connections st = 0 then 0 else fs_active_connections st - 1)
      \<le> unat (fs_connections st)"
    by (auto simp: stat_ok_def intro: le_trans)
  then show ?thesis using assms by (simp add: stat_ok_def)
qed

lemma fw_step_inv:
  assumes "fw_inv n f" "n < 2 ^ 64 - 1"
  shows "fw_inv (Suc n) (fw_step x f)"
proof -
  have later: "fw_inv (Suc n) f"
    using assms(1) by (auto simp: fw_inv_def intro: stat_ok_Suc)
  have st: "below w (fw_stats f) \<Longrightarrow> below w (upd_stats i g (fw_stats f))" for w i g
    unfolding below_def by (rule upd_stats_all) auto
  obtain i f1 where t: "fw_take_id f = (i, f1)" by (cases "fw_take_id f")
  note T = fw_take_id_inv [OF assms t]
  have sl: "fw_inv (Suc n) (f1\<lparr>fw_local_handles := hm_insert i c (fw_local_handles f1)\<rparr>)" for c
    using T assms(1) below_insert [of i "fw_local_handles f" c] by (auto simp: fw_inv_def)
  have sr: "fw_inv (Suc n) (f1\<lparr>fw_remote_handles := hm_insert i c (fw_remote_handles f1)\<rparr>)" for c
    using T assms(1) below_insert [of i "fw_remote_handles f" c] by (auto simp: fw_inv_def)
  have sd: "fw_inv (Suc n) (f1\<lparr>fw_dynamic_handles := hm_insert i c (fw_dynamic_handles f1)\<rparr>)" for c
    using T assms(1) below_insert [of i "fw_dynamic_handles f" c] by (auto simp: fw_inv_def)
  show ?thesis
  proof (cases x)
    case (StartLocal b c)
    then show ?thesis using later sl by (simp add: start_local_def t split: sum.split)
  next
    case (StartRemote b c)
    then show ?thesis using later sr by (simp add: start_remote_def t split: sum.split)
  next
    case (StartDynamic b c)
    then show ?thesis using later sd by (simp add: start_dynamic_def t split: sum.split)
  next
    case (Accept i)
    have "hm.all_entries (stat_ok (Suc n)) (fw_stats (fw_accept i f))"
      using assms unfolding fw_accept_def fw_inv_def
      by (auto intro!: upd_stats_all stat_ok_accept) (auto simp: stat_ok_def)
    then show ?thesis using later st by (simp add: Accept fw_inv_def fw_accept_def)
  next
    case (ConnEnd i)
    have "hm.all_entries (stat_ok (Suc n)) (fw_stats (fw_conn_end i f))"
      using assms unfolding fw_conn_end_def fw_inv_def
      by (auto intro!: upd_stats_all stat_ok_end) (auto simp: stat_ok_def)
    then show ?thesis using later st by (simp add: ConnEnd fw_inv_def fw_conn_end_def)
  qed (use later in \<open>auto simp: fw_inv_def cancel_local_def cancel_remote_def cancel_dynamic_def
      set_tunnel_provider_def intro: below_del\<close>)
qed

interpretation forwards: counted_machine "\<lambda>x f. ([] :: unit list, fw_step x f)" fw_inv "2 ^ 64 - 1"
  by unfold_locales (simp add: fw_step_inv)

lemma fw_run_inv:
  "fw_inv n f \<Longrightarrow> n + length xs < 2 ^ 64 \<Longrightarrow> fw_inv (n + length xs) (fw_run xs f)"
  unfolding fw_run_def by (rule forwards.run_counted) auto

lemma fw_inv_new: "fw_inv 1 fw_new"
  by (simp add: fw_inv_def fw_new_def below_def hm.all_entries_def)

lemma start_local_id: "fst (start_local b c f) = Inr i \<Longrightarrow> i = fw_next_id f"
  by (auto simp: start_local_def fw_take_id_def split: if_splits sum.splits)

lemma start_remote_id: "fst (start_remote b c f) = Inr i \<Longrightarrow> i = fw_next_id f"
  by (auto simp: start_remote_def fw_take_id_def split: if_splits sum.splits)

lemma start_dynamic_id: "fst (start_dynamic b c f) = Inr i \<Longrightarrow> i = fw_next_id f"
  by (auto simp: start_dynamic_def fw_take_id_def split: if_splits sum.splits)

lemma below_fresh: "below w m \<Longrightarrow> hm_get m w = None"
  by (cases "hm_get m w") (auto simp: below_def hm.all_entries_def)

section \<open>Lemmas on the copy loop\<close>

fun ev_eof :: "copy_event \<Rightarrow> bool" where
  "ev_eof (FromLocal r w fl) = (r = Inr [])"
| "ev_eof (FromTunnel r w) = (r = Inr [])"

fun ev_taken :: "copy_event \<Rightarrow> u8 list" where
  "ev_taken (FromLocal (Inr bs) w fl) = bs"
| "ev_taken _ = []"

fun ev_passed :: "copy_event \<Rightarrow> u8 list" where
  "ev_passed (FromLocal (Inr bs) (Inr k) fl) = take k bs"
| "ev_passed _ = []"

fun ev_back :: "copy_event \<Rightarrow> u8 list" where
  "ev_back (FromTunnel (Inr bs) w) = bs"
| "ev_back _ = []"

definition total :: "(copy_event \<Rightarrow> u8 list) \<Rightarrow> copy_event list \<Rightarrow> u8 list" where
  "total g evs = concat (map g (takeWhile (\<lambda>e. \<not> ev_eof e) evs))"

lemma get_upd_stats: "hm_get (upd_stats i g m) i = map_option g (hm_get m i)"
  by (simp add: upd_stats_def split: option.split)

definition add_counts :: "nat \<Rightarrow> nat \<Rightarrow> forward_stats \<Rightarrow> forward_stats" where
  "add_counts a b st = st\<lparr>fs_bytes_sent := fs_bytes_sent st + of_nat a,
     fs_bytes_received := fs_bytes_received st + of_nat b\<rparr>"

lemma add_counts_add: "add_counts a b (add_counts c d st) = add_counts (c + a) (d + b) st"
  by (simp add: add_counts_def add.assoc)

lemma count_sent_add: "count_sent i n = upd_stats i (add_counts n 0)"
proof -
  have "st\<lparr>fs_bytes_sent := fs_bytes_sent st + of_nat n\<rparr> = add_counts n 0 st" for st
    by (cases st) (simp add: add_counts_def)
  then show ?thesis by (simp add: count_sent_def)
qed

lemma count_received_add: "count_received i n = upd_stats i (add_counts 0 n)"
proof -
  have "st\<lparr>fs_bytes_received := fs_bytes_received st + of_nat n\<rparr> = add_counts 0 n st" for st
    by (cases st) (simp add: add_counts_def)
  then show ?thesis by (simp add: count_received_def)
qed

lemma add_counts_0 [simp]: "add_counts 0 0 st = st"
  by (cases st) (simp add: add_counts_def)

lemma copy_loop_total:
  "copy_loop i evs c = Some (Inr (), c') \<Longrightarrow>
   cp_to_tunnel c' = cp_to_tunnel c @ total ev_passed evs \<and>
   cp_to_local c' = cp_to_local c @ total ev_back evs \<and>
   hm_get (cp_stats c') i =
     map_option (add_counts (length (total ev_taken evs)) (length (total ev_back evs))) (hm_get (cp_stats c) i)"
proof (induction evs arbitrary: c)
  case (Cons e evs)
  show ?case
  proof (cases "ev_eof e")
    case True
    with Cons.prems show ?thesis
      by (cases e) (auto simp: total_def option.map_ident)
  next
    case False
    show ?thesis
    proof (cases e)
      case (FromLocal r w fl)
      with Cons.prems False obtain bs k where v: "r = Inr bs" "w = Inr k" "fl = Inr ()" "bs \<noteq> []"
        by (auto simp: Let_def split: sum.splits if_splits)
      let ?c = "c\<lparr>cp_to_tunnel := cp_to_tunnel c @ take k bs, cp_stats := count_sent i (length bs) (cp_stats c)\<rparr>"
      have "copy_loop i evs ?c = Some (Inr (), c')" using Cons.prems v FromLocal by simp
      then show ?thesis using Cons.IH [of ?c] v FromLocal
        by (simp add: total_def count_sent_add get_upd_stats option.map_comp comp_def add_counts_add)
    next
      case (FromTunnel r w)
      with Cons.prems False obtain bs where v: "r = Inr bs" "w = Inr ()" "bs \<noteq> []"
        by (auto split: sum.splits if_splits)
      let ?c = "c\<lparr>cp_to_local := cp_to_local c @ bs, cp_stats := count_received i (length bs) (cp_stats c)\<rparr>"
      have "copy_loop i evs ?c = Some (Inr (), c')" using Cons.prems v FromTunnel by simp
      then show ?thesis using Cons.IH [of ?c] v FromTunnel
        by (simp add: total_def count_received_add get_upd_stats option.map_comp comp_def add_counts_add)
    qed
  qed
qed simp

section \<open>Lemmas on the handshake\<close>

lemma read_exact_append [simp]: "length a = n \<Longrightarrow> read_exact n (a @ s) = Inr (a, s)"
  by (simp add: read_exact_def)

definition be16 :: "nat \<Rightarrow> u8 list" where
  "be16 p = [of_nat (p div 256), of_nat (p mod 256)]"

lemma length_be16 [simp]: "length (be16 p) = 2"
  by (simp add: be16_def)

lemma from_be16 [simp]: "p < 65536 \<Longrightarrow> from_be_bytes (be16 p) = p"
  by (simp add: be16_def from_be_bytes_def unat_of_nat)

lemma socks_greeting_ok:
  "length methods < 256 \<Longrightarrow>
   socks_greeting 2 (5 # of_nat (length methods) # methods @ s) = ([5, 0], Inr s)"
  by (simp add: socks_greeting_def unat_of_nat)

lemma socks_request_ok:
  "socks_request show_v6 (5 # 1 # rsv # atyp # s) = socks_address show_v6 atyp s"
  by (simp add: socks_request_def read_exact_def)

lemma socks_domain_ok:
  assumes "length d < 256" "utf8_ok (map unat d)" "p < 65536"
  shows "socks_domain (of_nat (length d) # d @ be16 p @ s) = Inr (string_of_bytes d, p, s)"
proof -
  have "read_exact 1 (of_nat (length d) # d @ be16 p @ s) = Inr ([of_nat (length d)], d @ be16 p @ s)"
    by (simp add: read_exact_def)
  then show ?thesis using assms by (simp add: socks_domain_def from_utf8_def unat_of_nat)
qed

lemma read_port_ok: "p < 65536 \<Longrightarrow> read_port h (be16 p @ s) = Inr (h, p, s)"
  by (simp add: read_port_def)

section \<open>Properties\<close>

text \<open>
  Port forward specifications parse back: the long and the short form of \<open>-L\<close>, the long form of
  \<open>-R\<close> and both forms of \<open>-D\<close>, written for an IPv4 address, ports and a host without colons, give that
  forward, with the loopback address where none is written.
\<close>

theorem forward_parse_roundtrip:
  assumes "a < 256" "b < 256" "c < 256" "d < 256" "p < 65536" "q < 65536" "CHR '':'' \<notin> set host"
  shows "lf_parse v6 (colons [show_ipv4 a b c d, show_nat p, host, show_nat q])
           = Inr (lf_new (SocketAddr (V4 a b c d) p) host q) \<and>
    lf_parse v6 (colons [show_nat p, host, show_nat q]) = Inr (lf_new (SocketAddr (V4 127 0 0 1) p) host q) \<and>
    rf_parse v6 (colons [show_ipv4 a b c d, show_nat p, host, show_nat q])
           = Inr (rf_new (SocketAddr (V4 a b c d) p) host q) \<and>
    df_parse v6 (colons [show_ipv4 a b c d, show_nat p]) = Inr (df_new (SocketAddr (V4 a b c d) p)) \<and>
    df_parse v6 (show_nat p) = Inr (df_new (SocketAddr (V4 127 0 0 1) p))"
proof -
  have long: "split_on (CHR '':'') (colons [show_ipv4 a b c d, show_nat p, host, show_nat q]) =
      [show_ipv4 a b c d, show_nat p, host, show_nat q]"
    using assms(7) colon_notin_ipv4 by (intro split_colons) auto
  have short: "split_on (CHR '':'') (colons [show_nat p, host, show_nat q]) = [show_nat p, host, show_nat q]"
    using assms(7) by (intro split_colons) auto
  show ?thesis using assms
    by (simp add: lf_parse_def rf_parse_def df_parse_def long short rsplit_colons2 rsplit_none colon_notin_ipv4)
qed

text \<open>
  The parser of \<open>-L\<close> accepts only texts with two or three colons, none of them in the host: an IPv6
  address, which has at least two of its own, can be neither bind address nor host, bracketed or not.
\<close>

theorem lf_parse_no_ipv6_text:
  assumes "lf_parse v6 s = Inr f"
  shows "CHR '':'' \<notin> set (lf_remote_host f) \<and> count_list s (CHR '':'') \<in> {2, 3}"
proof -
  let ?ps = "split_on (CHR '':'') s"
  have no: "p \<in> set ?ps \<Longrightarrow> CHR '':'' \<notin> set p" for p by (rule split_on_pieces)
  have n: "length ?ps = Suc (count_list s (CHR '':''))" by (rule split_on_length)
  from assms consider
      (short) x y z where "?ps = [x, y, z]" | (long) w x y z where "?ps = [w, x, y, z]"
    unfolding lf_parse_def by (elim lf_parse_parts.elims) auto
  then show ?thesis
  proof cases
    case short
    with assms have "lf_remote_host f = y" by (auto simp: lf_parse_def lf_new_def and_then_Inr_iff)
    with short n no [of y] show ?thesis by simp
  next
    case long
    with assms have "lf_remote_host f = y" by (auto simp: lf_parse_def lf_new_def and_then_Inr_iff)
    with long n no [of y] show ?thesis by simp
  qed
qed

text \<open>
  The SOCKS5 handshake decodes every CONNECT request: for a greeting with any methods and a domain
  name in UTF-8 or an IPv4 address, the destination is the one encoded, the client has been sent only
  the method choice, and what follows the request is left unread. The request is refused when the
  first read delivers a single byte of the greeting.
\<close>

theorem socks_connect_decoded:
  assumes "length methods < 256" "p < 65536" "length name < 256" "utf8_ok (map unat name)"
  shows "socks_handshake show_v6 2 (5 # of_nat (length methods) # methods @ [5, 1, rsv, 3]
           @ of_nat (length name) # name @ be16 p @ rest)
         = ([5, 0], Inr (string_of_bytes name, p, rest)) \<and>
    socks_handshake show_v6 2 (5 # of_nat (length methods) # methods @ [5, 1, rsv, 1]
           @ [a, b, c, d] @ be16 p @ rest)
         = ([5, 0], Inr (show_ipv4 (unat a) (unat b) (unat c) (unat d), p, rest)) \<and>
    socks_handshake show_v6 1 s = ([], Inl HandshakeTooShort)"
proof -
  have v4: "read_exact 4 (a # b # c # d # be16 p @ rest) = Inr ([a, b, c, d], be16 p @ rest)"
    by (simp add: read_exact_def)
  have short: "socks_greeting (Suc 0) s = ([], Inl HandshakeTooShort)"
    by (simp add: socks_greeting_def min_def)
  show ?thesis using assms
    by (simp add: socks_handshake_def socks_greeting_ok socks_request_ok socks_address_def socks_domain_ok
        v4 read_port_ok show_octets_def show_ipv4_def short)
qed

text \<open>
  Forwarded bytes. When the copy loop ends by an end of file, everything read from the tunnel has
  gone to the local socket, in order; the tunnel has got of each local read only the bytes its write
  accepted, the rest being dropped, while the statistics count all bytes read.
\<close>

theorem copy_loop_accounting:
  assumes "copy_loop i evs (copy_init stats) = Some (Inr (), c)"
  shows "cp_to_local c = total ev_back evs \<and> cp_to_tunnel c = total ev_passed evs \<and>
    hm_get (cp_stats c) i = map_option (\<lambda>st. st\<lparr>
      fs_bytes_sent := fs_bytes_sent st + of_nat (length (total ev_taken evs)),
      fs_bytes_received := fs_bytes_received st + of_nat (length (total ev_back evs))\<rparr>) (hm_get stats i)"
proof -
  have "add_counts x y = (\<lambda>st. st\<lparr>fs_bytes_sent := fs_bytes_sent st + of_nat x,
      fs_bytes_received := fs_bytes_received st + of_nat y\<rparr>)" for x y
    by (simp add: fun_eq_iff add_counts_def)
  with copy_loop_total [OF assms] show ?thesis by (simp add: copy_init_def)
qed

text \<open>
  Identifiers of forwards are unique over the three kinds: in fewer than \<open>2 ^ 64 - 1\<close> operations of
  any kind, a start returns an identifier no forward and no statistics entry has ever used since, and
  a forward never has more active connections than connections.
\<close>

theorem forward_ids_fresh:
  assumes "1 + length xs < 2 ^ 64"
    and "fst (start_local b config (fw_run xs fw_new)) = Inr i \<or>
         fst (start_remote b' config' (fw_run xs fw_new)) = Inr i \<or>
         fst (start_dynamic b config'' (fw_run xs fw_new)) = Inr i"
  shows "hm_get (fw_local_handles (fw_run xs fw_new)) i = None \<and>
    hm_get (fw_remote_handles (fw_run xs fw_new)) i = None \<and>
    hm_get (fw_dynamic_handles (fw_run xs fw_new)) i = None \<and>
    get_stats i (fw_run xs fw_new) = None \<and>
    (case get_stats k (fw_run xs fw_new) of
       Some st \<Rightarrow> unat (fs_active_connections st) \<le> unat (fs_connections st) | None \<Rightarrow> True)"
proof -
  have inv: "fw_inv (1 + length xs) (fw_run xs fw_new)"
    using assms(1) by (intro fw_run_inv fw_inv_new)
  have "i = fw_next_id (fw_run xs fw_new)"
    using assms(2) start_local_id start_remote_id start_dynamic_id by blast
  with inv show ?thesis
    by (auto simp: fw_inv_def get_stats_def below_fresh hm.all_entries_def stat_ok_def split: option.split)
qed

text \<open>
  Cancelling a remote forward asks the server to give up the port that was requested, not the one
  the server bound: for a request of port 0, where the server chooses, it names port 0.
\<close>

theorem remote_cancel_names_requested_port:
  assumes "start_remote tcpip_forward config f = (Inr i, f')"
  shows "fst (cancel_remote i f') = Some (sa_ip (rf_bind_addr config), sa_port (rf_bind_addr config))"
  using assms by (auto simp: start_remote_def cancel_remote_def fw_take_id_def split: if_splits sum.splits)

section \<open>Witnesses\<close>

theorem forward_parse_roundtrip_witness:
  "lf_parse (\<lambda>_. None) (colons [show_ipv4 10 0 0 1, show_nat 8080, ''db'', show_nat 5432])
     = Inr (lf_new (SocketAddr (V4 10 0 0 1) 8080) ''db'' 5432)"
  using forward_parse_roundtrip [of 10 0 0 1 8080 5432 "''db''" "\<lambda>_. None"] by simp

theorem lf_parse_no_ipv6_text_witness:
  "CHR '':'' \<notin> set (lf_remote_host (lf_new (SocketAddr (V4 127 0 0 1) 1) ''h'' 2))"
proof -
  have "lf_parse (\<lambda>_. None) (colons [show_nat 1, ''h'', show_nat 2]) = Inr (lf_new (SocketAddr (V4 127 0 0 1) 1) ''h'' 2)"
  proof -
    have "split_on (CHR '':'') (colons [show_nat 1, ''h'', show_nat 2]) = [show_nat 1, ''h'', show_nat 2]"
      by (rule split_colons) auto
    then show ?thesis by (simp add: lf_parse_def)
  qed
  from lf_parse_no_ipv6_text [OF this] show ?thesis by simp
qed

theorem socks_connect_decoded_witness:
  "socks_handshake (\<lambda>_. []) 2 [5, 1, 0, 5, 1, 0, 1, 10, 0, 0, 1, 0, 80]
     = ([5, 0], Inr (show_ipv4 10 0 0 1, 80, []))"
  using socks_connect_decoded [of "[0]" 80 "[]" "\<lambda>_. []" 0 "[]" 10 0 0 1 "[]"]
  by (simp add: be16_def)

theorem copy_loop_accounting_witness:
  "cp_to_tunnel (copy_init []\<lparr>cp_to_tunnel := [1, 2]\<rparr>) =
     total ev_passed [FromLocal (Inr [1, 2, 3]) (Inr 2) (Inr ()), FromTunnel (Inr []) (Inr ())]"
proof -
  have "copy_loop 1 [FromLocal (Inr [1, 2, 3]) (Inr 2) (Inr ()), FromTunnel (Inr []) (Inr ())] (copy_init []) =
      Some (Inr (), copy_init []\<lparr>cp_to_tunnel := [1, 2]\<rparr>)"
    by (simp add: copy_init_def count_sent_def upd_stats_def)
  from copy_loop_accounting [OF this] show ?thesis by simp
qed

theorem forward_ids_fresh_witness:
  "get_stats 1 (fw_run [SetProvider] fw_new) = None"
proof -
  have "fst (start_local (\<lambda>_. Inr ()) (lf_new (SocketAddr (V4 127 0 0 1) 1) ''h'' 2) (fw_run [SetProvider] fw_new)) = Inr 1"
    by (simp add: start_local_def fw_take_id_def set_tunnel_provider_def fw_new_def)
  from forward_ids_fresh [OF _ disjI1 [OF this], of 1] show ?thesis by simp
qed

theorem remote_cancel_names_requested_port_witness:
  "fst (cancel_remote 1 (snd (start_remote (\<lambda>_ _. Inr 4711) (rf_new (SocketAddr (V4 0 0 0 0) 0) ''h'' 2) fw_with_tunnel_provider)))
     = Some (V4 0 0 0 0, 0)"
proof -
  have "start_remote (\<lambda>_ _. Inr 4711) (rf_new (SocketAddr (V4 0 0 0 0) 0) ''h'' 2) fw_with_tunnel_provider =
      (Inr 1, snd (start_remote (\<lambda>_ _. Inr 4711) (rf_new (SocketAddr (V4 0 0 0 0) 0) ''h'' 2) fw_with_tunnel_provider))"
    by (simp add: start_remote_def fw_take_id_def fw_with_tunnel_provider_def fw_new_def)
  from remote_cancel_names_requested_port [OF this] show ?thesis by (simp add: rf_new_def)
qed

end
