(* ===== verification/Recording.thy ===== *)
theory Recording
  imports Ssh_Types Paths
begin

text \<open>
  \<open>crates/omni-ssh/src/recording/mod.rs\<close>: the session recorder, its writers (file, cloud, integrity
  wrapper) and the signed chunks. The hash, the MAC, base64 and the JSON encoders are parameters. What
  the operating system and the upload service will answer, in order, is part of a writer's state
  (an exhausted script answers success); the file content and the chunks sent are logs.
  The trait \<open>RecordingWriter\<close> is the datatype of its implementations, and its contract the locale
  \<open>line_writer\<close>.
\<close>

section \<open>Configuration\<close>

record rec_config =
  rec_enabled :: bool
  rec_local_dir :: "string option"
  rec_cloud_url :: "string option"
  rec_chunk_size :: nat
  rec_record_input :: bool
  rec_integrity_key :: "string option"

definition rec_default_chunk_size :: nat where
  "rec_default_chunk_size = 65536"

definition rec_config_default :: rec_config where
  "rec_config_default =
     \<lparr>rec_enabled = False, rec_local_dir = None, rec_cloud_url = None,
      rec_chunk_size = rec_default_chunk_size, rec_record_input = False, rec_integrity_key = None\<rparr>"

section \<open>Signed chunks\<close>

record recording_crypto =
  rc_sha256 :: "u8 list \<Rightarrow> u8 list"
  rc_hmac :: "u8 list \<Rightarrow> u8 list \<Rightarrow> u8 list"
  rc_b64_encode :: "u8 list \<Rightarrow> string"
  rc_b64_decode :: "string \<Rightarrow> u8 list option"

record signed_recording_chunk =
  sc_chunk_num :: u32
  sc_data :: string
  sc_sha256 :: string
  sc_signature :: string
  sc_timestamp :: datetime
  sc_prev_hash :: "string option"

record recording_integrity =
  ri_hmac_key :: "u8 list"
  ri_chunk_num :: u32
  ri_prev_hash :: "string option"

definition ri_new :: "u8 list \<Rightarrow> recording_integrity" where
  "ri_new key = \<lparr>ri_hmac_key = key, ri_chunk_num = 0, ri_prev_hash = None\<rparr>"

definition from_base64_key :: "recording_crypto \<Rightarrow> string \<Rightarrow> string + recording_integrity" where
  "from_base64_key cr key_b64 =
     (case rc_b64_decode cr key_b64 of Some key \<Rightarrow> Inr (ri_new key) | None \<Rightarrow> Inl ''Invalid base64'')"

definition to_le_bytes :: "u32 \<Rightarrow> u8 list" where
  "to_le_bytes w = map (\<lambda>i. of_nat (unat w div 256 ^ i)) [0, 1, 2, 3]"

definition signature_data :: "u32 \<Rightarrow> u8 list \<Rightarrow> string option \<Rightarrow> u8 list" where
  "signature_data chunk_num sha prev_hash =
     to_le_bytes chunk_num @ sha @ (case prev_hash of Some p \<Rightarrow> bytes_of p | None \<Rightarrow> [])"

definition sign_chunk ::
  "recording_crypto \<Rightarrow> datetime \<Rightarrow> string \<Rightarrow> recording_integrity \<Rightarrow>
     signed_recording_chunk \<times> recording_integrity" where
  "sign_chunk cr now data r =
     (let sha256 = rc_sha256 cr (bytes_of data);
          sha256_b64 = rc_b64_encode cr sha256;
          sig_data = signature_data (ri_chunk_num r) sha256 (ri_prev_hash r);
          signature = rc_hmac cr (ri_hmac_key r) sig_data in
      (\<lparr>sc_chunk_num = ri_chunk_num r, sc_data = rc_b64_encode cr (bytes_of data),
        sc_sha256 = sha256_b64, sc_signature = rc_b64_encode cr signature, sc_timestamp = now,
        sc_prev_hash = ri_prev_hash r\<rparr>,
       r\<lparr>ri_chunk_num := ri_chunk_num r + 1, ri_prev_hash := Some sha256_b64\<rparr>))"

datatype verify_error = Base64Error | Sha256Mismatch | ChainMismatch | SignatureInvalid | NotUtf8

definition verify_chunk ::
  "recording_crypto \<Rightarrow> u8 list \<Rightarrow> signed_recording_chunk \<Rightarrow> string option \<Rightarrow> verify_error + string" where
  "verify_chunk cr key chunk expected_prev_hash =
     (case rc_b64_decode cr (sc_data chunk) of
        None \<Rightarrow> Inl Base64Error
      | Some data \<Rightarrow>
          (let sha256 = rc_sha256 cr data in
           if rc_b64_encode cr sha256 \<noteq> sc_sha256 chunk then Inl Sha256Mismatch
           else if sc_prev_hash chunk \<noteq> expected_prev_hash then Inl ChainMismatch
           else
             (case rc_b64_decode cr (sc_signature chunk) of
                None \<Rightarrow> Inl Base64Error
              | Some expected_sig \<Rightarrow>
                  if rc_hmac cr key (signature_data (sc_chunk_num chunk) sha256 (sc_prev_hash chunk))
                       \<noteq> expected_sig
                  then Inl SignatureInvalid
                  else (case from_utf8 data of Some s \<Rightarrow> Inr s | None \<Rightarrow> Inl NotUtf8))))"

section \<open>Writers\<close>

type_synonym io_script = "(string + unit) list"

definition next_result :: "io_script \<Rightarrow> (string + unit) \<times> io_script" where
  "next_result s = (case s of [] \<Rightarrow> (Inr (), []) | r # rs \<Rightarrow> (r, rs))"

record file_recording_writer =
  fr_path :: string
  fr_content :: string
  fr_script :: io_script

record cloud_recording_writer =
  cw_upload_url :: string
  cw_session_id :: string
  cw_buffer :: "string list"
  cw_chunk_size :: nat
  cw_chunk_num :: u32
  cw_api_token :: "string option"
  cw_script :: io_script
  cw_sent :: "(u32 \<times> string list \<times> bool) list"
  cw_finalized :: bool

record integrity_writer_state =
  iw_integrity :: recording_integrity
  iw_buffer :: "string list"
  iw_chunk_size :: nat

datatype recording_writer =
    FileWriter file_recording_writer
  | CloudWriter cloud_recording_writer
  | IntegrityWriter integrity_writer_state recording_writer

definition newline :: string where
  "newline = [char_of (10 :: nat)]"

definition fr_new :: "string + unit \<Rightarrow> io_script \<Rightarrow> string \<Rightarrow> string + file_recording_writer" where
  "fr_new created script path =
     (case created of
        Inl e \<Rightarrow> Inl e
      | Inr _ \<Rightarrow> Inr \<lparr>fr_path = path, fr_content = [], fr_script = script\<rparr>)"

definition file_write_line ::
  "string \<Rightarrow> file_recording_writer \<Rightarrow> (string + unit) \<times> file_recording_writer" where
  "file_write_line line w =
     (case next_result (fr_script w) of
        (Inl e, s1) \<Rightarrow> (Inl e, w\<lparr>fr_script := s1\<rparr>)
      | (Inr _, s1) \<Rightarrow>
          (case next_result s1 of
             (Inl e, s2) \<Rightarrow> (Inl e, w\<lparr>fr_content := fr_content w @ line, fr_script := s2\<rparr>)
           | (Inr _, s2) \<Rightarrow>
               (Inr (), w\<lparr>fr_content := fr_content w @ line @ newline, fr_script := s2\<rparr>)))"

definition file_finalize :: "file_recording_writer \<Rightarrow> (string + unit) \<times> file_recording_writer" where
  "file_finalize w =
     (case next_result (fr_script w) of
        (Inl e, s1) \<Rightarrow> (Inl e, w\<lparr>fr_script := s1\<rparr>)
      | (Inr _, s1) \<Rightarrow> (case next_result s1 of (r, s2) \<Rightarrow> (r, w\<lparr>fr_script := s2\<rparr>)))"

definition cw_new :: "io_script \<Rightarrow> string \<Rightarrow> string \<Rightarrow> cloud_recording_writer" where
  "cw_new script upload_url session_id =
     \<lparr>cw_upload_url = upload_url, cw_session_id = session_id, cw_buffer = [], cw_chunk_size = 100,
      cw_chunk_num = 0, cw_api_token = None, cw_script = script, cw_sent = [], cw_finalized = False\<rparr>"

definition with_chunk_size :: "nat \<Rightarrow> cloud_recording_writer \<Rightarrow> cloud_recording_writer" where
  "with_chunk_size n w = w\<lparr>cw_chunk_size := n\<rparr>"

definition with_api_token :: "string \<Rightarrow> cloud_recording_writer \<Rightarrow> cloud_recording_writer" where
  "with_api_token token w = w\<lparr>cw_api_token := Some token\<rparr>"

text \<open>
  Each chunk sent is logged with its number, its lines (the body is these joined by newlines) and
  whether the service took it.
\<close>

definition cloud_flush_buffer :: "cloud_recording_writer \<Rightarrow> cloud_recording_writer" where
  "cloud_flush_buffer w =
     (if cw_buffer w = [] then w
      else
        (case next_result (cw_script w) of
           (r, s1) \<Rightarrow>
             w\<lparr>cw_chunk_num := cw_chunk_num w + 1, cw_script := s1,
               cw_sent := cw_sent w @ [(cw_chunk_num w + 1, cw_buffer w, r = Inr ())],
               cw_buffer := []\<rparr>))"

definition cloud_write_line :: "string \<Rightarrow> cloud_recording_writer \<Rightarrow> cloud_recording_writer" where
  "cloud_write_line line w =
     (let w1 = w\<lparr>cw_buffer := cw_buffer w @ [line]\<rparr> in
      if length (cw_buffer w1) \<ge> cw_chunk_size w1 then cloud_flush_buffer w1 else w1)"

definition cloud_finalize :: "cloud_recording_writer \<Rightarrow> cloud_recording_writer" where
  "cloud_finalize w =
     (let w1 = cloud_flush_buffer w in
      case next_result (cw_script w1) of (r, s1) \<Rightarrow> w1\<lparr>cw_script := s1, cw_finalized := True\<rparr>)"

definition iw_new :: "recording_writer \<Rightarrow> u8 list \<Rightarrow> nat \<Rightarrow> recording_writer" where
  "iw_new inner key chunk_size =
     IntegrityWriter \<lparr>iw_integrity = ri_new key, iw_buffer = [], iw_chunk_size = chunk_size\<rparr> inner"

text \<open>\<open>flush_chunk\<close> of the integrity wrapper, given how the inner writer writes a line.\<close>

definition flush_chunk ::
  "recording_crypto \<Rightarrow> (signed_recording_chunk \<Rightarrow> string) \<Rightarrow> datetime \<Rightarrow>
   (string \<Rightarrow> (string + unit) \<times> 'w) \<Rightarrow> integrity_writer_state \<Rightarrow> 'w \<Rightarrow>
     (string + unit) \<times> integrity_writer_state \<times> 'w" where
  "flush_chunk cr json now write_inner s inner =
     (if iw_buffer s = [] then (Inr (), s, inner)
      else
        (case sign_chunk cr now (join_with newline (iw_buffer s)) (iw_integrity s) of
           (chunk, integrity1) \<Rightarrow>
             (let s1 = s\<lparr>iw_integrity := integrity1\<rparr> in
              case write_inner (json chunk) of
                (Inl e, inner1) \<Rightarrow> (Inl e, s1, inner1)
              | (Inr _, inner1) \<Rightarrow> (Inr (), s1\<lparr>iw_buffer := []\<rparr>, inner1))))"

primrec write_line ::
  "recording_crypto \<Rightarrow> (signed_recording_chunk \<Rightarrow> string) \<Rightarrow> datetime \<Rightarrow> recording_writer \<Rightarrow> string \<Rightarrow>
     (string + unit) \<times> recording_writer" where
  "write_line cr json now (FileWriter w) =
     (\<lambda>line. case file_write_line line w of (r, w1) \<Rightarrow> (r, FileWriter w1))"
| "write_line cr json now (CloudWriter w) =
     (\<lambda>line. (Inr (), CloudWriter (cloud_write_line line w)))"
| "write_line cr json now (IntegrityWriter s inner) =
     (\<lambda>line. let s1 = s\<lparr>iw_buffer := iw_buffer s @ [line]\<rparr> in
        if length (iw_buffer s1) \<ge> iw_chunk_size s1 then
          (case flush_chunk cr json now (write_line cr json now inner) s1 inner of
             (r, s2, inner1) \<Rightarrow> (r, IntegrityWriter s2 inner1))
        else (Inr (), IntegrityWriter s1 inner))"

text \<open>
  The wrapper finalizes its inner writer after the flush has changed it, so the recursion is on the
  depth of wrapping, which a flush keeps.
\<close>

fun depth :: "recording_writer \<Rightarrow> nat" where
  "depth (IntegrityWriter s inner) = Suc (depth inner)"
| "depth _ = 0"

lemma depth_write_line: "write_line cr json now w line = (r, w1) \<Longrightarrow> depth w1 = depth w"
proof (induction w arbitrary: line r w1)
  case (IntegrityWriter s inner)
  then show ?case
    by (fastforce simp: flush_chunk_def Let_def split: prod.splits sum.splits if_splits)
qed (auto split: prod.splits)

lemma depth_flush_chunk:
  "flush_chunk cr json now (write_line cr json now inner) s inner = (r, s1, inner1) \<Longrightarrow> depth inner1 = depth inner"
  by (auto simp: flush_chunk_def Let_def dest: depth_write_line split: prod.splits sum.splits if_splits)

function (sequential) finalize ::
  "recording_crypto \<Rightarrow> (signed_recording_chunk \<Rightarrow> string) \<Rightarrow> datetime \<Rightarrow> recording_writer \<Rightarrow>
     (string + unit) \<times> recording_writer" where
  "finalize cr json now (FileWriter w) = (case file_finalize w of (r, w1) \<Rightarrow> (r, FileWriter w1))"
| "finalize cr json now (CloudWriter w) = (Inr (), CloudWriter (cloud_finalize w))"
| "finalize cr json now (IntegrityWriter s inner) =
     (case flush_chunk cr json now (write_line cr json now inner) s inner of
        (Inl e, s1, inner1) \<Rightarrow> (Inl e, IntegrityWriter s1 inner1)
      | (Inr _, s1, inner1) \<Rightarrow>
          (case finalize cr json now inner1 of (r, inner2) \<Rightarrow> (r, IntegrityWriter s1 inner2)))"
  by pat_completeness auto
termination
  by (relation "measure (\<lambda>(cr, json, now, w). depth w)") (auto dest: depth_flush_chunk [OF sym])

section \<open>The recorder\<close>

record cast_header =
  hd_version :: u8
  hd_width :: u32
  hd_height :: u32
  hd_timestamp :: int
  hd_duration :: "nat option"
  hd_command :: "string option"
  hd_title :: "string option"
  hd_env :: "(string, string) hmap"
  hd_ssh_user :: "string option"
  hd_local_user :: "string option"
  hd_src_node_id :: "string option"
  hd_connection_id :: "string option"

definition CastHeader_default :: "datetime \<Rightarrow> cast_header" where
  "CastHeader_default now =
     \<lparr>hd_version = 2, hd_width = 80, hd_height = 24, hd_timestamp = now div 1000000000,
      hd_duration = None, hd_command = None, hd_title = None, hd_env = [], hd_ssh_user = None,
      hd_local_user = None, hd_src_node_id = None, hd_connection_id = None\<rparr>"

text \<open>The encoders of headers, entries (elapsed time, type, text) and chunks; encoding can fail.\<close>

record recording_env =
  re_crypto :: recording_crypto
  re_header_json :: "cast_header \<Rightarrow> string + string"
  re_entry_json :: "duration \<Rightarrow> string \<Rightarrow> string \<Rightarrow> string + string"
  re_chunk_json :: "signed_recording_chunk \<Rightarrow> string"

record session_recorder =
  sr_session_id :: string
  sr_start_time :: instant
  sr_start_timestamp :: datetime
  sr_width :: u32
  sr_height :: u32
  sr_writers :: "recording_writer list"
  sr_header_written :: bool
  sr_bytes_recorded :: u64
  sr_entry_count :: u64

definition sr_new :: "instant \<Rightarrow> datetime \<Rightarrow> string \<Rightarrow> u32 \<Rightarrow> u32 \<Rightarrow> session_recorder" where
  "sr_new start now session_id width height =
     \<lparr>sr_session_id = session_id, sr_start_time = start, sr_start_timestamp = now, sr_width = width,
      sr_height = height, sr_writers = [], sr_header_written = False, sr_bytes_recorded = 0,
      sr_entry_count = 0\<rparr>"

definition add_writer :: "recording_writer \<Rightarrow> session_recorder \<Rightarrow> session_recorder" where
  "add_writer w r = r\<lparr>sr_writers := sr_writers r @ [w]\<rparr>"

definition create_header :: "session_recorder \<Rightarrow> cast_header" where
  "create_header r =
     \<lparr>hd_version = 2, hd_width = sr_width r, hd_height = sr_height r,
      hd_timestamp = sr_start_timestamp r div 1000000000, hd_duration = None, hd_command = None,
      hd_title = Some (''OmniEdge SSH Session '' @ sr_session_id r), hd_env = [], hd_ssh_user = None,
      hd_local_user = None, hd_src_node_id = None, hd_connection_id = Some (sr_session_id r)\<rparr>"

text \<open>The loop over the writers stops at the first error.\<close>

fun write_all ::
  "recording_env \<Rightarrow> datetime \<Rightarrow> string \<Rightarrow> recording_writer list \<Rightarrow> (string + unit) \<times> recording_writer list" where
  "write_all env now line [] = (Inr (), [])"
| "write_all env now line (w # ws) =
     (case write_line (re_crypto env) (re_chunk_json env) now w line of
        (Inl e, w1) \<Rightarrow> (Inl e, w1 # ws)
      | (Inr _, w1) \<Rightarrow> (case write_all env now line ws of (r, ws1) \<Rightarrow> (r, w1 # ws1)))"

definition write_header ::
  "recording_env \<Rightarrow> datetime \<Rightarrow> cast_header \<Rightarrow> session_recorder \<Rightarrow> (string + unit) \<times> session_recorder" where
  "write_header env now header r =
     (case re_header_json env header of
        Inl e \<Rightarrow> (Inl e, r)
      | Inr json \<Rightarrow>
          (case write_all env now json (sr_writers r) of
             (Inl e, ws) \<Rightarrow> (Inl e, r\<lparr>sr_writers := ws\<rparr>)
           | (Inr _, ws) \<Rightarrow> (Inr (), r\<lparr>sr_writers := ws, sr_header_written := True\<rparr>)))"

definition record_entry ::
  "recording_env \<Rightarrow> instant \<Rightarrow> datetime \<Rightarrow> string \<Rightarrow> string \<Rightarrow> nat \<Rightarrow> session_recorder \<Rightarrow>
     (string + unit) \<times> session_recorder" where
  "record_entry env t now kind text n r =
     (case re_entry_json env (elapsed (sr_start_time r) t) kind text of
        Inl e \<Rightarrow> (Inl e, r)
      | Inr json \<Rightarrow>
          (case write_all env now json (sr_writers r) of
             (Inl e, ws) \<Rightarrow> (Inl e, r\<lparr>sr_writers := ws\<rparr>)
           | (Inr _, ws) \<Rightarrow>
               (Inr (), r\<lparr>sr_writers := ws, sr_bytes_recorded := sr_bytes_recorded r + of_nat n,
                          sr_entry_count := sr_entry_count r + 1\<rparr>)))"

definition record_output ::
  "recording_env \<Rightarrow> instant \<Rightarrow> datetime \<Rightarrow> u8 list \<Rightarrow> session_recorder \<Rightarrow> (string + unit) \<times> session_recorder" where
  "record_output env t now data r =
     (if \<not> sr_header_written r then (Inl ''Header not written'', r)
      else record_entry env t now ''o'' (from_utf8_lossy data) (length data) r)"

definition record_input ::
  "recording_env \<Rightarrow> instant \<Rightarrow> datetime \<Rightarrow> u8 list \<Rightarrow> session_recorder \<Rightarrow> (string + unit) \<times> session_recorder" where
  "record_input env t now data r =
     (if \<not> sr_header_written r then (Inl ''Header not written'', r)
      else record_entry env t now ''i'' (from_utf8_lossy data) (length data) r)"

definition record_resize ::
  "recording_env \<Rightarrow> instant \<Rightarrow> datetime \<Rightarrow> u32 \<Rightarrow> u32 \<Rightarrow> session_recorder \<Rightarrow> (string + unit) \<times> session_recorder" where
  "record_resize env t now width height r =
     (if \<not> sr_header_written r then (Inl ''Header not written'', r)
      else record_entry env t now ''r'' (show_nat (unat width) @ ''x'' @ show_nat (unat height)) 0
             (r\<lparr>sr_width := width, sr_height := height\<rparr>))"

definition mark_header_written :: "session_recorder \<Rightarrow> session_recorder" where
  "mark_header_written r = r\<lparr>sr_header_written := True\<rparr>"

fun finalize_all ::
  "recording_env \<Rightarrow> datetime \<Rightarrow> recording_writer list \<Rightarrow> (string + unit) \<times> recording_writer list" where
  "finalize_all env now [] = (Inr (), [])"
| "finalize_all env now (w # ws) =
     (case finalize (re_crypto env) (re_chunk_json env) now w of
        (Inl e, w1) \<Rightarrow> (Inl e, w1 # ws)
      | (Inr _, w1) \<Rightarrow> (case finalize_all env now ws of (r, ws1) \<Rightarrow> (r, w1 # ws1)))"

definition sr_finalize :: "recording_env \<Rightarrow> datetime \<Rightarrow> session_recorder \<Rightarrow> (string + unit) \<times> session_recorder" where
  "sr_finalize env now r =
     (case finalize_all env now (sr_writers r) of (x, ws) \<Rightarrow> (x, r\<lparr>sr_writers := ws\<rparr>))"

definition create_recorder ::
  "string + unit \<Rightarrow> io_script \<Rightarrow> io_script \<Rightarrow> instant \<Rightarrow> datetime \<Rightarrow> rec_config \<Rightarrow> string \<Rightarrow> u32 \<Rightarrow> u32 \<Rightarrow>
     string + session_recorder" where
  "create_recorder created fscript cscript start now config session_id width height =
     and_then
       (case rec_local_dir config of
          Some dir \<Rightarrow>
            and_then (fr_new created fscript (path_join dir (session_id @ ''.cast''))) (\<lambda>w.
              Inr (add_writer (FileWriter w) (sr_new start now session_id width height)))
        | None \<Rightarrow> Inr (sr_new start now session_id width height))
       (\<lambda>r. case rec_cloud_url config of
              Some url \<Rightarrow> Inr (add_writer (CloudWriter (cw_new cscript url session_id)) r)
            | None \<Rightarrow> Inr r)"

section \<open>The contract of a writer\<close>

text \<open>
  A writer keeps a content to which every successful \<open>write_line\<close> appends the line in its encoding.
  The client's lemma: a sequence of lines written without an error is the content's end, in order.
\<close>

locale line_writer =
  fixes put :: "string \<Rightarrow> 'w \<Rightarrow> (string + unit) \<times> 'w"
    and content :: "'w \<Rightarrow> 'c list"
    and enc :: "string \<Rightarrow> 'c list"
  assumes put_ok: "put l w = (Inr (), w') \<Longrightarrow> content w' = content w @ enc l"
begin

primrec put_lines :: "string list \<Rightarrow> 'w \<Rightarrow> (string + unit) \<times> 'w" where
  "put_lines [] w = (Inr (), w)"
| "put_lines (l # ls) w =
     (case put l w of (Inl e, w1) \<Rightarrow> (Inl e, w1) | (Inr _, w1) \<Rightarrow> put_lines ls w1)"

lemma put_lines_content:
  "put_lines ls w = (Inr (), w') \<Longrightarrow> content w' = content w @ concat (map enc ls)"
proof (induction ls arbitrary: w)
  case (Cons l ls)
  obtain r w1 where p: "put l w = (r, w1)" by (cases "put l w")
  with Cons.prems have "r = Inr ()" by (cases r) auto
  with p have "content w1 = content w @ enc l" by (simp add: put_ok)
  with Cons p \<open>r = Inr ()\<close> show ?case by simp
qed simp

end

interpretation file_w: line_writer file_write_line fr_content "\<lambda>l. l @ newline"
  by unfold_locales (auto simp: file_write_line_def split: prod.splits sum.splits)

definition cloud_put :: "string \<Rightarrow> cloud_recording_writer \<Rightarrow> (string + unit) \<times> cloud_recording_writer" where
  "cloud_put l w = (Inr (), cloud_write_line l w)"

definition cloud_content :: "cloud_recording_writer \<Rightarrow> string list" where
  "cloud_content w = concat (map (\<lambda>(n, ls, ok). ls) (cw_sent w)) @ cw_buffer w"

lemma cloud_flush_content [simp]: "cloud_content (cloud_flush_buffer w) = cloud_content w"
  by (simp add: cloud_flush_buffer_def cloud_content_def split: prod.split)

interpretation cloud_w: line_writer cloud_put cloud_content "\<lambda>l. [l]"
  by unfold_locales (auto simp: cloud_put_def cloud_write_line_def Let_def cloud_content_def
      cloud_flush_content [unfolded cloud_content_def])

section \<open>Cloud chunks\<close>

text \<open>Chunks are numbered from one and hold between one line and the chunk size of them.\<close>

definition cloud_ok :: "cloud_recording_writer \<Rightarrow> bool" where
  "cloud_ok w \<longleftrightarrow>
     map fst (cw_sent w) = map of_nat [1..<Suc (length (cw_sent w))] \<and>
     cw_chunk_num w = of_nat (length (cw_sent w)) \<and> 0 < cw_chunk_size w \<and>
     length (cw_buffer w) < cw_chunk_size w \<and>
     list_all (\<lambda>(n, ls, ok). ls \<noteq> [] \<and> length ls \<le> cw_chunk_size w) (cw_sent w)"

lemma cloud_flush_ok:
  assumes "map fst (cw_sent w) = map of_nat [1..<Suc (length (cw_sent w))]"
    "cw_chunk_num w = of_nat (length (cw_sent w))" "0 < cw_chunk_size w"
    "length (cw_buffer w) \<le> cw_chunk_size w"
    "list_all (\<lambda>(n, ls, ok). ls \<noteq> [] \<and> length ls \<le> cw_chunk_size w) (cw_sent w)"
  shows "cloud_ok (cloud_flush_buffer w) \<and> cw_buffer (cloud_flush_buffer w) = []"
  using assms by (auto simp: cloud_flush_buffer_def cloud_ok_def add.commute split: prod.split)

lemma cloud_write_ok: "cloud_ok w \<Longrightarrow> cloud_ok (cloud_write_line l w)"
  using cloud_flush_ok [of "w\<lparr>cw_buffer := cw_buffer w @ [l]\<rparr>"]
  by (auto simp: cloud_write_line_def cloud_ok_def Let_def)

lemma cloud_finalize_ok:
  "cloud_ok w \<Longrightarrow> cloud_ok (cloud_finalize w) \<and> cw_buffer (cloud_finalize w) = [] \<and>
   cloud_content (cloud_finalize w) = cloud_content w"
  using cloud_flush_ok [of w] cloud_flush_content [of w]
  by (auto simp: cloud_finalize_def cloud_ok_def Let_def cloud_content_def split: prod.split)

lemma cloud_puts: "cloud_w.put_lines ls w = (Inr (), fold cloud_write_line ls w)"
  by (induction ls arbitrary: w) (simp_all add: cloud_put_def)

section \<open>Signing and verifying\<close>

fun sign_all ::
  "recording_crypto \<Rightarrow> (datetime \<times> string) list \<Rightarrow> recording_integrity \<Rightarrow> signed_recording_chunk list" where
  "sign_all cr [] r = []"
| "sign_all cr ((now, d) # ds) r =
     (case sign_chunk cr now d r of (c, r1) \<Rightarrow> c # sign_all cr ds r1)"

text \<open>The chain as the verifier walks it: each chunk against the hash of the one before.\<close>

fun verify_all ::
  "recording_crypto \<Rightarrow> u8 list \<Rightarrow> string option \<Rightarrow> signed_recording_chunk list \<Rightarrow> verify_error + string list" where
  "verify_all cr key prev [] = Inr []"
| "verify_all cr key prev (c # cs) =
     and_then (verify_chunk cr key c prev) (\<lambda>s.
     and_then (verify_all cr key (Some (sc_sha256 c)) cs) (\<lambda>ss. Inr (s # ss)))"

definition b64_ok :: "recording_crypto \<Rightarrow> bool" where
  "b64_ok cr \<longleftrightarrow> (\<forall>x. rc_b64_decode cr (rc_b64_encode cr x) = Some x)"

lemma verify_signed:
  assumes "b64_ok cr" "well_encoded d" "sign_chunk cr now d r = (c, r1)"
  shows "verify_chunk cr (ri_hmac_key r) c (ri_prev_hash r) = Inr d \<and>
    ri_prev_hash r1 = Some (sc_sha256 c) \<and> ri_hmac_key r1 = ri_hmac_key r"
  using assms by (auto simp: sign_chunk_def verify_chunk_def b64_ok_def Let_def from_utf8_bytes_of)

lemma verify_sign_all:
  "b64_ok cr \<Longrightarrow> list_all (\<lambda>(t, d). well_encoded d) ds \<Longrightarrow>
   verify_all cr (ri_hmac_key r) (ri_prev_hash r) (sign_all cr ds r) = Inr (map snd ds)"
proof (induction ds arbitrary: r)
  case (Cons x ds)
  obtain now d where x: "x = (now, d)" by (cases x)
  obtain c r1 where c: "sign_chunk cr now d r = (c, r1)" by (cases "sign_chunk cr now d r")
  have "verify_chunk cr (ri_hmac_key r) c (ri_prev_hash r) = Inr d"
    and n: "ri_prev_hash r1 = Some (sc_sha256 c)" "ri_hmac_key r1 = ri_hmac_key r"
    using verify_signed [OF Cons.prems(1) _ c] Cons.prems(2) x by auto
  with Cons.IH [of r1] Cons.prems x c show ?case by simp
qed simp

lemma verify_chunk_timestamp [simp]:
  "verify_chunk cr key (chunk\<lparr>sc_timestamp := t\<rparr>) p = verify_chunk cr key chunk p"
  by (simp add: verify_chunk_def Let_def split: option.split)

lemma base256_digits:
  fixes n m :: nat
  assumes "n < 256 ^ k" "m < 256 ^ k"
    and "\<And>i. i < k \<Longrightarrow> (n div 256 ^ i) mod 256 = (m div 256 ^ i) mod 256"
  shows "n = m"
  using assms
proof (induction k arbitrary: n m)
  case (Suc k)
  have "n div 256 = m div 256"
  proof (rule Suc.IH)
    show "n div 256 < 256 ^ k" "m div 256 < 256 ^ k" using Suc.prems(1,2) by (auto simp: less_mult_imp_div_less)
    show "(n div 256 div 256 ^ i) mod 256 = (m div 256 div 256 ^ i) mod 256" if "i < k" for i
      using Suc.prems(3) [of "Suc i"] that by (simp add: div_mult2_eq)
  qed
  moreover have "n mod 256 = m mod 256" using Suc.prems(3) [of 0] by simp
  ultimately show ?case by (metis mult_div_mod_eq)
qed simp

lemma to_le_bytes_inj: "to_le_bytes a = to_le_bytes b \<Longrightarrow> a = b"
proof -
  assume eq: "to_le_bytes a = to_le_bytes b"
  have digit: "(unat a div 256 ^ i) mod 256 = (unat b div 256 ^ i) mod 256" if "i < 4" for i
  proof -
    have "i \<in> {0, 1, 2, 3}" using that by auto
    then have "(of_nat (unat a div 256 ^ i) :: u8) = of_nat (unat b div 256 ^ i)"
      using eq by (auto simp: to_le_bytes_def)
    then have "unat (of_nat (unat a div 256 ^ i) :: u8) = unat (of_nat (unat b div 256 ^ i) :: u8)" by simp
    then show ?thesis by (simp add: unat_of_nat)
  qed
  have "unat a = unat b"
    by (rule base256_digits [of _ 4]) (use unat_u32_less [of a] unat_u32_less [of b] digit in auto)
  then show "a = b" by (simp add: word_unat_eq_iff)
qed

lemma signature_data_inj:
  assumes "signature_data n x p = signature_data m y q" "length x = length y" "p \<noteq> Some []" "q \<noteq> Some []"
  shows "n = m \<and> x = y \<and> p = q"
proof -
  have l: "length (to_le_bytes n) = length (to_le_bytes m)" by (simp add: to_le_bytes_def)
  let ?t = "\<lambda>p. case p of Some s \<Rightarrow> bytes_of s | None \<Rightarrow> []"
  have "to_le_bytes n = to_le_bytes m \<and> x = y \<and> ?t p = ?t q"
    using assms(1,2) l by (simp add: signature_data_def)
  then show ?thesis using to_le_bytes_inj assms(3,4)
    by (auto simp: bytes_of_def split: option.splits) (metis bytes_of_def bytes_of_inj)
qed

text \<open>The messages a recording has passed to the MAC, one per chunk.\<close>

fun signed_messages ::
  "recording_crypto \<Rightarrow> (datetime \<times> string) list \<Rightarrow> recording_integrity \<Rightarrow> u8 list list" where
  "signed_messages cr [] r = []"
| "signed_messages cr ((now, d) # ds) r =
     signature_data (ri_chunk_num r) (rc_sha256 cr (bytes_of d)) (ri_prev_hash r)
       # signed_messages cr ds (snd (sign_chunk cr now d r))"

lemma signed_messages_macs:
  "map sc_signature (sign_all cr ds r) =
   map (\<lambda>m. rc_b64_encode cr (rc_hmac cr (ri_hmac_key r) m)) (signed_messages cr ds r)"
proof (induction ds arbitrary: r)
  case (Cons x ds)
  have "ri_hmac_key (snd (sign_chunk cr t d r)) = ri_hmac_key r" for t d by (simp add: sign_chunk_def Let_def)
  then show ?case using Cons by (cases x) (simp add: sign_chunk_def Let_def)
qed simp

lemma signed_messages_nth:
  "k < length ds \<Longrightarrow> signed_messages cr ds r ! k =
     signature_data (ri_chunk_num r + of_nat k) (rc_sha256 cr (bytes_of (snd (ds ! k))))
       (if k = 0 then ri_prev_hash r else Some (rc_b64_encode cr (rc_sha256 cr (bytes_of (snd (ds ! (k - 1)))))))"
proof (induction ds arbitrary: r k)
  case (Cons x ds)
  obtain t d where x: "x = (t, d)" by (cases x)
  have s: "ri_chunk_num (snd (sign_chunk cr t d r)) = ri_chunk_num r + 1"
    "ri_prev_hash (snd (sign_chunk cr t d r)) = Some (rc_b64_encode cr (rc_sha256 cr (bytes_of d)))"
    by (simp_all add: sign_chunk_def Let_def)
  show ?case
  proof (cases k)
    case (Suc j)
    then show ?thesis using Cons.IH [of j "snd (sign_chunk cr t d r)"] Cons.prems s
      by (cases j) (simp_all add: x algebra_simps)
  qed (simp add: x)
qed simp

lemma signed_messages_length [simp]: "length (signed_messages cr ds r) = length ds"
  by (induction cr ds r rule: signed_messages.induct) simp_all

lemma bytes_of_string_of_bytes [simp]: "bytes_of (string_of_bytes bs) = bs"
proof -
  have "of_nat (of_char (char_of (unat b :: nat) :: char)) = b" for b :: u8
    using unsigned_less [of b, where ?'a = nat] by (simp add: of_char_of)
  then show ?thesis by (simp add: bytes_of_def string_of_bytes_def comp_def)
qed

text \<open>What \<open>verify_chunk\<close> has checked when it accepts, and the error of each failed check.\<close>

lemma verify_chunk_Inr:
  "verify_chunk cr key chunk prev = Inr s \<longleftrightarrow>
     sc_sha256 chunk = rc_b64_encode cr (rc_sha256 cr (bytes_of s)) \<and> sc_prev_hash chunk = prev \<and>
     rc_b64_decode cr (sc_data chunk) = Some (bytes_of s) \<and> from_utf8 (bytes_of s) = Some s \<and>
     rc_b64_decode cr (sc_signature chunk) =
       Some (rc_hmac cr key (signature_data (sc_chunk_num chunk) (rc_sha256 cr (bytes_of s)) prev))"
proof -
  have "from_utf8 data = Some s \<longleftrightarrow> data = bytes_of s \<and> from_utf8 (bytes_of s) = Some s" for data
  proof -
    have "from_utf8 data = Some s \<Longrightarrow> data = bytes_of s" by (auto simp: from_utf8_def split: if_splits)
    then show ?thesis by auto
  qed
  note utf8 = this
  show ?thesis
  proof (cases "rc_b64_decode cr (sc_data chunk)")
    case (Some data)
    have "verify_chunk cr key chunk prev = Inr s \<longleftrightarrow>
        rc_b64_encode cr (rc_sha256 cr data) = sc_sha256 chunk \<and> sc_prev_hash chunk = prev \<and>
        rc_b64_decode cr (sc_signature chunk) =
          Some (rc_hmac cr key (signature_data (sc_chunk_num chunk) (rc_sha256 cr data) prev)) \<and>
        from_utf8 data = Some s"
      by (auto simp: verify_chunk_def Let_def Some split: option.split)
    then show ?thesis using utf8 [of data] by (simp only: Some option.inject) metis
  qed (simp add: verify_chunk_def)
qed

section \<open>Properties\<close>

text \<open>
  C14. What is signed verifies: the chunks of any sequence of texts, walked with the hash of each as the
  expected predecessor of the next, verify and give the texts back.
\<close>

theorem sign_verify_roundtrip:
  assumes "\<And>x. rc_b64_decode cr (rc_b64_encode cr x) = Some x"
    and "list_all (\<lambda>(t, d). well_encoded d) ds"
  shows "verify_all cr key None (sign_all cr ds (ri_new key)) = Inr (map snd ds)"
  using verify_sign_all [of cr ds "ri_new key"] assms by (simp add: b64_ok_def ri_new_def)

text \<open>
  C15. A chunk that verifies is authentic, by reduction to the hash and the MAC. It carries the hash of
  the text it is read as and names the predecessor expected. And it is a chunk of the recording \<open>ds\<close> that
  was signed under the key: it has the text and the number of one, and its predecessor is the
  hash of the text before; or else its signature is a valid MAC of a message that was never signed, a
  forgery; or its text and a different one of the recording have the same hash, a collision. Of the
  hash only the length is used.
\<close>

theorem verify_chunk_authentic:
  assumes "verify_chunk cr key chunk prev = Inr s"
    and "\<And>x. length (rc_sha256 cr x) = 32" and "prev \<noteq> Some []" and "\<And>x. x \<noteq> [] \<Longrightarrow> rc_b64_encode cr x \<noteq> []"
  shows "sc_sha256 chunk = rc_b64_encode cr (rc_sha256 cr (bytes_of s)) \<and> sc_prev_hash chunk = prev \<and>
    ((\<exists>k < length ds. s = snd (ds ! k) \<and> sc_chunk_num chunk = of_nat k \<and>
        prev = (if k = 0 then None else Some (rc_b64_encode cr (rc_sha256 cr (bytes_of (snd (ds ! (k - 1))))))))
     \<or> (let m = signature_data (sc_chunk_num chunk) (rc_sha256 cr (bytes_of s)) prev in
          rc_b64_decode cr (sc_signature chunk) = Some (rc_hmac cr key m) \<and>
          m \<notin> set (signed_messages cr ds (ri_new key)))
     \<or> (\<exists>d \<in> snd ` set ds. d \<noteq> s \<and> rc_sha256 cr (bytes_of d) = rc_sha256 cr (bytes_of s)))"
proof -
  let ?m = "signature_data (sc_chunk_num chunk) (rc_sha256 cr (bytes_of s)) prev"
  have v: "sc_sha256 chunk = rc_b64_encode cr (rc_sha256 cr (bytes_of s))" "sc_prev_hash chunk = prev"
      "rc_b64_decode cr (sc_signature chunk) = Some (rc_hmac cr key ?m)"
    using assms(1) by (simp_all add: verify_chunk_Inr)
  consider "?m \<notin> set (signed_messages cr ds (ri_new key))"
    | k where "k < length ds" "?m = signed_messages cr ds (ri_new key) ! k"
    by (metis in_set_conv_nth signed_messages_length)
  then show ?thesis
  proof cases
    case 1
    then show ?thesis using v by (simp add: Let_def)
  next
    case (2 k)
    let ?d = "snd (ds ! k)"
    let ?p = "if k = 0 then None else Some (rc_b64_encode cr (rc_sha256 cr (bytes_of (snd (ds ! (k - 1))))))"
    have "rc_sha256 cr x \<noteq> []" for x using assms(2) [of x] by auto
    then have p: "?p \<noteq> Some []" using assms(4) by simp
    have eq: "?m = signature_data (of_nat k) (rc_sha256 cr (bytes_of ?d)) ?p"
      using 2 signed_messages_nth [OF 2(1), of cr "ri_new key"] by (simp add: ri_new_def)
    have i: "sc_chunk_num chunk = of_nat k \<and> rc_sha256 cr (bytes_of s) = rc_sha256 cr (bytes_of ?d) \<and> prev = ?p"
      by (rule signature_data_inj [OF eq _ assms(3) p]) (simp add: assms(2))
    show ?thesis
    proof (cases "?d = s")
      case True
      then show ?thesis using v(1,2) i 2(1) by blast
    next
      case False
      have "?d \<in> snd ` set ds" using 2(1) by simp
      then show ?thesis using v(1,2) i False by metis
    qed
  qed
qed

text \<open>
  The chain does not fix the positions: the hash of a chunk covers its text alone and the verifier
  does not look at chunk numbers, so of two chunks with the same text in a row one can be dropped and
  the rest still verifies.
\<close>

theorem chain_accepts_dropped_repeat:
  assumes "\<And>x. rc_b64_decode cr (rc_b64_encode cr x) = Some x"
    and "well_encoded a" "well_encoded b"
  shows "verify_all cr key None
     (nths (sign_all cr [(t0, a), (t1, a), (t2, b)] (ri_new key)) {0, 2}) = Inr [a, b]"
  using assms
  by (simp add: nths_Cons sign_chunk_def verify_chunk_def ri_new_def Let_def from_utf8_bytes_of)

text \<open>
  A failed write breaks the chain for good: when the inner writer fails on the first chunk, the
  wrapper keeps the lines but has already advanced, so whatever it writes next names a predecessor
  that was never written and does not verify as the first chunk.
\<close>

theorem failed_write_breaks_chain:
  assumes "\<And>x. rc_b64_decode cr (rc_b64_encode cr x) = Some x"
    and "iw_buffer s \<noteq> []" and "ri_prev_hash (iw_integrity s) = None"
    and "flush_chunk cr json now (\<lambda>l. (Inl e, inner)) s inner = (r, s1, inner1)"
  shows "r = Inl e \<and> iw_buffer s1 = iw_buffer s \<and>
    verify_chunk cr key (fst (sign_chunk cr now' d (iw_integrity s1))) None = Inl ChainMismatch"
  using assms by (auto simp: flush_chunk_def sign_chunk_def verify_chunk_def Let_def)

text \<open>
  Cloud recording sends every line, in order, in chunks numbered from one of one to a hundred
  lines, and a chunk the service does not take is not sent again: the service holds the lines of the
  chunks it took, and no error is reported.
\<close>

theorem cloud_recording_chunks:
  "concat (map (\<lambda>(n, ls, ok). ls) (cw_sent (cloud_finalize (fold cloud_write_line lines (cw_new script url sid))))) = lines \<and>
   cloud_ok (cloud_finalize (fold cloud_write_line lines (cw_new script url sid)))"
proof -
  let ?w = "fold cloud_write_line lines (cw_new script url sid)"
  have "cloud_ok w \<Longrightarrow> cloud_ok (fold cloud_write_line ls w)" for ls w
    by (induction ls arbitrary: w) (auto intro: cloud_write_ok)
  then have ok: "cloud_ok ?w" by (simp add: cloud_ok_def cw_new_def)
  have "cloud_content ?w = lines"
    using cloud_w.put_lines_content [OF cloud_puts, of lines "cw_new script url sid"]
    by (simp add: cloud_content_def cw_new_def concat_map_singleton)
  with cloud_finalize_ok [OF ok] have "cloud_content (cloud_finalize ?w) = lines"
    and "cw_buffer (cloud_finalize ?w) = []" and "cloud_ok (cloud_finalize ?w)" by simp_all
  then show ?thesis by (simp add: cloud_content_def)
qed

text \<open>
  The recorder built from a configuration has only plain file and cloud writers: the integrity key
  and the chunk size of the configuration, like its switches, have no effect.
\<close>

theorem create_recorder_ignores_integrity:
  "create_recorder created fs cs start now
      (config\<lparr>rec_integrity_key := k, rec_chunk_size := n, rec_enabled := b, rec_record_input := i\<rparr>) sid w h
    = create_recorder created fs cs start now config sid w h \<and>
   (case create_recorder created fs cs start now config sid w h of
      Inr r \<Rightarrow> list_all (\<lambda>x. depth x = 0) (sr_writers r) | Inl e \<Rightarrow> True)"
  by (auto simp: create_recorder_def add_writer_def sr_new_def fr_new_def and_then_def
      split: option.splits sum.splits)

section \<open>Witnesses\<close>

definition toy_crypto :: recording_crypto where
  "toy_crypto =
     \<lparr>rc_sha256 = (\<lambda>x. replicate 32 (if x = bytes_of ''a'' then 1 else 0)), rc_hmac = (\<lambda>k m. k @ m),
      rc_b64_encode = string_of_bytes, rc_b64_decode = (\<lambda>s. Some (bytes_of s))\<rparr>"

lemma toy_b64 [simp]: "rc_b64_decode toy_crypto (rc_b64_encode toy_crypto x) = Some x"
  by (simp add: toy_crypto_def)

lemma well_encoded_abc: "well_encoded ''a''" "well_encoded ''b''"
  by (auto simp: well_encoded_def intro!: utf8_ok_ascii)

theorem sign_verify_roundtrip_witness:
  "verify_all toy_crypto [7] None (sign_all toy_crypto [(0, ''a''), (1, ''b'')] (ri_new [7])) = Inr [''a'', ''b'']"
  using sign_verify_roundtrip [of toy_crypto "[(0, ''a''), (1, ''b'')]" "[7]"] by (simp add: well_encoded_abc)

theorem chain_accepts_dropped_repeat_witness:
  "verify_all toy_crypto [7] None
     (nths (sign_all toy_crypto [(0, ''a''), (1, ''a''), (2, ''b'')] (ri_new [7])) {0, 2}) = Inr [''a'', ''b'']"
  by (rule chain_accepts_dropped_repeat) (simp_all add: well_encoded_abc)

definition toy_chunk :: signed_recording_chunk where
  "toy_chunk = fst (sign_chunk toy_crypto 5 ''a'' (ri_new [7]))"

theorem failed_write_breaks_chain_witness:
  "verify_chunk toy_crypto [7]
     (fst (sign_chunk toy_crypto 9 ''b''
        (iw_integrity (fst (snd (flush_chunk toy_crypto (\<lambda>c. []) 5 (\<lambda>l. (Inl ''disk full'', ()))
           \<lparr>iw_integrity = ri_new [7], iw_buffer = [''a''], iw_chunk_size = 1\<rparr> ())))))) None = Inl ChainMismatch"
proof -
  let ?f = "flush_chunk toy_crypto (\<lambda>c. []) 5 (\<lambda>l. (Inl ''disk full'', ()))
     \<lparr>iw_integrity = ri_new [7], iw_buffer = [''a''], iw_chunk_size = 1\<rparr> ()"
  have "?f = (fst ?f, fst (snd ?f), snd (snd ?f))" by (simp only: prod.collapse)
  from failed_write_breaks_chain [OF _ _ _ this, of "[7]" 9 "''b''"] show ?thesis
    by (simp add: ri_new_def)
qed

text \<open>
  The second chunk of a recording is recognised as such: no signature is forged and the texts have
  different hashes. A chunk with another text under its hash is refused.
\<close>

definition toy_chunks :: "signed_recording_chunk list" where
  "toy_chunks = sign_all toy_crypto [(5, ''a''), (6, ''b'')] (ri_new [7])"

lemma toy_chunks_verify: "verify_chunk toy_crypto [7] (toy_chunks ! 1) (Some (sc_sha256 (toy_chunks ! 0))) = Inr ''b''"
  using verify_sign_all [of toy_crypto "[(5, ''a''), (6, ''b'')]" "ri_new [7]"] well_encoded_abc
  by (auto simp: toy_chunks_def b64_ok_def ri_new_def sign_chunk_def Let_def and_then_Inr_iff)

theorem verify_chunk_authentic_witness:
  "sc_sha256 (toy_chunks ! 1) = rc_b64_encode toy_crypto (rc_sha256 toy_crypto (bytes_of ''b''))
   \<and> verify_chunk toy_crypto [7] ((toy_chunks ! 1)\<lparr>sc_data := ''a''\<rparr>) (Some (sc_sha256 (toy_chunks ! 0))) = Inl Sha256Mismatch"
proof
  have "length (rc_sha256 toy_crypto x) = 32" for x by (simp add: toy_crypto_def)
  moreover have "x \<noteq> [] \<Longrightarrow> rc_b64_encode toy_crypto x \<noteq> []" for x by (simp add: toy_crypto_def string_of_bytes_def)
  moreover have "sc_sha256 (toy_chunks ! 0) \<noteq> []"
    by (simp add: toy_chunks_def sign_chunk_def ri_new_def Let_def toy_crypto_def string_of_bytes_def)
  ultimately show "sc_sha256 (toy_chunks ! 1) = rc_b64_encode toy_crypto (rc_sha256 toy_crypto (bytes_of ''b''))"
    using verify_chunk_authentic [OF toy_chunks_verify] by blast
  show "verify_chunk toy_crypto [7] ((toy_chunks ! 1)\<lparr>sc_data := ''a''\<rparr>) (Some (sc_sha256 (toy_chunks ! 0))) = Inl Sha256Mismatch"
    by (simp add: verify_chunk_def toy_chunks_def sign_chunk_def ri_new_def Let_def toy_crypto_def bytes_of_def string_of_bytes_def)
qed

end
