(* ===== verification/Fleet.thy ===== *)
theory Fleet
  imports Ssh_Types
begin

text \<open>
  \<open>crates/omni-ssh/src/fleet/mod.rs\<close>: command execution on many nodes. What connecting to a node and
  running the command there give is a parameter per target, and so is the textual form of addresses.
  The interleaving of the tasks under the semaphore is the step relation \<open>fleet_step\<close>; the results
  are collected in the order of the targets whatever the order of the tasks.
\<close>

section \<open>Data\<close>

datatype fleet_targets =
    NodeIds "string list"
  | Tags "string list"
  | Network string
  | VpnIps "string list"
  | AllOnline

record fleet_operation =
  fo_operation_id :: string
  fo_command :: string
  fo_targets :: fleet_targets
  fo_initiator_id :: string
  fo_started_at :: datetime
  fo_timeout_secs :: u64
  fo_max_parallel :: u32
  fo_ssh_user :: string
  fo_ssh_port :: u16

definition fo_new :: "string \<Rightarrow> datetime \<Rightarrow> string \<Rightarrow> fleet_targets \<Rightarrow> fleet_operation" where
  "fo_new uuid now command targets =
     \<lparr>fo_operation_id = uuid, fo_command = command, fo_targets = targets, fo_initiator_id = [],
      fo_started_at = now, fo_timeout_secs = 60, fo_max_parallel = 10, fo_ssh_user = ''root'',
      fo_ssh_port = 22\<rparr>"

definition with_initiator :: "string \<Rightarrow> fleet_operation \<Rightarrow> fleet_operation" where
  "with_initiator i f = f\<lparr>fo_initiator_id := i\<rparr>"

definition with_timeout :: "u64 \<Rightarrow> fleet_operation \<Rightarrow> fleet_operation" where
  "with_timeout secs f = f\<lparr>fo_timeout_secs := secs\<rparr>"

definition with_max_parallel :: "u32 \<Rightarrow> fleet_operation \<Rightarrow> fleet_operation" where
  "with_max_parallel n f = f\<lparr>fo_max_parallel := n\<rparr>"

definition with_ssh_user :: "string \<Rightarrow> fleet_operation \<Rightarrow> fleet_operation" where
  "with_ssh_user user f = f\<lparr>fo_ssh_user := user\<rparr>"

definition with_ssh_port :: "u16 \<Rightarrow> fleet_operation \<Rightarrow> fleet_operation" where
  "with_ssh_port port f = f\<lparr>fo_ssh_port := port\<rparr>"

datatype node_execution_status =
    NPending | NRunning | NSucceeded | NFailed | NTimedOut | NUnreachable | NCancelled

record node_result =
  nr_node_id :: string
  nr_node_name :: string
  nr_vpn_ip :: string
  nr_exit_code :: "int option"
  nr_stdout :: string
  nr_stderr :: string
  nr_duration_ms :: u64
  nr_error :: "string option"
  nr_status :: node_execution_status

record target_node =
  tn_node_id :: string
  tn_name :: string
  tn_vpn_ip :: string
  tn_online :: bool

record fleet_summary =
  fsu_total :: nat
  fsu_succeeded :: nat
  fsu_failed :: nat
  fsu_timed_out :: nat
  fsu_unreachable :: nat

record fleet_results =
  flr_operation_id :: string
  flr_command :: string
  flr_started_at :: datetime
  flr_completed_at :: datetime
  flr_results :: "(string, node_result) hmap"
  flr_summary :: fleet_summary

definition nr_success :: "node_result \<Rightarrow> bool" where
  "nr_success r \<longleftrightarrow> nr_exit_code r = Some 0 \<and> nr_error r = None"

definition success_result :: "target_node \<Rightarrow> int \<Rightarrow> string \<Rightarrow> string \<Rightarrow> u64 \<Rightarrow> node_result" where
  "success_result t exit_code out err ms =
     \<lparr>nr_node_id = tn_node_id t, nr_node_name = tn_name t, nr_vpn_ip = tn_vpn_ip t,
      nr_exit_code = Some exit_code, nr_stdout = out, nr_stderr = err, nr_duration_ms = ms,
      nr_error = None, nr_status = (if exit_code = 0 then NSucceeded else NFailed)\<rparr>"

definition connection_error :: "target_node \<Rightarrow> string \<Rightarrow> u64 \<Rightarrow> node_result" where
  "connection_error t error ms =
     \<lparr>nr_node_id = tn_node_id t, nr_node_name = tn_name t, nr_vpn_ip = tn_vpn_ip t,
      nr_exit_code = None, nr_stdout = [], nr_stderr = [], nr_duration_ms = ms,
      nr_error = Some error, nr_status = NUnreachable\<rparr>"

definition timeout_result :: "target_node \<Rightarrow> u64 \<Rightarrow> node_result" where
  "timeout_result t timeout_secs =
     \<lparr>nr_node_id = tn_node_id t, nr_node_name = tn_name t, nr_vpn_ip = tn_vpn_ip t,
      nr_exit_code = None, nr_stdout = [], nr_stderr = [], nr_duration_ms = timeout_secs * 1000,
      nr_error = Some (''Execution timed out after '' @ show_nat (unat timeout_secs) @ ''s''),
      nr_status = NTimedOut\<rparr>"

fun count_result :: "node_execution_status \<Rightarrow> fleet_summary \<Rightarrow> fleet_summary" where
  "count_result NSucceeded s = s\<lparr>fsu_succeeded := Suc (fsu_succeeded s)\<rparr>"
| "count_result NFailed s = s\<lparr>fsu_failed := Suc (fsu_failed s)\<rparr>"
| "count_result NTimedOut s = s\<lparr>fsu_timed_out := Suc (fsu_timed_out s)\<rparr>"
| "count_result NUnreachable s = s\<lparr>fsu_unreachable := Suc (fsu_unreachable s)\<rparr>"
| "count_result _ s = s"

definition FleetSummary_default :: fleet_summary where
  "FleetSummary_default =
     \<lparr>fsu_total = 0, fsu_succeeded = 0, fsu_failed = 0, fsu_timed_out = 0, fsu_unreachable = 0\<rparr>"

definition from_results :: "(string, node_result) hmap \<Rightarrow> fleet_summary" where
  "from_results results =
     fold (\<lambda>r. count_result (nr_status r)) (hm_values results)
       (FleetSummary_default\<lparr>fsu_total := hm_len results\<rparr>)"

definition flr_successful :: "fleet_results \<Rightarrow> node_result list" where
  "flr_successful r = filter (\<lambda>x. nr_status x = NSucceeded) (hm_values (flr_results r))"

definition flr_failed :: "fleet_results \<Rightarrow> node_result list" where
  "flr_failed r = filter (\<lambda>x. nr_status x = NFailed) (hm_values (flr_results r))"

section \<open>Execution\<close>

definition to_target :: "(ip_addr \<Rightarrow> string) \<Rightarrow> peer_info \<Rightarrow> target_node" where
  "to_target show_ip p =
     \<lparr>tn_node_id = (case pf_device_id p of Some d \<Rightarrow> d | None \<Rightarrow> []), tn_name = pf_name p,
      tn_vpn_ip = show_ip (pf_vpn_ip p), tn_online = pf_online p\<rparr>"

definition resolve_targets ::
  "(ip_addr \<Rightarrow> string) \<Rightarrow> 'e + peer_info list \<Rightarrow> fleet_targets \<Rightarrow> 'e + target_node list" where
  "resolve_targets show_ip list_peers targets =
     and_then list_peers (\<lambda>peers. Inr (map (to_target show_ip)
       (case targets of
          NodeIds ids \<Rightarrow> filter (\<lambda>p. case pf_device_id p of Some d \<Rightarrow> d \<in> set ids | None \<Rightarrow> False) peers
        | VpnIps ips \<Rightarrow> filter (\<lambda>p. show_ip (pf_vpn_ip p) \<in> set ips) peers
        | AllOnline \<Rightarrow> filter pf_online peers
        | Network _ \<Rightarrow> peers
        | Tags _ \<Rightarrow> peers)))"

text \<open>What a call under \<open>tokio::time::timeout\<close> gives, with the milliseconds since the start.\<close>

datatype 'a timed = Elapsed | InTime 'a u64

definition execute_on_node ::
  "(string + unit) timed \<Rightarrow> (string + int \<times> string \<times> string) timed \<Rightarrow> target_node \<Rightarrow> u64 \<Rightarrow> node_result" where
  "execute_on_node connect exec target timeout_secs =
     (case connect of
        InTime (Inl e) ms \<Rightarrow> connection_error target (''Connection failed: '' @ e) ms
      | Elapsed \<Rightarrow> timeout_result target timeout_secs
      | InTime (Inr _) ms0 \<Rightarrow>
          (case exec of
             InTime (Inr (code, out, err)) ms \<Rightarrow> success_result target code out err ms
           | InTime (Inl e) ms \<Rightarrow> connection_error target (''Execution failed: '' @ e) ms
           | Elapsed \<Rightarrow> timeout_result target timeout_secs))"

text \<open>
  How a task ends: a panic, or the outcomes of its two calls. The results of the tasks are collected
  in the order of the targets.
\<close>

datatype task_end = Panicked | Ran "(string + unit) timed" "(string + int \<times> string \<times> string) timed"

fun collect_results ::
  "(target_node \<Rightarrow> task_end) \<Rightarrow> u64 \<Rightarrow> target_node list \<Rightarrow> (string, node_result) hmap \<Rightarrow> (string, node_result) hmap" where
  "collect_results ends timeout [] m = m"
| "collect_results ends timeout (t # ts) m =
     collect_results ends timeout ts
       (case ends t of
          Panicked \<Rightarrow> m
        | Ran c x \<Rightarrow> hm_insert (tn_node_id t) (execute_on_node c x t timeout) m)"

definition execute ::
  "(ip_addr \<Rightarrow> string) \<Rightarrow> 'e + peer_info list \<Rightarrow> (target_node \<Rightarrow> task_end) \<Rightarrow> datetime \<Rightarrow> datetime \<Rightarrow>
     fleet_operation \<Rightarrow> ('e + fleet_results) option" where
  "execute show_ip list_peers ends t0 t1 operation =
     (case resolve_targets show_ip list_peers (fo_targets operation) of
        Inl e \<Rightarrow> Some (Inl e)
      | Inr targets \<Rightarrow>
          if targets = [] then
            Some (Inr \<lparr>flr_operation_id = fo_operation_id operation, flr_command = fo_command operation,
                       flr_started_at = t0, flr_completed_at = t1, flr_results = [],
                       flr_summary = FleetSummary_default\<rparr>)
          else if fo_max_parallel operation = 0 then None
          else
            (let results = collect_results ends (fo_timeout_secs operation) targets [] in
             Some (Inr \<lparr>flr_operation_id = fo_operation_id operation, flr_command = fo_command operation,
                        flr_started_at = t0, flr_completed_at = t1, flr_results = results,
                        flr_summary = from_results results\<rparr>)))"

section \<open>The tasks and the semaphore\<close>

text \<open>
  The loop takes a permit for the next target and spawns its task; a task that ends gives its permit
  back. \<open>execute\<close> returns when all tasks have ended, and its \<open>None\<close> is a loop that waits for ever.
\<close>

record fleet_state =
  fl_todo :: "target_node list"
  fl_running :: "target_node list"
  fl_done :: "target_node list"
  fl_permits :: nat

definition fleet_start :: "u32 \<Rightarrow> target_node list \<Rightarrow> fleet_state" where
  "fleet_start max_parallel ts =
     \<lparr>fl_todo = ts, fl_running = [], fl_done = [], fl_permits = unat max_parallel\<rparr>"

inductive fleet_step :: "fleet_state \<Rightarrow> fleet_state \<Rightarrow> bool" where
  spawn: "\<lbrakk>fl_todo s = t # ts; 0 < fl_permits s\<rbrakk> \<Longrightarrow>
     fleet_step s (s\<lparr>fl_todo := ts, fl_running := t # fl_running s, fl_permits := fl_permits s - 1\<rparr>)"
| finish: "t \<in> set (fl_running s) \<Longrightarrow>
     fleet_step s (s\<lparr>fl_running := remove1 t (fl_running s), fl_done := t # fl_done s,
                     fl_permits := fl_permits s + 1\<rparr>)"

inductive_cases fleet_stepE: "fleet_step s s'"

abbreviation fleet_reach :: "fleet_state \<Rightarrow> fleet_state \<Rightarrow> bool" where
  "fleet_reach \<equiv> fleet_step\<^sup>*\<^sup>*"

definition fleet_inv :: "nat \<Rightarrow> nat \<Rightarrow> fleet_state \<Rightarrow> bool" where
  "fleet_inv m n s \<longleftrightarrow>
     fl_permits s + length (fl_running s) = m \<and>
     length (fl_todo s) + length (fl_running s) + length (fl_done s) = n"

lemma fleet_step_inv: "fleet_step s s' \<Longrightarrow> fleet_inv m n s \<Longrightarrow> fleet_inv m n s'"
proof (induction rule: fleet_step.induct)
  case (finish t s)
  then have "length (remove1 t (fl_running s)) = length (fl_running s) - 1" "0 < length (fl_running s)"
    by (auto simp: length_remove1)
  with finish show ?case by (auto simp: fleet_inv_def)
qed (auto simp: fleet_inv_def)

lemma fleet_reach_inv: "fleet_reach s s' \<Longrightarrow> fleet_inv m n s \<Longrightarrow> fleet_inv m n s'"
  by (induction rule: rtranclp_induct) (auto intro: fleet_step_inv)

text \<open>Every step makes progress, so no run is infinite.\<close>

definition fleet_left :: "fleet_state \<Rightarrow> nat" where
  "fleet_left s = 2 * length (fl_todo s) + length (fl_running s)"

lemma fleet_step_left: "fleet_step s s' \<Longrightarrow> fleet_left s' < fleet_left s"
proof (induction rule: fleet_step.induct)
  case (finish t s)
  then have "length (remove1 t (fl_running s)) < length (fl_running s)"
    using length_pos_if_in_set [of t "fl_running s"] by (simp add: length_remove1)
  then show ?case by (simp add: fleet_left_def)
qed (simp add: fleet_left_def)

lemma fleet_wf: "wfP (\<lambda>s' s. fleet_step s s')"
  by (rule wfp_if_convertible_to_nat [where f = fleet_left]) (rule fleet_step_left)

lemma fleet_stuck_iff:
  "(\<nexists>s'. fleet_step s s') \<longleftrightarrow> fl_running s = [] \<and> (fl_todo s = [] \<or> fl_permits s = 0)"
proof
  assume stuck: "\<nexists>s'. fleet_step s s'"
  then have "fl_running s = []" using finish by (metis list.set_intros(1) neq_Nil_conv)
  moreover have "fl_todo s = [] \<or> fl_permits s = 0"
    using stuck spawn by (metis neq0_conv neq_Nil_conv)
  ultimately show "fl_running s = [] \<and> (fl_todo s = [] \<or> fl_permits s = 0)" by simp
qed (auto elim: fleet_stepE)

section \<open>Lemmas on results\<close>

lemma collect_results_wf: "hm_wf m \<Longrightarrow> hm_wf (collect_results ends to ts m)"
  by (induction ts arbitrary: m) (auto split: task_end.split)

lemma collect_results_None:
  "hm_get (collect_results ends to ts m) k = None \<longleftrightarrow>
     hm_get m k = None \<and> (\<forall>t \<in> set ts. ends t \<noteq> Panicked \<longrightarrow> tn_node_id t \<noteq> k)"
proof (induction ts arbitrary: m)
  case (Cons t ts)
  show ?case by (cases "ends t") (auto simp: Cons)
qed simp

lemma collect_results_keys:
  "{k. hm_get (collect_results ends to ts []) k \<noteq> None} = tn_node_id ` {t \<in> set ts. ends t \<noteq> Panicked}"
  unfolding collect_results_None by auto

lemma execute_on_node_status:
  "nr_status (execute_on_node c x t to) \<in> {NSucceeded, NFailed, NTimedOut, NUnreachable}"
  by (auto simp: execute_on_node_def success_result_def connection_error_def timeout_result_def
      split: timed.split sum.split)

lemma collect_results_status:
  "list_all (\<lambda>r. nr_status r \<in> {NSucceeded, NFailed, NTimedOut, NUnreachable}) (hm_values m) \<Longrightarrow> hm_wf m \<Longrightarrow>
   list_all (\<lambda>r. nr_status r \<in> {NSucceeded, NFailed, NTimedOut, NUnreachable})
     (hm_values (collect_results ends to ts m))"
proof (induction ts arbitrary: m)
  case (Cons t ts)
  have "list_all (\<lambda>r. nr_status r \<in> {NSucceeded, NFailed, NTimedOut, NUnreachable})
      (hm_values (hm_insert k (execute_on_node c x t to) m))" for k c x
  proof -
    have "r \<in> set (hm_values (hm_insert k v m)) \<Longrightarrow> r = v \<or> r \<in> set (hm_values m)" for r v
      using hm_mem_iff [of "hm_insert k v m"] hm_mem_iff [of m] Cons.prems(2)
      by (auto simp: hm_values_def image_iff split: if_splits)
    with Cons.prems(1) execute_on_node_status show ?thesis
      unfolding list_all_iff by metis
  qed
  with Cons show ?case by (auto split: task_end.split)
qed simp

lemma count_result_fold:
  "fsu_succeeded (fold (\<lambda>r. count_result (nr_status r)) rs s) + fsu_failed (fold (\<lambda>r. count_result (nr_status r)) rs s)
     + fsu_timed_out (fold (\<lambda>r. count_result (nr_status r)) rs s) + fsu_unreachable (fold (\<lambda>r. count_result (nr_status r)) rs s)
   = fsu_succeeded s + fsu_failed s + fsu_timed_out s + fsu_unreachable s
     + length (filter (\<lambda>r. nr_status r \<in> {NSucceeded, NFailed, NTimedOut, NUnreachable}) rs) \<and>
   fsu_total (fold (\<lambda>r. count_result (nr_status r)) rs s) = fsu_total s"
proof (induction rs arbitrary: s)
  case (Cons r rs)
  show ?case using Cons by (cases "nr_status r") auto
qed simp

section \<open>Properties\<close>

text \<open>
  Fleet concurrency. Whatever the order in which tasks run, at most \<open>max_parallel\<close> of them run at a
  time, no schedule goes on for ever, and a schedule that cannot go on has run every target, unless
  \<open>max_parallel\<close> is zero: then nothing ever runs and the call waits for ever.
\<close>

theorem fleet_schedules:
  assumes "fleet_reach (fleet_start m ts) s"
  shows "length (fl_running s) \<le> unat m \<and> wfP (\<lambda>s' s. fleet_step s s') \<and>
    (0 < unat m \<longrightarrow> (\<nexists>s'. fleet_step s s') \<longrightarrow> fl_todo s = [] \<and> length (fl_done s) = length ts) \<and>
    (m = 0 \<longrightarrow> s = fleet_start m ts)"
proof -
  have inv: "fleet_inv (unat m) (length ts) s"
    by (rule fleet_reach_inv [OF assms]) (simp add: fleet_inv_def fleet_start_def)
  have zero: "s = fleet_start m ts" if "m = 0"
  proof -
    have "\<nexists>s'. fleet_step (fleet_start m ts) s'"
      using that by (simp only: fleet_stuck_iff) (simp add: fleet_start_def)
    with assms show ?thesis by (metis converse_rtranclpE)
  qed
  show ?thesis using inv zero fleet_wf unfolding fleet_stuck_iff by (auto simp: fleet_inv_def)
qed

text \<open>
  Fleet results. A completed operation whose tasks did not panic reports one result per distinct
  node id among its targets, and counts each exactly once: targets that share a node id, as all peers
  without a device id do, lose all results but the last.
\<close>

theorem fleet_summary_counts_ids:
  assumes "execute show_ip list_peers ends t0 t1 operation = Some (Inr r)"
    and "resolve_targets show_ip list_peers (fo_targets operation) = Inr targets"
    and "\<And>t. t \<in> set targets \<Longrightarrow> ends t \<noteq> Panicked"
  shows "fsu_total (flr_summary r) = card (tn_node_id ` set targets) \<and>
    fsu_succeeded (flr_summary r) + fsu_failed (flr_summary r) + fsu_timed_out (flr_summary r)
      + fsu_unreachable (flr_summary r) = fsu_total (flr_summary r)"
proof (cases "targets = []")
  case True
  with assms show ?thesis by (auto simp: execute_def FleetSummary_default_def)
next
  case False
  let ?m = "collect_results ends (fo_timeout_secs operation) targets []"
  have r: "flr_summary r = from_results ?m"
    using assms(1,2) False by (auto simp: execute_def Let_def split: if_splits)
  have "hm_wf ?m" by (rule collect_results_wf) simp
  then have "hm_len ?m = card (tn_node_id ` set targets)"
  proof -
    have "{t \<in> set targets. ends t \<noteq> Panicked} = set targets" using assms(3) by auto
    with \<open>hm_wf ?m\<close> show ?thesis unfolding hm_len_card [OF \<open>hm_wf ?m\<close>] collect_results_keys by simp
  qed
  moreover have "list_all (\<lambda>x. nr_status x \<in> {NSucceeded, NFailed, NTimedOut, NUnreachable}) (hm_values ?m)"
    by (rule collect_results_status) (simp_all add: hm_values_def)
  then have "filter (\<lambda>x. nr_status x \<in> {NSucceeded, NFailed, NTimedOut, NUnreachable}) (hm_values ?m) = hm_values ?m"
    by (simp add: list_all_iff)
  ultimately show ?thesis
    using count_result_fold [of "hm_values ?m" "FleetSummary_default\<lparr>fsu_total := hm_len ?m\<rparr>"]
    by (simp add: r from_results_def FleetSummary_default_def hm_len_def hm_values_def)
qed

text \<open>
  Selecting by tags or by network selects every peer: the tags and the network are not looked at,
  so the command runs on the whole fleet, offline peers included.
\<close>

theorem tag_targets_are_all_peers:
  "resolve_targets show_ip (Inr peers) (Tags tags) = Inr (map (to_target show_ip) peers) \<and>
   resolve_targets show_ip (Inr peers) (Network net) = Inr (map (to_target show_ip) peers)"
  by (simp add: resolve_targets_def)

section \<open>Witnesses\<close>

definition peer_without_id :: "string \<Rightarrow> peer_info" where
  "peer_without_id n = \<lparr>pf_name = n, pf_vpn_ip = V4 10 0 0 1, pf_online = True, pf_device_id = None\<rparr>"

theorem fleet_schedules_witness:
  "length (fl_running (fleet_start 3 [to_target (\<lambda>_. ''10.0.0.1'') (peer_without_id ''a'')])) \<le> unat (3 :: u32)"
  by (rule fleet_schedules [THEN conjunct1, of 3 "[to_target (\<lambda>_. ''10.0.0.1'') (peer_without_id ''a'')]"]) simp

theorem fleet_summary_counts_ids_witness:
  "\<exists>r. execute (\<lambda>_. ''10.0.0.1'') (Inr [peer_without_id ''a'', peer_without_id ''b''] :: unit + peer_info list)
       (\<lambda>t. Ran (InTime (Inr ()) 1) (InTime (Inr (0, [], [])) 2)) 0 1 (fo_new ''op'' 0 ''uptime'' AllOnline) = Some (Inr r)
     \<and> fsu_total (flr_summary r) = 1"
proof -
  let ?peers = "Inr [peer_without_id ''a'', peer_without_id ''b''] :: unit + peer_info list"
  let ?op = "fo_new ''op'' 0 ''uptime'' AllOnline"
  have t: "resolve_targets (\<lambda>_. ''10.0.0.1'') ?peers (fo_targets ?op) =
      Inr (map (to_target (\<lambda>_. ''10.0.0.1'')) [peer_without_id ''a'', peer_without_id ''b''])"
    by (simp add: resolve_targets_def fo_new_def peer_without_id_def)
  then obtain r where r: "execute (\<lambda>_. ''10.0.0.1'') ?peers
      (\<lambda>t. Ran (InTime (Inr ()) 1) (InTime (Inr (0, [], [])) 2)) 0 1 ?op = Some (Inr r)"
    by (simp add: execute_def Let_def fo_new_def)
  from fleet_summary_counts_ids [OF r t] have "fsu_total (flr_summary r) = 1"
    by (simp add: to_target_def peer_without_id_def)
  with r show ?thesis by blast
qed

end
