(* ===== verification/Pty.thy ===== *)
theory Pty
  imports Machines
begin

text \<open>
  \<open>crates/omni-ssh/src/server/pty.rs\<close>: terminal configuration, the command line of the login shell,
  and the blocking task that moves bytes between the terminal and the channels of an
  \<open>AsyncPtySession\<close>. What one round of that task sees of the terminal (the results of write, read and
  \<open>try_wait\<close>) is a parameter. The last section is the mutex that the session handler puts around the
  session (\<open>spawn_pty_io_task\<close> and \<open>data\<close> in \<open>server/handler.rs\<close>).
\<close>

section \<open>Configuration and command line\<close>

record pty_config =
  ptc_term :: string
  ptc_cols :: u16
  ptc_rows :: u16
  ptc_pixel_width :: u16
  ptc_pixel_height :: u16

definition PtyConfig_default :: pty_config where
  "PtyConfig_default =
     \<lparr>ptc_term = ''xterm-256color'', ptc_cols = 80, ptc_rows = 24, ptc_pixel_width = 0,
      ptc_pixel_height = 0\<rparr>"

record pty_size =
  pts_rows :: u16
  pts_cols :: u16
  pts_pixel_width :: u16
  pts_pixel_height :: u16

definition pty_size_of :: "pty_config \<Rightarrow> pty_size" where
  "pty_size_of c =
     \<lparr>pts_rows = ptc_rows c, pts_cols = ptc_cols c, pts_pixel_width = ptc_pixel_width c,
      pts_pixel_height = ptc_pixel_height c\<rparr>"

text \<open>
  The command a terminal is opened for: program, arguments, environment additions in the order they
  are made, and working directory. It names no user: the process runs as the server does, and it inherits the
  environment of the server, to which the library adds these variables.
\<close>

record pty_command =
  pcm_program :: string
  pcm_args :: "string list"
  pcm_env :: "(string \<times> string) list"
  pcm_cwd :: "string option"
  pcm_size :: pty_size

definition pty_session_new ::
  "string \<Rightarrow> pty_config \<Rightarrow> (string \<times> string) list \<Rightarrow> string option \<Rightarrow> pty_command" where
  "pty_session_new shell config env working_dir =
     \<lparr>pcm_program = shell, pcm_args = [''-l''], pcm_env = (''TERM'', ptc_term config) # env,
      pcm_cwd = working_dir, pcm_size = pty_size_of config\<rparr>"

definition pty_session_exec ::
  "string \<Rightarrow> string \<Rightarrow> pty_config \<Rightarrow> (string \<times> string) list \<Rightarrow> string option \<Rightarrow> pty_command" where
  "pty_session_exec shell command config env working_dir =
     \<lparr>pcm_program = shell, pcm_args = [''-c'', command], pcm_env = (''TERM'', ptc_term config) # env,
      pcm_cwd = working_dir, pcm_size = pty_size_of config\<rparr>"

definition resize :: "u16 \<Rightarrow> u16 \<Rightarrow> pty_command \<Rightarrow> pty_command" where
  "resize cols rows p =
     p\<lparr>pcm_size := \<lparr>pts_rows = rows, pts_cols = cols, pts_pixel_width = 0, pts_pixel_height = 0\<rparr>\<rparr>"

section \<open>The I/O task\<close>

text \<open>
  The task's side of the three channels: inputs not yet taken, bytes written to the terminal, outputs
  sent, exit code sent, and whether the loop is still running.
\<close>

record pty_task =
  pt_inputs :: "u8 list list"
  pt_written :: "u8 list"
  pt_outputs :: "u8 list list"
  pt_exit :: "int option"
  pt_running :: bool

datatype read_result = ReadEof | ReadData "u8 list" bool | WouldBlock | ReadFailed
datatype wait_result = Exited int | StillRunning | WaitFailed

text \<open>
  One round: an input if there is one, then a read, then the child. The write result is the number of
  bytes the terminal took (the rest of the message is dropped), or an error; a read gives data and
  whether the receiver still takes it. The read blocks until the terminal has output.
\<close>

record pty_round =
  pr_write :: "nat option"
  pr_read :: read_result
  pr_wait :: wait_result

definition pty_take_input :: "nat option \<Rightarrow> pty_task \<Rightarrow> pty_task" where
  "pty_take_input w s =
     (case pt_inputs s of
        [] \<Rightarrow> s
      | d # ds \<Rightarrow>
          (case w of
             Some n \<Rightarrow> s\<lparr>pt_inputs := ds, pt_written := pt_written s @ take n d\<rparr>
           | None \<Rightarrow> s\<lparr>pt_inputs := ds, pt_running := False\<rparr>))"

definition pty_take_output :: "read_result \<Rightarrow> pty_task \<Rightarrow> pty_task" where
  "pty_take_output r s =
     (case r of
        ReadEof \<Rightarrow> s\<lparr>pt_running := False\<rparr>
      | ReadData bs sent \<Rightarrow>
          if sent then s\<lparr>pt_outputs := pt_outputs s @ [bs]\<rparr> else s\<lparr>pt_running := False\<rparr>
      | WouldBlock \<Rightarrow> s
      | ReadFailed \<Rightarrow> s\<lparr>pt_running := False\<rparr>)"

definition pty_check_child :: "wait_result \<Rightarrow> pty_task \<Rightarrow> pty_task" where
  "pty_check_child w s =
     (case w of
        Exited code \<Rightarrow> s\<lparr>pt_exit := Some code, pt_running := False\<rparr>
      | StillRunning \<Rightarrow> s
      | WaitFailed \<Rightarrow> s\<lparr>pt_running := False\<rparr>)"

definition pty_task_round :: "pty_round \<Rightarrow> pty_task \<Rightarrow> pty_task" where
  "pty_task_round r s =
     (if \<not> pt_running s then s
      else
        (let s1 = pty_take_input (pr_write r) s in
         if \<not> pt_running s1 then s1
         else
           (let s2 = pty_take_output (pr_read r) s1 in
            if \<not> pt_running s2 then s2 else pty_check_child (pr_wait r) s2)))"

definition pty_task_run :: "pty_round list \<Rightarrow> pty_task \<Rightarrow> pty_task" where
  "pty_task_run rs s = snd (run_ops (\<lambda>r s. ([] :: unit list, pty_task_round r s)) rs s)"

definition pty_task_new :: pty_task where
  "pty_task_new = \<lparr>pt_inputs = [], pt_written = [], pt_outputs = [], pt_exit = None, pt_running = True\<rparr>"

definition send_input :: "u8 list \<Rightarrow> pty_task \<Rightarrow> (string + unit) \<times> pty_task" where
  "send_input data s =
     (if pt_running s then (Inr (), s\<lparr>pt_inputs := pt_inputs s @ [data]\<rparr>)
      else (Inl ''PTY input channel closed'', s))"

section \<open>The mutex around a session\<close>

text \<open>
  The output task locks the session, waits for the next output with the lock held, unlocks, and locks
  again to look for the exit code; a \<open>data\<close> callback locks it to queue its input. Waiting callbacks
  are served in turn. The shell is described by the number of inputs it has not answered yet: it may
  write output only while there is one.
\<close>

datatype io_pc = WantRecv | InRecv | WantExit

record lock_state =
  lk_io :: io_pc
  lk_waiting :: "u8 list list"
  lk_delivered :: "u8 list list"
  lk_output :: nat
  lk_unanswered :: nat

inductive lock_step :: "lock_state \<Rightarrow> lock_state \<Rightarrow> bool" where
  arrive: "lock_step s (s\<lparr>lk_waiting := lk_waiting s @ [d]\<rparr>)"
| deliver: "lk_io s \<noteq> InRecv \<Longrightarrow> lk_waiting s = d # ds \<Longrightarrow>
    lock_step s (s\<lparr>lk_waiting := ds, lk_delivered := lk_delivered s @ [d],
                   lk_unanswered := Suc (lk_unanswered s)\<rparr>)"
| lock_recv: "lk_io s = WantRecv \<Longrightarrow> lock_step s (s\<lparr>lk_io := InRecv\<rparr>)"
| recv: "lk_io s = InRecv \<Longrightarrow> lk_output s = Suc n \<Longrightarrow>
    lock_step s (s\<lparr>lk_io := WantExit, lk_output := n\<rparr>)"
| check_exit: "lk_io s = WantExit \<Longrightarrow> lock_step s (s\<lparr>lk_io := WantRecv\<rparr>)"
| shell: "lk_unanswered s = Suc n \<Longrightarrow> lock_step s (s\<lparr>lk_unanswered := n, lk_output := lk_output s + k\<rparr>)"

inductive_cases lock_stepE: "lock_step s s'"

abbreviation lock_reach :: "lock_state \<Rightarrow> lock_state \<Rightarrow> bool" where
  "lock_reach \<equiv> lock_step\<^sup>*\<^sup>*"

text \<open>The shell has written its prompt, the task has passed it on and waits for more.\<close>

definition at_prompt :: "lock_state \<Rightarrow> bool" where
  "at_prompt s \<longleftrightarrow> lk_io s = InRecv \<and> lk_output s = 0 \<and> lk_unanswered s = 0"

section \<open>Lemmas\<close>

lemma pty_round_input:
  "length (pt_inputs s) \<le> Suc (length (pt_inputs (pty_task_round r s)))"
  by (auto simp: pty_task_round_def pty_take_input_def pty_take_output_def pty_check_child_def Let_def
      split: list.split option.split read_result.split wait_result.split)

lemma pty_task_run_Cons: "pty_task_run (r # rs) s = pty_task_run rs (pty_task_round r s)"
  by (simp add: pty_task_run_def split_beta Let_def)

lemma pty_task_run_Nil: "pty_task_run [] s = s"
  by (simp add: pty_task_run_def)

lemma at_prompt_step: "at_prompt s \<Longrightarrow> lock_step s s' \<Longrightarrow> at_prompt s' \<and> lk_delivered s' = lk_delivered s"
  by (erule lock_stepE) (auto simp: at_prompt_def)

lemma at_prompt_reach:
  assumes "lock_reach s s'" and "at_prompt s"
  shows "at_prompt s' \<and> lk_delivered s' = lk_delivered s"
  using assms by (induction rule: rtranclp_induct) (auto dest: at_prompt_step)

section \<open>Properties\<close>

text \<open>
  An interactive session hangs at its prompt. Once the output task waits for output with the lock
  held and the shell, having answered everything, waits for input, no input that arrives is ever
  handed to the shell, in any continuation: the callbacks wait for the lock, the task for output, and
  the shell for input.
\<close>

theorem pty_session_deadlocks:
  assumes "lock_reach s s'" and "lk_io s = InRecv" "lk_output s = 0" "lk_unanswered s = 0"
  shows "lk_delivered s' = lk_delivered s \<and> lk_io s' = InRecv"
  using at_prompt_reach [OF assms(1)] assms(2-4) by (simp add: at_prompt_def)

text \<open>
  The blocking task takes at most one input per round, and a round ends only with a read of the
  terminal: after \<open>n\<close> reads at most \<open>n\<close> inputs have been taken.
\<close>

theorem pty_input_per_read:
  "length (pt_inputs s) \<le> length rs + length (pt_inputs (pty_task_run rs s))"
proof (induction rs arbitrary: s)
  case (Cons r rs)
  from Cons.IH [of "pty_task_round r s"] pty_round_input [of s r] show ?case
    by (simp add: pty_task_run_Cons)
qed (simp add: pty_task_run_Nil)

section \<open>Witnesses\<close>

theorem pty_session_deadlocks_witness:
  "lk_delivered (\<lparr>lk_io = InRecv, lk_waiting = [[108, 115]], lk_delivered = [], lk_output = 0,
     lk_unanswered = 0\<rparr>) = []"
proof -
  let ?s = "\<lparr>lk_io = InRecv, lk_waiting = [], lk_delivered = [], lk_output = 0, lk_unanswered = 0\<rparr>"
  have "lock_step ?s (?s\<lparr>lk_waiting := lk_waiting ?s @ [[108, 115]]\<rparr>)" by (rule arrive)
  then have "lock_reach ?s (?s\<lparr>lk_waiting := [[108, 115]]\<rparr>)" by simp
  from pty_session_deadlocks [OF this] show ?thesis by simp
qed

end
