(* ===== verification/Ssh_Handler.thy ===== *)
theory Ssh_Handler
  imports Ssh_Server Command_Filter Recording Sftp Pty
begin

text \<open>
  \<open>crates/omni-ssh/src/server/handler.rs\<close> (with recording and SFTP enabled): the handler of one SSH
  connection. Its callbacks work on the handler and on the world it changes: terminals, recorders,
  background tasks, SFTP servers, reported events and messages to the client. Terminals and recorders
  are shared by reference, so the world keeps them in lists and channels hold their indices. The
  SSH library decides when a callback runs; a run is any sequence of callbacks and of rounds of the
  background tasks.
\<close>

section \<open>State\<close>

datatype channel_subsystem = NoSubsystem | SftpSubsystem

record channel_state =
  cs_channel :: bool
  cs_pty :: "nat option"
  cs_pty_config :: "pty_config option"
  cs_shell_requested :: bool
  cs_env :: "(string, string) hmap"
  cs_subsystem :: channel_subsystem
  cs_recorder :: "nat option"

record ssh_handler =
  hn_config :: ssh_server_config
  hn_peer_addr :: socket_addr
  hn_conn_id :: string
  hn_peer_identity :: "peer_identity option"
  hn_local_user :: "string option"
  hn_ssh_user :: "string option"
  hn_action :: "ssh_action option"
  hn_channels :: "(nat, channel_state) hmap"
  hn_active_conns :: "(string, ssh_connection) hmap"
  hn_auth_completed :: bool

text \<open>A terminal with the inputs queued for it, and a task that passes its output on.\<close>

record pty_handle =
  ph_command :: pty_command
  ph_input :: "u8 list list"

record io_task =
  it_channel :: nat
  it_pty :: nat
  it_recorder :: "nat option"
  it_running :: bool

datatype client_msg =
    RequestSuccess
  | RequestFailure
  | ChannelSuccess nat
  | ChannelData nat "u8 list"
  | ExtendedData nat nat string
  | ExitStatus nat u32
  | ChannelEof nat
  | ChannelClose nat

record sftp_session =
  ss_channel :: nat
  ss_config :: sftp_server_config
  ss_conn_id :: string
  ss_user :: string

record handler_world =
  hw_ptys :: "pty_handle list"
  hw_recorders :: "session_recorder list"
  hw_header_tasks :: "(nat \<times> cast_header) list"
  hw_io_tasks :: "io_task list"
  hw_sftp :: "sftp_session list"
  hw_events :: "ssh_event list"
  hw_msgs :: "client_msg list"

definition world_init :: handler_world where
  "world_init =
     \<lparr>hw_ptys = [], hw_recorders = [], hw_header_tasks = [], hw_io_tasks = [], hw_sftp = [],
      hw_events = [], hw_msgs = []\<rparr>"

text \<open>
  Parameters: regular expressions, encoders, the user data base and the text of addresses; and for one
  callback the clocks, the backend's answers (\<open>who_is\<close> is asked a second time) and the results of
  opening a terminal, sending input and creating a file.
\<close>

record 'r handler_params =
  hp_compile :: "string \<Rightarrow> 'r option"
  hp_is_match :: "'r \<Rightarrow> string \<Rightarrow> bool"
  hp_env :: recording_env
  hp_user_shell :: "string \<Rightarrow> string option"
  hp_user_home :: "string \<Rightarrow> string option"
  hp_show_ip :: "ip_addr \<Rightarrow> string"

record 'e call_env =
  ce_backend :: "'e ssh_backend"
  ce_who_is :: "'e + peer_identity option"
  ce_utc :: utc_now
  ce_clock :: instant
  ce_spawn :: "string + unit"
  ce_send :: "string + unit"
  ce_file :: "string + unit"
  ce_file_script :: io_script
  ce_cloud_script :: io_script

type_synonym hstate = "ssh_handler \<times> handler_world"

definition handler_new ::
  "ssh_server_config \<Rightarrow> socket_addr \<Rightarrow> string \<Rightarrow> (string, ssh_connection) hmap \<Rightarrow> ssh_handler" where
  "handler_new config peer_addr conn_id active_conns =
     \<lparr>hn_config = config, hn_peer_addr = peer_addr, hn_conn_id = conn_id, hn_peer_identity = None,
      hn_local_user = None, hn_ssh_user = None, hn_action = None, hn_channels = [],
      hn_active_conns = active_conns, hn_auth_completed = False\<rparr>"

text \<open>\<open>OmniEdgeSshServer\<close> starts with an empty table, of which every handler gets a copy.\<close>

definition make_handler :: "ssh_server_config \<Rightarrow> socket_addr \<Rightarrow> string \<Rightarrow> ssh_handler" where
  "make_handler config peer_addr conn_id = handler_new config peer_addr conn_id []"

definition emit :: "ssh_event \<Rightarrow> handler_world \<Rightarrow> handler_world" where
  "emit ev w = w\<lparr>hw_events := hw_events w @ [ev]\<rparr>"

definition send_msgs :: "client_msg list \<Rightarrow> handler_world \<Rightarrow> handler_world" where
  "send_msgs ms w = w\<lparr>hw_msgs := hw_msgs w @ ms\<rparr>"

definition upd_channel :: "nat \<Rightarrow> (channel_state \<Rightarrow> channel_state) \<Rightarrow> ssh_handler \<Rightarrow> ssh_handler" where
  "upd_channel ch f h =
     (case hm_get (hn_channels h) ch of
        Some cs \<Rightarrow> h\<lparr>hn_channels := hm_insert ch (f cs) (hn_channels h)\<rparr>
      | None \<Rightarrow> h)"

section \<open>Starting sessions\<close>

definition create_command_filter :: "'r handler_params \<Rightarrow> ssh_handler \<Rightarrow> 'r command_filter option" where
  "create_command_filter p h = map_option (cf_new (hp_compile p)) (hn_action h)"

definition get_user_shell :: "'r handler_params \<Rightarrow> string \<Rightarrow> string" where
  "get_user_shell p username = (case hp_user_shell p username of Some s \<Rightarrow> s | None \<Rightarrow> ''/bin/sh'')"

definition get_user_home :: "'r handler_params \<Rightarrow> string \<Rightarrow> string option" where
  "get_user_home p username = hp_user_home p username"

text \<open>The writers of a new recorder; a file that cannot be created is left out.\<close>

definition recorder_writers ::
  "'e call_env \<Rightarrow> recording_config \<Rightarrow> ssh_action option \<Rightarrow> string \<Rightarrow> recording_writer list" where
  "recorder_writers ce rc action session_id =
     (case rc_local_dir rc of
        Some dir \<Rightarrow>
          (case fr_new (ce_file ce) (ce_file_script ce) (path_join dir (session_id @ ''.cast'')) of
             Inr w \<Rightarrow> [FileWriter w] | Inl e \<Rightarrow> [])
      | None \<Rightarrow> [])
     @ (case rc_cloud_url rc of
          Some url \<Rightarrow> [CloudWriter (cw_new (ce_cloud_script ce) url session_id)] | None \<Rightarrow> [])
     @ (case action of
          Some a \<Rightarrow> map (\<lambda>url. CloudWriter (cw_new (ce_cloud_script ce) url session_id)) (act_recorders a)
        | None \<Rightarrow> [])"

definition recorder_size :: "nat \<Rightarrow> ssh_handler \<Rightarrow> u32 \<times> u32" where
  "recorder_size ch h =
     (case hm_get (hn_channels h) ch of
        Some cs \<Rightarrow>
          (case cs_pty_config cs of
             Some c \<Rightarrow> (of_nat (unat (ptc_cols c)), of_nat (unat (ptc_rows c))) | None \<Rightarrow> (80, 24))
      | None \<Rightarrow> (80, 24))"

definition handler_create_recorder ::
  "'e call_env \<Rightarrow> nat \<Rightarrow> string \<Rightarrow> hstate \<Rightarrow> nat option \<times> handler_world" where
  "handler_create_recorder ce ch session_type s =
     (case s of (h, w) \<Rightarrow>
        let should_record = (case hn_action h of Some a \<Rightarrow> act_record_session a | None \<Rightarrow> False) in
        if \<not> should_record \<and> \<not> rc_enabled (sc_recording (hn_config h)) then (None, w)
        else
          (let (width, height) = recorder_size ch h;
               session_id = hn_conn_id h @ ''_'' @ session_type;
               recorder = fold add_writer
                 (recorder_writers ce (sc_recording (hn_config h)) (hn_action h) session_id)
                 (sr_new (ce_clock ce) (un_time (ce_utc ce)) session_id width height);
               header = (create_header recorder)
                 \<lparr>hd_ssh_user := hn_ssh_user h, hd_local_user := hn_local_user h,
                  hd_connection_id := Some (hn_conn_id h), hd_command := Some session_type\<rparr>;
               i = length (hw_recorders w) in
           (Some i, w\<lparr>hw_recorders := hw_recorders w @ [recorder],
                      hw_header_tasks := hw_header_tasks w @ [(i, header)]\<rparr>)))"

text \<open>The command line of the terminal for a channel.\<close>

definition channel_command :: "'r handler_params \<Rightarrow> nat \<Rightarrow> string \<Rightarrow> ssh_handler \<Rightarrow> pty_command" where
  "channel_command p ch local_user h =
     pty_session_new (get_user_shell p local_user)
       (case hm_get (hn_channels h) ch of
          Some cs \<Rightarrow> (case cs_pty_config cs of Some c \<Rightarrow> c | None \<Rightarrow> PtyConfig_default)
        | None \<Rightarrow> PtyConfig_default)
       (case hm_get (hn_channels h) ch of Some cs \<Rightarrow> cs_env cs | None \<Rightarrow> [])
       (get_user_home p local_user)"

text \<open>Registering a terminal with its recorder and its output task.\<close>

definition attach_pty ::
  "'e call_env \<Rightarrow> nat \<Rightarrow> string \<Rightarrow> pty_handle \<Rightarrow> hstate \<Rightarrow> hstate" where
  "attach_pty ce ch session_type pty s =
     (case s of (h, w) \<Rightarrow>
        let i = length (hw_ptys w);
            (rec_id, w1) = handler_create_recorder ce ch session_type (h, w);
            h1 = upd_channel ch (\<lambda>cs. cs\<lparr>cs_pty := Some i, cs_recorder := rec_id\<rparr>) h in
        (h1, w1\<lparr>hw_ptys := hw_ptys w1 @ [pty],
                hw_io_tasks := hw_io_tasks w1 @
                  [\<lparr>it_channel = ch, it_pty = i, it_recorder = rec_id, it_running = True\<rparr>]\<rparr>))"

definition start_shell ::
  "'r handler_params \<Rightarrow> 'e call_env \<Rightarrow> nat \<Rightarrow> hstate \<Rightarrow> (string + unit) \<times> hstate" where
  "start_shell p ce ch s =
     (case s of (h, w) \<Rightarrow>
        case hn_local_user h of
          None \<Rightarrow> (Inl ''Not authenticated'', (h, w))
        | Some local_user \<Rightarrow>
            (case ce_spawn ce of
               Inl e \<Rightarrow> (Inl e, (h, w))
             | Inr _ \<Rightarrow>
                 (let (h1, w1) = attach_pty ce ch ''shell''
                        \<lparr>ph_command = channel_command p ch local_user h, ph_input = []\<rparr> (h, w) in
                  (Inr (), (h1, emit (SessionStarted (hn_conn_id h) ''shell'') w1)))))"

definition crlf :: string where
  "crlf = [CHR 0x0D, CHR 0x0A]"

text \<open>What the client is sent when the filter refuses, and the event if there is one.\<close>

definition refusal :: "nat \<Rightarrow> string \<Rightarrow> client_msg list" where
  "refusal ch msg = [ExtendedData ch 1 (msg @ crlf), ExitStatus ch 1, ChannelEof ch, ChannelClose ch]"

definition refuse_command ::
  "nat \<Rightarrow> string \<Rightarrow> string \<Rightarrow> command_filter_result \<Rightarrow> handler_world \<Rightarrow> handler_world" where
  "refuse_command ch conn_id command r w =
     (case r of
        CmdAllowed \<Rightarrow> w
      | Blocked reason \<Rightarrow>
          send_msgs (refusal ch (''Command blocked: '' @ reason)) (emit (CommandBlocked conn_id command reason) w)
      | PathNotAllowed path \<Rightarrow> send_msgs (refusal ch (''Path not allowed: '' @ path)) w
      | ReadOnlyViolation \<Rightarrow> send_msgs (refusal ch ''Read-only mode: write operations not allowed'') w)"

definition filter_verdict :: "'r handler_params \<Rightarrow> ssh_handler \<Rightarrow> string \<Rightarrow> command_filter_result" where
  "filter_verdict p h command =
     (case create_command_filter p h of
        Some f \<Rightarrow> check_command (hp_is_match p) f command
      | None \<Rightarrow> CmdAllowed)"

definition exec_command ::
  "'r handler_params \<Rightarrow> 'e call_env \<Rightarrow> nat \<Rightarrow> string \<Rightarrow> hstate \<Rightarrow> (string + unit) \<times> hstate" where
  "exec_command p ce ch command s =
     (case s of (h, w) \<Rightarrow>
        let verdict = filter_verdict p h command in
        if verdict \<noteq> CmdAllowed then (Inr (), (h, refuse_command ch (hn_conn_id h) command verdict w))
        else
          case hn_local_user h of
            None \<Rightarrow> (Inl ''Not authenticated'', (h, w))
          | Some local_user \<Rightarrow>
              (case ce_spawn ce of
                 Inl e \<Rightarrow> (Inl e, (h, w))
               | Inr _ \<Rightarrow>
                   (case ce_send ce of
                      Inl e \<Rightarrow> (Inl e, (h, w))
                    | Inr _ \<Rightarrow>
                        (let (h1, w1) = attach_pty ce ch (''exec:'' @ take_chars 50 command)
                               \<lparr>ph_command = channel_command p ch local_user h,
                                ph_input = [bytes_of (command @ newline)]\<rparr> (h, w) in
                         (Inr (), (h1, emit (SessionStarted (hn_conn_id h) (''exec: '' @ command)) w1))))))"

section \<open>Callbacks\<close>

definition channel_open_session :: "nat \<Rightarrow> hstate \<Rightarrow> bool \<times> hstate" where
  "channel_open_session ch s =
     (case s of (h, w) \<Rightarrow>
        if \<not> hn_auth_completed h then (False, (h, w))
        else
          (True, (h\<lparr>hn_channels := hm_insert ch
             \<lparr>cs_channel = True, cs_pty = None, cs_pty_config = None, cs_shell_requested = False,
              cs_env = [], cs_subsystem = NoSubsystem, cs_recorder = None\<rparr> (hn_channels h)\<rparr>, w)))"

datatype auth_answer = AuthAccept | AuthReject (offers_none: bool)

definition unknown_node :: "'r handler_params \<Rightarrow> socket_addr \<Rightarrow> node_info" where
  "unknown_node p a =
     \<lparr>ni_id = ''unknown'', ni_name = ''unknown'', ni_virtual_ip = hp_show_ip p (sa_ip a), ni_tags = [],
      ni_online = True, ni_network_id = ''unknown''\<rparr>"

definition unknown_user :: user_profile where
  "unknown_user = \<lparr>up_id = ''unknown'', up_email = ''unknown'', up_name = None\<rparr>"

definition auth_none ::
  "'r handler_params \<Rightarrow> 'e call_env \<Rightarrow> string \<Rightarrow> hstate \<Rightarrow> ('e auth_error + auth_answer) \<times> hstate" where
  "auth_none p ce user s =
     (case s of (h0, w) \<Rightarrow>
        let h = h0\<lparr>hn_ssh_user := Some user\<rparr> in
        case authenticate (ce_backend ce) (ce_utc ce) (sa_ip (hn_peer_addr h)) user of
          Inl e \<Rightarrow> (Inl e, (h, w))
        | Inr (Accept local_user action) \<Rightarrow>
            (let h1 = (case ce_who_is ce of
                         Inr (Some peer) \<Rightarrow> h\<lparr>hn_peer_identity := Some peer\<rparr> | _ \<Rightarrow> h);
                 h2 = h1\<lparr>hn_local_user := Some local_user, hn_action := Some action,
                         hn_auth_completed := True\<rparr>;
                 conn_info = \<lparr>ci_connection_id = hn_conn_id h, ci_ssh_user = user,
                   ci_src_addr = hn_peer_addr h, ci_dst_addr = hn_peer_addr h,
                   ci_peer_node = (case hn_peer_identity h2 of
                      Some peer \<Rightarrow> pi_node peer | None \<Rightarrow> unknown_node p (hn_peer_addr h)),
                   ci_user_profile = (case hn_peer_identity h2 of
                      Some peer \<Rightarrow> pi_user peer | None \<Rightarrow> unknown_user)\<rparr>;
                 h3 = h2\<lparr>hn_active_conns := hm_insert (hn_conn_id h)
                         (conn_new (hn_conn_id h) conn_info action) (hn_active_conns h2)\<rparr> in
             (Inr AuthAccept, (h3, emit (ConnectionAuthenticated (hn_conn_id h) user local_user) w)))
        | Inr (Reject message) \<Rightarrow>
            (Inr (AuthReject False), (h, emit (ConnectionRejected (hn_peer_addr h) message) w))
        | Inr (HoldAndDelegate url) \<Rightarrow> (Inr (AuthReject False), (h, w)))"

definition auth_publickey_offered :: "string \<Rightarrow> hstate \<Rightarrow> auth_answer \<times> hstate" where
  "auth_publickey_offered user s = (AuthReject True, s)"

definition auth_publickey :: "string \<Rightarrow> hstate \<Rightarrow> auth_answer \<times> hstate" where
  "auth_publickey user s = (AuthReject True, s)"

definition to_u16 :: "u32 \<Rightarrow> u16" where
  "to_u16 n = of_nat (unat n)"

definition handler_pty_request ::
  "nat \<Rightarrow> string \<Rightarrow> u32 \<Rightarrow> u32 \<Rightarrow> u32 \<Rightarrow> u32 \<Rightarrow> hstate \<Rightarrow> hstate" where
  "handler_pty_request ch term cols rows pw ph s =
     (case s of (h, w) \<Rightarrow>
        if \<not> sc_enable_pty (hn_config h) then (h, w)
        else
          (upd_channel ch (\<lambda>cs. cs\<lparr>cs_pty_config := Some
             \<lparr>ptc_term = term, ptc_cols = to_u16 cols, ptc_rows = to_u16 rows,
              ptc_pixel_width = to_u16 pw, ptc_pixel_height = to_u16 ph\<rparr>\<rparr>) h,
           send_msgs [RequestSuccess] w))"

definition upd_recorder ::
  "nat \<Rightarrow> (session_recorder \<Rightarrow> (string + unit) \<times> session_recorder) \<Rightarrow> handler_world \<Rightarrow> handler_world" where
  "upd_recorder i f w =
     (if i < length (hw_recorders w)
      then w\<lparr>hw_recorders := (hw_recorders w)[i := snd (f (hw_recorders w ! i))]\<rparr> else w)"

definition window_change_request ::
  "'r handler_params \<Rightarrow> 'e call_env \<Rightarrow> nat \<Rightarrow> u32 \<Rightarrow> u32 \<Rightarrow> u32 \<Rightarrow> u32 \<Rightarrow> hstate \<Rightarrow> hstate" where
  "window_change_request p ce ch cols rows pw ph s =
     (case s of (h, w) \<Rightarrow>
        case hm_get (hn_channels h) ch of
          None \<Rightarrow> (h, w)
        | Some cs \<Rightarrow>
            (upd_channel ch (\<lambda>cs. cs\<lparr>cs_pty_config := map_option (\<lambda>c. c\<lparr>ptc_cols := to_u16 cols,
               ptc_rows := to_u16 rows, ptc_pixel_width := to_u16 pw, ptc_pixel_height := to_u16 ph\<rparr>)
               (cs_pty_config cs)\<rparr>) h,
             case cs_recorder cs of
               Some i \<Rightarrow> upd_recorder i (record_resize (hp_env p) (ce_clock ce) (un_time (ce_utc ce)) cols rows) w
             | None \<Rightarrow> w))"

definition answer :: "(string + unit) \<times> hstate \<Rightarrow> hstate" where
  "answer x =
     (case x of (r, h, w) \<Rightarrow>
        (h, send_msgs [case r of Inr _ \<Rightarrow> RequestSuccess | Inl e \<Rightarrow> RequestFailure] w))"

definition shell_request :: "'r handler_params \<Rightarrow> 'e call_env \<Rightarrow> nat \<Rightarrow> hstate \<Rightarrow> hstate" where
  "shell_request p ce ch s =
     (case s of (h, w) \<Rightarrow>
        answer (start_shell p ce ch (upd_channel ch (\<lambda>cs. cs\<lparr>cs_shell_requested := True\<rparr>) h, w)))"

definition exec_request :: "'r handler_params \<Rightarrow> 'e call_env \<Rightarrow> nat \<Rightarrow> u8 list \<Rightarrow> hstate \<Rightarrow> hstate" where
  "exec_request p ce ch data s = answer (exec_command p ce ch (from_utf8_lossy data) s)"

definition sftp_config_for :: "'r handler_params \<Rightarrow> ssh_handler \<Rightarrow> sftp_server_config" where
  "sftp_config_for p h =
     (let root_dir = (case hn_local_user h of Some u \<Rightarrow> get_user_home p u | None \<Rightarrow> None) in
      case hn_action h of
        Some action \<Rightarrow>
          \<lparr>sf_root_dir = root_dir, sf_allow_read = True, sf_allow_write = (\<not> act_read_only action),
           sf_max_file_size = None, sf_allowed_paths = act_allowed_paths action\<rparr>
      | None \<Rightarrow> SftpServerConfig_default\<lparr>sf_root_dir := root_dir\<rparr>)"

definition subsystem_request :: "'r handler_params \<Rightarrow> nat \<Rightarrow> string \<Rightarrow> hstate \<Rightarrow> hstate" where
  "subsystem_request p ch name s =
     (case s of (h, w) \<Rightarrow>
        if name \<noteq> ''sftp'' then (h, send_msgs [RequestFailure] w)
        else if \<not> sc_enable_sftp (hn_config h) then (h, send_msgs [RequestFailure] w)
        else if (case hn_action h of Some a \<Rightarrow> \<not> act_allow_sftp a | None \<Rightarrow> False)
        then (h, send_msgs [RequestFailure] w)
        else
          (case hm_get (hn_channels h) ch of
             None \<Rightarrow> (h, send_msgs [RequestFailure] w)
           | Some cs \<Rightarrow>
               (let h1 = upd_channel ch (\<lambda>cs. cs\<lparr>cs_subsystem := SftpSubsystem, cs_channel := False\<rparr>) h in
                if \<not> cs_channel cs then (h1, send_msgs [RequestFailure] w)
                else
                  (h1, emit (SessionStarted (hn_conn_id h) ''sftp'')
                     (send_msgs [ChannelSuccess ch]
                       (w\<lparr>hw_sftp := hw_sftp w @
                          [\<lparr>ss_channel = ch, ss_config = sftp_config_for p h, ss_conn_id = hn_conn_id h,
                            ss_user = (case hn_ssh_user h of Some u \<Rightarrow> u | None \<Rightarrow> [])\<rparr>]\<rparr>))))))"

definition accepted_env :: "string list" where
  "accepted_env = [''TERM'', ''LANG'', ''LC_ALL'', ''LC_CTYPE'', ''TZ'', ''COLORTERM'']"

definition env_request :: "nat \<Rightarrow> string \<Rightarrow> string \<Rightarrow> hstate \<Rightarrow> hstate" where
  "env_request ch name val s =
     (case s of (h, w) \<Rightarrow>
        if hn_action h \<noteq> None \<and> name \<in> set accepted_env
        then (upd_channel ch (\<lambda>cs. cs\<lparr>cs_env := hm_insert name val (cs_env cs)\<rparr>) h,
              send_msgs [RequestSuccess] w)
        else (h, send_msgs [RequestFailure] w))"

definition data_received :: "'r handler_params \<Rightarrow> 'e call_env \<Rightarrow> nat \<Rightarrow> u8 list \<Rightarrow> hstate \<Rightarrow> hstate" where
  "data_received p ce ch data s =
     (case s of (h, w) \<Rightarrow>
        case hm_get (hn_channels h) ch of
          None \<Rightarrow> (h, w)
        | Some cs \<Rightarrow>
            (let w1 = (case cs_recorder cs of
                         Some i \<Rightarrow> upd_recorder i (record_input (hp_env p) (ce_clock ce) (un_time (ce_utc ce)) data) w
                       | None \<Rightarrow> w) in
             (h, case cs_pty cs of
                   Some i \<Rightarrow>
                     (if i < length (hw_ptys w1) \<and> ce_send ce = Inr ()
                      then w1\<lparr>hw_ptys := (hw_ptys w1)[i := (hw_ptys w1 ! i)
                             \<lparr>ph_input := ph_input (hw_ptys w1 ! i) @ [data]\<rparr>]\<rparr>
                      else w1)
                 | None \<Rightarrow> w1)))"

definition channel_close :: "nat \<Rightarrow> hstate \<Rightarrow> hstate" where
  "channel_close ch s = (case s of (h, w) \<Rightarrow> (h\<lparr>hn_channels := hm_remove ch (hn_channels h)\<rparr>, w))"

definition channel_eof :: "nat \<Rightarrow> hstate \<Rightarrow> hstate" where
  "channel_eof ch s = s"

text \<open>\<open>Drop\<close> removes the connection from a clone of the table, which is a copy.\<close>

definition handler_drop :: "ssh_handler \<Rightarrow> (string, ssh_connection) hmap" where
  "handler_drop h = hm_remove (hn_conn_id h) (hn_active_conns h)"

section \<open>Background tasks\<close>

text \<open>The task that writes the header of a recording.\<close>

definition header_task :: "'r handler_params \<Rightarrow> 'e call_env \<Rightarrow> nat \<Rightarrow> handler_world \<Rightarrow> handler_world" where
  "header_task p ce k w =
     (if k < length (hw_header_tasks w) then
        (case hw_header_tasks w ! k of (i, header) \<Rightarrow>
           upd_recorder i (write_header (hp_env p) (un_time (ce_utc ce)) header)
             (w\<lparr>hw_header_tasks := take k (hw_header_tasks w) @ drop (Suc k) (hw_header_tasks w)\<rparr>))
      else w)"

text \<open>
  One round of the output task: an output (and whether the channel takes it) or the end of the output,
  with the exit code found afterwards.
\<close>

definition exit_msgs :: "nat \<Rightarrow> int option \<Rightarrow> client_msg list" where
  "exit_msgs ch code =
     (case code of Some c \<Rightarrow> [ExitStatus ch (of_int c)] | None \<Rightarrow> []) @ [ChannelEof ch, ChannelClose ch]"

definition io_task_end ::
  "'r handler_params \<Rightarrow> 'e call_env \<Rightarrow> string \<Rightarrow> nat \<Rightarrow> handler_world \<Rightarrow> handler_world" where
  "io_task_end p ce conn_id k w =
     (let t = hw_io_tasks w ! k;
          w1 = w\<lparr>hw_io_tasks := (hw_io_tasks w)[k := t\<lparr>it_running := False\<rparr>]\<rparr>;
          w2 = (case it_recorder t of
                  Some i \<Rightarrow> upd_recorder i (sr_finalize (hp_env p) (un_time (ce_utc ce))) w1
                | None \<Rightarrow> w1) in
      emit (SessionEnded conn_id) w2)"

definition io_task_round ::
  "'r handler_params \<Rightarrow> 'e call_env \<Rightarrow> string \<Rightarrow> nat \<Rightarrow> (u8 list \<times> bool) option \<Rightarrow> int option \<Rightarrow>
     handler_world \<Rightarrow> handler_world" where
  "io_task_round p ce conn_id k out code w =
     (if length (hw_io_tasks w) \<le> k \<or> \<not> it_running (hw_io_tasks w ! k) then w
      else
        (let t = hw_io_tasks w ! k; ch = it_channel t in
         case out of
           Some (data, taken) \<Rightarrow>
             (let w1 = (case it_recorder t of
                          Some i \<Rightarrow> upd_recorder i (record_output (hp_env p) (ce_clock ce) (un_time (ce_utc ce)) data) w
                        | None \<Rightarrow> w) in
              if \<not> taken then io_task_end p ce conn_id k w1
              else
                (let w2 = send_msgs [ChannelData ch data] w1 in
                 case code of
                   Some c \<Rightarrow> io_task_end p ce conn_id k (send_msgs (exit_msgs ch code) w2)
                 | None \<Rightarrow> w2))
         | None \<Rightarrow> io_task_end p ce conn_id k (send_msgs (exit_msgs ch code) w)))"

text \<open>The task of an SFTP server reports its end.\<close>

definition sftp_task_end :: "string \<Rightarrow> handler_world \<Rightarrow> handler_world" where
  "sftp_task_end conn_id w = emit (SessionEnded conn_id) w"

section \<open>Runs\<close>

datatype handler_op =
    AuthNone string
  | AuthPublickeyOffered string
  | AuthPublickey string
  | OpenSession nat
  | PtyReq nat string u32 u32 u32 u32
  | WindowChange nat u32 u32 u32 u32
  | ShellReq nat
  | ExecReq nat "u8 list"
  | SubsystemReq nat string
  | EnvReq nat string string
  | Data nat "u8 list"
  | CloseChannel nat
  | EofChannel nat
  | HeaderTask nat
  | SftpEnd
  | IoRound nat "(u8 list \<times> bool) option" "int option"

fun handler_step :: "'r handler_params \<Rightarrow> 'e call_env \<times> handler_op \<Rightarrow> hstate \<Rightarrow> hstate" where
  "handler_step p (ce, AuthNone user) s = snd (auth_none p ce user s)"
| "handler_step p (ce, AuthPublickeyOffered user) s = snd (auth_publickey_offered user s)"
| "handler_step p (ce, AuthPublickey user) s = snd (auth_publickey user s)"
| "handler_step p (ce, OpenSession ch) s = snd (channel_open_session ch s)"
| "handler_step p (ce, PtyReq ch t c r pw ph) s = handler_pty_request ch t c r pw ph s"
| "handler_step p (ce, WindowChange ch c r pw ph) s = window_change_request p ce ch c r pw ph s"
| "handler_step p (ce, ShellReq ch) s = shell_request p ce ch s"
| "handler_step p (ce, ExecReq ch d) s = exec_request p ce ch d s"
| "handler_step p (ce, SubsystemReq ch n) s = subsystem_request p ch n s"
| "handler_step p (ce, EnvReq ch n v) s = env_request ch n v s"
| "handler_step p (ce, Data ch d) s = data_received p ce ch d s"
| "handler_step p (ce, CloseChannel ch) s = channel_close ch s"
| "handler_step p (ce, EofChannel ch) s = channel_eof ch s"
| "handler_step p (ce, HeaderTask k) s = (fst s, header_task p ce k (snd s))"
| "handler_step p (ce, SftpEnd) s = (fst s, sftp_task_end (hn_conn_id (fst s)) (snd s))"
| "handler_step p (ce, IoRound k out code) s = (fst s, io_task_round p ce (hn_conn_id (fst s)) k out code (snd s))"

definition handler_run :: "'r handler_params \<Rightarrow> ('e call_env \<times> handler_op) list \<Rightarrow> hstate \<Rightarrow> hstate" where
  "handler_run p xs s = snd (run_ops (\<lambda>x s. ([] :: unit list, handler_step p x s)) xs s)"

lemma handler_run_simps [simp]:
  "handler_run p [] s = s"
  "handler_run p (x # xs) s = handler_run p xs (handler_step p x s)"
  by (simp_all add: handler_run_def split_beta Let_def)

section \<open>What a connection is granted\<close>

text \<open>
  The local users and actions the policy has granted to a connection in a run: those of an accepted
  authentication attempt.
\<close>

definition grants ::
  "('e call_env \<times> handler_op) list \<Rightarrow> ip_addr \<Rightarrow> string \<Rightarrow> ssh_action \<Rightarrow> bool" where
  "grants xs ip lu act \<longleftrightarrow>
     (\<exists>ce u. (ce, AuthNone u) \<in> set xs \<and> authenticate (ce_backend ce) (ce_utc ce) ip u = Inr (Accept lu act))"

definition env_ok :: "(string, string) hmap \<Rightarrow> bool" where
  "env_ok env = list_all (\<lambda>(k, v). k \<in> set accepted_env) env"

definition pty_granted :: "'r handler_params \<Rightarrow> (string \<Rightarrow> ssh_action \<Rightarrow> bool) \<Rightarrow> pty_handle \<Rightarrow> bool" where
  "pty_granted p G pty \<longleftrightarrow>
     (\<exists>lu act. G lu act \<and> pcm_program (ph_command pty) = get_user_shell p lu
        \<and> pcm_args (ph_command pty) = [''-l''] \<and> pcm_cwd (ph_command pty) = get_user_home p lu
        \<and> env_ok (pcm_env (ph_command pty)))"

definition sftp_granted :: "'r handler_params \<Rightarrow> (string \<Rightarrow> ssh_action \<Rightarrow> bool) \<Rightarrow> sftp_session \<Rightarrow> bool" where
  "sftp_granted p G ss \<longleftrightarrow>
     (\<exists>lu act. G lu act \<and> act_allow_sftp act \<and> sf_root_dir (ss_config ss) = get_user_home p lu
        \<and> sf_allow_write (ss_config ss) = (\<not> act_read_only act)
        \<and> sf_allowed_paths (ss_config ss) = act_allowed_paths act)"

definition identity_ok :: "(string \<Rightarrow> ssh_action \<Rightarrow> bool) \<Rightarrow> ssh_handler \<Rightarrow> bool" where
  "identity_ok G h \<longleftrightarrow>
     (case hn_local_user h of
        Some lu \<Rightarrow> (\<exists>act. hn_action h = Some act \<and> G lu act)
      | None \<Rightarrow> hn_action h = None \<and> \<not> hn_auth_completed h \<and> hn_channels h = [])"

definition handler_ok ::
  "'r handler_params \<Rightarrow> ip_addr \<Rightarrow> (string \<Rightarrow> ssh_action \<Rightarrow> bool) \<Rightarrow> hstate \<Rightarrow> bool" where
  "handler_ok p ip G s \<longleftrightarrow>
     sa_ip (hn_peer_addr (fst s)) = ip \<and> identity_ok G (fst s)
     \<and> hm.all_entries (\<lambda>ch cs. env_ok (cs_env cs)) (hn_channels (fst s))
     \<and> list_all (pty_granted p G) (hw_ptys (snd s)) \<and> list_all (sftp_granted p G) (hw_sftp (snd s))"

lemma env_ok_insert: "env_ok env \<Longrightarrow> k \<in> set accepted_env \<Longrightarrow> env_ok (hm_insert k v env)"
  unfolding env_ok_def hm_insert_def by (induction env) auto

lemma upd_channel_frame [simp]:
  "hn_peer_addr (upd_channel ch f h) = hn_peer_addr h"
  "hn_local_user (upd_channel ch f h) = hn_local_user h"
  "hn_action (upd_channel ch f h) = hn_action h"
  "hn_auth_completed (upd_channel ch f h) = hn_auth_completed h"
  "hn_config (upd_channel ch f h) = hn_config h"
  "hn_conn_id (upd_channel ch f h) = hn_conn_id h"
  by (simp_all add: upd_channel_def split: option.split)

lemma upd_channel_get:
  "hm_get (hn_channels (upd_channel ch f h)) ch' =
     (if ch' = ch then map_option f (hm_get (hn_channels h) ch) else hm_get (hn_channels h) ch')"
  by (simp add: upd_channel_def split: option.split)

lemma upd_channel_identity [simp]: "identity_ok G (upd_channel ch f h) = identity_ok G h"
proof (cases "hn_channels h = []")
  case False
  then have "hn_channels (upd_channel ch f h) \<noteq> []"
    by (cases "hn_channels h") (auto simp: upd_channel_def hm_insert_def split: option.split)
  with False show ?thesis by (simp add: identity_ok_def split: option.split)
qed (simp add: upd_channel_def)

lemma upd_channel_entries:
  "hm.all_entries P (hn_channels h) \<Longrightarrow> (\<And>cs. P ch cs \<Longrightarrow> P ch (f cs)) \<Longrightarrow>
   hm.all_entries P (hn_channels (upd_channel ch f h))"
  by (auto simp: hm.all_entries_def upd_channel_get)

lemma world_frame [simp]:
  "hw_ptys (emit ev w) = hw_ptys w" "hw_sftp (emit ev w) = hw_sftp w"
  "hw_ptys (send_msgs ms w) = hw_ptys w" "hw_sftp (send_msgs ms w) = hw_sftp w"
  "hw_ptys (upd_recorder i f w) = hw_ptys w" "hw_sftp (upd_recorder i f w) = hw_sftp w"
  by (simp_all add: emit_def send_msgs_def upd_recorder_def)

lemma recorder_frame [simp]:
  "hw_ptys (snd (handler_create_recorder ce ch st s)) = hw_ptys (snd s)"
  "hw_sftp (snd (handler_create_recorder ce ch st s)) = hw_sftp (snd s)"
  by (cases s; simp add: handler_create_recorder_def Let_def split_beta)+

lemma refuse_frame [simp]:
  "hw_ptys (refuse_command ch c cmd r w) = hw_ptys w" "hw_sftp (refuse_command ch c cmd r w) = hw_sftp w"
  by (simp_all add: refuse_command_def split: command_filter_result.split)

lemma task_frame [simp]:
  "hw_ptys (header_task p ce k w) = hw_ptys w" "hw_sftp (header_task p ce k w) = hw_sftp w"
  "hw_ptys (io_task_round p ce c k out code w) = hw_ptys w"
  "hw_sftp (io_task_round p ce c k out code w) = hw_sftp w"
  by (auto simp: header_task_def io_task_round_def io_task_end_def Let_def split_beta
      split: option.split prod.split)

text \<open>\<open>attach_pty\<close> in terms of its effect on the state.\<close>

lemma attach_pty_simps [simp]:
  "hw_ptys (snd (attach_pty ce ch st pty s)) = hw_ptys (snd s) @ [pty]"
  "hw_sftp (snd (attach_pty ce ch st pty s)) = hw_sftp (snd s)"
  by (cases s; simp add: attach_pty_def Let_def split_beta)+

lemma attach_pty_fst:
  "fst (attach_pty ce ch st pty s) = upd_channel ch (\<lambda>cs. cs\<lparr>cs_pty := Some (length (hw_ptys (snd s))),
     cs_recorder := fst (handler_create_recorder ce ch st s)\<rparr>) (fst s)"
  by (cases s) (simp add: attach_pty_def Let_def split_beta)

lemma attach_pty_ok:
  "handler_ok p ip G s \<Longrightarrow> pty_granted p G pty \<Longrightarrow> handler_ok p ip G (attach_pty ce ch st pty s)"
  by (auto simp: handler_ok_def attach_pty_fst intro!: upd_channel_entries)

lemma handler_ok_emit: "handler_ok p ip G (h, emit ev w) = handler_ok p ip G (h, w)"
  and handler_ok_msgs: "handler_ok p ip G (h, send_msgs ms w) = handler_ok p ip G (h, w)"
  by (simp_all add: handler_ok_def)

lemma handler_ok_upd:
  "handler_ok p ip G (h, w) \<Longrightarrow> (\<And>cs. env_ok (cs_env cs) \<Longrightarrow> env_ok (cs_env (f cs))) \<Longrightarrow>
   handler_ok p ip G (upd_channel ch f h, w)"
  by (auto simp: handler_ok_def intro!: upd_channel_entries)

lemma channel_command_granted:
  assumes "handler_ok p ip G (h, w)" and "hn_local_user h = Some lu"
  shows "pty_granted p G \<lparr>ph_command = channel_command p ch lu h, ph_input = i\<rparr>"
proof -
  from assms obtain act where "G lu act" by (auto simp: handler_ok_def identity_ok_def)
  moreover have "env_ok (case hm_get (hn_channels h) ch of Some cs \<Rightarrow> cs_env cs | None \<Rightarrow> [])"
    using assms(1) by (auto simp: handler_ok_def hm.all_entries_def env_ok_def split: option.split)
  ultimately show ?thesis
    by (auto simp: pty_granted_def channel_command_def pty_session_new_def env_ok_def accepted_env_def)
qed

lemma start_shell_ok: "handler_ok p ip G s \<Longrightarrow> handler_ok p ip G (snd (start_shell p ce ch s))"
proof -
  assume ok: "handler_ok p ip G s"
  obtain h w where s: "s = (h, w)" by (cases s)
  have "handler_ok p ip G (attach_pty ce ch ''shell'' \<lparr>ph_command = channel_command p ch lu h, ph_input = []\<rparr> (h, w))"
    if "hn_local_user h = Some lu" for lu
    using ok that unfolding s by (intro attach_pty_ok channel_command_granted)
  then show ?thesis using ok unfolding s
    by (auto simp: start_shell_def handler_ok_emit split_beta Let_def split: option.split sum.split)
qed

lemma exec_command_ok: "handler_ok p ip G s \<Longrightarrow> handler_ok p ip G (snd (exec_command p ce ch cmd s))"
proof -
  assume ok: "handler_ok p ip G s"
  obtain h w where s: "s = (h, w)" by (cases s)
  have att: "handler_ok p ip G (attach_pty ce ch st \<lparr>ph_command = channel_command p ch lu h, ph_input = i\<rparr> (h, w))"
    if "hn_local_user h = Some lu" for lu st i
    using ok that unfolding s by (intro attach_pty_ok channel_command_granted)
  have "handler_ok p ip G (h, refuse_command ch c cmd r w)" for c r
    using ok by (simp add: handler_ok_def s)
  then show ?thesis using ok att unfolding s
    by (auto simp: exec_command_def handler_ok_emit split_beta Let_def split: option.split sum.split)
qed

lemma answer_ok: "handler_ok p ip G (snd x) \<Longrightarrow> handler_ok p ip G (answer x)"
  by (cases x) (simp add: answer_def handler_ok_msgs split_beta)

lemma auth_none_ok:
  assumes "handler_ok p ip G s"
    and "\<And>lu act. authenticate (ce_backend ce) (ce_utc ce) ip u = Inr (Accept lu act) \<Longrightarrow> G lu act"
  shows "handler_ok p ip G (snd (auth_none p ce u s))"
  using assms
  by (cases s) (auto simp: auth_none_def handler_ok_def identity_ok_def Let_def
      split: sum.splits auth_result.splits option.splits)

lemma subsystem_ok: "handler_ok p ip G s \<Longrightarrow> handler_ok p ip G (subsystem_request p ch n s)"
proof -
  assume ok: "handler_ok p ip G s"
  obtain h w where s: "s = (h, w)" by (cases s)
  have up: "handler_ok p ip G (upd_channel ch (\<lambda>cs. cs\<lparr>cs_subsystem := SftpSubsystem, cs_channel := False\<rparr>) h, w)"
    using ok by (intro handler_ok_upd) (simp_all add: s)
  have "sftp_granted p G \<lparr>ss_channel = ch, ss_config = sftp_config_for p h, ss_conn_id = c, ss_user = u\<rparr>"
    if "hm_get (hn_channels h) ch = Some cs" "(case hn_action h of Some a \<Rightarrow> \<not> act_allow_sftp a | None \<Rightarrow> False) = False"
    for cs c u
    using ok that
    by (auto simp: s handler_ok_def identity_ok_def sftp_granted_def sftp_config_for_def split: option.splits)
  then have "handler_ok p ip G (upd_channel ch (\<lambda>cs. cs\<lparr>cs_subsystem := SftpSubsystem, cs_channel := False\<rparr>) h,
      w\<lparr>hw_sftp := hw_sftp w @ [\<lparr>ss_channel = ch, ss_config = sftp_config_for p h, ss_conn_id = c, ss_user = u\<rparr>]\<rparr>)"
    if "hm_get (hn_channels h) ch = Some cs" "(case hn_action h of Some a \<Rightarrow> \<not> act_allow_sftp a | None \<Rightarrow> False) = False"
    for cs c u
    using up that by (simp add: handler_ok_def)
  then show ?thesis using ok up
    by (auto simp: s subsystem_request_def handler_ok_emit handler_ok_msgs Let_def split: option.split)
qed

lemma data_ok: "handler_ok p ip G s \<Longrightarrow> handler_ok p ip G (data_received p ce ch d s)"
  by (cases s) (auto simp: data_received_def handler_ok_def Let_def pty_granted_def list_all_length nth_list_update
      split: option.splits)

lemma handler_step_ok:
  assumes "handler_ok p ip G s"
    and "\<And>ce u lu act. x = (ce, AuthNone u) \<Longrightarrow>
      authenticate (ce_backend ce) (ce_utc ce) ip u = Inr (Accept lu act) \<Longrightarrow> G lu act"
  shows "handler_ok p ip G (handler_step p x s)"
proof -
  obtain ce y where x: "x = (ce, y)" by (cases x)
  obtain h w where s: "s = (h, w)" by (cases s)
  note ok = assms(1)
  show ?thesis
  proof (cases y)
    case (AuthNone u)
    then show ?thesis using assms x by (auto intro: auth_none_ok)
  next
    case (OpenSession ch)
    then show ?thesis using ok
      by (auto simp: x s channel_open_session_def handler_ok_def identity_ok_def env_ok_def
          intro!: hm.all_entries_put split: option.splits)
  next
    case (ShellReq ch)
    have "handler_ok p ip G (upd_channel ch (\<lambda>cs. cs\<lparr>cs_shell_requested := True\<rparr>) h, w)"
      using ok by (intro handler_ok_upd) (simp_all add: s)
    then show ?thesis by (simp add: x s ShellReq shell_request_def answer_ok start_shell_ok)
  next
    case (CloseChannel ch)
    then show ?thesis using ok
      by (auto simp: x s channel_close_def handler_ok_def identity_ok_def hm_remove_def
          intro: hm.all_entries_del [unfolded hm_remove_def] split: option.splits)
  next
    case (WindowChange ch c r pw ph)
    then show ?thesis using ok
      by (auto simp: x s window_change_request_def handler_ok_def intro!: upd_channel_entries split: option.split)
  next
    case (PtyReq ch te c r pw ph)
    then show ?thesis using ok
      by (auto simp: x s handler_pty_request_def handler_ok_msgs intro!: handler_ok_upd)
  next
    case (EnvReq ch n v)
    then show ?thesis using ok
      by (auto simp: x s env_request_def handler_ok_msgs intro!: handler_ok_upd env_ok_insert)
  next
    case (HeaderTask k)
    then show ?thesis using ok by (simp add: x s handler_ok_def)
  next
    case SftpEnd
    then show ?thesis using ok by (simp add: x s handler_ok_def sftp_task_end_def)
  next
    case (IoRound k out code)
    then show ?thesis using ok by (simp add: x s handler_ok_def)
  qed (use ok in \<open>simp_all add: x auth_publickey_offered_def auth_publickey_def
      channel_eof_def exec_request_def answer_ok exec_command_ok subsystem_ok data_ok\<close>)
qed

interpretation connection: guarded_machine "\<lambda>x s. ([] :: unit list, handler_step p x s)" "handler_ok p ip G"
    "\<lambda>x. \<forall>ce u lu act. x = (ce, AuthNone u) \<longrightarrow>
       authenticate (ce_backend ce) (ce_utc ce) ip u = Inr (Accept lu act) \<longrightarrow> G lu act" for p ip G
  by unfold_locales (simp add: handler_step_ok)

lemma handler_run_ok:
  "handler_ok p (sa_ip a) (grants xs (sa_ip a)) (handler_run p xs (make_handler config a cid, world_init))"
  unfolding handler_run_def
proof (rule connection.run_guarded)
  show "handler_ok p (sa_ip a) (grants xs (sa_ip a)) (make_handler config a cid, world_init)"
    by (simp add: handler_ok_def identity_ok_def make_handler_def handler_new_def world_init_def hm.all_entries_def)
qed (auto simp: list_all_iff grants_def)

section \<open>Properties\<close>

text \<open>
  C5. Sessions need a grant. In any sequence of callbacks and background steps, every terminal of a
  connection runs the login shell of a local user that an accepted authentication of this connection
  has granted, in that user's home directory, and adds to the environment of the server, which it
  inherits, only variables of the six names that are accepted; every SFTP server has the root, the write permission and the allowed paths of a granted
  action that allows SFTP. Without an accepted authentication there is neither.
\<close>

theorem handler_sessions_granted:
  assumes "handler_run p xs (make_handler config a cid, world_init) = (h, w)"
  shows "list_all (\<lambda>pty. \<exists>lu act. grants xs (sa_ip a) lu act
            \<and> pcm_program (ph_command pty) = get_user_shell p lu
            \<and> pcm_cwd (ph_command pty) = get_user_home p lu
            \<and> list_all (\<lambda>(k, v). k \<in> set accepted_env) (pcm_env (ph_command pty))) (hw_ptys w)
    \<and> list_all (\<lambda>ss. \<exists>lu act. grants xs (sa_ip a) lu act \<and> act_allow_sftp act
            \<and> sf_root_dir (ss_config ss) = get_user_home p lu
            \<and> sf_allow_write (ss_config ss) = (\<not> act_read_only act)
            \<and> sf_allowed_paths (ss_config ss) = act_allowed_paths act) (hw_sftp w)"
proof
  have ok: "list_all (pty_granted p (grants xs (sa_ip a))) (hw_ptys w)"
    "list_all (sftp_granted p (grants xs (sa_ip a))) (hw_sftp w)"
    using handler_run_ok [of p a xs config cid] assms by (simp_all add: handler_ok_def)
  show "list_all (\<lambda>pty. \<exists>lu act. grants xs (sa_ip a) lu act
            \<and> pcm_program (ph_command pty) = get_user_shell p lu
            \<and> pcm_cwd (ph_command pty) = get_user_home p lu
            \<and> list_all (\<lambda>(k, v). k \<in> set accepted_env) (pcm_env (ph_command pty))) (hw_ptys w)"
    using ok(1) by (rule list.pred_mono_strong) (unfold pty_granted_def env_ok_def, blast)
  show "list_all (\<lambda>ss. \<exists>lu act. grants xs (sa_ip a) lu act \<and> act_allow_sftp act
            \<and> sf_root_dir (ss_config ss) = get_user_home p lu
            \<and> sf_allow_write (ss_config ss) = (\<not> act_read_only act)
            \<and> sf_allowed_paths (ss_config ss) = act_allowed_paths act) (hw_sftp w)"
    using ok(2) unfolding sftp_granted_def .
qed

text \<open>
  C7. Executed commands pass the filter. Whenever an exec request, after any run, starts a terminal, the
  connection has been granted an action whose filter allows the command, and the command and a newline
  are the first input of that terminal; a command that the filter refuses starts nothing, is answered
  on the error stream with exit status 1, and a blocked one is reported.
\<close>

theorem exec_request_filtered:
  assumes "handler_run p xs (make_handler config a cid, world_init) = (h, w)"
    and "exec_request p ce ch (bytes_of command) (h, w) = (h', w')" and "well_encoded command"
  shows "(hw_ptys w' = hw_ptys w \<or>
      (\<exists>lu act c. grants xs (sa_ip a) lu act \<and> hn_action h = Some act
         \<and> check_command (hp_is_match p) (cf_new (hp_compile p) act) command = CmdAllowed
         \<and> hw_ptys w' = hw_ptys w @ [\<lparr>ph_command = c, ph_input = [bytes_of (command @ newline)]\<rparr>]))
    \<and> (filter_verdict p h command = CmdAllowed \<or>
       hw_ptys w' = hw_ptys w \<and> (\<exists>msg. hw_msgs w' = hw_msgs w @ refusal ch msg @ [RequestSuccess]))"
proof -
  have ok: "identity_ok (grants xs (sa_ip a)) h"
    using handler_run_ok [of p a xs config cid] assms(1) by (simp add: handler_ok_def)
  have cmd: "from_utf8_lossy (bytes_of command) = command"
    using assms(3) by (rule from_utf8_lossy_bytes_of)
  show ?thesis
  proof (cases "filter_verdict p h command = CmdAllowed")
    case False
    then have "w' = send_msgs [RequestSuccess]
        (refuse_command ch (hn_conn_id h) command (filter_verdict p h command) w)"
      using assms(2) by (auto simp: exec_request_def exec_command_def answer_def cmd Let_def)
    with False show ?thesis
      by (cases "filter_verdict p h command") (auto simp: refuse_command_def send_msgs_def emit_def)
  next
    case True
    consider (none) "hw_ptys w' = hw_ptys w"
      | (started) lu where "hn_local_user h = Some lu" "hw_ptys w' = hw_ptys w @
          [\<lparr>ph_command = channel_command p ch lu h, ph_input = [bytes_of (command @ newline)]\<rparr>]"
      using assms(2) True
      by (auto simp: exec_request_def exec_command_def answer_def cmd split_beta Let_def
          split: option.splits sum.splits)
    then show ?thesis
    proof cases
      case (started lu)
      from ok started(1) obtain act where act: "hn_action h = Some act" "grants xs (sa_ip a) lu act"
        by (auto simp: identity_ok_def)
      with True have "check_command (hp_is_match p) (cf_new (hp_compile p) act) command = CmdAllowed"
        by (simp add: filter_verdict_def create_command_filter_def)
      with act started True show ?thesis by blast
    qed (use True in simp)
  qed
qed

text \<open>
  The filter does not see what a session types. In an authenticated connection with an open channel,
  after an exec request of an allowed command, and after a shell request whatever the action is, bytes
  received on the channel become the next input of the login shell, unchanged and unfiltered.
\<close>

theorem interactive_input_unfiltered:
  assumes "hn_local_user h = Some lu" and "hm_get (hn_channels h) ch = Some cs"
    and "ce_spawn ce = Inr ()" "ce_send ce = Inr ()" "ce_send ce' = Inr ()"
    and "filter_verdict p h command = CmdAllowed" "well_encoded command"
  shows "(let w1 = snd (handler_run p [(ce, ExecReq ch (bytes_of command)), (ce', Data ch d)] (h, w)) in
       ph_input (hw_ptys w1 ! length (hw_ptys w)) = [bytes_of (command @ newline), d])
    \<and> (let w1 = snd (handler_run p [(ce, ShellReq ch), (ce', Data ch d)] (h, w)) in
       ph_input (hw_ptys w1 ! length (hw_ptys w)) = [d])"
proof -
  let ?h1 = "upd_channel ch (\<lambda>cs. cs\<lparr>cs_shell_requested := True\<rparr>) h"
  have sh: "hn_local_user ?h1 = Some lu" "hm_get (hn_channels ?h1) ch = Some (cs\<lparr>cs_shell_requested := True\<rparr>)"
    using assms(1,2) by (simp_all add: upd_channel_get)
  have data: "ph_input (hw_ptys (snd (data_received p ce' ch d (h', w'))) ! n) = i @ [d]"
    if "map_option cs_pty (hm_get (hn_channels h') ch) = Some (Some n)" "n < length (hw_ptys w')"
      "ph_input (hw_ptys w' ! n) = i" for h' w' n i
    using that assms(5) by (auto simp: data_received_def Let_def split: option.splits)
  have att: "ph_input (hw_ptys (snd (data_received p ce' ch d (fst (attach_pty ce ch st \<lparr>ph_command = c, ph_input = i\<rparr> (h', w)),
      send_msgs ms (emit ev (snd (attach_pty ce ch st \<lparr>ph_command = c, ph_input = i\<rparr> (h', w))))))) ! length (hw_ptys w)) = i @ [d]"
    if "hm_get (hn_channels h') ch = Some cs'" for h' cs' st c i ms ev
    by (rule data) (use that in \<open>simp_all add: attach_pty_fst upd_channel_get\<close>)
  show ?thesis
    using att [OF assms(2)] att [OF sh(2)] assms sh(1)
    by (simp add: Let_def exec_request_def shell_request_def exec_command_def start_shell_def answer_def
        from_utf8_lossy_bytes_of split_beta)
qed

text \<open>
  A recording misses what comes before its header. The header is written by a task of its own: an
  output that is passed on before that task has run reaches the client and leaves the recording as it
  was, without an error to anyone; so does input.
\<close>

theorem recording_header_race:
  assumes "k < length (hw_io_tasks w)" "it_running (hw_io_tasks w ! k)"
    and "it_recorder (hw_io_tasks w ! k) = Some i" "\<not> sr_header_written (hw_recorders w ! i)"
  shows "io_task_round p ce cid k (Some (data, True)) None w
    = send_msgs [ChannelData (it_channel (hw_io_tasks w ! k)) data] w"
  using assms by (simp add: io_task_round_def upd_recorder_def record_output_def Let_def)

text \<open>
  The name of a recording holds the command. For an exec request the recording file is named after
  the connection and the first fifty characters of the command, slashes and dots included, so a
  command that starts with \<open>/../\<close> places the file outside the recording directory: the path climbs by
  one component for each \<open>..\<close> the command begins with.
\<close>

theorem recording_path_traversal:
  assumes "is_absolute dir" "\<not> ends_with dir ''/''" "slash \<notin> set cid" "cid \<noteq> []"
    and "ce_file ce = Inr ()" "rc_local_dir rc = Some dir"
  shows "\<exists>f. hd (recorder_writers ce rc act (cid @ ''_'' @ ''exec:'' @ take_chars 50 ''/../../../etc/cron''))
        = FileWriter f
    \<and> path_components (fr_path f) = path_components dir
        @ [Normal (cid @ ''_exec:''), ParentDir, ParentDir, ParentDir, Normal ''etc'', Normal ''cron.cast'']"
proof -
  let ?q = "(cid @ ''_exec:'') @ slash # ''../../../etc/cron.cast''"
  have take: "take_chars 50 ''/../../../etc/cron'' = ''/../../../etc/cron''"
    by (simp add: utf8_cont_def)
  have rel: "\<not> is_absolute (cid @ ''_exec:/../../../etc/cron.cast'')"
    using assms(3,4) by (cases cid) (auto simp: is_absolute_def starts_with_def slash_def)
  have "dir \<noteq> []" using assms(1) by (auto simp: is_absolute_def starts_with_def)
  then have hd: "hd (recorder_writers ce rc act (cid @ ''_'' @ ''exec:'' @ take_chars 50 ''/../../../etc/cron''))
      = FileWriter \<lparr>fr_path = dir @ slash # ?q, fr_content = [], fr_script = ce_file_script ce\<rparr>"
    unfolding take using assms rel by (simp add: recorder_writers_def path_join_def fr_new_def slash_def)
  have "split_on slash ?q = [cid @ ''_exec:'', ''..'', ''..'', ''..'', ''etc'', ''cron.cast'']"
    using assms(3)
    by (subst split_on_append) (simp_all add: slash_def split_on_case del: split_on.simps(2))
  moreover have "cid @ ''_exec:'' \<noteq> ''..''" "cid @ ''_exec:'' \<noteq> ''.''" by (cases cid; simp)+
  ultimately have "path_components (fr_path \<lparr>fr_path = dir @ slash # ?q, fr_content = [],
      fr_script = ce_file_script ce\<rparr>) = path_components dir
        @ [Normal (cid @ ''_exec:''), ParentDir, ParentDir, ParentDir, Normal ''etc'', Normal ''cron.cast'']"
    unfolding file_recording_writer.simps path_components_below [OF assms(1)]
    by (simp add: void_piece_def to_component_def)
  with hd show ?thesis by blast
qed

section \<open>Witnesses\<close>

text \<open>A connection for the witnesses: one rule grants user \<open>ann\<close> a read-only session.\<close>

definition ro_action :: ssh_action where
  "ro_action = SshAction_default\<lparr>act_accept := True, act_read_only := True, act_blocked_commands := None\<rparr>"

definition ro_policy :: ssh_policy where
  "ro_policy = \<lparr>po_version = 1, po_updated_at = 0, po_rules = [sample_rule\<lparr>ru_action := ro_action\<rparr>]\<rparr>"

definition demo_params :: "unit handler_params" where
  "demo_params =
     \<lparr>hp_compile = (\<lambda>s. None), hp_is_match = (\<lambda>r s. False),
      hp_env = \<lparr>re_crypto = \<lparr>rc_sha256 = (\<lambda>x. x), rc_hmac = (\<lambda>k x. x), rc_b64_encode = (\<lambda>x. []),
          rc_b64_decode = (\<lambda>s. None)\<rparr>,
        re_header_json = (\<lambda>h. Inr ''h''), re_entry_json = (\<lambda>d k s. Inr s), re_chunk_json = (\<lambda>c. [])\<rparr>,
      hp_user_shell = (\<lambda>u. Some ''/bin/bash''), hp_user_home = (\<lambda>u. Some ''/srv''),
      hp_show_ip = (\<lambda>a. [])\<rparr>"

definition demo_env :: "unit call_env" where
  "demo_env =
     \<lparr>ce_backend = sample_backend ro_policy, ce_who_is = Inr None, ce_utc = sample_now, ce_clock = 0,
      ce_spawn = Inr (), ce_send = Inr (), ce_file = Inr (), ce_file_script = [], ce_cloud_script = []\<rparr>"

definition demo_addr :: socket_addr where
  "demo_addr = SocketAddr (V4 10 0 0 7) 4000"

definition demo_start :: hstate where
  "demo_start = (make_handler SshServerConfig_default demo_addr ''c1'', world_init)"

lemma demo_grant:
  "authenticate (ce_backend demo_env) (ce_utc demo_env) (sa_ip demo_addr) ''ann'' = Inr (Accept ''ann'' ro_action)"
  by (simp add: authenticate_def demo_env_def demo_addr_def ro_policy_def sample_defs ro_action_def
      SshAction_default_def evaluate_policy_def evaluate_rules_find sample_now_def Let_def resolve_local_user_def
      apply_action_def)

definition demo_ops :: "(unit call_env \<times> handler_op) list" where
  "demo_ops = [(demo_env, AuthNone ''ann''), (demo_env, OpenSession 1), (demo_env, ShellReq 1),
     (demo_env, OpenSession 2), (demo_env, SubsystemReq 2 ''sftp'')]"

definition demo_open :: hstate where
  "demo_open = handler_run demo_params (take 2 demo_ops) demo_start"

lemmas demo_defs = demo_start_def demo_ops_def make_handler_def handler_new_def world_init_def auth_none_def
  demo_grant channel_open_session_def

lemma demo_env_simps:
  "ce_who_is demo_env = Inr None" "ce_spawn demo_env = Inr ()" "ce_send demo_env = Inr ()"
  "ce_file demo_env = Inr ()"
  by (simp_all add: demo_env_def)

lemma demo_open_simps [simp]:
  "hn_local_user (fst demo_open) = Some ''ann''" "hn_action (fst demo_open) = Some ro_action"
  "hn_config (fst demo_open) = SshServerConfig_default" "hn_conn_id (fst demo_open) = ''c1''"
  "hw_ptys (snd demo_open) = []" "hw_sftp (snd demo_open) = []" "hw_msgs (snd demo_open) = []"
  "hm_get (hn_channels (fst demo_open)) 1 \<noteq> None"
  by (simp_all add: demo_open_def demo_defs demo_env_simps Let_def emit_def)

lemma ro_action_simps [simp]:
  "act_allow_sftp ro_action" "act_read_only ro_action" "act_blocked_commands ro_action = None"
  "act_allowed_commands ro_action = None" "act_allowed_paths ro_action = None" "\<not> act_record_session ro_action"
  by (simp_all add: ro_action_def SshAction_default_def)

lemma demo_sessions:
  "length (hw_ptys (snd (handler_run demo_params demo_ops demo_start))) = 1
   \<and> length (hw_sftp (snd (handler_run demo_params demo_ops demo_start))) = 1"
  by (simp add: demo_defs demo_env_simps Let_def shell_request_def start_shell_def split_beta answer_def
    subsystem_request_def attach_pty_fst upd_channel_get SshServerConfig_default_def)

lemma demo_only_grant: "grants demo_ops (sa_ip demo_addr) lu act \<longleftrightarrow> lu = ''ann'' \<and> act = ro_action"
  by (auto simp: grants_def demo_ops_def demo_grant)

theorem handler_sessions_granted_witness:
  "length (hw_ptys (snd (handler_run demo_params demo_ops demo_start))) = 1
   \<and> list_all (\<lambda>pty. pcm_cwd (ph_command pty) = Some ''/srv'')
       (hw_ptys (snd (handler_run demo_params demo_ops demo_start)))
   \<and> length (hw_sftp (snd (handler_run demo_params demo_ops demo_start))) = 1
   \<and> list_all (\<lambda>ss. \<not> sf_allow_write (ss_config ss))
       (hw_sftp (snd (handler_run demo_params demo_ops demo_start)))"
proof -
  obtain h w where r: "handler_run demo_params demo_ops demo_start = (h, w)"
    by (cases "handler_run demo_params demo_ops demo_start")
  show ?thesis
    using demo_sessions handler_sessions_granted [OF r [unfolded demo_start_def]]
    unfolding demo_only_grant r
    by (auto simp: list_all_iff get_user_home_def demo_params_def)
qed

lemma ls_encoded: "well_encoded ''ls''"
  by code_simp

lemma ro_filter: "hn_action h = Some ro_action \<Longrightarrow> filter_verdict demo_params h ''ls'' = CmdAllowed"
  "hn_action h = Some ro_action \<Longrightarrow> filter_verdict demo_params h ''rm x'' \<noteq> CmdAllowed"
proof -
  have "\<not> is_write_command ''ls''" "is_write_command ''rm x''" by code_simp+
  then show "hn_action h = Some ro_action \<Longrightarrow> filter_verdict demo_params h ''ls'' = CmdAllowed"
    "hn_action h = Some ro_action \<Longrightarrow> filter_verdict demo_params h ''rm x'' \<noteq> CmdAllowed"
    by (simp_all add: filter_verdict_def create_command_filter_def cf_new_def check_command_def)
qed

theorem exec_request_filtered_witness:
  "\<exists>msg. hw_msgs (snd (exec_request demo_params demo_env 1 (bytes_of ''rm x'') demo_open))
     = refusal 1 msg @ [RequestSuccess]"
proof -
  obtain h w where r: "handler_run demo_params (take 2 demo_ops) demo_start = (h, w)"
    and o: "demo_open = (h, w)"
    by (cases "handler_run demo_params (take 2 demo_ops) demo_start") (simp add: demo_open_def)
  obtain h' w' where e: "exec_request demo_params demo_env 1 (bytes_of ''rm x'') (h, w) = (h', w')"
    by (cases "exec_request demo_params demo_env 1 (bytes_of ''rm x'') (h, w)")
  have "well_encoded ''rm x''" by code_simp
  from exec_request_filtered [OF r [unfolded demo_start_def] e this] ro_filter(2) [of h] demo_open_simps
  show ?thesis unfolding o e by (simp add: o)
qed

theorem interactive_input_unfiltered_witness:
  "ph_input (hw_ptys (snd (handler_run demo_params
       [(demo_env, ExecReq 1 (bytes_of ''ls'')), (demo_env, Data 1 (bytes_of ''rm x''))] demo_open)) ! 0)
     = [bytes_of (''ls'' @ newline), bytes_of ''rm x'']
   \<and> filter_verdict demo_params (fst demo_open) ''rm x'' \<noteq> CmdAllowed"
proof -
  obtain h w where o: "demo_open = (h, w)" by (cases demo_open)
  obtain cs where "hm_get (hn_channels h) 1 = Some cs"
    using demo_open_simps(8) by (auto simp: o)
  then show ?thesis
    using interactive_input_unfiltered [of h "''ann''" 1 cs demo_env demo_env demo_params "''ls''"
        "bytes_of ''rm x''" w] demo_open_simps ro_filter [of h] ls_encoded
    by (simp add: o demo_env_simps Let_def)
qed

definition fresh_recorder :: session_recorder where
  "fresh_recorder = sr_new 0 0 ''c1_shell'' 80 24"

definition recording_world :: handler_world where
  "recording_world = world_init\<lparr>hw_recorders := [fresh_recorder],
     hw_header_tasks := [(0, create_header fresh_recorder)],
     hw_io_tasks := [\<lparr>it_channel = 1, it_pty = 0, it_recorder = Some 0, it_running = True\<rparr>]\<rparr>"

theorem recording_header_race_witness:
  "hw_recorders (io_task_round demo_params demo_env ''c1'' 0 (Some ([36], True)) None recording_world)
     = [fresh_recorder]
   \<and> hw_msgs (io_task_round demo_params demo_env ''c1'' 0 (Some ([36], True)) None recording_world)
     = [ChannelData 1 [36]]"
  by (subst (1 2) recording_header_race [where i = 0])
     (simp_all add: recording_world_def world_init_def fresh_recorder_def sr_new_def send_msgs_def)

theorem recording_path_traversal_witness:
  "\<exists>f. hd (recorder_writers demo_env (RecordingConfig_default\<lparr>rc_local_dir := Some ''/rec''\<rparr>) None
         (''c1'' @ ''_'' @ ''exec:'' @ take_chars 50 ''/../../../etc/cron'')) = FileWriter f
    \<and> path_components (fr_path f) = [RootDir, Normal ''rec'', Normal ''c1_exec:'', ParentDir, ParentDir,
        ParentDir, Normal ''etc'', Normal ''cron.cast'']"
proof -
  have "path_components ''/rec'' = [RootDir, Normal ''rec'']"
    by (simp add: path_components_def is_absolute_def starts_with_def slash_def void_piece_def to_component_def)
  moreover have "is_absolute ''/rec''" "\<not> ends_with ''/rec'' ''/''" "slash \<notin> set ''c1''"
    by (simp_all add: is_absolute_def starts_with_def ends_with_def slash_def)
  ultimately show ?thesis
    using recording_path_traversal [of "''/rec''" "''c1''" demo_env
        "RecordingConfig_default\<lparr>rc_local_dir := Some ''/rec''\<rparr>" None]
    by (simp add: demo_env_simps del: take_chars.simps)
qed

end
