(* ===== verification/Incubator.thy ===== *)
theory Incubator
  imports Ssh_Session
begin

text \<open>
  \<open>crates/omni-ssh/src/server/incubator.rs\<close>, Linux branch: the command line and environment of a
  session process and the steps by which the child gives up its privileges between \<open>fork\<close> and \<open>exec\<close>.
  The system calls are parameters over the credentials of the process; the user data base is one too.
  Module \<open>incubator\<close> is private to the server and no other code of the repository calls it.
\<close>

section \<open>Arguments and command line\<close>

record incubator_args =
  in_uid :: u32
  in_gid :: u32
  in_groups :: "u32 list"
  in_home_dir :: string
  in_shell :: string
  in_command :: session_command
  in_env :: "(string, string) hmap"
  in_pty :: "pty_request option"
  in_username :: string

record process_command =
  pm_program :: string
  pm_args :: "string list"
  pm_env :: "(string, string) hmap"
  pm_cwd :: string

definition spawn_args :: "session_command \<Rightarrow> string + string list" where
  "spawn_args c =
     (case c of
        Shell \<Rightarrow> Inr [''-l'']
      | Exec command \<Rightarrow> Inr [''-c'', command]
      | Sftp \<Rightarrow> Inl ''SFTP should be handled in-process'')"

definition default_path :: string where
  "default_path = ''/usr/local/bin:/usr/bin:/bin:/usr/local/sbin:/usr/sbin:/sbin''"

definition spawn_env :: "incubator_args \<Rightarrow> (string, string) hmap" where
  "spawn_env a =
     (let e = hm_insert ''PATH'' default_path (hm_insert ''SHELL'' (in_shell a)
                (hm_insert ''LOGNAME'' (in_username a) (hm_insert ''USER'' (in_username a)
                  (hm_insert ''HOME'' (in_home_dir a) (in_env a))))) in
      case in_pty a of
        Some pty \<Rightarrow> hm_insert ''LINES'' (show_nat (unat (pty_height pty)))
                     (hm_insert ''COLUMNS'' (show_nat (unat (pty_width pty)))
                       (hm_insert ''TERM'' (pty_term pty) e))
      | None \<Rightarrow> e)"

definition spawn_command :: "incubator_args \<Rightarrow> string + process_command" where
  "spawn_command a =
     and_then (spawn_args (in_command a)) (\<lambda>args.
       Inr \<lparr>pm_program = in_shell a, pm_args = args, pm_env = spawn_env a, pm_cwd = in_home_dir a\<rparr>)"

section \<open>Dropping privileges\<close>

text \<open>The system calls, each giving an error or the credentials afterwards.\<close>

record ('c, 'e) cred_calls =
  cc_setgroups :: "u32 list \<Rightarrow> 'c \<Rightarrow> 'e + 'c"
  cc_setgid :: "u32 \<Rightarrow> 'c \<Rightarrow> 'e + 'c"
  cc_setuid :: "u32 \<Rightarrow> 'c \<Rightarrow> 'e + 'c"

datatype 'e drop_error = SysError 'e | NotDropped

definition sys :: "'e + 'c \<Rightarrow> 'e drop_error + 'c" where
  "sys r = (case r of Inl e \<Rightarrow> Inl (SysError e) | Inr c \<Rightarrow> Inr c)"

definition pre_exec :: "('c, 'e) cred_calls \<Rightarrow> incubator_args \<Rightarrow> 'c \<Rightarrow> 'e drop_error + 'c" where
  "pre_exec calls a c0 =
     and_then (sys (cc_setgroups calls (in_groups a) c0)) (\<lambda>c1.
     and_then (sys (cc_setgid calls (in_gid a) c1)) (\<lambda>c2.
     and_then (sys (cc_setuid calls (in_uid a) c2)) (\<lambda>c3.
       if in_uid a \<noteq> 0
       then (case cc_setuid calls 0 c3 of Inr _ \<Rightarrow> Inl NotDropped | Inl _ \<Rightarrow> Inr c3)
       else Inr c3)))"

section \<open>Users\<close>

record user_info =
  ui_uid :: u32
  ui_gid :: u32
  ui_home_dir :: string
  ui_shell :: string
  ui_groups :: "u32 list"

text \<open>
  \<open>getgrouplist\<close> fills a buffer of the given size and answers with the number of groups there are, or
  with a failure and that number when the buffer is too small.
\<close>

definition get_user_groups :: "(nat \<Rightarrow> bool \<times> u32 list \<times> nat) \<Rightarrow> u32 list" where
  "get_user_groups getgrouplist =
     (case getgrouplist 32 of
        (True, gs, n) \<Rightarrow> take n gs
      | (False, gs, n) \<Rightarrow> (case getgrouplist n of (_, gs', n') \<Rightarrow> take n' gs'))"

definition lookup_user ::
  "(string \<Rightarrow> (u32 \<times> u32 \<times> string \<times> string) option) \<Rightarrow> (string \<Rightarrow> u32 \<Rightarrow> nat \<Rightarrow> bool \<times> u32 list \<times> nat) \<Rightarrow>
     string \<Rightarrow> string + user_info" where
  "lookup_user getpwnam getgrouplist username =
     (if CHR 0x00 \<in> set username then Inl ''nul byte found in provided data''
      else case getpwnam username of
             None \<Rightarrow> Inl (''User '' @ [CHR 0x27] @ username @ [CHR 0x27] @ '' not found'')
           | Some (uid, gid, home, shell) \<Rightarrow>
               Inr \<lparr>ui_uid = uid, ui_gid = gid, ui_home_dir = home, ui_shell = shell,
                    ui_groups = get_user_groups (getgrouplist username gid)\<rparr>)"

section \<open>Properties\<close>

text \<open>
  The credentials of a process as the documentation of the calls speaks of them. What is relied on: groups
  are set by root only; \<open>setgid\<close> and \<open>setuid\<close> of root set the real, the effective and the saved id; for
  another user \<open>setuid\<close> sets the effective id only, to the real or the saved one.
\<close>

record cred =
  cr_ruid :: u32
  cr_euid :: u32
  cr_suid :: u32
  cr_rgid :: u32
  cr_egid :: u32
  cr_sgid :: u32
  cr_groups :: "u32 list"

text \<open>
  C19. Privileges are dropped for good. If the steps before \<open>exec\<close> succeed, the process started from any
  credentials has exactly the user id, group id and groups asked for, real, effective and saved, and,
  unless that user is root, a later \<open>setuid\<close>, to whatever id, changes none of them.
\<close>

theorem privileges_dropped:
  assumes "\<And>gs c c'. cc_setgroups calls gs c = Inr c' \<Longrightarrow>
      cr_euid (ids c) = 0 \<and> ids c' = (ids c)\<lparr>cr_groups := gs\<rparr>"
    and "\<And>g c c'. cc_setgid calls g c = Inr c' \<Longrightarrow> cr_euid (ids c) = 0 \<Longrightarrow>
      ids c' = (ids c)\<lparr>cr_rgid := g, cr_egid := g, cr_sgid := g\<rparr>"
    and "\<And>u c c'. cc_setuid calls u c = Inr c' \<Longrightarrow> cr_euid (ids c) = 0 \<Longrightarrow>
      ids c' = (ids c)\<lparr>cr_ruid := u, cr_euid := u, cr_suid := u\<rparr>"
    and "\<And>u c c'. cc_setuid calls u c = Inr c' \<Longrightarrow> cr_euid (ids c) \<noteq> 0 \<Longrightarrow>
      ids c' = (ids c)\<lparr>cr_euid := u\<rparr> \<and> (u = cr_ruid (ids c) \<or> u = cr_suid (ids c))"
    and "pre_exec calls a c0 = Inr c"
  shows "ids c = \<lparr>cr_ruid = in_uid a, cr_euid = in_uid a, cr_suid = in_uid a, cr_rgid = in_gid a,
      cr_egid = in_gid a, cr_sgid = in_gid a, cr_groups = in_groups a\<rparr>
    \<and> (in_uid a = 0 \<or> (\<exists>e. cc_setuid calls u c = Inl e) \<or> (\<exists>c'. cc_setuid calls u c = Inr c' \<and> ids c' = ids c))"
proof -
  obtain c1 c2 where c1: "cc_setgroups calls (in_groups a) c0 = Inr c1"
    and c2: "cc_setgid calls (in_gid a) c1 = Inr c2" and c3: "cc_setuid calls (in_uid a) c2 = Inr c"
    using assms(5) by (auto simp: pre_exec_def sys_def and_then_Inr_iff split: sum.splits if_splits)
  have ids: "ids c = \<lparr>cr_ruid = in_uid a, cr_euid = in_uid a, cr_suid = in_uid a, cr_rgid = in_gid a,
      cr_egid = in_gid a, cr_sgid = in_gid a, cr_groups = in_groups a\<rparr>"
    using assms(1) [OF c1] assms(2) [OF c2] assms(3) [OF c3] by simp
  then show ?thesis
    using assms(4) [of u c] by (cases "cc_setuid calls u c") auto
qed

text \<open>The environment of the session overrides what the client has sent for the identity variables.\<close>

lemma spawn_env_identity:
  "hm_get (spawn_env a) ''HOME'' = Some (in_home_dir a)
   \<and> hm_get (spawn_env a) ''USER'' = Some (in_username a)
   \<and> hm_get (spawn_env a) ''SHELL'' = Some (in_shell a)
   \<and> hm_get (spawn_env a) ''PATH'' = Some default_path"
  by (simp add: spawn_env_def Let_def split: option.split)

section \<open>Witnesses\<close>

definition posix_setuid :: "u32 \<Rightarrow> cred \<Rightarrow> unit + cred" where
  "posix_setuid u c =
     (if cr_euid c = 0 then Inr (c\<lparr>cr_ruid := u, cr_euid := u, cr_suid := u\<rparr>)
      else if u = cr_ruid c \<or> u = cr_suid c then Inr (c\<lparr>cr_euid := u\<rparr>)
      else Inl ())"

definition posix_setgid :: "u32 \<Rightarrow> cred \<Rightarrow> unit + cred" where
  "posix_setgid g c =
     (if cr_euid c = 0 then Inr (c\<lparr>cr_rgid := g, cr_egid := g, cr_sgid := g\<rparr>)
      else if g = cr_rgid c \<or> g = cr_sgid c then Inr (c\<lparr>cr_egid := g\<rparr>)
      else Inl ())"

definition posix_setgroups :: "u32 list \<Rightarrow> cred \<Rightarrow> unit + cred" where
  "posix_setgroups gs c = (if cr_euid c = 0 then Inr (c\<lparr>cr_groups := gs\<rparr>) else Inl ())"

definition posix_calls :: "(cred, unit) cred_calls" where
  "posix_calls = \<lparr>cc_setgroups = posix_setgroups, cc_setgid = posix_setgid, cc_setuid = posix_setuid\<rparr>"

lemmas posix_defs = posix_calls_def posix_setuid_def posix_setgid_def posix_setgroups_def

lemma pre_exec_as_root:
  "cr_euid c0 = 0 \<Longrightarrow> in_uid a \<noteq> 0 \<Longrightarrow> \<exists>c. pre_exec posix_calls a c0 = Inr c"
  by (auto simp: pre_exec_def posix_defs sys_def and_then_def)

definition login_args :: incubator_args where
  "login_args = \<lparr>in_uid = 1000, in_gid = 100, in_groups = [100, 27], in_home_dir = ''/home/a'',
     in_shell = ''/bin/sh'', in_command = Shell, in_env = [], in_pty = None, in_username = ''a''\<rparr>"

definition root_cred :: cred where
  "root_cred = \<lparr>cr_ruid = 0, cr_euid = 0, cr_suid = 0, cr_rgid = 0, cr_egid = 0, cr_sgid = 0, cr_groups = []\<rparr>"

theorem privileges_dropped_witness:
  "\<exists>c. pre_exec posix_calls login_args root_cred = Inr c \<and> cr_euid c = 1000 \<and> cr_groups c = [100, 27]
     \<and> posix_setuid 0 c = Inl ()"
proof -
  obtain c where c: "pre_exec posix_calls login_args root_cred = Inr c"
    using pre_exec_as_root [of root_cred login_args] by (auto simp: root_cred_def login_args_def)
  have "c = \<lparr>cr_ruid = in_uid login_args, cr_euid = in_uid login_args, cr_suid = in_uid login_args,
      cr_rgid = in_gid login_args, cr_egid = in_gid login_args, cr_sgid = in_gid login_args,
      cr_groups = in_groups login_args\<rparr>"
    by (rule privileges_dropped [where ids = "\<lambda>c. c", OF _ _ _ _ c, THEN conjunct1])
      (auto simp: posix_defs split: if_splits)
  with c show ?thesis by (simp add: posix_setuid_def login_args_def)
qed

end
