(* ===== verification/Mesh_Proto.thy ===== *)
theory Mesh_Proto
  imports Machines
begin

text \<open>
  \<open>crates/omni-proto/src/lib.rs\<close>: the client side of the signalling protocol. The messages themselves
  are encoded, decoded, signed and encrypted by the crate \<open>omninervous\<close>, which is a parameter: what a
  packet's type is, the four parsers and the decryption. Their results carry addresses as text.
\<close>

section \<open>Data\<close>

type_synonym key32 = "u8 list"

datatype nat_type = NatUnknown | NatOpen | FullCone | RestrictedCone | PortRestrictedCone | Symmetric

record mesh_peer_info =
  mp_vip :: ip_addr
  mp_vip_v6 :: "ip_addr option"
  mp_endpoint :: "socket_addr option"
  mp_public_key :: key32
  mp_nat_type :: "nat_type option"
  mp_mapped_endpoint :: "socket_addr option"

record peer_update =
  pu_peers :: "mesh_peer_info list"
  pu_removed_vips :: "ip_addr list"

record ('c, 'enc) omni_proto =
  op_client :: 'c
  op_nucleus_host :: string
  op_vip_v6 :: "ip_addr option"
  op_encryption :: 'enc

text \<open>What the parsers of \<open>omninervous\<close> return for a peer, and the message types the client knows.\<close>

record wire_peer =
  wp_vip :: ip_addr
  wp_vip_v6 :: "ip_addr option"
  wp_endpoint :: string
  wp_public_key :: key32
  wp_nat_type :: "nat_type option"
  wp_mapped_endpoint :: "string option"

datatype msg_type = RegisterAck | HeartbeatAck | PeerInfoMsg | PeerNotify | Encrypted | OtherMsg u8

record 'enc signaling =
  sg_type :: "u8 list \<Rightarrow> msg_type option"
  sg_decrypt :: "u8 list \<Rightarrow> 'enc \<Rightarrow> (string + u8 list) \<times> 'enc"
  sg_register_ack :: "u8 list \<Rightarrow> string option \<Rightarrow> string + wire_peer list"
  sg_heartbeat_ack :: "u8 list \<Rightarrow> string option \<Rightarrow> string + wire_peer list \<times> ip_addr list"
  sg_peer_info :: "u8 list \<Rightarrow> string option \<Rightarrow> string + bool \<times> wire_peer option"
  sg_peer_notify :: "u8 list \<Rightarrow> string option \<Rightarrow> string + wire_peer"
  sg_parse_v6_addr :: "string \<Rightarrow> socket_addr option"

section \<open>Operations\<close>

text \<open>\<open>SocketAddr::from_str\<close>: an IPv4 address and a port, or the form with an IPv6 address.\<close>

definition parse_port :: "string \<Rightarrow> nat option" where
  "parse_port s =
     (if s = [] then None
      else case parse_digits 0 s of Some n \<Rightarrow> (if n < 65536 then Some n else None) | None \<Rightarrow> None)"

definition parse_socket_addr :: "(string \<Rightarrow> socket_addr option) \<Rightarrow> string \<Rightarrow> socket_addr option" where
  "parse_socket_addr parse_v6 s =
     (case split_on (CHR '':'') s of
        [h, p] \<Rightarrow> (case (parse_ipv4 h, parse_port p) of
                      (Some a, Some n) \<Rightarrow> Some (SocketAddr a n) | _ \<Rightarrow> parse_v6 s)
      | _ \<Rightarrow> parse_v6 s)"

definition to_peer :: "'enc signaling \<Rightarrow> wire_peer \<Rightarrow> mesh_peer_info" where
  "to_peer sg p =
     \<lparr>mp_vip = wp_vip p, mp_vip_v6 = wp_vip_v6 p,
      mp_endpoint = parse_socket_addr (sg_parse_v6_addr sg) (wp_endpoint p),
      mp_public_key = wp_public_key p, mp_nat_type = wp_nat_type p,
      mp_mapped_endpoint =
        (case wp_mapped_endpoint p of
           Some s \<Rightarrow> parse_socket_addr (sg_parse_v6_addr sg) s | None \<Rightarrow> None)\<rparr>"

definition hmac_failed :: string where
  "hmac_failed = ''HMAC verification failed''"

definition parse_with_hmac_fallback ::
  "(u8 list \<Rightarrow> string option \<Rightarrow> string + 'r) \<Rightarrow> u8 list \<Rightarrow> string option \<Rightarrow> string + 'r" where
  "parse_with_hmac_fallback parse_fn buf secret =
     (case parse_fn buf secret of
        Inr r \<Rightarrow> Inr r
      | Inl e \<Rightarrow> if secret \<noteq> None \<and> str_contains e hmac_failed then parse_fn buf None else Inl e)"

definition decode_message ::
  "'enc signaling \<Rightarrow> msg_type \<Rightarrow> u8 list \<Rightarrow> string option \<Rightarrow> string + peer_update option" where
  "decode_message sg t buf secret =
     (case t of
        RegisterAck \<Rightarrow>
          and_then (parse_with_hmac_fallback (sg_register_ack sg) buf secret) (\<lambda>recent_peers.
            Inr (Some \<lparr>pu_peers = map (to_peer sg) recent_peers, pu_removed_vips = []\<rparr>))
      | HeartbeatAck \<Rightarrow>
          and_then (parse_with_hmac_fallback (sg_heartbeat_ack sg) buf secret) (\<lambda>(new_peers, removed).
            Inr (Some \<lparr>pu_peers = map (to_peer sg) new_peers, pu_removed_vips = removed\<rparr>))
      | PeerInfoMsg \<Rightarrow>
          and_then (parse_with_hmac_fallback (sg_peer_info sg) buf secret) (\<lambda>(found, peer).
            Inr (Some \<lparr>pu_peers = (if found then (case peer of Some p \<Rightarrow> [to_peer sg p] | None \<Rightarrow> []) else []),
                       pu_removed_vips = []\<rparr>))
      | PeerNotify \<Rightarrow>
          (case parse_with_hmac_fallback (sg_peer_notify sg) buf secret of
             Inr p \<Rightarrow> Inr (Some \<lparr>pu_peers = [to_peer sg p], pu_removed_vips = []\<rparr>)
           | Inl e \<Rightarrow> Inr None)
      | _ \<Rightarrow> Inr None)"

definition proto_handle_packet ::
  "'enc signaling \<Rightarrow> u8 list \<Rightarrow> string option \<Rightarrow> 'enc \<Rightarrow> (string + peer_update option) \<times> 'enc" where
  "proto_handle_packet sg buf secret enc =
     (case sg_type sg buf of
        None \<Rightarrow> (Inl ''Empty signaling packet'', enc)
      | Some t \<Rightarrow>
          if t = Encrypted then
            (case sg_decrypt sg buf enc of
               (Inl e, enc1) \<Rightarrow> (Inl (''Failed to decrypt signaling message: '' @ e), enc1)
             | (Inr plaintext, enc1) \<Rightarrow>
                 (case sg_type sg plaintext of
                    None \<Rightarrow> (Inl ''Empty signaling packet after decryption'', enc1)
                  | Some t1 \<Rightarrow> (decode_message sg t1 plaintext secret, enc1)))
          else (decode_message sg t buf secret, enc))"

text \<open>The constructor: without a secret there is neither a shared key nor encryption.\<close>

definition psk_of :: "string \<Rightarrow> string option" where
  "psk_of secret_key = (if secret_key = [] then None else Some secret_key)"

definition omni_proto_new ::
  "(string option \<Rightarrow> string + 'c) \<Rightarrow> (key32 \<Rightarrow> 'enc) \<Rightarrow> 'enc \<Rightarrow> string \<Rightarrow> string \<Rightarrow> ip_addr option \<Rightarrow> key32 \<Rightarrow>
     string + ('c, 'enc) omni_proto" where
  "omni_proto_new new_client enabled disabled nucleus_host secret_key virtual_ip_v6 private_key =
     and_then (new_client (psk_of secret_key)) (\<lambda>client.
       Inr \<lparr>op_client = client, op_nucleus_host = nucleus_host, op_vip_v6 = virtual_ip_v6,
            op_encryption = (if secret_key \<noteq> [] then enabled private_key else disabled)\<rparr>)"

text \<open>The address of the client object takes precedence over the one given at construction.\<close>

definition proto_vip_v6 :: "('c \<Rightarrow> ip_addr option) \<Rightarrow> ('c, 'enc) omni_proto \<Rightarrow> ip_addr option" where
  "proto_vip_v6 client_vip_v6 p =
     (case client_vip_v6 (op_client p) of Some a \<Rightarrow> Some a | None \<Rightarrow> op_vip_v6 p)"

definition is_ipv6_enabled :: "('c, 'enc) omni_proto \<Rightarrow> bool" where
  "is_ipv6_enabled p = (op_vip_v6 p \<noteq> None)"

definition get_nat_description :: "nat_type option \<Rightarrow> string" where
  "get_nat_description t =
     (case t of
        Some NatUnknown \<Rightarrow> ''Unknown (detection in progress)''
      | Some NatOpen \<Rightarrow> ''Open (no NAT, direct connectivity)''
      | Some FullCone \<Rightarrow> ''Full Cone (easiest NAT type for P2P)''
      | Some RestrictedCone \<Rightarrow> ''Restricted Cone (moderate NAT)''
      | Some PortRestrictedCone \<Rightarrow> ''Port-Restricted Cone (strict NAT)''
      | Some Symmetric \<Rightarrow> ''Symmetric (hardest NAT, relay required)''
      | None \<Rightarrow> ''Not yet detected'')"

section \<open>Properties\<close>

text \<open>What the parser of a message type answers to a packet, by its error alone.\<close>

definition parse_error :: "'enc signaling \<Rightarrow> msg_type \<Rightarrow> u8 list \<Rightarrow> string option \<Rightarrow> string option" where
  "parse_error sg t buf secret =
     (case t of
        RegisterAck \<Rightarrow> (case sg_register_ack sg buf secret of Inl e \<Rightarrow> Some e | Inr _ \<Rightarrow> None)
      | HeartbeatAck \<Rightarrow> (case sg_heartbeat_ack sg buf secret of Inl e \<Rightarrow> Some e | Inr _ \<Rightarrow> None)
      | PeerInfoMsg \<Rightarrow> (case sg_peer_info sg buf secret of Inl e \<Rightarrow> Some e | Inr _ \<Rightarrow> None)
      | PeerNotify \<Rightarrow> (case sg_peer_notify sg buf secret of Inl e \<Rightarrow> Some e | Inr _ \<Rightarrow> None)
      | _ \<Rightarrow> None)"

text \<open>
  The fall-back accepts what failed verification. A message whose verification under the cluster secret the parser
  rejects is handled exactly as by a node without a secret, which checks nothing. Whether packets are encrypted is
  another matter: a secret also turns on encryption (\<open>omni_proto_new\<close>), but packets in the clear are still accepted.
\<close>

theorem failed_hmac_falls_back:
  assumes "parse_error sg t buf (Some s) = Some e" and "str_contains e hmac_failed"
    and "sg_type sg buf = Some t"
  shows "proto_handle_packet sg buf (Some s) enc = proto_handle_packet sg buf None enc"
proof -
  have "decode_message sg t buf (Some s) = decode_message sg t buf None"
    using assms(1,2)
    by (cases t) (auto simp: decode_message_def parse_error_def parse_with_hmac_fallback_def split: sum.splits)
  moreover have "t \<noteq> Encrypted" using assms(1) by (auto simp: parse_error_def)
  ultimately show ?thesis using assms(3) by (simp add: proto_handle_packet_def)
qed

lemma parse_socket_addr_show:
  assumes "a < 256" "b < 256" "c < 256" "d < 256" "n < 65536"
  shows "parse_socket_addr v6 (show_ipv4 a b c d @ '':'' @ show_nat n) = Some (SocketAddr (V4 a b c d) n)"
proof -
  have "CHR '':'' \<notin> set (show_ipv4 a b c d)" by (simp add: show_ipv4_def)
  then have "split_on (CHR '':'') (show_ipv4 a b c d @ CHR '':'' # show_nat n) = [show_ipv4 a b c d, show_nat n]"
    by (simp add: split_on_append split_on_none)
  with assms show ?thesis by (simp add: parse_socket_addr_def parse_port_def)
qed

section \<open>Witnesses\<close>

text \<open>A toy coding: a packet is its type, a flag for the signature, and nothing else.\<close>

definition demo_wire_peer :: wire_peer where
  "demo_wire_peer = \<lparr>wp_vip = V4 10 0 0 2, wp_vip_v6 = None, wp_endpoint = ''1.2.3.4:51820'',
     wp_public_key = replicate 32 7, wp_nat_type = None, wp_mapped_endpoint = None\<rparr>"

definition signed_only :: "'r \<Rightarrow> u8 list \<Rightarrow> string option \<Rightarrow> string + 'r" where
  "signed_only r buf secret =
     (if secret = None \<or> tl buf = [1] then Inr r else Inl hmac_failed)"

definition demo_signaling :: "unit signaling" where
  "demo_signaling =
     \<lparr>sg_type = (\<lambda>b. if b = [] then None else Some PeerNotify), sg_decrypt = (\<lambda>b e. (Inl [], e)),
      sg_register_ack = signed_only [], sg_heartbeat_ack = signed_only ([], []),
      sg_peer_info = signed_only (False, None), sg_peer_notify = signed_only demo_wire_peer,
      sg_parse_v6_addr = (\<lambda>s. None)\<rparr>"

lemma hmac_failed_self [simp]: "str_contains hmac_failed hmac_failed"
  by code_simp

theorem failed_hmac_falls_back_witness:
  "sg_peer_notify demo_signaling [24, 0] (Some ''secret'') = Inl hmac_failed
   \<and> proto_handle_packet demo_signaling [24, 0] (Some ''secret'') ()
     = proto_handle_packet demo_signaling [24, 0] None ()"
  using failed_hmac_falls_back [of demo_signaling PeerNotify "[24, 0]" "''secret''" hmac_failed "()"]
  by (simp add: demo_signaling_def signed_only_def parse_error_def)

end
