(* ===== verification/Mesh_Peers.thy ===== *)
theory Mesh_Peers
  imports Mesh_Proto
begin

text \<open>
  \<open>crates/omni-core/src/manager.rs\<close>, first part: addresses of the dual-stack socket, the choice of a
  connection strategy by NAT types, and the state kept for a peer. The set of endpoints of a peer is a
  type of the crate \<open>omninervous\<close>; its operations, which may read the clock, are a parameter.
\<close>

section \<open>Addresses\<close>

text \<open>\<open>Ipv6Addr::to_ipv4_mapped\<close> and \<open>Ipv4Addr::to_ipv6_mapped\<close>.\<close>

definition mapped_prefix :: "nat list" where
  "mapped_prefix = [0, 0, 0, 0, 0, 0, 0, 0, 0, 0, 255, 255]"

definition to_ipv4_mapped :: "nat list \<Rightarrow> ip_addr option" where
  "to_ipv4_mapped octets =
     (case drop 12 octets of
        [a, b, c, d] \<Rightarrow> if take 12 octets = mapped_prefix then Some (V4 a b c d) else None
      | _ \<Rightarrow> None)"

definition to_ipv6_mapped :: "nat \<Rightarrow> nat \<Rightarrow> nat \<Rightarrow> nat \<Rightarrow> ip_addr" where
  "to_ipv6_mapped a b c d = V6 (mapped_prefix @ [a, b, c, d])"

definition normalize_addr :: "socket_addr \<Rightarrow> socket_addr" where
  "normalize_addr addr =
     (case addr of
        SocketAddr (V6 octets) port \<Rightarrow>
          (case to_ipv4_mapped octets of Some v4 \<Rightarrow> SocketAddr v4 port | None \<Rightarrow> addr)
      | _ \<Rightarrow> addr)"

text \<open>The conversion is made on macOS only.\<close>

definition to_mapped_v6 :: "bool \<Rightarrow> socket_addr \<Rightarrow> socket_addr" where
  "to_mapped_v6 macos addr =
     (if macos then
        (case addr of SocketAddr (V4 a b c d) port \<Rightarrow> SocketAddr (to_ipv6_mapped a b c d) port | _ \<Rightarrow> addr)
      else addr)"

section \<open>Strategies\<close>

datatype connection_strategy = Direct | SimultaneousOpen | PortPrediction | RelayOnly

definition strategy_description :: "connection_strategy \<Rightarrow> string" where
  "strategy_description s =
     (case s of
        Direct \<Rightarrow> ''Direct (standard disco)''
      | SimultaneousOpen \<Rightarrow> ''Simultaneous Open (both sides ping)''
      | PortPrediction \<Rightarrow> ''Port Prediction (symmetric NAT workaround)''
      | RelayOnly \<Rightarrow> ''Relay Only (skip direct attempts)'')"

definition select_connection_strategy :: "nat_type option \<Rightarrow> nat_type option \<Rightarrow> connection_strategy" where
  "select_connection_strategy our_nat peer_nat =
     (if our_nat = Some NatOpen \<or> peer_nat = Some NatOpen then Direct
      else if our_nat = Some FullCone \<or> peer_nat = Some FullCone then Direct
      else if our_nat = Some Symmetric \<and> peer_nat = Some Symmetric then RelayOnly
      else if our_nat = Some Symmetric \<or> peer_nat = Some Symmetric then PortPrediction
      else if our_nat = Some RestrictedCone \<and> peer_nat = Some RestrictedCone then SimultaneousOpen
      else if our_nat = Some PortRestrictedCone \<and> peer_nat = Some PortRestrictedCone then SimultaneousOpen
      else if our_nat = Some RestrictedCone \<and> peer_nat = Some PortRestrictedCone
        \<or> our_nat = Some PortRestrictedCone \<and> peer_nat = Some RestrictedCone then SimultaneousOpen
      else Direct)"

section \<open>Peers\<close>

datatype peer_connection_state = PeerInit | DirectTry | DirectOk | RelayTry | RelayOk | PeerFailed

datatype endpoint_source = NucleusSource | PortMapSource | DirectProbe | RelaySource

record endpoint_info =
  ei_addr :: socket_addr
  ei_source :: endpoint_source
  ei_latency :: "duration option"

text \<open>\<open>EndpointSet\<close>; the first argument is the clock.\<close>

record 'eps endpoint_ops =
  eo_new :: 'eps
  eo_upsert :: "instant \<Rightarrow> socket_addr \<Rightarrow> endpoint_source \<Rightarrow> 'eps \<Rightarrow> 'eps"
  eo_record_pong :: "instant \<Rightarrow> socket_addr \<Rightarrow> duration \<Rightarrow> 'eps \<Rightarrow> 'eps"
  eo_mark_failed :: "instant \<Rightarrow> socket_addr \<Rightarrow> 'eps \<Rightarrow> 'eps"
  eo_mark_probing :: "instant \<Rightarrow> socket_addr \<Rightarrow> 'eps \<Rightarrow> 'eps"
  eo_needs_relay :: "instant \<Rightarrow> 'eps \<Rightarrow> bool"
  eo_has_working :: "instant \<Rightarrow> 'eps \<Rightarrow> bool"
  eo_best :: "instant \<Rightarrow> 'eps \<Rightarrow> endpoint_info option"
  eo_best_addr :: "instant \<Rightarrow> 'eps \<Rightarrow> socket_addr option"
  eo_addrs :: "'eps \<Rightarrow> socket_addr list"
  eo_needing_probe :: "instant \<Rightarrow> duration \<Rightarrow> 'eps \<Rightarrow> socket_addr list"

record pending_disco_ping =
  pd_tx_id :: "u8 list"
  pd_target :: socket_addr
  pd_target_vip :: ip_addr
  pd_sent_at :: instant
  pd_retries :: u32
  pd_max_retries :: u32

record 'eps peer_state =
  ps_vip :: ip_addr
  ps_vip_v6 :: "ip_addr option"
  ps_public_key :: key32
  ps_endpoints :: 'eps
  ps_state :: peer_connection_state
  ps_discovered_at :: instant
  ps_last_seen :: "instant option"
  ps_using_relay :: bool
  ps_peer_nat_type :: "nat_type option"
  ps_connection_strategy :: connection_strategy

record local_disco_config =
  dc_ping_timeout :: duration
  dc_max_retries :: u32
  dc_relay_enabled :: bool

definition LocalDiscoConfig_default :: local_disco_config where
  "LocalDiscoConfig_default = \<lparr>dc_ping_timeout = from_secs 5, dc_max_retries = 3, dc_relay_enabled = True\<rparr>"

definition initial_endpoints :: "'eps endpoint_ops \<Rightarrow> instant \<Rightarrow> socket_addr option \<Rightarrow> 'eps" where
  "initial_endpoints eo now endpoint =
     (case endpoint of Some addr \<Rightarrow> eo_upsert eo now addr NucleusSource (eo_new eo) | None \<Rightarrow> eo_new eo)"

definition peer_new ::
  "'eps endpoint_ops \<Rightarrow> instant \<Rightarrow> ip_addr \<Rightarrow> ip_addr option \<Rightarrow> key32 \<Rightarrow> socket_addr option \<Rightarrow> 'eps peer_state" where
  "peer_new eo now vip vip_v6 public_key endpoint =
     \<lparr>ps_vip = vip, ps_vip_v6 = vip_v6, ps_public_key = public_key,
      ps_endpoints = initial_endpoints eo now endpoint, ps_state = PeerInit, ps_discovered_at = now,
      ps_last_seen = None, ps_using_relay = False, ps_peer_nat_type = None,
      ps_connection_strategy = Direct\<rparr>"

definition with_nat_strategy ::
  "'eps endpoint_ops \<Rightarrow> instant \<Rightarrow> ip_addr \<Rightarrow> ip_addr option \<Rightarrow> key32 \<Rightarrow> socket_addr option \<Rightarrow>
     nat_type option \<Rightarrow> nat_type option \<Rightarrow> 'eps peer_state" where
  "with_nat_strategy eo now vip vip_v6 public_key endpoint our_nat_type peer_nat_type =
     \<lparr>ps_vip = vip, ps_vip_v6 = vip_v6, ps_public_key = public_key,
      ps_endpoints = initial_endpoints eo now endpoint, ps_state = PeerInit, ps_discovered_at = now,
      ps_last_seen = None, ps_using_relay = False, ps_peer_nat_type = peer_nat_type,
      ps_connection_strategy = select_connection_strategy our_nat_type peer_nat_type\<rparr>"

definition update_strategy ::
  "nat_type option \<Rightarrow> nat_type option \<Rightarrow> 'eps peer_state \<Rightarrow> 'eps peer_state" where
  "update_strategy our_nat_type peer_nat_type ps =
     ps\<lparr>ps_peer_nat_type := peer_nat_type,
        ps_connection_strategy := select_connection_strategy our_nat_type peer_nat_type\<rparr>"

definition add_endpoint ::
  "'eps endpoint_ops \<Rightarrow> instant \<Rightarrow> socket_addr \<Rightarrow> endpoint_source \<Rightarrow> 'eps peer_state \<Rightarrow> 'eps peer_state" where
  "add_endpoint eo now addr source ps =
     ps\<lparr>ps_endpoints := eo_upsert eo now addr source (ps_endpoints ps)\<rparr>"

definition record_pong ::
  "'eps endpoint_ops \<Rightarrow> instant \<Rightarrow> socket_addr \<Rightarrow> duration \<Rightarrow> 'eps peer_state \<Rightarrow> 'eps peer_state" where
  "record_pong eo now addr rtt ps =
     (let ps1 = ps\<lparr>ps_endpoints := eo_record_pong eo now addr rtt (ps_endpoints ps),
                   ps_last_seen := Some now\<rparr> in
      if eo_has_working eo now (ps_endpoints ps1) then
        (if (case eo_best eo now (ps_endpoints ps1) of Some e \<Rightarrow> ei_source e = RelaySource | None \<Rightarrow> False)
         then ps1\<lparr>ps_state := RelayOk, ps_using_relay := True\<rparr>
         else ps1\<lparr>ps_state := DirectOk, ps_using_relay := False\<rparr>)
      else ps1)"

definition mark_endpoint_failed ::
  "'eps endpoint_ops \<Rightarrow> instant \<Rightarrow> socket_addr \<Rightarrow> 'eps peer_state \<Rightarrow> 'eps peer_state" where
  "mark_endpoint_failed eo now addr ps =
     (let ps1 = ps\<lparr>ps_endpoints := eo_mark_failed eo now addr (ps_endpoints ps)\<rparr> in
      if eo_needs_relay eo now (ps_endpoints ps1) then ps1\<lparr>ps_state := RelayTry\<rparr> else ps1)"

definition mark_relayed :: "instant \<Rightarrow> 'eps peer_state \<Rightarrow> 'eps peer_state" where
  "mark_relayed now ps = ps\<lparr>ps_state := RelayOk, ps_using_relay := True, ps_last_seen := Some now\<rparr>"

definition best_endpoint :: "'eps endpoint_ops \<Rightarrow> instant \<Rightarrow> 'eps peer_state \<Rightarrow> socket_addr option" where
  "best_endpoint eo now ps = eo_best_addr eo now (ps_endpoints ps)"

definition best_endpoint_info :: "'eps endpoint_ops \<Rightarrow> instant \<Rightarrow> 'eps peer_state \<Rightarrow> endpoint_info option" where
  "best_endpoint_info eo now ps = eo_best eo now (ps_endpoints ps)"

definition endpoints_needing_probe ::
  "'eps endpoint_ops \<Rightarrow> instant \<Rightarrow> duration \<Rightarrow> 'eps peer_state \<Rightarrow> socket_addr list" where
  "endpoints_needing_probe eo now interval ps = eo_needing_probe eo now interval (ps_endpoints ps)"

definition mark_probing ::
  "'eps endpoint_ops \<Rightarrow> instant \<Rightarrow> socket_addr \<Rightarrow> 'eps peer_state \<Rightarrow> 'eps peer_state" where
  "mark_probing eo now addr ps = ps\<lparr>ps_endpoints := eo_mark_probing eo now addr (ps_endpoints ps)\<rparr>"

definition endpoint_count :: "'eps endpoint_ops \<Rightarrow> 'eps peer_state \<Rightarrow> nat" where
  "endpoint_count eo ps = length (eo_addrs eo (ps_endpoints ps))"

definition has_working_connection :: "'eps endpoint_ops \<Rightarrow> instant \<Rightarrow> 'eps peer_state \<Rightarrow> bool" where
  "has_working_connection eo now ps = eo_has_working eo now (ps_endpoints ps)"

section \<open>What the operations keep of a peer\<close>

text \<open>
  The identity of a peer, its virtual address and its key, is fixed when it is created; no operation on
  the peer changes it.
\<close>

definition peer_ident :: "'eps peer_state \<Rightarrow> ip_addr \<times> key32" where
  "peer_ident ps = (ps_vip ps, ps_public_key ps)"

lemma peer_ident_simps [simp]:
  "peer_ident (peer_new eo now vip vip_v6 k ep) = (vip, k)"
  "peer_ident (with_nat_strategy eo now vip vip_v6 k ep n1 n2) = (vip, k)"
  "peer_ident (update_strategy n1 n2 ps) = peer_ident ps"
  "peer_ident (add_endpoint eo now a src ps) = peer_ident ps"
  "peer_ident (record_pong eo now a d ps) = peer_ident ps"
  "peer_ident (mark_endpoint_failed eo now a ps) = peer_ident ps"
  "peer_ident (mark_relayed now ps) = peer_ident ps"
  "peer_ident (mark_probing eo now a ps) = peer_ident ps"
  "peer_ident (ps\<lparr>ps_state := st\<rparr>) = peer_ident ps"
  "peer_ident (ps\<lparr>ps_last_seen := t\<rparr>) = peer_ident ps"
  "peer_ident (ps\<lparr>ps_using_relay := b\<rparr>) = peer_ident ps"
  "peer_ident (ps\<lparr>ps_vip_v6 := v6\<rparr>) = peer_ident ps"
  by (simp_all add: peer_ident_def peer_new_def with_nat_strategy_def update_strategy_def add_endpoint_def
      record_pong_def mark_endpoint_failed_def mark_relayed_def mark_probing_def Let_def)

lemma peer_ident_fold_failed [simp]:
  "peer_ident (fold (mark_endpoint_failed eo now) addrs ps) = peer_ident ps"
  by (induction addrs arbitrary: ps) simp_all

lemma peer_ident_iff: "peer_ident ps = (v, k) \<longleftrightarrow> ps_vip ps = v \<and> ps_public_key ps = k"
  by (auto simp: peer_ident_def)

section \<open>Properties\<close>

text \<open>The table in the documentation of \<open>select_connection_strategy\<close>, as sets of NAT types.\<close>

definition strategy_table :: "nat_type option \<Rightarrow> nat_type option \<Rightarrow> connection_strategy" where
  "strategy_table a b =
     (let easy = {Some NatOpen, Some FullCone}; restricted = {Some RestrictedCone, Some PortRestrictedCone} in
      if a \<in> easy \<or> b \<in> easy then Direct
      else if Some Symmetric \<in> {a, b} then (if a = b then RelayOnly else PortPrediction)
      else if a \<in> restricted \<and> b \<in> restricted then SimultaneousOpen else Direct)"

text \<open>
  Both ends choose the same strategy. The strategy is that of the documented table, and it does not
  depend on which of the two peers computes it, so two peers that know each other's NAT type agree.
\<close>

theorem strategy_agreed:
  "select_connection_strategy a b = strategy_table a b
   \<and> select_connection_strategy a b = select_connection_strategy b a"
proof -
  note defs = select_connection_strategy_def strategy_table_def Let_def
  have "select_connection_strategy a b = strategy_table a b" for a b
  proof (cases a)
    case None
    then show ?thesis
    proof (cases b)
      case (Some t)
      with None show ?thesis by (cases t) (simp_all add: defs)
    qed (simp add: defs)
  next
    case (Some s)
    note a = this
    show ?thesis
    proof (cases b)
      case None
      with a show ?thesis by (cases s) (simp_all add: defs)
    next
      case (Some t)
      with a show ?thesis by (cases s; cases t) (simp_all add: defs)
    qed
  qed
  moreover have "strategy_table a b = strategy_table b a"
    unfolding strategy_table_def Let_def by (simp add: disj_commute insert_commute eq_commute conj_commute)
  ultimately show ?thesis by simp
qed

text \<open>
  Addresses have one form. Normalising is idempotent, a mapped address of IPv4 becomes the IPv4
  address again, and an address converted for sending on macOS is seen as the same peer when it comes
  back as a source address.
\<close>

theorem normalize_addr_canonical:
  "normalize_addr (normalize_addr a) = normalize_addr a
   \<and> normalize_addr (to_mapped_v6 macos a) = normalize_addr a
   \<and> normalize_addr (SocketAddr (to_ipv6_mapped i j k l) port) = SocketAddr (V4 i j k l) port
   \<and> (normalize_addr a = a \<or> to_mapped_v6 True (normalize_addr a) = a)"
proof -
  have mapped: "to_ipv4_mapped (mapped_prefix @ [i, j, k, l]) = Some (V4 i j k l)" for i j k l
    by (simp add: to_ipv4_mapped_def mapped_prefix_def)
  have v4: "\<exists>i j k l. v = V4 i j k l \<and> os = mapped_prefix @ [i, j, k, l]" if "to_ipv4_mapped os = Some v" for os v
  proof -
    from that obtain i j k l where d: "drop 12 os = [i, j, k, l]" "take 12 os = mapped_prefix" "v = V4 i j k l"
      by (auto simp: to_ipv4_mapped_def split: list.splits if_splits)
    then have "os = mapped_prefix @ [i, j, k, l]" by (metis append_take_drop_id)
    with d show ?thesis by blast
  qed
  obtain ip p where a: "a = SocketAddr ip p" by (cases a)
  show ?thesis
  proof (cases ip)
    case (V4 w x y z)
    then show ?thesis by (simp add: a normalize_addr_def to_mapped_v6_def to_ipv6_mapped_def mapped)
  next
    case (V6 os)
    show ?thesis
    proof (cases "to_ipv4_mapped os")
      case None
      with V6 show ?thesis
        by (simp add: a normalize_addr_def to_mapped_v6_def to_ipv6_mapped_def mapped)
    next
      case (Some v)
      from v4 [OF this] obtain i j k l where "v = V4 i j k l" "os = mapped_prefix @ [i, j, k, l]" by blast
      with V6 Some show ?thesis
        by (simp add: a normalize_addr_def to_mapped_v6_def to_ipv6_mapped_def mapped)
    qed
  qed
qed

end
