(* ===== verification/Mesh_Manager.thy ===== *)
theory Mesh_Manager
  imports Mesh_Peers
begin

text \<open>
  \<open>crates/omni-core/src/manager.rs\<close>, \<open>start_loops\<close>: the dispatcher that receives every packet of the
  mesh and checks once a second for pings that have timed out. It is one task, so its rounds do not
  interleave; a run is any sequence of packets, with any content and source, and of ticks. What a
  round sends and the WireGuard peers it configures are its outputs. Encoders and parsers of packets,
  endpoint sets and the relay client belong to \<open>omninervous\<close>.
\<close>

section \<open>Packets, parameters, state\<close>

record disco_ping =
  dp_tx_id :: "u8 list"
  dp_sender_key :: key32
  dp_sender_vip :: ip_addr
  dp_sender_vip_v6 :: "ip_addr option"
  dp_wg_port :: "nat option"

record disco_pong =
  do_tx_id :: "u8 list"
  do_observed_addr :: string
  do_responder_key :: key32
  do_responder_vip_v6 :: "ip_addr option"
  do_wg_port :: "nat option"

record relay_bind_ack =
  ra_success :: bool
  ra_session_id :: "u8 list option"
  ra_target_key :: "key32 option"
  ra_transparent :: bool
  ra_relay_endpoint :: "string option"

datatype mesh_out =
    SendPong socket_addr disco_pong
  | SendPing socket_addr disco_ping
  | SendBind socket_addr key32 ip_addr bool "nat option"
  | AddPeer string "socket_addr option" "string list"
  | WgPacket "u8 list" socket_addr

text \<open>
  The parameters: endpoint sets, signalling, the packet formats, text of keys and addresses, and what is
  fixed when the loops start (own identity, configuration, relay server).
\<close>

record ('eps, 'enc) mesh_params =
  mm_eo :: "'eps endpoint_ops"
  mm_sg :: "'enc signaling"
  mm_DISCO_PING :: u8
  mm_DISCO_PONG :: u8
  mm_RELAY_BIND_ACK :: u8
  mm_RELAY_DATA :: u8
  mm_is_relay_message :: "u8 list \<Rightarrow> bool"
  mm_parse_ping :: "u8 list \<Rightarrow> disco_ping option"
  mm_parse_pong :: "u8 list \<Rightarrow> disco_pong option"
  mm_parse_bind_ack :: "u8 list \<Rightarrow> relay_bind_ack option"
  mm_parse_relay_data :: "u8 list \<Rightarrow> (u8 list \<times> u8 list) option"
  mm_hex :: "key32 \<Rightarrow> string"
  mm_show_ip :: "ip_addr \<Rightarrow> string"
  mm_show_addr :: "socket_addr \<Rightarrow> string"
  mm_macos :: bool
  mm_public_key :: key32
  mm_vip :: "ip_addr option"
  mm_vip_v6 :: "ip_addr option"
  mm_wg_listen_port :: "nat option"
  mm_disco :: local_disco_config
  mm_relay_server :: "socket_addr option"
  mm_secret :: "string option"

text \<open>
  One round: the clock, our NAT type, and for the \<open>j\<close>-th packet sent for the \<open>i\<close>-th peer (or ping) of the
  round a random transaction id and whether encoding and sending succeed.
\<close>

record round_env =
  re_now :: instant
  re_our_nat :: "nat_type option"
  re_tx_id :: "nat \<Rightarrow> nat \<Rightarrow> u8 list"
  re_sent :: "nat \<Rightarrow> nat \<Rightarrow> bool"

record ('eps, 'enc) mesh_state =
  ms_peers :: "(ip_addr, 'eps peer_state) hmap"
  ms_pings :: "(u8 list, pending_disco_ping) hmap"
  ms_sessions :: "(key32, u8 list) hmap"
  ms_relay_client :: bool
  ms_enc :: 'enc

definition mesh_start :: "('eps, 'enc) mesh_params \<Rightarrow> 'enc \<Rightarrow> ('eps, 'enc) mesh_state" where
  "mesh_start p enc =
     \<lparr>ms_peers = [], ms_pings = [], ms_sessions = [],
      ms_relay_client = (dc_relay_enabled (mm_disco p) \<and> mm_relay_server p \<noteq> None \<and> mm_vip p \<noteq> None),
      ms_enc = enc\<rparr>"

section \<open>Parts of the handlers\<close>

definition allowed_ips :: "('eps, 'enc) mesh_params \<Rightarrow> ip_addr \<Rightarrow> ip_addr option \<Rightarrow> string list" where
  "allowed_ips p vip vip_v6 =
     (mm_show_ip p vip @ ''/32'') #
     (case vip_v6 of Some v6 \<Rightarrow> [mm_show_ip p v6 @ ''/128''] | None \<Rightarrow> [])"

text \<open>A peer stands in the table under its own address, so the handlers may name it by either.\<close>

definition wg_peer :: "('eps, 'enc) mesh_params \<Rightarrow> 'eps peer_state \<Rightarrow> socket_addr option \<Rightarrow> mesh_out" where
  "wg_peer p ps endpoint =
     AddPeer (mm_hex p (ps_public_key ps)) endpoint (allowed_ips p (ps_vip ps) (ps_vip_v6 ps))"

definition wg_best :: "('eps, 'enc) mesh_params \<Rightarrow> instant \<Rightarrow> 'eps peer_state \<Rightarrow> mesh_out list" where
  "wg_best p now ps =
     (case best_endpoint (mm_eo p) now ps of Some ep \<Rightarrow> [wg_peer p ps (Some ep)] | None \<Rightarrow> [])"

definition our_ping :: "('eps, 'enc) mesh_params \<Rightarrow> u8 list \<Rightarrow> disco_ping" where
  "our_ping p tx_id =
     \<lparr>dp_tx_id = tx_id, dp_sender_key = mm_public_key p,
      dp_sender_vip = (case mm_vip p of Some v \<Rightarrow> v | None \<Rightarrow> V4 0 0 0 0),
      dp_sender_vip_v6 = mm_vip_v6 p, dp_wg_port = mm_wg_listen_port p\<rparr>"

definition new_pending ::
  "('eps, 'enc) mesh_params \<Rightarrow> instant \<Rightarrow> u8 list \<Rightarrow> socket_addr \<Rightarrow> ip_addr \<Rightarrow> pending_disco_ping" where
  "new_pending p now tx_id target vip =
     \<lparr>pd_tx_id = tx_id, pd_target = target, pd_target_vip = vip, pd_sent_at = now, pd_retries = 0,
      pd_max_retries = dc_max_retries (mm_disco p)\<rparr>"

text \<open>Pinging the endpoints of the \<open>i\<close>-th peer of an update, from the \<open>j\<close>-th on.\<close>

fun ping_all ::
  "('eps, 'enc) mesh_params \<Rightarrow> round_env \<Rightarrow> nat \<Rightarrow> nat \<Rightarrow> ip_addr \<Rightarrow> socket_addr list \<Rightarrow>
     'eps peer_state \<times> (u8 list, pending_disco_ping) hmap \<Rightarrow>
     mesh_out list \<times> 'eps peer_state \<times> (u8 list, pending_disco_ping) hmap" where
  "ping_all p env i j vip [] (ps, pings) = ([], ps, pings)"
| "ping_all p env i j vip (ep # eps) (ps, pings) =
     (if re_sent env i j then
        (let tx_id = re_tx_id env i j;
             (os, r) = ping_all p env i (Suc j) vip eps
               (mark_probing (mm_eo p) (re_now env) ep ps,
                hm_insert tx_id (new_pending p (re_now env) tx_id ep vip) pings) in
         (SendPing (to_mapped_v6 (mm_macos p) ep) (our_ping p tx_id) # os, r))
      else ping_all p env i (Suc j) vip eps (ps, pings))"

section \<open>Handlers\<close>

definition on_disco_ping ::
  "('eps, 'enc) mesh_params \<Rightarrow> round_env \<Rightarrow> disco_ping \<Rightarrow> socket_addr \<Rightarrow> ('eps, 'enc) mesh_state \<Rightarrow>
     mesh_out list \<times> ('eps, 'enc) mesh_state" where
  "on_disco_ping p env ping src s =
     (let now = re_now env;
          pong = (if re_sent env 0 0 then
                    [SendPong (to_mapped_v6 (mm_macos p) src)
                       \<lparr>do_tx_id = dp_tx_id ping, do_observed_addr = mm_show_addr p src,
                        do_responder_key = mm_public_key p, do_responder_vip_v6 = mm_vip_v6 p,
                        do_wg_port = mm_wg_listen_port p\<rparr>]
                  else []) in
      case hm_get (ms_peers s) (dp_sender_vip ping) of
        Some ps \<Rightarrow>
          if dp_sender_key ping \<noteq> ps_public_key ps then (pong, s)
          else
            (let ps1 = (add_endpoint (mm_eo p) now src DirectProbe ps)\<lparr>ps_last_seen := Some now\<rparr> in
             (pong @ wg_best p now ps1, s\<lparr>ms_peers := hm_insert (dp_sender_vip ping) ps1 (ms_peers s)\<rparr>))
      | None \<Rightarrow>
          (let ps = (add_endpoint (mm_eo p) now src DirectProbe
                       (peer_new (mm_eo p) now (dp_sender_vip ping) (dp_sender_vip_v6 ping)
                          (dp_sender_key ping) (Some src)))\<lparr>ps_last_seen := Some now, ps_state := DirectTry\<rparr>;
               s1 = s\<lparr>ms_peers := hm_insert (dp_sender_vip ping) ps (ms_peers s)\<rparr>;
               tx_id = re_tx_id env 0 1 in
           if re_sent env 0 1 then
             (pong @ [wg_peer p ps (Some src), SendPing (to_mapped_v6 (mm_macos p) src) (our_ping p tx_id)],
              s1\<lparr>ms_pings := hm_insert tx_id (new_pending p now tx_id src (dp_sender_vip ping)) (ms_pings s1)\<rparr>)
           else (pong @ [wg_peer p ps (Some src)], s1)))"

definition on_disco_pong ::
  "('eps, 'enc) mesh_params \<Rightarrow> round_env \<Rightarrow> disco_pong \<Rightarrow> socket_addr \<Rightarrow> ('eps, 'enc) mesh_state \<Rightarrow>
     mesh_out list \<times> ('eps, 'enc) mesh_state" where
  "on_disco_pong p env pong src s =
     (let now = re_now env in
      case hm_get (ms_pings s) (do_tx_id pong) of
        None \<Rightarrow> ([], s)
      | Some pending \<Rightarrow>
          (let s1 = s\<lparr>ms_pings := hm_remove (do_tx_id pong) (ms_pings s)\<rparr>;
               rtt = elapsed (pd_sent_at pending) now in
           case hm_get (ms_peers s1) (pd_target_vip pending) of
             None \<Rightarrow> ([], s1)
           | Some ps \<Rightarrow>
               if do_responder_key pong \<noteq> ps_public_key ps then ([], s1)
               else
                 (let ps1 = record_pong (mm_eo p) now src rtt (add_endpoint (mm_eo p) now src DirectProbe ps) in
                  (wg_best p now ps1, s1\<lparr>ms_peers := hm_insert (pd_target_vip pending) ps1 (ms_peers s1)\<rparr>))))"

text \<open>The peer a relay answer is about: the one with the key it names, or the first that waits.\<close>

definition waits_for_relay :: "'eps peer_state \<Rightarrow> bool" where
  "waits_for_relay ps = (ps_state ps = RelayTry)"

definition relay_target_key :: "relay_bind_ack \<Rightarrow> (ip_addr, 'eps peer_state) hmap \<Rightarrow> key32 option" where
  "relay_target_key ack peers =
     (case ra_target_key ack of
        Some k \<Rightarrow> Some k
      | None \<Rightarrow> map_option ps_public_key (List.find waits_for_relay (hm_values peers)))"

definition find_key :: "key32 \<Rightarrow> (ip_addr, 'eps peer_state) hmap \<Rightarrow> (ip_addr \<times> 'eps peer_state) option" where
  "find_key k peers = List.find (\<lambda>(_, ps). ps_public_key ps = k) peers"

definition on_relay_bind_ack ::
  "('eps, 'enc) mesh_params \<Rightarrow> round_env \<Rightarrow> relay_bind_ack \<Rightarrow> socket_addr \<Rightarrow> ('eps, 'enc) mesh_state \<Rightarrow>
     mesh_out list \<times> ('eps, 'enc) mesh_state" where
  "on_relay_bind_ack p env ack src s =
     (if ra_success ack then
        (case ra_session_id ack of
           None \<Rightarrow> ([], s)
         | Some session_id \<Rightarrow>
             (case relay_target_key ack (ms_peers s) of
                None \<Rightarrow> ([], s)
              | Some target_key \<Rightarrow>
                  (case find_key target_key (ms_peers s) of
                     None \<Rightarrow> ([], s)
                   | Some (vip, ps) \<Rightarrow>
                       if \<not> waits_for_relay ps then ([], s)
                       else
                         (let ps1 = mark_relayed (re_now env) ps;
                              endpoint = (if ra_transparent ack then Some src
                                else (case (case ra_relay_endpoint ack of
                                              Some t \<Rightarrow> parse_socket_addr (sg_parse_v6_addr (mm_sg p)) t
                                            | None \<Rightarrow> None) of
                                        Some ep \<Rightarrow> Some ep | None \<Rightarrow> mm_relay_server p)) in
                          (case endpoint of Some ep \<Rightarrow> [wg_peer p ps1 (Some ep)] | None \<Rightarrow> [],
                           s\<lparr>ms_peers := hm_insert vip ps1 (ms_peers s),
                             ms_sessions := hm_insert (ps_public_key ps1) session_id (ms_sessions s)\<rparr>)))))
      else
        ([], case (case ra_target_key ack of
                     Some k \<Rightarrow> find_key k (ms_peers s)
                   | None \<Rightarrow> List.find (\<lambda>(_, ps). waits_for_relay ps) (ms_peers s)) of
               Some (vip, ps) \<Rightarrow>
                 (if waits_for_relay ps
                  then s\<lparr>ms_peers := hm_insert vip (ps\<lparr>ps_state := PeerFailed\<rparr>) (ms_peers s)\<rparr> else s)
             | None \<Rightarrow> s))"

definition on_relay_data ::
  "('eps, 'enc) mesh_params \<Rightarrow> u8 list \<Rightarrow> socket_addr \<Rightarrow> mesh_out list" where
  "on_relay_data p pkt src =
     (case mm_parse_relay_data p pkt of Some (session_id, wg_packet) \<Rightarrow> [WgPacket wg_packet src] | None \<Rightarrow> [])"

section \<open>Updates from the signalling server\<close>

text \<open>The state of a known or new peer with the endpoints and NAT type of the update.\<close>

definition merge_endpoint ::
  "('eps, 'enc) mesh_params \<Rightarrow> instant \<Rightarrow> socket_addr \<Rightarrow> 'eps peer_state \<Rightarrow> 'eps peer_state" where
  "merge_endpoint p now endpoint ps =
     (let eo = mm_eo p;
          changed = (case best_endpoint eo now ps of Some prev \<Rightarrow> prev \<noteq> endpoint | None \<Rightarrow> False);
          ps1 = (if changed \<and> has_working_connection eo now ps then
                   (fold (mark_endpoint_failed eo now) (eo_addrs eo (ps_endpoints ps)) ps)
                     \<lparr>ps_state := PeerInit, ps_using_relay := False, ps_last_seen := None\<rparr>
                 else ps) in
      add_endpoint eo now endpoint NucleusSource ps1)"

definition merge_peer ::
  "('eps, 'enc) mesh_params \<Rightarrow> round_env \<Rightarrow> mesh_peer_info \<Rightarrow> 'eps peer_state \<Rightarrow> 'eps peer_state" where
  "merge_peer p env peer ps =
     (let now = re_now env;
          ps1 = (case mp_endpoint peer of Some ep \<Rightarrow> merge_endpoint p now ep ps | None \<Rightarrow> ps);
          ps2 = (case mp_mapped_endpoint peer of
                   Some ep \<Rightarrow> add_endpoint (mm_eo p) now ep PortMapSource ps1 | None \<Rightarrow> ps1);
          ps3 = ps2\<lparr>ps_vip_v6 := mp_vip_v6 peer\<rparr> in
      if ps_peer_nat_type ps3 \<noteq> mp_nat_type peer
      then update_strategy (re_our_nat env) (mp_nat_type peer) ps3 else ps3)"

definition known_or_new ::
  "('eps, 'enc) mesh_params \<Rightarrow> round_env \<Rightarrow> mesh_peer_info \<Rightarrow> (ip_addr, 'eps peer_state) hmap \<Rightarrow> 'eps peer_state" where
  "known_or_new p env peer peers =
     (case hm_get peers (mp_vip peer) of
        Some ps \<Rightarrow> ps
      | None \<Rightarrow> with_nat_strategy (mm_eo p) (re_now env) (mp_vip peer) (mp_vip_v6 peer)
                  (mp_public_key peer) (mp_endpoint peer) (re_our_nat env) (mp_nat_type peer))"

text \<open>What is done for a peer without a working connection, by its strategy.\<close>

definition start_disco ::
  "('eps, 'enc) mesh_params \<Rightarrow> round_env \<Rightarrow> nat \<Rightarrow> ip_addr \<Rightarrow>
     'eps peer_state \<times> (u8 list, pending_disco_ping) hmap \<Rightarrow>
     mesh_out list \<times> 'eps peer_state \<times> (u8 list, pending_disco_ping) hmap" where
  "start_disco p env i vip r =
     (case r of (ps, pings) \<Rightarrow>
        let endpoints = eo_addrs (mm_eo p) (ps_endpoints ps);
            (os, ps1, pings1) = ping_all p env i 0 vip endpoints (ps, pings) in
        case ps_connection_strategy ps of
          RelayOnly \<Rightarrow> ([], ps\<lparr>ps_state := RelayTry\<rparr>, pings)
        | Direct \<Rightarrow>
            if endpoints = [] then ([wg_peer p ps None], ps, pings)
            else (wg_peer p ps (Some (hd endpoints)) # os, ps1\<lparr>ps_state := DirectTry\<rparr>, pings1)
        | _ \<Rightarrow>
            ((if endpoints = [] then [] else [wg_peer p ps (Some (hd endpoints))]) @ os,
             ps1\<lparr>ps_state := DirectTry\<rparr>, pings1))"

definition on_peer ::
  "('eps, 'enc) mesh_params \<Rightarrow> round_env \<Rightarrow> nat \<Rightarrow> mesh_peer_info \<Rightarrow> ('eps, 'enc) mesh_state \<Rightarrow>
     mesh_out list \<times> ('eps, 'enc) mesh_state" where
  "on_peer p env i peer s =
     (let vip = mp_vip peer;
          ps = merge_peer p env peer (known_or_new p env peer (ms_peers s)) in
      if has_working_connection (mm_eo p) (re_now env) ps
      then (wg_best p (re_now env) ps, s\<lparr>ms_peers := hm_insert vip ps (ms_peers s)\<rparr>)
      else
        (let (os, ps1, pings1) = start_disco p env i vip (ps, ms_pings s) in
         (os, s\<lparr>ms_peers := hm_insert vip ps1 (ms_peers s), ms_pings := pings1\<rparr>)))"

fun on_peers ::
  "('eps, 'enc) mesh_params \<Rightarrow> round_env \<Rightarrow> nat \<Rightarrow> mesh_peer_info list \<Rightarrow> ('eps, 'enc) mesh_state \<Rightarrow>
     mesh_out list \<times> ('eps, 'enc) mesh_state" where
  "on_peers p env i [] s = ([], s)"
| "on_peers p env i (peer # peers) s =
     (let (os, s1) = on_peer p env i peer s; (os', s2) = on_peers p env (Suc i) peers s1 in (os @ os', s2))"

definition remove_vips :: "ip_addr list \<Rightarrow> ('eps, 'enc) mesh_state \<Rightarrow> ('eps, 'enc) mesh_state" where
  "remove_vips vips s = s\<lparr>ms_peers := fold hm_remove vips (ms_peers s)\<rparr>"

definition on_update ::
  "('eps, 'enc) mesh_params \<Rightarrow> round_env \<Rightarrow> peer_update \<Rightarrow> ('eps, 'enc) mesh_state \<Rightarrow>
     mesh_out list \<times> ('eps, 'enc) mesh_state" where
  "on_update p env update s =
     (let (os, s1) = on_peers p env 0 (pu_peers update) s in (os, remove_vips (pu_removed_vips update) s1))"

definition on_signaling ::
  "('eps, 'enc) mesh_params \<Rightarrow> round_env \<Rightarrow> u8 list \<Rightarrow> ('eps, 'enc) mesh_state \<Rightarrow>
     mesh_out list \<times> ('eps, 'enc) mesh_state" where
  "on_signaling p env pkt s =
     (case proto_handle_packet (mm_sg p) pkt (mm_secret p) (ms_enc s) of
        (r, enc1) \<Rightarrow>
          (let s1 = s\<lparr>ms_enc := enc1\<rparr> in
           case r of Inr (Some update) \<Rightarrow> on_update p env update s1 | _ \<Rightarrow> ([], s1)))"

section \<open>Ticks\<close>

text \<open>One pending ping that has timed out: retried, or given up (\<open>None\<close>).\<close>

definition retry_ping ::
  "('eps, 'enc) mesh_params \<Rightarrow> round_env \<Rightarrow> nat \<Rightarrow> u8 list \<Rightarrow> pending_disco_ping \<Rightarrow>
     (ip_addr, 'eps peer_state) hmap \<Rightarrow>
     mesh_out list \<times> pending_disco_ping \<times> (ip_addr, 'eps peer_state) hmap" where
  "retry_ping p env i tx_id pd peers =
     (if re_sent env i 0 then [SendPing (to_mapped_v6 (mm_macos p) (pd_target pd)) (our_ping p tx_id)] else [],
      pd\<lparr>pd_retries := pd_retries pd + 1, pd_sent_at := re_now env\<rparr>,
      case hm_get peers (pd_target_vip pd) of
        Some ps \<Rightarrow> hm_insert (pd_target_vip pd) (mark_probing (mm_eo p) (re_now env) (pd_target pd) ps) peers
      | None \<Rightarrow> peers)"

definition give_up_ping ::
  "('eps, 'enc) mesh_params \<Rightarrow> round_env \<Rightarrow> pending_disco_ping \<Rightarrow> (ip_addr, 'eps peer_state) hmap \<Rightarrow>
     mesh_out list \<times> (ip_addr, 'eps peer_state) hmap" where
  "give_up_ping p env pd peers =
     (let now = re_now env in
      case hm_get peers (pd_target_vip pd) of
        None \<Rightarrow> ([], peers)
      | Some ps \<Rightarrow>
          (let ps1 = mark_endpoint_failed (mm_eo p) now (pd_target pd) ps in
           if eo_needs_relay (mm_eo p) now (ps_endpoints ps1) then
             (if dc_relay_enabled (mm_disco p)
              then ([], hm_insert (pd_target_vip pd) (ps1\<lparr>ps_state := RelayTry\<rparr>) peers)
              else
                (let ps2 = ps1\<lparr>ps_state := PeerFailed\<rparr> in
                 ([wg_peer p ps2 (best_endpoint (mm_eo p) now ps2)], hm_insert (pd_target_vip pd) ps2 peers)))
           else ([], hm_insert (pd_target_vip pd) ps1 peers)))"

fun check_pings ::
  "('eps, 'enc) mesh_params \<Rightarrow> round_env \<Rightarrow> nat \<Rightarrow> (u8 list, pending_disco_ping) hmap \<Rightarrow>
     (ip_addr, 'eps peer_state) hmap \<Rightarrow>
     mesh_out list \<times> (u8 list, pending_disco_ping) hmap \<times> (ip_addr, 'eps peer_state) hmap" where
  "check_pings p env i [] peers = ([], [], peers)"
| "check_pings p env i ((tx_id, pd) # pings) peers =
     (if elapsed (pd_sent_at pd) (re_now env) > dc_ping_timeout (mm_disco p) then
        (if pd_retries pd < pd_max_retries pd then
           (let (os, pd1, peers1) = retry_ping p env i tx_id pd peers;
                (os', pings', peers2) = check_pings p env (Suc i) pings peers1 in
            (os @ os', (tx_id, pd1) # pings', peers2))
         else
           (let (os, peers1) = give_up_ping p env pd peers;
                (os', pings', peers2) = check_pings p env (Suc i) pings peers1 in
            (os @ os', pings', peers2)))
      else
        (let (os', pings', peers2) = check_pings p env (Suc i) pings peers in
         (os', (tx_id, pd) # pings', peers2)))"

definition relay_binds ::
  "('eps, 'enc) mesh_params \<Rightarrow> round_env \<Rightarrow> ('eps, 'enc) mesh_state \<Rightarrow> mesh_out list" where
  "relay_binds p env s =
     (case mm_relay_server p of
        Some relay_addr \<Rightarrow>
          (if ms_relay_client s then
             List.map_filter (\<lambda>(i, vip, ps).
                 if re_sent env i 1
                 then Some (SendBind (to_mapped_v6 (mm_macos p) relay_addr) (ps_public_key ps) vip True
                              (mm_wg_listen_port p))
                 else None)
               (enumerate 0 (filter (\<lambda>(_, ps). waits_for_relay ps) (ms_peers s)))
           else [])
      | None \<Rightarrow> [])"

definition on_tick ::
  "('eps, 'enc) mesh_params \<Rightarrow> round_env \<Rightarrow> ('eps, 'enc) mesh_state \<Rightarrow>
     mesh_out list \<times> ('eps, 'enc) mesh_state" where
  "on_tick p env s =
     (let (os, pings1, peers1) = check_pings p env 0 (ms_pings s) (ms_peers s);
          s1 = s\<lparr>ms_pings := pings1, ms_peers := peers1\<rparr> in
      (os @ relay_binds p env s1, s1))"

section \<open>The dispatcher\<close>

definition on_packet ::
  "('eps, 'enc) mesh_params \<Rightarrow> round_env \<Rightarrow> u8 list \<Rightarrow> socket_addr \<Rightarrow> ('eps, 'enc) mesh_state \<Rightarrow>
     mesh_out list \<times> ('eps, 'enc) mesh_state" where
  "on_packet p env pkt raw_src s =
     (let src = normalize_addr raw_src in
      if pkt = [] then ([], s)
      else
        (let first_byte = hd pkt in
         if first_byte = mm_DISCO_PING p then
           (case mm_parse_ping p pkt of Some ping \<Rightarrow> on_disco_ping p env ping src s | None \<Rightarrow> ([], s))
         else if first_byte = mm_DISCO_PONG p then
           (case mm_parse_pong p pkt of Some pong \<Rightarrow> on_disco_pong p env pong src s | None \<Rightarrow> ([], s))
         else if mm_is_relay_message p pkt then
           (if first_byte = mm_RELAY_BIND_ACK p then
              (case mm_parse_bind_ack p pkt of Some ack \<Rightarrow> on_relay_bind_ack p env ack src s | None \<Rightarrow> ([], s))
            else if first_byte = mm_RELAY_DATA p then (on_relay_data p pkt src, s)
            else ([], s))
         else if 0x11 \<le> first_byte then on_signaling p env pkt s
         else if 0x01 \<le> first_byte \<and> first_byte \<le> 0x04 then ([WgPacket pkt src], s)
         else ([], s)))"

datatype mesh_event = Packet round_env "u8 list" socket_addr | Tick round_env

fun mesh_step ::
  "('eps, 'enc) mesh_params \<Rightarrow> mesh_event \<Rightarrow> ('eps, 'enc) mesh_state \<Rightarrow>
     mesh_out list \<times> ('eps, 'enc) mesh_state" where
  "mesh_step p (Packet env pkt src) s = on_packet p env pkt src s"
| "mesh_step p (Tick env) s = on_tick p env s"

abbreviation mesh_run ::
  "('eps, 'enc) mesh_params \<Rightarrow> mesh_event list \<Rightarrow> ('eps, 'enc) mesh_state \<Rightarrow>
     mesh_out list \<times> ('eps, 'enc) mesh_state" where
  "mesh_run p \<equiv> run_ops (mesh_step p)"

section \<open>Well-formed states\<close>

text \<open>
  The address and key of the peer stored under an address. A table \<open>extends\<close> another when it keeps the
  identity of every peer of the other and stores new peers under their own address.
\<close>

definition ident_of :: "(ip_addr, 'eps peer_state) hmap \<Rightarrow> ip_addr \<Rightarrow> (ip_addr \<times> key32) option" where
  "ident_of m v = map_option peer_ident (hm_get m v)"

definition extends :: "(ip_addr, 'eps peer_state) hmap \<Rightarrow> (ip_addr, 'eps peer_state) hmap \<Rightarrow> bool" where
  "extends m m' \<longleftrightarrow> (hm_wf m \<longrightarrow> hm_wf m') \<and>
     (\<forall>v. ident_of m' v = ident_of m v \<or> ident_of m v = None \<and> (\<exists>k. ident_of m' v = Some (v, k)))"

lemma ident_of_insert [simp]:
  "ident_of (hm_insert v ps m) v' = (if v' = v then Some (peer_ident ps) else ident_of m v')"
  by (simp add: ident_of_def)

lemma ident_of_remove [simp]: "ident_of (hm_remove v m) v' = (if v' = v then None else ident_of m v')"
  by (simp add: ident_of_def)

lemma ident_of_SomeI: "hm_get m v = Some ps \<Longrightarrow> ident_of m v = Some (peer_ident ps)"
  by (simp add: ident_of_def)

lemma extends_refl [simp, intro]: "extends m m"
  by (simp add: extends_def)

lemma extends_trans: "extends m1 m2 \<Longrightarrow> extends m2 m3 \<Longrightarrow> extends m1 m3"
  unfolding extends_def by (metis option.distinct(1))

lemma extends_insert:
  "ident_of m v = Some (peer_ident ps) \<or> ident_of m v = None \<and> fst (peer_ident ps) = v \<Longrightarrow>
   extends m (hm_insert v ps m)"
  by (auto simp: extends_def peer_ident_def)

lemma extends_update:
  "hm_get m v = Some ps \<Longrightarrow> peer_ident ps' = peer_ident ps \<Longrightarrow> extends m (hm_insert v ps' m)"
  by (rule extends_insert) (simp add: ident_of_SomeI)

lemma extends_ident: "extends m m' \<Longrightarrow> ident_of m v = Some i \<Longrightarrow> ident_of m' v = Some i"
  by (auto simp: extends_def dest!: spec [of _ v])

text \<open>An output that configures WireGuard fits a table: the key is the one the table has for the address.\<close>

fun fits :: "('eps, 'enc) mesh_params \<Rightarrow> (ip_addr, 'eps peer_state) hmap \<Rightarrow> mesh_out \<Rightarrow> bool" where
  "fits p m (AddPeer key ep ips) \<longleftrightarrow>
     (\<exists>v k v6. ident_of m v = Some (v, k) \<and> key = mm_hex p k \<and> ips = allowed_ips p v v6)"
| "fits p m x = True"

definition table_ok :: "(ip_addr, 'eps peer_state) hmap \<Rightarrow> bool" where
  "table_ok m \<longleftrightarrow> hm_wf m \<and> (\<forall>v i. ident_of m v = Some i \<longrightarrow> fst i = v)"

lemma table_ok_extends: "table_ok m \<Longrightarrow> extends m m' \<Longrightarrow> table_ok m'"
  unfolding table_ok_def extends_def by (metis fst_conv option.sel)

lemma table_ok_get: "table_ok m \<Longrightarrow> hm_get m v = Some ps \<Longrightarrow> ps_vip ps = v"
  by (force simp: table_ok_def ident_of_def peer_ident_def)

lemma fits_mono: "extends m m' \<Longrightarrow> fits p m x \<Longrightarrow> fits p m' x"
  by (cases x) (auto dest: extends_ident)

lemma vip_of_ident: "ps_vip ps = fst (peer_ident ps)"
  by (simp add: peer_ident_def)

lemma fits_wg_peer:
  "ident_of m v = Some (peer_ident ps) \<Longrightarrow> fst (peer_ident ps) = v \<Longrightarrow> fits p m (wg_peer p ps ep)"
  by (auto simp: wg_peer_def peer_ident_def)

lemma fits_wg_best:
  "ident_of m v = Some (peer_ident ps) \<Longrightarrow> fst (peer_ident ps) = v \<Longrightarrow> list_all (fits p m) (wg_best p now ps)"
  by (simp add: wg_best_def fits_wg_peer split: option.split)

lemma fits_inserted [simp]:
  "fst (peer_ident ps) = v \<Longrightarrow> fits p (hm_insert v ps m) (wg_peer p ps ep)"
  "fst (peer_ident ps) = v \<Longrightarrow> list_all (fits p (hm_insert v ps m)) (wg_best p now ps)"
  by (simp_all add: fits_wg_peer [of _ v] fits_wg_best [of _ v])

lemma table_ok_fst: "table_ok m \<Longrightarrow> hm_get m v = Some ps \<Longrightarrow> fst (peer_ident ps) = v"
  using table_ok_get [of m v ps] by (simp add: vip_of_ident)

text \<open>Pending pings are stored under their transaction id and have retries left or used up, never more.\<close>

definition ping_ok :: "('eps, 'enc) mesh_params \<Rightarrow> u8 list \<Rightarrow> pending_disco_ping \<Rightarrow> bool" where
  "ping_ok p tx pd \<longleftrightarrow> pd_tx_id pd = tx \<and> pd_max_retries pd = dc_max_retries (mm_disco p)
     \<and> pd_retries pd \<le> pd_max_retries pd"

definition pings_ok :: "('eps, 'enc) mesh_params \<Rightarrow> (u8 list, pending_disco_ping) hmap \<Rightarrow> bool" where
  "pings_ok p m \<longleftrightarrow> hm_wf m \<and> hm.all_entries (ping_ok p) m"

lemma pings_ok_new: "pings_ok p m \<Longrightarrow> pings_ok p (hm_insert tx (new_pending p now tx ep v) m)"
  by (auto simp: pings_ok_def ping_ok_def new_pending_def intro!: hm.all_entries_put)

lemma pings_ok_remove: "pings_ok p m \<Longrightarrow> pings_ok p (hm_remove tx m)"
  by (auto simp: pings_ok_def intro: hm.all_entries_del)

text \<open>A step that is sound: it extends the table, its outputs fit, and pings stay well formed.\<close>

definition sound ::
  "('eps, 'enc) mesh_params \<Rightarrow> ('eps, 'enc) mesh_state \<Rightarrow> mesh_out list \<times> ('eps, 'enc) mesh_state \<Rightarrow> bool" where
  "sound p s r \<longleftrightarrow> extends (ms_peers s) (ms_peers (snd r)) \<and> list_all (fits p (ms_peers (snd r))) (fst r)
     \<and> (pings_ok p (ms_pings s) \<longrightarrow> pings_ok p (ms_pings (snd r)))"

lemma sound_nothing [simp, intro]: "sound p s ([], s)"
  by (simp add: sound_def)

lemma sound_trans: "sound p s (os, s1) \<Longrightarrow> sound p s1 (os', s2) \<Longrightarrow> sound p s (os @ os', s2)"
  by (auto simp: sound_def list_all_iff intro: extends_trans fits_mono)

lemma on_disco_ping_sound:
  assumes "table_ok (ms_peers s)"
  shows "sound p s (on_disco_ping p env ping src s)"
proof (cases "hm_get (ms_peers s) (dp_sender_vip ping)")
  case None
  then have "ident_of (ms_peers s) (dp_sender_vip ping) = None" by (simp add: ident_of_def)
  then show ?thesis
    by (auto simp: sound_def on_disco_ping_def Let_def None pings_ok_new intro!: extends_insert)
next
  case (Some ps)
  then show ?thesis using table_ok_fst [OF assms Some]
    by (auto simp: sound_def on_disco_ping_def Let_def intro!: extends_update)
qed

lemma on_disco_pong_sound:
  assumes "table_ok (ms_peers s)"
  shows "sound p s (on_disco_pong p env pong src s)"
  using table_ok_fst [OF assms]
  by (auto simp: sound_def on_disco_pong_def Let_def pings_ok_remove split: option.split intro!: extends_update)

lemma find_Some_mem: "List.find P xs = Some x \<Longrightarrow> x \<in> set xs \<and> P x"
  by (induction xs) (auto split: if_splits)

lemma find_get: "hm_wf m \<Longrightarrow> List.find P m = Some (v, ps) \<Longrightarrow> hm_get m v = Some ps"
  by (auto dest!: find_Some_mem intro: hm_mem_get)

lemma on_relay_bind_ack_sound:
  assumes "table_ok (ms_peers s)"
  shows "sound p s (on_relay_bind_ack p env ack src s)"
proof -
  have get: "hm_get (ms_peers s) v = Some ps" if "List.find P (ms_peers s) = Some (v, ps)" for P v ps
    using assms that by (auto simp: table_ok_def intro: find_get)
  have up: "extends (ms_peers s) (hm_insert v ps' (ms_peers s))"
    if "List.find P (ms_peers s) = Some (v, ps)" "peer_ident ps' = peer_ident ps" for P v ps ps'
    using get [OF that(1)] that(2) by (rule extends_update)
  have vip: "fst (peer_ident ps) = v" if "List.find P (ms_peers s) = Some (v, ps)" for P v ps
    using table_ok_fst [OF assms get [OF that]] .
  show ?thesis
    by (auto simp: sound_def on_relay_bind_ack_def find_key_def Let_def vip
        split: option.split intro!: up)
qed

lemma merge_ident [simp]:
  "peer_ident (merge_endpoint p now ep ps) = peer_ident ps"
  "peer_ident (merge_peer p env peer ps) = peer_ident ps"
  by (simp_all add: merge_endpoint_def merge_peer_def Let_def split: option.split)

lemma known_or_new_ident:
  assumes "table_ok m"
  shows "fst (peer_ident (known_or_new p env peer m)) = mp_vip peer"
    and "ident_of m (mp_vip peer) = Some (peer_ident (known_or_new p env peer m)) \<or> ident_of m (mp_vip peer) = None"
  using table_ok_fst [OF assms] by (auto simp: known_or_new_def ident_of_def split: option.split)

lemma ping_all_keeps:
  "peer_ident (fst (snd (ping_all p env i j vip eps (ps, pings)))) = peer_ident ps
   \<and> list_all (fits p m) (fst (ping_all p env i j vip eps (ps, pings)))
   \<and> (pings_ok p pings \<longrightarrow> pings_ok p (snd (snd (ping_all p env i j vip eps (ps, pings)))))"
  by (induction eps arbitrary: j ps pings) (simp_all add: Let_def split_beta pings_ok_new)

lemma start_disco_keeps:
  assumes "fst (peer_ident ps) = v" and "ident_of m v = Some (peer_ident ps)"
  shows "peer_ident (fst (snd (start_disco p env i vip (ps, pings)))) = peer_ident ps
   \<and> list_all (fits p m) (fst (start_disco p env i vip (ps, pings)))
   \<and> (pings_ok p pings \<longrightarrow> pings_ok p (snd (snd (start_disco p env i vip (ps, pings)))))"
  using ping_all_keeps [of p env i 0 vip "eo_addrs (mm_eo p) (ps_endpoints ps)" ps pings m] assms
  by (auto simp: start_disco_def Let_def split_beta fits_wg_peer [of _ v] split: connection_strategy.split)

lemma on_peer_sound:
  assumes "table_ok (ms_peers s)"
  shows "sound p s (on_peer p env i peer s)"
proof -
  let ?ps = "merge_peer p env peer (known_or_new p env peer (ms_peers s))"
  let ?r = "start_disco p env i (mp_vip peer) (?ps, ms_pings s)"
  have vip: "fst (peer_ident ?ps) = mp_vip peer" using known_or_new_ident(1) [OF assms] by simp
  have ext: "extends (ms_peers s) (hm_insert (mp_vip peer) ps' (ms_peers s))"
    if "peer_ident ps' = peer_ident ?ps" for ps'
    using known_or_new_ident [OF assms, where p = p and env = env and peer = peer] that by (auto intro!: extends_insert)
  have "ident_of (hm_insert (mp_vip peer) (fst (snd ?r)) (ms_peers s)) (mp_vip peer) = Some (peer_ident ?ps)"
    using start_disco_keeps [OF vip, of "hm_insert (mp_vip peer) ?ps []" p env i "mp_vip peer" "ms_pings s"] by simp
  from start_disco_keeps [OF vip this, of p env i "mp_vip peer" "ms_pings s"] ext vip show ?thesis
    by (simp add: sound_def on_peer_def Let_def split_beta)
qed

lemma on_peers_sound: "table_ok (ms_peers s) \<Longrightarrow> sound p s (on_peers p env i peers s)"
proof (induction peers arbitrary: i s)
  case (Cons peer peers)
  obtain os s1 where r: "on_peer p env i peer s = (os, s1)" by fastforce
  obtain os' s2 where r': "on_peers p env (Suc i) peers s1 = (os', s2)" by fastforce
  have "sound p s (os, s1)" using on_peer_sound [OF Cons.prems] r by metis
  moreover then have "table_ok (ms_peers s1)"
    using Cons.prems table_ok_extends by (auto simp: sound_def)
  then have "sound p s1 (os', s2)" using Cons.IH r' by metis
  ultimately show ?case by (simp add: r r' sound_trans)
qed simp

lemma ident_of_fold_remove:
  "ident_of (fold hm_remove vs m) v = (if v \<in> set vs then None else ident_of m v)"
  by (induction vs arbitrary: m) auto

lemma hm_wf_fold_remove: "hm_wf m \<Longrightarrow> hm_wf (fold hm_remove vs m)"
  by (induction vs arbitrary: m) auto

text \<open>A whole step: a sound part, after which peers may be removed.\<close>

definition step_sound ::
  "('eps, 'enc) mesh_params \<Rightarrow> ('eps, 'enc) mesh_state \<Rightarrow> mesh_out list \<times> ('eps, 'enc) mesh_state \<Rightarrow> bool" where
  "step_sound p s r \<longleftrightarrow>
     (\<exists>s1 vs. sound p s (fst r, s1) \<and> ms_peers (snd r) = fold hm_remove vs (ms_peers s1)
        \<and> ms_pings (snd r) = ms_pings s1)"

lemma sound_step: "sound p s r \<Longrightarrow> step_sound p s r"
  unfolding step_sound_def by (intro exI [of _ "snd r"] exI [of _ "[]"]) simp

lemma on_signaling_step:
  assumes "table_ok (ms_peers s)"
  shows "step_sound p s (on_signaling p env pkt s)"
proof -
  obtain r enc1 where r: "proto_handle_packet (mm_sg p) pkt (mm_secret p) (ms_enc s) = (r, enc1)" by fastforce
  let ?s = "s\<lparr>ms_enc := enc1\<rparr>"
  have same: "sound p s (os, t) = sound p ?s (os, t)" for os t by (simp add: sound_def)
  have "step_sound p s (on_update p env u ?s)" for u
  proof -
    have "sound p s (on_peers p env 0 (pu_peers u) ?s)"
      using on_peers_sound [of ?s p env 0 "pu_peers u"] assms by (simp add: sound_def)
    then show ?thesis
      by (auto simp: step_sound_def on_update_def remove_vips_def split_beta Let_def
          intro!: exI [of _ "snd (on_peers p env 0 (pu_peers u) ?s)"])
  qed
  moreover have "step_sound p s ([], ?s)" by (intro sound_step) (simp add: sound_def)
  ultimately show ?thesis
    by (auto simp: on_signaling_def r Let_def split: sum.split option.split)
qed

lemma give_up_keeps:
  assumes "table_ok m"
  shows "extends m (snd (give_up_ping p env pd m)) \<and> list_all (fits p (snd (give_up_ping p env pd m))) (fst (give_up_ping p env pd m))"
  using table_ok_fst [OF assms]
  by (auto simp: give_up_ping_def Let_def split: option.split intro!: extends_update)

lemma retry_keeps:
  "extends m (snd (snd (retry_ping p env i tx pd m))) \<and> list_all (fits p m') (fst (retry_ping p env i tx pd m))"
  by (auto simp: retry_ping_def split: option.split intro!: extends_update)

lemma check_pings_keeps:
  "table_ok m \<Longrightarrow> extends m (snd (snd (check_pings p env i pings m)))
     \<and> list_all (fits p (snd (snd (check_pings p env i pings m)))) (fst (check_pings p env i pings m))"
proof (induction pings arbitrary: i m)
  case (Cons x pings)
  obtain tx pd where x: "x = (tx, pd)" by (cases x)
  have step: "extends m (snd (snd (check_pings p env (Suc i) pings m1)))
      \<and> list_all (fits p (snd (snd (check_pings p env (Suc i) pings m1)))) (os @ fst (check_pings p env (Suc i) pings m1))"
    if "extends m m1" "list_all (fits p m1) os" for m1 os
  proof -
    have "table_ok m1" using Cons.prems that(1) by (rule table_ok_extends)
    from Cons.IH [OF this, of "Suc i"] that show ?thesis
      by (auto simp: list_all_iff intro: extends_trans fits_mono)
  qed
  show ?case
    using step [of "snd (give_up_ping p env pd m)" "fst (give_up_ping p env pd m)"] give_up_keeps [OF Cons.prems, of p env pd]
      step [of "snd (snd (retry_ping p env i tx pd m))" "fst (retry_ping p env i tx pd m)"] retry_keeps [of m p env i tx pd]
      step [of m "[]"]
    by (simp add: x Let_def split_beta)
qed simp

text \<open>What a tick does to one pending ping.\<close>

definition tick_ping :: "('eps, 'enc) mesh_params \<Rightarrow> instant \<Rightarrow> pending_disco_ping \<Rightarrow> pending_disco_ping option" where
  "tick_ping p now pd =
     (if elapsed (pd_sent_at pd) now > dc_ping_timeout (mm_disco p) then
        (if pd_retries pd < pd_max_retries pd
         then Some (pd\<lparr>pd_retries := pd_retries pd + 1, pd_sent_at := now\<rparr>) else None)
      else Some pd)"

lemma check_pings_map:
  "fst (snd (check_pings p env i pings m)) =
     List.map_filter (\<lambda>(tx, pd). map_option (Pair tx) (tick_ping p (re_now env) pd)) pings"
  by (induction pings arbitrary: i m) (auto simp: Let_def split_beta tick_ping_def retry_ping_def)

lemma map_filter_keys:
  "distinct (map fst xs) \<Longrightarrow> distinct (map fst (List.map_filter (\<lambda>(k, v). map_option (Pair k) (f v)) xs))
   \<and> map_of (List.map_filter (\<lambda>(k, v). map_option (Pair k) (f v)) xs) k = Option.bind (map_of xs k) f"
proof (induction xs)
  case (Cons x xs)
  have "fst ` set (List.map_filter (\<lambda>(k, v). map_option (Pair k) (f v)) xs) \<subseteq> fst ` set xs"
    by (force simp: set_map_filter_iff)
  moreover have "map_of xs (fst x) = None" using Cons.prems by (simp add: map_of_eq_None_iff)
  ultimately show ?case using Cons by (cases x) (auto split: option.splits)
qed simp

lemma tick_pings_get:
  assumes "hm_wf pings"
  shows "hm_wf (fst (snd (check_pings p env i pings m)))"
    and "hm_get (fst (snd (check_pings p env i pings m))) tx = Option.bind (hm_get pings tx) (tick_ping p (re_now env))"
  using map_filter_keys [OF assms [unfolded hm_wf_def], of "tick_ping p (re_now env)"] by (simp_all add: check_pings_map hm_wf_def hm_get_def)

lemma tick_pings_ok: "pings_ok p pings \<Longrightarrow> pings_ok p (fst (snd (check_pings p env i pings m)))"
proof -
  assume ok: "pings_ok p pings"
  have "ping_ok p tx pd'" if "ping_ok p tx pd" "tick_ping p now pd = Some pd'" for tx pd pd' now
    using that inc_le [of "pd_retries pd" "pd_max_retries pd"]
    by (auto simp: tick_ping_def ping_ok_def split: if_splits)
  with ok show ?thesis
    unfolding pings_ok_def hm.all_entries_def by (simp add: tick_pings_get Option.bind_eq_Some_conv) blast
qed

lemma on_tick_sound:
  assumes "table_ok (ms_peers s)"
  shows "sound p s (on_tick p env s)"
proof -
  have "list_all (fits p m) (relay_binds p env t)" for m t
    by (auto simp: relay_binds_def list_all_iff set_map_filter_iff split: option.splits if_splits)
  with check_pings_keeps [OF assms, of p env 0 "ms_pings s"] show ?thesis
    by (simp add: sound_def on_tick_def Let_def split_beta tick_pings_ok)
qed

lemma mesh_step_sound:
  assumes "table_ok (ms_peers s)"
  shows "step_sound p s (mesh_step p e s)"
proof (cases e)
  case (Packet env pkt src)
  have "step_sound p s ([], s)" "step_sound p s (on_relay_data p pkt (normalize_addr src), s)"
    "step_sound p s ([WgPacket pkt (normalize_addr src)], s)"
    by (auto simp: sound_def on_relay_data_def intro!: sound_step split: option.split prod.split)
  then show ?thesis
    using assms on_signaling_step [OF assms]
    by (auto simp: Packet on_packet_def Let_def on_disco_ping_sound on_disco_pong_sound on_relay_bind_ack_sound
        split: option.split intro: sound_step)
next
  case (Tick env)
  then show ?thesis using on_tick_sound [OF assms] by (simp add: sound_step)
qed

section \<open>Runs\<close>

definition mesh_ok :: "('eps, 'enc) mesh_params \<Rightarrow> ('eps, 'enc) mesh_state \<Rightarrow> bool" where
  "mesh_ok p s \<longleftrightarrow> table_ok (ms_peers s) \<and> pings_ok p (ms_pings s)"

lemma mesh_step_ok:
  assumes "mesh_ok p s"
  shows "mesh_ok p (snd (mesh_step p e s))"
proof -
  obtain s1 vs where s: "sound p s (fst (mesh_step p e s), s1)"
    "ms_peers (snd (mesh_step p e s)) = fold hm_remove vs (ms_peers s1)" "ms_pings (snd (mesh_step p e s)) = ms_pings s1"
    using mesh_step_sound [of s p e] assms by (auto simp: mesh_ok_def step_sound_def)
  then have "table_ok (ms_peers s1)" using assms table_ok_extends by (auto simp: mesh_ok_def sound_def)
  with s assms show ?thesis
    by (auto simp: mesh_ok_def sound_def table_ok_def hm_wf_fold_remove ident_of_fold_remove split: if_splits)
qed

interpretation mesh: invariant_machine "mesh_step p" "mesh_ok p" for p
  by unfold_locales (rule mesh_step_ok)

lemma mesh_start_ok [simp]: "mesh_ok p (mesh_start p enc)"
  by (simp add: mesh_ok_def mesh_start_def table_ok_def pings_ok_def ident_of_def hm.all_entries_def)

text \<open>A step keeps the key of a peer or removes the peer.\<close>

lemma mesh_step_ident:
  assumes "mesh_ok p s" and "ident_of (ms_peers s) v = Some i"
  shows "ident_of (ms_peers (snd (mesh_step p e s))) v \<in> {None, Some i}"
proof -
  obtain s1 vs where s: "sound p s (fst (mesh_step p e s), s1)"
    "ms_peers (snd (mesh_step p e s)) = fold hm_remove vs (ms_peers s1)"
    using mesh_step_sound [of s p e] assms by (auto simp: mesh_ok_def step_sound_def)
  from s(1) have "extends (ms_peers s) (ms_peers s1)" by (simp add: sound_def)
  then have "ident_of (ms_peers s1) v = Some i" using assms(2) by (rule extends_ident)
  with s show ?thesis by (simp add: ident_of_fold_remove)
qed

text \<open>WireGuard is configured with the key the table has, or with a new peer's.\<close>

lemma mesh_step_add_peer:
  assumes "mesh_ok p s" and "AddPeer key ep ips \<in> set (fst (mesh_step p e s))"
  shows "\<exists>v k v6. key = mm_hex p k \<and> ips = allowed_ips p v v6
    \<and> (ident_of (ms_peers s) v = None \<or> ident_of (ms_peers s) v = Some (v, k))"
proof -
  obtain s1 where s: "sound p s (fst (mesh_step p e s), s1)"
    using mesh_step_sound [of s p e] assms by (auto simp: mesh_ok_def step_sound_def)
  with assms(2) have "fits p (ms_peers s1) (AddPeer key ep ips)" by (auto simp: sound_def list_all_iff)
  then obtain v k v6 where f: "ident_of (ms_peers s1) v = Some (v, k)" "key = mm_hex p k" "ips = allowed_ips p v v6"
    by auto
  moreover have "ident_of (ms_peers s) v = None \<or> ident_of (ms_peers s) v = Some (v, k)"
    using s f(1) extends_ident [of "ms_peers s" "ms_peers s1" v] by (cases "ident_of (ms_peers s) v") (auto simp: sound_def)
  ultimately show ?thesis by blast
qed

section \<open>Properties\<close>

text \<open>
  C4. The state stays well formed: after any packets and ticks, peers and pending pings are stored once,
  each peer under its own virtual address, each ping under its transaction id, and no ping has been
  retried more often than configured.
\<close>

theorem mesh_well_formed:
  "let s = snd (mesh_run p xs (mesh_start p enc)) in
   distinct (map fst (ms_peers s)) \<and> distinct (map fst (ms_pings s))
   \<and> list_all (\<lambda>(v, ps). ps_vip ps = v) (ms_peers s)
   \<and> list_all (\<lambda>(tx, pd). pd_tx_id pd = tx \<and> pd_retries pd \<le> dc_max_retries (mm_disco p)) (ms_pings s)"
proof -
  let ?s = "snd (mesh_run p xs (mesh_start p enc))"
  have ok: "mesh_ok p ?s" by (rule mesh.run_inv) simp
  then have wf: "hm_wf (ms_peers ?s)" "hm_wf (ms_pings ?s)"
    by (simp_all add: mesh_ok_def table_ok_def pings_ok_def)
  have "ps_vip ps = v" if "(v, ps) \<in> set (ms_peers ?s)" for v ps
    using ok hm_mem_get [OF wf(1) that] by (auto simp: mesh_ok_def intro: table_ok_get)
  moreover have "ping_ok p tx pd" if "(tx, pd) \<in> set (ms_pings ?s)" for tx pd
    using ok hm_mem_get [OF wf(2) that] by (auto simp: mesh_ok_def pings_ok_def hm.all_entries_def)
  ultimately show ?thesis using wf unfolding Let_def hm_wf_def list_all_iff by (fastforce simp: ping_ok_def)
qed

text \<open>
  C2. Keys are pinned. Whatever packets have arrived, the next packet or tick never gives the virtual (IPv4)
  address of a known peer another key, neither in the table nor in a WireGuard configuration: it can
  only remove the peer.
\<close>

theorem peer_keys_pinned:
  assumes "s = snd (mesh_run p xs (mesh_start p enc))" and "mesh_step p e s = (os, s')"
    and "hm_get (ms_peers s) v = Some ps"
  shows "(\<forall>ps'. hm_get (ms_peers s') v = Some ps' \<longrightarrow> ps_public_key ps' = ps_public_key ps)
    \<and> (\<forall>key ep ips. AddPeer key ep ips \<in> set os \<longrightarrow>
         (\<exists>w k v6. key = mm_hex p k \<and> ips = allowed_ips p w v6 \<and> (w = v \<longrightarrow> k = ps_public_key ps)))"
proof -
  have ok: "mesh_ok p s" unfolding assms(1) by (rule mesh.run_inv) simp
  have i: "ident_of (ms_peers s) v = Some (ps_vip ps, ps_public_key ps)"
    using assms(3) by (simp add: ident_of_def peer_ident_def)
  show ?thesis
  proof (intro conjI allI impI)
    fix ps' assume "hm_get (ms_peers s') v = Some ps'"
    with mesh_step_ident [OF ok i, of e] assms(2) show "ps_public_key ps' = ps_public_key ps"
      by (simp add: ident_of_def peer_ident_def)
  next
    fix key ep ips assume "AddPeer key ep ips \<in> set os"
    with mesh_step_add_peer [OF ok, of key ep ips e] assms(2) i show
      "\<exists>w k v6. key = mm_hex p k \<and> ips = allowed_ips p w v6 \<and> (w = v \<longrightarrow> k = ps_public_key ps)"
      by force
  qed
qed

text \<open>
  C3. Anyone can become a peer. A disco ping that claims a virtual address not yet in the table, from any
  source, with any key and with no proof of possession or membership, makes WireGuard accept that key
  for the address at once; and as long as the address stays in the table, whatever else the signalling
  server and the true owner send, it stays with that key. A removal announced by the signalling server
  drops the address.
\<close>

theorem disco_ping_claims_address:
  assumes "s = snd (mesh_run p xs (mesh_start p enc))" and "hm_get (ms_peers s) v = None"
    and "mm_parse_ping p (mm_DISCO_PING p # pkt) = Some ping" "dp_sender_vip ping = v"
    and "\<And>es zs. ys = es @ zs \<Longrightarrow>
      hm_get (ms_peers (snd (mesh_run p (Packet env (mm_DISCO_PING p # pkt) src # es) s))) v \<noteq> None"
  shows "AddPeer (mm_hex p (dp_sender_key ping)) (Some (normalize_addr src)) (allowed_ips p v (dp_sender_vip_v6 ping))
      \<in> set (fst (mesh_step p (Packet env (mm_DISCO_PING p # pkt) src) s))
    \<and> map_option ps_public_key
        (hm_get (ms_peers (snd (mesh_run p (Packet env (mm_DISCO_PING p # pkt) src # ys) s))) v)
      = Some (dp_sender_key ping)"
proof
  let ?e = "Packet env (mm_DISCO_PING p # pkt) src"
  have ok: "mesh_ok p s" unfolding assms(1) by (rule mesh.run_inv) simp
  show "AddPeer (mm_hex p (dp_sender_key ping)) (Some (normalize_addr src)) (allowed_ips p v (dp_sender_vip_v6 ping))
      \<in> set (fst (mesh_step p ?e s))"
    using assms(2-4) by (simp add: on_packet_def on_disco_ping_def Let_def wg_peer_def peer_new_def add_endpoint_def)
  have new: "ident_of (ms_peers (snd (mesh_step p ?e s))) v = Some (v, dp_sender_key ping)"
    using assms(2-4) by (simp add: on_packet_def on_disco_ping_def Let_def)
  have "ident_of (ms_peers (snd (mesh_run p zs t))) v = Some (v, k)"
    if "mesh_ok p t" "ident_of (ms_peers t) v = Some (v, k)"
      "\<And>es fs. zs = es @ fs \<Longrightarrow> ident_of (ms_peers (snd (mesh_run p es t))) v \<noteq> None" for zs t k
    using that
  proof (induction zs arbitrary: t)
    case (Cons z zs)
    let ?t = "snd (mesh_step p z t)"
    have "ident_of (ms_peers ?t) v \<noteq> None" using Cons.prems(3) [of "[z]" zs] by (simp add: split_beta)
    with mesh_step_ident [OF Cons.prems(1,2), of z] have "ident_of (ms_peers ?t) v = Some (v, k)" by auto
    moreover have "ident_of (ms_peers (snd (mesh_run p es ?t))) v \<noteq> None" if "zs = es @ fs" for es fs
      using Cons.prems(3) [of "z # es" fs] that by (simp add: split_beta Let_def)
    ultimately show ?case
      using Cons.IH [of ?t] mesh_step_ok [OF Cons.prems(1), of z] by (simp add: split_beta Let_def)
  qed simp
  from this [OF mesh_step_ok [OF ok] new, of ys] assms(5)
  show "map_option ps_public_key (hm_get (ms_peers (snd (mesh_run p (?e # ys) s))) v) = Some (dp_sender_key ping)"
    by (fastforce simp: split_beta Let_def ident_of_def peer_ident_def)
qed

text \<open>Checks that each come later than \<open>d\<close> after the one before.\<close>

fun spaced :: "duration \<Rightarrow> instant \<Rightarrow> round_env list \<Rightarrow> bool" where
  "spaced d t [] = True"
| "spaced d t (env # envs) = (d < elapsed t (re_now env) \<and> spaced d (re_now env) envs)"

text \<open>
  Unanswered pings end. A pending ping that is checked often enough, each time later than the time-out
  after the check before, is given up after its remaining retries and one check more; so no ping
  stays pending for ever and relaying is not put off for ever.
\<close>

theorem pings_given_up:
  assumes "s = snd (mesh_run p xs (mesh_start p enc))" and "hm_get (ms_pings s) tx = Some pd"
    and "spaced (dc_ping_timeout (mm_disco p)) (pd_sent_at pd) envs"
    and "unat (pd_max_retries pd) - unat (pd_retries pd) < length envs"
  shows "hm_get (ms_pings (snd (mesh_run p (map Tick envs) s))) tx = None"
proof -
  have tick: "hm_wf (ms_pings (snd (mesh_step p (Tick env) t)))"
    "hm_get (ms_pings (snd (mesh_step p (Tick env) t))) tx = Option.bind (hm_get (ms_pings t) tx) (tick_ping p (re_now env))"
    if "hm_wf (ms_pings t)" for env t
    using that by (simp_all add: on_tick_def Let_def split_beta tick_pings_get)
  have gone: "hm_get (ms_pings (snd (mesh_run p (map Tick envs) t))) tx = None"
    if "hm_wf (ms_pings t)" "hm_get (ms_pings t) tx = None" for envs t
    using that by (induction envs arbitrary: t) (simp_all add: split_beta Let_def tick del: mesh_step.simps)
  have ok: "mesh_ok p s" unfolding assms(1) by (rule mesh.run_inv) simp
  then have wf: "hm_wf (ms_pings s)" by (simp add: mesh_ok_def pings_ok_def)
  from wf assms(2-4) show ?thesis
  proof (induction envs arbitrary: s pd)
    case (Cons env envs)
    let ?t = "snd (mesh_step p (Tick env) s)"
    have timeout: "elapsed (pd_sent_at pd) (re_now env) > dc_ping_timeout (mm_disco p)" using Cons.prems(3) by simp
    show ?case
    proof (cases "pd_retries pd < pd_max_retries pd")
      case True
      let ?pd = "pd\<lparr>pd_retries := pd_retries pd + 1, pd_sent_at := re_now env\<rparr>"
      have "hm_get (ms_pings ?t) tx = Some ?pd"
        using tick(2) [OF Cons.prems(1)] Cons.prems(2) timeout True by (simp add: tick_ping_def)
      moreover have "unat (pd_retries pd + 1) = Suc (unat (pd_retries pd))"
        using True by (rule unat_inc_less)
      ultimately show ?thesis
        using Cons.IH [of ?t ?pd] tick(1) [OF Cons.prems(1)] Cons.prems(3,4) True
        by (simp add: split_beta Let_def word_less_nat_alt del: mesh_step.simps)
    next
      case False
      then have "hm_get (ms_pings ?t) tx = None"
        using tick(2) [OF Cons.prems(1)] Cons.prems(2) timeout by (simp add: tick_ping_def)
      with gone [OF tick(1) [OF Cons.prems(1)]] show ?thesis by (simp add: split_beta Let_def del: mesh_step.simps)
    qed
  qed simp
qed

text \<open>
  Pongs are matched. A pong changes the table or configures WireGuard only when it carries the
  transaction id of a pending ping and the key of the peer that was pinged.
\<close>

theorem pong_matched:
  assumes "on_disco_pong p env pong src s = (os, s')" and "os \<noteq> [] \<or> ms_peers s' \<noteq> ms_peers s"
  shows "\<exists>pd ps. hm_get (ms_pings s) (do_tx_id pong) = Some pd
    \<and> hm_get (ms_peers s) (pd_target_vip pd) = Some ps \<and> do_responder_key pong = ps_public_key ps"
  using assms by (auto simp: on_disco_pong_def Let_def split: option.splits if_splits)

section \<open>Witnesses\<close>

text \<open>
  A small mesh: endpoint sets are lists, a ping is the bytes of its type, the last byte of the address
  and a byte that stands for the key.
\<close>

definition list_eo :: "socket_addr list endpoint_ops" where
  "list_eo =
     \<lparr>eo_new = [], eo_upsert = (\<lambda>now a src es. if a \<in> set es then es else es @ [a]),
      eo_record_pong = (\<lambda>now a d es. es), eo_mark_failed = (\<lambda>now a es. filter (\<lambda>b. b \<noteq> a) es),
      eo_mark_probing = (\<lambda>now a es. es), eo_needs_relay = (\<lambda>now es. es = []),
      eo_has_working = (\<lambda>now es. False), eo_best = (\<lambda>now es. None),
      eo_best_addr = (\<lambda>now es. if es = [] then None else Some (hd es)), eo_addrs = (\<lambda>es. es),
      eo_needing_probe = (\<lambda>now d es. [])\<rparr>"

definition demo_key :: "u8 \<Rightarrow> key32" where
  "demo_key b = replicate 32 b"

definition demo_mesh :: "(socket_addr list, unit) mesh_params" where
  "demo_mesh =
     \<lparr>mm_eo = list_eo, mm_sg = demo_signaling, mm_DISCO_PING = 0x1B, mm_DISCO_PONG = 0x1C,
      mm_RELAY_BIND_ACK = 0x21, mm_RELAY_DATA = 0x22, mm_is_relay_message = (\<lambda>pkt. hd pkt \<in> {0x20, 0x21, 0x22, 0x23, 0x24}),
      mm_parse_ping = (\<lambda>pkt. case pkt of
         [_, v, k] \<Rightarrow> Some \<lparr>dp_tx_id = [], dp_sender_key = demo_key k, dp_sender_vip = V4 10 0 0 (unat v),
                           dp_sender_vip_v6 = None, dp_wg_port = None\<rparr>
       | _ \<Rightarrow> None),
      mm_parse_pong = (\<lambda>pkt. None), mm_parse_bind_ack = (\<lambda>pkt. None), mm_parse_relay_data = (\<lambda>pkt. None),
      mm_hex = (\<lambda>k. string_of_bytes k), mm_show_ip = (\<lambda>a. case a of V4 a b c d \<Rightarrow> show_ipv4 a b c d | _ \<Rightarrow> []),
      mm_show_addr = (\<lambda>a. []), mm_macos = False, mm_public_key = demo_key 1, mm_vip = Some (V4 10 0 0 1),
      mm_vip_v6 = None, mm_wg_listen_port = None, mm_disco = LocalDiscoConfig_default,
      mm_relay_server = None, mm_secret = Some ''secret''\<rparr>"

definition demo_round :: "nat \<Rightarrow> round_env" where
  "demo_round t = \<lparr>re_now = from_secs t, re_our_nat = None, re_tx_id = (\<lambda>i j. [of_nat i, of_nat j]), re_sent = (\<lambda>i j. True)\<rparr>"

definition rogue :: mesh_event where
  "rogue = Packet (demo_round 0) [0x1B, 2, 66] (SocketAddr (V4 6 6 6 6) 666)"

text \<open>The signalling server announces the owner of \<open>10.0.0.2\<close>, whose key is \<open>7\<close>.\<close>

definition announced :: mesh_event where
  "announced = Packet (demo_round 1) [24, 0] (SocketAddr (V4 9 9 9 9) 51820)"

lemmas demo_mesh_eval = rogue_def announced_def demo_mesh_def mesh_start_def on_packet_def on_disco_ping_def
  normalize_addr_def Let_def peer_new_def add_endpoint_def demo_round_def list_eo_def new_pending_def

abbreviation rogue_mesh :: "(socket_addr list, unit) mesh_state" where
  "rogue_mesh \<equiv> snd (mesh_run demo_mesh [rogue] (mesh_start demo_mesh ()))"

lemma rogue_peer:
  "\<exists>ps. hm_get (ms_peers rogue_mesh) (V4 10 0 0 2) = Some ps \<and> ps_public_key ps = demo_key 66"
  by (simp add: demo_mesh_eval)

lemma rogue_ping:
  "hm_get (ms_pings rogue_mesh) [0, 1]
   = Some (new_pending demo_mesh (from_secs 0) [0, 1] (SocketAddr (V4 6 6 6 6) 666) (V4 10 0 0 2))"
  by (simp add: demo_mesh_eval)

text \<open>The announcement of the owner as the dispatcher handles it.\<close>

lemma announced_update:
  "mesh_step demo_mesh announced s
   = on_update demo_mesh (demo_round 1) \<lparr>pu_peers = [to_peer demo_signaling demo_wire_peer], pu_removed_vips = []\<rparr>
       (s\<lparr>ms_enc := ()\<rparr>)"
  by (simp add: announced_def on_packet_def demo_mesh_def Let_def on_signaling_def proto_handle_packet_def
      decode_message_def demo_signaling_def parse_with_hmac_fallback_def signed_only_def)

lemma announced_present: "hm_get (ms_peers (snd (mesh_step demo_mesh announced s))) (V4 10 0 0 2) \<noteq> None"
proof -
  have "mp_vip (to_peer demo_signaling demo_wire_peer) = V4 10 0 0 2"
    by (simp add: to_peer_def demo_wire_peer_def)
  then show ?thesis
    by (simp add: announced_update on_update_def on_peer_def Let_def split_beta remove_vips_def)
qed

theorem peer_keys_pinned_witness:
  "map_option ps_public_key
     (hm_get (ms_peers (snd (mesh_step demo_mesh announced rogue_mesh))) (V4 10 0 0 2)) = Some (demo_key 66)"
proof -
  from rogue_peer obtain ps where ps: "hm_get (ms_peers rogue_mesh) (V4 10 0 0 2) = Some ps" "ps_public_key ps = demo_key 66"
    by blast
  obtain os s' where r: "mesh_step demo_mesh announced rogue_mesh = (os, s')" by fastforce
  from announced_present [of rogue_mesh] r obtain ps' where "hm_get (ms_peers s') (V4 10 0 0 2) = Some ps'" by auto
  with peer_keys_pinned [OF refl r ps(1)] ps(2) r show ?thesis by simp
qed

theorem disco_ping_claims_address_witness:
  "AddPeer (mm_hex demo_mesh (demo_key 66)) (Some (SocketAddr (V4 6 6 6 6) 666)) [''10.0.0.2/32'']
      \<in> set (fst (mesh_step demo_mesh rogue (mesh_start demo_mesh ())))
   \<and> map_option ps_public_key
       (hm_get (ms_peers (snd (mesh_run demo_mesh [rogue, announced] (mesh_start demo_mesh ())))) (V4 10 0 0 2))
     = Some (demo_key 66)"
proof -
  let ?ping = "\<lparr>dp_tx_id = [], dp_sender_key = demo_key 66, dp_sender_vip = V4 10 0 0 2,
      dp_sender_vip_v6 = None, dp_wg_port = None\<rparr>"
  have start: "mesh_start demo_mesh () = snd (mesh_run demo_mesh [] (mesh_start demo_mesh ()))" by simp
  have none: "hm_get (ms_peers (mesh_start demo_mesh ())) (V4 10 0 0 2) = None" by (simp add: mesh_start_def)
  have parse: "mm_parse_ping demo_mesh (mm_DISCO_PING demo_mesh # [2, 66]) = Some ?ping" by (simp add: demo_mesh_def)
  have rogue: "Packet (demo_round 0) (mm_DISCO_PING demo_mesh # [2, 66]) (SocketAddr (V4 6 6 6 6) 666) = rogue"
    by (simp add: rogue_def demo_mesh_def)
  have present: "hm_get (ms_peers (snd (mesh_run demo_mesh (rogue # es) (mesh_start demo_mesh ())))) (V4 10 0 0 2) \<noteq> None"
    if "[announced] = es @ zs" for es zs
    using that rogue_peer announced_present [of rogue_mesh]
    by (cases es) (auto simp: split_beta Let_def simp del: mesh_step.simps)
  have "AddPeer (mm_hex demo_mesh (dp_sender_key ?ping)) (Some (normalize_addr (SocketAddr (V4 6 6 6 6) 666)))
        (allowed_ips demo_mesh (V4 10 0 0 2) (dp_sender_vip_v6 ?ping))
      \<in> set (fst (mesh_step demo_mesh rogue (mesh_start demo_mesh ())))
    \<and> map_option ps_public_key
       (hm_get (ms_peers (snd (mesh_run demo_mesh (rogue # [announced]) (mesh_start demo_mesh ())))) (V4 10 0 0 2))
     = Some (dp_sender_key ?ping)"
    by (rule disco_ping_claims_address [OF start none parse, of "[announced]" "demo_round 0"
          "SocketAddr (V4 6 6 6 6) 666", unfolded rogue]) (simp, rule present)
  moreover have "show_ipv4 10 0 0 2 = ''10.0.0.2''" by code_simp
  ultimately show ?thesis
    by (simp add: normalize_addr_def allowed_ips_def demo_mesh_def del: mesh_step.simps run_ops.simps)
qed

theorem pings_given_up_witness:
  "hm_get (ms_pings (snd (mesh_run demo_mesh (map Tick (map demo_round [6, 12, 18, 24])) rogue_mesh))) [0, 1] = None"
proof (rule pings_given_up [OF refl rogue_ping])
  show "spaced (dc_ping_timeout (mm_disco demo_mesh))
      (pd_sent_at (new_pending demo_mesh (from_secs 0) [0, 1] (SocketAddr (V4 6 6 6 6) 666) (V4 10 0 0 2)))
      (map demo_round [6, 12, 18, 24])"
    by (simp add: demo_mesh_def demo_round_def LocalDiscoConfig_default_def new_pending_def elapsed_def from_secs_def)
qed (simp add: new_pending_def demo_mesh_def LocalDiscoConfig_default_def)

theorem pong_matched_witness:
  "\<exists>pd ps. hm_get (ms_pings rogue_mesh) [0, 1] = Some pd
    \<and> hm_get (ms_peers rogue_mesh) (pd_target_vip pd) = Some ps \<and> demo_key 66 = ps_public_key ps"
proof -
  let ?pong = "\<lparr>do_tx_id = [0, 1], do_observed_addr = [], do_responder_key = demo_key 66,
      do_responder_vip_v6 = None, do_wg_port = None\<rparr>"
  obtain os s' where r: "on_disco_pong demo_mesh (demo_round 1) ?pong (SocketAddr (V4 6 6 6 6) 666) rogue_mesh = (os, s')"
    by fastforce
  have "os \<noteq> []"
    using r rogue_ping rogue_peer by (auto simp: on_disco_pong_def Let_def demo_mesh_eval record_pong_def wg_best_def best_endpoint_def
        initial_endpoints_def)
  with pong_matched [OF r] show ?thesis by simp
qed

end
