(* ===== verification/Tun.thy ===== *)
theory Tun
  imports Machines
begin

text \<open>
  \<open>crates/omni-tun/src/lib.rs\<close>: the WireGuard interface of a node. The interface itself is that of
  \<open>omninervous\<close>, a parameter; modelled are the choice of the mode, the set-up, the table of peers with
  the reset of expired tunnels, and the computation of the IPv6 network. Commands that add addresses
  and routes are calls of the operating system whose results are parameters of the set-up.
\<close>

section \<open>State and interface\<close>

datatype wg_mode = Auto | Kernel | Userspace

definition should_use_kernel :: "wg_mode \<Rightarrow> bool" where
  "should_use_kernel mode = False"

definition WG_TUNNEL_EXPIRY_SECS :: nat where
  "WG_TUNNEL_EXPIRY_SECS = 300"

record peer_config =
  pc_endpoint :: "socket_addr option"
  pc_allowed_ips :: "string list"

record 'i omni_tun =
  ot_interface :: 'i
  ot_ifname :: string
  ot_vip :: "string option"
  ot_wg_mode :: wg_mode
  ot_known_peers :: "(string, peer_config) hmap"

text \<open>
  \<open>WgInterface\<close>: the last handshake of a peer (\<open>None\<close>: no such peer), setting a peer, clearing all, and
  creating the device with its addresses, port and MTU.
\<close>

record 'i wg_ops =
  wg_last_handshake :: "string \<Rightarrow> 'i \<Rightarrow> datetime option option"
  wg_set_peer :: "string \<Rightarrow> socket_addr option \<Rightarrow> string list \<Rightarrow> nat option \<Rightarrow> 'i \<Rightarrow> (string + unit) \<times> 'i"
  wg_soft_shutdown :: "'i \<Rightarrow> 'i"
  wg_setup :: "string \<Rightarrow> string option \<Rightarrow> nat \<Rightarrow> string \<Rightarrow> nat \<Rightarrow> 'i \<Rightarrow> (string + unit) \<times> 'i"

section \<open>Operations\<close>

definition new_userspace :: "(string \<Rightarrow> 'i) \<Rightarrow> string \<Rightarrow> 'i omni_tun" where
  "new_userspace control ifname =
     \<lparr>ot_interface = control ifname, ot_ifname = ifname, ot_vip = None, ot_wg_mode = Userspace,
      ot_known_peers = []\<rparr>"

definition new_with_mode :: "bool \<Rightarrow> (string \<Rightarrow> 'i) \<Rightarrow> (string \<Rightarrow> 'i) \<Rightarrow> string \<Rightarrow> wg_mode \<Rightarrow> 'i omni_tun" where
  "new_with_mode linux cli userspace ifname mode =
     (let use_kernel = should_use_kernel mode in
      \<lparr>ot_interface = (if use_kernel \<and> linux then cli ifname else userspace ifname), ot_ifname = ifname,
       ot_vip = None, ot_wg_mode = (if use_kernel \<and> linux then Kernel else Userspace), ot_known_peers = []\<rparr>)"

definition is_kernel_mode :: "'i omni_tun \<Rightarrow> bool" where
  "is_kernel_mode tun = (ot_wg_mode tun = Kernel)"

definition setup_with_mtu ::
  "'i wg_ops \<Rightarrow> string \<Rightarrow> nat \<Rightarrow> string \<Rightarrow> nat \<Rightarrow> 'i omni_tun \<Rightarrow> (string + unit) \<times> 'i omni_tun" where
  "setup_with_mtu ops vip port private_key mtu tun =
     (case wg_setup ops vip None port private_key mtu (ot_interface tun) of
        (r, i) \<Rightarrow> (case r of Inl e \<Rightarrow> Inl (''TUN Setup failed: '' @ e) | Inr _ \<Rightarrow> Inr (),
                   tun\<lparr>ot_vip := Some vip, ot_interface := i\<rparr>))"

definition tun_setup :: "'i wg_ops \<Rightarrow> string \<Rightarrow> nat \<Rightarrow> string \<Rightarrow> 'i omni_tun \<Rightarrow> (string + unit) \<times> 'i omni_tun" where
  "tun_setup ops vip port private_key tun = setup_with_mtu ops vip port private_key 1420 tun"

text \<open>
  Dual-stack set-up: which system configurations are attempted after the device exists. Only the device is
  essential; failures of the others are reported in the log. \<open>v6_added\<close> is the result of adding the IPv6
  address, on which the IPv6 route depends.
\<close>

datatype sys_config = VipRoute string "string option" | Ipv6Address string nat | Ipv6Route string nat

definition setup_dual_stack ::
  "'i wg_ops \<Rightarrow> bool \<Rightarrow> string \<Rightarrow> string option \<Rightarrow> string option \<Rightarrow> nat option \<Rightarrow> nat \<Rightarrow> string \<Rightarrow> nat \<Rightarrow>
     'i omni_tun \<Rightarrow> (string + sys_config list) \<times> 'i omni_tun" where
  "setup_dual_stack ops v6_added vip subnet_mask vip_v6 prefix_v6 port private_key mtu tun =
     (case wg_setup ops vip vip_v6 port private_key mtu (ot_interface tun) of
        (r, i) \<Rightarrow>
          (let tun1 = tun\<lparr>ot_vip := Some vip, ot_interface := i\<rparr> in
           case r of
             Inl e \<Rightarrow> (Inl (''TUN Setup failed: '' @ e), tun1)
           | Inr _ \<Rightarrow>
               (Inr (VipRoute vip (case subnet_mask of Some m \<Rightarrow> if m = [] then None else Some m | None \<Rightarrow> None) #
                   (case vip_v6 of
                      Some ipv6 \<Rightarrow>
                        (let prefix = (case prefix_v6 of Some n \<Rightarrow> n | None \<Rightarrow> 120) in
                         Ipv6Address ipv6 prefix # (if v6_added then [Ipv6Route ipv6 prefix] else []))
                    | None \<Rightarrow> [])),
                tun1)))"

text \<open>\<open>is_expired\<close>: a handshake that is too old; a clock that went backwards does not count.\<close>

definition tunnel_expired :: "datetime \<Rightarrow> datetime option option \<Rightarrow> bool" where
  "tunnel_expired now stats =
     (case stats of
        Some (Some handshake) \<Rightarrow>
          (case to_std (now - handshake) of
             Some d \<Rightarrow> WG_TUNNEL_EXPIRY_SECS < as_secs d | None \<Rightarrow> False)
      | _ \<Rightarrow> False)"

definition readd_peers :: "'i wg_ops \<Rightarrow> string \<Rightarrow> (string, peer_config) hmap \<Rightarrow> 'i \<Rightarrow> 'i" where
  "readd_peers ops public_key known i =
     fold (\<lambda>(pk, config) i.
         if pk \<noteq> public_key then snd (wg_set_peer ops pk (pc_endpoint config) (pc_allowed_ips config) (Some 25) i)
         else i) known i"

definition tun_add_peer ::
  "'i wg_ops \<Rightarrow> datetime \<Rightarrow> string \<Rightarrow> socket_addr option \<Rightarrow> string list \<Rightarrow> 'i omni_tun \<Rightarrow>
     (string + unit) \<times> 'i omni_tun" where
  "tun_add_peer ops now public_key endpoint ips tun =
     (let i1 = (if tunnel_expired now (wg_last_handshake ops public_key (ot_interface tun))
                then readd_peers ops public_key (ot_known_peers tun) (wg_soft_shutdown ops (ot_interface tun))
                else ot_interface tun);
          known1 = hm_insert public_key \<lparr>pc_endpoint = endpoint, pc_allowed_ips = ips\<rparr> (ot_known_peers tun);
          (r, i2) = wg_set_peer ops public_key endpoint ips (Some 25) i1 in
      (case r of Inl e \<Rightarrow> Inl (''Set peer failed: '' @ e) | Inr _ \<Rightarrow> Inr (),
       tun\<lparr>ot_interface := i2, ot_known_peers := known1\<rparr>))"

definition soft_shutdown :: "'i wg_ops \<Rightarrow> 'i omni_tun \<Rightarrow> 'i omni_tun" where
  "soft_shutdown ops tun = tun\<lparr>ot_interface := wg_soft_shutdown ops (ot_interface tun)\<rparr>"

text \<open>The network of an IPv6 address, given by its eight segments.\<close>

definition network_segments :: "u16 list \<Rightarrow> nat \<Rightarrow> u16 list" where
  "network_segments segments prefix_len =
     (let full_segments = prefix_len div 16; remaining_bits = prefix_len mod 16 in
      map (\<lambda>i. if i < full_segments then segments ! i
               else if i = full_segments \<and> remaining_bits > 0
               then and (segments ! i) (not (push_bit (16 - remaining_bits) 1 - 1))
               else 0) [0..<8])"

definition ipv6_network_address ::
  "(string \<Rightarrow> u16 list option) \<Rightarrow> (u16 list \<Rightarrow> string) \<Rightarrow> string \<Rightarrow> nat \<Rightarrow> string" where
  "ipv6_network_address parse_v6 show_v6 ipv6 prefix_len =
     (case parse_v6 ipv6 of
        Some segments \<Rightarrow> show_v6 (network_segments segments prefix_len) | None \<Rightarrow> ipv6)"

section \<open>Properties\<close>

lemma known_peers_add [simp]:
  "ot_known_peers (snd (tun_add_peer ops now k ep ips tun))
   = hm_insert k \<lparr>pc_endpoint = ep, pc_allowed_ips = ips\<rparr> (ot_known_peers tun)"
  by (simp add: tun_add_peer_def Let_def split_beta)

text \<open>A call of \<open>add_peer\<close>, and a sequence of them.\<close>

record peer_call =
  cl_now :: datetime
  cl_key :: string
  cl_endpoint :: "socket_addr option"
  cl_ips :: "string list"

definition tun_call :: "'i wg_ops \<Rightarrow> peer_call \<Rightarrow> 'i omni_tun \<Rightarrow> 'i omni_tun" where
  "tun_call ops c tun = snd (tun_add_peer ops (cl_now c) (cl_key c) (cl_endpoint c) (cl_ips c) tun)"

lemma tun_call_interface:
  "ot_interface (tun_call ops c t) = snd (wg_set_peer ops (cl_key c) (cl_endpoint c) (cl_ips c) (Some 25)
     (if tunnel_expired (cl_now c) (wg_last_handshake ops (cl_key c) (ot_interface t))
      then readd_peers ops (cl_key c) (ot_known_peers t) (wg_soft_shutdown ops (ot_interface t))
      else ot_interface t))"
  by (simp add: tun_call_def tun_add_peer_def Let_def split_beta)

text \<open>The configuration the interface should have: for every key that of its last call.\<close>

definition last_config :: "peer_call list \<Rightarrow> string \<Rightarrow> peer_config option" where
  "last_config cs k =
     map_option (\<lambda>c. \<lparr>pc_endpoint = cl_endpoint c, pc_allowed_ips = cl_ips c\<rparr>)
       (List.find (\<lambda>c. cl_key c = k) (rev cs))"

lemma known_peers_calls:
  "hm_get (ot_known_peers (fold (tun_call ops) cs tun)) k =
     (case last_config cs k of Some c \<Rightarrow> Some c | None \<Rightarrow> hm_get (ot_known_peers tun) k)"
proof (induction cs rule: rev_induct)
  case (snoc c cs)
  then show ?case by (simp add: tun_call_def last_config_def)
qed (simp add: last_config_def)

lemma hm_wf_calls: "hm_wf (ot_known_peers tun) \<Longrightarrow> hm_wf (ot_known_peers (fold (tun_call ops) cs tun))"
  by (induction cs arbitrary: tun) (simp_all add: tun_call_def)

lemma readd_peers_content:
  assumes "\<And>k ep ips ka i. content (snd (wg_set_peer ops k ep ips ka i)) = (content i)(k \<mapsto> \<lparr>pc_endpoint = ep, pc_allowed_ips = ips\<rparr>)"
    and "hm_wf known"
  shows "content (readd_peers ops key known i) k =
    (case hm_get known k of
       Some c \<Rightarrow> if k = key then content i k else Some c | None \<Rightarrow> content i k)"
  using assms(2)
proof (induction known arbitrary: i)
  case (Cons x known)
  obtain pk c where x: "x = (pk, c)" by (cases x)
  have "hm_get known pk = None" using Cons.prems by (simp add: x hm_wf_def hm_get_def map_of_eq_None_iff)
  moreover have "readd_peers ops key (x # known) i = readd_peers ops key known
      (if pk \<noteq> key then snd (wg_set_peer ops pk (pc_endpoint c) (pc_allowed_ips c) (Some 25) i) else i)"
    by (simp add: readd_peers_def x)
  ultimately show ?case
    using Cons.IH Cons.prems by (auto simp: x hm_wf_def hm_get_def assms(1) split: option.split)
qed (simp add: readd_peers_def)

lemma tun_content:
  assumes "\<And>k ep ips ka i. content (snd (wg_set_peer ops k ep ips ka i)) = (content i)(k \<mapsto> \<lparr>pc_endpoint = ep, pc_allowed_ips = ips\<rparr>)"
    and "\<And>i. content (wg_soft_shutdown ops i) = (\<lambda>k. None)"
    and "ot_known_peers tun = []" and "content (ot_interface tun) = (\<lambda>k. None)"
  shows "content (ot_interface (fold (tun_call ops) cs tun)) = last_config cs"
proof (induction cs rule: rev_induct)
  case Nil
  show ?case by (simp add: assms(4) last_config_def fun_eq_iff)
next
  case (snoc c cs)
  let ?t = "fold (tun_call ops) cs tun"
  have known: "hm_get (ot_known_peers ?t) = last_config cs"
    using known_peers_calls [of ops cs tun] assms(3) by (auto simp: fun_eq_iff split: option.split)
  have wf: "hm_wf (ot_known_peers ?t)" using hm_wf_calls [of tun ops cs] assms(3) by simp
  have "content (readd_peers ops (cl_key c) (ot_known_peers ?t) (wg_soft_shutdown ops (ot_interface ?t))) k
      = (if k = cl_key c then None else last_config cs k)" for k
    using readd_peers_content [of content ops, OF assms(1) wf] by (simp add: assms(2) known split: option.split)
  then have "content (ot_interface (tun_call ops c ?t)) =
      (last_config cs)(cl_key c \<mapsto> \<lparr>pc_endpoint = cl_endpoint c, pc_allowed_ips = cl_ips c\<rparr>)"
    using snoc by (auto simp: tun_call_interface assms(1))
  also have "\<dots> = last_config (cs @ [c])" by (auto simp: last_config_def fun_eq_iff)
  finally show ?case by simp
qed

text \<open>
  Resetting a tunnel loses no peer. Relying on what the WireGuard interface promises of its operations
  (setting a peer stores it, clearing removes all), after any sequence of \<open>add_peer\<close> calls at any
  times, with any number of resets of expired tunnels among them, the interface holds for every key
  the endpoint and addresses of the last call for it, and nothing else.
\<close>

theorem tun_holds_last_config:
  assumes "\<And>k ep ips ka i. content (snd (wg_set_peer ops k ep ips ka i)) = (content i)(k \<mapsto> \<lparr>pc_endpoint = ep, pc_allowed_ips = ips\<rparr>)"
    and "\<And>i. content (wg_soft_shutdown ops i) = (\<lambda>k. None)"
    and "ot_known_peers tun = []" and "content (ot_interface tun) = (\<lambda>k. None)"
  shows "content (ot_interface (fold (tun_call ops) cs tun)) = last_config cs"
  using assms by (rule tun_content)

text \<open>
  The IPv6 network keeps the leading bits. Bit \<open>j\<close> of segment \<open>i\<close>, counted from the most significant,
  is that of the address when it is among the first \<open>prefix_len\<close> bits and zero otherwise, for every
  prefix length, also zero and beyond 128.
\<close>

theorem network_segments_bits:
  assumes "i < 8" "j < 16"
  shows "bit (network_segments segs prefix_len ! i) (15 - j)
    \<longleftrightarrow> 16 * i + j < prefix_len \<and> bit (segs ! i) (15 - j)"
proof -
  have mask: "bit (not (push_bit n 1 - 1) :: u16) k \<longleftrightarrow> n \<le> k" if "k < 16" for n k
    using that by (simp add: bit_not_iff mask_eq_exp_minus_1 [symmetric] bit_mask_iff push_bit_of_1 not_less)
  have seg: "network_segments segs prefix_len ! i =
      (if i < prefix_len div 16 then segs ! i
       else if i = prefix_len div 16 \<and> prefix_len mod 16 > 0
       then and (segs ! i) (not (push_bit (16 - prefix_len mod 16) 1 - 1)) else 0)"
    using assms(1) by (simp add: network_segments_def Let_def)
  consider "i < prefix_len div 16" | "i = prefix_len div 16" | "prefix_len div 16 < i" by linarith
  then show ?thesis
  proof cases
    case 1
    then have "16 * i + j < prefix_len" using assms(2) by linarith
    with 1 seg show ?thesis by simp
  next
    case 2
    then have "16 * i + j < prefix_len \<longleftrightarrow> j < prefix_len mod 16"
      by (metis add_less_cancel_left mult_div_mod_eq)
    with 2 seg assms(2) mask [of "15 - j" "16 - prefix_len mod 16"] show ?thesis
      by (auto simp: bit_and_iff)
  next
    case 3
    then have "\<not> 16 * i + j < prefix_len" by linarith
    with 3 seg show ?thesis by simp
  qed
qed

section \<open>Witnesses\<close>

text \<open>An interface that is just its table of peers, all of them with a handshake at time zero.\<close>

definition table_ops :: "(string \<Rightarrow> peer_config option) wg_ops" where
  "table_ops =
     \<lparr>wg_last_handshake = (\<lambda>k i. map_option (\<lambda>_. Some 0) (i k)),
      wg_set_peer = (\<lambda>k ep ips ka i. (Inr (), i(k \<mapsto> \<lparr>pc_endpoint = ep, pc_allowed_ips = ips\<rparr>))),
      wg_soft_shutdown = (\<lambda>i k. None), wg_setup = (\<lambda>vip v6 port pk mtu i. (Inr (), i))\<rparr>"

definition demo_calls :: "peer_call list" where
  "demo_calls =
     [\<lparr>cl_now = 0, cl_key = ''a'', cl_endpoint = None, cl_ips = [''10.0.0.2/32'']\<rparr>,
      \<lparr>cl_now = 0, cl_key = ''b'', cl_endpoint = None, cl_ips = [''10.0.0.3/32'']\<rparr>,
      \<lparr>cl_now = 301000000000, cl_key = ''b'', cl_endpoint = None, cl_ips = [''10.0.0.4/32'']\<rparr>]"

theorem tun_holds_last_config_witness:
  "tunnel_expired 301000000000 (Some (Some 0))
   \<and> ot_interface (fold (tun_call table_ops) demo_calls (new_userspace (\<lambda>_ k. None) ''omni0'')) ''a''
     = Some \<lparr>pc_endpoint = None, pc_allowed_ips = [''10.0.0.2/32'']\<rparr>"
proof
  have "ot_interface (fold (tun_call table_ops) demo_calls (new_userspace (\<lambda>_ k. None) ''omni0''))
      = last_config demo_calls"
    by (rule tun_holds_last_config [where content = "\<lambda>i. i"]) (simp_all add: table_ops_def new_userspace_def)
  then show "ot_interface (fold (tun_call table_ops) demo_calls (new_userspace (\<lambda>_ k. None) ''omni0'')) ''a''
      = Some \<lparr>pc_endpoint = None, pc_allowed_ips = [''10.0.0.2/32'']\<rparr>"
    by (simp add: last_config_def demo_calls_def)
qed (simp add: tunnel_expired_def to_std_def as_secs_def WG_TUNNEL_EXPIRY_SECS_def)

theorem network_segments_bits_witness:
  "bit (network_segments [0xFD00, 1, 2, 3, 4, 5, 6, 0xABCD] 120 ! 7) (15 - 7) \<longleftrightarrow>
     16 * 7 + 7 < (120 :: nat) \<and> bit ([0xFD00, 1, 2, 3, 4, 5, 6, 0xABCD :: u16] ! 7) (15 - 7)"
  by (rule network_segments_bits) simp_all

end
