(* ===== verification/Plugin_Registry.thy ===== *)
theory Plugin_Registry
  imports Machines Paths
begin

text \<open>
  \<open>crates/omni-plugin/src/{types,error,manifest,registry}.rs\<close>: what a plugin declares about itself, the
  validation of its manifest, and the registry of plugins with its index by capability and the part of
  its state that is kept on disk. The locks of the registry are never held across calls, so that every
  operation is atomic; a poisoned lock needs a panic inside one of these operations, which have none.
  The file system (\<open>std::fs\<close>), the JSON codec and the tables of Unicode are parameters.
\<close>

section \<open>Manifests\<close>

datatype capability =
  EventHooks | Authentication | NetworkPolicy | DataTriage | QosEnforcement | PdmReporting | Compliance | UiWidgets

fun show_capability :: "capability \<Rightarrow> string" where
  "show_capability EventHooks = ''event-hooks''"
| "show_capability Authentication = ''authentication''"
| "show_capability NetworkPolicy = ''network-policy''"
| "show_capability DataTriage = ''data-triage''"
| "show_capability QosEnforcement = ''qos-enforcement''"
| "show_capability PdmReporting = ''pdm-reporting''"
| "show_capability Compliance = ''compliance''"
| "show_capability UiWidgets = ''ui-widgets''"

datatype platform = Windows | MacOS | Linux | Android | IOS

record entry_points =
  ep_wasm :: "string option"
  ep_widget :: "string option"
  ep_widget_entry :: "string option"

record plugin_dependency =
  pd_id :: string
  pd_version :: string
  pd_optional :: bool

record 'j plugin_manifest =
  mn_id :: string
  mn_name :: string
  mn_version :: string
  mn_author :: string
  mn_description :: string
  mn_homepage :: "string option"
  mn_license :: "string option"
  mn_capabilities :: "capability list"
  mn_min_omniedge_version :: string
  mn_max_omniedge_version :: "string option"
  mn_platforms :: "platform list"
  mn_config_schema :: "'j option"
  mn_default_config :: "(string, 'j) hmap"
  mn_entry_points :: entry_points
  mn_icon :: "string option"
  mn_tags :: "string list"
  mn_dependencies :: "plugin_dependency list"

datatype manifest_validation_error =
  MissingField string | InvalidVersion string | InvalidId string | NoCapabilities

datatype plugin_error =
    NotFound string
  | AlreadyLoaded string
  | InvalidManifest string
  | CompilationError string
  | InstantiationError string
  | ExecutionError string
  | Timeout u64
  | MemoryLimitExceeded u64 u64
  | InvalidCapability string
  | MissingCapability string
  | SignatureError string
  | SignatureRequired
  | HashMismatch string string
  | IoError string
  | JsonError string
  | WasmtimeError string
  | HostFunctionError string
  | LifecycleError string
  | ConfigError string
  | VersionIncompatible string string
  | PlatformNotSupported string
  | Internal string

fun show_manifest_error :: "manifest_validation_error \<Rightarrow> string" where
  "show_manifest_error (MissingField f) = ''Missing required field: '' @ f"
| "show_manifest_error (InvalidVersion v) = ''Invalid version format: '' @ v"
| "show_manifest_error (InvalidId i) = ''Invalid plugin ID format: '' @ i"
| "show_manifest_error NoCapabilities = ''Plugin must declare at least one capability''"

fun show_plugin_error :: "plugin_error \<Rightarrow> string" where
  "show_plugin_error (NotFound s) = ''Plugin not found: '' @ s"
| "show_plugin_error (AlreadyLoaded s) = ''Plugin already loaded: '' @ s"
| "show_plugin_error (InvalidManifest s) = ''Invalid plugin manifest: '' @ s"
| "show_plugin_error (CompilationError s) = ''WASM compilation error: '' @ s"
| "show_plugin_error (InstantiationError s) = ''WASM instantiation error: '' @ s"
| "show_plugin_error (ExecutionError s) = ''Plugin execution error: '' @ s"
| "show_plugin_error (Timeout ms) = ''Plugin execution timeout after '' @ show_nat (unat ms) @ ''ms''"
| "show_plugin_error (MemoryLimitExceeded used limit) =
     ''Memory limit exceeded: '' @ show_nat (unat used) @ '' bytes > '' @ show_nat (unat limit) @ '' bytes''"
| "show_plugin_error (InvalidCapability s) = ''Invalid capability: '' @ s"
| "show_plugin_error (MissingCapability s) = ''Missing required capability: '' @ s"
| "show_plugin_error (SignatureError s) = ''Signature verification failed: '' @ s"
| "show_plugin_error SignatureRequired = ''Plugin signature required but not present''"
| "show_plugin_error (HashMismatch expected actual) =
     ''Hash verification failed: expected '' @ expected @ '', got '' @ actual"
| "show_plugin_error (IoError s) = ''IO error: '' @ s"
| "show_plugin_error (JsonError s) = ''JSON error: '' @ s"
| "show_plugin_error (WasmtimeError s) = ''Wasmtime error: '' @ s"
| "show_plugin_error (HostFunctionError s) = ''Host function error: '' @ s"
| "show_plugin_error (LifecycleError s) = ''Lifecycle error: '' @ s"
| "show_plugin_error (ConfigError s) = ''Configuration error: '' @ s"
| "show_plugin_error (VersionIncompatible required client) =
     ''Version incompatibility: plugin requires '' @ required @ '', client is '' @ client"
| "show_plugin_error (PlatformNotSupported s) = ''Platform not supported: '' @ s"
| "show_plugin_error (Internal s) = ''Internal error: '' @ s"

text \<open>
  \<open>str::chars\<close>: a character is a byte with the continuation bytes that follow it. The properties of
  characters outside ASCII come from the tables of Unicode.
\<close>

function str_chars :: "string \<Rightarrow> string list" where
  "str_chars [] = []"
| "str_chars (c # cs) =
     (c # takeWhile (\<lambda>x. utf8_cont (of_char x)) cs) # str_chars (dropWhile (\<lambda>x. utf8_cont (of_char x)) cs)"
  by pat_completeness auto
termination
  by (relation "measure length") (auto simp: length_dropWhile_le le_imp_less_Suc)

record unicode =
  uc_alphanumeric :: "string \<Rightarrow> bool"
  uc_lowercase :: "string \<Rightarrow> string"

definition ascii_alphanumeric :: "char \<Rightarrow> bool" where
  "ascii_alphanumeric c = (let n = of_char c :: nat in
     48 \<le> n \<and> n \<le> 57 \<or> 65 \<le> n \<and> n \<le> 90 \<or> 97 \<le> n \<and> n \<le> 122)"

definition is_ascii :: "string \<Rightarrow> bool" where
  "is_ascii ch = (case ch of [c] \<Rightarrow> (of_char c :: nat) < 128 | _ \<Rightarrow> False)"

definition is_alphanumeric :: "unicode \<Rightarrow> string \<Rightarrow> bool" where
  "is_alphanumeric uc ch = (if is_ascii ch then ascii_alphanumeric (hd ch) else uc_alphanumeric uc ch)"

definition is_valid_semver :: "string \<Rightarrow> bool" where
  "is_valid_semver version =
     (let parts = split_on (CHR ''.'') version in
      2 \<le> length parts \<and> length parts \<le> 3 \<and>
      list_all (\<lambda>p. parse_uint 32 (hd (split_on (CHR ''-'') p)) \<noteq> None) parts)"

definition is_valid_plugin_id :: "unicode \<Rightarrow> string \<Rightarrow> bool" where
  "is_valid_plugin_id uc i =
     (if i = [] \<or> 128 < length i then False
      else let parts = split_on (CHR ''.'') i in
        2 \<le> length parts \<and>
        list_all (\<lambda>p. p \<noteq> [] \<and>
          list_all (\<lambda>ch. is_alphanumeric uc ch \<or> ch = ''-'' \<or> ch = ''_'') (str_chars p)) parts)"

definition manifest_new :: "string \<Rightarrow> string \<Rightarrow> string \<Rightarrow> 'j plugin_manifest" where
  "manifest_new i name version =
     \<lparr>mn_id = i, mn_name = name, mn_version = version, mn_author = [], mn_description = [],
      mn_homepage = None, mn_license = None, mn_capabilities = [], mn_min_omniedge_version = ''0.1.0'',
      mn_max_omniedge_version = None, mn_platforms = [], mn_config_schema = None, mn_default_config = [],
      mn_entry_points = \<lparr>ep_wasm = None, ep_widget = None, ep_widget_entry = None\<rparr>, mn_icon = None,
      mn_tags = [], mn_dependencies = []\<rparr>"

definition validate :: "unicode \<Rightarrow> 'j plugin_manifest \<Rightarrow> manifest_validation_error + unit" where
  "validate uc m =
     (if mn_id m = [] then Inl (MissingField ''id'')
      else if mn_name m = [] then Inl (MissingField ''name'')
      else if mn_version m = [] then Inl (MissingField ''version'')
      else if \<not> is_valid_semver (mn_version m) then Inl (InvalidVersion (mn_version m))
      else if \<not> is_valid_plugin_id uc (mn_id m) then Inl (InvalidId (mn_id m))
      else if mn_capabilities m = [] then Inl NoCapabilities
      else Inr ())"

definition supports_platform :: "'j plugin_manifest \<Rightarrow> platform \<Rightarrow> bool" where
  "supports_platform m p = (mn_platforms m = [] \<or> p \<in> set (mn_platforms m))"

definition manifest_has_capability :: "'j plugin_manifest \<Rightarrow> capability \<Rightarrow> bool" where
  "manifest_has_capability m c = (c \<in> set (mn_capabilities m))"

definition lowercase_char :: "unicode \<Rightarrow> string \<Rightarrow> string" where
  "lowercase_char uc ch = (if is_ascii ch then map to_lower_char ch else uc_lowercase uc ch)"

definition slug :: "unicode \<Rightarrow> 'j plugin_manifest \<Rightarrow> string" where
  "slug uc m =
     concat (map (lowercase_char uc)
       (str_chars (map (\<lambda>c. if c = CHR ''.'' \<or> c = CHR ''_'' then CHR ''-'' else c) (mn_id m))))"

section \<open>Packages, entries and the registry\<close>

datatype signature_algorithm = Ed25519

record plugin_signature =
  sg_public_key :: string
  sg_signature :: string
  sg_algorithm :: signature_algorithm

record 'j plugin_package =
  pp_manifest :: "'j plugin_manifest"
  pp_path :: path
  pp_wasm_path :: path
  pp_wasm_hash :: string
  pp_signature :: "plugin_signature option"

datatype plugin_state = Discovered | Loading | Loaded | Running | Stopped | Error | Disabled

fun show_plugin_state :: "plugin_state \<Rightarrow> string" where
  "show_plugin_state Discovered = ''discovered''"
| "show_plugin_state Loading = ''loading''"
| "show_plugin_state Loaded = ''loaded''"
| "show_plugin_state Running = ''running''"
| "show_plugin_state Stopped = ''stopped''"
| "show_plugin_state Error = ''error''"
| "show_plugin_state Disabled = ''disabled''"

record 'j registry_entry =
  re_manifest :: "'j plugin_manifest"
  re_path :: path
  re_wasm_path :: path
  re_state :: plugin_state
  re_wasm_hash :: string
  re_last_error :: "string option"
  re_enabled :: bool
  re_config :: "(string, 'j) hmap"
  re_loaded_at :: "u64 option"

record 'j plugin_state_entry =
  se_enabled :: bool
  se_config :: "(string, 'j) hmap"

type_synonym 'j registry_state = "(string, 'j plugin_state_entry) hmap"

record 'j registry =
  rg_plugins :: "(string, 'j registry_entry) hmap"
  rg_index :: "(capability, string list) hmap"
  rg_state_file :: path

text \<open>\<open>std::fs\<close> on a disk \<open>'d\<close>, and \<open>serde_json\<close> for the state file.\<close>

record 'd disk_ops =
  dk_exists :: "path \<Rightarrow> 'd \<Rightarrow> bool"
  dk_is_dir :: "path \<Rightarrow> 'd \<Rightarrow> bool"
  dk_read :: "path \<Rightarrow> 'd \<Rightarrow> string + string"
  dk_read_to_string :: "path \<Rightarrow> 'd \<Rightarrow> string + string"
  dk_read_dir :: "path \<Rightarrow> 'd \<Rightarrow> string + path list"
  dk_create_dir_all :: "path \<Rightarrow> 'd \<Rightarrow> (string + unit) \<times> 'd"
  dk_write :: "path \<Rightarrow> string \<Rightarrow> 'd \<Rightarrow> (string + unit) \<times> 'd"
  dk_remove_dir_all :: "path \<Rightarrow> 'd \<Rightarrow> (string + unit) \<times> 'd"

record 'j state_codec =
  sc_parse :: "string \<Rightarrow> string + 'j registry_state"
  sc_print :: "'j registry_state \<Rightarrow> string + string"

definition from_package :: "'j plugin_package \<Rightarrow> 'j registry_entry" where
  "from_package p =
     \<lparr>re_manifest = pp_manifest p, re_path = pp_path p, re_wasm_path = pp_wasm_path p, re_state = Discovered,
      re_wasm_hash = pp_wasm_hash p, re_last_error = None, re_enabled = True,
      re_config = mn_default_config (pp_manifest p), re_loaded_at = None\<rparr>"

definition entry_has_capability :: "'j registry_entry \<Rightarrow> capability \<Rightarrow> bool" where
  "entry_has_capability e c = manifest_has_capability (re_manifest e) c"

definition is_active :: "'j registry_entry \<Rightarrow> bool" where
  "is_active e = (re_state e \<in> {Loaded, Running})"

definition registry_new :: "path \<Rightarrow> 'j registry" where
  "registry_new state_file = \<lparr>rg_plugins = [], rg_index = [], rg_state_file = state_file\<rparr>"

definition restore_entry ::
  "string \<times> 'j plugin_state_entry \<Rightarrow> (string, 'j registry_entry) hmap \<Rightarrow> (string, 'j registry_entry) hmap" where
  "restore_entry st plugins =
     (case st of (i, s) \<Rightarrow>
        (case hm_get plugins i of
           Some e \<Rightarrow> hm_insert i (e\<lparr>re_enabled := se_enabled s, re_config := se_config s\<rparr>) plugins
         | None \<Rightarrow> plugins))"

definition load_state ::
  "'d disk_ops \<Rightarrow> 'j state_codec \<Rightarrow> 'd \<Rightarrow> 'j registry \<Rightarrow> (plugin_error + unit) \<times> 'j registry" where
  "load_state dk sc d reg =
     (if \<not> dk_exists dk (rg_state_file reg) d then (Inr (), reg)
      else case dk_read_to_string dk (rg_state_file reg) d of
        Inl e \<Rightarrow> (Inl (IoError e), reg)
      | Inr content \<Rightarrow>
          (case sc_parse sc content of
             Inl e \<Rightarrow> (Inl (ConfigError e), reg)
           | Inr state \<Rightarrow> (Inr (), reg\<lparr>rg_plugins := fold restore_entry state (rg_plugins reg)\<rparr>)))"

definition saved_entry :: "'j registry_entry \<Rightarrow> 'j plugin_state_entry" where
  "saved_entry e = \<lparr>se_enabled = re_enabled e, se_config = re_config e\<rparr>"

definition saved_state :: "(string, 'j registry_entry) hmap \<Rightarrow> 'j registry_state" where
  "saved_state plugins = fold (\<lambda>(i, e). hm_insert i (saved_entry e)) plugins []"

definition save_state ::
  "'d disk_ops \<Rightarrow> 'j state_codec \<Rightarrow> 'd \<Rightarrow> 'j registry \<Rightarrow> (plugin_error + unit) \<times> 'd" where
  "save_state dk sc d reg =
     (let (r, d1) = (case path_parent (rg_state_file reg) of
                       Some parent \<Rightarrow> dk_create_dir_all dk parent d
                     | None \<Rightarrow> (Inr (), d)) in
      case r of
        Inl e \<Rightarrow> (Inl (IoError e), d1)
      | Inr _ \<Rightarrow>
          (case sc_print sc (saved_state (rg_plugins reg)) of
             Inl e \<Rightarrow> (Inl (ConfigError e), d1)
           | Inr content \<Rightarrow>
               (case dk_write dk (rg_state_file reg) content d1 of
                  (Inl e, d2) \<Rightarrow> (Inl (IoError e), d2)
                | (Inr _, d2) \<Rightarrow> (Inr (), d2))))"

definition ids_of :: "(capability, string list) hmap \<Rightarrow> capability \<Rightarrow> string list" where
  "ids_of ix c = (case hm_get ix c of Some ids \<Rightarrow> ids | None \<Rightarrow> [])"

definition index_add :: "string \<Rightarrow> capability \<Rightarrow> (capability, string list) hmap \<Rightarrow> (capability, string list) hmap" where
  "index_add i c ix = hm_insert c (ids_of ix c @ [i]) ix"

definition index_remove :: "string \<Rightarrow> capability \<Rightarrow> (capability, string list) hmap \<Rightarrow> (capability, string list) hmap" where
  "index_remove i c ix =
     (case hm_get ix c of Some ids \<Rightarrow> hm_insert c (filter (\<lambda>j. j \<noteq> i) ids) ix | None \<Rightarrow> ix)"

text \<open>
  The plugin table and the index by capability have a lock each. \<open>register\<close> takes them one after the other, and so
  does \<open>get_by_capability\<close>; here each is one step, and what a reader sees between the two is left out.
\<close>

definition register :: "'j plugin_package \<Rightarrow> 'j registry \<Rightarrow> (plugin_error + unit) \<times> 'j registry" where
  "register package reg =
     (let entry = from_package package; i = mn_id (re_manifest entry) in
      (Inr (), reg\<lparr>rg_plugins := hm_insert i entry (rg_plugins reg),
                   rg_index := fold (index_add i) (mn_capabilities (re_manifest entry)) (rg_index reg)\<rparr>))"

definition unregister :: "string \<Rightarrow> 'j registry \<Rightarrow> (plugin_error + unit) \<times> 'j registry" where
  "unregister i reg =
     (case hm_get (rg_plugins reg) i of
        None \<Rightarrow> (Inl (NotFound i), reg)
      | Some entry \<Rightarrow>
          (Inr (), reg\<lparr>rg_plugins := hm_remove i (rg_plugins reg),
                       rg_index := fold (index_remove i) (mn_capabilities (re_manifest entry)) (rg_index reg)\<rparr>))"

definition get_entry :: "'j registry \<Rightarrow> string \<Rightarrow> 'j registry_entry option" where
  "get_entry reg i = hm_get (rg_plugins reg) i"

definition list_all_entries :: "'j registry \<Rightarrow> 'j registry_entry list" where
  "list_all_entries reg = hm_values (rg_plugins reg)"

definition get_by_capability :: "'j registry \<Rightarrow> capability \<Rightarrow> 'j registry_entry list" where
  "get_by_capability reg c =
     filter re_enabled (List.map_filter (hm_get (rg_plugins reg)) (ids_of (rg_index reg) c))"

definition get_enabled :: "'j registry \<Rightarrow> 'j registry_entry list" where
  "get_enabled reg = filter re_enabled (hm_values (rg_plugins reg))"

definition get_by_state :: "'j registry \<Rightarrow> plugin_state \<Rightarrow> 'j registry_entry list" where
  "get_by_state reg st = filter (\<lambda>e. re_state e = st) (hm_values (rg_plugins reg))"

text \<open>\<open>plugins.get_mut\<close>, with the error of all the setters.\<close>

definition with_entry ::
  "string \<Rightarrow> ('j registry_entry \<Rightarrow> 'j registry_entry) \<Rightarrow> 'j registry \<Rightarrow> (plugin_error + unit) \<times> 'j registry" where
  "with_entry i f reg =
     (case hm_get (rg_plugins reg) i of
        Some e \<Rightarrow> (Inr (), reg\<lparr>rg_plugins := hm_insert i (f e) (rg_plugins reg)\<rparr>)
      | None \<Rightarrow> (Inl (NotFound i), reg))"

definition entry_set_state :: "u64 \<Rightarrow> plugin_state \<Rightarrow> 'j registry_entry \<Rightarrow> 'j registry_entry" where
  "entry_set_state now st e =
     (let e1 = e\<lparr>re_state := st\<rparr>;
          e2 = (if st = Loaded \<or> st = Running then e1\<lparr>re_loaded_at := Some now\<rparr> else e1) in
      if st \<noteq> Error then e2\<lparr>re_last_error := None\<rparr> else e2)"

definition set_state ::
  "u64 \<Rightarrow> string \<Rightarrow> plugin_state \<Rightarrow> 'j registry \<Rightarrow> (plugin_error + unit) \<times> 'j registry" where
  "set_state now i st reg = with_entry i (entry_set_state now st) reg"

definition set_error :: "string \<Rightarrow> string \<Rightarrow> 'j registry \<Rightarrow> (plugin_error + unit) \<times> 'j registry" where
  "set_error i err reg = with_entry i (\<lambda>e. e\<lparr>re_state := Error, re_last_error := Some err\<rparr>) reg"

definition enable :: "string \<Rightarrow> 'j registry \<Rightarrow> (plugin_error + unit) \<times> 'j registry" where
  "enable i reg =
     with_entry i (\<lambda>e. let e1 = e\<lparr>re_enabled := True\<rparr> in
                       if re_state e1 = Disabled then e1\<lparr>re_state := Discovered\<rparr> else e1) reg"

definition disable :: "string \<Rightarrow> 'j registry \<Rightarrow> (plugin_error + unit) \<times> 'j registry" where
  "disable i reg = with_entry i (\<lambda>e. e\<lparr>re_enabled := False, re_state := Disabled\<rparr>) reg"

definition set_config :: "string \<Rightarrow> (string, 'j) hmap \<Rightarrow> 'j registry \<Rightarrow> (plugin_error + unit) \<times> 'j registry" where
  "set_config i config reg = with_entry i (\<lambda>e. e\<lparr>re_config := config\<rparr>) reg"

definition get_config :: "'j registry \<Rightarrow> string \<Rightarrow> (string, 'j) hmap option" where
  "get_config reg i = map_option re_config (hm_get (rg_plugins reg) i)"

definition registry_count :: "'j registry \<Rightarrow> nat" where
  "registry_count reg = hm_len (rg_plugins reg)"

definition enabled_count :: "'j registry \<Rightarrow> nat" where
  "enabled_count reg = length (filter re_enabled (hm_values (rg_plugins reg)))"

section \<open>Manifest validation\<close>

lemma concat_str_chars [simp]: "concat (str_chars s) = s"
  by (induction s rule: str_chars.induct) simp_all

lemma set_str_chars: "c \<in> set s \<longleftrightarrow> (\<exists>ch \<in> set (str_chars s). c \<in> set ch)"
proof -
  have "set s = set (concat (str_chars s))" by simp
  also have "\<dots> = (\<Union>ch \<in> set (str_chars s). set ch)" by (rule set_concat)
  finally show ?thesis by blast
qed

lemma validate_ok: "validate uc m = Inr () \<longleftrightarrow>
    mn_id m \<noteq> [] \<and> mn_name m \<noteq> [] \<and> mn_version m \<noteq> [] \<and> is_valid_semver (mn_version m)
    \<and> is_valid_plugin_id uc (mn_id m) \<and> mn_capabilities m \<noteq> []"
  by (simp add: validate_def)

lemma str_chars_ne [simp]: "[] \<notin> set (str_chars s)"
  by (induction s rule: str_chars.induct) simp_all

lemma is_ascii_cases: "is_ascii ch \<Longrightarrow> \<exists>c. ch = [c] \<and> (of_char c :: nat) < 128"
  by (cases ch rule: list.exhaust; cases "tl ch" rule: list.exhaust) (auto simp: is_ascii_def)

lemma set_join_with: "set (join_with sep ps) \<subseteq> set sep \<union> \<Union> (set (map set ps))"
  by (induction sep ps rule: join_with.induct) auto

lemma valid_id_char:
  assumes "is_valid_plugin_id uc i" and "\<And>ch c. uc_alphanumeric uc ch \<Longrightarrow> c \<in> set ch \<Longrightarrow> 128 \<le> (of_char c :: nat)"
    and "c \<in> set i"
  shows "ascii_alphanumeric c \<or> c \<in> {CHR ''.'', CHR ''-'', CHR ''_''} \<or> 128 \<le> (of_char c :: nat)"
proof (cases "c = CHR ''.''")
  case False
  have "set i \<subseteq> {CHR ''.''} \<union> \<Union> (set (map set (split_on (CHR ''.'') i)))"
    using set_join_with [of "''.''" "split_on (CHR ''.'') i"] by simp
  with assms(3) False obtain p where p: "p \<in> set (split_on (CHR ''.'') i)" "c \<in> set p" by auto
  then obtain ch where ch: "ch \<in> set (str_chars p)" "c \<in> set ch" using set_str_chars [of c p] by blast
  with assms(1) p(1) have "is_alphanumeric uc ch \<or> ch = ''-'' \<or> ch = ''_''"
    by (auto simp: is_valid_plugin_id_def Let_def list_all_iff split: if_splits)
  with ch(2) assms(2) [of ch c] show ?thesis
    by (auto simp: is_alphanumeric_def dest!: is_ascii_cases split: if_splits)
qed simp

lemma to_lower_char_eq: "to_lower_char c = d \<Longrightarrow> \<not> (97 \<le> (of_char d :: nat) \<and> (of_char d :: nat) \<le> 122) \<Longrightarrow> c = d"
  by (auto simp: to_lower_char_def Let_def split: if_splits)

lemma slug_char:
  assumes "d \<in> set (slug uc m)" and "(of_char d :: nat) < 97"
    and "\<And>ch. \<not> is_ascii ch \<Longrightarrow> d \<notin> set (uc_lowercase uc ch)"
  shows "d = CHR ''-'' \<or> d \<in> set (mn_id m) \<and> d \<noteq> CHR ''.''"
proof -
  let ?i = "map (\<lambda>c. if c = CHR ''.'' \<or> c = CHR ''_'' then CHR ''-'' else c) (mn_id m)"
  from assms(1) obtain ch where ch: "ch \<in> set (str_chars ?i)" "d \<in> set (lowercase_char uc ch)"
    by (auto simp: slug_def)
  with assms(3) [of ch] have "is_ascii ch" by (auto simp: lowercase_char_def split: if_splits)
  then obtain c where "ch = [c]" by (blast dest: is_ascii_cases)
  with ch(2) \<open>is_ascii ch\<close> have "to_lower_char c = d" by (simp add: lowercase_char_def)
  then have "c = d" using assms(2) to_lower_char_eq [of c d] by linarith
  with \<open>ch = [c]\<close> ch(1) have "\<exists>ch \<in> set (str_chars ?i). d \<in> set ch" by force
  then have "d \<in> set ?i" using set_str_chars [of d ?i] by blast
  from this [unfolded set_map] obtain c' where
    "d = (if c' = CHR ''.'' \<or> c' = CHR ''_'' then CHR ''-'' else c')" "c' \<in> set (mn_id m)" by (rule imageE)
  then show ?thesis by (simp split: if_splits)
qed

text \<open>
  Every accepted plugin gets a directory of its own name. The name derived from the identifier of a
  manifest that passes validation contains neither a slash nor a dot, so that joining it to the
  directory of plugins cannot lead elsewhere. Of Unicode this uses that a character outside ASCII is
  encoded without ASCII bytes and never becomes a slash or a dot in lower case.
\<close>

theorem slug_confined:
  assumes "validate uc m = Inr ()"
    and "\<And>ch c. uc_alphanumeric uc ch \<Longrightarrow> c \<in> set ch \<Longrightarrow> 128 \<le> (of_char c :: nat)"
    and "\<And>ch c. \<not> is_ascii ch \<Longrightarrow> c \<in> set (uc_lowercase uc ch) \<Longrightarrow> c \<noteq> CHR ''/'' \<and> c \<noteq> CHR ''.''"
  shows "CHR ''/'' \<notin> set (slug uc m) \<and> CHR ''.'' \<notin> set (slug uc m)"
proof (intro conjI)
  have v: "is_valid_plugin_id uc (mn_id m)" using assms(1) by (simp add: validate_ok)
  show "CHR ''.'' \<notin> set (slug uc m)"
    using slug_char [of "CHR ''.''" uc m] assms(3) [of _ "CHR ''.''"] by auto
  show "CHR ''/'' \<notin> set (slug uc m)"
  proof
    assume "CHR ''/'' \<in> set (slug uc m)"
    with slug_char [of "CHR ''/''" uc m] assms(3) [of _ "CHR ''/''"] have "CHR ''/'' \<in> set (mn_id m)" by auto
    from valid_id_char [OF v assms(2) this] show False by (simp add: ascii_alphanumeric_def)
  qed
qed

section \<open>The index by capability\<close>

lemma ids_of_insert [simp]: "ids_of (hm_insert c ids ix) c' = (if c' = c then ids else ids_of ix c')"
  by (simp add: ids_of_def)

lemma index_add_ids [simp]:
  "ids_of (index_add i c ix) c' = (if c' = c then ids_of ix c @ [i] else ids_of ix c')"
  by (simp add: index_add_def)

lemma index_remove_ids [simp]:
  "ids_of (index_remove i c ix) c' = (if c' = c then filter (\<lambda>j. j \<noteq> i) (ids_of ix c) else ids_of ix c')"
  by (auto simp: index_remove_def ids_of_def split: option.split)

lemma set_index_adds [simp]:
  "set (ids_of (fold (index_add i) cs ix) c) = set (ids_of ix c) \<union> (if c \<in> set cs then {i} else {})"
  by (induction cs arbitrary: ix) auto

lemma set_index_removes [simp]:
  "set (ids_of (fold (index_remove i) cs ix) c) = set (ids_of ix c) - (if c \<in> set cs then {i} else {})"
  by (induction cs arbitrary: ix) auto

text \<open>The operations of the registry as a machine; \<open>load_state\<close> reads a disk.\<close>

datatype ('d, 'j) reg_op =
    Register "'j plugin_package"
  | Unregister string
  | SetState u64 string plugin_state
  | SetError string string
  | Enable string
  | Disable string
  | SetConfig string "(string, 'j) hmap"
  | LoadState 'd

definition one :: "'e \<times> 's \<Rightarrow> 'e list \<times> 's" where
  "one r = ([fst r], snd r)"

fun reg_step ::
  "'d disk_ops \<Rightarrow> 'j state_codec \<Rightarrow> ('d, 'j) reg_op \<Rightarrow> 'j registry \<Rightarrow> (plugin_error + unit) list \<times> 'j registry" where
  "reg_step dk sc (Register p) reg = one (register p reg)"
| "reg_step dk sc (Unregister i) reg = one (unregister i reg)"
| "reg_step dk sc (SetState now i st) reg = one (set_state now i st reg)"
| "reg_step dk sc (SetError i e) reg = one (set_error i e reg)"
| "reg_step dk sc (Enable i) reg = one (enable i reg)"
| "reg_step dk sc (Disable i) reg = one (disable i reg)"
| "reg_step dk sc (SetConfig i cfg) reg = one (set_config i cfg reg)"
| "reg_step dk sc (LoadState d) reg = one (load_state dk sc d reg)"

abbreviation entry_id :: "'j registry_entry \<Rightarrow> string" where
  "entry_id e \<equiv> mn_id (re_manifest e)"

abbreviation package_id :: "'j plugin_package \<Rightarrow> string" where
  "package_id p \<equiv> mn_id (pp_manifest p)"

text \<open>
  Two parts of the invariant. Whatever packages are registered, a plugin stands under its identifier and
  in the index under each of its capabilities; when no plugin changes its capabilities, the index
  holds nothing else.
\<close>

definition reg_ok :: "'j registry \<Rightarrow> bool" where
  "reg_ok reg \<longleftrightarrow> hm_wf (rg_plugins reg) \<and>
     (\<forall>i e. hm_get (rg_plugins reg) i = Some e \<longrightarrow>
        entry_id e = i \<and> (\<forall>c \<in> set (mn_capabilities (re_manifest e)). i \<in> set (ids_of (rg_index reg) c)))"

definition index_exact :: "(string \<Rightarrow> capability set) \<Rightarrow> 'j registry \<Rightarrow> bool" where
  "index_exact caps reg \<longleftrightarrow>
     (\<forall>i e. hm_get (rg_plugins reg) i = Some e \<longrightarrow> set (mn_capabilities (re_manifest e)) = caps i) \<and>
     (\<forall>i c. i \<in> set (ids_of (rg_index reg) c) \<longleftrightarrow> hm_get (rg_plugins reg) i \<noteq> None \<and> c \<in> caps i)"

text \<open>What the setters and the restoring of saved states have in common: no manifest and no key changes.\<close>

definition same_manifests :: "(string, 'j registry_entry) hmap \<Rightarrow> (string, 'j registry_entry) hmap \<Rightarrow> bool" where
  "same_manifests m m' \<longleftrightarrow> (hm_wf m \<longrightarrow> hm_wf m') \<and>
     (\<forall>i. map_option re_manifest (hm_get m' i) = map_option re_manifest (hm_get m i))"

lemma same_manifests_refl [simp]: "same_manifests m m"
  by (simp add: same_manifests_def)

lemma same_manifests_trans: "same_manifests a b \<Longrightarrow> same_manifests b c \<Longrightarrow> same_manifests a c"
  by (simp add: same_manifests_def)

lemma same_manifests_ok:
  assumes "same_manifests (rg_plugins reg) m"
  shows "reg_ok reg \<Longrightarrow> reg_ok (reg\<lparr>rg_plugins := m\<rparr>)"
    and "index_exact caps reg \<Longrightarrow> index_exact caps (reg\<lparr>rg_plugins := m\<rparr>)"
proof -
  have old: "\<exists>e. hm_get (rg_plugins reg) i = Some e \<and> re_manifest e' = re_manifest e" if "hm_get m i = Some e'" for i e'
    using assms that unfolding same_manifests_def by (metis (no_types, lifting) map_option_eq_Some option.simps(9))
  have dom: "hm_get m i = None \<longleftrightarrow> hm_get (rg_plugins reg) i = None" for i
    using assms unfolding same_manifests_def by (metis option.map_disc_iff)
  show "reg_ok reg \<Longrightarrow> reg_ok (reg\<lparr>rg_plugins := m\<rparr>)"
    using assms unfolding reg_ok_def same_manifests_def by (auto dest!: old)
  show "index_exact caps reg \<Longrightarrow> index_exact caps (reg\<lparr>rg_plugins := m\<rparr>)"
    unfolding index_exact_def by (auto simp: dom dest!: old)
qed

lemma with_entry_same:
  assumes "\<And>e. re_manifest (f e) = re_manifest e"
  shows "\<exists>m. snd (with_entry i f reg) = reg\<lparr>rg_plugins := m\<rparr> \<and> same_manifests (rg_plugins reg) m"
proof (cases "hm_get (rg_plugins reg) i")
  case None
  then show ?thesis by (auto simp: with_entry_def intro!: exI [of _ "rg_plugins reg"])
next
  case (Some e)
  then have "same_manifests (rg_plugins reg) (hm_insert i (f e) (rg_plugins reg))"
    by (auto simp: same_manifests_def assms)
  with Some show ?thesis by (auto simp: with_entry_def)
qed

lemma restore_same: "same_manifests m (fold restore_entry st m)"
proof (induction st arbitrary: m)
  case (Cons x st)
  have "same_manifests m (restore_entry x m)"
    by (auto simp: same_manifests_def restore_entry_def split: prod.split option.split)
  with Cons show ?case by (auto intro: same_manifests_trans)
qed simp

lemma load_state_same:
  "\<exists>m. snd (load_state dk sc d reg) = reg\<lparr>rg_plugins := m\<rparr> \<and> same_manifests (rg_plugins reg) m"
proof -
  have "reg = reg\<lparr>rg_plugins := rg_plugins reg\<rparr>" by simp
  then show ?thesis
    unfolding load_state_def
    by (auto split: sum.split intro: restore_same exI [of _ "rg_plugins reg"])
qed

text \<open>The operations other than registering and unregistering.\<close>

fun keeps_plugins :: "('d, 'j) reg_op \<Rightarrow> bool" where
  "keeps_plugins (Register p) = False"
| "keeps_plugins (Unregister i) = False"
| "keeps_plugins _ = True"

lemma reg_step_same:
  assumes "keeps_plugins x"
  shows "\<exists>m. snd (reg_step dk sc x reg) = reg\<lparr>rg_plugins := m\<rparr> \<and> same_manifests (rg_plugins reg) m"
  using assms load_state_same [of dk sc _ reg]
  by (cases x) (auto simp: one_def set_state_def set_error_def enable_def disable_def set_config_def
      entry_set_state_def Let_def intro!: with_entry_same)

lemma register_ok: "reg_ok reg \<Longrightarrow> reg_ok (snd (register p reg))"
  by (auto simp: reg_ok_def register_def from_package_def Let_def split: if_splits)

lemma unregister_ok: "reg_ok reg \<Longrightarrow> reg_ok (snd (unregister i reg))"
  by (auto simp: reg_ok_def unregister_def split: option.split if_splits)

lemma reg_step_ok: "reg_ok reg \<Longrightarrow> reg_ok (snd (reg_step dk sc x reg))"
proof (cases "keeps_plugins x")
  case True
  assume "reg_ok reg"
  moreover obtain m where "snd (reg_step dk sc x reg) = reg\<lparr>rg_plugins := m\<rparr>" "same_manifests (rg_plugins reg) m"
    using reg_step_same [OF True] by blast
  ultimately show ?thesis by (simp add: same_manifests_ok(1))
next
  case False
  assume "reg_ok reg"
  with False show ?thesis by (cases x) (simp_all add: one_def register_ok unregister_ok)
qed

interpretation registry: invariant_machine "reg_step dk sc" reg_ok for dk sc
  by unfold_locales (rule reg_step_ok)

fun keeps_capabilities :: "(string \<Rightarrow> capability set) \<Rightarrow> ('d, 'j) reg_op \<Rightarrow> bool" where
  "keeps_capabilities caps (Register p) = (set (mn_capabilities (pp_manifest p)) = caps (package_id p))"
| "keeps_capabilities caps _ = True"

lemma register_exact:
  "index_exact caps reg \<Longrightarrow> set (mn_capabilities (pp_manifest p)) = caps (package_id p) \<Longrightarrow>
   index_exact caps (snd (register p reg))"
  by (auto simp: index_exact_def register_def from_package_def Let_def split: if_splits)

lemma unregister_exact: "index_exact caps reg \<Longrightarrow> index_exact caps (snd (unregister i reg))"
  by (auto simp: index_exact_def unregister_def split: option.split if_splits)

lemma reg_step_exact:
  "index_exact caps reg \<Longrightarrow> keeps_capabilities caps x \<Longrightarrow> index_exact caps (snd (reg_step dk sc x reg))"
proof (cases "keeps_plugins x")
  case True
  assume "index_exact caps reg"
  moreover obtain m where "snd (reg_step dk sc x reg) = reg\<lparr>rg_plugins := m\<rparr>" "same_manifests (rg_plugins reg) m"
    using reg_step_same [OF True] by blast
  ultimately show ?thesis by (simp add: same_manifests_ok(2))
next
  case False
  assume "index_exact caps reg" "keeps_capabilities caps x"
  with False show ?thesis by (cases x) (simp_all add: one_def register_exact unregister_exact)
qed

interpretation exact: guarded_machine "reg_step dk sc" "index_exact caps" "keeps_capabilities caps" for dk sc caps
  by unfold_locales (rule reg_step_exact)

lemma set_get_by_capability:
  "set (get_by_capability reg c) =
     {e. \<exists>i \<in> set (ids_of (rg_index reg) c). get_entry reg i = Some e \<and> re_enabled e}"
  by (auto simp: get_by_capability_def get_entry_def set_map_filter_iff)

lemma registry_new_ok [simp]: "reg_ok (registry_new f)" "index_exact caps (registry_new f)"
  by (simp_all add: reg_ok_def index_exact_def registry_new_def ids_of_def)

text \<open>
  C21. The index answers queries by capability. After any sequence of operations of the registry, a query
  finds every enabled plugin that declares the capability, and only enabled plugins; when no plugin
  was registered again with other capabilities, it finds exactly the enabled plugins that declare it.
\<close>

theorem capability_index_correct:
  assumes "reg = snd (run_ops (reg_step dk sc) ops (registry_new f))"
  shows "{e. (\<exists>i. get_entry reg i = Some e) \<and> re_enabled e \<and> entry_has_capability e c}
           \<subseteq> set (get_by_capability reg c)
    \<and> set (get_by_capability reg c) \<subseteq> {e. (\<exists>i. get_entry reg i = Some e) \<and> re_enabled e}
    \<and> (list_all (keeps_capabilities caps) ops \<longrightarrow>
         set (get_by_capability reg c)
           = {e. (\<exists>i. get_entry reg i = Some e) \<and> re_enabled e \<and> entry_has_capability e c})"
proof (intro conjI impI)
  have "reg_ok reg" unfolding assms by (rule registry.run_inv) simp
  then show 1: "{e. (\<exists>i. get_entry reg i = Some e) \<and> re_enabled e \<and> entry_has_capability e c}
      \<subseteq> set (get_by_capability reg c)"
    by (auto simp: set_get_by_capability reg_ok_def get_entry_def entry_has_capability_def manifest_has_capability_def)
  show "set (get_by_capability reg c) \<subseteq> {e. (\<exists>i. get_entry reg i = Some e) \<and> re_enabled e}"
    by (auto simp: set_get_by_capability)
  assume "list_all (keeps_capabilities caps) ops"
  then have "index_exact caps reg" unfolding assms by (intro exact.run_guarded) simp_all
  then have "set (get_by_capability reg c)
      \<subseteq> {e. (\<exists>i. get_entry reg i = Some e) \<and> re_enabled e \<and> entry_has_capability e c}"
    by (auto simp: set_get_by_capability index_exact_def get_entry_def entry_has_capability_def
        manifest_has_capability_def)
  with 1 show "set (get_by_capability reg c)
      = {e. (\<exists>i. get_entry reg i = Some e) \<and> re_enabled e \<and> entry_has_capability e c}" by blast
qed

lemma ids_of_twice:
  assumes "c \<in> set cs"
  shows "i \<in> set (ids_of (fold (index_add i) cs ix) c)"
  using assms by simp

text \<open>
  Registering again leaves the old index. When a plugin is discovered again, or replaced by a version
  with fewer capabilities, the entries of the earlier registration stay: the plugin is still found
  under a capability that its manifest no longer declares.
\<close>

theorem reregistration_keeps_capability:
  assumes "package_id p = package_id q" and "c \<in> set (mn_capabilities (pp_manifest p))"
    and "c \<notin> set (mn_capabilities (pp_manifest q))"
  shows "from_package q \<in> set (get_by_capability (snd (register q (snd (register p reg)))) c)
    \<and> \<not> entry_has_capability (from_package q) c"
proof (intro conjI)
  show "from_package q \<in> set (get_by_capability (snd (register q (snd (register p reg)))) c)"
    using assms by (auto simp: set_get_by_capability register_def from_package_def get_entry_def Let_def)
  show "\<not> entry_has_capability (from_package q) c"
    using assms(3) by (simp add: entry_has_capability_def manifest_has_capability_def from_package_def)
qed

section \<open>The state on disk\<close>

lemma hm_get_Cons: "hm_get ((k, v) # m) i = (if i = k then Some v else hm_get m i)"
  by (simp add: hm_get_def)

lemma hm_wf_Cons: "hm_wf ((k, v) # m) \<longleftrightarrow> hm_get m k = None \<and> hm_wf m"
  by (auto simp: hm_wf_def hm_get_def map_of_eq_None_iff)

lemma hm_get_saved_state: "hm_wf m \<Longrightarrow> hm_get (saved_state m) i = map_option saved_entry (hm_get m i)"
proof -
  have "hm_get (fold (\<lambda>(i, e). hm_insert i (saved_entry e)) m acc) i =
      (case hm_get m i of Some e \<Rightarrow> Some (saved_entry e) | None \<Rightarrow> hm_get acc i)" if "hm_wf m" for acc
    using that
  proof (induction m arbitrary: acc)
    case (Cons x m)
    obtain k e where x: "x = (k, e)" by (cases x)
    from Cons show ?case by (auto simp: x hm_wf_Cons hm_get_Cons split: option.split)
  qed simp
  then show "hm_wf m \<Longrightarrow> ?thesis" by (simp add: saved_state_def split: option.split)
qed

lemma hm_wf_saved_state [simp]: "hm_wf (saved_state m)"
proof -
  have "hm_wf acc \<Longrightarrow> hm_wf (fold (\<lambda>(i, e). hm_insert i (saved_entry e)) m acc)" for acc
    by (induction m arbitrary: acc) auto
  then show ?thesis by (simp add: saved_state_def)
qed

definition restored :: "'j registry_entry \<Rightarrow> 'j plugin_state_entry option \<Rightarrow> 'j registry_entry" where
  "restored e s = (case s of Some s \<Rightarrow> e\<lparr>re_enabled := se_enabled s, re_config := se_config s\<rparr> | None \<Rightarrow> e)"

lemma hm_get_restore:
  "hm_wf st \<Longrightarrow> hm_get (fold restore_entry st m) i = map_option (\<lambda>e. restored e (hm_get st i)) (hm_get m i)"
proof (induction st arbitrary: m)
  case Nil
  show ?case by (simp add: restored_def option.map_ident)
next
  case (Cons x st)
  obtain k s where x: "x = (k, s)" by (cases x)
  have "restore_entry x m = (case hm_get m k of Some e \<Rightarrow> hm_insert k (restored e (Some s)) m | None \<Rightarrow> m)"
    by (simp add: x restore_entry_def restored_def split: option.split)
  moreover have "restored e None = e" for e by (simp add: restored_def)
  ultimately show ?case using Cons by (auto simp: x hm_wf_Cons hm_get_Cons split: option.split)
qed

text \<open>
  The saved state comes back. When the registry was saved, then, with a codec that reads what it
  prints and a disk that reads what was written, loading succeeds, and every plugin known by then has
  the enabled flag and the configuration it had when the registry was saved; plugins the file does not
  know are unchanged, and no plugin appears.
\<close>

theorem registry_state_roundtrip:
  assumes "\<And>st s. sc_print sc st = Inr s \<Longrightarrow> sc_parse sc s = Inr st"
    and "\<And>p s d d'. dk_write dk p s d = (Inr (), d') \<Longrightarrow> dk_exists dk p d' \<and> dk_read_to_string dk p d' = Inr s"
    and "reg = snd (run_ops (reg_step dk sc) ops (registry_new f))"
    and "save_state dk sc d reg = (Inr (), d')"
    and "rg_state_file reg' = rg_state_file reg"
  shows "fst (load_state dk sc d' reg') = Inr ()
    \<and> get_entry (snd (load_state dk sc d' reg')) i =
      map_option (\<lambda>e. restored e (map_option saved_entry (get_entry reg i))) (get_entry reg' i)"
proof (intro conjI)
  have "reg_ok reg" unfolding assms(3) by (rule registry.run_inv) simp
  then have wf: "hm_wf (rg_plugins reg)" by (simp add: reg_ok_def)
  from assms(4) obtain s d1 where s: "sc_print sc (saved_state (rg_plugins reg)) = Inr s"
    and w: "dk_write dk (rg_state_file reg) s d1 = (Inr (), d')"
    by (auto simp: save_state_def Let_def split: prod.splits sum.splits)
  have l: "load_state dk sc d' reg' =
      (Inr (), reg'\<lparr>rg_plugins := fold restore_entry (saved_state (rg_plugins reg)) (rg_plugins reg')\<rparr>)"
    using assms(1) [OF s] assms(2) [OF w] assms(5) by (simp add: load_state_def)
  show "fst (load_state dk sc d' reg') = Inr ()" by (simp add: l)
  show "get_entry (snd (load_state dk sc d' reg')) i =
      map_option (\<lambda>e. restored e (map_option saved_entry (get_entry reg i))) (get_entry reg' i)"
    by (simp add: l get_entry_def hm_get_restore hm_get_saved_state [OF wf])
qed

section \<open>Witnesses\<close>

definition demo_manifest :: "string \<Rightarrow> capability list \<Rightarrow> unit plugin_manifest" where
  "demo_manifest i cs = (manifest_new i ''Demo'' ''1.0.0'')\<lparr>mn_capabilities := cs\<rparr>"

definition demo_package :: "string \<Rightarrow> capability list \<Rightarrow> unit plugin_package" where
  "demo_package i cs =
     \<lparr>pp_manifest = demo_manifest i cs, pp_path = ''/p'', pp_wasm_path = ''/p/plugin.wasm'', pp_wasm_hash = ''00'',
      pp_signature = None\<rparr>"

text \<open>Unicode restricted to ASCII, a disk that maps paths to contents, and a codec that can print one state.\<close>

definition ascii_only :: unicode where
  "ascii_only = \<lparr>uc_alphanumeric = (\<lambda>ch. False), uc_lowercase = filter (\<lambda>c. 128 \<le> (of_char c :: nat))\<rparr>"

definition map_disk :: "(path \<Rightarrow> string option) disk_ops" where
  "map_disk =
     \<lparr>dk_exists = (\<lambda>p d. d p \<noteq> None), dk_is_dir = (\<lambda>p d. False),
      dk_read = (\<lambda>p d. case d p of Some s \<Rightarrow> Inr s | None \<Rightarrow> Inl ''absent''),
      dk_read_to_string = (\<lambda>p d. case d p of Some s \<Rightarrow> Inr s | None \<Rightarrow> Inl ''absent''),
      dk_read_dir = (\<lambda>p d. Inr []), dk_create_dir_all = (\<lambda>p d. (Inr (), d)),
      dk_write = (\<lambda>p s d. (Inr (), d(p \<mapsto> s))), dk_remove_dir_all = (\<lambda>p d. (Inr (), d))\<rparr>"

definition one_state :: "unit registry_state \<Rightarrow> unit state_codec" where
  "one_state st =
     \<lparr>sc_parse = (\<lambda>s. if s = ''{}'' then Inr st else Inl ''unknown''),
      sc_print = (\<lambda>x. if x = st then Inr ''{}'' else Inl ''other'')\<rparr>"

abbreviation demo_registry :: "unit registry" where
  "demo_registry \<equiv> snd (run_ops (reg_step map_disk (one_state [(''a.b'', \<lparr>se_enabled = False, se_config = []\<rparr>)]))
     [Register (demo_package ''a.b'' [EventHooks]), Disable ''a.b''] (registry_new ''/c/plugins.json''))"

lemma demo_registry_entry:
  "get_entry demo_registry ''a.b'' = Some ((from_package (demo_package ''a.b'' [EventHooks]))
     \<lparr>re_enabled := False, re_state := Disabled\<rparr>)"
  by (simp add: one_def register_def disable_def with_entry_def from_package_def demo_package_def demo_manifest_def
      manifest_new_def Let_def get_entry_def)

theorem slug_confined_witness:
  "validate ascii_only (demo_manifest ''com.acme_hub'' [EventHooks]) = Inr ()
   \<and> CHR ''/'' \<notin> set (slug ascii_only (demo_manifest ''com.acme_hub'' [EventHooks]))
   \<and> CHR ''.'' \<notin> set (slug ascii_only (demo_manifest ''com.acme_hub'' [EventHooks]))"
proof -
  have v: "validate ascii_only (demo_manifest ''com.acme_hub'' [EventHooks]) = Inr ()"
    by (simp add: validate_def demo_manifest_def manifest_new_def is_valid_semver_def is_valid_plugin_id_def Let_def
        ascii_only_def is_alphanumeric_def ascii_alphanumeric_def is_ascii_def parse_uint_def digit_val_def utf8_cont_def)
  have "CHR ''/'' \<notin> set (slug ascii_only (demo_manifest ''com.acme_hub'' [EventHooks]))
    \<and> CHR ''.'' \<notin> set (slug ascii_only (demo_manifest ''com.acme_hub'' [EventHooks]))"
    by (rule slug_confined [OF v]) (auto simp: ascii_only_def)
  with v show ?thesis by blast
qed

theorem capability_index_correct_witness:
  "set (get_by_capability demo_registry EventHooks)
     = {e. (\<exists>i. get_entry demo_registry i = Some e) \<and> re_enabled e \<and> entry_has_capability e EventHooks}"
  using capability_index_correct [OF refl, where caps = "\<lambda>_. {EventHooks}" and c = EventHooks, of map_disk
    "one_state [(''a.b'', \<lparr>se_enabled = False, se_config = []\<rparr>)]"
    "[Register (demo_package ''a.b'' [EventHooks]), Disable ''a.b'']" "''/c/plugins.json''"]
  by (elim conjE mp) (simp add: demo_package_def demo_manifest_def)

theorem reregistration_keeps_capability_witness:
  "from_package (demo_package ''a.b'' [UiWidgets])
     \<in> set (get_by_capability (snd (register (demo_package ''a.b'' [UiWidgets])
         (snd (register (demo_package ''a.b'' [NetworkPolicy]) (registry_new ''/c/plugins.json''))))) NetworkPolicy)"
  by (rule reregistration_keeps_capability [THEN conjunct1])
     (simp_all add: demo_package_def demo_manifest_def manifest_new_def)

theorem registry_state_roundtrip_witness:
  "map_option re_enabled (get_entry (snd (load_state map_disk (one_state [(''a.b'', \<lparr>se_enabled = False, se_config = []\<rparr>)])
       [''/c/plugins.json'' \<mapsto> ''{}''] (snd (register (demo_package ''a.b'' [EventHooks]) (registry_new ''/c/plugins.json'')))))
     ''a.b'') = Some False"
proof -
  let ?sc = "one_state [(''a.b'', \<lparr>se_enabled = False, se_config = []\<rparr>)]"
  let ?reg' = "snd (register (demo_package ''a.b'' [EventHooks]) (registry_new ''/c/plugins.json''))"
  have e: "get_entry ?reg' ''a.b'' = Some (from_package (demo_package ''a.b'' [EventHooks]))"
    by (simp add: register_def Let_def get_entry_def from_package_def demo_package_def demo_manifest_def manifest_new_def)
  have s: "save_state map_disk ?sc (\<lambda>_. None) demo_registry = (Inr (), [''/c/plugins.json'' \<mapsto> ''{}''])"
    by (simp add: save_state_def map_disk_def one_state_def Let_def path_parent_def one_def register_def disable_def
        with_entry_def from_package_def demo_package_def demo_manifest_def manifest_new_def registry_new_def
        saved_state_def saved_entry_def hm_insert_def hm_get_def)
  have f: "rg_state_file ?reg' = rg_state_file demo_registry"
    by (simp add: register_def registry_new_def Let_def one_def disable_def with_entry_def split: option.split)
  have "get_entry (snd (load_state map_disk ?sc [''/c/plugins.json'' \<mapsto> ''{}''] ?reg')) ''a.b'' =
      map_option (\<lambda>e. restored e (map_option saved_entry (get_entry demo_registry ''a.b''))) (get_entry ?reg' ''a.b'')"
    by (rule registry_state_roundtrip [OF _ _ refl s f, THEN conjunct2]) (auto simp: one_state_def map_disk_def split: if_splits)
  then show ?thesis by (simp only: demo_registry_entry e) (simp add: restored_def saved_entry_def)
qed

end
