(* ===== verification/Plugin_Host.thy ===== *)
theory Plugin_Host
  imports Machines
begin

text \<open>
  \<open>crates/omni-plugin/src/host/mod.rs\<close>, and of \<open>sandbox.rs\<close> the functions linked into a plugin: logging
  with its bounded buffer, configuration, the key-value store, random bytes, the list of hosts a plugin
  may call, and the access to the memory of the plugin. Clocks, the hasher behind the random bytes and
  the values of the configuration (\<open>serde_json\<close>) are parameters.
\<close>

section \<open>State\<close>

datatype log_level = Trace | Debug | Info | Warn | Error

fun show_log_level :: "log_level \<Rightarrow> string" where
  "show_log_level Trace = ''TRACE''"
| "show_log_level Debug = ''DEBUG''"
| "show_log_level Info = ''INFO''"
| "show_log_level Warn = ''WARN''"
| "show_log_level Error = ''ERROR''"

record log_entry =
  le_timestamp :: u64
  le_level :: log_level
  le_message :: string
  le_plugin_id :: string

record 'j host_state =
  hs_plugin_id :: string
  hs_config :: "(string, 'j) hmap"
  hs_kv_store :: "(string, u8 list) hmap"
  hs_log_buffer :: "log_entry list"
  hs_http_allowlist :: "string list"

definition host_state_new :: "string \<Rightarrow> 'j host_state" where
  "host_state_new i =
     \<lparr>hs_plugin_id = i, hs_config = [], hs_kv_store = [], hs_log_buffer = [], hs_http_allowlist = []\<rparr>"

definition with_config :: "(string, 'j) hmap \<Rightarrow> 'j host_state \<Rightarrow> 'j host_state" where
  "with_config config st = st\<lparr>hs_config := config\<rparr>"

definition with_http_allowlist :: "string list \<Rightarrow> 'j host_state \<Rightarrow> 'j host_state" where
  "with_http_allowlist allowlist st = st\<lparr>hs_http_allowlist := allowlist\<rparr>"

section \<open>Host functions\<close>

definition host_log :: "u64 \<Rightarrow> log_level \<Rightarrow> string \<Rightarrow> 'j host_state \<Rightarrow> 'j host_state" where
  "host_log now level message st =
     (let entry = \<lparr>le_timestamp = now, le_level = level, le_message = message, le_plugin_id = hs_plugin_id st\<rparr>;
          buffer = hs_log_buffer st @ [entry] in
      st\<lparr>hs_log_buffer := (if 1000 < length buffer then tl buffer else buffer)\<rparr>)"

definition host_config_get :: "'j host_state \<Rightarrow> string \<Rightarrow> 'j option" where
  "host_config_get st key = hm_get (hs_config st) key"

definition host_config_get_as :: "('j \<Rightarrow> 'a option) \<Rightarrow> 'j host_state \<Rightarrow> string \<Rightarrow> 'a option" where
  "host_config_get_as conv st key = Option.bind (host_config_get st key) conv"

definition host_config_keys :: "'j host_state \<Rightarrow> string list" where
  "host_config_keys st = hm_keys (hs_config st)"

definition host_kv_set :: "string \<Rightarrow> u8 list \<Rightarrow> 'j host_state \<Rightarrow> 'j host_state" where
  "host_kv_set key v st = st\<lparr>hs_kv_store := hm_insert key v (hs_kv_store st)\<rparr>"

definition host_kv_get :: "'j host_state \<Rightarrow> string \<Rightarrow> u8 list option" where
  "host_kv_get st key = hm_get (hs_kv_store st) key"

definition host_kv_delete :: "string \<Rightarrow> 'j host_state \<Rightarrow> bool \<times> 'j host_state" where
  "host_kv_delete key st =
     (hm_contains (hs_kv_store st) key, st\<lparr>hs_kv_store := hm_remove key (hs_kv_store st)\<rparr>)"

definition host_kv_keys :: "'j host_state \<Rightarrow> string list" where
  "host_kv_keys st = hm_keys (hs_kv_store st)"

definition host_kv_clear :: "'j host_state \<Rightarrow> 'j host_state" where
  "host_kv_clear st = st\<lparr>hs_kv_store := []\<rparr>"

text \<open>\<open>u64::to_le_bytes\<close>; \<open>hash\<close> is the hash of the \<open>k\<close>-th clock reading.\<close>

definition le_bytes64 :: "u64 \<Rightarrow> u8 list" where
  "le_bytes64 w = map (\<lambda>k. ucast (drop_bit (8 * k) w)) [0..<8]"

function random_fill :: "(nat \<Rightarrow> u64) \<Rightarrow> nat \<Rightarrow> nat \<Rightarrow> u8 list \<Rightarrow> u8 list" where
  "random_fill hash count k result =
     (if length result < count then random_fill hash count (Suc k) (result @ le_bytes64 (hash k)) else result)"
  by auto
termination
  by (relation "measure (\<lambda>(hash, count, k, result). count - length result)") (auto simp: le_bytes64_def)

declare random_fill.simps [simp del]

definition host_random_bytes :: "(nat \<Rightarrow> u64) \<Rightarrow> nat \<Rightarrow> u8 list" where
  "host_random_bytes hash count = take count (random_fill hash count 0 [])"

text \<open>\<open>str::trim_start_matches\<close> with a string pattern.\<close>

function trim_start_matches :: "string \<Rightarrow> string \<Rightarrow> string" where
  "trim_start_matches p s =
     (if p \<noteq> [] \<and> starts_with s p then trim_start_matches p (drop (length p) s) else s)"
  by auto
termination
  by (relation "measure (\<lambda>(p, s). length s)") (auto simp: starts_with_iff)

declare trim_start_matches.simps [simp del]

definition url_host :: "string \<Rightarrow> string" where
  "url_host url =
     hd (split_on (CHR ''/'') (trim_start_matches ''http://'' (trim_start_matches ''https://'' url)))"

definition host_allowed :: "string \<Rightarrow> string \<Rightarrow> bool" where
  "host_allowed host allowed =
     (if starts_with allowed ''*.'' then ends_with host (tl allowed) else host = allowed)"

definition host_http_is_allowed :: "'j host_state \<Rightarrow> string \<Rightarrow> bool" where
  "host_http_is_allowed st url =
     (if hs_http_allowlist st = [] then False
      else list_ex (host_allowed (url_host url)) (hs_http_allowlist st))"

text \<open>
  The memory of a plugin as the linked functions read it: addresses and lengths are \<open>i32\<close>, their sum
  wraps, and the conversion to \<open>usize\<close> extends the sign.
\<close>

definition guest_slice :: "u8 list \<Rightarrow> 32 word \<Rightarrow> 32 word \<Rightarrow> u8 list option" where
  "guest_slice data message_ptr message_len =
     (let start = unat (scast message_ptr :: u64); stop = unat (scast (message_ptr + message_len) :: u64) in
      if start \<le> stop \<and> stop \<le> length data then Some (take (stop - start) (drop start data)) else None)"

definition guest_log :: "u64 \<Rightarrow> log_level \<Rightarrow> u8 list option \<Rightarrow> 32 word \<Rightarrow> 32 word \<Rightarrow> 'j host_state \<Rightarrow> 'j host_state" where
  "guest_log now level memory message_ptr message_len st =
     (case memory of
        None \<Rightarrow> st
      | Some data \<Rightarrow>
          (case guest_slice data message_ptr message_len of
             None \<Rightarrow> st
           | Some bytes \<Rightarrow> (case from_utf8 bytes of Some message \<Rightarrow> host_log now level message st | None \<Rightarrow> st)))"

section \<open>Properties\<close>

lemma bounded_push: "length b \<le> Suc n \<Longrightarrow> (if n < length b then tl b else b) = drop (length b - n) b"
  by (auto simp: le_Suc_eq drop_Suc)

lemma host_log_buffer:
  "hs_log_buffer (host_log now level msg st) =
     (let b = hs_log_buffer st @ [\<lparr>le_timestamp = now, le_level = level, le_message = msg, le_plugin_id = hs_plugin_id st\<rparr>]
      in drop (length b - 1000) b)" if "length (hs_log_buffer st) \<le> 1000"
  using that bounded_push [of "hs_log_buffer st @
      [\<lparr>le_timestamp = now, le_level = level, le_message = msg, le_plugin_id = hs_plugin_id st\<rparr>]" 1000]
  by (simp add: host_log_def Let_def del: drop_append)

lemma host_log_id [simp]: "hs_plugin_id (host_log now level msg st) = hs_plugin_id st"
  by (simp add: host_log_def Let_def)

text \<open>
  C22. The log buffer of a plugin holds the last thousand messages. Whatever a plugin logs, in whatever
  order, the buffer is exactly the last thousand messages with their times and levels, all attributed to
  that plugin.
\<close>

theorem log_buffer_last_1000:
  "hs_log_buffer (fold (\<lambda>(now, level, msg). host_log now level msg) calls (host_state_new i :: 'j host_state)) =
     drop (length calls - 1000)
       (map (\<lambda>(now, level, msg). \<lparr>le_timestamp = now, le_level = level, le_message = msg, le_plugin_id = i\<rparr>) calls)"
proof (induction calls rule: rev_induct)
  case Nil
  show ?case by (simp add: host_state_new_def)
next
  case (snoc x xs)
  obtain now level msg where x: "x = (now, level, msg)" by (cases x)
  let ?st = "fold (\<lambda>(now, level, msg). host_log now level msg) xs (host_state_new i :: 'j host_state)"
  have "hs_plugin_id ?st = i"
    by (induction xs rule: rev_induct) (auto simp: host_state_new_def)
  moreover have "length (hs_log_buffer ?st) \<le> 1000" by (simp add: snoc)
  moreover have "length xs - (length xs - 1000 + 999) + (length xs - 1000) = length xs - 999" by arith
  ultimately show ?case by (simp add: x host_log_buffer snoc Let_def)
qed

lemma length_random_fill: "count \<le> length (random_fill hash count k result)"
  by (induction hash count k result rule: random_fill.induct) (subst random_fill.simps, simp)

lemma host_random_bytes_length: "length (host_random_bytes hash count) = count"
  using length_random_fill [of count hash 0 "[]"] by (simp add: host_random_bytes_def)

lemma trim_start_none: "\<not> starts_with s p \<Longrightarrow> trim_start_matches p s = s"
  by (simp add: trim_start_matches.simps)

lemma starts_with_scheme: "starts_with s (p @ CHR ''/'' # q) \<Longrightarrow> CHR ''/'' \<in> set s"
  by (auto simp: starts_with_iff)

lemma trim_start_once:
  assumes "p \<noteq> []" and "\<not> starts_with s p"
  shows "trim_start_matches p (p @ s) = s"
  using assms by (subst trim_start_matches.simps) (simp add: trim_start_none)

lemma url_host_https:
  assumes "CHR ''/'' \<notin> set h"
  shows "url_host (''https://'' @ h) = h"
proof -
  have "\<not> starts_with h ''https://''" "\<not> starts_with h ''http://''"
    using assms starts_with_scheme [of h "''https:''" "''/''"] starts_with_scheme [of h "''http:''" "''/''"] by auto
  then show ?thesis
    using assms trim_start_once [of "''https://''" h] trim_start_none [of h "''http://''"] split_on_none [OF assms]
    by (simp add: url_host_def)
qed

text \<open>
  What the list of hosts checks. A request to \<open>https://\<close> followed by text without a slash is allowed
  exactly when that whole text is in the list or ends in the suffix of a wildcard. The text is taken for
  the host: with any wildcard in the list, a query that ends in the suffix makes every host allowed.
\<close>

theorem http_allowlist_reads_query:
  assumes "CHR ''/'' \<notin> set h"
  shows "(host_http_is_allowed st (''https://'' @ h) \<longleftrightarrow>
      (\<exists>a \<in> set (hs_http_allowlist st).
         if starts_with a ''*.'' then ends_with h (tl a) else h = a))
    \<and> (''*.'' @ s \<in> set (hs_http_allowlist st) \<longrightarrow> CHR ''/'' \<notin> set s \<longrightarrow>
      host_http_is_allowed st (''https://'' @ h @ ''?.'' @ s))"
proof (intro conjI impI)
  have *: "host_http_is_allowed st (''https://'' @ h) \<longleftrightarrow>
      (\<exists>a \<in> set (hs_http_allowlist st). host_allowed h a)" if "CHR ''/'' \<notin> set h" for h
    using url_host_https [OF that] by (auto simp: host_http_is_allowed_def list_ex_iff)
  show "host_http_is_allowed st (''https://'' @ h) \<longleftrightarrow>
      (\<exists>a \<in> set (hs_http_allowlist st). if starts_with a ''*.'' then ends_with h (tl a) else h = a)"
    using * [OF assms] by (simp add: host_allowed_def)
  assume s: "''*.'' @ s \<in> set (hs_http_allowlist st)" "CHR ''/'' \<notin> set s"
  have "starts_with (''*.'' @ s) ''*.''" by (rule starts_with_append)
  moreover have "ends_with (h @ ''?.'' @ s) (tl (''*.'' @ s))"
    unfolding ends_with_iff by (rule exI [of _ "h @ ''?''"]) simp
  ultimately have "host_allowed (h @ ''?.'' @ s) (''*.'' @ s)" by (simp add: host_allowed_def)
  with s(1) have "\<exists>a \<in> set (hs_http_allowlist st). host_allowed (h @ ''?.'' @ s) a" by blast
  moreover have "CHR ''/'' \<notin> set (h @ ''?.'' @ s)" using assms s(2) by simp
  ultimately show "host_http_is_allowed st (''https://'' @ h @ ''?.'' @ s)" by (intro * [THEN iffD2])
qed

lemma unat_scast: "unat (scast (w :: 32 word) :: u64) = nat (sint w mod 2 ^ 64)"
proof -
  have "uint (scast w :: u64) = sint w mod 2 ^ 64" unfolding scast_eq uint_word_of_int by simp
  then show ?thesis by (simp only: unat_eq_nat_uint)
qed

lemma sint_range: "- (2 ^ 31) \<le> sint (w :: 32 word)" "sint w < 2 ^ 31"
  using sint_ge [of w] sint_lt [of w] by simp_all

lemma sint_add_wraps:
  fixes p l :: "32 word"
  assumes "0 \<le> sint p"
  shows "sint (p + l) = (if sint p + sint l < 2 ^ 31 then sint p + sint l else sint p + sint l - 2 ^ 32)"
proof -
  let ?k = "sint p + sint l"
  have k: "- (2 ^ 31) \<le> ?k" "?k < 2 ^ 32" using assms sint_range [of p] sint_range [of l] by simp_all
  have s: "sint (p + l) = signed_take_bit 31 ?k" by (simp add: sint_word_ariths)
  show ?thesis
  proof (cases "?k < 2 ^ 31")
    case True
    with k s show ?thesis by (simp add: signed_take_bit_int_eq_self)
  next
    case False
    with k have "(?k + 2 ^ 31) mod 2 ^ 32 = ?k + 2 ^ 31 - 2 ^ 32"
      by (subst mod_pos_geq) (simp_all add: mod_pos_pos_trivial)
    with False s show ?thesis by (simp add: signed_take_bit_eq_take_bit_shift take_bit_eq_mod)
  qed
qed

lemma nat_mod_64:
  assumes "- (2 ^ 32) \<le> k" "k < 2 ^ 32"
  shows "nat (k mod 2 ^ 64) = (if 0 \<le> k then nat k else nat (k + 2 ^ 64))"
proof (cases "0 \<le> k")
  case True
  with assms show ?thesis by (simp add: mod_pos_pos_trivial)
next
  case False
  then have "k mod 2 ^ 64 = (k + 2 ^ 64) mod 2 ^ 64" by simp
  also have "\<dots> = k + 2 ^ 64" using False assms by (intro mod_pos_pos_trivial) simp_all
  finally show ?thesis using False by simp
qed

text \<open>
  C23. A plugin can only make the host read its own memory. For every address and length, also negative
  ones and those whose sum overflows, the host takes exactly the bytes of the plugin's memory between
  them when both are non-negative and the end is inside, and nothing otherwise. The memory is below two gigabytes.
\<close>

theorem guest_slice_bounds:
  assumes "length data < 2 ^ 31"
  shows "guest_slice data message_ptr message_len =
    (if 0 \<le> sint message_ptr \<and> 0 \<le> sint message_len \<and> sint message_ptr + sint message_len \<le> int (length data)
     then Some (take (nat (sint message_len)) (drop (nat (sint message_ptr)) data)) else None)"
proof -
  let ?p = "sint message_ptr" and ?l = "sint message_len" and ?e = "sint (message_ptr + message_len)"
  have start: "unat (scast message_ptr :: u64) = (if 0 \<le> ?p then nat ?p else nat (?p + 2 ^ 64))"
    unfolding unat_scast using sint_range [of message_ptr] by (intro nat_mod_64) simp_all
  have stop: "unat (scast (message_ptr + message_len) :: u64) = (if 0 \<le> ?e then nat ?e else nat (?e + 2 ^ 64))"
    unfolding unat_scast using sint_range [of "message_ptr + message_len"] by (intro nat_mod_64) simp_all
  show ?thesis
  proof (cases "0 \<le> ?p")
    case False
    with assms sint_range [of message_ptr] have "length data < unat (scast message_ptr :: u64)"
      unfolding start by simp
    with False show ?thesis unfolding guest_slice_def Let_def by auto
  next
    case True
    from assms True sint_range [of message_ptr] sint_range [of message_len] sint_range [of "message_ptr + message_len"]
    show ?thesis
      unfolding guest_slice_def Let_def start stop sint_add_wraps [OF True]
      by (auto simp: nat_add_distrib split: if_splits)
  qed
qed

section \<open>Witnesses\<close>

theorem http_allowlist_reads_query_witness:
  "host_http_is_allowed (with_http_allowlist [''*.slack.com''] (host_state_new ''p'' :: unit host_state))
     (''https://'' @ ''evil.com'' @ ''?.'' @ ''slack.com'')"
  by (rule http_allowlist_reads_query [THEN conjunct2, rule_format]) (simp_all add: with_http_allowlist_def)

theorem guest_slice_bounds_witness:
  "guest_slice [1, 2, 3, 4] 1 2 =
    (if 0 \<le> sint (1 :: 32 word) \<and> 0 \<le> sint (2 :: 32 word) \<and> sint (1 :: 32 word) + sint (2 :: 32 word) \<le> int (length [1, 2, 3, 4 :: u8])
     then Some (take (nat (sint (2 :: 32 word))) (drop (nat (sint (1 :: 32 word))) [1, 2, 3, 4])) else None)
   \<and> guest_slice [1, 2, 3, 4] 1 2 = Some [2, 3]"
proof
  show g: "guest_slice [1, 2, 3, 4] 1 2 =
    (if 0 \<le> sint (1 :: 32 word) \<and> 0 \<le> sint (2 :: 32 word) \<and> sint (1 :: 32 word) + sint (2 :: 32 word) \<le> int (length [1, 2, 3, 4 :: u8])
     then Some (take (nat (sint (2 :: 32 word))) (drop (nat (sint (1 :: 32 word))) [1, 2, 3, 4])) else None)"
    by (rule guest_slice_bounds) simp
  show "guest_slice [1, 2, 3, 4] 1 2 = Some [2, 3]" unfolding g by simp
qed

end
