(* ===== verification/Plugin_Manager.thy ===== *)
theory Plugin_Manager
  imports Plugin_Registry Plugin_Host
begin

text \<open>
  \<open>crates/omni-plugin/src/{lib,loader,sandbox,manager}.rs\<close>: loading and verifying plugin packages,
  installing them from archives, and the manager that keeps the running plugins. The environment of the
  manager (file system, JSON, SHA-256, the WebAssembly compiler, zip archives) is a parameter. A manager is
  used through one handle, so that its operations follow one another.
\<close>

section \<open>Configuration and environment\<close>

record plugin_config =
  pf_data_dir :: path
  pf_max_memory :: u64
  pf_max_execution_time_ms :: u64
  pf_require_signatures :: bool
  pf_trusted_signers :: "string list"

definition plugin_config_default :: "path option \<Rightarrow> plugin_config" where
  "plugin_config_default home =
     \<lparr>pf_data_dir = path_join (case home of Some h \<Rightarrow> h | None \<Rightarrow> ''.'') ''.omniedge'',
      pf_max_memory = 64 * 1024 * 1024, pf_max_execution_time_ms = 100, pf_require_signatures = False,
      pf_trusted_signers = []\<rparr>"

definition plugins_dir :: "plugin_config \<Rightarrow> path" where
  "plugins_dir c = path_join (path_join (pf_data_dir c) ''plugins'') ''installed''"

definition widgets_dir :: "plugin_config \<Rightarrow> path" where
  "widgets_dir c = path_join (path_join (pf_data_dir c) ''plugins'') ''widgets''"

definition plugin_data_dir :: "plugin_config \<Rightarrow> string \<Rightarrow> path" where
  "plugin_data_dir c sl = path_join (path_join (path_join (pf_data_dir c) ''plugins'') ''data'') sl"

definition cache_dir :: "plugin_config \<Rightarrow> path" where
  "cache_dir c = path_join (path_join (pf_data_dir c) ''cache'') ''plugins''"

definition config_file :: "plugin_config \<Rightarrow> path" where
  "config_file c = path_join (path_join (pf_data_dir c) ''config'') ''plugins.json''"

record sandbox_limits =
  sl_max_memory_bytes :: u64
  sl_max_table_elements :: u32
  sl_max_instances :: u32
  sl_max_execution_time_ms :: u64
  sl_max_fuel :: u64

definition sandbox_limits_default :: sandbox_limits where
  "sandbox_limits_default =
     \<lparr>sl_max_memory_bytes = 64 * 1024 * 1024, sl_max_table_elements = 10000, sl_max_instances = 10,
      sl_max_execution_time_ms = 100, sl_max_fuel = 1000000\<rparr>"

record zip_file =
  zf_name :: path
  zf_is_dir :: bool
  zf_content :: string

text \<open>\<open>by_name\<close> reads a file of the archive as text; \<open>by_index\<close> goes through the entries.\<close>

record zip_archive =
  za_by_name :: "string \<Rightarrow> (string + string) option"
  za_entries :: "(string + zip_file) list"

record ('d, 'j, 'm) plugin_env =
  pe_disk :: "'d disk_ops"
  pe_codec :: "'j state_codec"
  pe_unicode :: unicode
  pe_parse_manifest :: "string \<Rightarrow> string + 'j plugin_manifest"
  pe_parse_json :: "string \<Rightarrow> string + (string \<Rightarrow> string option)"
  pe_sha256 :: "string \<Rightarrow> string"
  pe_compile :: "string \<Rightarrow> string + 'm"
  pe_show_path :: "path \<Rightarrow> string"
  pe_unzip :: "string \<Rightarrow> string + zip_archive"
  pe_link :: "string + unit"

section \<open>Loader\<close>

record plugin_loader =
  ld_plugins_dir :: path
  ld_require_signatures :: bool
  ld_trusted_signers :: "string list"

definition loader_new :: "path \<Rightarrow> plugin_loader" where
  "loader_new dir = \<lparr>ld_plugins_dir = dir, ld_require_signatures = False, ld_trusted_signers = []\<rparr>"

definition require_signatures :: "bool \<Rightarrow> plugin_loader \<Rightarrow> plugin_loader" where
  "require_signatures require ld = ld\<lparr>ld_require_signatures := require\<rparr>"

definition add_trusted_signer :: "string \<Rightarrow> plugin_loader \<Rightarrow> plugin_loader" where
  "add_trusted_signer public_key ld = ld\<lparr>ld_trusted_signers := ld_trusted_signers ld @ [public_key]\<rparr>"

definition with_trusted_signers :: "string list \<Rightarrow> plugin_loader \<Rightarrow> plugin_loader" where
  "with_trusted_signers signers ld = ld\<lparr>ld_trusted_signers := signers\<rparr>"

abbreviation map_error :: "('e \<Rightarrow> plugin_error) \<Rightarrow> 'e + 'a \<Rightarrow> plugin_error + 'a" where
  "map_error f r \<equiv> (case r of Inl e \<Rightarrow> Inl (f e) | Inr a \<Rightarrow> Inr a)"

definition load_signature ::
  "('d, 'j, 'm) plugin_env \<Rightarrow> path \<Rightarrow> 'd \<Rightarrow> plugin_error + plugin_signature option" where
  "load_signature env plugin_dir d =
     (let sig_path = path_join plugin_dir ''plugin.sig'' in
      if \<not> dk_exists (pe_disk env) sig_path d then Inr None
      else
        and_then (map_error IoError (dk_read_to_string (pe_disk env) sig_path d)) (\<lambda>content.
        and_then (map_error SignatureError (pe_parse_json env content)) (\<lambda>obj.
          case obj ''public_key'' of
            None \<Rightarrow> Inl (SignatureError ''Missing public_key'')
          | Some public_key \<Rightarrow>
              (case obj ''signature'' of
                 None \<Rightarrow> Inl (SignatureError ''Missing signature'')
               | Some signature \<Rightarrow>
                   (let algorithm = (case obj ''algorithm'' of Some a \<Rightarrow> a | None \<Rightarrow> ''ed25519'') in
                    if algorithm = ''ed25519''
                    then Inr (Some \<lparr>sg_public_key = public_key, sg_signature = signature, sg_algorithm = Ed25519\<rparr>)
                    else Inl (SignatureError (''Unsupported algorithm: '' @ algorithm)))))))"

text \<open>
  The check of a signature: of the signer and of the lengths only. Its debug message, left out here, slices the first sixteen bytes of the
  key and panics, where that level is logged, if they end inside a character.
\<close>

definition verify_signature :: "plugin_loader \<Rightarrow> string \<Rightarrow> plugin_signature \<Rightarrow> plugin_error + unit" where
  "verify_signature ld wasm_bytes sig =
     (if ld_trusted_signers ld \<noteq> [] \<and> sg_public_key sig \<notin> set (ld_trusted_signers ld)
      then Inl (SignatureError (''Signer not trusted: '' @ sg_public_key sig))
      else case sg_algorithm sig of
        Ed25519 \<Rightarrow>
          if length (sg_signature sig) \<noteq> 128 then Inl (SignatureError ''Invalid signature length'')
          else if length (sg_public_key sig) \<noteq> 64 then Inl (SignatureError ''Invalid public key length'')
          else Inr ())"

definition load_plugin_package ::
  "('d, 'j, 'm) plugin_env \<Rightarrow> plugin_loader \<Rightarrow> path \<Rightarrow> 'd \<Rightarrow> plugin_error + 'j plugin_package" where
  "load_plugin_package env ld plugin_dir d =
     (let dk = pe_disk env; manifest_path = path_join plugin_dir ''manifest.json'' in
      if \<not> dk_exists dk manifest_path d
      then Inl (InvalidManifest (''manifest.json not found in '' @ pe_show_path env plugin_dir))
      else
        and_then (map_error IoError (dk_read_to_string dk manifest_path d)) (\<lambda>content.
        and_then (map_error InvalidManifest (pe_parse_manifest env content)) (\<lambda>manifest.
        and_then (map_error (\<lambda>e. InvalidManifest (show_manifest_error e)) (validate (pe_unicode env) manifest)) (\<lambda>_.
          let wasm_path = path_join plugin_dir
                (case ep_wasm (mn_entry_points manifest) of Some f \<Rightarrow> f | None \<Rightarrow> ''plugin.wasm'') in
          if \<not> dk_exists dk wasm_path d
          then Inl (NotFound (''WASM module not found: '' @ pe_show_path env wasm_path))
          else
            and_then (map_error IoError (dk_read dk wasm_path d)) (\<lambda>wasm_bytes.
            and_then (load_signature env plugin_dir d) (\<lambda>signature.
            and_then (if ld_require_signatures ld
                      then (case signature of
                              Some sig \<Rightarrow> verify_signature ld wasm_bytes sig
                            | None \<Rightarrow> Inl SignatureRequired)
                      else Inr ()) (\<lambda>_.
              Inr \<lparr>pp_manifest = manifest, pp_path = plugin_dir, pp_wasm_path = wasm_path,
                   pp_wasm_hash = pe_sha256 env wasm_bytes, pp_signature = signature\<rparr>)))))))"

text \<open>\<open>discover_plugins\<close> of the loader: directories that cannot be loaded are skipped.\<close>

definition discover_packages ::
  "('d, 'j, 'm) plugin_env \<Rightarrow> plugin_loader \<Rightarrow> 'd \<Rightarrow> plugin_error + 'j plugin_package list" where
  "discover_packages env ld d =
     (if \<not> dk_exists (pe_disk env) (ld_plugins_dir ld) d then Inr []
      else and_then (map_error IoError (dk_read_dir (pe_disk env) (ld_plugins_dir ld) d)) (\<lambda>entries.
        Inr (List.map_filter (\<lambda>p. ok (load_plugin_package env ld p d))
               (filter (\<lambda>p. dk_is_dir (pe_disk env) p d) entries))))"

record 'm plugin_instance =
  pi_module :: 'm
  pi_plugin_id :: string

definition load_into_sandbox ::
  "('d, 'j, 'm) plugin_env \<Rightarrow> 'j plugin_package \<Rightarrow> 'd \<Rightarrow> plugin_error + 'm plugin_instance" where
  "load_into_sandbox env package d =
     and_then (map_error IoError (dk_read (pe_disk env) (pp_wasm_path package) d)) (\<lambda>wasm_bytes.
       let current_hash = pe_sha256 env wasm_bytes in
       if current_hash \<noteq> pp_wasm_hash package then Inl (HashMismatch (pp_wasm_hash package) current_hash)
       else
         and_then (map_error CompilationError (pe_compile env wasm_bytes)) (\<lambda>module.
           Inr \<lparr>pi_module = module, pi_plugin_id = mn_id (pp_manifest package)\<rparr>))"

text \<open>One entry of an archive, and all of them until the first error.\<close>

definition extract_file ::
  "('d, 'j, 'm) plugin_env \<Rightarrow> path \<Rightarrow> zip_file \<Rightarrow> 'd \<Rightarrow> (plugin_error + unit) \<times> 'd" where
  "extract_file env plugin_dir file d =
     (let dk = pe_disk env; outpath = path_join plugin_dir (zf_name file) in
      if zf_is_dir file then
        (case dk_create_dir_all dk outpath d of (r, d1) \<Rightarrow> (map_error IoError r, d1))
      else
        (let (r, d1) = (case path_parent outpath of
                          Some parent \<Rightarrow> dk_create_dir_all dk parent d | None \<Rightarrow> (Inr (), d)) in
         case r of
           Inl e \<Rightarrow> (Inl (IoError e), d1)
         | Inr _ \<Rightarrow> (case dk_write dk outpath (zf_content file) d1 of (r2, d2) \<Rightarrow> (map_error IoError r2, d2))))"

fun extract_all ::
  "('d, 'j, 'm) plugin_env \<Rightarrow> path \<Rightarrow> (string + zip_file) list \<Rightarrow> 'd \<Rightarrow> (plugin_error + unit) \<times> 'd" where
  "extract_all env plugin_dir [] d = (Inr (), d)"
| "extract_all env plugin_dir (f # fs) d =
     (case f of
        Inl e \<Rightarrow> (Inl (IoError e), d)
      | Inr file \<Rightarrow>
          (case extract_file env plugin_dir file d of
             (Inl e, d1) \<Rightarrow> (Inl e, d1)
           | (Inr _, d1) \<Rightarrow> extract_all env plugin_dir fs d1))"

definition archive_manifest :: "('d, 'j, 'm) plugin_env \<Rightarrow> string \<Rightarrow> plugin_error + (zip_archive \<times> 'j plugin_manifest)" where
  "archive_manifest env zip_bytes =
     and_then (map_error (\<lambda>e. InvalidManifest (''Invalid zip: '' @ e)) (pe_unzip env zip_bytes)) (\<lambda>archive.
     and_then (case za_by_name archive ''manifest.json'' of
                 None \<Rightarrow> Inl (InvalidManifest ''manifest.json not found in archive'')
               | Some r \<Rightarrow> map_error IoError r) (\<lambda>content.
     and_then (map_error InvalidManifest (pe_parse_manifest env content)) (\<lambda>manifest.
     and_then (map_error (\<lambda>e. InvalidManifest (show_manifest_error e)) (validate (pe_unicode env) manifest)) (\<lambda>_.
       Inr (archive, manifest)))))"

definition install_from_bytes ::
  "('d, 'j, 'm) plugin_env \<Rightarrow> plugin_loader \<Rightarrow> string \<Rightarrow> 'd \<Rightarrow> (plugin_error + 'j plugin_package) \<times> 'd" where
  "install_from_bytes env ld zip_bytes d =
     (case archive_manifest env zip_bytes of
        Inl e \<Rightarrow> (Inl e, d)
      | Inr (archive, manifest) \<Rightarrow>
          (let plugin_dir = path_join (ld_plugins_dir ld) (slug (pe_unicode env) manifest) in
           case dk_create_dir_all (pe_disk env) plugin_dir d of
             (Inl e, d1) \<Rightarrow> (Inl (IoError e), d1)
           | (Inr _, d1) \<Rightarrow>
               (case extract_all env plugin_dir (za_entries archive) d1 of
                  (Inl e, d2) \<Rightarrow> (Inl e, d2)
                | (Inr _, d2) \<Rightarrow> (load_plugin_package env ld plugin_dir d2, d2))))"

definition install_from_zip ::
  "('d, 'j, 'm) plugin_env \<Rightarrow> plugin_loader \<Rightarrow> path \<Rightarrow> 'd \<Rightarrow> (plugin_error + 'j plugin_package) \<times> 'd" where
  "install_from_zip env ld zip_path d =
     (case dk_read (pe_disk env) zip_path d of
        Inl e \<Rightarrow> (Inl (IoError e), d)
      | Inr zip_bytes \<Rightarrow> install_from_bytes env ld zip_bytes d)"

definition manifest_names :: "('d, 'j, 'm) plugin_env \<Rightarrow> string \<Rightarrow> 'd \<Rightarrow> path \<Rightarrow> bool" where
  "manifest_names env plugin_id d p =
     (dk_is_dir (pe_disk env) p d \<and> dk_exists (pe_disk env) (path_join p ''manifest.json'') d \<and>
      (case dk_read_to_string (pe_disk env) (path_join p ''manifest.json'') d of
         Inl _ \<Rightarrow> False
       | Inr content \<Rightarrow>
           (case pe_parse_manifest env content of Inl _ \<Rightarrow> False | Inr m \<Rightarrow> mn_id m = plugin_id)))"

definition uninstall ::
  "('d, 'j, 'm) plugin_env \<Rightarrow> plugin_loader \<Rightarrow> string \<Rightarrow> 'd \<Rightarrow> (plugin_error + unit) \<times> 'd" where
  "uninstall env ld plugin_id d =
     (case dk_read_dir (pe_disk env) (ld_plugins_dir ld) d of
        Inl e \<Rightarrow> (Inl (IoError e), d)
      | Inr entries \<Rightarrow>
          (case List.find (manifest_names env plugin_id d) entries of
             Some p \<Rightarrow> (case dk_remove_dir_all (pe_disk env) p d of (r, d1) \<Rightarrow> (map_error IoError r, d1))
           | None \<Rightarrow> (Inl (NotFound plugin_id), d)))"

definition validate_wasm :: "u8 list \<Rightarrow> plugin_error + unit" where
  "validate_wasm w =
     (if length w < 8 then Inl (InvalidManifest ''WASM too small'')
      else if take 4 w \<noteq> [0x00, 0x61, 0x73, 0x6D] then Inl (InvalidManifest ''Invalid WASM magic number'')
      else
        (let version = unat (w ! 4) + 256 * unat (w ! 5) + 65536 * unat (w ! 6) + 16777216 * unat (w ! 7) in
         if version \<noteq> 1 then Inl (InvalidManifest (''Unsupported WASM version: '' @ show_nat version))
         else Inr ()))"

section \<open>Manager\<close>

record ('j, 'm) running_plugin =
  rp_instance :: "'m plugin_instance"
  rp_host :: "'j host_state"
  rp_package :: "'j plugin_package"

record ('d, 'j, 'm) plugin_manager =
  pg_config :: plugin_config
  pg_limits :: sandbox_limits
  pg_loader :: plugin_loader
  pg_registry :: "'j registry"
  pg_running :: "(string, ('j, 'm) running_plugin) hmap"
  pg_disk :: 'd

definition manager_new :: "plugin_config \<Rightarrow> 'd \<Rightarrow> ('d, 'j, 'm) plugin_manager" where
  "manager_new config d =
     \<lparr>pg_config = config,
      pg_limits = sandbox_limits_default\<lparr>sl_max_memory_bytes := pf_max_memory config,
                                          sl_max_execution_time_ms := pf_max_execution_time_ms config\<rparr>,
      pg_loader = with_trusted_signers (pf_trusted_signers config)
                    (require_signatures (pf_require_signatures config) (loader_new (plugins_dir config))),
      pg_registry = registry_new (config_file config), pg_running = [], pg_disk = d\<rparr>"

text \<open>Calls of the registry from the manager.\<close>

definition on_registry ::
  "('j registry \<Rightarrow> (plugin_error + unit) \<times> 'j registry) \<Rightarrow> ('d, 'j, 'm) plugin_manager \<Rightarrow>
     (plugin_error + unit) \<times> ('d, 'j, 'm) plugin_manager" where
  "on_registry f mg = (case f (pg_registry mg) of (r, reg) \<Rightarrow> (r, mg\<lparr>pg_registry := reg\<rparr>))"

definition save_registry ::
  "('d, 'j, 'm) plugin_env \<Rightarrow> ('d, 'j, 'm) plugin_manager \<Rightarrow> (plugin_error + unit) \<times> ('d, 'j, 'm) plugin_manager" where
  "save_registry env mg =
     (case save_state (pe_disk env) (pe_codec env) (pg_disk mg) (pg_registry mg) of (r, d) \<Rightarrow> (r, mg\<lparr>pg_disk := d\<rparr>))"

text \<open>The \<open>?\<close> operator on the results of operations of the manager.\<close>

definition bind_res :: "('e + 'a) \<times> 's \<Rightarrow> ('a \<Rightarrow> 's \<Rightarrow> ('e + 'b) \<times> 's) \<Rightarrow> ('e + 'b) \<times> 's" where
  "bind_res r f = (case r of (Inl e, s) \<Rightarrow> (Inl e, s) | (Inr a, s) \<Rightarrow> f a s)"

definition make_dir ::
  "('d, 'j, 'm) plugin_env \<Rightarrow> path \<Rightarrow> ('d, 'j, 'm) plugin_manager \<Rightarrow>
     (plugin_error + unit) \<times> ('d, 'j, 'm) plugin_manager" where
  "make_dir env p mg =
     (case dk_create_dir_all (pe_disk env) p (pg_disk mg) of (r, d) \<Rightarrow> (map_error IoError r, mg\<lparr>pg_disk := d\<rparr>))"

definition initialize ::
  "('d, 'j, 'm) plugin_env \<Rightarrow> ('d, 'j, 'm) plugin_manager \<Rightarrow> (plugin_error + unit) \<times> ('d, 'j, 'm) plugin_manager" where
  "initialize env mg =
     bind_res (make_dir env (plugins_dir (pg_config mg)) mg) (\<lambda>_ mg.
     bind_res (make_dir env (cache_dir (pg_config mg)) mg) (\<lambda>_ mg.
       case pe_link env of
         Inl e \<Rightarrow> (Inl (WasmtimeError e), mg)
       | Inr _ \<Rightarrow> on_registry (load_state (pe_disk env) (pe_codec env) (pg_disk mg)) mg))"

fun register_all :: "'j plugin_package list \<Rightarrow> 'j registry \<Rightarrow> 'j registry" where
  "register_all [] reg = reg"
| "register_all (p # ps) reg = register_all ps (snd (register p reg))"

definition discover_plugins ::
  "('d, 'j, 'm) plugin_env \<Rightarrow> ('d, 'j, 'm) plugin_manager \<Rightarrow>
     (plugin_error + string list) \<times> ('d, 'j, 'm) plugin_manager" where
  "discover_plugins env mg =
     (case discover_packages env (pg_loader mg) (pg_disk mg) of
        Inl e \<Rightarrow> (Inl e, mg)
      | Inr packages \<Rightarrow>
          (Inr (map package_id packages),
           mg\<lparr>pg_registry := snd (load_state (pe_disk env) (pe_codec env) (pg_disk mg)
                                    (register_all packages (pg_registry mg)))\<rparr>))"

definition load_plugin ::
  "('d, 'j, 'm) plugin_env \<Rightarrow> u64 \<Rightarrow> string \<Rightarrow> ('d, 'j, 'm) plugin_manager \<Rightarrow>
     (plugin_error + unit) \<times> ('d, 'j, 'm) plugin_manager" where
  "load_plugin env now plugin_id mg =
     (if hm_contains (pg_running mg) plugin_id then (Inl (AlreadyLoaded plugin_id), mg)
      else case get_entry (pg_registry mg) plugin_id of
        None \<Rightarrow> (Inl (NotFound plugin_id), mg)
      | Some entry \<Rightarrow>
          if \<not> re_enabled entry then (Inl (LifecycleError (''Plugin '' @ plugin_id @ '' is disabled'')), mg)
          else
            bind_res (on_registry (set_state now plugin_id Loading) mg) (\<lambda>_ mg.
              case load_plugin_package env (pg_loader mg) (re_path entry) (pg_disk mg) of
                Inl e \<Rightarrow> (Inl e, mg)
              | Inr package \<Rightarrow>
                  (case load_into_sandbox env package (pg_disk mg) of
                     Inl e \<Rightarrow>
                       bind_res (on_registry (set_error plugin_id (show_plugin_error e)) mg) (\<lambda>_ mg. (Inl e, mg))
                   | Inr inst \<Rightarrow>
                       on_registry (set_state now plugin_id Loaded)
                         (mg\<lparr>pg_running := hm_insert plugin_id
                               \<lparr>rp_instance = inst, rp_host = with_config (re_config entry) (host_state_new plugin_id),
                                rp_package = package\<rparr> (pg_running mg)\<rparr>))))"

definition unload_plugin ::
  "u64 \<Rightarrow> string \<Rightarrow> ('d, 'j, 'm) plugin_manager \<Rightarrow> (plugin_error + unit) \<times> ('d, 'j, 'm) plugin_manager" where
  "unload_plugin now plugin_id mg =
     (if hm_contains (pg_running mg) plugin_id
      then on_registry (set_state now plugin_id Stopped) (mg\<lparr>pg_running := hm_remove plugin_id (pg_running mg)\<rparr>)
      else (Inl (NotFound plugin_id), mg))"

text \<open>Loading and unloading all: failures are logged and skipped. \<open>now\<close> gives the clock for each plugin.\<close>

definition load_all ::
  "('d, 'j, 'm) plugin_env \<Rightarrow> (string \<Rightarrow> u64) \<Rightarrow> ('d, 'j, 'm) plugin_manager \<Rightarrow> ('d, 'j, 'm) plugin_manager" where
  "load_all env now mg =
     fold (\<lambda>entry mg. snd (load_plugin env (now (entry_id entry)) (entry_id entry) mg)) (get_enabled (pg_registry mg)) mg"

definition unload_all ::
  "(string \<Rightarrow> u64) \<Rightarrow> ('d, 'j, 'm) plugin_manager \<Rightarrow> ('d, 'j, 'm) plugin_manager" where
  "unload_all now mg = fold (\<lambda>i mg. snd (unload_plugin (now i) i mg)) (hm_keys (pg_running mg)) mg"

definition finish_install ::
  "('d, 'j, 'm) plugin_env \<Rightarrow> (plugin_error + 'j plugin_package) \<times> 'd \<Rightarrow> ('d, 'j, 'm) plugin_manager \<Rightarrow>
     (plugin_error + string) \<times> ('d, 'j, 'm) plugin_manager" where
  "finish_install env res mg =
     (case res of
        (Inl e, d) \<Rightarrow> (Inl e, mg\<lparr>pg_disk := d\<rparr>)
      | (Inr package, d) \<Rightarrow>
          bind_res (on_registry (register package) (mg\<lparr>pg_disk := d\<rparr>)) (\<lambda>_ mg.
          bind_res (save_registry env mg) (\<lambda>_ mg. (Inr (package_id package), mg))))"

definition install_plugin ::
  "('d, 'j, 'm) plugin_env \<Rightarrow> path \<Rightarrow> ('d, 'j, 'm) plugin_manager \<Rightarrow>
     (plugin_error + string) \<times> ('d, 'j, 'm) plugin_manager" where
  "install_plugin env zip_path mg =
     finish_install env (install_from_zip env (pg_loader mg) zip_path (pg_disk mg)) mg"

definition install_plugin_bytes ::
  "('d, 'j, 'm) plugin_env \<Rightarrow> string \<Rightarrow> ('d, 'j, 'm) plugin_manager \<Rightarrow>
     (plugin_error + string) \<times> ('d, 'j, 'm) plugin_manager" where
  "install_plugin_bytes env zip_bytes mg =
     finish_install env (install_from_bytes env (pg_loader mg) zip_bytes (pg_disk mg)) mg"

definition uninstall_plugin ::
  "('d, 'j, 'm) plugin_env \<Rightarrow> u64 \<Rightarrow> string \<Rightarrow> ('d, 'j, 'm) plugin_manager \<Rightarrow>
     (plugin_error + unit) \<times> ('d, 'j, 'm) plugin_manager" where
  "uninstall_plugin env now plugin_id mg =
     bind_res (on_registry (unregister plugin_id) (snd (unload_plugin now plugin_id mg))) (\<lambda>_ mg.
     bind_res (case uninstall env (pg_loader mg) plugin_id (pg_disk mg) of (r, d) \<Rightarrow> (r, mg\<lparr>pg_disk := d\<rparr>)) (\<lambda>_ mg.
       save_registry env mg))"

definition enable_plugin ::
  "('d, 'j, 'm) plugin_env \<Rightarrow> string \<Rightarrow> ('d, 'j, 'm) plugin_manager \<Rightarrow>
     (plugin_error + unit) \<times> ('d, 'j, 'm) plugin_manager" where
  "enable_plugin env plugin_id mg = bind_res (on_registry (enable plugin_id) mg) (\<lambda>_ mg. save_registry env mg)"

definition disable_plugin ::
  "('d, 'j, 'm) plugin_env \<Rightarrow> u64 \<Rightarrow> string \<Rightarrow> ('d, 'j, 'm) plugin_manager \<Rightarrow>
     (plugin_error + unit) \<times> ('d, 'j, 'm) plugin_manager" where
  "disable_plugin env now plugin_id mg =
     bind_res (on_registry (disable plugin_id) (snd (unload_plugin now plugin_id mg))) (\<lambda>_ mg. save_registry env mg)"

definition update_config ::
  "('d, 'j, 'm) plugin_env \<Rightarrow> u64 \<Rightarrow> string \<Rightarrow> (string, 'j) hmap \<Rightarrow> ('d, 'j, 'm) plugin_manager \<Rightarrow>
     (plugin_error + unit) \<times> ('d, 'j, 'm) plugin_manager" where
  "update_config env now plugin_id config mg =
     bind_res (on_registry (set_config plugin_id config) mg) (\<lambda>_ mg.
     bind_res (save_registry env mg) (\<lambda>_ mg.
       if hm_contains (pg_running mg) plugin_id
       then bind_res (unload_plugin now plugin_id mg) (\<lambda>_ mg. load_plugin env now plugin_id mg)
       else (Inr (), mg)))"

definition running_plugins :: "('d, 'j, 'm) plugin_manager \<Rightarrow> string list" where
  "running_plugins mg = hm_keys (pg_running mg)"

record plugin_info =
  if_id :: string
  if_name :: string
  if_version :: string
  if_author :: string
  if_description :: string
  if_capabilities :: "capability list"
  if_state :: plugin_state
  if_enabled :: bool
  if_error :: "string option"

definition from_entry :: "'j registry_entry \<Rightarrow> plugin_info" where
  "from_entry e =
     \<lparr>if_id = mn_id (re_manifest e), if_name = mn_name (re_manifest e), if_version = mn_version (re_manifest e),
      if_author = mn_author (re_manifest e), if_description = mn_description (re_manifest e),
      if_capabilities = mn_capabilities (re_manifest e), if_state = re_state e, if_enabled = re_enabled e,
      if_error = re_last_error e\<rparr>"

definition get_plugin_info :: "('d, 'j, 'm) plugin_manager \<Rightarrow> string \<Rightarrow> plugin_info option" where
  "get_plugin_info mg plugin_id = map_option from_entry (get_entry (pg_registry mg) plugin_id)"

definition list_plugins :: "('d, 'j, 'm) plugin_manager \<Rightarrow> plugin_info list" where
  "list_plugins mg = map from_entry (list_all_entries (pg_registry mg))"

definition get_plugins_by_capability :: "('d, 'j, 'm) plugin_manager \<Rightarrow> capability \<Rightarrow> plugin_info list" where
  "get_plugins_by_capability mg c = map from_entry (get_by_capability (pg_registry mg) c)"

text \<open>
  Events and queries reach the running plugins with the capability, which are not yet called: the queries
  answer with their defaults.
\<close>

definition addressed :: "('d, 'j, 'm) plugin_manager \<Rightarrow> capability \<Rightarrow> string list" where
  "addressed mg c =
     filter (\<lambda>i. case get_entry (pg_registry mg) i of Some e \<Rightarrow> entry_has_capability e c | None \<Rightarrow> False)
       (hm_keys (pg_running mg))"

definition emit_event :: "('d, 'j, 'm) plugin_manager \<Rightarrow> string list" where
  "emit_event mg = addressed mg EventHooks"

datatype policy_decision = Allow | Deny string | RequireAuth string

datatype traffic_class = UltraReliableLowLatency u8 | Standard u8 | Background u8 | Drop

definition query_network_selection :: "('d, 'j, 'm) plugin_manager \<Rightarrow> string list \<times> string option" where
  "query_network_selection mg = (addressed mg NetworkPolicy, None)"

definition query_exit_node_selection :: "('d, 'j, 'm) plugin_manager \<Rightarrow> string list \<times> string option" where
  "query_exit_node_selection mg = (addressed mg NetworkPolicy, None)"

definition query_connection_validation :: "('d, 'j, 'm) plugin_manager \<Rightarrow> string list \<times> policy_decision" where
  "query_connection_validation mg = (addressed mg NetworkPolicy, Allow)"

definition classify_packet :: "('d, 'j, 'm) plugin_manager \<Rightarrow> string list \<times> traffic_class" where
  "classify_packet mg = (addressed mg QosEnforcement, Standard 0)"

definition manager_shutdown ::
  "('d, 'j, 'm) plugin_env \<Rightarrow> (string \<Rightarrow> u64) \<Rightarrow> ('d, 'j, 'm) plugin_manager \<Rightarrow>
     (plugin_error + unit) \<times> ('d, 'j, 'm) plugin_manager" where
  "manager_shutdown env now mg = save_registry env (unload_all now mg)"

section \<open>Disabled plugins do not run\<close>

datatype 'j mgr_op =
    MInitialize
  | MDiscover
  | MLoad u64 string
  | MUnload u64 string
  | MLoadAll "string \<Rightarrow> u64"
  | MUnloadAll "string \<Rightarrow> u64"
  | MInstall path
  | MInstallBytes string
  | MUninstall u64 string
  | MEnable string
  | MDisable u64 string
  | MUpdateConfig u64 string "(string, 'j) hmap"
  | MShutdown "string \<Rightarrow> u64"

definition outcome :: "(plugin_error + 'a) \<times> 's \<Rightarrow> plugin_error option list \<times> 's" where
  "outcome r = ([case fst r of Inl e \<Rightarrow> Some e | Inr _ \<Rightarrow> None], snd r)"

fun mgr_step ::
  "('d, 'j, 'm) plugin_env \<Rightarrow> 'j mgr_op \<Rightarrow> ('d, 'j, 'm) plugin_manager \<Rightarrow>
     plugin_error option list \<times> ('d, 'j, 'm) plugin_manager" where
  "mgr_step env MInitialize mg = outcome (initialize env mg)"
| "mgr_step env MDiscover mg = outcome (discover_plugins env mg)"
| "mgr_step env (MLoad now i) mg = outcome (load_plugin env now i mg)"
| "mgr_step env (MUnload now i) mg = outcome (unload_plugin now i mg)"
| "mgr_step env (MLoadAll now) mg = ([], load_all env now mg)"
| "mgr_step env (MUnloadAll now) mg = ([], unload_all now mg)"
| "mgr_step env (MInstall p) mg = outcome (install_plugin env p mg)"
| "mgr_step env (MInstallBytes b) mg = outcome (install_plugin_bytes env b mg)"
| "mgr_step env (MUninstall now i) mg = outcome (uninstall_plugin env now i mg)"
| "mgr_step env (MEnable i) mg = outcome (enable_plugin env i mg)"
| "mgr_step env (MDisable now i) mg = outcome (disable_plugin env now i mg)"
| "mgr_step env (MUpdateConfig now i cfg) mg = outcome (update_config env now i cfg mg)"
| "mgr_step env (MShutdown now) mg = outcome (manager_shutdown env now mg)"

definition runs_enabled :: "('d, 'j, 'm) plugin_manager \<Rightarrow> bool" where
  "runs_enabled mg \<longleftrightarrow>
     (\<forall>i. hm_get (pg_running mg) i \<noteq> None \<longrightarrow> (\<exists>e. get_entry (pg_registry mg) i = Some e \<and> re_enabled e))"

lemma bind_res_inv:
  assumes "I (snd r)" and "\<And>a s. r = (Inr a, s) \<Longrightarrow> I s \<Longrightarrow> I (snd (f a s))"
  shows "I (snd (bind_res r f))"
  using assms by (cases r) (auto simp: bind_res_def split: sum.split)

lemmas bind_runs = bind_res_inv [where I = runs_enabled]

lemma bind_res_unit: "fst r = Inr () \<Longrightarrow> bind_res r f = f () (snd r)"
  by (cases r) (simp add: bind_res_def)

lemma fst_with_entry [simp]:
  "fst (with_entry i f reg) = (if get_entry reg i = None then Inl (NotFound i) else Inr ())"
  by (simp add: with_entry_def get_entry_def split: option.split)

lemma get_with_entry [simp]:
  "get_entry (snd (with_entry i f reg)) j = (if j = i then map_option f (get_entry reg i) else get_entry reg j)"
  by (auto simp: with_entry_def get_entry_def split: option.split)

lemma get_register [simp]:
  "get_entry (snd (register p reg)) j = (if j = package_id p then Some (from_package p) else get_entry reg j)"
  by (auto simp: register_def get_entry_def from_package_def Let_def)

lemma get_unregister [simp]:
  "get_entry (snd (unregister i reg)) j = (if j = i then None else get_entry reg j)"
  by (auto simp: unregister_def get_entry_def split: option.split)

lemma on_registry_simps [simp]:
  "pg_registry (snd (on_registry f mg)) = snd (f (pg_registry mg))"
  "pg_running (snd (on_registry f mg)) = pg_running mg"
  "pg_disk (snd (on_registry f mg)) = pg_disk mg"
  "pg_loader (snd (on_registry f mg)) = pg_loader mg"
  "fst (on_registry f mg) = fst (f (pg_registry mg))"
  by (simp_all add: on_registry_def split: prod.split)

lemma save_registry_simps [simp]:
  "pg_registry (snd (save_registry env mg)) = pg_registry mg"
  "pg_running (snd (save_registry env mg)) = pg_running mg"
  by (simp_all add: save_registry_def split: prod.split)

text \<open>A change of an entry that does not disable it.\<close>

lemma runs_enabled_with_entry:
  assumes "runs_enabled mg" and "\<And>e. re_enabled e \<Longrightarrow> re_enabled (f e)"
  shows "runs_enabled (snd (on_registry (with_entry i f) mg))"
  using assms by (fastforce simp: runs_enabled_def)

lemma entry_set_state_enabled [simp]: "re_enabled (entry_set_state now st e) = re_enabled e"
  by (simp add: entry_set_state_def Let_def)

lemma runs_enabled_set_state: "runs_enabled mg \<Longrightarrow> runs_enabled (snd (on_registry (set_state now i st) mg))"
  unfolding set_state_def by (rule runs_enabled_with_entry) simp_all

lemma runs_enabled_set_error: "runs_enabled mg \<Longrightarrow> runs_enabled (snd (on_registry (set_error i e) mg))"
  unfolding set_error_def by (rule runs_enabled_with_entry) simp_all

lemma runs_enabled_set_config: "runs_enabled mg \<Longrightarrow> runs_enabled (snd (on_registry (set_config i cfg) mg))"
  unfolding set_config_def by (rule runs_enabled_with_entry) simp_all

lemma runs_enabled_enable: "runs_enabled mg \<Longrightarrow> runs_enabled (snd (on_registry (enable i) mg))"
  unfolding enable_def by (rule runs_enabled_with_entry) (simp_all add: Let_def)

lemma runs_enabled_save: "runs_enabled mg \<Longrightarrow> runs_enabled (snd (save_registry env mg))"
  by (simp add: runs_enabled_def)

lemma runs_enabled_disk [simp]: "runs_enabled (mg\<lparr>pg_disk := d\<rparr>) = runs_enabled mg"
  by (simp add: runs_enabled_def)

lemma runs_enabled_register: "runs_enabled mg \<Longrightarrow> runs_enabled (snd (on_registry (register p) mg))"
  by (auto simp: runs_enabled_def from_package_def)

lemmas runs_enabled_calls = runs_enabled_set_state runs_enabled_set_error runs_enabled_set_config
  runs_enabled_enable runs_enabled_save runs_enabled_register

lemma runs_enabled_unload: "runs_enabled mg \<Longrightarrow> runs_enabled (snd (unload_plugin now i mg))"
proof -
  assume "runs_enabled mg"
  then have "runs_enabled (mg\<lparr>pg_running := hm_remove i (pg_running mg)\<rparr>)" by (simp add: runs_enabled_def)
  with \<open>runs_enabled mg\<close> show ?thesis by (simp add: unload_plugin_def runs_enabled_set_state)
qed

lemma unload_not_running [simp]: "hm_get (pg_running (snd (unload_plugin now i mg))) i = None"
  by (simp add: unload_plugin_def hm_contains_def)

text \<open>What loading does once the plugin is known, enabled and not running.\<close>

definition started :: "'j registry_entry \<Rightarrow> string \<Rightarrow> 'm plugin_instance \<Rightarrow> 'j plugin_package \<Rightarrow> ('j, 'm) running_plugin" where
  "started e i inst p =
     \<lparr>rp_instance = inst, rp_host = with_config (re_config e) (host_state_new i), rp_package = p\<rparr>"

lemma load_plugin_cases:
  fixes mg :: "('d, 'j, 'm) plugin_manager" and now :: u64
  assumes "\<not> hm_contains (pg_running mg) i" and "get_entry (pg_registry mg) i = Some e" and "re_enabled e"
  defines "mg1 \<equiv> snd (on_registry (set_state now i Loading) mg)"
  shows "load_plugin env now i mg =
    (case load_plugin_package env (pg_loader mg) (re_path e) (pg_disk mg) of
       Inl err \<Rightarrow> (Inl err, mg1)
     | Inr p \<Rightarrow>
         (case load_into_sandbox env p (pg_disk mg) of
            Inl err \<Rightarrow> (Inl err, snd (on_registry (set_error i (show_plugin_error err)) mg1))
          | Inr inst \<Rightarrow>
              (Inr (), snd (on_registry (set_state now i Loaded)
                 (mg1\<lparr>pg_running := hm_insert i (started e i inst p) (pg_running mg)\<rparr>)))))"
proof -
  have same: "pg_loader mg1 = pg_loader mg" "pg_disk mg1 = pg_disk mg" "pg_running mg1 = pg_running mg"
    by (simp_all add: mg1_def)
  have known: "get_entry (pg_registry mg1) i \<noteq> None" by (simp add: mg1_def set_state_def assms(2))
  have 1: "on_registry (set_state now i Loading) mg = (Inr (), mg1)"
    unfolding mg1_def by (rule prod_eqI) (simp_all add: set_state_def assms(2))
  have 2: "bind_res (on_registry (set_error i x) mg1) f = f () (snd (on_registry (set_error i x) mg1))" for x f
    using known by (intro bind_res_unit) (simp add: set_error_def)
  have 3: "on_registry (set_state now i Loaded) (mg1\<lparr>pg_running := r\<rparr>)
      = (Inr (), snd (on_registry (set_state now i Loaded) (mg1\<lparr>pg_running := r\<rparr>)))" for r
    using known by (intro prod_eqI) (simp_all add: set_state_def)
  have "load_plugin env now i mg =
    (case load_plugin_package env (pg_loader mg) (re_path e) (pg_disk mg) of
       Inl err \<Rightarrow> (Inl err, mg1)
     | Inr p \<Rightarrow>
         (case load_into_sandbox env p (pg_disk mg) of
            Inl err \<Rightarrow> (Inl err, snd (on_registry (set_error i (show_plugin_error err)) mg1))
          | Inr inst \<Rightarrow> on_registry (set_state now i Loaded)
                 (mg1\<lparr>pg_running := hm_insert i (started e i inst p) (pg_running mg)\<rparr>)))"
    using assms(1-3) by (simp add: load_plugin_def 1 2 bind_res_unit same started_def split: sum.split)
  then show ?thesis by (simp add: 3 [symmetric] split: sum.split)
qed

lemma runs_enabled_load: "runs_enabled mg \<Longrightarrow> runs_enabled (snd (load_plugin env now i mg))"
proof -
  assume ok: "runs_enabled mg"
  consider "hm_contains (pg_running mg) i \<or> get_entry (pg_registry mg) i = None"
    | e where "get_entry (pg_registry mg) i = Some e" "\<not> re_enabled e"
    | e where "\<not> hm_contains (pg_running mg) i" "get_entry (pg_registry mg) i = Some e" "re_enabled e" by blast
  then show ?thesis
  proof cases
    case 3
    let ?mg = "snd (on_registry (set_state now i Loading) mg)"
    have ok': "runs_enabled ?mg" using ok by (rule runs_enabled_set_state)
    have "get_entry (pg_registry ?mg) i = Some (entry_set_state now Loading e)" by (simp add: set_state_def 3)
    with ok' 3 have run: "runs_enabled (?mg\<lparr>pg_running := hm_insert i rp (pg_running mg)\<rparr>)" for rp
      by (auto simp: runs_enabled_def)
    show ?thesis
      unfolding load_plugin_cases [OF 3] using ok' run
      by (simp add: runs_enabled_calls split: sum.split del: on_registry_simps)
  qed (use ok in \<open>auto simp: load_plugin_def split: option.split\<close>)
qed

lemma runs_enabled_fold:
  assumes "\<And>x mg. runs_enabled mg \<Longrightarrow> runs_enabled (f x mg)" and "runs_enabled mg"
  shows "runs_enabled (fold f xs mg)"
  using assms by (induction xs arbitrary: mg) simp_all

lemma runs_enabled_install: "runs_enabled mg \<Longrightarrow> runs_enabled (snd (finish_install env r mg))"
  unfolding finish_install_def
  by (auto split: prod.split sum.split intro!: bind_runs runs_enabled_calls simp del: on_registry_simps)

lemma runs_enabled_without:
  assumes "runs_enabled mg" and "hm_get (pg_running mg) i = None"
    and "\<And>j. j \<noteq> i \<Longrightarrow> get_entry (snd (f (pg_registry mg))) j = get_entry (pg_registry mg) j"
  shows "runs_enabled (snd (on_registry f mg))"
  unfolding runs_enabled_def on_registry_simps
proof (intro allI impI)
  fix j assume j: "hm_get (pg_running mg) j \<noteq> None"
  with assms(2) have "j \<noteq> i" by auto
  with assms(1,3) j show "\<exists>e. get_entry (snd (f (pg_registry mg))) j = Some e \<and> re_enabled e"
    by (simp add: runs_enabled_def)
qed

lemma runs_enabled_uninstall: "runs_enabled mg \<Longrightarrow> runs_enabled (snd (uninstall_plugin env now i mg))"
proof -
  assume "runs_enabled mg"
  then have "runs_enabled (snd (on_registry (unregister i) (snd (unload_plugin now i mg))))"
    by (intro runs_enabled_without [where i = i]) (simp_all add: runs_enabled_unload)
  then show ?thesis
    unfolding uninstall_plugin_def
    by (intro bind_runs runs_enabled_save) (auto split: prod.split simp del: on_registry_simps)
qed

lemma runs_enabled_disable: "runs_enabled mg \<Longrightarrow> runs_enabled (snd (disable_plugin env now i mg))"
proof -
  assume "runs_enabled mg"
  then have "runs_enabled (snd (on_registry (disable i) (snd (unload_plugin now i mg))))"
    by (intro runs_enabled_without [where i = i]) (simp_all add: runs_enabled_unload disable_def)
  then show ?thesis unfolding disable_plugin_def by (intro bind_runs runs_enabled_save)
qed

lemma runs_enabled_update: "runs_enabled mg \<Longrightarrow> runs_enabled (snd (update_config env now i cfg mg))"
  unfolding update_config_def
  by (intro bind_runs) (auto intro!: bind_runs runs_enabled_calls runs_enabled_unload runs_enabled_load
      simp del: on_registry_simps save_registry_simps)

definition not_discover :: "'j mgr_op \<Rightarrow> bool" where
  "not_discover x = (case x of MInitialize \<Rightarrow> False | MDiscover \<Rightarrow> False | _ \<Rightarrow> True)"

lemma mgr_step_enabled:
  assumes "runs_enabled mg" and "not_discover x"
  shows "runs_enabled (snd (mgr_step env x mg))"
proof (cases x)
  case (MLoadAll now)
  then show ?thesis using assms(1) by (auto simp: load_all_def intro!: runs_enabled_fold runs_enabled_load)
next
  case (MUnloadAll now)
  then show ?thesis using assms(1) by (auto simp: unload_all_def intro!: runs_enabled_fold runs_enabled_unload)
next
  case (MShutdown now)
  then show ?thesis using assms(1)
    by (auto simp: manager_shutdown_def outcome_def unload_all_def
        intro!: runs_enabled_save runs_enabled_fold runs_enabled_unload simp del: save_registry_simps)
next
  case (MEnable i)
  then show ?thesis using assms(1)
    by (auto simp: enable_plugin_def outcome_def intro!: bind_runs runs_enabled_calls
        simp del: on_registry_simps save_registry_simps)
qed (use assms in \<open>simp_all add: outcome_def not_discover_def runs_enabled_load runs_enabled_unload
       install_plugin_def install_plugin_bytes_def runs_enabled_install runs_enabled_uninstall
       runs_enabled_disable runs_enabled_update\<close>)

interpretation mgr: guarded_machine "mgr_step env" runs_enabled not_discover for env
  by unfold_locales (rule mgr_step_enabled)

text \<open>
  C24. Only enabled plugins run. Starting with nothing running, after any sequence of operations of the
  manager other than a new initialisation or discovery, in any environment and with any failures of the disk, the codec
  and the compiler, every running plugin is registered and enabled.
\<close>

theorem running_plugins_enabled:
  assumes "pg_running mg = []" and "list_all not_discover ops"
    and "i \<in> set (running_plugins (snd (run_ops (mgr_step env) ops mg)))"
  shows "\<exists>e. get_entry (pg_registry (snd (run_ops (mgr_step env) ops mg))) i = Some e \<and> re_enabled e"
proof -
  have "runs_enabled (snd (run_ops (mgr_step env) ops mg))"
    using assms(1,2) by (intro mgr.run_guarded) (simp_all add: runs_enabled_def)
  with assms(3) show ?thesis by (simp add: runs_enabled_def running_plugins_def hm_keys_get)
qed

section \<open>Packages\<close>

lemma map_error_Inr [simp]: "map_error f r = Inr a \<longleftrightarrow> r = Inr a"
  by (cases r) simp_all

lemma load_plugin_package_Inr:
  assumes "load_plugin_package env ld dir d = Inr p"
  shows "\<exists>content w sig. dk_read_to_string (pe_disk env) (path_join dir ''manifest.json'') d = Inr content
    \<and> pe_parse_manifest env content = Inr (pp_manifest p) \<and> validate (pe_unicode env) (pp_manifest p) = Inr ()
    \<and> dk_read (pe_disk env) (pp_wasm_path p) d = Inr w \<and> pp_wasm_hash p = pe_sha256 env w \<and> pp_path p = dir
    \<and> load_signature env dir d = Inr (pp_signature p)
    \<and> (ld_require_signatures ld \<longrightarrow> (\<exists>sig. pp_signature p = Some sig \<and> verify_signature ld w sig = Inr ()))"
  using assms
  by (auto simp: load_plugin_package_def Let_def and_then_Inr_iff split: if_splits option.splits)

lemma verify_signature_Inr:
  "verify_signature ld w sig = Inr () \<longleftrightarrow>
     (ld_trusted_signers ld = [] \<or> sg_public_key sig \<in> set (ld_trusted_signers ld))
     \<and> length (sg_signature sig) = 128 \<and> length (sg_public_key sig) = 64"
  by (cases "sg_algorithm sig") (auto simp: verify_signature_def)

text \<open>
  C25. What is checked of a package. A package is accepted only with a manifest that validates, and carries
  the hash of the module it was read with. When signatures are required, it is accepted only with a signature of the right
  lengths, and only by a trusted key if any key is listed as trusted; with an empty list, the default,
  any key will do. The signature itself is never verified: any text of
  128 bytes is accepted in its place, for any module.
\<close>

theorem package_checks:
  assumes "load_plugin_package env ld dir d = Inr p"
  shows "validate (pe_unicode env) (pp_manifest p) = Inr ()
    \<and> (\<exists>w. dk_read (pe_disk env) (pp_wasm_path p) d = Inr w \<and> pp_wasm_hash p = pe_sha256 env w)
    \<and> (ld_require_signatures ld \<longrightarrow>
      (\<exists>sig. pp_signature p = Some sig \<and> length (sg_public_key sig) = 64 \<and> length (sg_signature sig) = 128
        \<and> (ld_trusted_signers ld \<noteq> [] \<longrightarrow> sg_public_key sig \<in> set (ld_trusted_signers ld))
        \<and> (\<forall>w' s'. length s' = 128 \<longrightarrow> verify_signature ld w' (sig\<lparr>sg_signature := s'\<rparr>) = Inr ())))"
  using load_plugin_package_Inr [OF assms] by (auto simp: verify_signature_Inr)

lemma load_into_sandbox_fresh:
  assumes "load_plugin_package env ld dir d = Inr p" and "dk_read (pe_disk env) (pp_wasm_path p) d = Inr w"
  shows "load_into_sandbox env p d =
    (case pe_compile env w of
       Inl e \<Rightarrow> Inl (CompilationError e)
     | Inr m \<Rightarrow> Inr \<lparr>pi_module = m, pi_plugin_id = package_id p\<rparr>)"
  using load_plugin_package_Inr [OF assms(1)] assms(2)
  by (auto simp: load_into_sandbox_def split: sum.split)

lemma load_plugin_fresh:
  assumes "\<not> hm_contains (pg_running mg) i" and "get_entry (pg_registry mg) i = Some e" and "re_enabled e"
    and "load_plugin_package env (pg_loader mg) (re_path e) (pg_disk mg) = Inr p"
    and "dk_read (pe_disk env) (pp_wasm_path p) (pg_disk mg) = Inr w" and "pe_compile env w = Inr m"
  shows "load_plugin env now i mg = (Inr (), snd (on_registry (set_state now i Loaded)
      (snd (on_registry (set_state now i Loading) mg)
         \<lparr>pg_running := hm_insert i (started e i \<lparr>pi_module = m, pi_plugin_id = package_id p\<rparr> p) (pg_running mg)\<rparr>)))"
  using load_into_sandbox_fresh [OF assms(4,5)] assms(6)
  by (simp add: load_plugin_cases [OF assms(1-3)] assms(4))

text \<open>
  The module is not pinned. Loading a plugin runs whatever module its directory holds now: the hash
  recorded when the plugin was registered is not compared, nor is the identifier in the manifest. For
  a plugin that is enabled, not running and whose directory holds a loadable package, loading succeeds
  and the compiled current module runs under the old identifier with the configuration of the registry.
\<close>

theorem loaded_module_unpinned:
  assumes "\<not> hm_contains (pg_running mg) i" and "get_entry (pg_registry mg) i = Some e" and "re_enabled e"
    and "load_plugin_package env (pg_loader mg) (re_path e) (pg_disk mg) = Inr p"
    and "dk_read (pe_disk env) (pp_wasm_path p) (pg_disk mg) = Inr w" and "pe_compile env w = Inr m"
  shows "fst (load_plugin env now i mg) = Inr ()
    \<and> (\<exists>rp. hm_get (pg_running (snd (load_plugin env now i mg))) i = Some rp
      \<and> pi_module (rp_instance rp) = m \<and> hs_config (rp_host rp) = re_config e)
    \<and> map_option re_state (get_entry (pg_registry (snd (load_plugin env now i mg))) i) = Some Loaded
    \<and> map_option re_wasm_hash (get_entry (pg_registry (snd (load_plugin env now i mg))) i) = Some (re_wasm_hash e)"
proof (intro conjI)
  note l = load_plugin_fresh [OF assms]
  show "fst (load_plugin env now i mg) = Inr ()" by (simp add: l)
  show "\<exists>rp. hm_get (pg_running (snd (load_plugin env now i mg))) i = Some rp
      \<and> pi_module (rp_instance rp) = m \<and> hs_config (rp_host rp) = re_config e"
    by (simp add: l started_def with_config_def)
  show "map_option re_state (get_entry (pg_registry (snd (load_plugin env now i mg))) i) = Some Loaded"
    and "map_option re_wasm_hash (get_entry (pg_registry (snd (load_plugin env now i mg))) i) = Some (re_wasm_hash e)"
    by (simp_all add: l set_state_def assms(2) entry_set_state_def)
qed

text \<open>
  A package that cannot be read leaves the plugin loading. When the directory of an enabled plugin has
  no acceptable package, the error is returned but not recorded: the registry shows the plugin as
  loading, with no error, although nothing is in progress.
\<close>

theorem failed_load_stays_loading:
  assumes "\<not> hm_contains (pg_running mg) i" and "get_entry (pg_registry mg) i = Some e" and "re_enabled e"
    and "load_plugin_package env (pg_loader mg) (re_path e) (pg_disk mg) = Inl err"
  shows "fst (load_plugin env now i mg) = Inl err
    \<and> map_option if_state (get_plugin_info (snd (load_plugin env now i mg)) i) = Some Loading
    \<and> map_option if_error (get_plugin_info (snd (load_plugin env now i mg)) i) = Some None
    \<and> pg_running (snd (load_plugin env now i mg)) = pg_running mg"
  by (simp add: load_plugin_cases [OF assms(1-3)] assms(2,4) get_plugin_info_def from_entry_def set_state_def
      entry_set_state_def Let_def)

text \<open>
  An archive can write anywhere. An entry with an absolute name is extracted to that very path,
  whatever the directory of the plugin, and one that climbs with \<open>..\<close> is joined to the
  directory as it stands: names are not checked.
\<close>

theorem archive_escapes:
  assumes "is_absolute (zf_name file)"
  shows "extract_file env plugin_dir file d = extract_file env other_dir file d
    \<and> (\<not> zf_is_dir file \<longrightarrow> path_parent (zf_name file) = Some parent \<longrightarrow>
      dk_create_dir_all (pe_disk env) parent d = (Inr (), d1) \<longrightarrow>
      snd (extract_file env plugin_dir file d) = snd (dk_write (pe_disk env) (zf_name file) (zf_content file) d1))"
  using assms by (simp add: extract_file_def path_join_def Let_def split: prod.split)

text \<open>
  Installing again enables. Whatever state a plugin was in, also disabled by the user or with a
  changed configuration, installing an archive of it leaves it enabled, with the default configuration.
\<close>

theorem reinstall_enables:
  assumes "install_plugin_bytes env zip_bytes mg = (Inr i, mg')"
  shows "(\<exists>e. get_entry (pg_registry mg') i = Some e \<and> re_enabled e \<and> re_state e = Discovered
      \<and> re_config e = mn_default_config (re_manifest e))
    \<and> pg_running mg' = pg_running mg"
proof (intro conjI)
  obtain r d where r: "install_from_bytes env (pg_loader mg) zip_bytes (pg_disk mg) = (r, d)" by fastforce
  have reg: "bind_res (on_registry (register p) m) f = f () (snd (on_registry (register p) m))" for p m f
    by (rule bind_res_unit) (simp add: register_def Let_def)
  from assms obtain p where p: "r = Inr p" by (cases r) (simp_all add: install_plugin_bytes_def finish_install_def r)
  let ?m = "snd (on_registry (register p) (mg\<lparr>pg_disk := d\<rparr>))"
  have "bind_res (save_registry env ?m) (\<lambda>_ mg. (Inr (package_id p), mg)) = (Inr i, mg')"
    using assms by (simp add: install_plugin_bytes_def finish_install_def r p reg)
  then have m: "i = package_id p" "mg' = snd (save_registry env ?m)"
    by (auto simp: bind_res_def split: prod.splits sum.splits)
  show "\<exists>e. get_entry (pg_registry mg') i = Some e \<and> re_enabled e \<and> re_state e = Discovered
      \<and> re_config e = mn_default_config (re_manifest e)"
    by (simp add: m from_package_def)
  show "pg_running mg' = pg_running mg" by (simp add: m)
qed

section \<open>Witnesses\<close>

text \<open>
  A disk as a map, a manifest parser that knows one manifest, a JSON parser that knows one signature, and a
  compiler that returns the module itself.
\<close>

definition mgr_env :: "zip_archive \<Rightarrow> (path \<Rightarrow> string option, unit, string) plugin_env" where
  "mgr_env z =
     \<lparr>pe_disk = map_disk, pe_codec = one_state [(''a.b'', \<lparr>se_enabled = True, se_config = []\<rparr>)],
      pe_unicode = ascii_only, pe_parse_manifest = (\<lambda>s. Inr (demo_manifest ''a.b'' [EventHooks])),
      pe_parse_json = (\<lambda>s. Inr [''public_key'' \<mapsto> replicate 64 (CHR ''0''), ''signature'' \<mapsto> replicate 128 (CHR ''0'')]),
      pe_sha256 = (\<lambda>s. s), pe_compile = (\<lambda>s. Inr s), pe_show_path = (\<lambda>p. p), pe_unzip = (\<lambda>s. Inr z),
      pe_link = Inr ()\<rparr>"

definition demo_zip :: zip_archive where
  "demo_zip =
     \<lparr>za_by_name = [''manifest.json'' \<mapsto> Inr ''{}''],
      za_entries = [Inr \<lparr>zf_name = ''manifest.json'', zf_is_dir = False, zf_content = ''{}''\<rparr>,
                    Inr \<lparr>zf_name = ''plugin.wasm'', zf_is_dir = False, zf_content = ''module''\<rparr>]\<rparr>"

definition demo_disk :: "path \<Rightarrow> string option" where
  "demo_disk = [''/p/manifest.json'' \<mapsto> ''{}'', ''/p/plugin.wasm'' \<mapsto> ''module'', ''/p/plugin.sig'' \<mapsto> ''{}'']"

definition demo_mgr :: "(path \<Rightarrow> string option, unit, string) plugin_manager" where
  "demo_mgr = (manager_new (plugin_config_default (Some ''/h'')) demo_disk)
     \<lparr>pg_registry := snd (register (demo_package ''a.b'' [EventHooks]) (registry_new ''/c/plugins.json''))\<rparr>"

lemma path_join_simple: "\<not> is_absolute q \<Longrightarrow> path_join ''/p'' q = ''/p/'' @ q"
  by (simp add: path_join_def ends_with_def starts_with_def)

lemma demo_manifest_valid: "validate ascii_only (demo_manifest ''a.b'' [EventHooks]) = Inr ()"
  by (simp add: validate_def demo_manifest_def manifest_new_def is_valid_semver_def is_valid_plugin_id_def Let_def
      ascii_only_def is_alphanumeric_def ascii_alphanumeric_def is_ascii_def parse_uint_def digit_val_def utf8_cont_def)

lemma demo_load:
  "load_plugin_package (mgr_env z) ld ''/p'' demo_disk =
     and_then (if ld_require_signatures ld
               then verify_signature ld ''module'' \<lparr>sg_public_key = replicate 64 (CHR ''0''), sg_signature = replicate 128 (CHR ''0''),
                 sg_algorithm = Ed25519\<rparr> else Inr ())
       (\<lambda>_. Inr \<lparr>pp_manifest = demo_manifest ''a.b'' [EventHooks], pp_path = ''/p'', pp_wasm_path = ''/p/plugin.wasm'',
         pp_wasm_hash = ''module'', pp_signature = Some \<lparr>sg_public_key = replicate 64 (CHR ''0''),
           sg_signature = replicate 128 (CHR ''0''), sg_algorithm = Ed25519\<rparr>\<rparr>)"
proof -
  have j: "path_join ''/p'' ''manifest.json'' = ''/p/manifest.json''" "path_join ''/p'' ''plugin.wasm'' = ''/p/plugin.wasm''"
    "path_join ''/p'' ''plugin.sig'' = ''/p/plugin.sig''"
    by (simp_all add: path_join_simple is_absolute_def starts_with_def)
  have e: "ep_wasm (mn_entry_points (demo_manifest ''a.b'' [EventHooks])) = None"
    by (simp add: demo_manifest_def manifest_new_def)
  show ?thesis
    by (simp add: load_plugin_package_def load_signature_def j e demo_manifest_valid Let_def mgr_env_def map_disk_def
        demo_disk_def)
qed

lemma demo_mgr_simps:
  "pg_running demo_mgr = []" "pg_disk demo_mgr = demo_disk" "ld_require_signatures (pg_loader demo_mgr) = False"
  "get_entry (pg_registry demo_mgr) ''a.b'' = Some (from_package (demo_package ''a.b'' [EventHooks]))"
  by (simp_all add: demo_mgr_def manager_new_def with_trusted_signers_def require_signatures_def
      plugin_config_default_def demo_package_def demo_manifest_def manifest_new_def)

abbreviation demo_loaded :: "unit plugin_package" where
  "demo_loaded \<equiv> \<lparr>pp_manifest = demo_manifest ''a.b'' [EventHooks], pp_path = ''/p'', pp_wasm_path = ''/p/plugin.wasm'',
         pp_wasm_hash = ''module'', pp_signature = Some \<lparr>sg_public_key = replicate 64 (CHR ''0''),
           sg_signature = replicate 128 (CHR ''0''), sg_algorithm = Ed25519\<rparr>\<rparr>"

lemma demo_mgr_loadable:
  "\<not> hm_contains (pg_running demo_mgr) ''a.b''"
  "get_entry (pg_registry demo_mgr) ''a.b'' = Some (from_package (demo_package ''a.b'' [EventHooks]))"
  "re_enabled (from_package (demo_package ''a.b'' [EventHooks]))"
  "load_plugin_package (mgr_env z) (pg_loader demo_mgr) (re_path (from_package (demo_package ''a.b'' [EventHooks])))
     (pg_disk demo_mgr) = Inr demo_loaded"
  "dk_read (pe_disk (mgr_env z)) (pp_wasm_path demo_loaded) (pg_disk demo_mgr) = Inr ''module''"
  "pe_compile (mgr_env z) ''module'' = Inr ''module''"
proof -
  have "re_path (from_package (demo_package ''a.b'' [EventHooks])) = ''/p''"
    by (simp add: from_package_def demo_package_def)
  then show "load_plugin_package (mgr_env z) (pg_loader demo_mgr) (re_path (from_package (demo_package ''a.b'' [EventHooks])))
     (pg_disk demo_mgr) = Inr demo_loaded"
    by (simp only: demo_mgr_simps demo_load) simp
qed (simp_all add: demo_mgr_simps hm_contains_def from_package_def mgr_env_def map_disk_def demo_disk_def)

theorem running_plugins_enabled_witness:
  "\<exists>e. get_entry (pg_registry (snd (run_ops (mgr_step (mgr_env demo_zip)) [MLoad 0 ''a.b''] demo_mgr))) ''a.b'' = Some e
     \<and> re_enabled e"
proof (rule running_plugins_enabled)
  have "hm_get (pg_running (snd (load_plugin (mgr_env demo_zip) 0 ''a.b'' demo_mgr))) ''a.b'' \<noteq> None"
    by (simp add: load_plugin_fresh [OF demo_mgr_loadable])
  then show "''a.b'' \<in> set (running_plugins (snd (run_ops (mgr_step (mgr_env demo_zip)) [MLoad 0 ''a.b''] demo_mgr)))"
    by (simp add: running_plugins_def hm_keys_get outcome_def)
qed (simp_all add: demo_mgr_simps not_discover_def)

text \<open>A loader that trusts one key takes the package of that key, and then the same key with any signature for any module.\<close>

definition strict_loader :: plugin_loader where
  "strict_loader = (require_signatures True (loader_new ''/x''))\<lparr>ld_trusted_signers := [replicate 64 (CHR ''0'')]\<rparr>"

theorem package_checks_witness:
  "verify_signature strict_loader ''evil''
     \<lparr>sg_public_key = replicate 64 (CHR ''0''), sg_signature = replicate 128 (CHR ''z''), sg_algorithm = Ed25519\<rparr> = Inr ()"
proof -
  have s: "ld_require_signatures strict_loader" "ld_trusted_signers strict_loader = [replicate 64 (CHR ''0'')]"
    by (simp_all add: strict_loader_def require_signatures_def)
  then have "verify_signature strict_loader ''module'' \<lparr>sg_public_key = replicate 64 (CHR ''0''), sg_signature = replicate 128 (CHR ''0''),
      sg_algorithm = Ed25519\<rparr> = Inr ()"
    by (simp add: verify_signature_Inr)
  then have "load_plugin_package (mgr_env demo_zip) strict_loader ''/p'' demo_disk = Inr demo_loaded"
    by (simp add: demo_load s)
  from package_checks [OF this] s show ?thesis
    by (auto dest: spec [of _ "replicate 128 (CHR ''z'')"])
qed

theorem loaded_module_unpinned_witness:
  "fst (load_plugin (mgr_env demo_zip) 0 ''a.b'' demo_mgr) = Inr ()
   \<and> pp_wasm_hash demo_loaded \<noteq> re_wasm_hash (from_package (demo_package ''a.b'' [EventHooks]))"
  using loaded_module_unpinned [OF demo_mgr_loadable, of demo_zip 0]
  by (simp add: from_package_def demo_package_def)

theorem failed_load_stays_loading_witness:
  "map_option if_state (get_plugin_info (snd (load_plugin (mgr_env demo_zip) 0 ''a.b'' (demo_mgr\<lparr>pg_disk := Map.empty\<rparr>))) ''a.b'')
     = Some Loading"
proof (rule failed_load_stays_loading [THEN conjunct2, THEN conjunct1])
  show "load_plugin_package (mgr_env demo_zip) (pg_loader (demo_mgr\<lparr>pg_disk := Map.empty\<rparr>))
      (re_path (from_package (demo_package ''a.b'' [EventHooks]))) (pg_disk (demo_mgr\<lparr>pg_disk := Map.empty\<rparr>))
      = Inl (InvalidManifest (''manifest.json not found in '' @ ''/p''))"
    by (simp add: load_plugin_package_def mgr_env_def map_disk_def Let_def from_package_def demo_package_def)
qed (simp_all add: demo_mgr_simps hm_contains_def from_package_def)

theorem archive_escapes_witness:
  "snd (extract_file (mgr_env demo_zip) ''/p'' \<lparr>zf_name = ''/etc/cron'', zf_is_dir = False, zf_content = ''x''\<rparr> demo_disk) ''/etc/cron''
     = Some ''x''"
proof -
  let ?f = "\<lparr>zf_name = ''/etc/cron'', zf_is_dir = False, zf_content = ''x''\<rparr>"
  have "snd (extract_file (mgr_env demo_zip) ''/p'' ?f demo_disk)
      = snd (dk_write (pe_disk (mgr_env demo_zip)) (zf_name ?f) (zf_content ?f) demo_disk)"
    by (rule archive_escapes [THEN conjunct2, rule_format, where parent = "''/etc''"])
       (simp_all add: is_absolute_def starts_with_def mgr_env_def map_disk_def path_parent_def body_pieces_def
         trim_pieces_right_def void_piece_def slash_def)
  then show ?thesis by (simp add: mgr_env_def map_disk_def)
qed

abbreviation user_disabled :: "(path \<Rightarrow> string option, unit, string) plugin_manager" where
  "user_disabled \<equiv> snd (on_registry (disable ''a.b'') (demo_mgr\<lparr>pg_loader := loader_new ''/q'', pg_disk := Map.empty\<rparr>))"

lemma demo_slug: "slug ascii_only (demo_manifest ''a.b'' [EventHooks]) = ''a-b''"
  by (simp add: slug_def demo_manifest_def manifest_new_def lowercase_char_def is_ascii_def to_lower_char_def
      utf8_cont_def)

lemma demo_install:
  "install_from_bytes (mgr_env demo_zip) (loader_new ''/q'') ''zip'' Map.empty =
     (Inr \<lparr>pp_manifest = demo_manifest ''a.b'' [EventHooks], pp_path = ''/q/a-b'', pp_wasm_path = ''/q/a-b/plugin.wasm'',
           pp_wasm_hash = ''module'', pp_signature = None\<rparr>,
      [''/q/a-b/manifest.json'' \<mapsto> ''{}'', ''/q/a-b/plugin.wasm'' \<mapsto> ''module''])"
proof -
  have j: "path_join ''/q'' ''a-b'' = ''/q/a-b''" "path_join ''/q/a-b'' ''manifest.json'' = ''/q/a-b/manifest.json''"
    "path_join ''/q/a-b'' ''plugin.wasm'' = ''/q/a-b/plugin.wasm''" "path_join ''/q/a-b'' ''plugin.sig'' = ''/q/a-b/plugin.sig''"
    by (simp_all add: path_join_def is_absolute_def starts_with_def ends_with_def)
  have u: "pe_unicode (mgr_env z) = ascii_only" "pe_disk (mgr_env z) = map_disk" "pe_sha256 (mgr_env z) = (\<lambda>s. s)"
    "pe_parse_manifest (mgr_env z) = (\<lambda>s. Inr (demo_manifest ''a.b'' [EventHooks]))" "pe_unzip (mgr_env z) = (\<lambda>s. Inr z)" for z
    by (simp_all add: mgr_env_def)
  have e: "ep_wasm (mn_entry_points (demo_manifest ''a.b'' [EventHooks])) = None"
    by (simp add: demo_manifest_def manifest_new_def)
  have a: "archive_manifest (mgr_env demo_zip) ''zip'' = Inr (demo_zip, demo_manifest ''a.b'' [EventHooks])"
    by (simp add: archive_manifest_def u demo_zip_def demo_manifest_valid)
  have x: "extract_all (mgr_env demo_zip) ''/q/a-b'' (za_entries demo_zip) Map.empty
      = (Inr (), [''/q/a-b/manifest.json'' \<mapsto> ''{}'', ''/q/a-b/plugin.wasm'' \<mapsto> ''module''])"
    by (simp add: demo_zip_def extract_file_def Let_def j u map_disk_def split: option.split)
  have p: "load_plugin_package (mgr_env demo_zip) (loader_new ''/q'') ''/q/a-b''
        [''/q/a-b/manifest.json'' \<mapsto> ''{}'', ''/q/a-b/plugin.wasm'' \<mapsto> ''module'']
      = Inr \<lparr>pp_manifest = demo_manifest ''a.b'' [EventHooks], pp_path = ''/q/a-b'', pp_wasm_path = ''/q/a-b/plugin.wasm'',
           pp_wasm_hash = ''module'', pp_signature = None\<rparr>"
    by (simp add: load_plugin_package_def load_signature_def j u e demo_manifest_valid Let_def map_disk_def loader_new_def)
  have c: "dk_create_dir_all map_disk q d = (Inr (), d)" for q d by (simp add: map_disk_def)
  have l: "ld_plugins_dir (loader_new ''/q'') = ''/q''" by (simp add: loader_new_def)
  show ?thesis by (simp add: install_from_bytes_def a u demo_slug j x p c l)
qed

theorem reinstall_enables_witness:
  "\<exists>e. get_entry (pg_registry (snd (install_plugin_bytes (mgr_env demo_zip) ''zip'' user_disabled))) ''a.b'' = Some e
     \<and> re_enabled e \<and> re_state e = Discovered \<and> re_config e = mn_default_config (re_manifest e)"
proof (rule reinstall_enables [THEN conjunct1])
  have d: "pg_loader user_disabled = loader_new ''/q''" "pg_disk user_disabled = Map.empty" by simp_all
  have "fst (install_plugin_bytes (mgr_env demo_zip) ''zip'' user_disabled) = Inr ''a.b''"
    unfolding install_plugin_bytes_def d demo_install finish_install_def
    by (simp add: bind_res_def on_registry_def register_def Let_def save_registry_def save_state_def mgr_env_def
        map_disk_def from_package_def demo_mgr_def disable_def with_entry_def registry_new_def demo_package_def
        demo_manifest_def manifest_new_def saved_state_def saved_entry_def one_state_def hm_insert_def hm_get_def
        path_parent_def)
  then show "install_plugin_bytes (mgr_env demo_zip) ''zip'' user_disabled
      = (Inr ''a.b'', snd (install_plugin_bytes (mgr_env demo_zip) ''zip'' user_disabled))"
    by (simp add: prod_eq_iff)
qed

end
