(* ===== verification/Transforms.thy ===== *)
theory Transforms
  imports Prelude Complex_Main
begin

text \<open>
  Rigid transforms of the data collection plugin (\<open>robotics/data_collection/transform.rs\<close>): the
  four representations of a rotation, their conversions, and the composition, inversion and
  application of transforms.

  An \<open>f64\<close> is a real number here: the rounding of floating point and the values NaN and infinity
  are left out, so the theorems are about the formulas of the code. Fixed-size arrays are tuples;
  the functions \<open>sin\<close>, \<open>cos\<close>, \<open>sqrt\<close> and \<open>arcsin\<close> are those of the library, and \<open>atan2\<close> is the
  argument of the complex number with the given parts.
\<close>

type_synonym f64 = real
type_synonym f32 = real
type_synonym vec3 = "f64 \<times> f64 \<times> f64"
type_synonym quat = "f64 \<times> f64 \<times> f64 \<times> f64"
type_synonym mat3 = "vec3 \<times> vec3 \<times> vec3"

definition atan2 :: "f64 \<Rightarrow> f64 \<Rightarrow> f64" where
  "atan2 y x = Arg (Complex x y)"

text \<open>\<open>f64::signum\<close>: 1 on (positive) zero.\<close>

definition signum :: "f64 \<Rightarrow> f64" where
  "signum x = (if x < 0 then -1 else 1)"

section \<open>Rotations\<close>

datatype rotation3d =
    Quaternion f64 f64 f64 f64
  | Euler f64 f64 f64
  | RotMatrix mat3
  | AxisAngle vec3 f64

definition rot_identity :: rotation3d where
  "rot_identity = Quaternion 0 0 0 1"

definition from_rotation_x :: "f64 \<Rightarrow> rotation3d" where
  "from_rotation_x angle = (let half = angle / 2 in Quaternion (sin half) 0 0 (cos half))"

definition from_rotation_y :: "f64 \<Rightarrow> rotation3d" where
  "from_rotation_y angle = (let half = angle / 2 in Quaternion 0 (sin half) 0 (cos half))"

definition from_rotation_z :: "f64 \<Rightarrow> rotation3d" where
  "from_rotation_z angle = (let half = angle / 2 in Quaternion 0 0 (sin half) (cos half))"

fun as_quaternion :: "rotation3d \<Rightarrow> quat" where
  "as_quaternion (Quaternion x y z w) = (x, y, z, w)"
| "as_quaternion (Euler roll pitch yaw) =
     (let sr = sin (roll / 2); cr = cos (roll / 2);
          sp = sin (pitch / 2); cp = cos (pitch / 2);
          sy = sin (yaw / 2); cy = cos (yaw / 2);
          w = cr * cp * cy + sr * sp * sy;
          x = sr * cp * cy - cr * sp * sy;
          y = cr * sp * cy + sr * cp * sy;
          z = cr * cp * sy - sr * sp * cy
      in (x, y, z, w))"
| "as_quaternion (RotMatrix ((d00, d01, d02), (d10, d11, d12), (d20, d21, d22))) =
     (let trace = d00 + d11 + d22 in
      if trace > 0 then
        let s = sqrt (trace + 1) * 2 in
        ((d21 - d12) / s, (d02 - d20) / s, (d10 - d01) / s, 0.25 * s)
      else if d00 > d11 \<and> d00 > d22 then
        let s = sqrt (1 + d00 - d11 - d22) * 2 in
        (0.25 * s, (d01 + d10) / s, (d02 + d20) / s, (d21 - d12) / s)
      else if d11 > d22 then
        let s = sqrt (1 + d11 - d00 - d22) * 2 in
        ((d01 + d10) / s, 0.25 * s, (d12 + d21) / s, (d02 - d20) / s)
      else
        let s = sqrt (1 + d22 - d00 - d11) * 2 in
        ((d02 + d20) / s, (d12 + d21) / s, 0.25 * s, (d10 - d01) / s))"
| "as_quaternion (AxisAngle (a0, a1, a2) angle) =
     (let half = angle / 2; s = sin half; norm = sqrt (a0 * a0 + a1 * a1 + a2 * a2) in
      if norm < 1 / 10 ^ 10 then (0, 0, 0, 1)
      else (a0 / norm * s, a1 / norm * s, a2 / norm * s, cos half))"

definition quat_matrix :: "quat \<Rightarrow> mat3" where
  "quat_matrix = (\<lambda>(x, y, z, w).
     let xx = x * x; yy = y * y; zz = z * z; xy = x * y; xz = x * z; yz = y * z;
         wx = w * x; wy = w * y; wz = w * z
     in ((1 - 2 * (yy + zz), 2 * (xy - wz), 2 * (xz + wy)),
         (2 * (xy + wz), 1 - 2 * (xx + zz), 2 * (yz - wx)),
         (2 * (xz - wy), 2 * (yz + wx), 1 - 2 * (xx + yy))))"

definition as_matrix :: "rotation3d \<Rightarrow> mat3" where
  "as_matrix r = quat_matrix (as_quaternion r)"

definition as_euler :: "rotation3d \<Rightarrow> vec3" where
  "as_euler r =
     (case as_matrix r of ((m00, m01, m02), (m10, m11, m12), (m20, m21, m22)) \<Rightarrow>
      let sy = - m02 in
      if \<bar>sy\<bar> > 0.99999
      then (atan2 m10 m11, pi / 2 * signum sy, 0)
      else (atan2 m12 m22, arcsin sy, atan2 m01 m00))"

definition quat_rotate :: "quat \<Rightarrow> vec3 \<Rightarrow> vec3" where
  "quat_rotate = (\<lambda>(qx, qy, qz, qw) (v0, v1, v2).
     let c0 = qy * v2 - qz * v1; c1 = qz * v0 - qx * v2; c2 = qx * v1 - qy * v0;
         e0 = qy * c2 - qz * c1; e1 = qz * c0 - qx * c2; e2 = qx * c1 - qy * c0
     in (v0 + 2 * (qw * c0 + e0), v1 + 2 * (qw * c1 + e1), v2 + 2 * (qw * c2 + e2)))"

definition rotate_vector :: "rotation3d \<Rightarrow> vec3 \<Rightarrow> vec3" where
  "rotate_vector r v = quat_rotate (as_quaternion r) v"

definition rot_inverse :: "rotation3d \<Rightarrow> rotation3d" where
  "rot_inverse r = (case as_quaternion r of (x, y, z, w) \<Rightarrow> Quaternion (- x) (- y) (- z) w)"

definition quat_mult :: "quat \<Rightarrow> quat \<Rightarrow> quat" where
  "quat_mult = (\<lambda>(x1, y1, z1, w1) (x2, y2, z2, w2).
     (w1 * x2 + x1 * w2 + y1 * z2 - z1 * y2,
      w1 * y2 - x1 * z2 + y1 * w2 + z1 * x2,
      w1 * z2 + x1 * y2 - y1 * x2 + z1 * w2,
      w1 * w2 - x1 * x2 - y1 * y2 - z1 * z2))"

definition rot_compose :: "rotation3d \<Rightarrow> rotation3d \<Rightarrow> rotation3d" where
  "rot_compose self other =
     (case quat_mult (as_quaternion self) (as_quaternion other) of (x, y, z, w) \<Rightarrow> Quaternion x y z w)"

definition normalized :: "rotation3d \<Rightarrow> rotation3d" where
  "normalized r =
     (case as_quaternion r of (x, y, z, w) \<Rightarrow>
      let norm = sqrt (x * x + y * y + z * z + w * w) in
      if norm < 1 / 10 ^ 10 then rot_identity
      else Quaternion (x / norm) (y / norm) (z / norm) (w / norm))"

section \<open>Transforms\<close>

record transform3d =
  t_translation :: vec3
  t_rotation :: rotation3d

definition identity_transform :: transform3d where
  "identity_transform = \<lparr>t_translation = (0, 0, 0), t_rotation = rot_identity\<rparr>"

definition from_translation :: "f64 \<Rightarrow> f64 \<Rightarrow> f64 \<Rightarrow> transform3d" where
  "from_translation x y z = \<lparr>t_translation = (x, y, z), t_rotation = rot_identity\<rparr>"

definition from_quaternion :: "f64 \<Rightarrow> f64 \<Rightarrow> f64 \<Rightarrow> f64 \<Rightarrow> f64 \<Rightarrow> f64 \<Rightarrow> f64 \<Rightarrow> transform3d" where
  "from_quaternion tx ty tz qx qy qz qw = \<lparr>t_translation = (tx, ty, tz), t_rotation = Quaternion qx qy qz qw\<rparr>"

fun vadd :: "vec3 \<Rightarrow> vec3 \<Rightarrow> vec3" where
  "vadd (a0, a1, a2) (b0, b1, b2) = (a0 + b0, a1 + b1, a2 + b2)"

definition transform_compose :: "transform3d \<Rightarrow> transform3d \<Rightarrow> transform3d" where
  "transform_compose self other =
     (let rotated = rotate_vector (t_rotation self) (t_translation other) in
      \<lparr>t_translation = vadd (t_translation self) rotated,
       t_rotation = rot_compose (t_rotation self) (t_rotation other)\<rparr>)"

definition transform_inverse :: "transform3d \<Rightarrow> transform3d" where
  "transform_inverse self =
     (let inv_rotation = rot_inverse (t_rotation self) in
      case rotate_vector inv_rotation (t_translation self) of (r0, r1, r2) \<Rightarrow>
      \<lparr>t_translation = (- r0, - r1, - r2), t_rotation = inv_rotation\<rparr>)"

definition transform_point :: "transform3d \<Rightarrow> vec3 \<Rightarrow> vec3" where
  "transform_point self point = vadd (t_translation self) (rotate_vector (t_rotation self) point)"

section \<open>Unit quaternions\<close>

fun qnorm2 :: "quat \<Rightarrow> f64" where
  "qnorm2 (x, y, z, w) = x * x + y * y + z * z + w * w"

definition unit_rotation :: "rotation3d \<Rightarrow> bool" where
  "unit_rotation r = (qnorm2 (as_quaternion r) = 1)"

fun vdot :: "vec3 \<Rightarrow> vec3 \<Rightarrow> f64" where
  "vdot (a0, a1, a2) (b0, b1, b2) = a0 * b0 + a1 * b1 + a2 * b2"

definition qconj :: "quat \<Rightarrow> quat" where
  "qconj = (\<lambda>(x, y, z, w). (- x, - y, - z, w))"

lemma qnorm2_mult: "qnorm2 (quat_mult p q) = qnorm2 p * qnorm2 q"
  by (cases p; cases q) (simp add: quat_mult_def algebra_simps)

lemma qnorm2_conj [simp]: "qnorm2 (qconj q) = qnorm2 q"
  by (cases q) (simp add: qconj_def)

text \<open>The optimised rotation is the sandwich product \<open>q v q*\<close> for a unit quaternion.\<close>

lemma quat_rotate_sandwich:
  assumes "qnorm2 q = 1"
  shows "quat_mult (quat_mult q (v0, v1, v2, 0)) (qconj q)
       = (case quat_rotate q (v0, v1, v2) of (r0, r1, r2) \<Rightarrow> (r0, r1, r2, 0))"
proof -
  obtain x y z w where q: "q = (x, y, z, w)" by (cases q)
  have w2: "w * w = 1 - x * x - y * y - z * z" using assms by (simp add: q)
  have w2': "w * (w * k) = (1 - x * x - y * y - z * z) * k" for k
    using w2 by (metis mult.assoc)
  show ?thesis by (simp add: q quat_mult_def qconj_def quat_rotate_def algebra_simps w2' w2)
qed

lemma quat_mult_assoc: "quat_mult (quat_mult p q) r = quat_mult p (quat_mult q r)"
  by (cases p; cases q; cases r) (simp add: quat_mult_def algebra_simps)

lemma qconj_mult: "qconj (quat_mult p q) = quat_mult (qconj q) (qconj p)"
  by (cases p; cases q) (simp add: quat_mult_def qconj_def algebra_simps)

lemma euler_norm:
  fixes cr :: real
  shows "qnorm2 (sr * cp * cy - cr * sp * sy, cr * sp * cy + sr * cp * sy,
     cr * cp * sy - sr * sp * cy, cr * cp * cy + sr * sp * sy)
   = (cr * cr + sr * sr) * (cp * cp + sp * sp) * (cy * cy + sy * sy)"
  by (simp add: algebra_simps)

lemma as_quaternion_Euler_unit: "unit_rotation (Euler r p y)"
  by (simp add: unit_rotation_def Let_def euler_norm sin_cos_squared_add3 del: qnorm2.simps)

lemma as_quaternion_AxisAngle_unit: "unit_rotation (AxisAngle a t)"
proof -
  obtain a0 a1 a2 where a: "a = (a0, a1, a2)" by (cases a)
  define n where "n = sqrt (a0 * a0 + a1 * a1 + a2 * a2)"
  show ?thesis
  proof (cases "n < 1 / 10 ^ 10")
    case True
    then show ?thesis by (simp add: unit_rotation_def a n_def)
  next
    case False
    then have pos: "n > 0" by (simp add: not_less)
    have n2: "n * n = a0 * a0 + a1 * a1 + a2 * a2" by (simp add: n_def)
    have "as_quaternion (AxisAngle a t) = (a0 / n * sin (t/2), a1 / n * sin (t/2), a2 / n * sin (t/2), cos (t/2))"
      using False by (simp add: a Let_def n_def)
    then have "qnorm2 (as_quaternion (AxisAngle a t))
        = (a0 * a0 + a1 * a1 + a2 * a2) / (n * n) * (sin (t/2) * sin (t/2)) + cos (t/2) * cos (t/2)"
      by (simp add: add_divide_distrib algebra_simps)
    also have "\<dots> = 1"
    proof -
      have "sin (t/2) * sin (t/2) + cos (t/2) * cos (t/2) = 1" using sin_cos_squared_add3 [of "t/2"] by linarith
      with pos show ?thesis by (simp add: n2 [symmetric])
    qed
    finally show ?thesis by (simp add: unit_rotation_def)
  qed
qed

lemma rot_compose_quaternion [simp]:
  "as_quaternion (rot_compose a b) = quat_mult (as_quaternion a) (as_quaternion b)"
  by (simp add: rot_compose_def split: prod.splits)

lemma rot_inverse_quaternion [simp]: "as_quaternion (rot_inverse r) = qconj (as_quaternion r)"
  by (simp add: rot_inverse_def qconj_def split: prod.splits)

lemma unit_rotation_compose: "unit_rotation a \<Longrightarrow> unit_rotation b \<Longrightarrow> unit_rotation (rot_compose a b)"
  by (simp add: unit_rotation_def qnorm2_mult)

lemma quat_rotate_mult:
  assumes "qnorm2 p = 1" and "qnorm2 q = 1"
  shows "quat_rotate (quat_mult p q) v = quat_rotate p (quat_rotate q v)"
proof -
  obtain v0 v1 v2 where v: "v = (v0, v1, v2)" by (cases v)
  obtain r0 r1 r2 where r: "quat_rotate q v = (r0, r1, r2)" by (cases "quat_rotate q v")
  obtain s0 s1 s2 where s: "quat_rotate p (r0, r1, r2) = (s0, s1, s2)" by (cases "quat_rotate p (r0, r1, r2)")
  obtain t0 t1 t2 where t: "quat_rotate (quat_mult p q) v = (t0, t1, t2)"
    by (cases "quat_rotate (quat_mult p q) v")
  have "qnorm2 (quat_mult p q) = 1" using assms by (simp add: qnorm2_mult)
  then have "(t0, t1, t2, 0) = quat_mult (quat_mult (quat_mult p q) (v0, v1, v2, 0)) (qconj (quat_mult p q))"
    using t by (simp add: quat_rotate_sandwich v)
  also have "\<dots> = quat_mult (quat_mult p (quat_mult (quat_mult q (v0, v1, v2, 0)) (qconj q))) (qconj p)"
    by (simp add: qconj_mult quat_mult_assoc)
  also have "\<dots> = (s0, s1, s2, 0)"
    using assms r s by (simp add: quat_rotate_sandwich v)
  finally show ?thesis by (simp add: r s t)
qed

lemma quat_mult_conj: "qnorm2 q = 1 \<Longrightarrow> quat_mult (qconj q) q = (0, 0, 0, 1)"
  by (cases q) (simp add: quat_mult_def qconj_def algebra_simps)

lemma quat_rotate_one [simp]: "quat_rotate (0, 0, 0, 1) v = v"
  by (cases v) (simp add: quat_rotate_def)

lemma quat_rotate_conj: "qnorm2 q = 1 \<Longrightarrow> quat_rotate (qconj q) (quat_rotate q v) = v"
  using quat_rotate_mult [of "qconj q" q v] by (simp add: quat_mult_conj)

lemma quat_rotate_vadd: "quat_rotate q (vadd a b) = vadd (quat_rotate q a) (quat_rotate q b)"
  by (cases q; cases a; cases b) (simp add: quat_rotate_def algebra_simps)

lemma vadd_assoc: "vadd (vadd a b) c = vadd a (vadd b c)"
  by (cases a; cases b; cases c) simp

text \<open>
  Composing two transforms whose rotations are unit quaternions and applying the result to a
  point is applying the second transform and then the first; rotations given as Euler angles or as
  axis and angle always are unit quaternions.
\<close>

theorem transform_compose_correct:
  assumes "unit_rotation (t_rotation a)" and "unit_rotation (t_rotation b)"
  shows "transform_point (transform_compose a b) p = transform_point a (transform_point b p)
    \<and> unit_rotation (t_rotation (transform_compose a b))"
  using assms
  by (simp add: transform_point_def transform_compose_def Let_def rotate_vector_def quat_rotate_mult
      quat_rotate_vadd vadd_assoc unit_rotation_compose)
    (simp add: unit_rotation_def quat_rotate_mult)

theorem transform_compose_correct_witness:
  "transform_point (transform_compose (from_quaternion 1 2 3 0 0 (3/5) (4/5)) (from_quaternion 0 1 0 (3/5) 0 0 (4/5))) (1, 0, 0)
     = transform_point (from_quaternion 1 2 3 0 0 (3/5) (4/5)) (transform_point (from_quaternion 0 1 0 (3/5) 0 0 (4/5)) (1, 0, 0))"
  by (rule conjunct1 [OF transform_compose_correct]) (simp_all add: from_quaternion_def unit_rotation_def)

text \<open>
  The inverse of a transform with a unit rotation undoes it on every point.
\<close>

theorem transform_inverse_correct:
  assumes "unit_rotation (t_rotation t)"
  shows "transform_point (transform_inverse t) (transform_point t p) = p"
proof -
  obtain a0 a1 a2 where r: "quat_rotate (qconj (as_quaternion (t_rotation t))) (t_translation t) = (a0, a1, a2)"
    by (cases "quat_rotate (qconj (as_quaternion (t_rotation t))) (t_translation t)")
  obtain p0 p1 p2 where p: "p = (p0, p1, p2)" by (cases p)
  show ?thesis
    using assms r
    by (simp add: transform_point_def transform_inverse_def Let_def rotate_vector_def quat_rotate_vadd
        unit_rotation_def quat_rotate_conj p)
qed


theorem transform_inverse_correct_witness:
  "transform_point (transform_inverse (from_quaternion 1 2 3 0 0 (3/5) (4/5)))
     (transform_point (from_quaternion 1 2 3 0 0 (3/5) (4/5)) (5, 6, 7)) = (5, 6, 7)"
  by (rule transform_inverse_correct) (simp add: from_quaternion_def unit_rotation_def)

section \<open>Matrices and Euler angles\<close>

lemma sqrt_four_sq: "sqrt (4 * (a * a)) * 2 = 4 * \<bar>a\<bar>"
  by (simp add: real_sqrt_mult)

lemma abs_div_cases: "a \<noteq> 0 \<Longrightarrow> a * b / \<bar>a\<bar> = (if a < 0 then - b else b) \<and> b * a / \<bar>a\<bar> = (if a < 0 then - b else b)" for a :: real
  by simp

definition qneg :: "quat \<Rightarrow> quat" where
  "qneg = (\<lambda>(x, y, z, w). (- x, - y, - z, - w))"

lemma unit_sq_bound:
  fixes x y z w :: real
  assumes "x * x + y * y + z * z + w * w = 1" and "w * w * 4 \<le> 1" and "y * y \<le> x * x" and "z * z \<le> x * x"
  shows "x \<noteq> 0"
proof
  assume "x = 0"
  moreover have "y * y \<ge> 0" "z * z \<ge> 0" by simp_all
  ultimately have "y * y = 0" "z * z = 0" using assms by simp_all
  with \<open>x = 0\<close> assms(1,2) show False by simp
qed

text \<open>
  C33. The conversion of a rotation matrix to a quaternion inverts the conversion of a unit
  quaternion to a matrix, up to the sign, in each of the four branches of the code; both signs
  are the same rotation.
\<close>

theorem matrix_quaternion_roundtrip:
  assumes "unit_rotation r"
  shows "as_quaternion (RotMatrix (as_matrix r)) = as_quaternion r
    \<or> as_quaternion (RotMatrix (as_matrix r)) = qneg (as_quaternion r)"
proof -
  obtain x y z w where q: "as_quaternion r = (x, y, z, w)" by (cases "as_quaternion r")
  define d00 d11 d22 where "d00 = 1 - 2 * (y * y + z * z)" and "d11 = 1 - 2 * (x * x + z * z)"
    and "d22 = 1 - 2 * (x * x + y * y)"
  have u: "x * x + y * y + z * z + w * w = 1" using assms by (simp add: unit_rotation_def q)
  have tr: "d00 + d11 + d22 + 1 = 4 * (w * w)" "1 + d00 - d11 - d22 = 4 * (x * x)"
    "1 + d11 - d00 - d22 = 4 * (y * y)" "1 + d22 - d00 - d11 = 4 * (z * z)"
    using u by (simp_all add: d00_def d11_def d22_def)
  have cmp: "d00 > d11 \<longleftrightarrow> x * x > y * y" "d00 > d22 \<longleftrightarrow> x * x > z * z" "d11 > d22 \<longleftrightarrow> y * y > z * z"
    by (auto simp: d00_def d11_def d22_def)
  have m: "as_matrix r = ((d00, 2 * (x * y - w * z), 2 * (x * z + w * y)),
     (2 * (x * y + w * z), d11, 2 * (y * z - w * x)), (2 * (x * z - w * y), 2 * (y * z + w * x), d22))"
    by (simp add: as_matrix_def q quat_matrix_def Let_def d00_def d11_def d22_def)
  consider (w) "d00 + d11 + d22 > 0" | (x) "d00 + d11 + d22 \<le> 0" "d00 > d11" "d00 > d22"
    | (y) "d00 + d11 + d22 \<le> 0" "\<not> (d00 > d11 \<and> d00 > d22)" "d11 > d22"
    | (z) "d00 + d11 + d22 \<le> 0" "\<not> (d00 > d11 \<and> d00 > d22)" "\<not> d11 > d22"
    by linarith
  then show ?thesis
  proof cases
    case w
    then have "w \<noteq> 0" using tr(1) by auto
    with w show ?thesis
      by (auto simp: m q qneg_def Let_def tr sqrt_four_sq abs_div_cases)
  next
    case x
    then have "x \<noteq> 0" using unit_sq_bound [of x y z w] u tr(1) cmp by auto
    with x show ?thesis
      by (auto simp: m q qneg_def Let_def tr sqrt_four_sq abs_div_cases)
  next
    case y
    then have "y \<noteq> 0" using unit_sq_bound [of y x z w] u tr(1) cmp by auto
    with y show ?thesis
      by (auto simp: m q qneg_def Let_def tr sqrt_four_sq abs_div_cases)
  next
    case z
    then have "z \<noteq> 0" using unit_sq_bound [of z x y w] u tr(1) cmp by auto
    with z show ?thesis
      by (auto simp: m q qneg_def Let_def tr sqrt_four_sq abs_div_cases)
  qed
qed

theorem matrix_quaternion_roundtrip_witness:
  "as_quaternion (RotMatrix (as_matrix (Quaternion 0 0 1 0))) = (0, 0, 1, 0)
    \<or> as_quaternion (RotMatrix (as_matrix (Quaternion 0 0 1 0))) = (0, 0, -1, 0)"
  using matrix_quaternion_roundtrip [of "Quaternion 0 0 1 0"]
  by (simp add: unit_rotation_def qneg_def del: as_quaternion.simps(3))

text \<open>
  Reading Euler angles back from a rotation does not return the angles it was made from: a
  rotation by \<open>t\<close> about the x axis is read back as a rotation by \<open>- t\<close>. The conversion reads the
  entries of the transposed matrix.
\<close>

theorem as_euler_negates_roll:
  assumes "\<bar>t\<bar> < pi"
  shows "as_euler (Euler t 0 0) = (- t, 0, 0)"
proof -
  have c: "1 - 2 * (sin (t / 2) * sin (t / 2)) = cos t"
    using cos_double_sin [of "t / 2"] by (simp add: power2_eq_square)
  have s: "2 * (cos (t / 2) * sin (t / 2)) = sin t"
    using sin_double [of "t / 2"] by (simp add: mult_ac)
  have "Complex (cos t) (- sin t) = cis (- t)" by (simp add: cis.ctr)
  then have "Arg (Complex (cos t) (- sin t)) = - t"
    using assms by (intro cis_Arg_unique) (auto simp: sgn_cis)
  moreover have "Arg (Complex 1 0) = 0"
    using cis_Arg_unique [of 1 0] by (simp add: one_complex.ctr [symmetric])
  ultimately show ?thesis
    by (simp add: as_euler_def as_matrix_def quat_matrix_def Let_def atan2_def c s)
qed

theorem as_euler_negates_roll_witness: "as_euler (Euler (pi / 2) 0 0) = (- (pi / 2), 0, 0)"
  by (rule as_euler_negates_roll) (simp add: abs_less_iff)

end
