(* ===== verification/Cameras.thy ===== *)
theory Cameras
  imports Transforms
begin

text \<open>
  Camera configuration of the data collection plugin (\<open>robotics/data_collection/camera_config.rs\<close>):
  devices, capture settings, stereo pairs and synchronisation groups, the validation of a
  configuration, and the pinhole camera model. Numbers of type \<open>usize\<close> are 64-bit words, \<open>f32\<close> and
  \<open>f64\<close> are reals; a \<open>serde_json::Value\<close> is its text.
\<close>

type_synonym json_text = string

section \<open>Data\<close>

datatype camera_position =
  Head | Chest | WristLeft | WristRight | External | ShoulderLeft | ShoulderRight | EyeLeft | EyeRight
  | CustomPosition string

fun show_position :: "camera_position \<Rightarrow> string" where
  "show_position Head = ''head''"
| "show_position Chest = ''chest''"
| "show_position WristLeft = ''wrist_left''"
| "show_position WristRight = ''wrist_right''"
| "show_position External = ''external''"
| "show_position ShoulderLeft = ''shoulder_left''"
| "show_position ShoulderRight = ''shoulder_right''"
| "show_position EyeLeft = ''eye_left''"
| "show_position EyeRight = ''eye_right''"
| "show_position (CustomPosition name) = name"

datatype camera_type = Rgb | Depth | Rgbd | Stereo | Fisheye | Infrared | Thermal | EventCamera

datatype pixel_format =
  Rgb8 | Bgr8 | Rgba8 | Mono8 | Mono16 | Yuyv | Mjpeg | PfH264 | PfH265 | Depth16 | Depth32f
  | BayerRggb8 | BayerBggr8

fun bytes_per_pixel :: "pixel_format \<Rightarrow> u64" where
  "bytes_per_pixel f =
     (if f \<in> {Rgb8, Bgr8} then 3
      else if f = Rgba8 then 4
      else if f \<in> {Mono8, BayerRggb8, BayerBggr8} then 1
      else if f \<in> {Mono16, Depth16, Yuyv} then 2
      else if f = Depth32f then 4
      else 1)"

definition is_compressed :: "pixel_format \<Rightarrow> bool" where
  "is_compressed f = (f \<in> {Mjpeg, PfH264, PfH265})"

definition is_depth :: "pixel_format \<Rightarrow> bool" where
  "is_depth f = (f \<in> {Depth16, Depth32f})"

record capture_settings =
  cs_width :: u32
  cs_height :: u32
  cs_fps :: f32
  cs_format :: pixel_format
  cs_auto_exposure :: bool
  cs_auto_white_balance :: bool
  cs_exposure_us :: "u32 option"
  cs_gain :: "f32 option"

definition CaptureSettings_default :: capture_settings where
  "CaptureSettings_default =
     \<lparr>cs_width = 640, cs_height = 480, cs_fps = 30, cs_format = Rgb8, cs_auto_exposure = True,
      cs_auto_white_balance = True, cs_exposure_us = None, cs_gain = None\<rparr>"

definition hd_720p :: "f32 \<Rightarrow> capture_settings" where
  "hd_720p fps = CaptureSettings_default\<lparr>cs_width := 1280, cs_height := 720, cs_fps := fps\<rparr>"

definition full_hd :: "f32 \<Rightarrow> capture_settings" where
  "full_hd fps = CaptureSettings_default\<lparr>cs_width := 1920, cs_height := 1080, cs_fps := fps\<rparr>"

definition uhd_4k :: "f32 \<Rightarrow> capture_settings" where
  "uhd_4k fps = CaptureSettings_default\<lparr>cs_width := 3840, cs_height := 2160, cs_fps := fps\<rparr>"

definition bytes_per_frame :: "capture_settings \<Rightarrow> u64" where
  "bytes_per_frame s = ucast (cs_width s) * ucast (cs_height s) * bytes_per_pixel (cs_format s)"

text \<open>The cast \<open>as usize\<close> of a float truncates and saturates at both ends of the range.\<close>

definition float_as_usize :: "f64 \<Rightarrow> u64" where
  "float_as_usize x = (if x \<le> 0 then 0 else if x \<ge> 2 ^ 64 then - 1 else of_int \<lfloor>x\<rfloor>)"

definition bytes_per_second :: "capture_settings \<Rightarrow> u64" where
  "bytes_per_second s = float_as_usize (real (unat (bytes_per_frame s)) * cs_fps s)"

datatype device_match_strategy =
    DeviceIndex u32
  | DevicePath string
  | UsbPath string
  | SerialNumber string
  | DeviceName string bool
  | UsbVidPid u16 u16 "string option"
  | UdevSymlink string
  | V4l2Capabilities "string list" "string option"

fun is_deterministic :: "device_match_strategy \<Rightarrow> bool" where
  "is_deterministic (DeviceIndex _) = False"
| "is_deterministic (DevicePath _) = False"
| "is_deterministic (UsbPath _) = True"
| "is_deterministic (SerialNumber _) = True"
| "is_deterministic (DeviceName _ _) = True"
| "is_deterministic (UsbVidPid _ _ usb_port) = (usb_port \<noteq> None)"
| "is_deterministic (UdevSymlink _) = True"
| "is_deterministic (V4l2Capabilities _ _) = False"

text \<open>\<open>{:04x}\<close> of a \<open>u16\<close>: four hexadecimal digits.\<close>

definition hex_digit_char :: "nat \<Rightarrow> char" where
  "hex_digit_char n = ''0123456789abcdef'' ! n"

definition show_hex4 :: "u16 \<Rightarrow> string" where
  "show_hex4 w = map (\<lambda>i. hex_digit_char (unat w div 16 ^ i mod 16)) [3, 2, 1, 0]"

definition quoted :: "string \<Rightarrow> string" where
  "quoted s = CHR 0x27 # s @ [CHR 0x27]"

text \<open>The text of a strategy; \<open>debug\<close> is the \<open>{:?}\<close> form of a list of strings.\<close>

fun description :: "(string list \<Rightarrow> string) \<Rightarrow> device_match_strategy \<Rightarrow> string" where
  "description debug (DeviceIndex index) = ''device index '' @ show_nat (unat index)"
| "description debug (DevicePath path) = ''device path '' @ quoted path"
| "description debug (UsbPath path) = ''USB path '' @ quoted path"
| "description debug (SerialNumber serial) = ''serial number '' @ quoted serial"
| "description debug (DeviceName pattern _) = ''device name matching '' @ quoted pattern"
| "description debug (UsbVidPid vendor product usb_port) =
     ''USB '' @ show_hex4 vendor @ '':'' @ show_hex4 product @
     (case usb_port of None \<Rightarrow> '''' | Some p \<Rightarrow> '' at port '' @ p)"
| "description debug (UdevSymlink symlink) = ''udev symlink '' @ quoted symlink"
| "description debug (V4l2Capabilities capabilities _) = ''V4L2 capabilities: '' @ debug capabilities"
datatype distortion_model = DistortionNone | PlumbBob | Rational | Equidistant | FisheyeModel

record camera_intrinsics =
  ci_fx :: f64
  ci_fy :: f64
  ci_cx :: f64
  ci_cy :: f64
  ci_distortion_model :: distortion_model
  ci_distortion_coeffs :: "f64 list"
  ci_width :: "u32 option"
  ci_height :: "u32 option"

record camera_device_config =
  cd_camera_id :: string
  cd_position :: camera_position
  cd_device_match :: device_match_strategy
  cd_camera_type :: camera_type
  cd_capture :: capture_settings
  cd_urdf_link :: "string option"
  cd_link_to_optical_frame :: "transform3d option"
  cd_intrinsics :: "camera_intrinsics option"
  cd_enabled :: bool
  cd_extra :: "(string, json_text) hmap"

record stereo_pair_config =
  sp_pair_id :: string
  sp_left_camera_id :: string
  sp_right_camera_id :: string
  sp_baseline_meters :: f64
  sp_hardware_sync :: bool

datatype sync_mode = HardwareSync | SoftwareSync | NoSync | Ptp

record sync_group_config =
  sg_group_id :: string
  sg_camera_ids :: "string list"
  sg_sync_mode :: sync_mode
  sg_master_camera_id :: "string option"

datatype video_codec = CodecNone | CodecJpeg | CodecH264 | CodecH265 | Vp9 | Av1

record compression_settings =
  cp_codec :: video_codec
  cp_quality :: u8
  cp_bitrate_kbps :: "u32 option"

record camera_defaults =
  df_capture :: "capture_settings option"
  df_compression :: "compression_settings option"
  df_buffer_duration_seconds :: f32

record camera_system_config =
  sc_cameras :: "camera_device_config list"
  sc_stereo_pairs :: "stereo_pair_config list"
  sc_sync_groups :: "sync_group_config list"
  sc_defaults :: camera_defaults

datatype config_validation_error =
    DuplicateCameraId string
  | InvalidCameraReference string
  | EmptyCameraId
  | InvalidCaptureSettings string string
  | UrdfLinkNotFound string
  | CameraParseError string

section \<open>Operations\<close>

text \<open>The derived \<open>Default\<close> of the defaults, and the value \<open>serde\<close> gives the missing field.\<close>

definition CameraDefaults_default :: camera_defaults where
  "CameraDefaults_default = \<lparr>df_capture = None, df_compression = None, df_buffer_duration_seconds = 0\<rparr>"

definition default_buffer_duration :: f32 where
  "default_buffer_duration = 60"

definition camera_system_new :: camera_system_config where
  "camera_system_new =
     \<lparr>sc_cameras = [], sc_stereo_pairs = [], sc_sync_groups = [], sc_defaults = CameraDefaults_default\<rparr>"

definition add_camera :: "camera_device_config \<Rightarrow> camera_system_config \<Rightarrow> camera_system_config" where
  "add_camera camera c = c\<lparr>sc_cameras := sc_cameras c @ [camera]\<rparr>"

definition get_camera :: "camera_system_config \<Rightarrow> string \<Rightarrow> camera_device_config option" where
  "get_camera c camera_id = find (\<lambda>cam. cd_camera_id cam = camera_id) (sc_cameras c)"

definition camera_ids :: "camera_system_config \<Rightarrow> string list" where
  "camera_ids c = map cd_camera_id (sc_cameras c)"

definition camera_new ::
  "string \<Rightarrow> camera_position \<Rightarrow> device_match_strategy \<Rightarrow> camera_type \<Rightarrow> camera_device_config" where
  "camera_new camera_id position device_match camera_type =
     \<lparr>cd_camera_id = camera_id, cd_position = position, cd_device_match = device_match,
      cd_camera_type = camera_type, cd_capture = CaptureSettings_default, cd_urdf_link = None,
      cd_link_to_optical_frame = None, cd_intrinsics = None, cd_enabled = True, cd_extra = []\<rparr>"

definition with_urdf_link :: "string \<Rightarrow> camera_device_config \<Rightarrow> camera_device_config" where
  "with_urdf_link link c = c\<lparr>cd_urdf_link := Some link\<rparr>"

definition with_optical_transform :: "transform3d \<Rightarrow> camera_device_config \<Rightarrow> camera_device_config" where
  "with_optical_transform t c = c\<lparr>cd_link_to_optical_frame := Some t\<rparr>"

definition with_intrinsics :: "camera_intrinsics \<Rightarrow> camera_device_config \<Rightarrow> camera_device_config" where
  "with_intrinsics i c = c\<lparr>cd_intrinsics := Some i\<rparr>"

definition camera_validate :: "camera_device_config \<Rightarrow> config_validation_error + unit" where
  "camera_validate c =
     (if cd_camera_id c = '''' then Inl EmptyCameraId
      else if cs_width (cd_capture c) = 0 \<or> cs_height (cd_capture c) = 0
      then Inl (InvalidCaptureSettings (cd_camera_id c) ''Resolution must be non-zero'')
      else if cs_fps (cd_capture c) \<le> 0
      then Inl (InvalidCaptureSettings (cd_camera_id c) ''FPS must be positive'')
      else Inr ())"

fun check_duplicates :: "string set \<Rightarrow> camera_device_config list \<Rightarrow> config_validation_error + unit" where
  "check_duplicates seen [] = Inr ()"
| "check_duplicates seen (c # cs) =
     (if cd_camera_id c \<in> seen then Inl (DuplicateCameraId (cd_camera_id c))
      else check_duplicates (insert (cd_camera_id c) seen) cs)"

definition check_reference :: "camera_system_config \<Rightarrow> string \<Rightarrow> config_validation_error + unit" where
  "check_reference c camera_id =
     (if get_camera c camera_id = None then Inl (InvalidCameraReference camera_id) else Inr ())"

text \<open>A loop whose body may return an error.\<close>

fun try_each :: "('a \<Rightarrow> 'e + unit) \<Rightarrow> 'a list \<Rightarrow> 'e + unit" where
  "try_each f [] = Inr ()"
| "try_each f (x # xs) = and_then (f x) (\<lambda>_. try_each f xs)"

definition system_validate :: "camera_system_config \<Rightarrow> config_validation_error + unit" where
  "system_validate c =
     and_then (check_duplicates {} (sc_cameras c)) (\<lambda>_.
     and_then (try_each (\<lambda>pair. and_then (check_reference c (sp_left_camera_id pair))
                                 (\<lambda>_. check_reference c (sp_right_camera_id pair))) (sc_stereo_pairs c)) (\<lambda>_.
     and_then (try_each (\<lambda>group. try_each (check_reference c) (sg_camera_ids group)) (sc_sync_groups c)) (\<lambda>_.
     try_each camera_validate (sc_cameras c))))"

definition has_urdf_integration :: "camera_device_config \<Rightarrow> bool" where
  "has_urdf_integration c = (cd_urdf_link c \<noteq> None)"

definition get_link_to_optical :: "camera_device_config \<Rightarrow> transform3d" where
  "get_link_to_optical c =
     (case cd_link_to_optical_frame c of Some t \<Rightarrow> t | None \<Rightarrow> identity_transform)"

definition pinhole :: "f64 \<Rightarrow> f64 \<Rightarrow> f64 \<Rightarrow> f64 \<Rightarrow> camera_intrinsics" where
  "pinhole fx fy cx cy =
     \<lparr>ci_fx = fx, ci_fy = fy, ci_cx = cx, ci_cy = cy, ci_distortion_model = DistortionNone,
      ci_distortion_coeffs = [], ci_width = None, ci_height = None\<rparr>"

definition with_plumb_bob ::
  "f64 \<Rightarrow> f64 \<Rightarrow> f64 \<Rightarrow> f64 \<Rightarrow> f64 \<Rightarrow> camera_intrinsics \<Rightarrow> camera_intrinsics" where
  "with_plumb_bob k1 k2 p1 p2 k3 i =
     i\<lparr>ci_distortion_model := PlumbBob, ci_distortion_coeffs := [k1, k2, p1, p2, k3]\<rparr>"

definition camera_matrix :: "camera_intrinsics \<Rightarrow> mat3" where
  "camera_matrix i = ((ci_fx i, 0, ci_cx i), (0, ci_fy i, ci_cy i), (0, 0, 1))"

fun project :: "camera_intrinsics \<Rightarrow> vec3 \<Rightarrow> (f64 \<times> f64) option" where
  "project i (p0, p1, p2) =
     (if p2 \<le> 0 then None
      else let x = p0 / p2; y = p1 / p2 in Some (ci_fx i * x + ci_cx i, ci_fy i * y + ci_cy i))"

fun unproject :: "camera_intrinsics \<Rightarrow> f64 \<times> f64 \<Rightarrow> vec3" where
  "unproject i (u, v) =
     (let x = (u - ci_cx i) / ci_fx i; y = (v - ci_cy i) / ci_fy i;
          norm = sqrt (x * x + y * y + 1)
      in (x / norm, y / norm, 1 / norm))"

section \<open>Validation\<close>

lemma try_each_ok_iff: "try_each f xs = Inr () \<longleftrightarrow> (\<forall>x \<in> set xs. f x = Inr ())"
  by (induction xs) (auto simp: and_then_Inr_iff)

lemma check_duplicates_ok_iff:
  "check_duplicates seen cs = Inr () \<longleftrightarrow>
     distinct (map cd_camera_id cs) \<and> set (map cd_camera_id cs) \<inter> seen = {}"
  by (induction seen cs rule: check_duplicates.induct) auto

lemma get_camera_None_iff: "get_camera c i = None \<longleftrightarrow> i \<notin> set (camera_ids c)"
  by (auto simp: get_camera_def camera_ids_def find_None_iff)

lemma check_reference_ok_iff: "check_reference c i = Inr () \<longleftrightarrow> i \<in> set (camera_ids c)"
  by (simp add: check_reference_def get_camera_None_iff)

lemma camera_validate_ok_iff:
  "camera_validate c = Inr () \<longleftrightarrow>
     cd_camera_id c \<noteq> '''' \<and> cs_width (cd_capture c) \<noteq> 0 \<and> cs_height (cd_capture c) \<noteq> 0 \<and> cs_fps (cd_capture c) > 0"
  by (auto simp: camera_validate_def)

text \<open>
  A camera configuration passes validation exactly when its camera ids are distinct and not
  empty, every camera of a stereo pair and of a synchronisation group is configured, and every
  camera has a non-zero resolution and a positive frame rate.
\<close>

theorem system_validate_iff:
  "system_validate c = Inr () \<longleftrightarrow>
     distinct (camera_ids c) \<and> '''' \<notin> set (camera_ids c)
     \<and> sp_left_camera_id ` set (sc_stereo_pairs c) \<subseteq> set (camera_ids c)
     \<and> sp_right_camera_id ` set (sc_stereo_pairs c) \<subseteq> set (camera_ids c)
     \<and> (\<Union>g \<in> set (sc_sync_groups c). set (sg_camera_ids g)) \<subseteq> set (camera_ids c)
     \<and> list_all (\<lambda>cam. cs_width (cd_capture cam) \<noteq> 0 \<and> cs_height (cd_capture cam) \<noteq> 0 \<and> cs_fps (cd_capture cam) > 0)
         (sc_cameras c)"
  (is "?L \<longleftrightarrow> ?R")
proof -
  have "?L \<longleftrightarrow> distinct (camera_ids c)
     \<and> (\<forall>p \<in> set (sc_stereo_pairs c). sp_left_camera_id p \<in> set (camera_ids c) \<and> sp_right_camera_id p \<in> set (camera_ids c))
     \<and> (\<forall>g \<in> set (sc_sync_groups c). \<forall>i \<in> set (sg_camera_ids g). i \<in> set (camera_ids c))
     \<and> (\<forall>cam \<in> set (sc_cameras c). camera_validate cam = Inr ())"
    by (simp add: system_validate_def and_then_Inr_iff try_each_ok_iff check_duplicates_ok_iff
        check_reference_ok_iff camera_ids_def)
  moreover have "[] \<notin> set (camera_ids c) \<longleftrightarrow> (\<forall>cam \<in> set (sc_cameras c). cd_camera_id cam \<noteq> [])"
    by (force simp: camera_ids_def)
  ultimately show ?thesis
    by (simp add: camera_validate_ok_iff list_all_iff image_subset_iff UN_subset_iff subset_iff) blast
qed

text \<open>
  Projecting the ray of an image point gives the point back, and the ray of the projection of
  a point in front of the camera is the unit vector towards the point.
\<close>

theorem project_unproject:
  assumes "ci_fx i \<noteq> 0" and "ci_fy i \<noteq> 0"
  shows "project i (unproject i (u, v)) = Some (u, v)
    \<and> (\<forall>x y z. z > 0 \<longrightarrow> map_option (unproject i) (project i (x, y, z))
        = Some (let n = sqrt (x * x + y * y + z * z) in (x / n, y / n, z / n)))"
proof (intro conjI allI impI)
  define a b where "a = (u - ci_cx i) / ci_fx i" and "b = (v - ci_cy i) / ci_fy i"
  have n: "sqrt (a * a + b * b + 1) > 0" by (simp add: add_nonneg_pos)
  have uv: "unproject i (u, v)
      = (a / sqrt (a * a + b * b + 1), b / sqrt (a * a + b * b + 1), 1 / sqrt (a * a + b * b + 1))"
    by (simp add: Let_def a_def b_def)
  show "project i (unproject i (u, v)) = Some (u, v)"
    using assms n by (simp add: uv Let_def not_le del: unproject.simps) (simp add: a_def b_def)
next
  fix x y z :: real
  assume z: "z > 0"
  have "x / z * (x / z) + y / z * (y / z) + 1 = (x * x + y * y + z * z) / (z * z)"
    using z by (simp add: field_simps)
  then have "sqrt (x / z * (x / z) + y / z * (y / z) + 1) = sqrt (x * x + y * y + z * z) / z"
    using z by (simp add: real_sqrt_divide)
  then show "map_option (unproject i) (project i (x, y, z))
      = Some (let n = sqrt (x * x + y * y + z * z) in (x / n, y / n, z / n))"
    using z assms by (simp add: Let_def)
qed

theorem project_unproject_witness:
  "project (pinhole 500 500 320 240) (unproject (pinhole 500 500 320 240) (100, 50)) = Some (100, 50)"
  by (rule conjunct1 [OF project_unproject]) (simp_all add: pinhole_def)

text \<open>A configuration whose frame fits the address space is measured without wrap-around.\<close>

lemma unat_ucast_u32_u64 [simp]: "unat (ucast (w :: u32) :: u64) = unat w"
  using unat_u32_less [of w] by (simp add: unsigned_ucast_eq take_bit_nat_eq_self)

lemma bytes_per_frame_exact:
  assumes "unat (cs_width s) * unat (cs_height s) * unat (bytes_per_pixel (cs_format s)) < 2 ^ 64"
  shows "unat (bytes_per_frame s) = unat (cs_width s) * unat (cs_height s) * unat (bytes_per_pixel (cs_format s))"
proof -
  have "unat (bytes_per_frame s) = unat (cs_width s) * unat (cs_height s) * unat (bytes_per_pixel (cs_format s)) mod 2 ^ 64"
    by (simp add: bytes_per_frame_def unat_word_ariths mod_mult_left_eq del: bytes_per_pixel.simps)
  with assms show ?thesis by simp
qed

end
