(* ===== verification/Kinematics.thy ===== *)
theory Kinematics
  imports Cameras
begin

text \<open>
  The robot model of the data collection plugin and its forward kinematics
  (\<open>robotics/data_collection/urdf.rs\<close>): links, joints, cameras mounted on links, the kinematic chain
  of a link and the pose of a camera. The loop that follows the parent links may not end, so a chain
  has type \<open>option\<close>: \<open>None\<close> means that the call never returns. An index out of bounds is the
  outcome \<open>UrdfPanic\<close>, which is not an error of the source.
\<close>

section \<open>Data\<close>

datatype urdf_error =
    UrdfParseError string
  | LinkNotFound string
  | JointNotFound string
  | CameraNotRegistered string
  | UrdfIoError string
  | InvalidChain
  | UrdfPanic

datatype joint_type = FixedJoint | Revolute | Continuous | Prismatic | Floating | Planar

record joint_limits =
  jl_lower :: f64
  jl_upper :: f64
  jl_velocity :: f64
  jl_effort :: f64

record link_info =
  li_name :: string
  li_index :: nat

record joint_info =
  ji_name :: string
  ji_index :: nat
  ji_joint_type :: joint_type
  ji_parent_link_idx :: nat
  ji_child_link_idx :: nat
  ji_origin :: transform3d
  ji_axis :: vec3
  ji_limits :: "joint_limits option"

record camera_link_info =
  cl_camera_id :: string
  cl_link_name :: string
  cl_link_idx :: nat
  cl_link_to_optical :: transform3d
  cl_chain_joints :: "nat list"

record camera_pose_stamped =
  ps_timestamp_ns :: u64
  ps_camera_id :: string
  ps_pose_world_optical :: transform3d
  ps_pose_base_optical :: transform3d
  ps_joint_positions :: "f64 list"
  ps_joint_names :: "string list"

record robot_model =
  rm_name :: string
  rm_links :: "link_info list"
  rm_joints :: "joint_info list"
  rm_link_indices :: "(string, nat) hmap"
  rm_joint_indices :: "(string, nat) hmap"
  rm_camera_links :: "(string, camera_link_info) hmap"
  rm_parent_link :: "int list"
  rm_parent_joint :: "nat option list"

section \<open>Operations\<close>

definition robot_new :: "string \<Rightarrow> robot_model" where
  "robot_new name =
     \<lparr>rm_name = name, rm_links = [], rm_joints = [], rm_link_indices = [], rm_joint_indices = [],
      rm_camera_links = [], rm_parent_link = [], rm_parent_joint = []\<rparr>"

definition add_link :: "string \<Rightarrow> robot_model \<Rightarrow> nat \<times> robot_model" where
  "add_link name m =
     (let index = length (rm_links m) in
      (index, m\<lparr>rm_link_indices := hm_insert name index (rm_link_indices m),
                rm_links := rm_links m @ [\<lparr>li_name = name, li_index = index\<rparr>],
                rm_parent_link := rm_parent_link m @ [-1],
                rm_parent_joint := rm_parent_joint m @ [None]\<rparr>))"

definition ok_or :: "'e \<Rightarrow> 'a option \<Rightarrow> 'e + 'a" where
  "ok_or e x = (case x of None \<Rightarrow> Inl e | Some a \<Rightarrow> Inr a)"

text \<open>The cast \<open>as i32\<close> keeps the low 32 bits, read as a signed number.\<close>

definition as_i32 :: "nat \<Rightarrow> int" where
  "as_i32 n = signed_take_bit 31 (int n)"

definition add_joint ::
  "string \<Rightarrow> joint_type \<Rightarrow> string \<Rightarrow> string \<Rightarrow> transform3d \<Rightarrow> vec3 \<Rightarrow> joint_limits option \<Rightarrow>
   robot_model \<Rightarrow> (urdf_error + nat) \<times> robot_model" where
  "add_joint name joint_type parent_link child_link origin axis limits m =
     (case and_then (ok_or (LinkNotFound parent_link) (hm_get (rm_link_indices m) parent_link)) (\<lambda>p.
           and_then (ok_or (LinkNotFound child_link) (hm_get (rm_link_indices m) child_link)) (\<lambda>c. Inr (p, c)))
      of Inl e \<Rightarrow> (Inl e, m)
       | Inr (parent_idx, child_idx) \<Rightarrow>
           (let index = length (rm_joints m);
                joint = \<lparr>ji_name = name, ji_index = index, ji_joint_type = joint_type,
                         ji_parent_link_idx = parent_idx, ji_child_link_idx = child_idx,
                         ji_origin = origin, ji_axis = axis, ji_limits = limits\<rparr>;
                m' = m\<lparr>rm_joint_indices := hm_insert name index (rm_joint_indices m),
                       rm_joints := rm_joints m @ [joint]\<rparr> in
            if child_idx < length (rm_parent_link m) \<and> child_idx < length (rm_parent_joint m)
            then (Inr index, m'\<lparr>rm_parent_link := (rm_parent_link m)[child_idx := as_i32 parent_idx],
                                rm_parent_joint := (rm_parent_joint m)[child_idx := Some index]\<rparr>)
            else (Inl UrdfPanic, m')))"

definition joint_names :: "robot_model \<Rightarrow> string list" where
  "joint_names m = map ji_name (rm_joints m)"

definition link_names :: "robot_model \<Rightarrow> string list" where
  "link_names m = map li_name (rm_links m)"

text \<open>The loop of \<open>compute_chain\<close>.\<close>

partial_function (option) chain_loop :: "robot_model \<Rightarrow> nat list \<Rightarrow> nat \<Rightarrow> (urdf_error + nat list) option" where
  "chain_loop m chain current =
     (if current < length (rm_parent_link m) \<and> current < length (rm_parent_joint m)
      then if rm_parent_link m ! current \<ge> 0
           then chain_loop m
                  (case rm_parent_joint m ! current of Some joint_idx \<Rightarrow> chain @ [joint_idx] | None \<Rightarrow> chain)
                  (nat (rm_parent_link m ! current))
           else Some (Inr (rev chain))
      else Some (Inl UrdfPanic))"

definition compute_chain :: "robot_model \<Rightarrow> nat \<Rightarrow> (urdf_error + nat list) option" where
  "compute_chain m link_idx = chain_loop m [] link_idx"

definition register_camera ::
  "string \<Rightarrow> string \<Rightarrow> transform3d \<Rightarrow> robot_model \<Rightarrow> ((urdf_error + unit) \<times> robot_model) option" where
  "register_camera camera_id link_name link_to_optical m =
     (case hm_get (rm_link_indices m) link_name of
        None \<Rightarrow> Some (Inl (LinkNotFound link_name), m)
      | Some link_idx \<Rightarrow>
          map_option (\<lambda>r. case r of
              Inl e \<Rightarrow> (Inl e, m)
            | Inr chain_joints \<Rightarrow>
                (Inr (), m\<lparr>rm_camera_links := hm_insert camera_id
                   \<lparr>cl_camera_id = camera_id, cl_link_name = link_name, cl_link_idx = link_idx,
                    cl_link_to_optical = link_to_optical, cl_chain_joints = chain_joints\<rparr>
                   (rm_camera_links m)\<rparr>)) (compute_chain m link_idx))"

text \<open>The loop of \<open>register_cameras_from_config\<close> stops at the first error; what it registered stays.\<close>

fun register_cameras ::
  "camera_device_config list \<Rightarrow> string list \<Rightarrow> robot_model \<Rightarrow> ((urdf_error + string list) \<times> robot_model) option" where
  "register_cameras [] registered m = Some (Inr registered, m)"
| "register_cameras (camera # cs) registered m =
     (case cd_urdf_link camera of
        None \<Rightarrow> register_cameras cs registered m
      | Some link_name \<Rightarrow>
          (case register_camera (cd_camera_id camera) link_name (get_link_to_optical camera) m of
             None \<Rightarrow> None
           | Some (Inl e, m') \<Rightarrow> Some (Inl e, m')
           | Some (Inr _, m') \<Rightarrow> register_cameras cs (registered @ [cd_camera_id camera]) m'))"

definition register_cameras_from_config ::
  "camera_system_config \<Rightarrow> robot_model \<Rightarrow> ((urdf_error + string list) \<times> robot_model) option" where
  "register_cameras_from_config config m = register_cameras (sc_cameras config) [] m"

definition rotation_from_axis_angle :: "vec3 \<Rightarrow> f64 \<Rightarrow> rotation3d" where
  "rotation_from_axis_angle = (\<lambda>(a0, a1, a2) angle.
     let half = angle / 2; s = sin half; norm = sqrt (a0 * a0 + a1 * a1 + a2 * a2) in
     if norm < 1 / 10 ^ 10 then rot_identity
     else Quaternion (a0 / norm * s) (a1 / norm * s) (a2 / norm * s) (cos half))"

definition position_of :: "(string, f64) hmap \<Rightarrow> string \<Rightarrow> f64" where
  "position_of joint_positions name = (case hm_get joint_positions name of Some p \<Rightarrow> p | None \<Rightarrow> 0)"

text \<open>The transform of one joint; the warnings about limits and unsupported types are left out.\<close>

definition compute_joint_transform :: "joint_info \<Rightarrow> (string, f64) hmap \<Rightarrow> transform3d" where
  "compute_joint_transform joint joint_positions =
     (let position = position_of joint_positions (ji_name joint) in
      case ji_joint_type joint of
        FixedJoint \<Rightarrow> ji_origin joint
      | Revolute \<Rightarrow> transform_compose (ji_origin joint)
          \<lparr>t_translation = (0, 0, 0), t_rotation = rotation_from_axis_angle (ji_axis joint) position\<rparr>
      | Continuous \<Rightarrow> transform_compose (ji_origin joint)
          \<lparr>t_translation = (0, 0, 0), t_rotation = rotation_from_axis_angle (ji_axis joint) position\<rparr>
      | Prismatic \<Rightarrow> (case ji_axis joint of (a0, a1, a2) \<Rightarrow> transform_compose (ji_origin joint)
          \<lparr>t_translation = (a0 * position, a1 * position, a2 * position), t_rotation = rot_identity\<rparr>)
      | Floating \<Rightarrow> ji_origin joint
      | Planar \<Rightarrow> ji_origin joint)"

fun chain_transform :: "robot_model \<Rightarrow> (string, f64) hmap \<Rightarrow> transform3d \<Rightarrow> nat list \<Rightarrow> urdf_error + transform3d" where
  "chain_transform m joint_positions transform [] = Inr transform"
| "chain_transform m joint_positions transform (joint_idx # chain) =
     (if joint_idx < length (rm_joints m)
      then chain_transform m joint_positions
             (transform_compose transform (compute_joint_transform (rm_joints m ! joint_idx) joint_positions)) chain
      else Inl UrdfPanic)"

definition compute_chain_transform ::
  "robot_model \<Rightarrow> nat list \<Rightarrow> (string, f64) hmap \<Rightarrow> urdf_error + transform3d" where
  "compute_chain_transform m chain joint_positions = chain_transform m joint_positions identity_transform chain"

definition compute_link_pose ::
  "robot_model \<Rightarrow> string \<Rightarrow> (string, f64) hmap \<Rightarrow> (urdf_error + transform3d) option" where
  "compute_link_pose m link_name joint_positions =
     (case hm_get (rm_link_indices m) link_name of
        None \<Rightarrow> Some (Inl (LinkNotFound link_name))
      | Some link_idx \<Rightarrow>
          map_option (\<lambda>r. and_then r (\<lambda>chain. compute_chain_transform m chain joint_positions))
            (compute_chain m link_idx))"

definition compute_camera_pose ::
  "robot_model \<Rightarrow> string \<Rightarrow> (string, f64) hmap \<Rightarrow> transform3d option \<Rightarrow> u64 \<Rightarrow> urdf_error + camera_pose_stamped" where
  "compute_camera_pose m camera_id joint_positions base_pose_world timestamp_ns =
     and_then (ok_or (CameraNotRegistered camera_id) (hm_get (rm_camera_links m) camera_id)) (\<lambda>camera_info.
     and_then (compute_chain_transform m (cl_chain_joints camera_info) joint_positions) (\<lambda>base_to_link.
     let pose_base_optical = transform_compose base_to_link (cl_link_to_optical camera_info);
         pose_world_optical = (case base_pose_world of
             Some base_pose \<Rightarrow> transform_compose base_pose pose_base_optical
           | None \<Rightarrow> pose_base_optical);
         chain_joint_names = map (\<lambda>i. ji_name (rm_joints m ! i)) (cl_chain_joints camera_info)
     in Inr \<lparr>ps_timestamp_ns = timestamp_ns, ps_camera_id = camera_id,
             ps_pose_world_optical = pose_world_optical, ps_pose_base_optical = pose_base_optical,
             ps_joint_positions = map (position_of joint_positions) chain_joint_names,
             ps_joint_names = chain_joint_names\<rparr>))"

definition compute_all_camera_poses ::
  "robot_model \<Rightarrow> (string, f64) hmap \<Rightarrow> transform3d option \<Rightarrow> u64 \<Rightarrow> (urdf_error + camera_pose_stamped) list" where
  "compute_all_camera_poses m joint_positions base_pose_world timestamp_ns =
     map (\<lambda>camera_id. compute_camera_pose m camera_id joint_positions base_pose_world timestamp_ns)
       (hm_keys (rm_camera_links m))"

definition compute_all_camera_poses_ok ::
  "robot_model \<Rightarrow> (string, f64) hmap \<Rightarrow> transform3d option \<Rightarrow> u64 \<Rightarrow> camera_pose_stamped list" where
  "compute_all_camera_poses_ok m joint_positions base_pose_world timestamp_ns =
     List.map_filter ok (compute_all_camera_poses m joint_positions base_pose_world timestamp_ns)"

text \<open>\<open>simple_arm\<close>: a chain of revolute joints; \<open>None\<close> would be the panic of \<open>unwrap\<close>.\<close>

definition arm_step :: "nat \<Rightarrow> robot_model \<Rightarrow> robot_model option" where
  "arm_step i m =
     (let link_name = ''link_'' @ show_nat (i + 1);
          joint_name = ''joint_'' @ show_nat (i + 1);
          parent = (if i = 0 then ''base_link'' else ''link_'' @ show_nat i);
          m1 = snd (add_link link_name m)
      in case add_joint joint_name Revolute parent link_name (from_translation 0 0 0.1) (0, 0, 1)
              (Some \<lparr>jl_lower = - pi, jl_upper = pi, jl_velocity = 2, jl_effort = 100\<rparr>) m1
         of (Inl _, _) \<Rightarrow> None | (Inr _, m2) \<Rightarrow> Some m2)"

fun arm_loop :: "nat list \<Rightarrow> robot_model \<Rightarrow> robot_model option" where
  "arm_loop [] m = Some m"
| "arm_loop (i # is) m = Option.bind (arm_step i m) (arm_loop is)"

definition simple_arm :: "string \<Rightarrow> nat \<Rightarrow> robot_model option" where
  "simple_arm name num_joints = arm_loop [0..<num_joints] (snd (add_link ''base_link'' (robot_new name)))"

section \<open>The kinematic chain\<close>

definition parent_of :: "robot_model \<Rightarrow> nat \<Rightarrow> nat option" where
  "parent_of m l =
     (if l < length (rm_parent_link m) \<and> l < length (rm_parent_joint m) \<and> rm_parent_link m ! l \<ge> 0
      then Some (nat (rm_parent_link m ! l)) else None)"

primrec ancestor :: "robot_model \<Rightarrow> nat \<Rightarrow> nat \<Rightarrow> nat option" where
  "ancestor m 0 l = Some l"
| "ancestor m (Suc n) l = Option.bind (parent_of m l) (ancestor m n)"

lemma chain_loop_returns: "ancestor m n l = None \<Longrightarrow> \<exists>r. chain_loop m chain l = Some r"
proof (induction n arbitrary: l chain)
  case (Suc n)
  show ?case
  proof (cases "parent_of m l")
    case None
    then show ?thesis by (subst chain_loop.simps) (auto simp: parent_of_def split: if_splits)
  next
    case (Some p)
    with Suc show ?thesis
      by (subst chain_loop.simps) (simp add: parent_of_def split: if_splits)
  qed
qed simp

lemma chain_loop_returned:
  assumes "chain_loop m chain l = Some r"
  shows "\<exists>n. ancestor m n l = None"
proof (rule chain_loop.raw_induct [where P = "\<lambda>m chain l r. \<exists>n. ancestor m n l = None", OF _ assms], goal_cases)
  case (1 loop m chain l r)
  show ?case
  proof (cases "parent_of m l")
    case None
    then have "ancestor m (Suc 0) l = None" by simp
    then show ?thesis ..
  next
    case (Some p)
    with 1 obtain n where "ancestor m n p = None"
      by (fastforce simp: parent_of_def split: if_splits)
    with Some have "ancestor m (Suc n) l = None" by simp
    then show ?thesis ..
  qed
qed

lemma ancestor_add: "ancestor m (a + b) l = Option.bind (ancestor m a l) (ancestor m b)"
  by (induction a arbitrary: l) (auto intro!: Option.bind_cong)

lemma ancestor_cycle: "ancestor m k l = Some l \<Longrightarrow> ancestor m (n * k) l = Some l"
  by (induction n) (simp_all add: ancestor_add)

lemma ancestor_bounded: "(\<And>l p. parent_of m l = Some p \<Longrightarrow> p < l) \<Longrightarrow> l < n \<Longrightarrow> ancestor m n l = None"
proof (induction n arbitrary: l)
  case (Suc n)
  show ?case
  proof (cases "parent_of m l")
    case (Some p)
    with Suc.prems(1) have "p < l" by blast
    with Suc.prems(2) have "p < n" by simp
    with Suc.IH [OF Suc.prems(1)] have "ancestor m n p = None" by blast
    with Some show ?thesis by simp
  qed simp
qed simp

text \<open>
  C32. The search for the chain of a link returns exactly when following the parent links from it
  leads to a link without a parent; it does whenever every parent has a smaller index than its
  child, and it never returns on a cycle.
\<close>

theorem compute_chain_returns_iff:
  "((\<exists>r. compute_chain m l = Some r) \<longleftrightarrow> (\<exists>n. ancestor m n l = None))
   \<and> ((\<forall>l p. parent_of m l = Some p \<longrightarrow> p < l) \<longrightarrow> (\<exists>r. compute_chain m l = Some r))
   \<and> (\<forall>k. k > 0 \<longrightarrow> ancestor m k l = Some l \<longrightarrow> compute_chain m l = None)"
proof -
  have iff: "(\<exists>r. compute_chain m l = Some r) \<longleftrightarrow> (\<exists>n. ancestor m n l = None)"
    unfolding compute_chain_def using chain_loop_returns chain_loop_returned by blast
  have "compute_chain m l = None" if k: "k > 0" "ancestor m k l = Some l" for k
  proof -
    have "ancestor m n l \<noteq> None" for n
    proof
      assume "ancestor m n l = None"
      then have "ancestor m (n + (n * k - n)) l = None" by (simp only: ancestor_add) simp
      moreover have "n + (n * k - n) = n * k" using k by (cases k) simp_all
      ultimately show False using ancestor_cycle [OF k(2), of n] by simp
    qed
    with iff show ?thesis by (cases "compute_chain m l") auto
  qed
  with iff ancestor_bounded [of m l "Suc l"] show ?thesis by blast
qed

theorem compute_chain_returns_iff_witness:
  "compute_chain ((robot_new ''r'')\<lparr>rm_parent_link := [0], rm_parent_joint := [Some 0]\<rparr>) 0 = None"
  using compute_chain_returns_iff [of "(robot_new ''r'')\<lparr>rm_parent_link := [0], rm_parent_joint := [Some 0]\<rparr>" 0]
  by (auto simp: parent_of_def dest!: spec [where x = "Suc 0"])

section \<open>Well-formed models\<close>

definition link_wf :: "robot_model \<Rightarrow> nat \<Rightarrow> bool" where
  "link_wf m l =
     (case rm_parent_joint m ! l of
        None \<Rightarrow> rm_parent_link m ! l = -1
      | Some j \<Rightarrow> j < length (rm_joints m) \<and> ji_child_link_idx (rm_joints m ! j) = l
          \<and> rm_parent_link m ! l = int (ji_parent_link_idx (rm_joints m ! j))
          \<and> ji_parent_link_idx (rm_joints m ! j) < length (rm_links m))"

definition robot_wf :: "robot_model \<Rightarrow> bool" where
  "robot_wf m =
     (length (rm_parent_link m) = length (rm_links m) \<and> length (rm_parent_joint m) = length (rm_links m)
      \<and> length (rm_links m) \<le> 2 ^ 31
      \<and> (\<forall>name i. hm_get (rm_link_indices m) name = Some i \<longrightarrow> i < length (rm_links m))
      \<and> (\<forall>l < length (rm_links m). link_wf m l))"

lemma as_i32_small: "n < 2 ^ 31 \<Longrightarrow> as_i32 n = int n"
  by (simp add: as_i32_def signed_take_bit_int_eq_self)

lemma robot_wf_new: "robot_wf (robot_new name)"
  by (simp add: robot_wf_def robot_new_def)

lemma robot_wfD:
  assumes "robot_wf m"
  shows "length (rm_parent_link m) = length (rm_links m)" "length (rm_parent_joint m) = length (rm_links m)"
    "length (rm_links m) \<le> 2 ^ 31"
    "hm_get (rm_link_indices m) name = Some i \<Longrightarrow> i < length (rm_links m)"
    "l < length (rm_links m) \<Longrightarrow> link_wf m l"
  using assms by (auto simp: robot_wf_def)

lemma robot_wf_add_link:
  assumes "robot_wf m" and "length (rm_links m) < 2 ^ 31"
  shows "robot_wf (snd (add_link name m))"
proof -
  note wf = robot_wfD [OF assms(1)]
  have "link_wf (snd (add_link name m)) l" if "l < Suc (length (rm_links m))" for l
  proof (cases "l = length (rm_links m)")
    case True
    then show ?thesis by (simp add: link_wf_def add_link_def Let_def nth_append wf(1,2))
  next
    case False
    with that wf(5) [of l] show ?thesis
      by (auto simp: link_wf_def add_link_def Let_def nth_append wf(1,2) split: option.splits)
  qed
  with assms(2) wf(1,2,3) show ?thesis
    unfolding robot_wf_def by (auto simp: add_link_def Let_def less_Suc_eq dest: wf(4))
qed

lemma add_joint_cases:
  assumes "robot_wf m"
  obtains (missing) e where "add_joint name ty p c t a lims m = (Inl e, m)" "e \<noteq> UrdfPanic"
  | (added) pi ci where "hm_get (rm_link_indices m) p = Some pi" "hm_get (rm_link_indices m) c = Some ci"
      "pi < length (rm_links m)" "ci < length (rm_links m)"
      "add_joint name ty p c t a lims m = (Inr (length (rm_joints m)),
         m\<lparr>rm_joint_indices := hm_insert name (length (rm_joints m)) (rm_joint_indices m),
           rm_joints := rm_joints m @ [\<lparr>ji_name = name, ji_index = length (rm_joints m), ji_joint_type = ty,
                         ji_parent_link_idx = pi, ji_child_link_idx = ci,
                         ji_origin = t, ji_axis = a, ji_limits = lims\<rparr>],
           rm_parent_link := (rm_parent_link m)[ci := int pi],
           rm_parent_joint := (rm_parent_joint m)[ci := Some (length (rm_joints m))]\<rparr>)"
proof (cases "hm_get (rm_link_indices m) p")
  case None
  with missing show ?thesis by (simp add: add_joint_def ok_or_def)
next
  case (Some pi)
  note p = this
  show ?thesis
  proof (cases "hm_get (rm_link_indices m) c")
    case None
    with p missing show ?thesis by (simp add: add_joint_def ok_or_def)
  next
    case (Some ci)
    note wf = robot_wfD [OF assms]
    have i: "pi < length (rm_links m)" "ci < length (rm_links m)" "as_i32 pi = int pi"
      using wf(3) wf(4) [OF p] wf(4) [OF Some] by (auto intro!: as_i32_small)
    with p Some show ?thesis
      by (intro added) (simp_all add: add_joint_def ok_or_def Let_def wf(1,2))
  qed
qed

lemma add_joint_found:
  assumes "robot_wf m" and "hm_get (rm_link_indices m) p = Some pidx" and "hm_get (rm_link_indices m) c = Some cidx"
  shows "add_joint name ty p c t a lims m = (Inr (length (rm_joints m)),
         m\<lparr>rm_joint_indices := hm_insert name (length (rm_joints m)) (rm_joint_indices m),
           rm_joints := rm_joints m @ [\<lparr>ji_name = name, ji_index = length (rm_joints m), ji_joint_type = ty,
                         ji_parent_link_idx = pidx, ji_child_link_idx = cidx,
                         ji_origin = t, ji_axis = a, ji_limits = lims\<rparr>],
           rm_parent_link := (rm_parent_link m)[cidx := int pidx],
           rm_parent_joint := (rm_parent_joint m)[cidx := Some (length (rm_joints m))]\<rparr>)"
  using assms(1)
proof (cases rule: add_joint_cases [of m name ty p c t a lims])
  case (missing e)
  with assms(2,3) show ?thesis by (simp add: add_joint_def ok_or_def Let_def split: if_splits)
next
  case (added pidx' cidx')
  with assms(2,3) show ?thesis by simp
qed

lemma robot_wf_add_joint:
  assumes "robot_wf m"
  shows "robot_wf (snd (add_joint name ty p c t a lims m))"
  using assms
proof (cases rule: add_joint_cases [of m name ty p c t a lims])
  case (added pi ci)
  note wf = robot_wfD [OF assms]
  have "link_wf (snd (add_joint name ty p c t a lims m)) l" if l: "l < length (rm_links m)" for l
  proof (cases "l = ci")
    case True
    with added l wf(1,2) show ?thesis by (simp add: link_wf_def)
  next
    case False
    with added l wf(1,2) wf(5) [OF l] show ?thesis
      by (auto simp: link_wf_def nth_append split: option.splits)
  qed
  with added wf show ?thesis unfolding robot_wf_def by simp
qed (simp add: assms)

section \<open>Poses\<close>

lemma chain_loop_acc:
  assumes "chain_loop m acc l = Some r"
  shows "\<exists>ch. \<forall>acc'. chain_loop m acc' l = Some (map_sum id (\<lambda>_. ch @ rev acc') r)"
proof (rule chain_loop.raw_induct
    [where P = "\<lambda>m acc l r. \<exists>ch. \<forall>acc'. chain_loop m acc' l = Some (map_sum id (\<lambda>_. ch @ rev acc') r)", OF _ assms],
    goal_cases)
  case (1 loop m acc l r)
  show ?case
  proof (cases "parent_of m l")
    case None
    with 1(2) have "\<forall>acc'. chain_loop m acc' l = Some (map_sum id (\<lambda>_. [] @ rev acc') r)"
      by (subst chain_loop.simps) (auto simp: parent_of_def split: if_splits)
    then show ?thesis ..
  next
    case (Some p)
    define js where "js = (case rm_parent_joint m ! l of Some j \<Rightarrow> [j] | None \<Rightarrow> [])"
    have js: "(case rm_parent_joint m ! l of Some j \<Rightarrow> xs @ [j] | None \<Rightarrow> xs) = xs @ js" for xs
      by (simp add: js_def split: option.split)
    have "loop m (acc @ js) p = Some r"
      using 1(2) Some by (simp add: parent_of_def js split: if_splits)
    then obtain ch where ch: "\<forall>acc'. chain_loop m acc' p = Some (map_sum id (\<lambda>_. ch @ rev acc') r)"
      using 1(1) by blast
    have "\<forall>acc'. chain_loop m acc' l = Some (map_sum id (\<lambda>_. (ch @ rev js) @ rev acc') r)"
      using Some ch by (subst chain_loop.simps) (auto simp: parent_of_def js split: if_splits)
    then show ?thesis ..
  qed
qed

lemma compute_chain_child:
  assumes "robot_wf m" and "l < length (rm_links m)" and "rm_parent_joint m ! l = Some j"
  shows "compute_chain m l
    = map_option (map_sum id (\<lambda>ch. ch @ [j])) (compute_chain m (ji_parent_link_idx (rm_joints m ! j)))"
proof -
  note wf = robot_wfD [OF assms(1)]
  define p where "p = ji_parent_link_idx (rm_joints m ! j)"
  have pl: "rm_parent_link m ! l = int p" using wf(5) [OF assms(2)] assms(3) by (simp add: link_wf_def p_def)
  have step: "chain_loop m [] l = chain_loop m [j] p"
    using assms(2,3) pl wf(1,2) by (subst chain_loop.simps) simp
  show ?thesis
  proof (cases "chain_loop m [] p")
    case None
    have "chain_loop m [j] p = None"
    proof (rule ccontr)
      assume "chain_loop m [j] p \<noteq> None"
      then obtain r where "chain_loop m [j] p = Some r" by blast
      from chain_loop_acc [OF this] None show False by auto
    qed
    with None step show ?thesis by (simp add: compute_chain_def p_def [symmetric])
  next
    case (Some r)
    from chain_loop_acc [OF this] obtain ch
      where ch: "\<forall>acc. chain_loop m acc p = Some (map_sum id (\<lambda>_. ch @ rev acc) r)" by blast
    with step show ?thesis
      by (cases r) (simp_all add: compute_chain_def p_def [symmetric])
  qed
qed

lemma compute_chain_root:
  assumes "robot_wf m" and "l < length (rm_links m)" and "rm_parent_joint m ! l = None"
  shows "compute_chain m l = Some (Inr [])"
  using robot_wfD(1,2) [OF assms(1)] robot_wfD(5) [OF assms(1,2)] assms(2,3)
  by (simp add: compute_chain_def chain_loop.simps link_wf_def)

lemma chain_transform_snoc:
  "chain_transform m q t (ch @ [j]) = and_then (chain_transform m q t ch) (\<lambda>u.
     if j < length (rm_joints m) then Inr (transform_compose u (compute_joint_transform (rm_joints m ! j) q))
     else Inl UrdfPanic)"
  by (induction m q t ch rule: chain_transform.induct) auto

text \<open>
  Forward kinematics: in a well-formed model the pose of a link without a parent joint is the
  identity, and the pose of any other link is the pose of its parent followed by the transform of
  the joint between them, whenever the chain of the parent ends.
\<close>

theorem link_pose_recursive:
  assumes "robot_wf m" and "hm_get (rm_link_indices m) child = Some c"
  shows "(rm_parent_joint m ! c = None \<longrightarrow> compute_link_pose m child q = Some (Inr identity_transform))
    \<and> (\<forall>j parent. rm_parent_joint m ! c = Some j
        \<and> hm_get (rm_link_indices m) parent = Some (ji_parent_link_idx (rm_joints m ! j)) \<longrightarrow>
        compute_link_pose m child q = map_option (map_sum id (\<lambda>t.
            transform_compose t (compute_joint_transform (rm_joints m ! j) q))) (compute_link_pose m parent q))"
proof (intro conjI allI impI; (elim conjE)?)
  have c: "c < length (rm_links m)" using robot_wfD(4) [OF assms(1,2)] .
  show "compute_link_pose m child q = Some (Inr identity_transform)" if "rm_parent_joint m ! c = None"
    using assms(2) compute_chain_root [OF assms(1) c that]
    by (simp add: compute_link_pose_def compute_chain_transform_def)
  fix j parent
  assume j: "rm_parent_joint m ! c = Some j"
    and p: "hm_get (rm_link_indices m) parent = Some (ji_parent_link_idx (rm_joints m ! j))"
  have "j < length (rm_joints m)" using robot_wfD(5) [OF assms(1) c] j by (simp add: link_wf_def)
  then show "compute_link_pose m child q = map_option (map_sum id (\<lambda>t.
      transform_compose t (compute_joint_transform (rm_joints m ! j) q))) (compute_link_pose m parent q)"
    using assms(2) p compute_chain_child [OF assms(1) c j]
    by (auto simp: compute_link_pose_def compute_chain_transform_def chain_transform_snoc and_then_def
        option.map_comp o_def intro!: option.map_cong split: sum.splits)
qed

lemma quat_rotate_norm:
  assumes "qnorm2 q = 1"
  shows "vdot (quat_rotate q v) (quat_rotate q v) = vdot v v"
proof -
  obtain v0 v1 v2 where v: "v = (v0, v1, v2)" by (cases v)
  obtain r0 r1 r2 where r: "quat_rotate q v = (r0, r1, r2)" by (cases "quat_rotate q v")
  have "qnorm2 (r0, r1, r2, 0) = qnorm2 (v0, v1, v2, 0)"
    using quat_rotate_sandwich [OF assms, of v0 v1 v2] assms r v
    by (metis (no_types, lifting) case_prod_conv mult_1 mult.right_neutral qnorm2_conj qnorm2_mult)
  then have "vdot (r0, r1, r2) (r0, r1, r2) = vdot v v" by (simp add: v)
  then show ?thesis by (simp only: r)
qed

fun vsub :: "vec3 \<Rightarrow> vec3 \<Rightarrow> vec3" where
  "vsub (a0, a1, a2) (b0, b1, b2) = (a0 - b0, a1 - b1, a2 - b2)"

definition vdist2 :: "vec3 \<Rightarrow> vec3 \<Rightarrow> f64" where
  "vdist2 a b = vdot (vsub a b) (vsub a b)"

lemma vsub_transform_point:
  "vsub (transform_point t a) (transform_point t b) = quat_rotate (as_quaternion (t_rotation t)) (vsub a b)"
  by (cases "as_quaternion (t_rotation t)"; cases "t_translation t"; cases a; cases b)
    (simp add: transform_point_def rotate_vector_def quat_rotate_def algebra_simps)

lemma transform_point_isometry:
  "unit_rotation (t_rotation t) \<Longrightarrow> vdist2 (transform_point t a) (transform_point t b) = vdist2 a b"
  by (simp add: vdist2_def vsub_transform_point quat_rotate_norm unit_rotation_def)

lemma rotation_from_axis_angle_quaternion:
  "as_quaternion (rotation_from_axis_angle a t) = as_quaternion (AxisAngle a t)"
  by (cases a) (simp add: rotation_from_axis_angle_def rot_identity_def Let_def)

lemma unit_rotation_axis_angle: "unit_rotation (rotation_from_axis_angle a t)"
  using as_quaternion_AxisAngle_unit [of a t] by (simp add: unit_rotation_def rotation_from_axis_angle_quaternion)

lemma unit_rotation_identity [simp]: "unit_rotation rot_identity"
  by (simp add: unit_rotation_def rot_identity_def)

lemma t_rotation_compose [simp]:
  "t_rotation (transform_compose a b) = rot_compose (t_rotation a) (t_rotation b)"
  by (simp add: transform_compose_def Let_def)

lemma unit_joint_transform:
  "unit_rotation (t_rotation (ji_origin j)) \<Longrightarrow> unit_rotation (t_rotation (compute_joint_transform j q))"
  by (cases "ji_joint_type j")
    (auto simp: compute_joint_transform_def Let_def unit_rotation_compose unit_rotation_axis_angle split: prod.splits)

lemma unit_chain_transform:
  "chain_transform m q t ch = Inr u \<Longrightarrow> list_all (\<lambda>j. unit_rotation (t_rotation (ji_origin j))) (rm_joints m)
     \<Longrightarrow> unit_rotation (t_rotation t) \<Longrightarrow> unit_rotation (t_rotation u)"
  by (induction m q t ch rule: chain_transform.induct)
    (auto simp: list_all_length unit_joint_transform unit_rotation_compose split: if_splits)

text \<open>
  When the origins of all joints have unit rotations, the pose of every link is a rigid
  motion: it keeps the distance of any two points, whatever the joint positions are.
\<close>

theorem link_pose_rigid:
  assumes "list_all (\<lambda>j. unit_rotation (t_rotation (ji_origin j))) (rm_joints m)"
    and "compute_link_pose m link q = Some (Inr t)"
  shows "unit_rotation (t_rotation t) \<and> vdist2 (transform_point t a) (transform_point t b) = vdist2 a b"
proof -
  from assms(2) obtain ch where "chain_transform m q identity_transform ch = Inr t"
    by (auto simp: compute_link_pose_def compute_chain_transform_def and_then_Inr_iff split: option.splits)
  from unit_chain_transform [OF this assms(1)] have "unit_rotation (t_rotation t)"
    by (simp add: identity_transform_def)
  then show ?thesis by (simp add: transform_point_isometry)
qed

section \<open>Joints added later\<close>

lemma chain_transform_more_joints:
  "set ch \<subseteq> {..< length (rm_joints m)} \<Longrightarrow> rm_joints m' = rm_joints m @ js \<Longrightarrow>
   chain_transform m' q t ch = chain_transform m q t ch"
  by (induction m q t ch rule: chain_transform.induct) (auto simp: nth_append)

definition cameras_wf :: "robot_model \<Rightarrow> bool" where
  "cameras_wf m = (\<forall>cam i. hm_get (rm_camera_links m) cam = Some i \<longrightarrow>
     set (cl_chain_joints i) \<subseteq> {..< length (rm_joints m)})"

text \<open>
  The chain of a camera is computed once, when the camera is registered: adding a joint later
  never changes the pose of a registered camera, also when the joint moves the link that carries it.
\<close>

theorem camera_pose_ignores_later_joints:
  assumes "robot_wf m" and "cameras_wf m"
  shows "compute_camera_pose (snd (add_joint name ty p c t a lims m)) cam q base ts
       = compute_camera_pose m cam q base ts"
  using assms(1)
proof (cases rule: add_joint_cases [of m name ty p c t a lims])
  case (added pi ci)
  let ?m = "snd (add_joint name ty p c t a lims m)"
  have j: "rm_joints ?m = rm_joints m @ [\<lparr>ji_name = name, ji_index = length (rm_joints m), ji_joint_type = ty,
                         ji_parent_link_idx = pi, ji_child_link_idx = ci,
                         ji_origin = t, ji_axis = a, ji_limits = lims\<rparr>]"
    using added by simp
  have cl: "rm_camera_links ?m = rm_camera_links m" using added by simp
  show ?thesis
  proof (cases "hm_get (rm_camera_links m) cam")
    case (Some i)
    then have ch: "set (cl_chain_joints i) \<subseteq> {..< length (rm_joints m)}"
      using assms(2) by (simp add: cameras_wf_def)
    have n: "map (\<lambda>k. ji_name (rm_joints ?m ! k)) (cl_chain_joints i)
        = map (\<lambda>k. ji_name (rm_joints m ! k)) (cl_chain_joints i)"
      using ch by (auto simp: j nth_append)
    show ?thesis
      by (simp add: compute_camera_pose_def cl Some ok_or_def compute_chain_transform_def
          chain_transform_more_joints [OF ch j] n del: map_map)
  qed (simp add: compute_camera_pose_def cl ok_or_def)
qed (simp add: assms)

text \<open>
  A joint whose parent and child are the same link is accepted, and from then on the search for
  the pose of that link never returns.
\<close>

theorem self_joint_hangs:
  assumes "robot_wf m" and "hm_get (rm_link_indices m) l = Some i"
  shows "(\<exists>j. fst (add_joint name ty l l t a lims m) = Inr j)
    \<and> compute_link_pose (snd (add_joint name ty l l t a lims m)) l q = None"
  using assms(1)
proof (cases rule: add_joint_cases [of m name ty l l t a lims])
  case (missing e)
  with assms(2) show ?thesis by (simp add: add_joint_def ok_or_def Let_def split: if_splits)
next
  case (added pi ci)
  let ?m = "snd (add_joint name ty l l t a lims m)"
  have "parent_of ?m i = Some i"
    using added assms(2) robot_wfD(1,2) [OF assms(1)] by (simp add: parent_of_def)
  then have "ancestor ?m n i \<noteq> None" for n by (induction n) simp_all
  then have "compute_chain ?m i = None"
    unfolding compute_chain_def by (metis chain_loop_returned option.exhaust)
  then show ?thesis using added assms(2) by (simp add: compute_link_pose_def)
qed

section \<open>The simple arm\<close>

definition arm_inv :: "nat \<Rightarrow> robot_model \<Rightarrow> bool" where
  "arm_inv k m =
     (robot_wf m \<and> length (rm_links m) = Suc k \<and> length (rm_joints m) = k
      \<and> hm_get (rm_link_indices m) ''base_link'' = Some 0
      \<and> (\<forall>i. 1 \<le> i \<and> i \<le> k \<longrightarrow> hm_get (rm_link_indices m) (''link_'' @ show_nat i) = Some i)
      \<and> rm_parent_joint m ! 0 = None
      \<and> (\<forall>i < k. rm_parent_joint m ! Suc i = Some i \<and> ji_parent_link_idx (rm_joints m ! i) = i)
      \<and> list_all (\<lambda>j. ji_origin j = from_translation 0 0 0.1) (rm_joints m))"

lemma arm_step_inv:
  assumes "arm_inv k m" and "Suc k < 2 ^ 31"
  shows "\<exists>m'. arm_step k m = Some m' \<and> arm_inv (Suc k) m'"
proof -
  let ?l = "''link_'' @ show_nat (Suc k)"
  define m1 where "m1 = snd (add_link ?l m)"
  define p where "p = (if k = 0 then ''base_link'' else ''link_'' @ show_nat k)"
  define lims where "lims = Some \<lparr>jl_lower = - pi, jl_upper = pi, jl_velocity = 2, jl_effort = 100\<rparr>"
  have wf: "robot_wf m" and len: "length (rm_links m) = Suc k" "length (rm_joints m) = k"
    using assms(1) by (simp_all add: arm_inv_def)
  have wf1: "robot_wf m1" using robot_wf_add_link [OF wf] assms(2) len by (simp add: m1_def)
  have li: "hm_get (rm_link_indices m1) nm = (if nm = ?l then Some (Suc k) else hm_get (rm_link_indices m) nm)" for nm
    by (simp add: m1_def add_link_def Let_def len)
  have p: "hm_get (rm_link_indices m1) p = Some k"
    using assms(1) by (auto simp: li p_def arm_inv_def)
  have c: "hm_get (rm_link_indices m1) ?l = Some (Suc k)" by (simp add: li)
  obtain m' where m': "add_joint (''joint_'' @ show_nat (Suc k)) Revolute p ?l (from_translation 0 0 0.1) (0, 0, 1) lims m1
      = (Inr k, m')"
    and f: "rm_links m' = rm_links m1" "rm_link_indices m' = rm_link_indices m1"
    "rm_joints m' = rm_joints m @ [\<lparr>ji_name = ''joint_'' @ show_nat (Suc k), ji_index = k, ji_joint_type = Revolute,
       ji_parent_link_idx = k, ji_child_link_idx = Suc k, ji_origin = from_translation 0 0 0.1,
       ji_axis = (0, 0, 1), ji_limits = lims\<rparr>]"
    "rm_parent_joint m' = (rm_parent_joint m1)[Suc k := Some k]"
    using add_joint_found [OF wf1 p c] len by (simp add: m1_def add_link_def Let_def)
  have wf': "robot_wf m'"
    using robot_wf_add_joint [OF wf1, of "''joint_'' @ show_nat (Suc k)" Revolute p ?l "from_translation 0 0 0.1"
        "(0, 0, 1)" lims] m' by simp
  have pj: "rm_parent_joint m' = rm_parent_joint m @ [Some k]"
    using robot_wfD(2) [OF wf] len by (simp add: f m1_def add_link_def Let_def list_update_append)
  have "arm_inv (Suc k) m'"
    using assms(1) wf' robot_wfD(2) [OF wf]
    by (auto simp: arm_inv_def f li pj nth_append less_Suc_eq le_Suc_eq m1_def add_link_def Let_def)
  moreover have "arm_step k m = Some m'"
    using m' by (simp add: arm_step_def Let_def m1_def p_def lims_def)
  ultimately show ?thesis by blast
qed

lemma arm_loop_inv:
  "arm_inv k m \<Longrightarrow> k + n < 2 ^ 31 \<Longrightarrow> \<exists>m'. arm_loop [k..<k + n] m = Some m' \<and> arm_inv (k + n) m'"
proof (induction n arbitrary: k m)
  case (Suc n)
  obtain m1 where m1: "arm_step k m = Some m1" "arm_inv (Suc k) m1"
    using arm_step_inv [OF Suc.prems(1)] Suc.prems(2) by auto
  have "[k..<k + Suc n] = k # [Suc k..<Suc k + n]" by (simp add: upt_conv_Cons del: upt_Suc)
  with Suc.IH [OF m1(2)] Suc.prems(2) m1(1) show ?case by (simp del: upt_Suc)
qed simp

lemma arm_inv_chain: "arm_inv n m \<Longrightarrow> i \<le> n \<Longrightarrow> compute_chain m i = Some (Inr [0..<i])"
proof (induction i)
  case 0
  then have "compute_chain m 0 = Some (Inr [])" by (intro compute_chain_root) (auto simp: arm_inv_def)
  then show ?case by simp
next
  case (Suc i)
  then have "rm_parent_joint m ! Suc i = Some i" "ji_parent_link_idx (rm_joints m ! i) = i"
    by (auto simp: arm_inv_def)
  moreover from this(1) have "compute_chain m (Suc i) = map_option (map_sum id (\<lambda>ch. ch @ [i]))
      (compute_chain m (ji_parent_link_idx (rm_joints m ! i)))"
    using Suc.prems by (intro compute_chain_child) (auto simp: arm_inv_def)
  ultimately show ?case using Suc by simp
qed

lemma simple_arm_inv: "n < 2 ^ 31 - 1 \<Longrightarrow> \<exists>m. simple_arm name n = Some m \<and> arm_inv n m"
proof -
  assume n: "n < 2 ^ 31 - 1"
  let ?b = "snd (add_link ''base_link'' (robot_new name))"
  have "robot_wf ?b" by (rule robot_wf_add_link [OF robot_wf_new]) (simp add: robot_new_def)
  then have "arm_inv 0 ?b"
    by (simp add: arm_inv_def) (simp add: add_link_def Let_def robot_new_def)
  from arm_loop_inv [OF this, of n] n show ?thesis by (simp add: simple_arm_def)
qed

text \<open>
  The arm with \<open>n\<close> joints is built without a panic, its model is well-formed, and the chain of
  its link \<open>i\<close> consists of the joints 0 to \<open>i - 1\<close> in order.
\<close>

theorem simple_arm_chain:
  assumes "n < 2 ^ 31 - 1"
  shows "\<exists>m. simple_arm name n = Some m \<and> robot_wf m \<and> length (rm_joints m) = n
    \<and> (\<forall>i \<le> n. compute_chain m i = Some (Inr [0..<i]))"
proof -
  from simple_arm_inv [OF assms] obtain m where m: "simple_arm name n = Some m" "arm_inv n m" by blast
  then show ?thesis using arm_inv_chain [OF m(2)] by (auto simp: arm_inv_def)
qed

section \<open>The theorems at concrete inputs\<close>

theorem simple_arm_chain_witness:
  "\<exists>m. simple_arm ''arm'' 3 = Some m \<and> compute_chain m 3 = Some (Inr [0, 1, 2])"
proof -
  have "[0..<3] = [0, 1, 2 :: nat]" by (simp add: upt_rec)
  with simple_arm_chain [of 3 "''arm''"] show ?thesis by auto
qed

lemma arm_link_pose:
  assumes "arm_inv 1 m"
  shows "compute_link_pose m ''link_1'' [] = Some (Inr (transform_compose identity_transform
    (compute_joint_transform (rm_joints m ! 0) [])))"
proof -
  have "''link_'' @ show_nat 1 = ''link_1''" by code_simp
  with assms have "hm_get (rm_link_indices m) ''link_1'' = Some 1" by (auto simp: arm_inv_def)
  with arm_inv_chain [OF assms, of 1] assms show ?thesis
    by (simp add: compute_link_pose_def compute_chain_transform_def arm_inv_def)
qed

theorem link_pose_recursive_witness:
  "\<exists>m. simple_arm ''arm'' 1 = Some m \<and> compute_link_pose m ''base_link'' [] = Some (Inr identity_transform)"
proof -
  from simple_arm_inv [of 1 "''arm''"] obtain m where m: "simple_arm ''arm'' 1 = Some m" "arm_inv 1 m" by auto
  then have "robot_wf m" "hm_get (rm_link_indices m) ''base_link'' = Some 0" "rm_parent_joint m ! 0 = None"
    by (simp_all add: arm_inv_def)
  with link_pose_recursive [of m "''base_link''" 0 "[]"] m(1) show ?thesis by blast
qed

theorem link_pose_rigid_witness:
  "\<exists>m t. simple_arm ''arm'' 1 = Some m \<and> compute_link_pose m ''link_1'' [] = Some (Inr t)
     \<and> vdist2 (transform_point t (1, 0, 0)) (transform_point t (0, 0, 0)) = 1"
proof -
  from simple_arm_inv [of 1 "''arm''"] obtain m where m: "simple_arm ''arm'' 1 = Some m" "arm_inv 1 m" by auto
  have "list_all (\<lambda>j. unit_rotation (t_rotation (ji_origin j))) (rm_joints m)"
    using m(2) by (auto simp: arm_inv_def list_all_iff from_translation_def)
  from link_pose_rigid [OF this arm_link_pose [OF m(2)], of "(1, 0, 0)" "(0, 0, 0)"] arm_link_pose [OF m(2)] m(1)
  show ?thesis by (auto simp: vdist2_def)
qed

definition base_only :: robot_model where
  "base_only = snd (add_link ''base_link'' (robot_new ''r''))"

lemma base_only_wf: "robot_wf base_only" "hm_get (rm_link_indices base_only) ''base_link'' = Some 0" "cameras_wf base_only"
  unfolding base_only_def
    by (rule robot_wf_add_link [OF robot_wf_new], simp add: robot_new_def)
      (simp_all add: add_link_def Let_def robot_new_def cameras_wf_def)

theorem self_joint_hangs_witness:
  "compute_link_pose (snd (add_joint ''j'' FixedJoint ''base_link'' ''base_link'' identity_transform (0, 0, 1) None base_only))
     ''base_link'' [] = None"
  using self_joint_hangs [OF base_only_wf(1,2)] by blast

theorem camera_pose_ignores_later_joints_witness:
  "compute_camera_pose (snd (add_joint ''j'' FixedJoint ''base_link'' ''base_link'' identity_transform (0, 0, 1) None base_only))
     ''cam'' [] None 0 = compute_camera_pose base_only ''cam'' [] None 0"
  by (rule camera_pose_ignores_later_joints [OF base_only_wf(1,3)])

end
