(* ===== verification/Samples.thy ===== *)
theory Samples
  imports Cameras
begin

text \<open>
  Samples of the robot's sensor streams and the configuration of the streams
  (\<open>robotics/data_collection/types.rs\<close> and \<open>streams.rs\<close>): the kinds of data, their sizes and the
  estimates of a stream's bandwidth. Sizes in memory and counters are 64-bit words or natural
  numbers. The size of the structs \<open>DataSample\<close> and \<open>RobotCommand\<close> and the JSON text of a value are
  parameters: the compiler chooses the first, \<open>serde_json\<close> the second.
\<close>

section \<open>Samples\<close>

type_synonym timestamp_ns = u64
type_synonym stream_id = string
type_synonym episode_id = string

record joint_state =
  js_names :: "string list"
  js_positions :: "f64 list"
  js_velocities :: "f64 list option"
  js_efforts :: "f64 list option"

definition JointState_new :: "string list \<Rightarrow> f64 list \<Rightarrow> joint_state" where
  "JointState_new names positions =
     \<lparr>js_names = names, js_positions = positions, js_velocities = None, js_efforts = None\<rparr>"

text \<open>
  \<open>get_position\<close> indexes the positions with the place of the name, so it panics (\<open>Inl ()\<close>) when
  there are fewer positions than names.
\<close>

fun name_index :: "string \<Rightarrow> string list \<Rightarrow> nat option" where
  "name_index n [] = None"
| "name_index n (x # xs) = (if x = n then Some 0 else map_option Suc (name_index n xs))"

definition get_position :: "joint_state \<Rightarrow> string \<Rightarrow> unit + f64 option" where
  "get_position js name =
     (case name_index name (js_names js) of
        None \<Rightarrow> Inr None
      | Some i \<Rightarrow> if i < length (js_positions js) then Inr (Some (js_positions js ! i)) else Inl ())"

definition as_map :: "joint_state \<Rightarrow> (string, f64) hmap" where
  "as_map js = fold (\<lambda>(k, v). hm_insert k v) (zip (js_names js) (js_positions js)) []"

record robot_command =
  rc_command_type :: string
  rc_target_positions :: "f64 list option"
  rc_target_velocities :: "f64 list option"
  rc_target_efforts :: "f64 list option"
  rc_parameters :: "(string, json_text) hmap"

record sensor_reading =
  sr_sensor_type :: string
  sr_sensor_id :: string
  sr_values :: "f64 list"
  sr_units :: "string option"
  sr_frame_id :: "string option"

datatype event_type =
  TeleopStart | TeleopEnd | TaskStart | TaskComplete | TaskFailed | Collision | EStop | Intervention
  | NovelSituation | ErrorEvent | CustomEvent string

datatype severity = SevInfo | SevWarning | SevError | SevCritical

record event_marker =
  mk_event_type :: event_type
  mk_description :: string
  mk_severity :: severity
  mk_data :: "(string, json_text) hmap"

datatype teleop_device_type =
  SpaceMouse | VrController | Keyboard | Gamepad | HapticDevice | LeaderArm | CustomDevice string

record teleop_input =
  ti_device_type :: teleop_device_type
  ti_device_id :: string
  ti_buttons :: "(string, bool) hmap"
  ti_axes :: "(string, f64) hmap"
  ti_pose :: "transform3d option"

datatype sample_data =
    Binary "u8 list"
  | JointStateData joint_state
  | CommandData robot_command
  | SensorData sensor_reading
  | EventData event_marker
  | TeleopInputData teleop_input

record data_sample =
  ds_stream_id :: stream_id
  ds_timestamp_ns :: timestamp_ns
  ds_sequence :: u64
  ds_data :: sample_data
  ds_metadata :: "(string, json_text) hmap"

definition DataSample_new :: "stream_id \<Rightarrow> timestamp_ns \<Rightarrow> sample_data \<Rightarrow> data_sample" where
  "DataSample_new stream_id timestamp_ns data =
     \<lparr>ds_stream_id = stream_id, ds_timestamp_ns = timestamp_ns, ds_sequence = 0, ds_data = data,
      ds_metadata = []\<rparr>"

text \<open>What the sources leave to the compiler and to \<open>serde_json\<close>.\<close>

record layout =
  ly_sample_size :: nat
  ly_command_size :: nat
  ly_to_json :: "sample_data \<Rightarrow> u8 list"

fun data_size_bytes :: "layout \<Rightarrow> sample_data \<Rightarrow> nat" where
  "data_size_bytes ly (Binary data) = length data"
| "data_size_bytes ly (JointStateData js) = length (js_names js) * 32 + length (js_positions js) * 8 * 3"
| "data_size_bytes ly (CommandData cmd) = ly_command_size ly + 256"
| "data_size_bytes ly (SensorData sr) = length (sr_values sr) * 8 + 64"
| "data_size_bytes ly (EventData _) = 256"
| "data_size_bytes ly (TeleopInputData _) = 256"

definition size_bytes :: "layout \<Rightarrow> data_sample \<Rightarrow> nat" where
  "size_bytes ly s = ly_sample_size ly + data_size_bytes ly (ds_data s)"

fun to_bytes :: "layout \<Rightarrow> sample_data \<Rightarrow> u8 list" where
  "to_bytes ly (Binary data) = data"
| "to_bytes ly d = ly_to_json ly d"

fun as_binary :: "sample_data \<Rightarrow> u8 list option" where
  "as_binary (Binary data) = Some data"
| "as_binary _ = None"

datatype priority = LowPrio | NormalPrio | HighPrio | CriticalPrio

fun priority_rank :: "priority \<Rightarrow> nat" where
  "priority_rank LowPrio = 0"
| "priority_rank NormalPrio = 1"
| "priority_rank HighPrio = 2"
| "priority_rank CriticalPrio = 3"

instantiation priority :: linorder
begin

definition less_eq_priority :: "priority \<Rightarrow> priority \<Rightarrow> bool" where
  "p \<le> q \<longleftrightarrow> priority_rank p \<le> priority_rank q"

definition less_priority :: "priority \<Rightarrow> priority \<Rightarrow> bool" where
  "p < q \<longleftrightarrow> priority_rank p < priority_rank q"

instance
proof
  fix p q r :: priority
  show "p < q \<longleftrightarrow> p \<le> q \<and> \<not> q \<le> p" by (auto simp: less_eq_priority_def less_priority_def)
  show "p \<le> p" by (simp add: less_eq_priority_def)
  show "p \<le> q \<Longrightarrow> q \<le> r \<Longrightarrow> p \<le> r" by (simp add: less_eq_priority_def)
  show "p \<le> q \<Longrightarrow> q \<le> p \<Longrightarrow> p = q" by (cases p; cases q) (simp_all add: less_eq_priority_def)
  show "p \<le> q \<or> q \<le> p" by (auto simp: less_eq_priority_def)
qed

end

text \<open>\<open>u64::saturating_sub\<close>.\<close>

definition saturating_sub :: "u64 \<Rightarrow> u64 \<Rightarrow> u64" where
  "saturating_sub a b = (if a < b then 0 else a - b)"

section \<open>Streams\<close>

datatype stream_type =
    RgbCamera string u32 u32 pixel_format
  | DepthCamera string u32 u32 f32 f32
  | PointCloud string u32 bool bool
  | JointStateStream "string list" bool bool
  | ForceTorque string string
  | Imu string string bool
  | Wrench string string
  | Telemetry string string u64
  | TeleopInputStream teleop_device_type string
  | Audio string u32 u8 u8
  | CommandStream string
  | EventStream string

fun estimated_sample_size :: "stream_type \<Rightarrow> u64" where
  "estimated_sample_size (RgbCamera _ width height encoding) =
     ucast width * ucast height * bytes_per_pixel encoding"
| "estimated_sample_size (DepthCamera _ width height _ _) = ucast width * ucast height * 2"
| "estimated_sample_size (PointCloud _ max_points has_color has_normals) =
     ucast max_points * (12 + (if has_color then 4 else 0) + (if has_normals then 12 else 0))"
| "estimated_sample_size (JointStateStream joint_names include_velocities include_efforts) =
     (let num_joints = of_nat (length joint_names) in
      num_joints * 8 + (if include_velocities then num_joints * 8 else 0)
      + (if include_efforts then num_joints * 8 else 0) + 64)"
| "estimated_sample_size (ForceTorque _ _) = 48 + 32"
| "estimated_sample_size (Imu _ _ include_orientation) =
     72 + (if include_orientation then 32 else 0) + 32"
| "estimated_sample_size (Wrench _ _) = 48 + 32"
| "estimated_sample_size (Telemetry _ _ expected_size) = (if expected_size > 0 then expected_size else 256)"
| "estimated_sample_size (TeleopInputStream _ _) = 256"
| "estimated_sample_size (Audio _ sample_rate channels bits_per_sample) =
     (ucast sample_rate div 50) * ucast channels * (ucast bits_per_sample div 8)"
| "estimated_sample_size (CommandStream _) = 512"
| "estimated_sample_size (EventStream _) = 256"

fun type_name :: "stream_type \<Rightarrow> string" where
  "type_name (RgbCamera _ _ _ _) = ''rgb_camera''"
| "type_name (DepthCamera _ _ _ _ _) = ''depth_camera''"
| "type_name (PointCloud _ _ _ _) = ''point_cloud''"
| "type_name (JointStateStream _ _ _) = ''joint_state''"
| "type_name (ForceTorque _ _) = ''force_torque''"
| "type_name (Imu _ _ _) = ''imu''"
| "type_name (Wrench _ _) = ''wrench''"
| "type_name (Telemetry _ _ _) = ''telemetry''"
| "type_name (TeleopInputStream _ _) = ''teleop_input''"
| "type_name (Audio _ _ _ _) = ''audio''"
| "type_name (CommandStream _) = ''command''"
| "type_name (EventStream _) = ''event''"

datatype stream_compression = ScNone | ScZstd | ScLz4 | ScJpeg | ScPng | ScH264 | ScH265

datatype compression_algorithm = AlgNone | AlgZstd | AlgLz4 | AlgJpeg | AlgPng

fun to_algorithm :: "stream_compression \<Rightarrow> compression_algorithm" where
  "to_algorithm ScNone = AlgNone"
| "to_algorithm ScZstd = AlgZstd"
| "to_algorithm ScLz4 = AlgLz4"
| "to_algorithm ScJpeg = AlgJpeg"
| "to_algorithm ScPng = AlgPng"
| "to_algorithm ScH264 = AlgNone"
| "to_algorithm ScH265 = AlgNone"

record stream_compression_config =
  zc_algorithm :: stream_compression
  zc_level :: u8

record stream_config =
  st_stream_id :: stream_id
  st_stream_type :: stream_type
  st_frequency_hz :: f32
  st_buffer_duration_seconds :: f32
  st_compression :: "stream_compression_config option"
  st_priority :: priority
  st_enabled :: bool

definition StreamConfig_new :: "string \<Rightarrow> stream_type \<Rightarrow> f32 \<Rightarrow> stream_config" where
  "StreamConfig_new stream_id stream_type frequency_hz =
     \<lparr>st_stream_id = stream_id, st_stream_type = stream_type, st_frequency_hz = frequency_hz,
      st_buffer_duration_seconds = 60, st_compression = None, st_priority = NormalPrio, st_enabled = True\<rparr>"

definition estimated_bytes_per_second :: "stream_config \<Rightarrow> u64" where
  "estimated_bytes_per_second c =
     float_as_usize (real (unat (estimated_sample_size (st_stream_type c))) * st_frequency_hz c)"

definition estimated_buffer_size :: "stream_config \<Rightarrow> u64" where
  "estimated_buffer_size c =
     float_as_usize (real (unat (estimated_bytes_per_second c)) * st_buffer_duration_seconds c)"

section \<open>Lookups in a joint state\<close>

lemma name_index_Some: "name_index n xs = Some i \<Longrightarrow> i < length xs \<and> xs ! i = n \<and> n \<notin> set (take i xs)"
  by (induction xs arbitrary: i) (auto split: if_splits)

lemma name_index_None: "name_index n xs = None \<longleftrightarrow> n \<notin> set xs"
  by (induction xs) auto

lemma fold_insert_get:
  "distinct (map fst kvs) \<Longrightarrow> hm_get (fold (\<lambda>(k, v). hm_insert k v) kvs m) n
     = (case map_of kvs n of Some v \<Rightarrow> Some v | None \<Rightarrow> hm_get m n)"
proof (induction kvs arbitrary: m)
  case (Cons kv kvs)
  obtain k v where kv: "kv = (k, v)" by (cases kv)
  have "map_of kvs k = None" using Cons.prems by (simp add: kv map_of_eq_None_iff)
  with Cons show ?case by (auto simp: kv split: option.splits)
qed simp

lemma zip_map_of:
  assumes "distinct xs" and "name_index n xs = Some i"
  shows "map_of (zip xs ys) n = (if i < length ys then Some (ys ! i) else None)"
proof -
  have i: "i < length xs" "xs ! i = n" using name_index_Some [OF assms(2)] by simp_all
  show ?thesis
  proof (cases "i < length ys")
    case True
    then have "zip xs ys ! i = (n, ys ! i)" "i < length (zip xs ys)" using i by simp_all
    then have "(n, ys ! i) \<in> set (zip xs ys)" by (metis nth_mem)
    with True assms(1) show ?thesis by (simp add: map_of_eq_Some_iff map_fst_zip_take)
  next
    case False
    have "n \<notin> set (take (min (length xs) (length ys)) xs)"
    proof
      assume "n \<in> set (take (min (length xs) (length ys)) xs)"
      then obtain k where "k < length xs" "k < length ys" "xs ! k = n" by (auto simp: in_set_conv_nth)
      with assms(1) i False show False by (metis nth_eq_iff_index_eq)
    qed
    with False show ?thesis by (simp add: map_of_eq_None_iff map_fst_zip_take set_map [symmetric] del: set_map)
  qed
qed

text \<open>
  With distinct joint names, reading a position by name panics exactly when the name stands at
  a place for which there is no position, and otherwise agrees with the map of the joint state.
\<close>

theorem get_position_as_map:
  assumes "distinct (js_names js)"
  shows "get_position js n =
    (case name_index n (js_names js) of
       Some i \<Rightarrow> if i < length (js_positions js) then Inr (hm_get (as_map js) n) else Inl ()
     | None \<Rightarrow> Inr (hm_get (as_map js) n))"
proof -
  have d: "distinct (map fst (zip (js_names js) (js_positions js)))"
    using assms by (simp add: map_fst_zip_take)
  have n: "name_index n (js_names js) = None \<Longrightarrow> map_of (zip (js_names js) (js_positions js)) n = None"
    by (auto simp: name_index_None map_of_eq_None_iff dest: set_zip_leftD)
  show ?thesis
  proof (cases "name_index n (js_names js)")
    case None
    with n show ?thesis by (simp add: get_position_def as_map_def fold_insert_get [OF d])
  next
    case (Some i)
    with zip_map_of [OF assms Some, of "js_positions js"] show ?thesis
      by (simp add: get_position_def as_map_def fold_insert_get [OF d])
  qed
qed

theorem get_position_as_map_witness:
  "get_position (JointState_new [''a'', ''b''] [1]) ''b'' = Inl ()"
  using get_position_as_map [of "JointState_new [''a'', ''b''] [1]" "''b''"]
  by (simp add: JointState_new_def)

end
