(* ===== verification/Ring_Buffer.thy ===== *)
theory Ring_Buffer
  imports Samples "HOL-Library.Multiset"
begin

text \<open>
  The ring buffers of the data collection plugin (\<open>robotics/data_collection/buffer.rs\<close>): a buffer of
  one stream with its operations, and the manager with one buffer per stream. The counters are
  64-bit words and wrap around. A push into a buffer without slots divides by zero: it panics, which
  is the outcome \<open>None\<close>. The operations of the manager reach a buffer only through its map,
  so the shared references are values of the map.
\<close>

section \<open>One buffer\<close>

record buffer_stats =
  bs_samples_pushed :: u64
  bs_samples_dropped :: u64
  bs_samples_evicted :: u64
  bs_bytes_written :: u64

definition BufferStats_default :: buffer_stats where
  "BufferStats_default = \<lparr>bs_samples_pushed = 0, bs_samples_dropped = 0, bs_samples_evicted = 0, bs_bytes_written = 0\<rparr>"

record ring_buffer =
  rb_stream_id :: stream_id
  rb_storage :: "data_sample option list"
  rb_write_pos :: u64
  rb_total_written :: u64
  rb_capacity :: nat
  rb_max_age_ns :: u64
  rb_stats :: buffer_stats

definition RingBuffer_new :: "stream_id \<Rightarrow> nat \<Rightarrow> f32 \<Rightarrow> ring_buffer" where
  "RingBuffer_new stream_id capacity max_age_seconds =
     \<lparr>rb_stream_id = stream_id, rb_storage = replicate capacity None, rb_write_pos = 0,
      rb_total_written = 0, rb_capacity = capacity,
      rb_max_age_ns = float_as_usize (max_age_seconds * 1000000000), rb_stats = BufferStats_default\<rparr>"

definition rb_push :: "layout \<Rightarrow> data_sample \<Rightarrow> ring_buffer \<Rightarrow> ring_buffer option" where
  "rb_push ly sample b =
     (let seq = rb_total_written b; sample = sample\<lparr>ds_sequence := seq\<rparr>; pos = rb_write_pos b in
      if rb_capacity b = 0 then None
      else
        let slot = unat pos mod rb_capacity b; size = of_nat (size_bytes ly sample); st = rb_stats b in
        if slot < length (rb_storage b)
        then Some (b\<lparr>rb_total_written := seq + 1, rb_write_pos := pos + 1,
                     rb_stats := st\<lparr>bs_bytes_written := bs_bytes_written st + size,
                                    bs_samples_pushed := bs_samples_pushed st + 1\<rparr>,
                     rb_storage := (rb_storage b)[slot := Some sample]\<rparr>)
        else None)"

text \<open>The samples of the buffer in the order of the slots.\<close>

definition rb_samples :: "ring_buffer \<Rightarrow> data_sample list" where
  "rb_samples b = List.map_filter id (rb_storage b)"

definition in_range :: "timestamp_ns \<Rightarrow> timestamp_ns \<Rightarrow> data_sample \<Rightarrow> bool" where
  "in_range start_ns end_ns s = (ds_timestamp_ns s \<ge> start_ns \<and> ds_timestamp_ns s \<le> end_ns)"

definition get_range :: "ring_buffer \<Rightarrow> timestamp_ns \<Rightarrow> timestamp_ns \<Rightarrow> data_sample list" where
  "get_range b start_ns end_ns = sort_key ds_timestamp_ns (filter (in_range start_ns end_ns) (rb_samples b))"

definition get_since :: "ring_buffer \<Rightarrow> timestamp_ns \<Rightarrow> data_sample list" where
  "get_since b since_ns = get_range b since_ns (- 1)"

text \<open>A stable sort by descending timestamps, cut to \<open>n\<close> samples and reversed.\<close>

definition get_latest :: "ring_buffer \<Rightarrow> nat \<Rightarrow> data_sample list" where
  "get_latest b n = rev (take n (sort_key (\<lambda>s. - int (unat (ds_timestamp_ns s))) (rb_samples b)))"

definition rb_clear :: "ring_buffer \<Rightarrow> ring_buffer" where
  "rb_clear b = b\<lparr>rb_storage := map (\<lambda>_. None) (rb_storage b), rb_write_pos := 0\<rparr>"

text \<open>The number of used slots that \<open>utilization\<close> divides by the capacity.\<close>

definition utilization_used :: "ring_buffer \<Rightarrow> u64" where
  "utilization_used b = min (rb_total_written b) (of_nat (rb_capacity b))"

definition rb_time_range :: "ring_buffer \<Rightarrow> (timestamp_ns \<times> timestamp_ns) option" where
  "rb_time_range b =
     (let (min_ts, max_ts, found_any) =
        fold (\<lambda>s (mn, mx, _). (min mn (ds_timestamp_ns s), max mx (ds_timestamp_ns s), True))
          (rb_samples b) (- 1, 0, False)
      in if found_any then Some (min_ts, max_ts) else None)"

definition too_old :: "timestamp_ns \<Rightarrow> data_sample option \<Rightarrow> bool" where
  "too_old cutoff slot = (case slot of Some s \<Rightarrow> ds_timestamp_ns s < cutoff | None \<Rightarrow> False)"

definition evict_old :: "timestamp_ns \<Rightarrow> ring_buffer \<Rightarrow> nat \<times> ring_buffer" where
  "evict_old current_time_ns b =
     (let cutoff = saturating_sub current_time_ns (rb_max_age_ns b);
          evicted = length (filter (too_old cutoff) (rb_storage b)); st = rb_stats b in
      (evicted, b\<lparr>rb_storage := map (\<lambda>slot. if too_old cutoff slot then None else slot) (rb_storage b),
                  rb_stats := st\<lparr>bs_samples_evicted := bs_samples_evicted st + of_nat evicted\<rparr>\<rparr>))"

definition rb_len :: "ring_buffer \<Rightarrow> nat" where
  "rb_len b = length (filter (\<lambda>s. s \<noteq> None) (rb_storage b))"

definition rb_is_empty :: "ring_buffer \<Rightarrow> bool" where
  "rb_is_empty b = (rb_len b = 0)"

section \<open>The manager\<close>

record buffer_manager =
  bm_buffers :: "(stream_id, ring_buffer) hmap"
  bm_total_memory_limit :: u64
  bm_current_memory_used :: u64
  bm_default_capacity :: nat
  bm_default_max_age_seconds :: f32

definition BufferManager_new :: "u64 \<Rightarrow> buffer_manager" where
  "BufferManager_new memory_limit_bytes =
     \<lparr>bm_buffers = [], bm_total_memory_limit = memory_limit_bytes, bm_current_memory_used = 0,
      bm_default_capacity = 1000, bm_default_max_age_seconds = 60\<rparr>"

definition with_defaults :: "nat \<Rightarrow> f32 \<Rightarrow> buffer_manager \<Rightarrow> buffer_manager" where
  "with_defaults capacity max_age_seconds m =
     m\<lparr>bm_default_capacity := capacity, bm_default_max_age_seconds := max_age_seconds\<rparr>"

definition unwrap_or :: "'a option \<Rightarrow> 'a \<Rightarrow> 'a" where
  "unwrap_or x d = (case x of Some a \<Rightarrow> a | None \<Rightarrow> d)"

definition register_stream ::
  "stream_id \<Rightarrow> nat option \<Rightarrow> f32 option \<Rightarrow> buffer_manager \<Rightarrow> ring_buffer \<times> buffer_manager" where
  "register_stream stream_id capacity max_age_seconds m =
     (let buffer = RingBuffer_new stream_id (unwrap_or capacity (bm_default_capacity m))
                     (unwrap_or max_age_seconds (bm_default_max_age_seconds m)) in
      (buffer, m\<lparr>bm_buffers := hm_insert stream_id buffer (bm_buffers m)\<rparr>))"

definition get_or_create :: "stream_id \<Rightarrow> buffer_manager \<Rightarrow> ring_buffer \<times> buffer_manager" where
  "get_or_create stream_id m =
     (case hm_get (bm_buffers m) stream_id of
        Some buffer \<Rightarrow> (buffer, m)
      | None \<Rightarrow> register_stream stream_id None None m)"

definition bm_push :: "layout \<Rightarrow> data_sample \<Rightarrow> buffer_manager \<Rightarrow> buffer_manager option" where
  "bm_push ly sample m =
     (let (buffer, m1) = get_or_create (ds_stream_id sample) m in
      map_option (\<lambda>b. m1\<lparr>bm_buffers := hm_insert (ds_stream_id sample) b (bm_buffers m1)\<rparr>)
        (rb_push ly sample buffer))"

definition extract_episode ::
  "buffer_manager \<Rightarrow> timestamp_ns \<Rightarrow> timestamp_ns \<Rightarrow> (stream_id, data_sample list) hmap" where
  "extract_episode m start_ns end_ns =
     fold (\<lambda>(stream_id, buffer) result.
         let samples = get_range buffer start_ns end_ns in
         if samples \<noteq> [] then hm_insert stream_id samples result else result) (bm_buffers m) []"

definition stream_ids :: "buffer_manager \<Rightarrow> stream_id list" where
  "stream_ids m = hm_keys (bm_buffers m)"

definition clear_all :: "buffer_manager \<Rightarrow> buffer_manager" where
  "clear_all m = m\<lparr>bm_buffers := map (\<lambda>(k, b). (k, rb_clear b)) (bm_buffers m)\<rparr>"

definition evict_old_all :: "timestamp_ns \<Rightarrow> buffer_manager \<Rightarrow> nat \<times> buffer_manager" where
  "evict_old_all current_time_ns m =
     (sum_list (map (\<lambda>(k, b). fst (evict_old current_time_ns b)) (bm_buffers m)),
      m\<lparr>bm_buffers := map (\<lambda>(k, b). (k, snd (evict_old current_time_ns b))) (bm_buffers m)\<rparr>)"

record buffer_manager_stats =
  ms_stream_count :: nat
  ms_total_samples_pushed :: u64
  ms_total_bytes_written :: u64
  ms_stream_stats :: "(stream_id, buffer_stats) hmap"

definition bm_stats :: "buffer_manager \<Rightarrow> buffer_manager_stats" where
  "bm_stats m =
     (let st = fold (\<lambda>(k, b) st.
          st\<lparr>ms_total_samples_pushed := ms_total_samples_pushed st + bs_samples_pushed (rb_stats b),
             ms_total_bytes_written := ms_total_bytes_written st + bs_bytes_written (rb_stats b),
             ms_stream_stats := hm_insert k (rb_stats b) (ms_stream_stats st)\<rparr>) (bm_buffers m)
          \<lparr>ms_stream_count = 0, ms_total_samples_pushed = 0, ms_total_bytes_written = 0, ms_stream_stats = []\<rparr>
      in st\<lparr>ms_stream_count := length (bm_buffers m)\<rparr>)"

section \<open>What a buffer holds\<close>

text \<open>The abstract view: pushing a list of samples, numbered from \<open>k\<close>, keeps the last ones.\<close>

fun rb_push_all :: "layout \<Rightarrow> data_sample list \<Rightarrow> ring_buffer \<Rightarrow> ring_buffer option" where
  "rb_push_all ly [] b = Some b"
| "rb_push_all ly (x # xs) b = Option.bind (rb_push ly x b) (rb_push_all ly xs)"

fun numbered :: "u64 \<Rightarrow> data_sample list \<Rightarrow> data_sample list" where
  "numbered k [] = []"
| "numbered k (x # xs) = x\<lparr>ds_sequence := k\<rparr> # numbered (k + 1) xs"

definition last_n :: "nat \<Rightarrow> 'a list \<Rightarrow> 'a list" where
  "last_n n xs = drop (length xs - n) xs"

text \<open>The slots after the samples \<open>ys\<close> have been written from the first slot on.\<close>

definition slots_hold :: "ring_buffer \<Rightarrow> data_sample list \<Rightarrow> bool" where
  "slots_hold b ys =
     (length (rb_storage b) = rb_capacity b
      \<and> (\<forall>j < length ys. length ys \<le> j + rb_capacity b \<longrightarrow> rb_storage b ! (j mod rb_capacity b) = Some (ys ! j))
      \<and> (\<forall>i < rb_capacity b. length ys \<le> i \<longrightarrow> rb_storage b ! i = None))"

lemma length_numbered [simp]: "length (numbered k xs) = length xs"
  by (induction xs arbitrary: k) auto

lemma mod_neq_close: "j < n \<Longrightarrow> n < j + c \<Longrightarrow> j mod c \<noteq> n mod (c::nat)"
proof
  assume "j < n" "n < j + c" "j mod c = n mod c"
  then have "c dvd n - j" using mod_eq_dvd_iff_nat [of j n c] by simp
  with \<open>j < n\<close> have "c \<le> n - j" by (intro dvd_imp_le) auto
  with \<open>n < j + c\<close> \<open>j < n\<close> show False by linarith
qed

lemma slots_hold_push:
  assumes "slots_hold b ys" and "rb_capacity b > 0" and "rb_write_pos b = of_nat (length ys)"
    and "length ys < 2 ^ 64"
  shows "\<exists>b'. rb_push ly x b = Some b' \<and> slots_hold b' (ys @ [x\<lparr>ds_sequence := rb_total_written b\<rparr>])
    \<and> rb_capacity b' = rb_capacity b \<and> rb_write_pos b' = of_nat (Suc (length ys))
    \<and> rb_total_written b' = rb_total_written b + 1"
proof -
  let ?n = "length ys" and ?c = "rb_capacity b" and ?x = "x\<lparr>ds_sequence := rb_total_written b\<rparr>"
  have pos: "unat (rb_write_pos b) = ?n" using assms(3,4) by (simp add: unat_of_nat)
  have len: "length (rb_storage b) = ?c" using assms(1) by (simp add: slots_hold_def)
  obtain b' where b': "rb_push ly x b = Some b'" "rb_storage b' = (rb_storage b)[?n mod ?c := Some ?x]"
    "rb_capacity b' = ?c" "rb_write_pos b' = rb_write_pos b + 1" "rb_total_written b' = rb_total_written b + 1"
    using assms(2) len by (simp add: rb_push_def Let_def pos)
  have "slots_hold b' (ys @ [?x])"
    unfolding slots_hold_def b'(2,3)
  proof (intro conjI allI impI)
    fix j assume j: "j < length (ys @ [?x])" "length (ys @ [?x]) \<le> j + ?c"
    show "(rb_storage b)[?n mod ?c := Some ?x] ! (j mod ?c) = Some ((ys @ [?x]) ! j)"
    proof (cases "j = ?n")
      case True
      with assms(2) len show ?thesis by simp
    next
      case False
      with j have "j mod ?c \<noteq> ?n mod ?c" by (intro mod_neq_close) auto
      with False j assms(1) show ?thesis by (simp add: slots_hold_def nth_append)
    qed
  next
    fix i assume "i < ?c" "length (ys @ [?x]) \<le> i"
    with assms(1) show "(rb_storage b)[?n mod ?c := Some ?x] ! i = None"
      by (simp add: slots_hold_def)
  qed (use len in simp)
  with b' assms(3) show ?thesis by (auto simp: add.commute)
qed

lemma slots_hold_push_all:
  assumes "slots_hold b ys" and "rb_capacity b > 0" and "rb_write_pos b = of_nat (length ys)"
    and "length ys + length xs < 2 ^ 64"
  shows "\<exists>b'. rb_push_all ly xs b = Some b' \<and> slots_hold b' (ys @ numbered (rb_total_written b) xs)
    \<and> rb_capacity b' = rb_capacity b \<and> rb_total_written b' = rb_total_written b + of_nat (length xs)"
  using assms
proof (induction xs arbitrary: b ys)
  case (Cons x xs)
  obtain b1 where b1: "rb_push ly x b = Some b1" "slots_hold b1 (ys @ [x\<lparr>ds_sequence := rb_total_written b\<rparr>])"
    "rb_capacity b1 = rb_capacity b" "rb_write_pos b1 = of_nat (Suc (length ys))"
    "rb_total_written b1 = rb_total_written b + 1"
    using slots_hold_push [of b ys ly x] Cons.prems by auto
  have "\<exists>b'. rb_push_all ly xs b1 = Some b'
      \<and> slots_hold b' ((ys @ [x\<lparr>ds_sequence := rb_total_written b\<rparr>]) @ numbered (rb_total_written b1) xs)
      \<and> rb_capacity b' = rb_capacity b1 \<and> rb_total_written b' = rb_total_written b1 + of_nat (length xs)"
    using b1 Cons.prems by (intro Cons.IH) (auto simp del: of_nat_Suc)
  with b1 show ?case by (auto simp: add.assoc)
qed simp

lemma map_filter_append [simp]: "List.map_filter f (xs @ ys) = List.map_filter f xs @ List.map_filter f ys"
  by (simp add: List.map_filter_def)

lemma map_filter_map_Some [simp]: "List.map_filter id (map Some xs) = xs"
  by (induction xs) simp_all

lemma map_filter_replicate_None [simp]: "List.map_filter id (replicate n None) = []"
  by (induction n) simp_all

lemma mset_map_filter_cong: "mset xs = mset ys \<Longrightarrow> mset (List.map_filter f xs) = mset (List.map_filter f ys)"
  by (simp add: List.map_filter_def mset_filter)

lemma mod_window:
  assumes "0 < c" and "c \<le> n"
  shows "mset (map (\<lambda>j. j mod c) [n - c..<n]) = mset [0..<c]"
proof -
  have inj: "inj_on (\<lambda>j. j mod c) {n - c..<n}"
  proof (rule inj_onI)
    fix i j assume *: "i \<in> {n - c..<n}" "j \<in> {n - c..<n}" "i mod c = j mod c"
    show "i = j"
    proof (rule ccontr)
      assume "i \<noteq> j"
      moreover have "i < j + c" "j < i + c" using * assms by auto
      ultimately show False
        using *(3) mod_neq_close [of i j c] mod_neq_close [of j i c] by (metis linorder_neqE_nat)
    qed
  qed
  have "(\<lambda>j. j mod c) ` {n - c..<n} \<subseteq> {..<c}" using assms(1) by auto
  moreover have "card ((\<lambda>j. j mod c) ` {n - c..<n}) = card {..<c}"
    using card_image [OF inj] assms(2) by simp
  ultimately have "(\<lambda>j. j mod c) ` {n - c..<n} = {..<c}" by (intro card_subset_eq) auto
  then have "set (map (\<lambda>j. j mod c) [n - c..<n]) = set [0..<c]" by (simp add: lessThan_atLeast0)
  moreover have "distinct (map (\<lambda>j. j mod c) [n - c..<n])" using inj by (simp add: distinct_map)
  ultimately show ?thesis using set_eq_iff_mset_eq_distinct distinct_upt by blast
qed

lemma slots_mset:
  assumes "slots_hold b ys" and "rb_capacity b > 0"
  shows "mset (rb_samples b) = mset (last_n (rb_capacity b) ys)"
proof -
  let ?n = "length ys" and ?c = "rb_capacity b"
  have len: "length (rb_storage b) = ?c" using assms(1) by (simp add: slots_hold_def)
  show ?thesis
  proof (cases "?n < ?c")
    case True
    have "rb_storage b ! j = Some (ys ! j)" if "j < ?n" for j
    proof -
      have "rb_storage b ! (j mod ?c) = Some (ys ! j)" using assms(1) that True by (simp add: slots_hold_def)
      with that True show ?thesis by simp
    qed
    then have "rb_storage b = map Some ys @ replicate (?c - ?n) None"
      using assms(1) True by (intro nth_equalityI) (auto simp: slots_hold_def nth_append)
    with True show ?thesis by (simp add: rb_samples_def last_n_def)
  next
    case False
    have "mset (rb_storage b) = mset (map ((!) (rb_storage b)) [0..<?c])"
      using map_nth [of "rb_storage b"] len by metis
    also have "\<dots> = image_mset ((!) (rb_storage b)) (mset (map (\<lambda>j. j mod ?c) [?n - ?c..<?n]))"
      using mod_window [of ?c ?n] assms(2) False by (simp only: mset_map not_less)
    also have "\<dots> = mset (map (\<lambda>j. rb_storage b ! (j mod ?c)) [?n - ?c..<?n])"
      by (simp add: multiset.map_comp o_def)
    also have "map (\<lambda>j. rb_storage b ! (j mod ?c)) [?n - ?c..<?n] = map (\<lambda>j. Some (ys ! j)) [?n - ?c..<?n]"
      using assms(1) by (auto simp: slots_hold_def)
    also have "\<dots> = map Some (last_n ?c ys)"
      using False by (intro nth_equalityI) (auto simp: last_n_def)
    finally show ?thesis unfolding rb_samples_def by (metis map_filter_map_Some mset_map_filter_cong)
  qed
qed

lemma get_range_mset: "mset (get_range b s e) = filter_mset (in_range s e) (mset (rb_samples b))"
  by (simp add: get_range_def mset_filter)

lemma slots_hold_new: "slots_hold (RingBuffer_new s c age) []"
  by (simp add: slots_hold_def RingBuffer_new_def)

lemma rb_len_samples: "rb_len b = length (rb_samples b)"
  by (simp add: rb_len_def rb_samples_def List.map_filter_def)

lemma push_all_keeps_last:
  assumes "capacity > 0" and "length xs < 2 ^ 64"
  shows "\<exists>b. rb_push_all ly xs (RingBuffer_new sid capacity age) = Some b
    \<and> rb_len b = min capacity (length xs)
    \<and> (\<forall>s e. mset (get_range b s e) = mset (filter (in_range s e) (last_n capacity (numbered 0 xs)))
          \<and> sorted (map ds_timestamp_ns (get_range b s e)))"
proof -
  let ?b = "RingBuffer_new sid capacity age"
  have "rb_capacity ?b = capacity" "rb_write_pos ?b = 0" "rb_total_written ?b = 0"
    by (simp_all add: RingBuffer_new_def)
  then obtain b where b: "rb_push_all ly xs ?b = Some b" "slots_hold b (numbered 0 xs)" "rb_capacity b = capacity"
    using slots_hold_push_all [OF slots_hold_new, of sid capacity age xs ly] assms by auto
  have m: "mset (rb_samples b) = mset (last_n capacity (numbered 0 xs))"
    using slots_mset [OF b(2)] b(3) assms(1) by simp
  have "rb_len b = min capacity (length xs)"
    using arg_cong [OF m, of size] by (auto simp: rb_len_samples last_n_def)
  with b(1) m show ?thesis by (auto simp: get_range_mset mset_filter) (simp add: get_range_def)
qed

text \<open>
  Pushing fewer than 2^64 samples into a new buffer with at least one slot never panics. The
  buffer then holds exactly the last samples, up to its capacity, numbered in the order of the
  pushes; a query returns those whose timestamp lies in the range, sorted by timestamp.
\<close>

theorem ring_buffer_keeps_last:
  assumes "capacity > 0" and "length xs < 2 ^ 64"
  shows "\<exists>b. rb_push_all ly xs (RingBuffer_new sid capacity age) = Some b
    \<and> rb_len b = min capacity (length xs)
    \<and> (\<forall>s e. mset (get_range b s e) = mset (filter (in_range s e) (last_n capacity (numbered 0 xs)))
          \<and> sorted (map ds_timestamp_ns (get_range b s e)))"
  by (rule push_all_keeps_last [OF assms])

theorem ring_buffer_keeps_last_witness:
  "\<exists>b. rb_push_all \<lparr>ly_sample_size = 100, ly_command_size = 100, ly_to_json = (\<lambda>_. [])\<rparr>
       (map (\<lambda>t. DataSample_new ''imu'' t (Binary [])) [5, 6, 7]) (RingBuffer_new ''imu'' 2 60) = Some b
     \<and> rb_len b = 2"
  using ring_buffer_keeps_last [of 2 "map (\<lambda>t. DataSample_new ''imu'' t (Binary [])) [5, 6, 7]"
      "\<lparr>ly_sample_size = 100, ly_command_size = 100, ly_to_json = (\<lambda>_. [])\<rparr>" "''imu''" 60] by auto

lemma sort_key_eq_of_mset:
  assumes "mset xs = mset ys" and "sorted_wrt (\<lambda>a b. f a < f b) ys"
  shows "sort_key f xs = ys"
proof (rule sort_key_inj_key_eq [OF assms(1)])
  have "sorted_wrt (<) (map f ys)" using assms(2) by (simp add: sorted_wrt_map)
  then have "sorted (map f ys)" "distinct (map f ys)" by (simp_all add: strict_sorted_iff)
  then show "sorted (map f ys)" "inj_on f (set xs)"
    using mset_eq_setD [OF assms(1)] by (simp_all add: distinct_map)
qed

lemma sorted_wrt_numbered:
  "sorted_wrt (\<lambda>a b. ds_timestamp_ns a < ds_timestamp_ns b) xs \<Longrightarrow>
   sorted_wrt (\<lambda>a b. ds_timestamp_ns a < ds_timestamp_ns b) (numbered k xs)"
proof -
  have m: "map ds_timestamp_ns (numbered k xs) = map ds_timestamp_ns xs"
    by (induction xs arbitrary: k) auto
  assume "sorted_wrt (\<lambda>a b. ds_timestamp_ns a < ds_timestamp_ns b) xs"
  then have "sorted_wrt (<) (map ds_timestamp_ns (numbered k xs))" by (simp only: m sorted_wrt_map)
  then show ?thesis by (simp add: sorted_wrt_map)
qed

section \<open>The manager's buffers\<close>

fun bm_push_all :: "layout \<Rightarrow> data_sample list \<Rightarrow> buffer_manager \<Rightarrow> buffer_manager option" where
  "bm_push_all ly [] m = Some m"
| "bm_push_all ly (x # xs) m = Option.bind (bm_push ly x m) (bm_push_all ly xs)"

definition buffer_for :: "buffer_manager \<Rightarrow> stream_id \<Rightarrow> ring_buffer" where
  "buffer_for m s = unwrap_or (hm_get (bm_buffers m) s)
     (RingBuffer_new s (bm_default_capacity m) (bm_default_max_age_seconds m))"

definition of_stream :: "stream_id \<Rightarrow> data_sample list \<Rightarrow> data_sample list" where
  "of_stream s xs = filter (\<lambda>x. ds_stream_id x = s) xs"

lemma bm_push_get:
  assumes "rb_push ly x (buffer_for m (ds_stream_id x)) = Some b"
  shows "\<exists>m'. bm_push ly x m = Some m' \<and> (hm_wf (bm_buffers m) \<longrightarrow> hm_wf (bm_buffers m'))
    \<and> bm_default_capacity m' = bm_default_capacity m
    \<and> bm_default_max_age_seconds m' = bm_default_max_age_seconds m
    \<and> (\<forall>s. hm_get (bm_buffers m') s = (if s = ds_stream_id x then Some b else hm_get (bm_buffers m) s))"
  using assms
  by (auto simp: bm_push_def get_or_create_def register_stream_def buffer_for_def unwrap_or_def Let_def
      split: option.splits)

lemma bm_push_all_get:
  assumes "\<And>s. rb_push_all ly (of_stream s xs) (buffer_for m s) \<noteq> None"
  shows "\<exists>m'. bm_push_all ly xs m = Some m' \<and> (hm_wf (bm_buffers m) \<longrightarrow> hm_wf (bm_buffers m'))
    \<and> (\<forall>s. hm_get (bm_buffers m') s =
         (if of_stream s xs = [] then hm_get (bm_buffers m) s
          else rb_push_all ly (of_stream s xs) (buffer_for m s)))"
  using assms
proof (induction xs arbitrary: m)
  case Nil
  then show ?case by (simp add: of_stream_def)
next
  case (Cons x xs)
  let ?s = "ds_stream_id x"
  obtain b where b: "rb_push ly x (buffer_for m ?s) = Some b"
    using Cons.prems [of ?s] by (cases "rb_push ly x (buffer_for m ?s)") (auto simp: of_stream_def)
  from bm_push_get [OF b] obtain m1 where m1: "bm_push ly x m = Some m1"
    "hm_wf (bm_buffers m) \<longrightarrow> hm_wf (bm_buffers m1)"
    "bm_default_capacity m1 = bm_default_capacity m" "bm_default_max_age_seconds m1 = bm_default_max_age_seconds m"
    "\<And>s. hm_get (bm_buffers m1) s = (if s = ?s then Some b else hm_get (bm_buffers m) s)" by blast
  have bf: "buffer_for m1 s = (if s = ?s then b else buffer_for m s)" for s
    using m1 by (simp add: buffer_for_def unwrap_or_def)
  have os: "of_stream s (x # xs) = (if s = ?s then x # of_stream s xs else of_stream s xs)" for s
    by (auto simp: of_stream_def)
  have "rb_push_all ly (of_stream s xs) (buffer_for m1 s) \<noteq> None" for s
    using Cons.prems [of s] b by (auto simp: bf os)
  from Cons.IH [OF this] obtain m' where m': "bm_push_all ly xs m1 = Some m'"
    "hm_wf (bm_buffers m1) \<longrightarrow> hm_wf (bm_buffers m')"
    "\<And>s. hm_get (bm_buffers m') s = (if of_stream s xs = [] then hm_get (bm_buffers m1) s
          else rb_push_all ly (of_stream s xs) (buffer_for m1 s))" by blast
  have "hm_get (bm_buffers m') s = (if of_stream s (x # xs) = [] then hm_get (bm_buffers m) s
          else rb_push_all ly (of_stream s (x # xs)) (buffer_for m s))" for s
    using m'(3) [of s] m1(5) [of s] b by (cases "s = ?s") (simp_all add: bf os)
  with m' m1(1,2) show ?case by auto
qed

lemma extract_fold_get:
  "distinct (map fst bs) \<Longrightarrow>
   hm_get (fold (\<lambda>(k, b) r. let samples = get_range b st en in if samples \<noteq> [] then hm_insert k samples r else r) bs m) s
   = (case map_of bs s of
        Some b \<Rightarrow> if get_range b st en \<noteq> [] then Some (get_range b st en) else hm_get m s
      | None \<Rightarrow> hm_get m s)"
proof (induction bs arbitrary: m)
  case (Cons kb bs)
  obtain k b where kb: "kb = (k, b)" by (cases kb)
  have "map_of bs k = None" using Cons.prems by (simp add: kb map_of_eq_None_iff)
  with Cons show ?case by (auto simp: kb Let_def split: option.splits)
qed simp

lemma extract_episode_get:
  "hm_wf (bm_buffers m) \<Longrightarrow> hm_get (extract_episode m st en) s =
     Option.bind (hm_get (bm_buffers m) s)
       (\<lambda>b. if get_range b st en \<noteq> [] then Some (get_range b st en) else None)"
  by (simp add: extract_episode_def extract_fold_get hm_wf_def hm_get_def [of "bm_buffers m"] split: option.splits)

text \<open>
  C29. An episode cut out of a new manager that was given fewer than 2^64 samples contains, for
  every stream, exactly those of its last 1000 samples whose timestamps lie in the range of the
  episode, in the order of the timestamps; a stream with no such sample is absent. With strictly
  increasing timestamps the samples come in the order of the pushes.
\<close>

theorem episode_extraction:
  assumes "length xs < 2 ^ 64"
  shows "\<exists>m. bm_push_all ly xs (BufferManager_new limit) = Some m \<and>
    (\<forall>st en s. let want = filter (in_range st en) (last_n 1000 (numbered 0 (of_stream s xs))) in
       case hm_get (extract_episode m st en) s of
         None \<Rightarrow> want = []
       | Some r \<Rightarrow> r \<noteq> [] \<and> mset r = mset want \<and> sorted (map ds_timestamp_ns r)
           \<and> (sorted_wrt (\<lambda>a b. ds_timestamp_ns a < ds_timestamp_ns b) (of_stream s xs) \<longrightarrow> r = want))"
proof -
  let ?m = "BufferManager_new limit"
  have bf: "buffer_for ?m s = RingBuffer_new s 1000 60" for s
    by (simp add: buffer_for_def BufferManager_new_def unwrap_or_def)
  have keep: "\<exists>b. rb_push_all ly (of_stream s xs) (buffer_for ?m s) = Some b \<and> (\<forall>st en.
      mset (get_range b st en) = mset (filter (in_range st en) (last_n 1000 (numbered 0 (of_stream s xs))))
      \<and> sorted (map ds_timestamp_ns (get_range b st en)))" for s
    unfolding bf using push_all_keeps_last [of 1000 "of_stream s xs" ly s 60] assms
      order.strict_trans1 [OF length_filter_le assms] by (auto simp: of_stream_def)
  have e: "hm_wf (bm_buffers ?m)" "hm_get (bm_buffers ?m) s = None" for s by (simp_all add: BufferManager_new_def)
  have "rb_push_all ly (of_stream s xs) (buffer_for ?m s) \<noteq> None" for s using keep [of s] by auto
  from bm_push_all_get [OF this] e obtain m where m: "bm_push_all ly xs ?m = Some m"
    "hm_wf (bm_buffers m)" and get: "\<And>s. hm_get (bm_buffers m) s = (if of_stream s xs = [] then None
          else rb_push_all ly (of_stream s xs) (buffer_for ?m s))" by auto
  have "let want = filter (in_range st en) (last_n 1000 (numbered 0 (of_stream s xs))) in
       case hm_get (extract_episode m st en) s of
         None \<Rightarrow> want = []
       | Some r \<Rightarrow> r \<noteq> [] \<and> mset r = mset want \<and> sorted (map ds_timestamp_ns r)
           \<and> (sorted_wrt (\<lambda>a b. ds_timestamp_ns a < ds_timestamp_ns b) (of_stream s xs) \<longrightarrow> r = want)" for st en s
  proof (cases "of_stream s xs = []")
    case True
    with get [of s] show ?thesis by (simp add: extract_episode_get [OF m(2)] last_n_def)
  next
    case False
    define want where "want = filter (in_range st en) (last_n 1000 (numbered 0 (of_stream s xs)))"
    from keep [of s] obtain b where b: "rb_push_all ly (of_stream s xs) (buffer_for ?m s) = Some b"
      "mset (get_range b st en) = mset want" "sorted (map ds_timestamp_ns (get_range b st en))"
      unfolding want_def by blast
    have "get_range b st en = want" if "sorted_wrt (\<lambda>a b. ds_timestamp_ns a < ds_timestamp_ns b) (of_stream s xs)"
    proof -
      have "sorted_wrt (\<lambda>a b. ds_timestamp_ns a < ds_timestamp_ns b) want"
        unfolding want_def last_n_def by (intro sorted_wrt_filter sorted_wrt_drop sorted_wrt_numbered that)
      from sort_key_eq_of_mset [OF b(2) this] show ?thesis
        using sort_key_id_if_sorted [OF b(3)] by simp
    qed
    moreover have "get_range b st en = [] \<longleftrightarrow> want = []" using b(2) by (metis mset_zero_iff)
    ultimately show ?thesis
      using get [of s] False b unfolding want_def [symmetric]
      by (simp add: extract_episode_get [OF m(2)] Let_def)
  qed
  with m(1) show ?thesis by blast
qed

theorem episode_extraction_witness:
  "\<exists>m. bm_push_all \<lparr>ly_sample_size = 100, ly_command_size = 100, ly_to_json = (\<lambda>_. [])\<rparr>
       [DataSample_new ''imu'' 5 (Binary [])] (BufferManager_new 0) = Some m
     \<and> hm_get (extract_episode m 0 9) ''imu'' = Some [DataSample_new ''imu'' 5 (Binary [])]"
proof -
  define x where "x = DataSample_new ''imu'' 5 (Binary [])"
  have w: "filter (in_range 0 9) (last_n 1000 (numbered 0 (of_stream ''imu'' [x]))) = [x]"
    "sorted_wrt (\<lambda>a b. ds_timestamp_ns a < ds_timestamp_ns b) (of_stream ''imu'' [x])"
    by (simp_all add: x_def of_stream_def DataSample_new_def in_range_def last_n_def)
  from episode_extraction [of "[x]" "\<lparr>ly_sample_size = 100, ly_command_size = 100, ly_to_json = (\<lambda>_. [])\<rparr>" 0]
  obtain m where m: "bm_push_all \<lparr>ly_sample_size = 100, ly_command_size = 100, ly_to_json = (\<lambda>_. [])\<rparr> [x]
      (BufferManager_new 0) = Some m"
    and "let want = filter (in_range 0 9) (last_n 1000 (numbered 0 (of_stream ''imu'' [x]))) in
       case hm_get (extract_episode m 0 9) ''imu'' of
         None \<Rightarrow> want = []
       | Some r \<Rightarrow> r \<noteq> [] \<and> mset r = mset want \<and> sorted (map ds_timestamp_ns r)
           \<and> (sorted_wrt (\<lambda>a b. ds_timestamp_ns a < ds_timestamp_ns b) (of_stream ''imu'' [x]) \<longrightarrow> r = want)"
    by auto
  then have "hm_get (extract_episode m 0 9) ''imu'' = Some [x]"
    using w by (simp only: w Let_def) (simp split: option.splits)
  with m show ?thesis by (auto simp: x_def)
qed

text \<open>
  Clearing a buffer empties it, but its utilization, which is computed from the number of
  samples ever written, does not change, and the samples pushed next continue the numbering.
\<close>

theorem clear_keeps_utilization:
  "rb_len (rb_clear b) = 0 \<and> utilization_used (rb_clear b) = utilization_used b
   \<and> rb_total_written (rb_clear b) = rb_total_written b"
proof -
  have "filter (\<lambda>s. s \<noteq> None) (map (\<lambda>_. None) (rb_storage b)) = []" by (simp add: filter_empty_conv)
  then show ?thesis by (simp add: rb_clear_def rb_len_def utilization_used_def)
qed

text \<open>
  Eviction removes exactly the samples older than the maximum age, counts them, and keeps the
  others in their slots.
\<close>

theorem evict_old_exact:
  "rb_samples (snd (evict_old now b))
     = filter (\<lambda>s. ds_timestamp_ns s \<ge> saturating_sub now (rb_max_age_ns b)) (rb_samples b)
   \<and> fst (evict_old now b) + rb_len (snd (evict_old now b)) = rb_len b"
proof -
  define old where "old = too_old (saturating_sub now (rb_max_age_ns b))"
  have old: "\<not> old None" "old (Some s) \<longleftrightarrow> ds_timestamp_ns s < saturating_sub now (rb_max_age_ns b)" for s
    by (simp_all add: old_def too_old_def)
  have "List.map_filter id (map (\<lambda>slot. if old slot then None else slot) xs)
      = filter (\<lambda>s. ds_timestamp_ns s \<ge> saturating_sub now (rb_max_age_ns b)) (List.map_filter id xs)" for xs
    by (induction xs) (auto simp: old split: option.splits)
  moreover have "length (filter old xs) + length (filter (\<lambda>s. s \<noteq> None) (map (\<lambda>slot. if old slot then None else slot) xs))
      = length (filter (\<lambda>s. s \<noteq> None) xs)" for xs
    by (induction xs) (auto simp: old split: option.splits)
  ultimately show ?thesis
    unfolding evict_old_def Let_def old_def [symmetric] rb_samples_def rb_len_def by simp
qed

end
