(* ===== verification/Episode_Metadata.thy ===== *)
theory Episode_Metadata
  imports Samples
begin

text \<open>
  The metadata of an episode (\<open>robotics/data_collection/metadata.rs\<close>): what triggered it, the task,
  the environment, the operator, its quality and its streams. A floating point number is a real; the
  current time is an argument; the SHA-256 digest of an operator id, in hexadecimal, is a parameter.
  The subtraction of two times wraps around, as it does in a release build.
\<close>

datatype episode_trigger_type =
    ManualEpisode
  | Teleoperation
  | AutonomousTask
  | FailureDetected "string option" "string option"
  | NovelSituationSeen f32
  | PeriodicEpisode u32
  | AnomalyScore f32 f32
  | ExternalSource string
  | InterventionEpisode
  | SafetyEvent string

record trigger_info =
  tf_trigger_type :: episode_trigger_type
  tf_trigger_time_ns :: timestamp_ns
  tf_confidence :: "f32 option"
  tf_pre_buffer_seconds :: f32
  tf_post_buffer_seconds :: f32
  tf_priority :: priority
  tf_details :: "(string, json_text) hmap"

definition TriggerInfo_manual :: trigger_info where
  "TriggerInfo_manual =
     \<lparr>tf_trigger_type = ManualEpisode, tf_trigger_time_ns = 0, tf_confidence = None, tf_pre_buffer_seconds = 30,
      tf_post_buffer_seconds = 10, tf_priority = NormalPrio, tf_details = []\<rparr>"

definition TriggerInfo_teleoperation :: trigger_info where
  "TriggerInfo_teleoperation =
     \<lparr>tf_trigger_type = Teleoperation, tf_trigger_time_ns = 0, tf_confidence = Some 1, tf_pre_buffer_seconds = 5,
      tf_post_buffer_seconds = 0, tf_priority = HighPrio, tf_details = []\<rparr>"

record task_info =
  tk_task_id :: string
  tk_task_type :: string
  tk_task_name :: "string option"
  tk_success :: "bool option"
  tk_metrics :: "(string, f64) hmap"
  tk_parameters :: "(string, json_text) hmap"

definition TaskInfo_new :: "string \<Rightarrow> string \<Rightarrow> task_info" where
  "TaskInfo_new task_id task_type =
     \<lparr>tk_task_id = task_id, tk_task_type = task_type, tk_task_name = None, tk_success = None,
      tk_metrics = [], tk_parameters = []\<rparr>"

datatype lighting_condition = Daylight | Artificial | MixedLight | LowLight | Dark | VariableLight

record environment_info =
  en_site_id :: string
  en_zone :: "string option"
  en_lighting :: "lighting_condition option"
  en_floor_type :: "string option"
  en_obstacles_present :: bool
  en_humans_present :: bool
  en_weather :: "string option"
  en_temperature_c :: "f32 option"
  en_properties :: "(string, json_text) hmap"

definition EnvironmentInfo_default :: environment_info where
  "EnvironmentInfo_default =
     \<lparr>en_site_id = ''unknown'', en_zone = None, en_lighting = None, en_floor_type = None,
      en_obstacles_present = False, en_humans_present = False, en_weather = None, en_temperature_c = None,
      en_properties = []\<rparr>"

datatype experience_level = Novice | Intermediate | Expert

record operator_info =
  op_operator_hash :: string
  op_experience_level :: "experience_level option"
  op_input_device :: "string option"
  op_session_duration_minutes :: "u32 option"

definition OperatorInfo_from_id :: "(string \<Rightarrow> string) \<Rightarrow> string \<Rightarrow> operator_info" where
  "OperatorInfo_from_id sha256_hex operator_id =
     \<lparr>op_operator_hash = take 16 (sha256_hex operator_id), op_experience_level = None, op_input_device = None,
      op_session_duration_minutes = None\<rparr>"

record data_gap =
  dg_stream_id :: stream_id
  dg_start_ns :: timestamp_ns
  dg_end_ns :: timestamp_ns
  dg_expected_samples :: u32
  dg_reason :: "string option"

definition gap_duration_ms :: "data_gap \<Rightarrow> f64" where
  "gap_duration_ms g = real (unat (dg_end_ns g - dg_start_ns g)) / 1000000"

datatype stream_issue_type = LowDataRate | HighDataRate | HighLatency | CompressionArtifacts | SensorMalfunction
  | SyncDrift | OtherIssue

datatype issue_severity = IssueInfo | IssueWarning | IssueError | IssueCritical

record stream_issue =
  si_stream_id :: stream_id
  si_issue_type :: stream_issue_type
  si_severity :: issue_severity
  si_description :: string

record episode_quality =
  eq_overall_score :: f32
  eq_pose_coverage :: f32
  eq_sharpness_pass_rate :: f32
  eq_sync_quality :: f32
  eq_data_gaps :: "data_gap list"
  eq_stream_issues :: "stream_issue list"
  eq_usable_for_training :: bool
  eq_rejection_reason :: "string option"

definition EpisodeQuality_default :: episode_quality where
  "EpisodeQuality_default =
     \<lparr>eq_overall_score = 1, eq_pose_coverage = 1, eq_sharpness_pass_rate = 1, eq_sync_quality = 1,
      eq_data_gaps = [], eq_stream_issues = [], eq_usable_for_training = True, eq_rejection_reason = None\<rparr>"

definition reject_episode :: "string \<Rightarrow> episode_quality \<Rightarrow> episode_quality" where
  "reject_episode reason q = q\<lparr>eq_usable_for_training := False, eq_rejection_reason := Some reason\<rparr>"

definition add_gap :: "data_gap \<Rightarrow> episode_quality \<Rightarrow> episode_quality" where
  "add_gap gap q = q\<lparr>eq_data_gaps := eq_data_gaps q @ [gap], eq_overall_score := eq_overall_score q * 0.95\<rparr>"

record stream_summary =
  ss_stream_id :: stream_id
  ss_stream_type :: string
  ss_message_count :: u64
  ss_bytes_total :: u64
  ss_bytes_compressed :: u64
  ss_first_timestamp_ns :: timestamp_ns
  ss_last_timestamp_ns :: timestamp_ns
  ss_actual_hz :: f32
  ss_compression_ratio :: f32

definition StreamSummary_from_config :: "stream_config \<Rightarrow> stream_summary" where
  "StreamSummary_from_config config =
     \<lparr>ss_stream_id = st_stream_id config, ss_stream_type = type_name (st_stream_type config),
      ss_message_count = 0, ss_bytes_total = 0, ss_bytes_compressed = 0, ss_first_timestamp_ns = 0,
      ss_last_timestamp_ns = 0, ss_actual_hz = 0, ss_compression_ratio = 1\<rparr>"

definition compute_rate :: "stream_summary \<Rightarrow> stream_summary" where
  "compute_rate s =
     (let s1 = (if ss_first_timestamp_ns s > 0 \<and> ss_last_timestamp_ns s > ss_first_timestamp_ns s
                then let duration_secs = real (unat (ss_last_timestamp_ns s - ss_first_timestamp_ns s)) / 1000000000 in
                     if duration_secs > 0 then s\<lparr>ss_actual_hz := real (unat (ss_message_count s)) / duration_secs\<rparr> else s
                else s) in
      if ss_bytes_compressed s1 > 0
      then s1\<lparr>ss_compression_ratio := real (unat (ss_bytes_total s1)) / real (unat (ss_bytes_compressed s1))\<rparr>
      else s1)"

record privacy_info =
  pv_faces_blurred :: bool
  pv_license_plates_blurred :: bool
  pv_pii_removed :: bool
  pv_audio_processed :: bool
  pv_faces_detected :: u32
  pv_processing_version :: string
  pv_additional_filters :: "string list"

definition PrivacyInfo_default :: privacy_info where
  "PrivacyInfo_default =
     \<lparr>pv_faces_blurred = False, pv_license_plates_blurred = False, pv_pii_removed = False,
      pv_audio_processed = False, pv_faces_detected = 0, pv_processing_version = ''1.0'',
      pv_additional_filters = []\<rparr>"

record episode_metadata =
  em_episode_id :: episode_id
  em_robot_id :: string
  em_fleet_id :: "string option"
  em_start_time_ns :: timestamp_ns
  em_end_time_ns :: timestamp_ns
  em_duration_seconds :: f64
  em_trigger :: trigger_info
  em_task :: "task_info option"
  em_environment :: environment_info
  em_operator :: "operator_info option"
  em_quality :: episode_quality
  em_streams :: "stream_summary list"
  em_labels :: "(string, string) hmap"
  em_privacy :: privacy_info
  em_schema_version :: string

definition EpisodeMetadata_new :: "timestamp_ns \<Rightarrow> episode_id \<Rightarrow> string \<Rightarrow> trigger_info \<Rightarrow> episode_metadata" where
  "EpisodeMetadata_new now episode_id robot_id trigger =
     \<lparr>em_episode_id = episode_id, em_robot_id = robot_id, em_fleet_id = None, em_start_time_ns = now,
      em_end_time_ns = now, em_duration_seconds = 0, em_trigger = trigger, em_task = None,
      em_environment = EnvironmentInfo_default, em_operator = None, em_quality = EpisodeQuality_default,
      em_streams = [], em_labels = [], em_privacy = PrivacyInfo_default, em_schema_version = ''1.0''\<rparr>"

definition set_end_time :: "timestamp_ns \<Rightarrow> episode_metadata \<Rightarrow> episode_metadata" where
  "set_end_time end_time_ns m =
     m\<lparr>em_end_time_ns := end_time_ns,
       em_duration_seconds := real (unat (end_time_ns - em_start_time_ns m)) / 1000000000\<rparr>"

definition add_label :: "string \<Rightarrow> string \<Rightarrow> episode_metadata \<Rightarrow> episode_metadata" where
  "add_label key val m = m\<lparr>em_labels := hm_insert key val (em_labels m)\<rparr>"

definition add_stream :: "stream_summary \<Rightarrow> episode_metadata \<Rightarrow> episode_metadata" where
  "add_stream s m = m\<lparr>em_streams := em_streams m @ [s]\<rparr>"

definition metadata_total_size :: "episode_metadata \<Rightarrow> u64" where
  "metadata_total_size m = sum_list (map ss_bytes_total (em_streams m))"

definition metadata_compressed_size :: "episode_metadata \<Rightarrow> u64" where
  "metadata_compressed_size m = sum_list (map ss_bytes_compressed (em_streams m))"

definition metadata_compression_ratio :: "episode_metadata \<Rightarrow> f64" where
  "metadata_compression_ratio m =
     (if metadata_compressed_size m > 0
      then real (unat (metadata_total_size m)) / real (unat (metadata_compressed_size m)) else 1)"

text \<open>An end before the start gives a duration near 2^64 nanoseconds instead of a negative one.\<close>

lemma set_end_time_backwards:
  assumes "end_ns < em_start_time_ns m"
  shows "em_duration_seconds (set_end_time end_ns m)
    = (2 ^ 64 - real (unat (em_start_time_ns m) - unat end_ns)) / 1000000000"
proof -
  have lt: "unat end_ns < unat (em_start_time_ns m)" using assms by (simp add: word_less_nat_alt)
  have u: "unat (em_start_time_ns m) < 2 ^ 64" using unsigned_less [of "em_start_time_ns m", where ?'a = nat] by simp
  have "unat (end_ns - em_start_time_ns m) = 2 ^ 64 - (unat (em_start_time_ns m) - unat end_ns)"
    using lt u by (simp add: unat_sub_if' word_le_nat_alt)
  then show ?thesis using u by (simp add: set_end_time_def of_nat_diff)
qed

end
