(* ===== verification/Episode_Storage.thy ===== *)
theory Episode_Storage
  imports Episode_Metadata Paths
begin

text \<open>
  Local storage of episodes (\<open>robotics/data_collection/storage.rs\<close>): the index of the episodes with
  its size and count, the retention policy, and the operations that keep index and files in step.
  The file system is a state \<open>'d\<close> that the operations of a \<open>storage_env\<close> read and change; \<open>serde_json\<close>
  and the directory listing are part of it. The clock is read once per call. Sizes are 64-bit
  words, the count is a 32-bit word. The two loops that make room are total functions: every turn
  removes an entry of the index.
\<close>

section \<open>Data\<close>

datatype storage_error =
    StorageIo string
  | StorageJson string
  | EpisodeNotFound string
  | IndexCorrupted string
  | StorageFull u64 u64
  | InvalidStoragePath string
  | EpisodeExists string

datatype cleanup_strategy = OldestFirst | LargestFirst | LowestQualityFirst | UploadedFirst

record storage_config =
  sg_root_dir :: path
  sg_max_storage_bytes :: u64
  sg_max_episodes :: u32
  sg_max_age_seconds :: u64
  sg_auto_cleanup :: bool
  sg_cleanup_strategy :: cleanup_strategy
  sg_maintain_index :: bool
  sg_index_file :: string

definition StorageConfig_default :: storage_config where
  "StorageConfig_default =
     \<lparr>sg_root_dir = ''episodes'', sg_max_storage_bytes = 0, sg_max_episodes = 0, sg_max_age_seconds = 0,
      sg_auto_cleanup = True, sg_cleanup_strategy = OldestFirst, sg_maintain_index = True,
      sg_index_file = ''episode_index.json''\<rparr>"

record package_result =
  pr_episode_id :: episode_id
  pr_mcap_path :: path
  pr_metadata_path :: "path option"
  pr_total_samples :: u64
  pr_samples_per_stream :: "(string, u64) hmap"
  pr_duration_ns :: u64
  pr_file_size_bytes :: u64
  pr_privacy_detections :: u64
  pr_packaging_time_ms :: u64

record index_entry =
  ie_episode_id :: episode_id
  ie_path :: path
  ie_mcap_file :: string
  ie_metadata_file :: "string option"
  ie_start_time_ns :: timestamp_ns
  ie_end_time_ns :: timestamp_ns
  ie_duration_seconds :: f64
  ie_size_bytes :: u64
  ie_sample_count :: u64
  ie_robot_id :: string
  ie_uploaded :: bool
  ie_uploaded_at :: "timestamp_ns option"
  ie_upload_destination :: "string option"
  ie_quality_score :: f32
  ie_created_at :: timestamp_ns
  ie_labels :: "(string, string) hmap"

record episode_index =
  ix_version :: string
  ix_last_updated :: timestamp_ns
  ix_total_size_bytes :: u64
  ix_episode_count :: u32
  ix_episodes :: "(string, index_entry) hmap"

text \<open>\<open>Path::strip_prefix\<close>: the components after those of the prefix.\<close>

fun component_str :: "path_component \<Rightarrow> string" where
  "component_str RootDir = ''''"
| "component_str CurDir = ''.''"
| "component_str ParentDir = ''..''"
| "component_str (Normal s) = s"

definition path_strip_prefix :: "path \<Rightarrow> path \<Rightarrow> path option" where
  "path_strip_prefix p base =
     (if path_starts_with p base
      then Some (join_with ''/'' (map component_str (drop (length (path_components base)) (path_components p))))
      else None)"

section \<open>Entries and the index\<close>

definition from_package_result ::
  "timestamp_ns \<Rightarrow> package_result \<Rightarrow> episode_metadata \<Rightarrow> path \<Rightarrow> index_entry" where
  "from_package_result now result metadata root_dir =
     \<lparr>ie_episode_id = pr_episode_id result,
      ie_path = (case Option.bind (path_parent (pr_mcap_path result)) (\<lambda>p. path_strip_prefix p root_dir) of
                   Some p \<Rightarrow> p | None \<Rightarrow> pr_episode_id result),
      ie_mcap_file = (case path_file_name (pr_mcap_path result) of Some n \<Rightarrow> n | None \<Rightarrow> ''episode.mcap''),
      ie_metadata_file = Option.bind (pr_metadata_path result) path_file_name,
      ie_start_time_ns = em_start_time_ns metadata, ie_end_time_ns = em_end_time_ns metadata,
      ie_duration_seconds = em_duration_seconds metadata, ie_size_bytes = pr_file_size_bytes result,
      ie_sample_count = pr_total_samples result, ie_robot_id = em_robot_id metadata, ie_uploaded = False,
      ie_uploaded_at = None, ie_upload_destination = None,
      ie_quality_score = eq_overall_score (em_quality metadata), ie_created_at = now,
      ie_labels = em_labels metadata\<rparr>"

definition entry_mcap_path :: "index_entry \<Rightarrow> path \<Rightarrow> path" where
  "entry_mcap_path e root_dir = path_join (path_join root_dir (ie_path e)) (ie_mcap_file e)"

definition entry_metadata_path :: "index_entry \<Rightarrow> path \<Rightarrow> path option" where
  "entry_metadata_path e root_dir = map_option (path_join (path_join root_dir (ie_path e))) (ie_metadata_file e)"

definition entry_mark_uploaded :: "timestamp_ns \<Rightarrow> string \<Rightarrow> index_entry \<Rightarrow> index_entry" where
  "entry_mark_uploaded now destination e =
     e\<lparr>ie_uploaded := True, ie_uploaded_at := Some now, ie_upload_destination := Some destination\<rparr>"

definition entry_age_seconds :: "timestamp_ns \<Rightarrow> index_entry \<Rightarrow> u64" where
  "entry_age_seconds now e = saturating_sub now (ie_created_at e) div 1000000000"

definition EpisodeIndex_new :: episode_index where
  "EpisodeIndex_new = \<lparr>ix_version = ''1.0'', ix_last_updated = 0, ix_total_size_bytes = 0, ix_episode_count = 0,
     ix_episodes = []\<rparr>"

definition ep_index_add :: "timestamp_ns \<Rightarrow> index_entry \<Rightarrow> episode_index \<Rightarrow> episode_index" where
  "ep_index_add now entry ix =
     (let episodes = hm_insert (ie_episode_id entry) entry (ix_episodes ix) in
      ix\<lparr>ix_total_size_bytes := ix_total_size_bytes ix + ie_size_bytes entry, ix_episodes := episodes,
         ix_episode_count := of_nat (length episodes), ix_last_updated := now\<rparr>)"

definition ep_index_remove :: "timestamp_ns \<Rightarrow> string \<Rightarrow> episode_index \<Rightarrow> index_entry option \<times> episode_index" where
  "ep_index_remove now episode_id ix =
     (case hm_get (ix_episodes ix) episode_id of
        Some entry \<Rightarrow>
          (let episodes = hm_remove episode_id (ix_episodes ix) in
           (Some entry, ix\<lparr>ix_episodes := episodes,
              ix_total_size_bytes := saturating_sub (ix_total_size_bytes ix) (ie_size_bytes entry),
              ix_episode_count := of_nat (length episodes), ix_last_updated := now\<rparr>))
      | None \<Rightarrow> (None, ix))"

definition sorted_by_age :: "episode_index \<Rightarrow> index_entry list" where
  "sorted_by_age ix = sort_key ie_created_at (hm_values (ix_episodes ix))"

definition sorted_by_size :: "episode_index \<Rightarrow> index_entry list" where
  "sorted_by_size ix = sort_key (\<lambda>e. - int (unat (ie_size_bytes e))) (hm_values (ix_episodes ix))"

definition sorted_by_quality :: "episode_index \<Rightarrow> index_entry list" where
  "sorted_by_quality ix = sort_key ie_quality_score (hm_values (ix_episodes ix))"

definition uploaded_episodes :: "episode_index \<Rightarrow> index_entry list" where
  "uploaded_episodes ix = sort_key ie_created_at (filter ie_uploaded (hm_values (ix_episodes ix)))"

definition pending_upload :: "episode_index \<Rightarrow> index_entry list" where
  "pending_upload ix = filter (\<lambda>e. \<not> ie_uploaded e) (hm_values (ix_episodes ix))"

definition by_robot :: "episode_index \<Rightarrow> string \<Rightarrow> index_entry list" where
  "by_robot ix robot_id = filter (\<lambda>e. ie_robot_id e = robot_id) (hm_values (ix_episodes ix))"

definition by_label :: "episode_index \<Rightarrow> string \<Rightarrow> string \<Rightarrow> index_entry list" where
  "by_label ix key val = filter (\<lambda>e. hm_get (ie_labels e) key = Some val) (hm_values (ix_episodes ix))"

definition in_time_range :: "episode_index \<Rightarrow> timestamp_ns \<Rightarrow> timestamp_ns \<Rightarrow> index_entry list" where
  "in_time_range ix start_ns end_ns =
     filter (\<lambda>e. ie_start_time_ns e \<ge> start_ns \<and> ie_end_time_ns e \<le> end_ns) (hm_values (ix_episodes ix))"

section \<open>The manager\<close>

record storage_manager =
  sm_config :: storage_config
  sm_index :: episode_index
  sm_index_dirty :: bool

record 'd storage_env =
  se_exists :: "path \<Rightarrow> 'd \<Rightarrow> bool"
  se_is_dir :: "path \<Rightarrow> 'd \<Rightarrow> bool"
  se_create_dir_all :: "path \<Rightarrow> 'd \<Rightarrow> (storage_error + unit) \<times> 'd"
  se_remove_dir_all :: "path \<Rightarrow> 'd \<Rightarrow> (storage_error + unit) \<times> 'd"
  se_read_index :: "path \<Rightarrow> 'd \<Rightarrow> storage_error + episode_index"
  se_write_index :: "path \<Rightarrow> episode_index \<Rightarrow> 'd \<Rightarrow> (storage_error + unit) \<times> 'd"
  se_read_metadata :: "path \<Rightarrow> 'd \<Rightarrow> storage_error + episode_metadata"
  se_read_dir :: "path \<Rightarrow> 'd \<Rightarrow> storage_error + (storage_error + path) list"
  se_file_len :: "path \<Rightarrow> 'd \<Rightarrow> storage_error + u64"
  se_created_at :: "path \<Rightarrow> 'd \<Rightarrow> storage_error + u64"

text \<open>An operation returns its result and the new states of the manager and of the disk.\<close>

type_synonym ('d, 'a) stored = "(storage_error + 'a) \<times> storage_manager \<times> 'd"

definition load_index :: "'d storage_env \<Rightarrow> storage_config \<Rightarrow> 'd \<Rightarrow> storage_error + episode_index" where
  "load_index env config d =
     (if \<not> sg_maintain_index config then Inr EpisodeIndex_new
      else let index_path = path_join (sg_root_dir config) (sg_index_file config) in
           if se_exists env index_path d then se_read_index env index_path d else Inr EpisodeIndex_new)"

definition StorageManager_new ::
  "'d storage_env \<Rightarrow> storage_config \<Rightarrow> 'd \<Rightarrow> (storage_error + storage_manager) \<times> 'd" where
  "StorageManager_new env config d =
     (case se_create_dir_all env (sg_root_dir config) d of
        (Inl e, d1) \<Rightarrow> (Inl e, d1)
      | (Inr _, d1) \<Rightarrow>
          (and_then (load_index env config d1) (\<lambda>index.
             Inr \<lparr>sm_config = config, sm_index = index, sm_index_dirty = False\<rparr>), d1))"

definition save_index :: "'d storage_env \<Rightarrow> storage_manager \<times> 'd \<Rightarrow> ('d, unit) stored" where
  "save_index env = (\<lambda>(m, d).
     if \<not> sg_maintain_index (sm_config m) then (Inr (), m, d)
     else case se_write_index env (path_join (sg_root_dir (sm_config m)) (sg_index_file (sm_config m))) (sm_index m) d of
            (Inl e, d1) \<Rightarrow> (Inl e, m, d1)
          | (Inr _, d1) \<Rightarrow> (Inr (), m\<lparr>sm_index_dirty := False\<rparr>, d1))"

definition delete_episode :: "'d storage_env \<Rightarrow> timestamp_ns \<Rightarrow> string \<Rightarrow> storage_manager \<times> 'd \<Rightarrow> ('d, unit) stored" where
  "delete_episode env now episode_id = (\<lambda>(m, d).
     case ep_index_remove now episode_id (sm_index m) of
       (None, _) \<Rightarrow> (Inl (EpisodeNotFound episode_id), m, d)
     | (Some entry, ix) \<Rightarrow>
         (let m1 = m\<lparr>sm_index := ix\<rparr>; episode_dir = path_join (sg_root_dir (sm_config m)) (ie_path entry);
              (r, d1) = (if se_exists env episode_dir d then se_remove_dir_all env episode_dir d else (Inr (), d)) in
          case r of
            Inl e \<Rightarrow> (Inl e, m1, d1)
          | Inr _ \<Rightarrow> save_index env (m1\<lparr>sm_index_dirty := True\<rparr>, d1)))"

definition choose_victim :: "storage_manager \<Rightarrow> episode_id option" where
  "choose_victim m =
     (let first = (\<lambda>es. case es of e # _ \<Rightarrow> Some (ie_episode_id e) | [] \<Rightarrow> None) in
      case sg_cleanup_strategy (sm_config m) of
        OldestFirst \<Rightarrow> first (sorted_by_age (sm_index m))
      | LargestFirst \<Rightarrow> first (sorted_by_size (sm_index m))
      | LowestQualityFirst \<Rightarrow> first (sorted_by_quality (sm_index m))
      | UploadedFirst \<Rightarrow>
          (case uploaded_episodes (sm_index m) of
             e # _ \<Rightarrow> Some (ie_episode_id e)
           | [] \<Rightarrow> first (sorted_by_age (sm_index m))))"

definition cleanup_one :: "'d storage_env \<Rightarrow> timestamp_ns \<Rightarrow> storage_manager \<times> 'd \<Rightarrow> ('d, bool) stored" where
  "cleanup_one env now = (\<lambda>(m, d).
     case choose_victim m of
       Some episode_id \<Rightarrow>
         (case delete_episode env now episode_id (m, d) of
            (Inl e, m1, d1) \<Rightarrow> (Inl e, m1, d1)
          | (Inr _, m1, d1) \<Rightarrow> (Inr True, m1, d1))
     | None \<Rightarrow> (Inr False, m, d))"

text \<open>The loop of \<open>sm_cleanup_expired\<close> over the ids that were expired when it started.\<close>

fun delete_all :: "'d storage_env \<Rightarrow> timestamp_ns \<Rightarrow> episode_id list \<Rightarrow> u32 \<Rightarrow> storage_manager \<times> 'd \<Rightarrow> ('d, u32) stored" where
  "delete_all env now [] deleted (m, d) = (Inr deleted, m, d)"
| "delete_all env now (episode_id # ids) deleted (m, d) =
     (case delete_episode env now episode_id (m, d) of
        (Inl e, m1, d1) \<Rightarrow> (Inl e, m1, d1)
      | (Inr _, m1, d1) \<Rightarrow> delete_all env now ids (deleted + 1) (m1, d1))"

definition sm_cleanup_expired :: "'d storage_env \<Rightarrow> timestamp_ns \<Rightarrow> storage_manager \<times> 'd \<Rightarrow> ('d, u32) stored" where
  "sm_cleanup_expired env now = (\<lambda>(m, d).
     if sg_max_age_seconds (sm_config m) = 0 then (Inr 0, m, d)
     else delete_all env now
            (map ie_episode_id (filter (\<lambda>e. entry_age_seconds now e > sg_max_age_seconds (sm_config m))
               (hm_values (ix_episodes (sm_index m))))) 0 (m, d))"

lemma index_remove_length:
  "ep_index_remove now i ix = (Some e, ix') \<Longrightarrow> length (ix_episodes ix') < length (ix_episodes ix)"
proof -
  assume *: "ep_index_remove now i ix = (Some e, ix')"
  then have "(i, e) \<in> set (ix_episodes ix)"
    by (auto simp: ep_index_remove_def Let_def split: option.splits dest: hm_get_Some_mem)
  then have "length (filter (\<lambda>(k, _). k \<noteq> i) (ix_episodes ix)) < length (ix_episodes ix)"
    by (intro length_filter_less) auto
  with * show ?thesis by (auto simp: ep_index_remove_def hm_remove_def Let_def split: option.splits)
qed

lemma save_index_index [simp]: "sm_index (fst (snd (save_index env s))) = sm_index (fst s)"
  "sm_config (fst (snd (save_index env s))) = sm_config (fst s)"
  by (auto simp: save_index_def split: prod.splits sum.splits)

lemma delete_episode_index:
  "sm_index (fst (snd (delete_episode env now i s))) = snd (ep_index_remove now i (sm_index (fst s)))"
  "sm_config (fst (snd (delete_episode env now i s))) = sm_config (fst s)"
proof -
  obtain m d where s: "s = (m, d)" by (cases s)
  obtain o' ix where r: "ep_index_remove now i (sm_index m) = (o', ix)" by (cases "ep_index_remove now i (sm_index m)")
  have "sm_index (fst (snd (delete_episode env now i s))) = snd (ep_index_remove now i (sm_index (fst s)))
    \<and> sm_config (fst (snd (delete_episode env now i s))) = sm_config (fst s)"
  proof (cases o')
    case None
    with r show ?thesis by (auto simp: s delete_episode_def ep_index_remove_def Let_def split: option.splits)
  next
    case (Some e)
    with r show ?thesis by (simp add: s delete_episode_def Let_def split: prod.split sum.split)
  qed
  then show "sm_index (fst (snd (delete_episode env now i s))) = snd (ep_index_remove now i (sm_index (fst s)))"
    "sm_config (fst (snd (delete_episode env now i s))) = sm_config (fst s)" by simp_all
qed

lemma delete_episode_found:
  "delete_episode env now i (m, d) = (Inr u, m', d') \<Longrightarrow> \<exists>e. fst (ep_index_remove now i (sm_index m)) = Some e"
  by (cases "ep_index_remove now i (sm_index m)") (auto simp: delete_episode_def split: option.splits)

lemma delete_episode_length:
  assumes "delete_episode env now i (m, d) = (Inr u, m', d')"
  shows "length (ix_episodes (sm_index m')) < length (ix_episodes (sm_index m))"
proof -
  have "sm_index m' = snd (ep_index_remove now i (sm_index m))"
    using delete_episode_index(1) [of env now i "(m, d)"] assms by simp
  with delete_episode_found [OF assms] index_remove_length [of now i "sm_index m"] show ?thesis
    by (metis prod.collapse)
qed

lemma cleanup_one_length:
  assumes "cleanup_one env now (m, d) = (Inr True, m', d')"
  shows "length (ix_episodes (sm_index m')) < length (ix_episodes (sm_index m))"
proof -
  obtain i where "choose_victim m = Some i" using assms by (auto simp: cleanup_one_def split: option.splits)
  with assms obtain u where "delete_episode env now i (m, d) = (Inr u, m', d')"
    by (auto simp: cleanup_one_def split: prod.splits sum.splits)
  then show ?thesis by (rule delete_episode_length)
qed

text \<open>The loops of \<open>enforce_limits\<close>.\<close>

function size_loop :: "'d storage_env \<Rightarrow> timestamp_ns \<Rightarrow> u64 \<Rightarrow> storage_manager \<times> 'd \<Rightarrow> ('d, unit) stored" where
  "size_loop env now additional_bytes (m, d) =
     (if sg_max_storage_bytes (sm_config m) = 0 then (Inr (), m, d)
      else let new_total = ix_total_size_bytes (sm_index m) + additional_bytes in
           if new_total \<le> sg_max_storage_bytes (sm_config m) then (Inr (), m, d)
           else case cleanup_one env now (m, d) of
                  (Inl e, m1, d1) \<Rightarrow> (Inl e, m1, d1)
                | (Inr freed, m1, d1) \<Rightarrow>
                    if freed then size_loop env now additional_bytes (m1, d1)
                    else (Inl (StorageFull new_total (sg_max_storage_bytes (sm_config m))), m1, d1))"
  by pat_completeness auto
termination
  by (relation "measure (\<lambda>(env, now, b, m, d). length (ix_episodes (sm_index m)))")
    (auto dest: cleanup_one_length [OF sym])

function count_loop :: "'d storage_env \<Rightarrow> timestamp_ns \<Rightarrow> storage_manager \<times> 'd \<Rightarrow> ('d, unit) stored" where
  "count_loop env now (m, d) =
     (if sg_max_episodes (sm_config m) > 0 \<and> ix_episode_count (sm_index m) \<ge> sg_max_episodes (sm_config m)
      then case cleanup_one env now (m, d) of
             (Inl e, m1, d1) \<Rightarrow> (Inl e, m1, d1)
           | (Inr freed, m1, d1) \<Rightarrow>
               if freed then count_loop env now (m1, d1)
               else (Inl (StorageFull (ix_total_size_bytes (sm_index m1)) (sg_max_storage_bytes (sm_config m1))), m1, d1)
      else (Inr (), m, d))"
  by pat_completeness auto
termination
  by (relation "measure (\<lambda>(env, now, m, d). length (ix_episodes (sm_index m)))")
    (auto dest: cleanup_one_length [OF sym])

declare size_loop.simps [simp del] count_loop.simps [simp del]

definition enforce_limits :: "'d storage_env \<Rightarrow> timestamp_ns \<Rightarrow> u64 \<Rightarrow> storage_manager \<times> 'd \<Rightarrow> ('d, unit) stored" where
  "enforce_limits env now additional_bytes = (\<lambda>(m, d).
     case sm_cleanup_expired env now (m, d) of
       (Inl e, m1, d1) \<Rightarrow> (Inl e, m1, d1)
     | (Inr _, m1, d1) \<Rightarrow>
         (case size_loop env now additional_bytes (m1, d1) of
            (Inl e, m2, d2) \<Rightarrow> (Inl e, m2, d2)
          | (Inr _, m2, d2) \<Rightarrow> count_loop env now (m2, d2)))"

definition check_limits :: "storage_manager \<Rightarrow> u64 \<Rightarrow> storage_error + unit" where
  "check_limits m additional_bytes =
     (let new_total = ix_total_size_bytes (sm_index m) + additional_bytes;
          max_bytes = sg_max_storage_bytes (sm_config m) in
      if max_bytes > 0 \<and> new_total > max_bytes then Inl (StorageFull new_total max_bytes)
      else if sg_max_episodes (sm_config m) > 0 \<and> ix_episode_count (sm_index m) \<ge> sg_max_episodes (sm_config m)
      then Inl (StorageFull (ix_total_size_bytes (sm_index m)) max_bytes)
      else Inr ())"

definition make_room :: "'d storage_env \<Rightarrow> timestamp_ns \<Rightarrow> u64 \<Rightarrow> storage_manager \<times> 'd \<Rightarrow> ('d, unit) stored" where
  "make_room env now additional_bytes = (\<lambda>(m, d).
     if sg_auto_cleanup (sm_config m) then enforce_limits env now additional_bytes (m, d)
     else (check_limits m additional_bytes, m, d))"

definition store_episode ::
  "'d storage_env \<Rightarrow> timestamp_ns \<Rightarrow> package_result \<Rightarrow> episode_metadata \<Rightarrow> storage_manager \<times> 'd \<Rightarrow> ('d, index_entry) stored" where
  "store_episode env now result metadata = (\<lambda>(m, d).
     if hm_contains (ix_episodes (sm_index m)) (pr_episode_id result)
     then (Inl (EpisodeExists (pr_episode_id result)), m, d)
     else case make_room env now (pr_file_size_bytes result) (m, d) of
            (Inl e, m1, d1) \<Rightarrow> (Inl e, m1, d1)
          | (Inr _, m1, d1) \<Rightarrow>
              (let entry = from_package_result now result metadata (sg_root_dir (sm_config m1));
                   m2 = m1\<lparr>sm_index := ep_index_add now entry (sm_index m1), sm_index_dirty := True\<rparr> in
               case save_index env (m2, d1) of
                 (Inl e, m3, d3) \<Rightarrow> (Inl e, m3, d3)
               | (Inr _, m3, d3) \<Rightarrow> (Inr entry, m3, d3)))"

definition load_episode_metadata ::
  "'d storage_env \<Rightarrow> string \<Rightarrow> storage_manager \<Rightarrow> 'd \<Rightarrow> storage_error + episode_metadata" where
  "load_episode_metadata env episode_id m d =
     (case hm_get (ix_episodes (sm_index m)) episode_id of
        None \<Rightarrow> Inl (EpisodeNotFound episode_id)
      | Some entry \<Rightarrow>
          (case entry_metadata_path entry (sg_root_dir (sm_config m)) of
             None \<Rightarrow> Inl (EpisodeNotFound ''Metadata file not available'')
           | Some p \<Rightarrow> se_read_metadata env p d))"

definition mark_uploaded ::
  "'d storage_env \<Rightarrow> timestamp_ns \<Rightarrow> string \<Rightarrow> string \<Rightarrow> storage_manager \<times> 'd \<Rightarrow> ('d, unit) stored" where
  "mark_uploaded env now episode_id destination = (\<lambda>(m, d).
     case hm_get (ix_episodes (sm_index m)) episode_id of
       None \<Rightarrow> (Inl (EpisodeNotFound episode_id), m, d)
     | Some entry \<Rightarrow>
         save_index env (m\<lparr>sm_index := (sm_index m)\<lparr>ix_episodes :=
             hm_insert episode_id (entry_mark_uploaded now destination entry) (ix_episodes (sm_index m))\<rparr>,
           sm_index_dirty := True\<rparr>, d))"

definition sm_flush :: "'d storage_env \<Rightarrow> storage_manager \<times> 'd \<Rightarrow> ('d, unit) stored" where
  "sm_flush env = (\<lambda>(m, d). if sm_index_dirty m then save_index env (m, d) else (Inr (), m, d))"

record storage_stats =
  sx_total_episodes :: u32
  sx_total_size_bytes :: u64
  sx_pending_upload :: u32
  sx_uploaded :: u32
  sx_max_size_bytes :: u64
  sx_max_episodes :: u32
  sx_usage_percent :: f32

definition storage_stats_of :: "storage_manager \<Rightarrow> storage_stats" where
  "storage_stats_of m =
     (let pending = of_nat (length (pending_upload (sm_index m))); ix = sm_index m; c = sm_config m in
      \<lparr>sx_total_episodes = ix_episode_count ix, sx_total_size_bytes = ix_total_size_bytes ix,
       sx_pending_upload = pending,
       sx_uploaded = (if ix_episode_count ix < pending then 0 else ix_episode_count ix - pending),
       sx_max_size_bytes = sg_max_storage_bytes c, sx_max_episodes = sg_max_episodes c,
       sx_usage_percent = (if sg_max_storage_bytes c > 0
          then real (unat (ix_total_size_bytes ix)) / real (unat (sg_max_storage_bytes c)) * 100 else 0)\<rparr>)"

definition list_episodes :: "storage_manager \<Rightarrow> episode_id list" where
  "list_episodes m = map ie_episode_id (hm_values (ix_episodes (sm_index m)))"

text \<open>\<open>Path::file_stem\<close> and \<open>Path::extension\<close> of a file name: the parts around its last dot.\<close>

definition stem_and_extension :: "string \<Rightarrow> string \<times> string option" where
  "stem_and_extension f =
     (let ext = takeWhile (\<lambda>c. c \<noteq> CHR ''.'') (rev f); rest = drop (length ext) (rev f) in
      if length rest \<le> 1 then (f, None) else (rev (tl rest), Some (rev ext)))"

definition has_extension :: "string \<Rightarrow> path \<Rightarrow> bool" where
  "has_extension ext p = (case path_file_name p of Some f \<Rightarrow> snd (stem_and_extension f) = Some ext | None \<Rightarrow> False)"

definition is_metadata_file :: "path \<Rightarrow> bool" where
  "is_metadata_file p =
     (has_extension ''json'' p \<and>
      (case path_file_name p of Some f \<Rightarrow> ends_with (fst (stem_and_extension f)) ''_metadata'' | None \<Rightarrow> False))"

definition scan_episode_dir ::
  "'d storage_env \<Rightarrow> storage_manager \<Rightarrow> path \<Rightarrow> 'd \<Rightarrow> storage_error + index_entry option" where
  "scan_episode_dir env m dir d =
     and_then (se_read_dir env dir d) (\<lambda>listing.
     let files = List.map_filter ok listing; mcap_files = filter (has_extension ''mcap'') files in
     case mcap_files of
       [] \<Rightarrow> Inr None
     | mcap_path # _ \<Rightarrow>
         (let metadata_file = (case filter is_metadata_file files of p # _ \<Rightarrow> path_file_name p | [] \<Rightarrow> None);
              episode_id = (case path_file_name dir of Some n \<Rightarrow> n | None \<Rightarrow> ''unknown'');
              metadata = (case metadata_file of
                  Some f \<Rightarrow> if se_exists env (path_join dir f) d then ok (se_read_metadata env (path_join dir f) d) else None
                | None \<Rightarrow> None) in
          and_then (se_file_len env mcap_path d) (\<lambda>size_bytes.
          and_then (se_created_at env dir d) (\<lambda>created_at.
          Inr (Some
            \<lparr>ie_episode_id = episode_id,
             ie_path = (case path_strip_prefix dir (sg_root_dir (sm_config m)) of Some p \<Rightarrow> p | None \<Rightarrow> episode_id),
             ie_mcap_file = (case path_file_name mcap_path of Some n \<Rightarrow> n | None \<Rightarrow> ''episode.mcap''),
             ie_metadata_file = metadata_file,
             ie_start_time_ns = (case metadata of Some x \<Rightarrow> em_start_time_ns x | None \<Rightarrow> 0),
             ie_end_time_ns = (case metadata of Some x \<Rightarrow> em_end_time_ns x | None \<Rightarrow> 0),
             ie_duration_seconds = (case metadata of Some x \<Rightarrow> em_duration_seconds x | None \<Rightarrow> 0),
             ie_size_bytes = size_bytes, ie_sample_count = 0,
             ie_robot_id = (case metadata of Some x \<Rightarrow> em_robot_id x | None \<Rightarrow> ''unknown''),
             ie_uploaded = False, ie_uploaded_at = None, ie_upload_destination = None,
             ie_quality_score = (case metadata of Some x \<Rightarrow> eq_overall_score (em_quality x) | None \<Rightarrow> 1),
             ie_created_at = created_at,
             ie_labels = (case metadata of Some x \<Rightarrow> em_labels x | None \<Rightarrow> [])\<rparr>)))))"

fun rebuild_loop ::
  "'d storage_env \<Rightarrow> timestamp_ns \<Rightarrow> (storage_error + path) list \<Rightarrow> u32 \<Rightarrow> storage_manager \<Rightarrow> 'd \<Rightarrow>
   (storage_error + u32) \<times> storage_manager" where
  "rebuild_loop env now [] found m d = (Inr found, m)"
| "rebuild_loop env now (Inl e # es) found m d = (Inl e, m)"
| "rebuild_loop env now (Inr p # es) found m d =
     (if \<not> se_is_dir env p d \<or> path_file_name p = Some (sg_index_file (sm_config m)) then rebuild_loop env now es found m d
      else case scan_episode_dir env m p d of
             Inl e \<Rightarrow> (Inl e, m)
           | Inr None \<Rightarrow> rebuild_loop env now es found m d
           | Inr (Some entry) \<Rightarrow>
               rebuild_loop env now es (found + 1) (m\<lparr>sm_index := ep_index_add now entry (sm_index m)\<rparr>) d)"

definition rebuild_index :: "'d storage_env \<Rightarrow> timestamp_ns \<Rightarrow> storage_manager \<times> 'd \<Rightarrow> ('d, u32) stored" where
  "rebuild_index env now = (\<lambda>(m, d).
     let m0 = m\<lparr>sm_index := EpisodeIndex_new\<rparr> in
     case se_read_dir env (sg_root_dir (sm_config m)) d of
       Inl e \<Rightarrow> (Inl e, m0, d)
     | Inr listing \<Rightarrow>
         (case rebuild_loop env now listing 0 m0 d of
            (Inl e, m1) \<Rightarrow> (Inl e, m1, d)
          | (Inr found, m1) \<Rightarrow>
              (case save_index env (m1\<lparr>sm_index_dirty := True\<rparr>, d) of
                 (Inl e, m2, d2) \<Rightarrow> (Inl e, m2, d2)
               | (Inr _, m2, d2) \<Rightarrow> (Inr found, m2, d2))))"

text \<open>\<open>format_bytes\<close>; \<open>fmt2\<close> is the \<open>{:.2}\<close> form of a number.\<close>

definition format_bytes :: "(f64 \<Rightarrow> string) \<Rightarrow> u64 \<Rightarrow> string" where
  "format_bytes fmt2 bytes =
     (let b = real (unat bytes) in
      if bytes \<ge> 1024 ^ 4 then fmt2 (b / 1024 ^ 4) @ '' TB''
      else if bytes \<ge> 1024 ^ 3 then fmt2 (b / 1024 ^ 3) @ '' GB''
      else if bytes \<ge> 1024 ^ 2 then fmt2 (b / 1024 ^ 2) @ '' MB''
      else if bytes \<ge> 1024 then fmt2 (b / 1024) @ '' KB''
      else show_nat (unat bytes) @ '' B'')"

section \<open>The invariant of the index\<close>

definition index_wf :: "episode_index \<Rightarrow> bool" where
  "index_wf ix =
     (hm_wf (ix_episodes ix) \<and> (\<forall>k e. hm_get (ix_episodes ix) k = Some e \<longrightarrow> ie_episode_id e = k)
      \<and> unat (ix_total_size_bytes ix) = sum_list (map (\<lambda>e. unat (ie_size_bytes e)) (hm_values (ix_episodes ix)))
      \<and> ix_episode_count ix = of_nat (length (ix_episodes ix)))"

lemma hm_insert_new: "hm_get m k = None \<Longrightarrow> hm_insert k v m = m @ [(k, v)]"
  unfolding hm_get_def hm_insert_def by (induction m) (auto split: if_splits)

lemma sum_hm_remove:
  fixes f :: "'v \<Rightarrow> nat"
  assumes "hm_wf m" and "hm_get m k = Some v"
  shows "sum_list (map f (hm_values m)) = f v + sum_list (map f (hm_values (hm_remove k m)))"
  using assms
proof (induction m)
  case (Cons kv m)
  obtain k' v' where kv: "kv = (k', v')" by (cases kv)
  show ?case
  proof (cases "k' = k")
    case True
    with Cons.prems have "hm_remove k m = m"
      by (force simp: kv hm_wf_def hm_remove_def intro!: filter_True)
    with True Cons.prems show ?thesis by (simp add: kv hm_get_def hm_values_def hm_remove_def)
  next
    case False
    with Cons show ?thesis by (simp add: kv hm_wf_def hm_get_def hm_values_def hm_remove_def)
  qed
qed (simp add: hm_get_def)

lemma unat_saturating_sub: "unat (saturating_sub a b) = unat a - unat b"
  by (simp add: saturating_sub_def word_less_nat_alt unat_sub_if' word_le_nat_alt)

lemma index_wf_new: "index_wf EpisodeIndex_new"
  by (simp add: index_wf_def EpisodeIndex_new_def hm_values_def)

lemma index_wf_add:
  assumes "index_wf ix" and "hm_get (ix_episodes ix) (ie_episode_id e) = None"
    and "unat (ix_total_size_bytes ix) + unat (ie_size_bytes e) < 2 ^ 64"
  shows "index_wf (ep_index_add now e ix)"
  using assms
  by (auto simp: index_wf_def ep_index_add_def Let_def hm_insert_new [OF assms(2)] hm_values_def unat_word_ariths)
    (auto simp: hm_insert_new [OF assms(2), symmetric] split: if_splits)

lemma index_wf_remove: "index_wf ix \<Longrightarrow> index_wf (snd (ep_index_remove now i ix))"
  by (auto simp: index_wf_def ep_index_remove_def Let_def unat_saturating_sub sum_hm_remove split: option.splits if_splits)

text \<open>
  What holds of an index after the removal of any entry holds after every operation that makes
  room, whatever the disk answers.
\<close>

locale remove_invariant =
  fixes P :: "episode_index \<Rightarrow> bool"
  assumes remove: "P ix \<Longrightarrow> P (snd (ep_index_remove now i ix))"
begin

lemma delete: "P (sm_index (fst s)) \<Longrightarrow> P (sm_index (fst (snd (delete_episode env now i s))))"
  by (simp add: remove delete_episode_index)

lemma cleanup: "P (sm_index m) \<Longrightarrow> P (sm_index (fst (snd (cleanup_one env now (m, d)))))"
proof (cases "choose_victim m")
  case (Some i)
  assume "P (sm_index m)"
  then have "P (sm_index (fst (snd (delete_episode env now i (m, d)))))" by (simp add: delete)
  with Some show ?thesis by (auto simp: cleanup_one_def split: prod.splits sum.splits)
qed (simp add: cleanup_one_def)

lemma delete_all: "P (sm_index (fst s)) \<Longrightarrow> P (sm_index (fst (snd (delete_all env now ids n s))))"
proof (induction env now ids n s rule: delete_all.induct)
  case (2 env now i ids n m d)
  have "P (sm_index (fst (snd (delete_episode env now i (m, d)))))" using 2(2) by (simp add: delete)
  with 2(1) show ?case by (auto split: prod.splits sum.splits)
qed simp

lemma expired: "P (sm_index m) \<Longrightarrow> P (sm_index (fst (snd (sm_cleanup_expired env now (m, d)))))"
  using delete_all [of "(m, d)"] by (simp add: sm_cleanup_expired_def)

lemma size_loop: "P (sm_index (fst s)) \<Longrightarrow> P (sm_index (fst (snd (size_loop env now b s))))"
proof (induction env now b s rule: size_loop.induct)
  case (1 env now b m d)
  have c: "P (sm_index (fst (snd (cleanup_one env now (m, d)))))" using 1(2) by (simp add: cleanup)
  obtain r m1 d1 where cr: "cleanup_one env now (m, d) = (r, m1, d1)" by (cases "cleanup_one env now (m, d)")
  show ?case
  proof (cases "r = Inr True")
    case True
    show ?thesis
      using 1(1) [OF _ refl _ cr [symmetric] True refl TrueI] 1(2) c cr True
      by (simp add: size_loop.simps [of env now b m d] Let_def)
  next
    case False
    with 1(2) c cr show ?thesis
      by (cases r) (simp_all add: size_loop.simps [of env now b m d] Let_def)
  qed
qed

lemma count_loop: "P (sm_index (fst s)) \<Longrightarrow> P (sm_index (fst (snd (count_loop env now s))))"
proof (induction env now s rule: count_loop.induct)
  case (1 env now m d)
  have c: "P (sm_index (fst (snd (cleanup_one env now (m, d)))))" using 1(2) by (simp add: cleanup)
  obtain r m1 d1 where cr: "cleanup_one env now (m, d) = (r, m1, d1)" by (cases "cleanup_one env now (m, d)")
  show ?case
  proof (cases "r = Inr True")
    case True
    show ?thesis
      using 1(1) [OF _ cr [symmetric] True refl TrueI] 1(2) c cr True
      by (simp add: count_loop.simps [of env now m d])
  next
    case False
    with 1(2) c cr show ?thesis
      by (cases r) (simp_all add: count_loop.simps [of env now m d])
  qed
qed

lemma enforce:
  assumes "P (sm_index m)"
  shows "P (sm_index (fst (snd (enforce_limits env now b (m, d)))))"
proof -
  obtain r m1 d1 where e: "sm_cleanup_expired env now (m, d) = (r, m1, d1)" by (cases "sm_cleanup_expired env now (m, d)")
  have p1: "P (sm_index m1)" using expired [OF assms, of env now d] e by simp
  obtain r2 m2 d2 where s: "size_loop env now b (m1, d1) = (r2, m2, d2)" by (cases "size_loop env now b (m1, d1)")
  have p2: "P (sm_index m2)" using size_loop [of "(m1, d1)" env now b] p1 s by simp
  show ?thesis
    using p1 p2 count_loop [of "(m2, d2)" env now] e s
    by (cases r; cases r2) (simp_all add: enforce_limits_def)
qed

end

interpretation wf_kept: remove_invariant index_wf
  by unfold_locales (rule index_wf_remove)

interpretation total_kept: remove_invariant "\<lambda>ix. unat (ix_total_size_bytes ix) \<le> B" for B
  by unfold_locales (auto simp: ep_index_remove_def Let_def unat_saturating_sub split: option.splits)

interpretation entries_kept: remove_invariant "\<lambda>ix. set (ix_episodes ix) \<subseteq> A" for A
  by unfold_locales (auto simp: ep_index_remove_def Let_def hm_remove_def split: option.splits)

lemma cleanup_one_config [simp]: "sm_config (fst (snd (cleanup_one env now (m, d)))) = sm_config m"
proof (cases "choose_victim m")
  case (Some i)
  with delete_episode_index(2) [of env now i "(m, d)"] show ?thesis
    by (auto simp: cleanup_one_def split: prod.splits sum.splits)
qed (simp add: cleanup_one_def)

lemma delete_all_config [simp]: "sm_config (fst (snd (delete_all env now ids n s))) = sm_config (fst s)"
proof (induction env now ids n s rule: delete_all.induct)
  case (2 env now i ids n m d)
  with delete_episode_index(2) [of env now i "(m, d)"] show ?case by (auto split: prod.splits sum.splits)
qed simp

lemma cleanup_expired_config: "sm_config (fst (snd (sm_cleanup_expired env now (m, d)))) = sm_config m"
  by (simp add: sm_cleanup_expired_def)

lemma size_loop_result:
  "sm_config (fst (snd (size_loop env now b s))) = sm_config (fst s)
   \<and> (fst (size_loop env now b s) = Inr () \<longrightarrow> sg_max_storage_bytes (sm_config (fst s)) = 0 \<or>
       ix_total_size_bytes (sm_index (fst (snd (size_loop env now b s)))) + b \<le> sg_max_storage_bytes (sm_config (fst s)))"
proof (induction env now b s rule: size_loop.induct)
  case (1 env now b m d)
  obtain r m1 d1 where cr: "cleanup_one env now (m, d) = (r, m1, d1)" by (cases "cleanup_one env now (m, d)")
  have c: "sm_config m1 = sm_config m" using cleanup_one_config [of env now m d] cr by simp
  show ?case
  proof (cases "r = Inr True")
    case True
    show ?thesis
      using 1 [OF _ refl _ cr [symmetric] True refl TrueI] c cr True
      by (simp add: size_loop.simps [of env now b m d] Let_def)
  next
    case False
    with c cr show ?thesis
      by (cases r) (simp_all add: size_loop.simps [of env now b m d] Let_def)
  qed
qed

lemma count_loop_result:
  "sm_config (fst (snd (count_loop env now s))) = sm_config (fst s)
   \<and> (fst (count_loop env now s) = Inr () \<longrightarrow> sg_max_episodes (sm_config (fst s)) = 0 \<or>
       ix_episode_count (sm_index (fst (snd (count_loop env now s)))) < sg_max_episodes (sm_config (fst s)))"
proof (induction env now s rule: count_loop.induct)
  case (1 env now m d)
  obtain r m1 d1 where cr: "cleanup_one env now (m, d) = (r, m1, d1)" by (cases "cleanup_one env now (m, d)")
  have c: "sm_config m1 = sm_config m" using cleanup_one_config [of env now m d] cr by simp
  show ?case
  proof (cases "r = Inr True")
    case True
    show ?thesis
      using 1 [OF _ cr [symmetric] True refl TrueI] c cr True
      by (auto simp: count_loop.simps [of env now m d] word_gt_0 not_le)
  next
    case False
    with c cr show ?thesis
      by (cases r) (auto simp: count_loop.simps [of env now m d] word_gt_0 not_le)
  qed
qed

section \<open>Limits\<close>

lemma enforce_limits_result:
  assumes "enforce_limits env now b (m, d) = (Inr (), m', d')"
    and "unat (ix_total_size_bytes (sm_index m)) + unat b < 2 ^ 64"
  shows "sm_config m' = sm_config m"
    "sg_max_storage_bytes (sm_config m) = 0 \<or>
       unat (ix_total_size_bytes (sm_index m')) + unat b \<le> unat (sg_max_storage_bytes (sm_config m))"
    "sg_max_episodes (sm_config m) = 0 \<or> ix_episode_count (sm_index m') < sg_max_episodes (sm_config m)"
proof -
  obtain r1 m1 d1 where e: "sm_cleanup_expired env now (m, d) = (Inr r1, m1, d1)"
    using assms(1) by (cases "sm_cleanup_expired env now (m, d)") (auto simp: enforce_limits_def split: sum.splits)
  obtain m2 d2 where s: "size_loop env now b (m1, d1) = (Inr (), m2, d2)"
    using assms(1) e by (cases "size_loop env now b (m1, d1)") (auto simp: enforce_limits_def split: sum.splits)
  have c: "count_loop env now (m2, d2) = (Inr (), m', d')"
    using assms(1) e s by (simp add: enforce_limits_def)
  have c1: "sm_config m1 = sm_config m" using cleanup_expired_config [of env now m d] e by simp
  have c2: "sm_config m2 = sm_config m" using size_loop_result [of env now b "(m1, d1)"] s c1 by simp
  show "sm_config m' = sm_config m" using count_loop_result [of env now "(m2, d2)"] c c2 by simp
  show "sg_max_episodes (sm_config m) = 0 \<or> ix_episode_count (sm_index m') < sg_max_episodes (sm_config m)"
    using count_loop_result [of env now "(m2, d2)"] c c2 by simp
  let ?t = "\<lambda>m. unat (ix_total_size_bytes (sm_index m))"
  have t1: "?t m1 \<le> ?t m" using total_kept.expired [of m "?t m" env now d] e by simp
  have t2: "?t m2 \<le> ?t m" using total_kept.size_loop [of "(m1, d1)" "?t m" env now b] t1 s by simp
  have t3: "?t m' \<le> ?t m2" using total_kept.count_loop [of "(m2, d2)" "?t m2" env now] c by simp
  have "unat (ix_total_size_bytes (sm_index m2) + b) = ?t m2 + unat b"
    using t2 assms(2) by (simp add: unat_word_ariths)
  then show "sg_max_storage_bytes (sm_config m) = 0 \<or>
      unat (ix_total_size_bytes (sm_index m')) + unat b \<le> unat (sg_max_storage_bytes (sm_config m))"
    using size_loop_result [of env now b "(m1, d1)"] s c1 t3 by (auto simp: word_le_nat_alt)
qed

lemma save_index_result:
  "save_index env (m, d) = (r, m', d') \<Longrightarrow> sm_index m' = sm_index m \<and> sm_config m' = sm_config m"
  using save_index_index [of env "(m, d)"] by simp

lemma make_room_result:
  assumes "make_room env now b (m, d) = (Inr (), m1, d1)" and "index_wf (sm_index m)"
    and "unat (ix_total_size_bytes (sm_index m)) + unat b < 2 ^ 64"
  shows "sm_config m1 = sm_config m" "index_wf (sm_index m1)"
    "set (ix_episodes (sm_index m1)) \<subseteq> set (ix_episodes (sm_index m))"
    "unat (ix_total_size_bytes (sm_index m1)) \<le> unat (ix_total_size_bytes (sm_index m))"
    "sg_max_storage_bytes (sm_config m) = 0 \<or>
       unat (ix_total_size_bytes (sm_index m1)) + unat b \<le> unat (sg_max_storage_bytes (sm_config m))"
    "sg_max_episodes (sm_config m) = 0 \<or> ix_episode_count (sm_index m1) < sg_max_episodes (sm_config m)"
proof -
  have "sm_config m1 = sm_config m \<and> index_wf (sm_index m1)
    \<and> set (ix_episodes (sm_index m1)) \<subseteq> set (ix_episodes (sm_index m))
    \<and> unat (ix_total_size_bytes (sm_index m1)) \<le> unat (ix_total_size_bytes (sm_index m))
    \<and> (sg_max_storage_bytes (sm_config m) = 0 \<or>
       unat (ix_total_size_bytes (sm_index m1)) + unat b \<le> unat (sg_max_storage_bytes (sm_config m)))
    \<and> (sg_max_episodes (sm_config m) = 0 \<or> ix_episode_count (sm_index m1) < sg_max_episodes (sm_config m))"
  proof (cases "sg_auto_cleanup (sm_config m)")
    case True
    with assms(1) have e: "enforce_limits env now b (m, d) = (Inr (), m1, d1)" by (simp add: make_room_def)
    show ?thesis
      using enforce_limits_result [OF e assms(3)] wf_kept.enforce [OF assms(2), of env now b d]
        entries_kept.enforce [of m "set (ix_episodes (sm_index m))" env now b d]
        total_kept.enforce [of m "unat (ix_total_size_bytes (sm_index m))" env now b d] e by simp
  next
    case False
    then have "check_limits m b = Inr () \<and> m1 = m" using assms(1) by (auto simp: make_room_def)
    with assms(2,3) show ?thesis
      by (auto simp: check_limits_def Let_def word_gt_0 not_less not_le word_le_nat_alt unat_word_ariths split: if_splits)
  qed
  then show "sm_config m1 = sm_config m" "index_wf (sm_index m1)"
    "set (ix_episodes (sm_index m1)) \<subseteq> set (ix_episodes (sm_index m))"
    "unat (ix_total_size_bytes (sm_index m1)) \<le> unat (ix_total_size_bytes (sm_index m))"
    "sg_max_storage_bytes (sm_config m) = 0 \<or>
       unat (ix_total_size_bytes (sm_index m1)) + unat b \<le> unat (sg_max_storage_bytes (sm_config m))"
    "sg_max_episodes (sm_config m) = 0 \<or> ix_episode_count (sm_index m1) < sg_max_episodes (sm_config m)" by simp_all
qed

lemma store_episode_stored:
  assumes "store_episode env now result metadata (m, d) = (Inr entry, m', d')"
  obtains m1 d1 where "hm_get (ix_episodes (sm_index m)) (pr_episode_id result) = None"
    "make_room env now (pr_file_size_bytes result) (m, d) = (Inr (), m1, d1)"
    "entry = from_package_result now result metadata (sg_root_dir (sm_config m1))"
    "sm_index m' = ep_index_add now entry (sm_index m1)" "sm_config m' = sm_config m1"
proof -
  have new: "hm_get (ix_episodes (sm_index m)) (pr_episode_id result) = None"
    using assms by (auto simp: store_episode_def hm_contains_def split: if_splits)
  obtain m1 d1 where r: "make_room env now (pr_file_size_bytes result) (m, d) = (Inr (), m1, d1)"
    using assms new
    by (cases "make_room env now (pr_file_size_bytes result) (m, d)")
      (auto simp: store_episode_def hm_contains_def Let_def split: sum.splits prod.splits)
  define e where "e = from_package_result now result metadata (sg_root_dir (sm_config m1))"
  define m2 where "m2 = m1\<lparr>sm_index := ep_index_add now e (sm_index m1), sm_index_dirty := True\<rparr>"
  obtain r3 m3 d3 where s: "save_index env (m2, d1) = (r3, m3, d3)" by (cases "save_index env (m2, d1)")
  have "entry = e" "m' = m3"
    using assms new r s
    by (auto simp: store_episode_def hm_contains_def Let_def e_def [symmetric] m2_def [symmetric] split: sum.splits)
  with save_index_result [OF s] new r show ?thesis
    by (intro that [of m1 d1]) (simp_all add: e_def m2_def)
qed

lemma store_result:
  assumes "index_wf (sm_index m)"
    and "unat (ix_total_size_bytes (sm_index m)) + unat (pr_file_size_bytes result) < 2 ^ 64"
    and "store_episode env now result metadata (m, d) = (Inr entry, m', d')"
  shows "index_wf (sm_index m') \<and> hm_get (ix_episodes (sm_index m')) (pr_episode_id result) = Some entry
    \<and> (sg_max_storage_bytes (sm_config m) = 0 \<or> ix_total_size_bytes (sm_index m') \<le> sg_max_storage_bytes (sm_config m))
    \<and> (sg_max_episodes (sm_config m) = 0 \<or> ix_episode_count (sm_index m') \<le> sg_max_episodes (sm_config m))"
proof -
  obtain m1 d1 where new: "hm_get (ix_episodes (sm_index m)) (pr_episode_id result) = None"
    and r: "make_room env now (pr_file_size_bytes result) (m, d) = (Inr (), m1, d1)"
    and e: "entry = from_package_result now result metadata (sg_root_dir (sm_config m1))"
    and idx: "sm_index m' = ep_index_add now entry (sm_index m1)"
    by (rule store_episode_stored [OF assms(3)])
  note room = make_room_result [OF r assms(1,2)]
  have i: "ie_episode_id entry = pr_episode_id result" "ie_size_bytes entry = pr_file_size_bytes result"
    by (simp_all add: e from_package_result_def)
  have new1: "hm_get (ix_episodes (sm_index m1)) (ie_episode_id entry) = None"
  proof (rule ccontr)
    assume "hm_get (ix_episodes (sm_index m1)) (ie_episode_id entry) \<noteq> None"
    then obtain x where "(pr_episode_id result, x) \<in> set (ix_episodes (sm_index m))"
      using room(3) i hm_get_Some_mem by fastforce
    with new assms(1) show False by (auto simp: index_wf_def dest: hm_mem_get)
  qed
  have no: "unat (ix_total_size_bytes (sm_index m1)) + unat (ie_size_bytes entry) < 2 ^ 64"
    using assms(2) room(4) i by simp
  have "index_wf (sm_index m')" unfolding idx by (rule index_wf_add [OF room(2) new1 no])
  moreover have "hm_get (ix_episodes (sm_index m')) (pr_episode_id result) = Some entry"
    by (simp add: idx ep_index_add_def Let_def i)
  moreover have "unat (ix_total_size_bytes (sm_index m'))
      = unat (ix_total_size_bytes (sm_index m1)) + unat (pr_file_size_bytes result)"
    using no i by (simp add: idx ep_index_add_def Let_def unat_word_ariths)
  moreover have "ix_episode_count (sm_index m') = ix_episode_count (sm_index m1) + 1"
    using room(2) by (simp add: idx ep_index_add_def Let_def hm_insert_new [OF new1] index_wf_def)
  moreover from this have "sg_max_episodes (sm_config m) = 0 \<or> ix_episode_count (sm_index m') \<le> sg_max_episodes (sm_config m)"
    using room(6) inc_le by metis
  ultimately show ?thesis using room(5) by (auto simp: word_le_nat_alt)
qed

text \<open>
  C27. Storing an episode keeps the index consistent (its size is the sum of the sizes of its
  entries, its count their number, and each entry is filed under its own id), contains the new
  episode, and respects the configured limits on bytes and episodes, with automatic cleanup as
  without it.
\<close>

theorem store_respects_limits:
  assumes "index_wf (sm_index m)"
    and "unat (ix_total_size_bytes (sm_index m)) + unat (pr_file_size_bytes result) < 2 ^ 64"
    and "store_episode env now result metadata (m, d) = (Inr entry, m', d')"
  shows "index_wf (sm_index m') \<and> hm_get (ix_episodes (sm_index m')) (pr_episode_id result) = Some entry
    \<and> (sg_max_storage_bytes (sm_config m) = 0 \<or> ix_total_size_bytes (sm_index m') \<le> sg_max_storage_bytes (sm_config m))
    \<and> (sg_max_episodes (sm_config m) = 0 \<or> ix_episode_count (sm_index m') \<le> sg_max_episodes (sm_config m))"
  by (rule store_result [OF assms])

section \<open>An episode that cannot fit\<close>

text \<open>A disk on which every removal and every save succeeds.\<close>

definition disk_ok :: "'d storage_env \<Rightarrow> bool" where
  "disk_ok env = ((\<forall>p d. fst (se_remove_dir_all env p d) = Inr ()) \<and> (\<forall>p ix d. fst (se_write_index env p ix d) = Inr ()))"

lemma save_index_ok: "disk_ok env \<Longrightarrow> fst (save_index env s) = Inr ()"
  by (cases s) (auto simp: save_index_def disk_ok_def split: prod.splits sum.splits, (metis fst_conv sum.distinct(1))+)

lemma delete_episode_ok:
  assumes "disk_ok env" and "hm_get (ix_episodes (sm_index m)) i = Some e"
  shows "fst (delete_episode env now i (m, d)) = Inr ()"
proof -
  have "fst (se_remove_dir_all env p d) = Inr ()" for p d using assms(1) by (simp add: disk_ok_def)
  then show ?thesis
    using assms(2) save_index_ok [OF assms(1)]
    by (auto simp: delete_episode_def ep_index_remove_def Let_def split: prod.splits sum.splits)
      (metis fst_conv sum.distinct(1))
qed

lemma values_mem: "e \<in> set (hm_values m) \<longleftrightarrow> (\<exists>k. (k, e) \<in> set m)"
  by (force simp: hm_values_def)

lemma sort_key_hd: "sort_key f xs = x # ys \<Longrightarrow> x \<in> set xs \<and> (\<forall>y \<in> set xs. f x \<le> f y)"
proof -
  assume *: "sort_key f xs = x # ys"
  then have "set xs = insert x (set ys)" by (metis list.simps(15) set_sort)
  moreover have "sorted (map f (x # ys))" using * sorted_sort_key [of f xs] by simp
  ultimately show ?thesis by auto
qed

definition victim_ok :: "cleanup_strategy \<Rightarrow> index_entry list \<Rightarrow> index_entry \<Rightarrow> bool" where
  "victim_ok st es e =
     (e \<in> set es \<and>
      (case st of
         OldestFirst \<Rightarrow> \<forall>e' \<in> set es. ie_created_at e \<le> ie_created_at e'
       | LargestFirst \<Rightarrow> \<forall>e' \<in> set es. ie_size_bytes e' \<le> ie_size_bytes e
       | LowestQualityFirst \<Rightarrow> \<forall>e' \<in> set es. ie_quality_score e \<le> ie_quality_score e'
       | UploadedFirst \<Rightarrow>
           if \<exists>e' \<in> set es. ie_uploaded e'
           then ie_uploaded e \<and> (\<forall>e' \<in> set es. ie_uploaded e' \<longrightarrow> ie_created_at e \<le> ie_created_at e')
           else \<forall>e' \<in> set es. ie_created_at e \<le> ie_created_at e'))"

lemma choose_victim_ok:
  assumes "choose_victim m = Some i"
  shows "\<exists>e. ie_episode_id e = i \<and>
    victim_ok (sg_cleanup_strategy (sm_config m)) (hm_values (ix_episodes (sm_index m))) e"
proof (cases "sg_cleanup_strategy (sm_config m)")
  case OldestFirst
  with assms show ?thesis
    by (auto simp: choose_victim_def Let_def victim_ok_def sorted_by_age_def split: list.splits dest!: sort_key_hd)
next
  case LargestFirst
  with assms show ?thesis
    by (auto simp: choose_victim_def Let_def victim_ok_def sorted_by_size_def word_le_def split: list.splits dest!: sort_key_hd)
next
  case LowestQualityFirst
  with assms show ?thesis
    by (auto simp: choose_victim_def Let_def victim_ok_def sorted_by_quality_def split: list.splits dest!: sort_key_hd)
next
  case UploadedFirst
  show ?thesis
  proof (cases "uploaded_episodes (sm_index m)")
    case Nil
    then have "filter ie_uploaded (hm_values (ix_episodes (sm_index m))) = []"
      by (metis length_0_conv length_sort uploaded_episodes_def)
    then have "\<not> (\<exists>e' \<in> set (hm_values (ix_episodes (sm_index m))). ie_uploaded e')" by (simp add: filter_empty_conv)
    with Nil UploadedFirst assms show ?thesis
      by (auto simp: choose_victim_def Let_def victim_ok_def sorted_by_age_def split: list.splits dest!: sort_key_hd)
  next
    case (Cons e es)
    then have "e \<in> set (filter ie_uploaded (hm_values (ix_episodes (sm_index m))))"
      "\<forall>y \<in> set (filter ie_uploaded (hm_values (ix_episodes (sm_index m)))). ie_created_at e \<le> ie_created_at y"
      using sort_key_hd unfolding uploaded_episodes_def by metis+
    with Cons UploadedFirst assms show ?thesis
      by (auto simp: choose_victim_def Let_def victim_ok_def)
  qed
qed

lemma choose_victim_entry:
  assumes "index_wf (sm_index m)" and "choose_victim m = Some i"
  shows "\<exists>e. hm_get (ix_episodes (sm_index m)) i = Some e
    \<and> victim_ok (sg_cleanup_strategy (sm_config m)) (hm_values (ix_episodes (sm_index m))) e"
proof -
  obtain e where e: "ie_episode_id e = i"
    "victim_ok (sg_cleanup_strategy (sm_config m)) (hm_values (ix_episodes (sm_index m))) e"
    using choose_victim_ok [OF assms(2)] by blast
  then obtain k where "(k, e) \<in> set (ix_episodes (sm_index m))" by (auto simp: values_mem victim_ok_def)
  then have "hm_get (ix_episodes (sm_index m)) k = Some e" using assms(1) by (simp add: index_wf_def hm_mem_get)
  with e assms(1) show ?thesis by (auto simp: index_wf_def)
qed

lemma choose_victim_None: "choose_victim m = None \<Longrightarrow> ix_episodes (sm_index m) = []"
  by (auto simp: choose_victim_def Let_def sorted_by_age_def sorted_by_size_def sorted_by_quality_def hm_values_def
      dest!: arg_cong [where f = set] split: cleanup_strategy.splits list.splits)

lemma size_loop_empties:
  assumes "disk_ok env" and "index_wf (sm_index (fst s))"
    and "0 < sg_max_storage_bytes (sm_config (fst s))" and "sg_max_storage_bytes (sm_config (fst s)) < b"
    and "unat (ix_total_size_bytes (sm_index (fst s))) + unat b < 2 ^ 64"
  shows "\<exists>t m' d'. size_loop env now b s = (Inl (StorageFull t (sg_max_storage_bytes (sm_config (fst s)))), m', d')
    \<and> ix_episodes (sm_index m') = []"
  using assms
proof (induction env now b s rule: size_loop.induct)
  case (1 env now b m d)
  have "unat (ix_total_size_bytes (sm_index m) + b) = unat (ix_total_size_bytes (sm_index m)) + unat b"
    using 1(6) by (simp add: unat_word_ariths)
  then have full: "\<not> ix_total_size_bytes (sm_index m) + b \<le> sg_max_storage_bytes (sm_config m)"
    using 1(5) by (simp add: word_le_nat_alt word_less_nat_alt)
  have pos: "sg_max_storage_bytes (sm_config m) \<noteq> 0" using 1(4) by (simp add: word_gt_0)
  show ?case
  proof (cases "choose_victim m")
    case None
    with full pos choose_victim_None [OF None] show ?thesis
      by (simp add: size_loop.simps [of env now b m d] Let_def cleanup_one_def)
  next
    case (Some i)
    obtain e where "hm_get (ix_episodes (sm_index m)) i = Some e"
      using choose_victim_entry [OF _ Some] 1(3) by auto
    from delete_episode_ok [OF 1(2) this, of now d] obtain m1 d1
      where "delete_episode env now i (m, d) = (Inr (), m1, d1)" by (metis prod.collapse)
    with Some have cr: "cleanup_one env now (m, d) = (Inr True, m1, d1)" by (simp add: cleanup_one_def)
    have m1: "index_wf (sm_index m1)" "sm_config m1 = sm_config m"
      "unat (ix_total_size_bytes (sm_index m1)) \<le> unat (ix_total_size_bytes (sm_index m))"
      using wf_kept.cleanup [of m env now d] cleanup_one_config [of env now m d]
        total_kept.cleanup [of m "unat (ix_total_size_bytes (sm_index m))" env now d] 1(3) cr by simp_all
    have "\<exists>t m' d'. size_loop env now b (m1, d1) = (Inl (StorageFull t (sg_max_storage_bytes (sm_config m1))), m', d')
        \<and> ix_episodes (sm_index m') = []"
      using 1(1) [OF pos refl full cr [symmetric] refl refl TrueI 1(2)] m1 1(4-6) by simp
    with cr full pos m1(2) show ?thesis by (simp add: size_loop.simps [of env now b m d] Let_def)
  qed
qed

text \<open>
  C28. An episode larger than the storage limit is refused, but only after automatic cleanup, when it is on, has
  deleted every stored episode: the loop that makes room removes one episode after the other,
  although no number of removals can be enough.
\<close>

theorem oversize_episode_wipes_storage:
  assumes "disk_ok env" and "index_wf (sm_index m)" and "sg_auto_cleanup (sm_config m)"
    and "sg_max_age_seconds (sm_config m) = 0"
    and "hm_get (ix_episodes (sm_index m)) (pr_episode_id result) = None"
    and "0 < sg_max_storage_bytes (sm_config m)"
    and "sg_max_storage_bytes (sm_config m) < pr_file_size_bytes result"
    and "unat (ix_total_size_bytes (sm_index m)) + unat (pr_file_size_bytes result) < 2 ^ 64"
  shows "\<exists>t m' d'. store_episode env now result metadata (m, d)
      = (Inl (StorageFull t (sg_max_storage_bytes (sm_config m))), m', d') \<and> ix_episodes (sm_index m') = []"
  using size_loop_empties [OF assms(1), of "(m, d)" "pr_file_size_bytes result" now] assms
  by (auto simp: store_episode_def make_room_def enforce_limits_def sm_cleanup_expired_def hm_contains_def)

text \<open>
  When the files of an episode cannot be removed, the deletion fails, but the episode is
  already gone from the index, and the index is not marked as changed: the files stay on disk,
  where no later cleanup finds them.
\<close>

theorem failed_delete_forgets_episode:
  assumes "hm_get (ix_episodes (sm_index m)) i = Some e"
    and "se_exists env (path_join (sg_root_dir (sm_config m)) (ie_path e)) d"
    and "se_remove_dir_all env (path_join (sg_root_dir (sm_config m)) (ie_path e)) d = (Inl err, d)"
  shows "\<exists>m'. delete_episode env now i (m, d) = (Inl err, m', d) \<and> hm_get (ix_episodes (sm_index m')) i = None
    \<and> sm_index_dirty m' = sm_index_dirty m"
  using assms by (simp add: delete_episode_def ep_index_remove_def Let_def)

text \<open>
  Cleanup removes the episode its strategy names: the oldest, the largest, the one of lowest
  quality, or the oldest uploaded one, and an episode that was not uploaded only when none was.
\<close>

theorem cleanup_follows_strategy:
  assumes "disk_ok env" and "index_wf (sm_index m)" and "ix_episodes (sm_index m) \<noteq> []"
  shows "\<exists>e m' d'. cleanup_one env now (m, d) = (Inr True, m', d')
    \<and> victim_ok (sg_cleanup_strategy (sm_config m)) (hm_values (ix_episodes (sm_index m))) e
    \<and> ix_episodes (sm_index m') = hm_remove (ie_episode_id e) (ix_episodes (sm_index m))"
proof -
  obtain i where i: "choose_victim m = Some i" using choose_victim_None assms(3) by (cases "choose_victim m") auto
  obtain e where e: "hm_get (ix_episodes (sm_index m)) i = Some e"
    "victim_ok (sg_cleanup_strategy (sm_config m)) (hm_values (ix_episodes (sm_index m))) e"
    using choose_victim_entry [OF assms(2) i] by blast
  obtain m' d' where del: "delete_episode env now i (m, d) = (Inr (), m', d')"
    using delete_episode_ok [OF assms(1) e(1), of now d] by (metis prod.collapse)
  have "ix_episodes (sm_index m') = hm_remove i (ix_episodes (sm_index m))"
    using delete_episode_index(1) [of env now i "(m, d)"] del e(1) by (simp add: ep_index_remove_def Let_def)
  moreover have "ie_episode_id e = i" using assms(2) e(1) by (simp add: index_wf_def)
  ultimately show ?thesis using i del e(2) by (auto simp: cleanup_one_def)
qed

section \<open>The theorems at concrete inputs\<close>

definition demo_disk_env :: "unit storage_env" where
  "demo_disk_env =
     \<lparr>se_exists = (\<lambda>_ _. True), se_is_dir = (\<lambda>_ _. True), se_create_dir_all = (\<lambda>_ d. (Inr (), d)),
      se_remove_dir_all = (\<lambda>_ d. (Inr (), d)), se_read_index = (\<lambda>_ _. Inr EpisodeIndex_new),
      se_write_index = (\<lambda>_ _ d. (Inr (), d)), se_read_metadata = (\<lambda>_ _. Inl (StorageIo ''none'')),
      se_read_dir = (\<lambda>_ _. Inr []), se_file_len = (\<lambda>_ _. Inr 0), se_created_at = (\<lambda>_ _. Inr 0)\<rparr>"

definition demo_episode :: "string \<Rightarrow> u64 \<Rightarrow> package_result" where
  "demo_episode i n =
     \<lparr>pr_episode_id = i, pr_mcap_path = ''/e/'' @ i @ ''/a.mcap'', pr_metadata_path = None, pr_total_samples = 1,
      pr_samples_per_stream = [], pr_duration_ns = 1, pr_file_size_bytes = n, pr_privacy_detections = 0,
      pr_packaging_time_ms = 0\<rparr>"

definition demo_store :: storage_manager where
  "demo_store =
     \<lparr>sm_config = StorageConfig_default\<lparr>sg_root_dir := ''/e'', sg_max_storage_bytes := 10\<rparr>,
      sm_index = EpisodeIndex_new, sm_index_dirty = False\<rparr>"

abbreviation "demo_metadata i \<equiv> EpisodeMetadata_new 0 i ''r'' TriggerInfo_manual"

definition demo_stored :: storage_manager where
  "demo_stored = fst (snd (store_episode demo_disk_env 5 (demo_episode ''a'' 4) (demo_metadata ''a'') (demo_store, ())))"

lemma demo_ok: "disk_ok demo_disk_env"
  by (simp add: disk_ok_def demo_disk_env_def)

lemma demo_store_ok: "\<exists>entry. store_episode demo_disk_env 5 (demo_episode ''a'' 4) (demo_metadata ''a'') (demo_store, ())
    = (Inr entry, demo_stored, ())"
  unfolding demo_stored_def
  by (simp add: store_episode_def demo_store_def demo_episode_def hm_contains_def EpisodeIndex_new_def make_room_def
      enforce_limits_def sm_cleanup_expired_def StorageConfig_default_def size_loop.simps count_loop.simps
      save_index_def demo_disk_env_def Let_def)

theorem store_respects_limits_witness:
  "index_wf (sm_index demo_stored) \<and> ix_total_size_bytes (sm_index demo_stored) \<le> 10"
proof -
  obtain entry where "store_episode demo_disk_env 5 (demo_episode ''a'' 4) (demo_metadata ''a'') (demo_store, ())
      = (Inr entry, demo_stored, ())" using demo_store_ok by blast
  from store_respects_limits [OF _ _ this] show ?thesis
    by (simp add: demo_store_def index_wf_new StorageConfig_default_def)
      (simp add: EpisodeIndex_new_def demo_episode_def)
qed

lemma demo_stored_facts:
  "index_wf (sm_index demo_stored)" "sm_config demo_stored = sm_config demo_store"
  "ix_total_size_bytes (sm_index demo_stored) = 4"
  "map fst (ix_episodes (sm_index demo_stored)) = [''a'']"
proof -
  obtain entry where st: "store_episode demo_disk_env 5 (demo_episode ''a'' 4) (demo_metadata ''a'') (demo_store, ())
      = (Inr entry, demo_stored, ())" using demo_store_ok by blast
  from store_result [OF _ _ this] show "index_wf (sm_index demo_stored)"
    by (simp add: demo_store_def index_wf_new StorageConfig_default_def)
      (simp add: EpisodeIndex_new_def demo_episode_def)
  show "sm_config demo_stored = sm_config demo_store" "ix_total_size_bytes (sm_index demo_stored) = 4"
    "map fst (ix_episodes (sm_index demo_stored)) = [''a'']"
    unfolding demo_stored_def
    by (simp_all add: store_episode_def demo_store_def demo_episode_def hm_contains_def EpisodeIndex_new_def make_room_def
      enforce_limits_def sm_cleanup_expired_def StorageConfig_default_def size_loop.simps count_loop.simps
      save_index_def demo_disk_env_def Let_def ep_index_add_def from_package_result_def hm_insert_def)
qed

theorem oversize_episode_wipes_storage_witness:
  "\<exists>t m' d'. store_episode demo_disk_env 6 (demo_episode ''b'' 11) (demo_metadata ''b'') (demo_stored, ())
      = (Inl (StorageFull t 10), m', d') \<and> ix_episodes (sm_index m') = []"
proof -
  have "hm_get (ix_episodes (sm_index demo_stored)) ''b'' = None"
    using demo_stored_facts(4) by (auto simp: hm_get_def map_of_eq_None_iff set_map [symmetric] simp del: set_map)
  then show ?thesis
    using oversize_episode_wipes_storage [OF demo_ok demo_stored_facts(1), of "demo_episode ''b'' 11" 6 "demo_metadata ''b''" "()"]
    by (simp add: demo_stored_facts(2,3) demo_store_def StorageConfig_default_def demo_episode_def)
qed

definition stuck_env :: "unit storage_env" where
  "stuck_env = demo_disk_env\<lparr>se_remove_dir_all := (\<lambda>_ d. (Inl (StorageIo ''busy''), d))\<rparr>"

theorem failed_delete_forgets_episode_witness:
  "\<exists>m'. delete_episode stuck_env 6 ''a'' (demo_stored, ()) = (Inl (StorageIo ''busy''), m', ())
     \<and> hm_get (ix_episodes (sm_index m')) ''a'' = None"
proof -
  obtain e where "hm_get (ix_episodes (sm_index demo_stored)) ''a'' = Some e"
    using demo_stored_facts(4) by (auto simp: hm_get_def)
  from failed_delete_forgets_episode [OF this, of stuck_env "()" "StorageIo ''busy''" 6] show ?thesis
    by (auto simp: stuck_env_def demo_disk_env_def)
qed

theorem cleanup_follows_strategy_witness:
  "\<exists>(e :: index_entry) m' d'. cleanup_one demo_disk_env 6 (demo_stored, ()) = (Inr True, m', d')
    \<and> ix_episodes (sm_index m') = hm_remove (ie_episode_id e) (ix_episodes (sm_index demo_stored))"
proof -
  have "ix_episodes (sm_index demo_stored) \<noteq> []" using demo_stored_facts(4) by auto
  from cleanup_follows_strategy [OF demo_ok demo_stored_facts(1) this, of 6 "()"] show ?thesis by blast
qed

end
