(* ===== verification/Mcap.thy ===== *)
theory Mcap
  imports Samples
begin

text \<open>
  The MCAP writer of the data collection plugin (\<open>robotics/data_collection/mcap_writer.rs\<close>): schemas,
  channels, messages, chunks, attachments and the summary, down to the bytes of the file. The
  underlying writer is a byte list; \<open>io\<close> says which calls of \<open>write_all\<close> fail, given what has been
  written before. A string is the list of its UTF-8 bytes. The reader at the end is the specification
  the files are checked against.
\<close>

section \<open>Bytes\<close>

text \<open>\<open>to_le_bytes\<close> of an integer of \<open>n\<close> bytes, and its inverse.\<close>

definition le_bytes :: "nat \<Rightarrow> 'w :: len word \<Rightarrow> u8 list" where
  "le_bytes n w = map (\<lambda>i. ucast (drop_bit (8 * i) w)) [0..<n]"

definition of_le :: "u8 list \<Rightarrow> nat" where
  "of_le bs = foldr (\<lambda>b a. unat b + 256 * a) bs 0"

definition utf8_bytes :: "string \<Rightarrow> u8 list" where
  "utf8_bytes s = map (\<lambda>c. of_nat (of_char c)) s"

definition prefixed_string :: "string \<Rightarrow> u8 list" where
  "prefixed_string s = le_bytes 4 (of_nat (length s) :: u32) @ utf8_bytes s"

definition prefixed_map :: "(string, string) hmap \<Rightarrow> u8 list" where
  "prefixed_map m =
     le_bytes 4 (sum_list (map (\<lambda>(k, v). 4 + of_nat (length k) + 4 + of_nat (length v)) m) :: u32) @
     concat (map (\<lambda>(k, v). prefixed_string k @ prefixed_string v) m)"

definition MCAP_MAGIC :: "u8 list" where
  "MCAP_MAGIC = [0x89, 77, 67, 65, 80, 0x30, 13, 10]"

datatype opcode =
    OpHeader | OpFooter | OpSchema | OpChannel | OpMessage | OpChunk | OpMessageIndex | OpChunkIndex
  | OpAttachment | OpAttachmentIndex | OpStatistics | OpMetadata | OpMetadataIndex | OpSummaryOffset | OpDataEnd

fun opcode_byte :: "opcode \<Rightarrow> u8" where
  "opcode_byte OpHeader = 0x01"
| "opcode_byte OpFooter = 0x02"
| "opcode_byte OpSchema = 0x03"
| "opcode_byte OpChannel = 0x04"
| "opcode_byte OpMessage = 0x05"
| "opcode_byte OpChunk = 0x06"
| "opcode_byte OpMessageIndex = 0x07"
| "opcode_byte OpChunkIndex = 0x08"
| "opcode_byte OpAttachment = 0x09"
| "opcode_byte OpAttachmentIndex = 0x0A"
| "opcode_byte OpStatistics = 0x0B"
| "opcode_byte OpMetadata = 0x0C"
| "opcode_byte OpMetadataIndex = 0x0D"
| "opcode_byte OpSummaryOffset = 0x0E"
| "opcode_byte OpDataEnd = 0x0F"

section \<open>Schemas, channels and the writer\<close>

record mcap_schema =
  sc_id :: u16
  sc_name :: string
  sc_encoding :: string
  sc_data :: "u8 list"

definition Schema_new :: "u16 \<Rightarrow> string \<Rightarrow> string \<Rightarrow> mcap_schema" where
  "Schema_new i name encoding = \<lparr>sc_id = i, sc_name = name, sc_encoding = encoding, sc_data = []\<rparr>"

definition Schema_json :: "u16 \<Rightarrow> string \<Rightarrow> string \<Rightarrow> mcap_schema" where
  "Schema_json i name json_schema =
     \<lparr>sc_id = i, sc_name = name, sc_encoding = ''jsonschema'', sc_data = utf8_bytes json_schema\<rparr>"

record mcap_channel =
  ch_id :: u16
  ch_schema_id :: u16
  ch_topic :: string
  ch_message_encoding :: string
  ch_metadata :: "(string, string) hmap"

definition Channel_new :: "u16 \<Rightarrow> u16 \<Rightarrow> string \<Rightarrow> string \<Rightarrow> mcap_channel" where
  "Channel_new i schema_id topic message_encoding =
     \<lparr>ch_id = i, ch_schema_id = schema_id, ch_topic = topic, ch_message_encoding = message_encoding, ch_metadata = []\<rparr>"

datatype mcap_compression = NoChunkCompression | ZstdChunk | Lz4Chunk

record mcap_writer_config =
  mc_profile :: string
  mc_library :: string
  mc_use_chunking :: bool
  mc_chunk_size :: nat
  mc_compression :: mcap_compression
  mc_create_message_index :: bool

definition McapWriterConfig_default :: mcap_writer_config where
  "McapWriterConfig_default =
     \<lparr>mc_profile = ''ros2'', mc_library = ''omniedge-robotics'', mc_use_chunking = True,
      mc_chunk_size = 4 * 1024 * 1024, mc_compression = ZstdChunk, mc_create_message_index = True\<rparr>"

record mcap_statistics =
  st_message_count :: u64
  st_chunk_count :: u32
  st_attachment_count :: u32
  st_uncompressed_size :: u64
  st_compressed_size :: u64
  st_channel_message_counts :: "(u16, u64) hmap"
  st_message_start_time :: timestamp_ns
  st_message_end_time :: timestamp_ns

definition McapStatistics_default :: mcap_statistics where
  "McapStatistics_default =
     \<lparr>st_message_count = 0, st_chunk_count = 0, st_attachment_count = 0, st_uncompressed_size = 0,
      st_compressed_size = 0, st_channel_message_counts = [], st_message_start_time = 0, st_message_end_time = 0\<rparr>"

datatype writer_state = WInitial | WWriting | WFinished

record message_index_entry =
  mi_timestamp :: timestamp_ns
  mi_offset :: u64

record chunk_index_entry =
  ci_start_time :: timestamp_ns
  ci_end_time :: timestamp_ns
  ci_offset :: u64
  ci_chunk_length :: u64
  ci_message_index_offset :: u64
  ci_message_index_length :: u64
  ci_compression :: string
  ci_compressed_size :: u64
  ci_uncompressed_size :: u64

record mcap_writer =
  mw_writer :: "u8 list"
  mw_config :: mcap_writer_config
  mw_schemas :: "(u16, mcap_schema) hmap"
  mw_channels :: "(u16, mcap_channel) hmap"
  mw_stream_to_channel :: "(stream_id, u16) hmap"
  mw_next_schema_id :: u16
  mw_next_channel_id :: u16
  mw_chunk_buffer :: "u8 list"
  mw_message_indices :: "message_index_entry list"
  mw_chunk_indices :: "chunk_index_entry list"
  mw_stats :: mcap_statistics
  mw_state :: writer_state
  mw_bytes_written :: u64

datatype mcap_error =
    McapIo string
  | SchemaNotRegistered string
  | ChannelNotRegistered string
  | McapInvalidState string
  | McapSerializationError string
  | McapCompressionError string

definition McapWriter_new :: "mcap_writer_config \<Rightarrow> mcap_writer" where
  "McapWriter_new config =
     \<lparr>mw_writer = [], mw_config = config, mw_schemas = [], mw_channels = [], mw_stream_to_channel = [],
      mw_next_schema_id = 1, mw_next_channel_id = 1, mw_chunk_buffer = [], mw_message_indices = [],
      mw_chunk_indices = [], mw_stats = McapStatistics_default, mw_state = WInitial, mw_bytes_written = 0\<rparr>"

section \<open>Writing bytes and records\<close>

text \<open>An operation of the writer; \<open>?\<close> is \<open>mw_then\<close>.\<close>

type_synonym 'a mcap_op = "mcap_writer \<Rightarrow> (mcap_error + 'a) \<times> mcap_writer"
type_synonym write_oracle = "u8 list \<Rightarrow> u8 list \<Rightarrow> string option"

definition mw_then :: "'a mcap_op \<Rightarrow> ('a \<Rightarrow> 'b mcap_op) \<Rightarrow> 'b mcap_op" where
  "mw_then f g m = (case f m of (Inl e, m1) \<Rightarrow> (Inl e, m1) | (Inr a, m1) \<Rightarrow> g a m1)"

definition mw_return :: "'a \<Rightarrow> 'a mcap_op" where
  "mw_return a m = (Inr a, m)"

definition write_bytes :: "write_oracle \<Rightarrow> u8 list \<Rightarrow> unit mcap_op" where
  "write_bytes io data m =
     (case io (mw_writer m) data of
        Some e \<Rightarrow> (Inl (McapIo e), m)
      | None \<Rightarrow> (Inr (), m\<lparr>mw_writer := mw_writer m @ data,
                           mw_bytes_written := mw_bytes_written m + of_nat (length data)\<rparr>))"

definition write_record :: "write_oracle \<Rightarrow> opcode \<Rightarrow> u8 list \<Rightarrow> unit mcap_op" where
  "write_record io opcode data =
     mw_then (write_bytes io [opcode_byte opcode]) (\<lambda>_.
     mw_then (write_bytes io (le_bytes 8 (of_nat (length data) :: u64))) (\<lambda>_.
     write_bytes io data))"

definition mcap_write_header :: "write_oracle \<Rightarrow> unit mcap_op" where
  "mcap_write_header io m =
     write_record io OpHeader (prefixed_string (mc_profile (mw_config m)) @ prefixed_string (mc_library (mw_config m))) m"

definition schema_bytes :: "mcap_schema \<Rightarrow> u8 list" where
  "schema_bytes s =
     le_bytes 2 (sc_id s) @ prefixed_string (sc_name s) @ prefixed_string (sc_encoding s) @
     le_bytes 4 (of_nat (length (sc_data s)) :: u32) @ sc_data s"

definition write_schema :: "write_oracle \<Rightarrow> mcap_schema \<Rightarrow> unit mcap_op" where
  "write_schema io s = write_record io OpSchema (schema_bytes s)"

definition channel_bytes :: "mcap_channel \<Rightarrow> u8 list" where
  "channel_bytes c =
     le_bytes 2 (ch_id c) @ le_bytes 2 (ch_schema_id c) @ prefixed_string (ch_topic c) @
     prefixed_string (ch_message_encoding c) @ prefixed_map (ch_metadata c)"

definition write_channel :: "write_oracle \<Rightarrow> mcap_channel \<Rightarrow> unit mcap_op" where
  "write_channel io c = write_record io OpChannel (channel_bytes c)"

definition message_bytes :: "u64 \<Rightarrow> u16 \<Rightarrow> timestamp_ns \<Rightarrow> u8 list \<Rightarrow> u8 list" where
  "message_bytes message_count channel_id timestamp data =
     le_bytes 2 channel_id @ le_bytes 4 (ucast message_count :: u32) @ le_bytes 8 timestamp @ le_bytes 8 timestamp @ data"

definition write_message_record :: "write_oracle \<Rightarrow> u16 \<Rightarrow> timestamp_ns \<Rightarrow> u8 list \<Rightarrow> unit mcap_op" where
  "write_message_record io channel_id timestamp data m =
     write_record io OpMessage (message_bytes (st_message_count (mw_stats m)) channel_id timestamp data) m"

definition write_message_to_buffer :: "u16 \<Rightarrow> timestamp_ns \<Rightarrow> u8 list \<Rightarrow> mcap_writer \<Rightarrow> mcap_writer" where
  "write_message_to_buffer channel_id timestamp data m =
     (let record = message_bytes (st_message_count (mw_stats m)) channel_id timestamp data in
      m\<lparr>mw_chunk_buffer := mw_chunk_buffer m @ [opcode_byte OpMessage] @ le_bytes 8 (of_nat (length record) :: u64) @ record\<rparr>)"

definition chunk_bytes :: "timestamp_ns \<Rightarrow> timestamp_ns \<Rightarrow> u64 \<Rightarrow> string \<Rightarrow> u8 list \<Rightarrow> u8 list" where
  "chunk_bytes start_time end_time uncompressed_size compression_name compressed_data =
     le_bytes 8 start_time @ le_bytes 8 end_time @ le_bytes 8 uncompressed_size @ le_bytes 4 (0 :: u32) @
     prefixed_string compression_name @ le_bytes 8 (of_nat (length compressed_data) :: u64) @ compressed_data"

text \<open>Every compression setting leaves the chunk as it is and names no compression.\<close>

definition compress_chunk :: "mcap_compression \<Rightarrow> u8 list \<Rightarrow> u8 list \<times> string" where
  "compress_chunk c buffer = (case c of NoChunkCompression \<Rightarrow> (buffer, '''') | _ \<Rightarrow> (buffer, ''''))"

definition index_time :: "message_index_entry option \<Rightarrow> timestamp_ns" where
  "index_time e = (case e of Some i \<Rightarrow> mi_timestamp i | None \<Rightarrow> 0)"

definition mcap_flush_chunk :: "write_oracle \<Rightarrow> unit mcap_op" where
  "mcap_flush_chunk io m =
     (if mw_chunk_buffer m = [] then (Inr (), m)
      else
        let uncompressed_size = of_nat (length (mw_chunk_buffer m)) :: u64;
            is = mw_message_indices m;
            start_time = index_time (if is = [] then None else Some (hd is));
            end_time = index_time (if is = [] then None else Some (last is));
            (compressed_data, compression_name) = compress_chunk (mc_compression (mw_config m)) (mw_chunk_buffer m);
            compressed_size = of_nat (length compressed_data) :: u64;
            chunk_offset = mw_bytes_written m
        in mw_then (write_record io OpChunk (chunk_bytes start_time end_time uncompressed_size compression_name compressed_data))
             (\<lambda>_ m1.
                let chunk_length = mw_bytes_written m1 - chunk_offset;
                    message_index_offset = mw_bytes_written m1;
                    message_index_length = mw_bytes_written m1 - message_index_offset;
                    index = \<lparr>ci_start_time = start_time, ci_end_time = end_time, ci_offset = chunk_offset,
                             ci_chunk_length = chunk_length, ci_message_index_offset = message_index_offset,
                             ci_message_index_length = message_index_length, ci_compression = compression_name,
                             ci_compressed_size = compressed_size, ci_uncompressed_size = uncompressed_size\<rparr>;
                    s = mw_stats m1
                in (Inr (), m1\<lparr>mw_chunk_indices := mw_chunk_indices m1 @ [index],
                               mw_stats := s\<lparr>st_chunk_count := st_chunk_count s + 1,
                                             st_uncompressed_size := st_uncompressed_size s + uncompressed_size,
                                             st_compressed_size := st_compressed_size s + compressed_size\<rparr>,
                               mw_chunk_buffer := [], mw_message_indices := []\<rparr>)) m)"

definition attachment_bytes :: "string \<Rightarrow> string \<Rightarrow> u8 list \<Rightarrow> u8 list" where
  "attachment_bytes name media_type data =
     le_bytes 8 (0 :: u64) @ le_bytes 8 (0 :: u64) @ prefixed_string name @ prefixed_string media_type @
     le_bytes 8 (of_nat (length data) :: u64) @ data @ le_bytes 4 (0 :: u32)"

definition write_attachment_record :: "write_oracle \<Rightarrow> string \<Rightarrow> string \<Rightarrow> u8 list \<Rightarrow> unit mcap_op" where
  "write_attachment_record io name media_type data = write_record io OpAttachment (attachment_bytes name media_type data)"

definition write_metadata_record :: "write_oracle \<Rightarrow> string \<Rightarrow> (string, string) hmap \<Rightarrow> unit mcap_op" where
  "write_metadata_record io name metadata = write_record io OpMetadata (prefixed_string name @ prefixed_map metadata)"

definition write_data_end :: "write_oracle \<Rightarrow> unit mcap_op" where
  "write_data_end io = write_record io OpDataEnd (le_bytes 4 (0 :: u32))"

definition statistics_bytes :: "mcap_writer \<Rightarrow> u8 list" where
  "statistics_bytes m =
     (let s = mw_stats m in
      le_bytes 8 (st_message_count s) @ le_bytes 2 (of_nat (hm_len (mw_schemas m)) :: u16) @
      le_bytes 4 (of_nat (hm_len (mw_channels m)) :: u32) @ le_bytes 4 (st_attachment_count s) @ le_bytes 4 (0 :: u32) @
      le_bytes 4 (st_chunk_count s) @ le_bytes 8 (st_message_start_time s) @ le_bytes 8 (st_message_end_time s) @
      le_bytes 4 (of_nat (hm_len (st_channel_message_counts s)) :: u32) @
      concat (map (\<lambda>(i, n). le_bytes 2 i @ le_bytes 8 n) (st_channel_message_counts s)))"

definition write_statistics :: "write_oracle \<Rightarrow> unit mcap_op" where
  "write_statistics io m = write_record io OpStatistics (statistics_bytes m) m"

definition chunk_index_bytes :: "chunk_index_entry \<Rightarrow> u8 list" where
  "chunk_index_bytes i =
     le_bytes 8 (ci_start_time i) @ le_bytes 8 (ci_end_time i) @ le_bytes 8 (ci_offset i) @ le_bytes 8 (ci_chunk_length i) @
     le_bytes 4 (0 :: u32) @ le_bytes 8 (ci_message_index_length i) @ prefixed_string (ci_compression i) @
     le_bytes 8 (ci_compressed_size i) @ le_bytes 8 (ci_uncompressed_size i)"

definition write_chunk_index :: "write_oracle \<Rightarrow> chunk_index_entry \<Rightarrow> unit mcap_op" where
  "write_chunk_index io i = write_record io OpChunkIndex (chunk_index_bytes i)"

primrec write_chunk_indices :: "write_oracle \<Rightarrow> chunk_index_entry list \<Rightarrow> unit mcap_op" where
  "write_chunk_indices io [] = mw_return ()"
| "write_chunk_indices io (i # is) = mw_then (write_chunk_index io i) (\<lambda>_. write_chunk_indices io is)"

definition write_summary :: "write_oracle \<Rightarrow> unit mcap_op" where
  "write_summary io = mw_then (write_statistics io) (\<lambda>_ m. write_chunk_indices io (mw_chunk_indices m) m)"

definition write_footer :: "write_oracle \<Rightarrow> unit mcap_op" where
  "write_footer io =
     write_record io OpFooter (le_bytes 8 (0 :: u64) @ le_bytes 8 (0 :: u64) @ le_bytes 4 (0 :: u32))"

section \<open>The public operations\<close>

definition mcap_start :: "write_oracle \<Rightarrow> unit mcap_op" where
  "mcap_start io m =
     (if mw_state m \<noteq> WInitial then (Inl (McapInvalidState ''Already started''), m)
      else mw_then (write_bytes io MCAP_MAGIC) (\<lambda>_. mw_then (mcap_write_header io) (\<lambda>_ m1.
             (Inr (), m1\<lparr>mw_state := WWriting\<rparr>))) m)"

definition register_schema :: "write_oracle \<Rightarrow> mcap_schema \<Rightarrow> u16 mcap_op" where
  "register_schema io s m =
     (let m1 = m\<lparr>mw_schemas := hm_insert (sc_id s) s (mw_schemas m)\<rparr> in
      if mw_state m1 = WWriting then mw_then (write_schema io s) (\<lambda>_. mw_return (sc_id s)) m1
      else (Inr (sc_id s), m1))"

definition add_schema :: "write_oracle \<Rightarrow> string \<Rightarrow> string \<Rightarrow> u8 list \<Rightarrow> u16 mcap_op" where
  "add_schema io name encoding data m =
     (let i = mw_next_schema_id m in
      register_schema io \<lparr>sc_id = i, sc_name = name, sc_encoding = encoding, sc_data = data\<rparr>
        (m\<lparr>mw_next_schema_id := mw_next_schema_id m + 1\<rparr>))"

definition register_channel :: "write_oracle \<Rightarrow> mcap_channel \<Rightarrow> u16 mcap_op" where
  "register_channel io c m =
     (if ch_schema_id c \<noteq> 0 \<and> \<not> hm_contains (mw_schemas m) (ch_schema_id c)
      then (Inl (SchemaNotRegistered (''Schema '' @ show_nat (unat (ch_schema_id c)) @ '' not found'')), m)
      else
        let m1 = m\<lparr>mw_channels := hm_insert (ch_id c) c (mw_channels m)\<rparr> in
        if mw_state m1 = WWriting then mw_then (write_channel io c) (\<lambda>_. mw_return (ch_id c)) m1
        else (Inr (ch_id c), m1))"

definition add_channel :: "write_oracle \<Rightarrow> u16 \<Rightarrow> string \<Rightarrow> string \<Rightarrow> u16 mcap_op" where
  "add_channel io schema_id topic message_encoding m =
     (let i = mw_next_channel_id m in
      register_channel io (Channel_new i schema_id topic message_encoding)
        (m\<lparr>mw_next_channel_id := mw_next_channel_id m + 1\<rparr>))"

definition channel_missing :: "u16 \<Rightarrow> mcap_error" where
  "channel_missing i = ChannelNotRegistered (''Channel '' @ show_nat (unat i) @ '' not found'')"

definition mcap_register_stream :: "stream_id \<Rightarrow> u16 \<Rightarrow> unit mcap_op" where
  "mcap_register_stream stream_id channel_id m =
     (if \<not> hm_contains (mw_channels m) channel_id then (Inl (channel_missing channel_id), m)
      else (Inr (), m\<lparr>mw_stream_to_channel := hm_insert stream_id channel_id (mw_stream_to_channel m)\<rparr>))"

definition count_message :: "u16 \<Rightarrow> timestamp_ns \<Rightarrow> mcap_statistics \<Rightarrow> mcap_statistics" where
  "count_message channel_id timestamp s =
     (let counts = st_channel_message_counts s;
          n = (case hm_get counts channel_id of Some n \<Rightarrow> n | None \<Rightarrow> 0) in
      s\<lparr>st_message_count := st_message_count s + 1,
        st_channel_message_counts := hm_insert channel_id (n + 1) counts,
        st_message_start_time :=
          (if st_message_start_time s = 0 \<or> timestamp < st_message_start_time s then timestamp else st_message_start_time s),
        st_message_end_time := (if timestamp > st_message_end_time s then timestamp else st_message_end_time s)\<rparr>)"

definition not_writing :: mcap_error where
  "not_writing = McapInvalidState ''Writer not in writing state''"

definition write_message :: "write_oracle \<Rightarrow> u16 \<Rightarrow> timestamp_ns \<Rightarrow> u8 list \<Rightarrow> unit mcap_op" where
  "write_message io channel_id timestamp data m =
     (if mw_state m \<noteq> WWriting then (Inl not_writing, m)
      else if \<not> hm_contains (mw_channels m) channel_id then (Inl (channel_missing channel_id), m)
      else
        let m1 = m\<lparr>mw_stats := count_message channel_id timestamp (mw_stats m)\<rparr> in
        if mc_use_chunking (mw_config m1)
        then let offset = of_nat (length (mw_chunk_buffer m1));
                 m2 = write_message_to_buffer channel_id timestamp data m1;
                 m3 = (if mc_create_message_index (mw_config m2)
                       then m2\<lparr>mw_message_indices := mw_message_indices m2 @ [\<lparr>mi_timestamp = timestamp, mi_offset = offset\<rparr>]\<rparr>
                       else m2)
             in if length (mw_chunk_buffer m3) \<ge> mc_chunk_size (mw_config m3) then mcap_flush_chunk io m3 else (Inr (), m3)
        else write_message_record io channel_id timestamp data m1)"

definition write_sample :: "write_oracle \<Rightarrow> layout \<Rightarrow> data_sample \<Rightarrow> unit mcap_op" where
  "write_sample io ly sample m =
     (case hm_get (mw_stream_to_channel m) (ds_stream_id sample) of
        None \<Rightarrow> (Inl (ChannelNotRegistered (''Stream '' @ ds_stream_id sample @ '' not registered'')), m)
      | Some channel_id \<Rightarrow> write_message io channel_id (ds_timestamp_ns sample) (to_bytes ly (ds_data sample)) m)"

definition flush_pending :: "write_oracle \<Rightarrow> unit mcap_op" where
  "flush_pending io m =
     (if mc_use_chunking (mw_config m) \<and> mw_chunk_buffer m \<noteq> [] then mcap_flush_chunk io m else (Inr (), m))"

definition add_attachment :: "write_oracle \<Rightarrow> string \<Rightarrow> string \<Rightarrow> u8 list \<Rightarrow> unit mcap_op" where
  "add_attachment io name media_type data m =
     (if mw_state m \<noteq> WWriting then (Inl not_writing, m)
      else mw_then (flush_pending io) (\<lambda>_.
           mw_then (write_attachment_record io name media_type data) (\<lambda>_ m1.
             (Inr (), m1\<lparr>mw_stats := (mw_stats m1)\<lparr>st_attachment_count := st_attachment_count (mw_stats m1) + 1\<rparr>\<rparr>))) m)"

definition mcap_add_metadata :: "write_oracle \<Rightarrow> string \<Rightarrow> (string, string) hmap \<Rightarrow> unit mcap_op" where
  "mcap_add_metadata io name metadata m =
     (if mw_state m \<noteq> WWriting then (Inl not_writing, m) else write_metadata_record io name metadata m)"

definition mcap_finish :: "write_oracle \<Rightarrow> mcap_statistics mcap_op" where
  "mcap_finish io m =
     (if mw_state m \<noteq> WWriting then (Inl not_writing, m)
      else mw_then (flush_pending io) (\<lambda>_.
           mw_then (write_data_end io) (\<lambda>_.
           mw_then (write_summary io) (\<lambda>_.
           mw_then (write_footer io) (\<lambda>_.
           mw_then (write_bytes io MCAP_MAGIC) (\<lambda>_ m1.
             (Inr (mw_stats m1), m1\<lparr>mw_state := WFinished\<rparr>)))))) m)"

section \<open>A reader of the format\<close>

text \<open>
  The specification: how a file is read. A record is an opcode, a length and its data; the data section
  and the summary end with the footer, which the magic bytes follow. Messages are records of their own
  or records inside a chunk.
\<close>

type_synonym raw_record = "u8 \<times> u8 list"

definition frame :: "raw_record \<Rightarrow> u8 list" where
  "frame r = (case r of (opc, d) \<Rightarrow> opc # le_bytes 8 (of_nat (length d) :: u64) @ d)"

definition read_record :: "u8 list \<Rightarrow> (raw_record \<times> u8 list) option" where
  "read_record bs =
     (if length bs < 9 then None
      else let n = of_le (take 8 (tl bs)) in
           if length bs < 9 + n then None else Some ((hd bs, take n (drop 9 bs)), drop (9 + n) bs))"

lemma read_record_shorter: "read_record bs = Some (r, rest) \<Longrightarrow> length rest < length bs"
  by (auto simp: read_record_def Let_def split: if_splits)

function read_records :: "u8 list \<Rightarrow> (raw_record list \<times> u8 list) option" where
  "read_records bs =
     (case read_record bs of
        None \<Rightarrow> None
      | Some (r, rest) \<Rightarrow>
          if fst r = opcode_byte OpFooter then Some ([r], rest)
          else map_option (\<lambda>(rs, left). (r # rs, left)) (read_records rest))"
  by pat_completeness auto
termination by (relation "measure length") (auto dest: read_record_shorter)

function read_inner :: "u8 list \<Rightarrow> raw_record list option" where
  "read_inner bs =
     (if bs = [] then Some []
      else case read_record bs of
             None \<Rightarrow> None
           | Some (r, rest) \<Rightarrow> map_option ((#) r) (read_inner rest))"
  by pat_completeness auto
termination by (relation "measure length") (auto dest: read_record_shorter)

declare read_records.simps [simp del] read_inner.simps [simp del]

record mcap_message =
  mg_channel :: u16
  mg_sequence :: u32
  mg_log_time :: u64
  mg_publish_time :: u64
  mg_data :: "u8 list"

definition decode_mcap_message :: "u8 list \<Rightarrow> mcap_message" where
  "decode_mcap_message d =
     \<lparr>mg_channel = of_nat (of_le (take 2 d)), mg_sequence = of_nat (of_le (take 4 (drop 2 d))),
      mg_log_time = of_nat (of_le (take 8 (drop 6 d))), mg_publish_time = of_nat (of_le (take 8 (drop 14 d))),
      mg_data = drop 22 d\<rparr>"

definition messages_of :: "raw_record \<Rightarrow> mcap_message list option" where
  "messages_of r = (case r of (opc, d) \<Rightarrow>
     if opc = opcode_byte OpMessage then Some [decode_mcap_message d]
     else if opc = opcode_byte OpChunk
     then if of_le (take 4 (drop 28 d)) = 0
          then map_option (\<lambda>rs. map (decode_mcap_message \<circ> snd) (filter (\<lambda>r. fst r = opcode_byte OpMessage) rs)) (read_inner (drop 40 d))
          else None
     else Some [])"

definition read_file :: "u8 list \<Rightarrow> raw_record list option" where
  "read_file bs =
     (if take 8 bs = MCAP_MAGIC
      then case read_records (drop 8 bs) of
             Some (rs, rest) \<Rightarrow> if rest = MCAP_MAGIC then Some rs else None
           | None \<Rightarrow> None
      else None)"

definition read_messages :: "u8 list \<Rightarrow> mcap_message list option" where
  "read_messages bs = Option.bind (read_file bs) (\<lambda>rs. map_option concat (those (map messages_of rs)))"

text \<open>Every message comes after a record that declares its channel.\<close>

fun channels_declared :: "nat list \<Rightarrow> raw_record list \<Rightarrow> bool" where
  "channels_declared seen [] = True"
| "channels_declared seen ((opc, d) # rs) =
     (if opc = opcode_byte OpChannel then channels_declared (of_le (take 2 d) # seen) rs
      else (case messages_of (opc, d) of
              Some ms \<Rightarrow> list_all (\<lambda>m. unat (mg_channel m) \<in> set seen) ms
            | None \<Rightarrow> False) \<and> channels_declared seen rs)"

section \<open>Reading back bytes, records and messages\<close>

lemma length_le_bytes [simp]: "length (le_bytes n w) = n"
  by (simp add: le_bytes_def)

lemma le_bytes_Suc: "le_bytes (Suc n) w = ucast w # le_bytes n (drop_bit 8 w)"
  unfolding le_bytes_def by (subst upt_conv_Cons) (simp_all add: map_Suc_upt [symmetric] drop_bit_drop_bit ac_simps del: upt_Suc)

lemma of_le_bytes: "of_le (le_bytes n w) = unat w mod 256 ^ n"
proof (induction n arbitrary: w)
  case 0
  then show ?case by (simp add: of_le_def le_bytes_def)
next
  case (Suc n)
  have b: "unat (ucast w :: u8) = unat w mod 256"
    by (simp add: unsigned_ucast_eq take_bit_eq_mod)
  have d: "unat (drop_bit 8 w) = unat w div 256"
    using unat_drop_bit_eq [of 8 w] drop_bit_eq_div [of 8 "unat w"] by simp
  have "of_le (le_bytes (Suc n) w) = unat w mod 256 + 256 * (unat w div 256 mod 256 ^ n)"
    using Suc [of "drop_bit 8 w"] by (simp add: le_bytes_Suc of_le_def b d)
  also have "\<dots> = unat w mod 256 ^ Suc n"
    by (simp add: mod_mult2_eq)
  finally show ?case .
qed

lemma of_le_u16 [simp]: "of_le (le_bytes 2 (w :: u16)) = unat w"
  using unsigned_less [of w, where 'a = nat] by (simp add: of_le_bytes)

lemma of_le_u32 [simp]: "of_le (le_bytes 4 (w :: u32)) = unat w"
  using unsigned_less [of w, where 'a = nat] by (simp add: of_le_bytes)

lemma of_le_u64 [simp]: "of_le (le_bytes 8 (w :: u64)) = unat w"
  using unsigned_less [of w, where 'a = nat] by (simp add: of_le_bytes)

lemma read_record_frame [simp]:
  "length d < 2 ^ 64 \<Longrightarrow> read_record (frame (opc, d) @ rest) = Some ((opc, d), rest)"
  by (simp add: read_record_def frame_def unat_of_nat Let_def drop_Cons')

lemma frame_ne [simp]: "frame r \<noteq> []"
  by (simp add: frame_def split: prod.split)

definition fits64 :: "raw_record \<Rightarrow> bool" where
  "fits64 r = (length (snd r) < 2 ^ 64)"

lemma read_records_frames:
  assumes "list_all (\<lambda>r. fst r \<noteq> opcode_byte OpFooter \<and> fits64 r) rs" "length f < 2 ^ 64"
  shows "read_records (concat (map frame rs) @ frame (opcode_byte OpFooter, f) @ rest) =
    Some (rs @ [(opcode_byte OpFooter, f)], rest)"
  using assms(1)
proof (induction rs)
  case Nil
  then show ?case using assms(2) by (subst read_records.simps) simp
next
  case (Cons r rs)
  obtain opc d where r: "r = (opc, d)" by fastforce
  show ?case using Cons by (subst read_records.simps) (simp add: r fits64_def)
qed

lemma read_inner_frames:
  "list_all fits64 rs \<Longrightarrow> read_inner (concat (map frame rs)) = Some rs"
proof (induction rs)
  case Nil
  then show ?case by (subst read_inner.simps) simp
next
  case (Cons r rs)
  obtain opc d where r: "r = (opc, d)" by fastforce
  show ?case using Cons by (subst read_inner.simps) (simp add: r fits64_def)
qed

text \<open>The bytes of a message, framed as a record.\<close>

definition encode_message :: "mcap_message \<Rightarrow> u8 list" where
  "encode_message g =
     le_bytes 2 (mg_channel g) @ le_bytes 4 (mg_sequence g) @ le_bytes 8 (mg_log_time g) @
     le_bytes 8 (mg_publish_time g) @ mg_data g"

definition message_record :: "mcap_message \<Rightarrow> raw_record" where
  "message_record g = (opcode_byte OpMessage, encode_message g)"

lemma decode_encode_message [simp]: "decode_mcap_message (encode_message g) = g"
  by (simp add: decode_mcap_message_def encode_message_def)

definition stamped :: "u64 \<Rightarrow> u16 \<Rightarrow> timestamp_ns \<Rightarrow> u8 list \<Rightarrow> mcap_message" where
  "stamped n channel_id timestamp data =
     \<lparr>mg_channel = channel_id, mg_sequence = ucast n, mg_log_time = timestamp, mg_publish_time = timestamp, mg_data = data\<rparr>"

lemma message_bytes_stamped: "message_bytes n c t d = encode_message (stamped n c t d)"
  by (simp add: message_bytes_def encode_message_def stamped_def)

text \<open>What the writer has put into its file: messages, chunks of messages, channels, other records.\<close>

datatype mcap_entry =
    MsgEntry mcap_message
  | ChunkEntry timestamp_ns timestamp_ns "mcap_message list"
  | ChannelEntry mcap_channel
  | PlainEntry opcode "u8 list"

abbreviation chunk_payload :: "mcap_message list \<Rightarrow> u8 list" where
  "chunk_payload gs \<equiv> concat (map (frame \<circ> message_record) gs)"

fun entry_record :: "mcap_entry \<Rightarrow> raw_record" where
  "entry_record (MsgEntry g) = message_record g"
| "entry_record (ChunkEntry a b gs) =
     (opcode_byte OpChunk, chunk_bytes a b (of_nat (length (chunk_payload gs))) '''' (chunk_payload gs))"
| "entry_record (ChannelEntry c) = (opcode_byte OpChannel, channel_bytes c)"
| "entry_record (PlainEntry opc d) = (opcode_byte opc, d)"

fun entry_messages :: "mcap_entry \<Rightarrow> mcap_message list" where
  "entry_messages (MsgEntry g) = [g]"
| "entry_messages (ChunkEntry a b gs) = gs"
| "entry_messages _ = []"

fun entry_channels :: "mcap_entry \<Rightarrow> u16 set" where
  "entry_channels (ChannelEntry c) = {ch_id c}"
| "entry_channels _ = {}"

fun plain_entry :: "mcap_entry \<Rightarrow> bool" where
  "plain_entry (PlainEntry opc d) \<longleftrightarrow> opc \<notin> {OpFooter, OpMessage, OpChunk, OpChannel}"
| "plain_entry _ = True"

fun entries_declared :: "u16 set \<Rightarrow> mcap_entry list \<Rightarrow> bool" where
  "entries_declared seen [] = True"
| "entries_declared seen (e # es) =
     (list_all (\<lambda>g. mg_channel g \<in> seen) (entry_messages e) \<and> entries_declared (seen \<union> entry_channels e) es)"

lemma entries_declared_append:
  "entries_declared seen (xs @ ys) \<longleftrightarrow>
    entries_declared seen xs \<and> entries_declared (seen \<union> \<Union> (entry_channels ` set xs)) ys"
  by (induction xs arbitrary: seen) (auto simp: Un_assoc)

lemma opcode_byte_inj [simp]: "opcode_byte a = opcode_byte b \<longleftrightarrow> a = b"
  by (cases a; cases b) simp_all

lemma opcode_bytes_distinct [simp]:
  "plain_entry (PlainEntry opc d) \<Longrightarrow> opcode_byte opc \<notin> {2, 4, 5, 6}"
  by (cases opc) simp_all

lemma entry_not_footer: "plain_entry e \<Longrightarrow> fst (entry_record e) \<noteq> opcode_byte OpFooter"
  by (cases e) (auto simp: message_record_def simp del: opcode_byte.simps)

lemma chunk_payload_at: "drop 40 (chunk_bytes a b n '''' d) = d"
  by (simp add: chunk_bytes_def prefixed_string_def utf8_bytes_def)

lemma chunk_no_compression: "of_le (take 4 (drop 28 (chunk_bytes a b n '''' d))) = 0"
  by (simp add: chunk_bytes_def prefixed_string_def utf8_bytes_def)

lemma chunk_length: "length (chunk_bytes a b n '''' d) = 40 + length d"
  by (simp add: chunk_bytes_def prefixed_string_def utf8_bytes_def)

lemma inner_length: "g \<in> set gs \<Longrightarrow> length (encode_message g) \<le> length (chunk_payload gs)"
  by (induction gs) (auto simp: frame_def message_record_def)

lemma messages_of_entry:
  assumes "plain_entry e" "fits64 (entry_record e)"
  shows "messages_of (entry_record e) = Some (entry_messages e)"
proof (cases e)
  case (ChunkEntry a b gs)
  have "list_all fits64 (map message_record gs)"
    using assms(2) inner_length [of _ gs] ChunkEntry
    by (fastforce simp: fits64_def list_all_iff chunk_length message_record_def)
  then have "read_inner (chunk_payload gs) = Some (map message_record gs)"
    using read_inner_frames [of "map message_record gs"] by simp
  then show ?thesis using ChunkEntry
    by (simp add: messages_of_def chunk_payload_at chunk_no_compression message_record_def comp_def filter_map)
next
  case (PlainEntry opc d)
  then show ?thesis using assms(1) by (auto simp: messages_of_def simp del: opcode_byte.simps)
qed (simp_all add: messages_of_def message_record_def)

lemma messages_of_entries:
  "list_all plain_entry es \<Longrightarrow> list_all (fits64 \<circ> entry_record) es \<Longrightarrow>
    those (map (messages_of \<circ> entry_record) es) = Some (map entry_messages es)"
  by (induction es) (simp_all add: messages_of_entry)

lemma those_snoc: "those xs = Some ys \<Longrightarrow> those (xs @ [Some y]) = Some (ys @ [y])"
  by (induction xs arbitrary: ys) (auto split: option.splits)

lemma channels_declared_entries:
  "list_all plain_entry es \<Longrightarrow> list_all (fits64 \<circ> entry_record) es \<Longrightarrow> entries_declared (of_nat ` set seen) es \<Longrightarrow>
    list_all (\<lambda>n. n < 65536) seen \<Longrightarrow> channels_declared seen (map entry_record es @ [(opcode_byte OpFooter, f)])"
proof (induction es arbitrary: seen)
  case Nil
  then show ?case by (simp add: messages_of_def)
next
  case (Cons e es)
  have seen: "unat g \<in> set seen" if "g \<in> of_nat ` set seen" for g :: u16
    using that Cons.prems(4) by (auto simp: list_all_iff unat_of_nat)
  show ?case
  proof (cases e)
    case (ChannelEntry c)
    have "of_le (take 2 (channel_bytes c)) = unat (ch_id c)" by (simp add: channel_bytes_def)
    moreover have "unat (ch_id c) < 65536" using unsigned_less [of "ch_id c", where 'a = nat] by simp
    ultimately show ?thesis using Cons.IH [of "unat (ch_id c) # seen"] Cons.prems ChannelEntry by simp
  next
    case (PlainEntry opc d)
    then show ?thesis using Cons messages_of_entry [of e] by (auto simp del: opcode_byte.simps)
  qed (use Cons messages_of_entry [of e] seen in \<open>auto simp: message_record_def list_all_iff\<close>)
qed

section \<open>What the operations write\<close>

text \<open>A writer such as \<open>Vec<u8>\<close>, whose \<open>write_all\<close> never fails.\<close>

definition no_fault :: write_oracle where
  "no_fault w d = None"

lemma mw_then_simps [simp]:
  "f m = (Inl e, m1) \<Longrightarrow> mw_then f g m = (Inl e, m1)"
  "f m = (Inr a, m1) \<Longrightarrow> mw_then f g m = g a m1"
  by (simp_all add: mw_then_def)

lemma write_bytes_ok [simp]:
  "write_bytes no_fault d m =
    (Inr (), m\<lparr>mw_writer := mw_writer m @ d, mw_bytes_written := mw_bytes_written m + of_nat (length d)\<rparr>)"
  by (simp add: write_bytes_def no_fault_def)

lemma write_record_ok [simp]:
  "write_record no_fault opc d m =
    (Inr (), m\<lparr>mw_writer := mw_writer m @ frame (opcode_byte opc, d),
               mw_bytes_written := mw_bytes_written m + of_nat (9 + length d)\<rparr>)"
  by (simp add: write_record_def frame_def)

definition declared_channels :: "mcap_entry list \<Rightarrow> u16 set" where
  "declared_channels es = \<Union> (entry_channels ` set es)"

lemma declared_channels_simps [simp]:
  "declared_channels [] = {}" "declared_channels (xs @ ys) = declared_channels xs \<union> declared_channels ys"
  "declared_channels (e # es) = entry_channels e \<union> declared_channels es"
  by (auto simp: declared_channels_def)

text \<open>\<open>es\<close> is what the file holds after its magic bytes, \<open>pend\<close> what waits in the chunk buffer.\<close>

definition written :: "mcap_writer \<Rightarrow> mcap_entry list \<Rightarrow> mcap_message list \<Rightarrow> bool" where
  "written m es pend \<longleftrightarrow>
     mw_writer m = MCAP_MAGIC @ concat (map (frame \<circ> entry_record) es) \<and>
     mw_chunk_buffer m = chunk_payload pend \<and> mw_state m = WWriting \<and>
     list_all plain_entry es \<and> entries_declared {} es \<and>
     mg_channel ` set pend \<subseteq> declared_channels es \<and>
     {k. hm_contains (mw_channels m) k} \<subseteq> declared_channels es \<and>
     (mc_use_chunking (mw_config m) \<or> pend = [])"

definition entry_log :: "mcap_entry list \<Rightarrow> mcap_message list" where
  "entry_log es = concat (map entry_messages es)"

lemma entry_log_simps [simp]:
  "entry_log [] = []" "entry_log (xs @ ys) = entry_log xs @ entry_log ys" "entry_log (e # es) = entry_messages e @ entry_log es"
  by (simp_all add: entry_log_def)

lemma written_declared:
  "written m es pend \<Longrightarrow> entries_declared {} (es @ [e]) \<longleftrightarrow> mg_channel ` set (entry_messages e) \<subseteq> declared_channels es"
  by (auto simp: written_def entries_declared_append declared_channels_def list_all_iff)

lemma written_append:
  assumes "written m es pend" "plain_entry e" "mg_channel ` set (entry_messages e) \<subseteq> declared_channels es"
    "mw_writer m' = mw_writer m @ frame (entry_record e)" "mw_chunk_buffer m' = chunk_payload pend'"
    "mw_state m' = WWriting" "mw_config m' = mw_config m" "set pend' \<subseteq> set pend"
    "\<And>k. hm_contains (mw_channels m') k \<Longrightarrow> hm_contains (mw_channels m) k \<or> k \<in> entry_channels e"
  shows "written m' (es @ [e]) pend'"
proof -
  have "entries_declared {} (es @ [e])" using written_declared [OF assms(1)] assms(3) by blast
  moreover have "mg_channel ` set pend' \<subseteq> declared_channels (es @ [e])"
    using assms(1,8) by (fastforce simp: written_def)
  moreover have "{k. hm_contains (mw_channels m') k} \<subseteq> declared_channels (es @ [e])"
    using assms(1,9) by (fastforce simp: written_def)
  moreover have "mc_use_chunking (mw_config m') \<or> pend' = []"
    using assms(1,7,8) by (auto simp: written_def)
  ultimately show ?thesis using assms(1,2,4,5,6) by (simp add: written_def)
qed

lemma written_same:
  "written m es pend \<Longrightarrow> mw_writer m' = mw_writer m \<Longrightarrow> mw_chunk_buffer m' = mw_chunk_buffer m \<Longrightarrow>
   mw_state m' = mw_state m \<Longrightarrow> mw_channels m' = mw_channels m \<Longrightarrow> mw_config m' = mw_config m \<Longrightarrow> written m' es pend"
  by (simp add: written_def)

lemma chunk_payload_Nil: "chunk_payload gs = [] \<longleftrightarrow> gs = []"
  by (cases gs) simp_all

lemma compress_chunk_id [simp]: "compress_chunk c b = (b, '''')"
  by (simp add: compress_chunk_def split: mcap_compression.split)

definition flush_times :: "mcap_writer \<Rightarrow> timestamp_ns \<times> timestamp_ns" where
  "flush_times m = (let is = mw_message_indices m in
     (index_time (if is = [] then None else Some (hd is)), index_time (if is = [] then None else Some (last is))))"

lemma mcap_flush_chunk_written:
  assumes "written m es pend" "pend \<noteq> []"
  shows "\<exists>m'. mcap_flush_chunk no_fault m = (Inr (), m') \<and>
    written m' (es @ [ChunkEntry (fst (flush_times m)) (snd (flush_times m)) pend]) [] \<and>
    st_message_count (mw_stats m') = st_message_count (mw_stats m) \<and> mw_config m' = mw_config m"
proof -
  have b: "mw_chunk_buffer m = chunk_payload pend" "mw_chunk_buffer m \<noteq> []"
    using assms by (simp_all add: written_def chunk_payload_Nil)
  have pc: "mg_channel ` set pend \<subseteq> declared_channels es" using assms(1) by (simp add: written_def)
  define m' where "m' = snd (mcap_flush_chunk no_fault m)"
  have ok: "mcap_flush_chunk no_fault m = (Inr (), m')"
    "mw_writer m' = mw_writer m @ frame (entry_record (ChunkEntry (fst (flush_times m)) (snd (flush_times m)) pend))"
    "mw_chunk_buffer m' = []" "mw_state m' = mw_state m" "mw_config m' = mw_config m" "mw_channels m' = mw_channels m"
    "st_message_count (mw_stats m') = st_message_count (mw_stats m)"
    using b unfolding m'_def by (simp_all add: mcap_flush_chunk_def flush_times_def Let_def)
  have "written m' (es @ [ChunkEntry (fst (flush_times m)) (snd (flush_times m)) pend]) []"
    using assms(1) ok pc by (intro written_append [OF assms(1)]) (auto simp: written_def)
  then show ?thesis using ok by blast
qed

text \<open>The messages accepted so far, numbered from one.\<close>

type_synonym sent = "u16 \<times> timestamp_ns \<times> u8 list"

definition number :: "sent list \<Rightarrow> mcap_message list" where
  "number ms = map (\<lambda>(i, c, t, d). stamped (of_nat (Suc i)) c t d) (enumerate 0 ms)"

lemma number_simps [simp]:
  "number [] = []"
  "number (ms @ [(c, t, d)]) = number ms @ [stamped (of_nat (Suc (length ms))) c t d]"
  by (simp_all add: number_def enumerate_append_eq)

definition mcap_logged :: "mcap_writer \<Rightarrow> sent list \<Rightarrow> bool" where
  "mcap_logged m ms \<longleftrightarrow> st_message_count (mw_stats m) = of_nat (length ms) \<and>
     (\<exists>es pend. written m es pend \<and> entry_log es @ pend = number ms)"

lemma logged_plain:
  assumes "mcap_logged m ms" "plain_entry e" "entry_messages e = []"
    "mw_writer m' = mw_writer m @ frame (entry_record e)" "mw_chunk_buffer m' = mw_chunk_buffer m"
    "mw_state m' = mw_state m" "mw_config m' = mw_config m"
    "\<And>k. hm_contains (mw_channels m') k \<Longrightarrow> hm_contains (mw_channels m) k \<or> k \<in> entry_channels e"
    "st_message_count (mw_stats m') = st_message_count (mw_stats m)"
  shows "mcap_logged m' ms"
proof -
  obtain es pend where w: "written m es pend" "entry_log es @ pend = number ms" using assms(1) by (auto simp: mcap_logged_def)
  have "written m' (es @ [e]) pend"
    using assms w(1) by (intro written_append [OF w(1)]) (auto simp: written_def)
  then show ?thesis using w(2) assms(1,3,9) unfolding mcap_logged_def by fastforce
qed

lemma logged_same:
  assumes "mcap_logged m ms" "mw_writer m' = mw_writer m" "mw_chunk_buffer m' = mw_chunk_buffer m"
    "mw_state m' = mw_state m" "mw_channels m' = mw_channels m" "mw_config m' = mw_config m"
    "st_message_count (mw_stats m') = st_message_count (mw_stats m)"
  shows "mcap_logged m' ms"
  using assms written_same [of m _ _ m'] unfolding mcap_logged_def by metis

lemma logged_flush:
  assumes "mcap_logged m ms"
  shows "\<exists>m'. flush_pending no_fault m = (Inr (), m') \<and> mcap_logged m' ms \<and> mw_config m' = mw_config m \<and> mw_chunk_buffer m' = []"
proof -
  obtain es pend where w: "written m es pend" "entry_log es @ pend = number ms" using assms by (auto simp: mcap_logged_def)
  have b: "mw_chunk_buffer m = chunk_payload pend" "mc_use_chunking (mw_config m) \<or> pend = []"
    using w(1) by (simp_all add: written_def)
  show ?thesis
  proof (cases "pend = []")
    case True
    then show ?thesis using assms b by (simp add: flush_pending_def)
  next
    case False
    obtain m' where m': "mcap_flush_chunk no_fault m = (Inr (), m')"
      "written m' (es @ [ChunkEntry (fst (flush_times m)) (snd (flush_times m)) pend]) []"
      "st_message_count (mw_stats m') = st_message_count (mw_stats m)" "mw_config m' = mw_config m"
      using mcap_flush_chunk_written [OF w(1) False] by blast
    have "mcap_logged m' ms" using m' w(2) assms unfolding mcap_logged_def by fastforce
    moreover have "flush_pending no_fault m = (Inr (), m')" "mw_chunk_buffer m' = []"
      using m' b False by (auto simp: flush_pending_def chunk_payload_Nil written_def)
    ultimately show ?thesis using m'(4) by blast
  qed
qed

lemma logged_state: "mcap_logged m ms \<Longrightarrow> mw_state m = WWriting"
  by (auto simp: mcap_logged_def written_def)

lemma logged_register_schema: "mcap_logged m ms \<Longrightarrow> mcap_logged (snd (register_schema no_fault s m)) ms"
  using logged_state [of m ms]
  by (auto simp: register_schema_def write_schema_def mw_return_def Let_def
      intro: logged_plain [where e = "PlainEntry OpSchema (schema_bytes s)" and m = m])

lemma hm_contains_insert: "hm_contains (hm_insert k v h) k' \<longleftrightarrow> k' = k \<or> hm_contains h k'"
  by (simp add: hm_contains_def)

lemma logged_register_channel: "mcap_logged m ms \<Longrightarrow> mcap_logged (snd (register_channel no_fault c m)) ms"
  using logged_state [of m ms]
  by (auto simp: register_channel_def write_channel_def mw_return_def Let_def hm_contains_insert
      intro: logged_plain [where e = "ChannelEntry c" and m = m])

lemma logged_add_schema: "mcap_logged m ms \<Longrightarrow> mcap_logged (snd (add_schema no_fault n e d m)) ms"
  unfolding add_schema_def Let_def by (rule logged_register_schema, rule logged_same) simp_all

lemma logged_add_channel: "mcap_logged m ms \<Longrightarrow> mcap_logged (snd (add_channel no_fault i t e m)) ms"
  unfolding add_channel_def Let_def by (rule logged_register_channel, rule logged_same) simp_all

lemma logged_register_stream: "mcap_logged m ms \<Longrightarrow> mcap_logged (snd (mcap_register_stream st c m)) ms"
  by (auto simp: mcap_register_stream_def intro: logged_same)

lemma logged_add_metadata: "mcap_logged m ms \<Longrightarrow> mcap_logged (snd (mcap_add_metadata no_fault n md m)) ms"
  by (auto simp: mcap_add_metadata_def write_metadata_record_def
      intro: logged_plain [where e = "PlainEntry OpMetadata (prefixed_string n @ prefixed_map md)" and m = m])

lemma logged_add_attachment:
  assumes "mcap_logged m ms"
  shows "mcap_logged (snd (add_attachment no_fault n mt d m)) ms"
proof -
  obtain m1 where m1: "flush_pending no_fault m = (Inr (), m1)" "mcap_logged m1 ms" using logged_flush [OF assms] by blast
  then show ?thesis
    by (auto simp: add_attachment_def write_attachment_record_def
        intro: logged_plain [OF m1(2), where e = "PlainEntry OpAttachment (attachment_bytes n mt d)"] assms)
qed

lemma written_buffered:
  assumes "written m es pend" "hm_contains (mw_channels m) (mg_channel g)" "mc_use_chunking (mw_config m)"
    "mw_writer m' = mw_writer m" "mw_chunk_buffer m' = mw_chunk_buffer m @ frame (message_record g)"
    "mw_state m' = mw_state m" "mw_channels m' = mw_channels m" "mw_config m' = mw_config m"
  shows "written m' es (pend @ [g])"
  using assms by (auto simp: written_def)

lemma logged_write_message:
  assumes "mcap_logged m ms" "hm_contains (mw_channels m) c"
  shows "\<exists>m'. write_message no_fault c t d m = (Inr (), m') \<and> mcap_logged m' (ms @ [(c, t, d)])"
proof -
  obtain es pend where w: "written m es pend" "entry_log es @ pend = number ms"
    and n: "st_message_count (mw_stats m) = of_nat (length ms)"
    using assms(1) by (auto simp: mcap_logged_def)
  define g where "g = stamped (of_nat (Suc (length ms))) c t d"
  have g: "stamped (st_message_count (mw_stats m) + 1) c t d = g" "mg_channel g = c"
    by (simp_all add: g_def n stamped_def add.commute)
  define m1 where "m1 = m\<lparr>mw_stats := count_message c t (mw_stats m)\<rparr>"
  have m1: "mw_channels m1 = mw_channels m" "mw_config m1 = mw_config m" "mw_chunk_buffer m1 = mw_chunk_buffer m"
    "mw_writer m1 = mw_writer m" "mw_state m1 = mw_state m"
    "st_message_count (mw_stats m1) = of_nat (length (ms @ [(c, t, d)]))"
    by (simp_all add: m1_def count_message_def Let_def n add.commute)
  have st: "mw_state m = WWriting" using logged_state [OF assms(1)] .
  show ?thesis
  proof (cases "mc_use_chunking (mw_config m)")
    case False
    have p: "pend = []" using w(1) False by (simp add: written_def)
    define m2 where "m2 = snd (write_message_record no_fault c t d m1)"
    have m2: "write_message no_fault c t d m = (Inr (), m2)" "mw_writer m2 = mw_writer m @ frame (message_record g)"
      "mw_chunk_buffer m2 = mw_chunk_buffer m" "mw_state m2 = WWriting" "mw_config m2 = mw_config m" "mw_channels m2 = mw_channels m"
      "st_message_count (mw_stats m2) = of_nat (length (ms @ [(c, t, d)]))"
      using st assms(2) False m1 g unfolding m2_def
      by (simp_all add: write_message_def write_message_record_def m1_def message_bytes_stamped message_record_def
          count_message_def Let_def)
    have "written m2 (es @ [MsgEntry g]) []"
      using m2 w(1) p assms(2) g(2) by (intro written_append [OF w(1)]) (auto simp: written_def)
    then have "mcap_logged m2 (ms @ [(c, t, d)])" using w(2) p m2(7) g_def unfolding mcap_logged_def by fastforce
    then show ?thesis using m2(1) by blast
  next
    case True
    define m3 where "m3 = (let off = of_nat (length (mw_chunk_buffer m1)); m2 = write_message_to_buffer c t d m1 in
      if mc_create_message_index (mw_config m2)
      then m2\<lparr>mw_message_indices := mw_message_indices m2 @ [\<lparr>mi_timestamp = t, mi_offset = off\<rparr>]\<rparr> else m2)"
    have m3: "mw_writer m3 = mw_writer m" "mw_chunk_buffer m3 = mw_chunk_buffer m @ frame (message_record g)"
      "mw_state m3 = mw_state m" "mw_config m3 = mw_config m" "mw_channels m3 = mw_channels m"
      "st_message_count (mw_stats m3) = of_nat (length (ms @ [(c, t, d)]))"
      using m1 g by (simp_all add: m3_def write_message_to_buffer_def message_bytes_stamped frame_def message_record_def
          m1_def count_message_def Let_def)
    have "written m3 es (pend @ [g])" using written_buffered [OF w(1) _ True] m3 assms(2) g(2) by simp
    then have l: "mcap_logged m3 (ms @ [(c, t, d)])" using w(2) m3(6) g_def unfolding mcap_logged_def by fastforce
    have r: "write_message no_fault c t d m =
        (if length (mw_chunk_buffer m3) \<ge> mc_chunk_size (mw_config m3) then mcap_flush_chunk no_fault m3 else (Inr (), m3))"
      using st assms(2) True unfolding write_message_def by (simp add: m3_def m1_def Let_def)
    obtain m4 where m4: "flush_pending no_fault m3 = (Inr (), m4)" "mcap_logged m4 (ms @ [(c, t, d)])"
      using logged_flush [OF l] by blast
    have "mw_chunk_buffer m3 \<noteq> []" by (simp add: m3(2))
    then have "mcap_flush_chunk no_fault m3 = (Inr (), m4)" using True m3(4) m4(1) by (simp add: flush_pending_def)
    then show ?thesis using r l m4(2) by simp
  qed
qed

section \<open>Sessions of a writer\<close>

datatype mcap_call =
    RegisterSchema mcap_schema
  | AddSchema string string "u8 list"
  | RegisterChannel mcap_channel
  | AddChannel u16 string string
  | RegisterStream stream_id u16
  | WriteMessage u16 timestamp_ns "u8 list"
  | WriteSample data_sample
  | AddAttachment string string "u8 list"
  | AddMetadata string "(string, string) hmap"

definition forget_result :: "(mcap_error + 'a) \<times> mcap_writer \<Rightarrow> (mcap_error + unit) \<times> mcap_writer" where
  "forget_result r = (case r of (Inl e, m) \<Rightarrow> (Inl e, m) | (Inr _, m) \<Rightarrow> (Inr (), m))"

fun run_call :: "layout \<Rightarrow> mcap_call \<Rightarrow> unit mcap_op" where
  "run_call ly (RegisterSchema s) m = forget_result (register_schema no_fault s m)"
| "run_call ly (AddSchema n e d) m = forget_result (add_schema no_fault n e d m)"
| "run_call ly (RegisterChannel c) m = forget_result (register_channel no_fault c m)"
| "run_call ly (AddChannel i t e) m = forget_result (add_channel no_fault i t e m)"
| "run_call ly (RegisterStream st c) m = mcap_register_stream st c m"
| "run_call ly (WriteMessage c t d) m = write_message no_fault c t d m"
| "run_call ly (WriteSample s) m = write_sample no_fault ly s m"
| "run_call ly (AddAttachment n mt d) m = add_attachment no_fault n mt d m"
| "run_call ly (AddMetadata n md) m = mcap_add_metadata no_fault n md m"

fun call_messages :: "layout \<Rightarrow> mcap_writer \<Rightarrow> mcap_call \<Rightarrow> sent list" where
  "call_messages ly m (WriteMessage c t d) = [(c, t, d)]"
| "call_messages ly m (WriteSample s) =
     (case hm_get (mw_stream_to_channel m) (ds_stream_id s) of
        Some c \<Rightarrow> [(c, ds_timestamp_ns s, to_bytes ly (ds_data s))] | None \<Rightarrow> [])"
| "call_messages ly m _ = []"

text \<open>A list of calls, with the messages of those that succeeded.\<close>

primrec run_calls :: "layout \<Rightarrow> mcap_call list \<Rightarrow> mcap_writer \<Rightarrow> sent list \<times> mcap_writer" where
  "run_calls ly [] m = ([], m)"
| "run_calls ly (c # cs) m =
     (case run_call ly c m of (r, m1) \<Rightarrow>
      case run_calls ly cs m1 of (ms, m2) \<Rightarrow>
        ((if isl r then [] else call_messages ly m c) @ ms, m2))"

lemma snd_forget_result [simp]: "snd (forget_result r) = snd r"
  by (cases r) (auto simp: forget_result_def split: sum.split)

lemma write_message_refused:
  "\<not> hm_contains (mw_channels m) c \<Longrightarrow> isl (fst (write_message no_fault c t d m)) \<and> snd (write_message no_fault c t d m) = m"
  by (simp add: write_message_def)

lemma logged_call_message:
  assumes "mcap_logged m ms" "write_message no_fault c t d m = (r, m')"
  shows "mcap_logged m' (ms @ (if isl r then [] else [(c, t, d)]))"
  using assms logged_write_message [of m ms c t d] write_message_refused [of m c t d]
  by (cases "hm_contains (mw_channels m) c") auto

lemma logged_call:
  assumes "mcap_logged m ms"
  shows "mcap_logged (snd (run_call ly c m)) (ms @ (if isl (fst (run_call ly c m)) then [] else call_messages ly m c))"
proof (cases c)
  case (WriteMessage i t d)
  then show ?thesis using logged_call_message [OF assms, of i t d]
    by (cases "write_message no_fault i t d m") (auto split: if_splits)
next
  case (WriteSample s)
  show ?thesis
  proof (cases "hm_get (mw_stream_to_channel m) (ds_stream_id s)")
    case (Some i)
    then show ?thesis using logged_call_message [OF assms, of i "ds_timestamp_ns s" "to_bytes ly (ds_data s)"] WriteSample
      by (cases "write_message no_fault i (ds_timestamp_ns s) (to_bytes ly (ds_data s)) m")
        (auto simp: write_sample_def split: if_splits)
  qed (use WriteSample assms in \<open>simp add: write_sample_def\<close>)
qed (use assms in \<open>simp_all add: logged_register_schema logged_register_channel logged_add_schema logged_add_channel
    logged_register_stream logged_add_metadata logged_add_attachment\<close>)

lemma logged_calls: "mcap_logged m ms \<Longrightarrow> mcap_logged (snd (run_calls ly cs m)) (ms @ fst (run_calls ly cs m))"
proof (induction cs arbitrary: m ms)
  case (Cons c cs)
  from Cons.IH [OF logged_call [OF Cons.prems, of ly c]]
  show ?case by (simp add: case_prod_unfold)
qed simp

lemma logged_start: "mcap_logged (snd (mcap_start no_fault (McapWriter_new cfg))) []"
proof -
  let ?e = "PlainEntry OpHeader (prefixed_string (mc_profile cfg) @ prefixed_string (mc_library cfg))"
  have "written (snd (mcap_start no_fault (McapWriter_new cfg))) [?e] []"
    by (simp add: written_def mcap_start_def McapWriter_new_def mcap_write_header_def hm_contains_def)
  moreover have "st_message_count (mw_stats (snd (mcap_start no_fault (McapWriter_new cfg)))) = 0"
    by (simp add: mcap_start_def McapWriter_new_def mcap_write_header_def McapStatistics_default_def)
  ultimately show ?thesis unfolding mcap_logged_def by fastforce
qed

abbreviation index_entries :: "chunk_index_entry list \<Rightarrow> mcap_entry list" where
  "index_entries is \<equiv> map (\<lambda>i. PlainEntry OpChunkIndex (chunk_index_bytes i)) is"

lemma write_chunk_indices_ok:
  "\<exists>m'. write_chunk_indices no_fault is m = (Inr (), m') \<and>
     mw_writer m' = mw_writer m @ concat (map (frame \<circ> entry_record) (index_entries is)) \<and>
     mw_stats m' = mw_stats m"
proof (induction "is" arbitrary: m)
  case (Cons i "is")
  obtain m1 where "write_chunk_index no_fault i m = (Inr (), m1)" "mw_stats m1 = mw_stats m"
    "mw_writer m1 = mw_writer m @ frame (opcode_byte OpChunkIndex, chunk_index_bytes i)"
    by (simp add: write_chunk_index_def)
  then show ?case using Cons.IH [of m1] by auto
qed (simp add: mw_return_def)

abbreviation footer_record :: raw_record where
  "footer_record \<equiv> (opcode_byte OpFooter, le_bytes 8 (0 :: u64) @ le_bytes 8 (0 :: u64) @ le_bytes 4 (0 :: u32))"

text \<open>\<open>finish\<close> closes the file: the data and the summary, a footer, the magic bytes.\<close>

lemma finish_file:
  assumes "mcap_logged m ms"
  shows "\<exists>st m' es. mcap_finish no_fault m = (Inr st, m') \<and> mw_state m' = WFinished \<and>
    mw_writer m' = MCAP_MAGIC @ concat (map (frame \<circ> entry_record) es) @ frame footer_record @ MCAP_MAGIC \<and>
    list_all plain_entry es \<and> entries_declared {} es \<and> entry_log es = number ms \<and>
    st_message_count st = of_nat (length ms)"
proof -
  obtain m1 where m1: "flush_pending no_fault m = (Inr (), m1)" "mcap_logged m1 ms" "mw_chunk_buffer m1 = []"
    using logged_flush [OF assms] by blast
  then obtain es where es: "written m1 es []" "entry_log es = number ms"
    and n: "st_message_count (mw_stats m1) = of_nat (length ms)"
    by (auto simp: mcap_logged_def written_def chunk_payload_Nil simp del: concat_eq_Nil_conv)
  define m2 where "m2 = snd (write_data_end no_fault m1)"
  define m3 where "m3 = snd (write_statistics no_fault m2)"
  obtain m4 where m4: "write_chunk_indices no_fault (mw_chunk_indices m3) m3 = (Inr (), m4)"
    "mw_writer m4 = mw_writer m3 @ concat (map (frame \<circ> entry_record) (index_entries (mw_chunk_indices m3)))"
    "mw_stats m4 = mw_stats m3"
    using write_chunk_indices_ok by blast
  let ?tail = "[PlainEntry OpDataEnd (le_bytes 4 (0 :: u32)), PlainEntry OpStatistics (statistics_bytes m2)] @
    index_entries (mw_chunk_indices m3)"
  have m23: "write_data_end no_fault m1 = (Inr (), m2)" "write_statistics no_fault m2 = (Inr (), m3)"
    "mw_writer m3 = mw_writer m1 @ concat (map (frame \<circ> entry_record)
       [PlainEntry OpDataEnd (le_bytes 4 (0 :: u32)), PlainEntry OpStatistics (statistics_bytes m2)])"
    "mw_stats m3 = mw_stats m1"
    by (simp_all add: m2_def m3_def write_data_end_def write_statistics_def)
  then have w4: "mw_writer m4 = MCAP_MAGIC @ concat (map (frame \<circ> entry_record) (es @ ?tail))"
    using m4 es(1) by (simp add: written_def)
  have f: "mcap_finish no_fault m = (Inr (mw_stats m4), snd (mcap_finish no_fault m))"
    "mw_writer (snd (mcap_finish no_fault m)) = mw_writer m4 @ frame footer_record @ MCAP_MAGIC"
    "mw_state (snd (mcap_finish no_fault m)) = WFinished"
    using logged_state [OF assms] m1(1) m23(1,2) m4(1)
    by (simp_all add: mcap_finish_def write_summary_def write_footer_def)
  have idx: "entry_log (index_entries is) = []" "list_all plain_entry (index_entries is)"
    "entries_declared seen (index_entries is)" for "is" seen
    by (induction "is") simp_all
  have "list_all plain_entry (es @ ?tail)" "entry_log (es @ ?tail) = number ms" "entries_declared {} (es @ ?tail)"
    using es idx by (simp_all add: written_def entries_declared_append)
  then show ?thesis using f w4 n m4(3) m23(4) by (metis append.assoc)
qed

lemma concat_length_mem: "x \<in> set xs \<Longrightarrow> length (f x) \<le> length (concat (map f xs))"
  by (induction xs) auto

lemma read_written_file:
  assumes "list_all plain_entry es" "length (concat (map (frame \<circ> entry_record) es)) < 2 ^ 64"
  shows "read_file (MCAP_MAGIC @ concat (map (frame \<circ> entry_record) es) @ frame footer_record @ MCAP_MAGIC) =
      Some (map entry_record es @ [footer_record])"
    and "list_all (fits64 \<circ> entry_record) es"
proof -
  have "length (snd (entry_record e)) < 2 ^ 64" if "e \<in> set es" for e
    using concat_length_mem [OF that, of "frame \<circ> entry_record"] assms(2)
    by (auto simp: frame_def split: prod.splits)
  then show f: "list_all (fits64 \<circ> entry_record) es" by (simp add: list_all_iff fits64_def)
  have "list_all (\<lambda>r. fst r \<noteq> opcode_byte OpFooter \<and> fits64 r) (map entry_record es)"
    using f assms(1) by (auto simp: list_all_iff entry_not_footer simp del: opcode_byte.simps)
  from read_records_frames [OF this, of "snd footer_record" MCAP_MAGIC]
  have "read_records (concat (map (frame \<circ> entry_record) es) @ frame footer_record @ MCAP_MAGIC) =
      Some (map entry_record es @ [footer_record], MCAP_MAGIC)"
    by (simp add: comp_def)
  then show "read_file (MCAP_MAGIC @ concat (map (frame \<circ> entry_record) es) @ frame footer_record @ MCAP_MAGIC) =
      Some (map entry_record es @ [footer_record])"
    by (simp add: read_file_def MCAP_MAGIC_def)
qed

lemma finished_file:
  assumes "mcap_logged m ms" "mcap_finish no_fault m = (r, m')" "length (mw_writer m') < 2 ^ 64"
  shows "\<exists>st es. r = Inr st \<and> st_message_count st = of_nat (length ms) \<and>
    read_file (mw_writer m') = Some (map entry_record es @ [footer_record]) \<and>
    list_all plain_entry es \<and> list_all (fits64 \<circ> entry_record) es \<and> entries_declared {} es \<and> entry_log es = number ms"
proof -
  from finish_file [OF assms(1)] obtain st es where fin: "r = Inr st" "st_message_count st = of_nat (length ms)"
    "mw_writer m' = MCAP_MAGIC @ concat (map (frame \<circ> entry_record) es) @ frame footer_record @ MCAP_MAGIC"
    "list_all plain_entry es" "entries_declared {} es" "entry_log es = number ms"
    using assms(2) by auto
  have "length (concat (map (frame \<circ> entry_record) es)) < 2 ^ 64" using assms(3) fin(3) by simp
  from read_written_file [OF fin(4) this] show ?thesis using fin by auto
qed

lemma finished_reads:
  assumes "mcap_logged m ms" "mcap_finish no_fault m = (r, m')" "length (mw_writer m') < 2 ^ 64"
  shows "read_messages (mw_writer m') = Some (number ms) \<and>
    (\<exists>st. r = Inr st \<and> st_message_count st = of_nat (length ms))"
proof -
  obtain st es where s: "r = Inr st" "st_message_count st = of_nat (length ms)"
    "read_file (mw_writer m') = Some (map entry_record es @ [footer_record])"
    "list_all plain_entry es" "list_all (fits64 \<circ> entry_record) es" "entry_log es = number ms"
    using finished_file [OF assms] by blast
  have "messages_of footer_record = Some []" by (simp add: messages_of_def)
  then have "those (map messages_of (map entry_record es @ [footer_record])) = Some (map entry_messages es @ [[]])"
    using those_snoc [OF messages_of_entries [OF s(4,5)], of "[]"] by simp
  then show ?thesis using s by (simp add: read_messages_def entry_log_def)
qed

lemma logged_session:
  "run_calls ly cs (snd (mcap_start no_fault (McapWriter_new cfg))) = (ms, m) \<Longrightarrow> mcap_logged m ms"
  using logged_calls [OF logged_start, of ly cs cfg] by simp

definition example_session :: "mcap_call list" where
  "example_session =
     [AddSchema ''pose'' ''jsonschema'' [123, 125], AddChannel 1 ''/pose'' ''json'', WriteMessage 1 50 [7, 8],
      WriteMessage 9 60 [9], AddMetadata ''episode_info'' [(''k'', ''v'')], WriteMessage 1 40 [10]]"

definition example_layout :: layout where
  "example_layout = \<lparr>ly_sample_size = 0, ly_command_size = 0, ly_to_json = (\<lambda>_. [])\<rparr>"

definition example_writer :: mcap_writer where
  "example_writer = snd (run_calls example_layout example_session
     (snd (mcap_start no_fault (McapWriter_new McapWriterConfig_default))))"

lemmas mcap_session_defs = mcap_start_def McapWriter_new_def McapWriterConfig_default_def McapStatistics_default_def
  mcap_write_header_def add_schema_def register_schema_def write_schema_def add_channel_def register_channel_def
  write_channel_def Channel_new_def write_message_def write_message_to_buffer_def count_message_def
  write_message_record_def mcap_add_metadata_def write_metadata_record_def mcap_finish_def flush_pending_def
  mcap_flush_chunk_def write_data_end_def write_summary_def write_statistics_def write_chunk_index_def write_footer_def
  mw_return_def forget_result_def channel_missing_def hm_contains_def Let_def

lemma frame_length: "length (frame (opc, d)) = 9 + length d"
  by (simp add: frame_def)

lemma prefixed_string_length: "length (prefixed_string s) = 4 + length s"
  by (simp add: prefixed_string_def utf8_bytes_def)

lemma prefixed_map_length: "length (prefixed_map md) = 4 + (\<Sum>(k, v)\<leftarrow>md. 8 + length k + length v)"
  unfolding prefixed_map_def by (induction md) (auto simp: prefixed_string_length)

lemma message_bytes_length: "length (message_bytes n c t d) = 22 + length d"
  by (simp add: message_bytes_def)

lemma schema_bytes_length: "length (schema_bytes s) = 14 + length (sc_name s) + length (sc_encoding s) + length (sc_data s)"
  by (simp add: schema_bytes_def prefixed_string_length)

lemma channel_bytes_length:
  "length (channel_bytes c) = 12 + length (ch_topic c) + length (ch_message_encoding c) + length (prefixed_map (ch_metadata c))"
  by (simp add: channel_bytes_def prefixed_string_length)

lemma chunk_bytes_length: "length (chunk_bytes a b n z d) = 40 + length z + length d"
  by (simp add: chunk_bytes_def prefixed_string_length)

lemma statistics_bytes_length: "length (statistics_bytes m) = 46 + 10 * hm_len (st_channel_message_counts (mw_stats m))"
proof -
  have "length (concat (map (\<lambda>(i :: u16, n :: u64). le_bytes 2 i @ le_bytes 8 n) xs)) = 10 * length xs" for xs
    by (induction xs) auto
  then show ?thesis by (simp add: statistics_bytes_def Let_def hm_len_def)
qed

lemma chunk_index_bytes_length: "length (chunk_index_bytes i) = 64 + length (ci_compression i)"
  by (simp add: chunk_index_bytes_def prefixed_string_length)

lemmas mcap_lengths = frame_length prefixed_string_length prefixed_map_length message_bytes_length schema_bytes_length
  channel_bytes_length chunk_bytes_length statistics_bytes_length chunk_index_bytes_length

lemma example_session_messages:
  "fst (run_calls example_layout example_session (snd (mcap_start no_fault (McapWriter_new McapWriterConfig_default)))) =
     [(1, 50, [7, 8]), (1, 40, [10])]"
  by (simp add: example_session_def mcap_session_defs)

lemma example_session_run:
  "run_calls example_layout example_session (snd (mcap_start no_fault (McapWriter_new McapWriterConfig_default))) =
     ([(1, 50, [7, 8]), (1, 40, [10])], example_writer)"
  by (simp add: prod_eq_iff example_session_messages example_writer_def)

lemma example_file_small: "length (mw_writer (snd (mcap_finish no_fault example_writer))) < 2 ^ 64"
  by (simp add: example_writer_def example_session_def mcap_session_defs mcap_lengths MCAP_MAGIC_def hm_len_insert hm_len_def [of "[]"])

text \<open>
  C26. A file written in one session reads back, if no write fails and the file is shorter than \<open>2 ^ 64\<close> bytes: whatever schemas, channels, messages, attachments and
  metadata a client writes between \<open>start\<close> and \<open>finish\<close>, in whatever order, with chunking or without,
  \<open>finish\<close> succeeds, and a reader of the file finds exactly the accepted messages, in the order they
  were written and numbered from one, with their channel, time and data.
\<close>

theorem mcap_roundtrip:
  assumes "run_calls ly cs (snd (mcap_start no_fault (McapWriter_new cfg))) = (ms, m)"
    "mcap_finish no_fault m = (r, m')" "length (mw_writer m') < 2 ^ 64"
  shows "read_messages (mw_writer m') = Some (number ms) \<and>
    (\<exists>st. r = Inr st \<and> st_message_count st = of_nat (length ms))"
  by (rule finished_reads [OF logged_session [OF assms(1)] assms(2,3)])

theorem mcap_roundtrip_witness:
  "read_messages (mw_writer (snd (mcap_finish no_fault example_writer))) =
     Some [\<lparr>mg_channel = 1, mg_sequence = 1, mg_log_time = 50, mg_publish_time = 50, mg_data = [7, 8]\<rparr>,
           \<lparr>mg_channel = 1, mg_sequence = 2, mg_log_time = 40, mg_publish_time = 40, mg_data = [10]\<rparr>]"
proof -
  have "read_messages (mw_writer (snd (mcap_finish no_fault example_writer))) = Some (number [(1, 50, [7, 8]), (1, 40, [10])])"
    using mcap_roundtrip [OF example_session_run prod.collapse [symmetric] example_file_small] by blast
  then show ?thesis by (simp add: number_def stamped_def enumerate_simps)
qed

text \<open>
  In such a file every message comes after a record that declares its channel.
\<close>

theorem mcap_channels_declared:
  assumes "run_calls ly cs (snd (mcap_start no_fault (McapWriter_new cfg))) = (ms, m)"
    "mcap_finish no_fault m = (r, m')" "length (mw_writer m') < 2 ^ 64"
  shows "case read_file (mw_writer m') of Some rs \<Rightarrow> channels_declared [] rs | None \<Rightarrow> False"
proof -
  obtain es where s: "read_file (mw_writer m') = Some (map entry_record es @ [footer_record])"
    "list_all plain_entry es" "list_all (fits64 \<circ> entry_record) es" "entries_declared {} es"
    using finished_file [OF logged_session [OF assms(1)] assms(2,3)] by blast
  then show ?thesis using channels_declared_entries [OF s(2,3), of "[]"] by simp
qed

theorem mcap_channels_declared_witness:
  "case read_file (mw_writer (snd (mcap_finish no_fault example_writer))) of
     Some rs \<Rightarrow> channels_declared [] rs | None \<Rightarrow> False"
  using mcap_channels_declared [OF example_session_run prod.collapse [symmetric] example_file_small] .

text \<open>
  C0. A schema or channel registered before \<open>start\<close> never reaches the file, although messages on the
  channel are accepted: the session below succeeds and its file holds a message whose channel no record
  declares.
\<close>

definition early_session :: mcap_writer where
  "early_session =
     (let m0 = McapWriter_new (McapWriterConfig_default\<lparr>mc_use_chunking := False\<rparr>);
          m1 = snd (add_schema no_fault ''pose'' ''jsonschema'' [] m0);
          m2 = snd (add_channel no_fault 1 ''/pose'' ''json'' m1);
          m3 = snd (mcap_start no_fault m2);
          m4 = snd (write_message no_fault 1 50 [7] m3)
      in snd (mcap_finish no_fault m4))"

definition early_entries :: "u8 list \<Rightarrow> u8 list \<Rightarrow> mcap_entry list" where
  "early_entries header statistics =
     [PlainEntry OpHeader header, MsgEntry (stamped 1 1 50 [7]), PlainEntry OpDataEnd (le_bytes 4 (0 :: u32)),
      PlainEntry OpStatistics statistics]"

lemma early_session_file:
  "\<exists>header statistics. length header < 100 \<and> length statistics < 100 \<and> mw_state early_session = WFinished \<and>
     mw_writer early_session = MCAP_MAGIC @ concat (map (frame \<circ> entry_record) (early_entries header statistics)) @
       frame footer_record @ MCAP_MAGIC"
proof (intro exI conjI)
  show "mw_writer early_session = MCAP_MAGIC @ concat (map (frame \<circ> entry_record) (early_entries
      (prefixed_string ''ros2'' @ prefixed_string ''omniedge-robotics'') (statistics_bytes early_session))) @
      frame footer_record @ MCAP_MAGIC"
    by (simp add: early_session_def early_entries_def mcap_session_defs message_bytes_stamped message_record_def
        statistics_bytes_def)
qed (simp_all add: early_session_def mcap_session_defs mcap_lengths MCAP_MAGIC_def hm_len_insert hm_len_def [of "[]"])

theorem early_channel_is_lost:
  "mw_state early_session = WFinished \<and>
   map_option (map fst) (read_file (mw_writer early_session)) = Some [1, 5, 15, 11, 2] \<and>
   \<not> (case read_file (mw_writer early_session) of Some rs \<Rightarrow> channels_declared [] rs | None \<Rightarrow> False)"
proof -
  obtain header statistics where f: "length header < 100" "length statistics < 100" "mw_state early_session = WFinished"
    "mw_writer early_session = MCAP_MAGIC @ concat (map (frame \<circ> entry_record) (early_entries header statistics)) @
       frame footer_record @ MCAP_MAGIC"
    using early_session_file by blast
  have "list_all plain_entry (early_entries header statistics)"
    "length (concat (map (frame \<circ> entry_record) (early_entries header statistics))) < 2 ^ 64"
    using f by (simp_all add: early_entries_def frame_length message_record_def encode_message_def stamped_def)
  from read_written_file(1) [OF this] f(3,4) show ?thesis
    by (simp add: early_entries_def message_record_def messages_of_def)
qed

text \<open>
  \<open>add_schema\<close> numbers schemas without looking at those a client registered: on a fresh writer it
  hands out identifier 1 again after a client registered a schema of that identifier, and the client's
  schema is replaced.
\<close>

theorem add_schema_reuses_id:
  "let m = snd (register_schema no_fault (Schema_json 1 own json) (McapWriter_new cfg));
       (r, m') = add_schema no_fault name encoding data m
   in map_option sc_name (hm_get (mw_schemas m) 1) = Some own \<and> r = Inr 1 \<and>
      map_option sc_name (hm_get (mw_schemas m') 1) = Some name"
  by (simp add: register_schema_def add_schema_def McapWriter_new_def Schema_json_def Let_def)

end
