(* ===== verification/Privacy.thy ===== *)
theory Privacy
  imports Samples
begin

text \<open>
  The privacy filters of the data collection plugin (\<open>robotics/data_collection/privacy.rs\<close>): detected
  regions, the pixelation of an image, the removal and hashing of metadata fields, and the manager that
  runs the filters. The hash of a value and the time a filter takes are arguments. \<open>u32\<close> arithmetic
  wraps, as in a release build.
\<close>

section \<open>Configuration\<close>

record privacy_config =
  pv_blur_faces :: bool
  pv_blur_license_plates :: bool
  pv_blur_persons :: bool
  pv_pii_fields_to_remove :: "string list"
  pv_pii_fields_to_hash :: "string list"
  pv_blur_strength :: f32
  pv_min_detection_confidence :: f32
  pv_target_streams :: "stream_id list"
  pv_log_detections :: bool

definition PrivacyConfig_default :: privacy_config where
  "PrivacyConfig_default =
     \<lparr>pv_blur_faces = True, pv_blur_license_plates = False, pv_blur_persons = False,
      pv_pii_fields_to_remove = [''operator_name'', ''operator_email'', ''location_address''],
      pv_pii_fields_to_hash = [''operator_id''], pv_blur_strength = 0.8, pv_min_detection_confidence = 0.5,
      pv_target_streams = [], pv_log_detections = False\<rparr>"

definition minimal_privacy :: privacy_config where
  "minimal_privacy =
     \<lparr>pv_blur_faces = True, pv_blur_license_plates = False, pv_blur_persons = False,
      pv_pii_fields_to_remove = [], pv_pii_fields_to_hash = [], pv_blur_strength = 0.8,
      pv_min_detection_confidence = 0.5, pv_target_streams = [], pv_log_detections = False\<rparr>"

definition strict_privacy :: privacy_config where
  "strict_privacy =
     \<lparr>pv_blur_faces = True, pv_blur_license_plates = True, pv_blur_persons = True,
      pv_pii_fields_to_remove = [''operator_name'', ''operator_email'', ''operator_phone'', ''location_address'',
        ''location_gps'', ''wifi_ssid'', ''bluetooth_devices''],
      pv_pii_fields_to_hash = [''operator_id'', ''device_id''], pv_blur_strength = 1,
      pv_min_detection_confidence = 0.3, pv_target_streams = [], pv_log_detections = True\<rparr>"

definition privacy_with_stream :: "stream_id \<Rightarrow> privacy_config \<Rightarrow> privacy_config" where
  "privacy_with_stream stream_id c = c\<lparr>pv_target_streams := pv_target_streams c @ [stream_id]\<rparr>"

datatype privacy_error =
  FilterNotFound string | ProcessingFailed string | PrivacyInvalidConfig string | UnsupportedDataType string

datatype detection_type = FaceDetection | LicensePlate | PersonDetection | TextDetection | CustomDetection

fun detection_name :: "detection_type \<Rightarrow> string" where
  "detection_name FaceDetection = ''Face''"
| "detection_name LicensePlate = ''LicensePlate''"
| "detection_name PersonDetection = ''Person''"
| "detection_name TextDetection = ''Text''"
| "detection_name CustomDetection = ''Custom''"

record detected_region =
  dr_detection_type :: detection_type
  dr_bbox :: "f32 \<times> f32 \<times> f32 \<times> f32"
  dr_confidence :: f32
  dr_landmarks :: "(f32 \<times> f32) list option"

definition DetectedRegion_new :: "detection_type \<Rightarrow> f32 \<Rightarrow> f32 \<Rightarrow> f32 \<Rightarrow> f32 \<Rightarrow> f32 \<Rightarrow> detected_region" where
  "DetectedRegion_new detection_type x y width height confidence =
     \<lparr>dr_detection_type = detection_type, dr_bbox = (x, y, width, height), dr_confidence = confidence, dr_landmarks = None\<rparr>"

definition with_landmarks :: "(f32 \<times> f32) list \<Rightarrow> detected_region \<Rightarrow> detected_region" where
  "with_landmarks landmarks r = r\<lparr>dr_landmarks := Some landmarks\<rparr>"

text \<open>\<open>as u32\<close> of a float: it saturates and drops the fraction.\<close>

definition float_as_u32 :: "f32 \<Rightarrow> u32" where
  "float_as_u32 x = (if x \<le> 0 then 0 else if x \<ge> 2 ^ 32 then - 1 else of_int \<lfloor>x\<rfloor>)"

definition pixel_bbox :: "detected_region \<Rightarrow> u32 \<Rightarrow> u32 \<Rightarrow> u32 \<times> u32 \<times> u32 \<times> u32" where
  "pixel_bbox r width height = (case dr_bbox r of (x, y, w, h) \<Rightarrow>
     (float_as_u32 (x * real (unat width)), float_as_u32 (y * real (unat height)),
      float_as_u32 (w * real (unat width)), float_as_u32 (h * real (unat height))))"

section \<open>Pixelation\<close>

definition urange :: "u32 \<Rightarrow> u32 \<Rightarrow> u32 list" where
  "urange a b = map of_nat [unat a..<unat b]"

definition urange_step :: "u32 \<Rightarrow> u32 \<Rightarrow> u32 \<Rightarrow> u32 list" where
  "urange_step a b k = map of_nat (filter (\<lambda>i. (i - unat a) mod unat k = 0) [unat a..<unat b])"

definition pixel_index :: "u32 \<Rightarrow> u32 \<Rightarrow> u32 \<Rightarrow> nat" where
  "pixel_index img_width py px = unat ((py * img_width + px) * 3)"

text \<open>The indices of the pixels of the block at \<open>(bx, by)\<close> that lie in the data.\<close>

definition block_cells :: "nat \<Rightarrow> u32 \<Rightarrow> u32 \<Rightarrow> u32 \<Rightarrow> u32 \<Rightarrow> u32 \<Rightarrow> u32 \<Rightarrow> u32 \<Rightarrow> u32 \<times> u32 \<Rightarrow> nat list" where
  "block_cells len img_width img_height x y width height block_size b = (case b of (bx, bY) \<Rightarrow>
     filter (\<lambda>i. i + 2 < len)
       (concat (map (\<lambda>py. map (\<lambda>px. pixel_index img_width py px)
                        (urange bx (min (min (bx + block_size) (x + width)) img_width)))
                  (urange bY (min (min (bY + block_size) (y + height)) img_height)))))"

definition channel_sum :: "u8 list \<Rightarrow> nat list \<Rightarrow> nat \<Rightarrow> u32" where
  "channel_sum data cells k = sum_list (map (\<lambda>i. ucast (data ! (i + k))) cells)"

definition average_colour :: "u8 list \<Rightarrow> nat list \<Rightarrow> u8 \<times> u8 \<times> u8" where
  "average_colour data cells =
     (let n = of_nat (length cells) :: u32 in
      (ucast (channel_sum data cells 0 div n), ucast (channel_sum data cells 1 div n), ucast (channel_sum data cells 2 div n)))"

definition set_pixel :: "u8 \<times> u8 \<times> u8 \<Rightarrow> nat \<Rightarrow> u8 list \<Rightarrow> u8 list" where
  "set_pixel rgb i data = (case rgb of (r, g, b) \<Rightarrow> data[i := r, i + 1 := g, i + 2 := b])"

definition blur_cells :: "nat list \<Rightarrow> u8 list \<Rightarrow> u8 list" where
  "blur_cells cells data =
     (if (of_nat (length cells) :: u32) > 0 then fold (set_pixel (average_colour data cells)) cells data else data)"

definition blur_region :: "u8 list \<Rightarrow> u32 \<Rightarrow> u32 \<Rightarrow> u32 \<Rightarrow> u32 \<Rightarrow> u32 \<Rightarrow> u32 \<Rightarrow> f32 \<Rightarrow> u8 list" where
  "blur_region data img_width img_height x y width height strength =
     (let block_size = max (float_as_u32 (strength * 20)) 4;
          blocks = concat (map (\<lambda>bY. map (\<lambda>bx. (bx, bY)) (urange_step x (x + width) block_size))
                             (urange_step y (y + height) block_size))
      in fold (\<lambda>b d. blur_cells (block_cells (length d) img_width img_height x y width height block_size b) d) blocks data)"

definition apply_blur :: "u8 list \<Rightarrow> u32 \<Rightarrow> u32 \<Rightarrow> detected_region list \<Rightarrow> f32 \<Rightarrow> u8 list" where
  "apply_blur data width height regions strength =
     fold (\<lambda>region d. case pixel_bbox region width height of
             (rx, ry, rw, rh) \<Rightarrow> blur_region d width height rx ry rw rh strength) regions data"

section \<open>Filters\<close>

record privacy_result =
  pz_data :: "u8 list"
  pz_detections :: "detected_region list"
  pz_processing_time_ns :: u64
  pz_modified :: bool

datatype privacy_filter = FaceBlurFilter "stream_id list" | PiiFilter

fun filter_name :: "privacy_filter \<Rightarrow> string" where
  "filter_name (FaceBlurFilter _) = ''face_blur''"
| "filter_name PiiFilter = ''pii_filter''"

definition FaceBlurFilter_new :: privacy_filter where
  "FaceBlurFilter_new = FaceBlurFilter []"

fun filter_with_stream :: "stream_id \<Rightarrow> privacy_filter \<Rightarrow> privacy_filter" where
  "filter_with_stream stream_id (FaceBlurFilter target_streams) = FaceBlurFilter (List.insert stream_id target_streams)"
| "filter_with_stream stream_id PiiFilter = PiiFilter"

fun applies_to :: "stream_id \<Rightarrow> privacy_filter \<Rightarrow> bool" where
  "applies_to stream_id (FaceBlurFilter target_streams) \<longleftrightarrow> target_streams = [] \<or> stream_id \<in> set target_streams"
| "applies_to stream_id PiiFilter = True"

text \<open>No detection model is part of the code: no face is ever found.\<close>

definition detect_faces :: "u8 list \<Rightarrow> u32 \<Rightarrow> u32 \<Rightarrow> f32 \<Rightarrow> detected_region list" where
  "detect_faces data width height min_confidence = []"

definition unmodified :: "u8 list \<Rightarrow> u64 \<Rightarrow> privacy_result" where
  "unmodified data ns = \<lparr>pz_data = data, pz_detections = [], pz_processing_time_ns = ns, pz_modified = False\<rparr>"

fun filter_image :: "(privacy_filter \<Rightarrow> u64) \<Rightarrow> u8 list \<Rightarrow> u32 \<Rightarrow> u32 \<Rightarrow> privacy_config \<Rightarrow> privacy_filter \<Rightarrow> privacy_error + privacy_result" where
  "filter_image timer data width height c (FaceBlurFilter ts) =
     (if \<not> pv_blur_faces c then Inr (unmodified data (timer (FaceBlurFilter ts)))
      else
        let detections = detect_faces data width height (pv_min_detection_confidence c) in
        if detections = [] then Inr (unmodified data (timer (FaceBlurFilter ts)))
        else Inr \<lparr>pz_data = apply_blur data width height detections (pv_blur_strength c), pz_detections = detections,
                  pz_processing_time_ns = timer (FaceBlurFilter ts), pz_modified = True\<rparr>)"
| "filter_image timer data width height c PiiFilter = Inr (unmodified data 0)"

definition remove_fields :: "string list \<Rightarrow> (string, string) hmap \<Rightarrow> (string, string) hmap" where
  "remove_fields names md = fold hm_remove names md"

definition hash_field :: "(string \<Rightarrow> string) \<Rightarrow> string \<Rightarrow> (string, string) hmap \<Rightarrow> (string, string) hmap" where
  "hash_field hash_value field md =
     (case hm_get md field of Some v \<Rightarrow> hm_insert field (hash_value v) md | None \<Rightarrow> md)"

fun filter_metadata :: "(string \<Rightarrow> string) \<Rightarrow> privacy_config \<Rightarrow> privacy_filter \<Rightarrow> (string, string) hmap \<Rightarrow> (string, string) hmap" where
  "filter_metadata hash_value c (FaceBlurFilter ts) md = md"
| "filter_metadata hash_value c PiiFilter md =
     fold (hash_field hash_value) (pv_pii_fields_to_hash c) (remove_fields (pv_pii_fields_to_remove c) md)"

section \<open>The manager\<close>

record privacy_stats =
  ps_images_processed :: u64
  ps_images_with_detections :: u64
  ps_detections_by_type :: "(string, u64) hmap"
  ps_total_processing_time_ns :: u64
  ps_fields_removed :: u64
  ps_fields_hashed :: u64

definition PrivacyStats_default :: privacy_stats where
  "PrivacyStats_default =
     \<lparr>ps_images_processed = 0, ps_images_with_detections = 0, ps_detections_by_type = [],
      ps_total_processing_time_ns = 0, ps_fields_removed = 0, ps_fields_hashed = 0\<rparr>"

record privacy_manager =
  pm_filters :: "privacy_filter list"
  pm_config :: privacy_config
  pm_stats :: privacy_stats

definition PrivacyManager_new :: "privacy_config \<Rightarrow> privacy_manager" where
  "PrivacyManager_new c = \<lparr>pm_filters = [], pm_config = c, pm_stats = PrivacyStats_default\<rparr>"

definition add_filter :: "privacy_filter \<Rightarrow> privacy_manager \<Rightarrow> privacy_manager" where
  "add_filter f m = m\<lparr>pm_filters := pm_filters m @ [f]\<rparr>"

definition with_default_filters :: "privacy_config \<Rightarrow> privacy_manager" where
  "with_default_filters c = add_filter PiiFilter (add_filter FaceBlurFilter_new (PrivacyManager_new c))"

definition set_privacy_config :: "privacy_config \<Rightarrow> privacy_manager \<Rightarrow> privacy_manager" where
  "set_privacy_config c m = m\<lparr>pm_config := c\<rparr>"

text \<open>The loop over the filters, from the data, detections, time and flag collected so far.\<close>

fun image_loop ::
  "(privacy_filter \<Rightarrow> u64) \<Rightarrow> stream_id \<Rightarrow> u32 \<Rightarrow> u32 \<Rightarrow> privacy_config \<Rightarrow> privacy_filter list \<Rightarrow> privacy_result \<Rightarrow>
     privacy_error + privacy_result" where
  "image_loop timer stream_id width height c [] acc = Inr acc"
| "image_loop timer stream_id width height c (f # fs) acc =
     (if applies_to stream_id f
      then and_then (filter_image timer (pz_data acc) width height c f) (\<lambda>result.
             image_loop timer stream_id width height c fs
               \<lparr>pz_data = (if pz_modified result then pz_data result else pz_data acc),
                pz_detections = pz_detections acc @ pz_detections result,
                pz_processing_time_ns = pz_processing_time_ns acc + pz_processing_time_ns result,
                pz_modified = pz_modified acc \<or> pz_modified result\<rparr>)
      else image_loop timer stream_id width height c fs acc)"

definition count_detection :: "detected_region \<Rightarrow> (string, u64) hmap \<Rightarrow> (string, u64) hmap" where
  "count_detection d h =
     (let t = detection_name (dr_detection_type d) in
      hm_insert t ((case hm_get h t of Some n \<Rightarrow> n | None \<Rightarrow> 0) + 1) h)"

definition pm_process_image ::
  "(privacy_filter \<Rightarrow> u64) \<Rightarrow> stream_id \<Rightarrow> u8 list \<Rightarrow> u32 \<Rightarrow> u32 \<Rightarrow> privacy_manager \<Rightarrow>
     (privacy_error + privacy_result) \<times> privacy_manager" where
  "pm_process_image timer stream_id data width height m =
     (case image_loop timer stream_id width height (pm_config m) (pm_filters m) (unmodified data 0) of
        Inl e \<Rightarrow> (Inl e, m)
      | Inr r \<Rightarrow>
          let s = pm_stats m;
              s1 = s\<lparr>ps_images_processed := ps_images_processed s + 1\<rparr>;
              s2 = (if pz_detections r = [] then s1
                    else s1\<lparr>ps_images_with_detections := ps_images_with_detections s1 + 1,
                            ps_detections_by_type := fold count_detection (pz_detections r) (ps_detections_by_type s1)\<rparr>)
          in (Inr r, m\<lparr>pm_stats := s2\<lparr>ps_total_processing_time_ns := ps_total_processing_time_ns s2 + pz_processing_time_ns r\<rparr>\<rparr>))"

definition pm_process_metadata ::
  "(string \<Rightarrow> string) \<Rightarrow> (string, string) hmap \<Rightarrow> privacy_manager \<Rightarrow> (string, string) hmap \<times> privacy_manager" where
  "pm_process_metadata hash_value md m =
     (let md' = fold (\<lambda>f md. filter_metadata hash_value (pm_config m) f md) (pm_filters m) md;
          removed = hm_len md - hm_len md';
          s = pm_stats m
      in (md', m\<lparr>pm_stats := s\<lparr>ps_fields_removed := ps_fields_removed s + of_nat removed,
                              ps_fields_hashed := ps_fields_hashed s + of_nat (length (pv_pii_fields_to_hash (pm_config m)))\<rparr>\<rparr>))"

definition reset_privacy_stats :: "privacy_manager \<Rightarrow> privacy_manager" where
  "reset_privacy_stats m = m\<lparr>pm_stats := PrivacyStats_default\<rparr>"

section \<open>Painting cells\<close>

definition pixel :: "u8 list \<Rightarrow> nat \<Rightarrow> u8 \<times> u8 \<times> u8" where
  "pixel d i = (d ! i, d ! (i + 1), d ! (i + 2))"

definition cell_bytes :: "nat list \<Rightarrow> nat set" where
  "cell_bytes cells = (\<Union>i \<in> set cells. {i, i + 1, i + 2})"

lemma length_set_pixel [simp]: "length (set_pixel c i d) = length d"
  by (simp add: set_pixel_def split: prod.split)

lemma set_pixel_other: "j \<notin> {i, i + 1, i + 2} \<Longrightarrow> set_pixel c i d ! j = d ! j"
  by (simp add: set_pixel_def split: prod.split)

lemma set_pixel_same: "i + 2 < length d \<Longrightarrow> pixel (set_pixel c i d) i = c"
  by (simp add: set_pixel_def pixel_def split: prod.split)

lemma length_fold_set_pixel [simp]: "length (fold (set_pixel c) cells d) = length d"
  by (induction cells arbitrary: d) simp_all

lemma fold_set_pixel_other: "j \<notin> cell_bytes cells \<Longrightarrow> fold (set_pixel c) cells d ! j = d ! j"
  by (induction cells arbitrary: d) (auto simp: cell_bytes_def set_pixel_other)

text \<open>Cells are aligned: pixels start at multiples of three, inside the data.\<close>

definition aligned :: "nat \<Rightarrow> nat list \<Rightarrow> bool" where
  "aligned len cells \<longleftrightarrow> list_all (\<lambda>i. 3 dvd i \<and> i + 2 < len) cells"

lemma aligned_overlap: "3 dvd (i :: nat) \<Longrightarrow> 3 dvd j \<Longrightarrow> {i, i + 1, i + 2} \<inter> {j, j + 1, j + 2} \<noteq> {} \<Longrightarrow> i = j"
  by (auto simp: dvd_def; presburger)

lemma fold_set_pixel_in:
  assumes "aligned (length d) cells" "i \<in> set cells"
  shows "pixel (fold (set_pixel c) cells d) i = c"
  using assms
proof (induction cells rule: rev_induct)
  case (snoc j cells)
  show ?case
  proof (cases "i = j")
    case True
    then show ?thesis using snoc.prems by (simp add: set_pixel_same aligned_def)
  next
    case False
    then have "i \<in> set cells" "{i, i + 1, i + 2} \<inter> {j, j + 1, j + 2} = {}"
      using snoc.prems aligned_overlap [of i j] by (auto simp: aligned_def list_all_iff)
    then show ?thesis using snoc by (simp add: pixel_def set_pixel_other aligned_def)
  qed
qed simp

lemma length_blur_cells [simp]: "length (blur_cells cells d) = length d"
  by (simp add: blur_cells_def)

lemma blur_cells_other: "j \<notin> cell_bytes cells \<Longrightarrow> blur_cells cells d ! j = d ! j"
  by (simp add: blur_cells_def fold_set_pixel_other)

lemma blur_cells_in:
  assumes "aligned (length d) cells" "i \<in> set cells" "length cells < 2 ^ 32"
  shows "pixel (blur_cells cells d) i = average_colour d cells"
proof -
  have "0 < length cells" using assms(2) by (auto intro: length_pos_if_in_set)
  then have "(of_nat (length cells) :: u32) > 0"
    using assms(3) by (simp add: word_less_nat_alt unat_of_nat)
  then show ?thesis using fold_set_pixel_in [OF assms(1,2)] by (simp add: blur_cells_def)
qed

lemma length_fold_blur [simp]: "length (fold blur_cells css d) = length d"
  by (induction css arbitrary: d) simp_all

lemma fold_blur_other: "list_all (\<lambda>cells. j \<notin> cell_bytes cells) css \<Longrightarrow> fold blur_cells css d ! j = d ! j"
  by (induction css arbitrary: d) (simp_all add: blur_cells_other)

lemma average_colour_cong:
  assumes "\<And>i. i \<in> cell_bytes cells \<Longrightarrow> d ! i = e ! i"
  shows "average_colour d cells = average_colour e cells"
proof -
  have "channel_sum d cells k = channel_sum e cells k" if "k < 3" for k
    unfolding channel_sum_def
  proof (intro arg_cong [where f = sum_list] map_cong refl, goal_cases)
    case (1 i)
    have "k = 0 \<or> k = 1 \<or> k = 2" using that by auto
    then have "i + k \<in> cell_bytes cells" using 1 by (auto simp: cell_bytes_def)
    then show ?case using assms by simp
  qed
  then show ?thesis by (simp add: average_colour_def)
qed

lemma fold_blur_in:
  assumes "list_all (\<lambda>cells. aligned (length d) cells \<and> length cells < 2 ^ 32) css"
    "sorted_wrt (\<lambda>a b. cell_bytes a \<inter> cell_bytes b = {}) css"
    "cells \<in> set css" "i \<in> set cells"
  shows "pixel (fold blur_cells css d) i = average_colour d cells"
  using assms
proof (induction css arbitrary: d)
  case (Cons cs css)
  have disj: "cell_bytes cs \<inter> cell_bytes b = {}" if "b \<in> set css" for b
    using Cons.prems(2) that by simp
  show ?case
  proof (cases "cells = cs")
    case True
    have later: "fold blur_cells css (blur_cells cs d) ! j = blur_cells cs d ! j" if "j \<in> cell_bytes cs" for j
      using disj that by (intro fold_blur_other) (auto simp: list_all_iff)
    have "i \<in> cell_bytes cs" "i + 1 \<in> cell_bytes cs" "i + 2 \<in> cell_bytes cs"
      using Cons.prems(4) True by (auto simp: cell_bytes_def)
    then have "pixel (fold blur_cells (cs # css) d) i = pixel (blur_cells cs d) i"
      using later by (simp add: pixel_def)
    then show ?thesis using blur_cells_in [of d cs i] Cons.prems True by simp
  next
    case False
    have "average_colour (blur_cells cs d) cells = average_colour d cells"
      using disj [of cells] Cons.prems(3) False by (intro average_colour_cong blur_cells_other) auto
    then show ?thesis using Cons.IH [of "blur_cells cs d"] Cons.prems False by simp
  qed
qed simp

section \<open>The geometry of blocks\<close>

lemma unat_of_nat_less [simp]: "i < unat (b :: u32) \<Longrightarrow> unat (of_nat i :: u32) = i"
  using unsigned_less [of b, where 'a = nat] by (simp add: unat_of_nat)

lemma unat_word_min: "unat (min a b :: u32) = min (unat a) (unat b)"
  by (simp add: min_def word_le_nat_alt)

lemma set_urange: "u \<in> set (urange a b) \<longleftrightarrow> unat a \<le> unat u \<and> unat u < unat b"
  unfolding urange_def by (force simp: image_iff)

lemma set_urange_step:
  "u \<in> set (urange_step a b k) \<longleftrightarrow> unat a \<le> unat u \<and> unat u < unat b \<and> (unat u - unat a) mod unat k = 0"
  unfolding urange_step_def by (force simp: image_iff)

lemma distinct_urange_step: "distinct (urange_step a b k)"
  unfolding urange_step_def by (auto simp: distinct_map inj_on_def dest: arg_cong [where f = unat])

definition blocks_of :: "u32 \<Rightarrow> u32 \<Rightarrow> u32 \<Rightarrow> u32 \<Rightarrow> u32 \<Rightarrow> (u32 \<times> u32) list" where
  "blocks_of x y width height k =
     concat (map (\<lambda>bY. map (\<lambda>bx. (bx, bY)) (urange_step x (x + width) k)) (urange_step y (y + height) k))"

lemma set_blocks_of:
  "b \<in> set (blocks_of x y width height k) \<longleftrightarrow>
    fst b \<in> set (urange_step x (x + width) k) \<and> snd b \<in> set (urange_step y (y + height) k)"
  by (cases b) (auto simp: blocks_of_def)

lemma distinct_blocks_of: "distinct (blocks_of x y width height k)"
proof -
  have "blocks_of x y width height k =
      map (\<lambda>(bY, bx). (bx, bY)) (List.product (urange_step y (y + height) k) (urange_step x (x + width) k))"
    by (simp add: blocks_of_def product_concat_map map_concat comp_def)
  then show ?thesis by (auto simp: distinct_map distinct_product distinct_urange_step inj_on_def)
qed

definition block_size_of :: "f32 \<Rightarrow> u32" where
  "block_size_of strength = max (float_as_u32 (strength * 20)) 4"

lemma blur_region_fold:
  "blur_region d w h x y width height strength =
    fold blur_cells (map (block_cells (length d) w h x y width height (block_size_of strength))
      (blocks_of x y width height (block_size_of strength))) d"
proof -
  have "fold (\<lambda>b d. blur_cells (F (length d) b) d) bs d = fold blur_cells (map (F (length d)) bs) d"
    for F :: "nat \<Rightarrow> u32 \<times> u32 \<Rightarrow> nat list" and bs and d :: "u8 list"
    by (induction bs arbitrary: d) simp_all
  then show ?thesis by (simp add: blur_region_def Let_def block_size_of_def blocks_of_def)
qed

lemma set_block_cells:
  "i \<in> set (block_cells len w h x y width height k (bx, bY)) \<longleftrightarrow> i + 2 < len \<and>
    (\<exists>py px. unat bY \<le> unat py \<and> unat py < unat (bY + k) \<and> unat py < unat (y + height) \<and> unat py < unat h \<and>
       unat bx \<le> unat px \<and> unat px < unat (bx + k) \<and> unat px < unat (x + width) \<and> unat px < unat w \<and>
       i = pixel_index w py px)"
proof -
  have "i \<in> set (block_cells len w h x y width height k (bx, bY)) \<longleftrightarrow> i + 2 < len \<and>
    (\<exists>py px. py \<in> set (urange bY (min (min (bY + k) (y + height)) h)) \<and>
       px \<in> set (urange bx (min (min (bx + k) (x + width)) w)) \<and> i = pixel_index w py px)"
    by (auto simp: block_cells_def)
  then show ?thesis by (simp only: set_urange unat_word_min min_less_iff_conj conj_assoc)
qed

text \<open>The bytes of the pixels of a region that lie in the image.\<close>

definition region_bytes :: "u32 \<Rightarrow> u32 \<Rightarrow> u32 \<Rightarrow> u32 \<Rightarrow> u32 \<Rightarrow> u32 \<Rightarrow> nat set" where
  "region_bytes img_width img_height x y width height =
     {j. \<exists>py px. y \<le> py \<and> py < y + height \<and> py < img_height \<and> x \<le> px \<and> px < x + width \<and> px < img_width \<and>
        j \<in> {pixel_index img_width py px, pixel_index img_width py px + 1, pixel_index img_width py px + 2}}"

lemma cells_in_region:
  assumes "b \<in> set (blocks_of x y width height k)"
  shows "cell_bytes (block_cells len w h x y width height k b) \<subseteq> region_bytes w h x y width height"
proof
  fix j assume "j \<in> cell_bytes (block_cells len w h x y width height k b)"
  then obtain i where i: "i \<in> set (block_cells len w h x y width height k b)" "j \<in> {i, i + 1, i + 2}"
    by (auto simp: cell_bytes_def)
  obtain bx bY where b: "b = (bx, bY)" by fastforce
  obtain py px where p: "unat bY \<le> unat py" "unat py < unat (y + height)" "unat py < unat h"
    "unat bx \<le> unat px" "unat px < unat (x + width)" "unat px < unat w" "i = pixel_index w py px"
    using i(1) by (auto simp: b set_block_cells)
  have "unat x \<le> unat bx" "unat y \<le> unat bY" using assms by (simp_all add: b set_blocks_of set_urange_step)
  then show "j \<in> region_bytes w h x y width height"
    using p i(2) unfolding region_bytes_def word_le_nat_alt word_less_nat_alt by (intro CollectI exI [of _ py] exI [of _ px]) auto
qed

lemma blur_region_confined_core:
  "length (blur_region d w h x y width height strength) = length d \<and>
    (j \<notin> region_bytes w h x y width height \<longrightarrow> blur_region d w h x y width height strength ! j = d ! j)"
proof (intro conjI impI)
  assume "j \<notin> region_bytes w h x y width height"
  then show "blur_region d w h x y width height strength ! j = d ! j"
    unfolding blur_region_fold using cells_in_region
    by (intro fold_blur_other) (fastforce simp: list_all_iff)
qed (simp add: blur_region_fold)

text \<open>
  Pixelation keeps the size of an image and changes no byte outside the pixels of the region that
  lie in the image, whatever the region, the image size and the strength.
\<close>

theorem blur_region_confined:
  "length (blur_region d w h x y width height strength) = length d \<and>
    (j \<notin> region_bytes w h x y width height \<longrightarrow> blur_region d w h x y width height strength ! j = d ! j)"
  by (rule blur_region_confined_core)

text \<open>The block of a pixel, for blocks of side \<open>k\<close> from the corner of the region.\<close>

definition block_at :: "u32 \<Rightarrow> u32 \<Rightarrow> u32 \<Rightarrow> u32 \<Rightarrow> u32 \<Rightarrow> u32 \<times> u32" where
  "block_at x y k px py =
     (of_nat (unat x + (unat px - unat x) div unat k * unat k), of_nat (unat y + (unat py - unat y) div unat k * unat k))"

lemma block_size_bounds:
  assumes "strength \<le> 1"
  shows "4 \<le> unat (block_size_of strength)" "unat (block_size_of strength) \<le> 20"
proof -
  have "unat (float_as_u32 (strength * 20)) \<le> 20"
  proof (cases "strength * 20 \<le> 0")
    case False
    have f: "0 \<le> \<lfloor>strength * 20\<rfloor>" "\<lfloor>strength * 20\<rfloor> \<le> 20" using False assms by (simp_all add: floor_le_iff)
    have "nat \<lfloor>strength * 20\<rfloor> \<le> nat 20" using f(2) by (rule nat_mono)
    then have "unat (of_nat (nat \<lfloor>strength * 20\<rfloor>) :: u32) \<le> 20" by (simp add: unat_of_nat)
    moreover have "of_int \<lfloor>strength * 20\<rfloor> = (of_nat (nat \<lfloor>strength * 20\<rfloor>) :: u32)" using f by simp
    ultimately have "unat (of_int \<lfloor>strength * 20\<rfloor> :: u32) \<le> 20" by (simp only:)
    then show ?thesis using False assms by (simp add: float_as_u32_def)
  qed (simp add: float_as_u32_def)
  then show "4 \<le> unat (block_size_of strength)" "unat (block_size_of strength) \<le> 20"
    by (simp_all add: block_size_of_def max_def word_le_nat_alt)
qed

lemma unat_plus_u32: "unat a + unat b < 2 ^ 32 \<Longrightarrow> unat (a + b :: u32) = unat a + unat b"
  using unat_add_lem [of a b] by simp

lemma pixel_index_nat:
  assumes "unat w * unat h * 3 \<le> 2 ^ 32" "unat py < unat h" "unat px < unat w"
  shows "pixel_index w py px = (unat py * unat w + unat px) * 3"
proof -
  have "unat py * unat w + unat px < unat h * unat w"
    using assms(2,3) by (metis add_strict_left_mono less_le_trans mult_Suc mult_le_mono1 Suc_leI add.commute)
  then have small: "(unat py * unat w + unat px) * 3 < 2 ^ 32" using assms(1) by (simp add: mult.commute)
  have "py * w + px = of_nat (unat py * unat w + unat px)" by simp
  then have "(py * w + px) * 3 = of_nat ((unat py * unat w + unat px) * 3)" by simp
  then show ?thesis using small unfolding pixel_index_def by (simp only: unat_of_nat) simp
qed

lemma pixel_index_inj:
  assumes "unat w * unat h * 3 \<le> 2 ^ 32" "unat py < unat h" "unat px < unat w" "unat qy < unat h" "unat qx < unat w"
    "pixel_index w py px = pixel_index w qy qx"
  shows "py = qy \<and> px = qx"
proof -
  have "unat py * unat w + unat px = unat qy * unat w + unat qx"
    using assms(6) pixel_index_nat [OF assms(1-3)] pixel_index_nat [OF assms(1,4,5)] by simp
  then have "unat py = unat qy \<and> unat px = unat qx"
    using assms(3,5) by (metis div_mult_self3 mod_mult_self3 add.commute div_less add.right_neutral mod_less gr_implies_not0 add_0)
  then show ?thesis by (simp add: word_unat_eq_iff)
qed

lemma same_block:
  fixes a k p u v :: nat
  assumes "0 < k" "a \<le> u" "(u - a) mod k = 0" "a \<le> v" "(v - a) mod k = 0" "u \<le> p" "p < u + k" "v \<le> p" "p < v + k"
  shows "u = v"
proof -
  obtain i j where "u = a + i * k" "v = a + j * k"
    using assms(2-5) by (metis dvd_def le_Suc_ex mod_0_imp_dvd mult.commute add_diff_cancel_left')
  moreover have "i = j"
  proof (rule ccontr)
    assume "i \<noteq> j"
    then consider "Suc i \<le> j" | "Suc j \<le> i" by linarith
    then show False
    proof cases
      case 1
      then have "Suc i * k \<le> j * k" by (rule mult_le_mono1)
      then show False using calculation assms(6-9) by simp
    next
      case 2
      then have "Suc j * k \<le> i * k" by (rule mult_le_mono1)
      then show False using calculation assms(6-9) by simp
    qed
  qed
  ultimately show ?thesis by simp
qed

lemma sorted_wrt_map_distinct:
  "distinct bs \<Longrightarrow> (\<And>a b. a \<in> set bs \<Longrightarrow> b \<in> set bs \<Longrightarrow> a \<noteq> b \<Longrightarrow> P (f a) (f b)) \<Longrightarrow> sorted_wrt P (map f bs)"
  by (induction bs) auto

text \<open>What pixelation needs: no coordinate computation of the region wraps.\<close>

definition region_fits :: "u32 \<Rightarrow> u32 \<Rightarrow> u32 \<Rightarrow> u32 \<Rightarrow> u32 \<Rightarrow> u32 \<Rightarrow> bool" where
  "region_fits w h x y width height \<longleftrightarrow>
     unat w * unat h * 3 \<le> 2 ^ 32 \<and> unat x + unat width + 20 < 2 ^ 32 \<and> unat y + unat height + 20 < 2 ^ 32"

lemma unat_block_end:
  assumes "region_fits w h x y width height" "4 \<le> unat k" "unat k \<le> 20" "(bx, bY) \<in> set (blocks_of x y width height k)"
  shows "unat (bx + k) = unat bx + unat k" "unat (bY + k) = unat bY + unat k"
    "unat (x + width) = unat x + unat width" "unat (y + height) = unat y + unat height"
proof -
  show e: "unat (x + width) = unat x + unat width" "unat (y + height) = unat y + unat height"
    using assms(1) by (simp_all add: region_fits_def unat_plus_u32)
  have "unat bx < unat (x + width)" "unat bY < unat (y + height)"
    using assms(4) by (simp_all add: set_blocks_of set_urange_step)
  then show "unat (bx + k) = unat bx + unat k" "unat (bY + k) = unat bY + unat k"
    using assms(1,3) e by (simp_all add: region_fits_def unat_plus_u32)
qed

lemma block_cells_aligned:
  assumes "region_fits w h x y width height"
  shows "aligned len (block_cells len w h x y width height k b)"
proof -
  obtain bx bY where b: "b = (bx, bY)" by fastforce
  show ?thesis
    using assms by (auto simp: aligned_def list_all_iff b set_block_cells region_fits_def pixel_index_nat)
qed

lemma block_cells_few:
  assumes "region_fits w h x y width height" "4 \<le> unat k" "unat k \<le> 20" "b \<in> set (blocks_of x y width height k)"
  shows "length (block_cells len w h x y width height k b) < 2 ^ 32"
proof -
  obtain bx bY where b: "b = (bx, bY)" by fastforce
  note e = unat_block_end [OF assms(1-3), of bx bY] assms(4) [unfolded b]
  let ?rows = "urange bY (min (min (bY + k) (y + height)) h)" and ?cols = "urange bx (min (min (bx + k) (x + width)) w)"
  have rows: "length ?rows \<le> 20" "length ?cols \<le> 20"
    using e assms(3) by (simp_all add: urange_def unat_word_min)
  have "length (block_cells len w h x y width height k b) \<le> length ?rows * length ?cols"
    unfolding block_cells_def b prod.case
    by (rule order_trans [OF length_filter_le]) (simp add: length_concat comp_def sum_list_triv)
  also have "\<dots> \<le> 20 * 20" using rows by (rule mult_le_mono)
  finally show ?thesis by simp
qed

lemma block_cells_disjoint:
  assumes "region_fits w h x y width height" "4 \<le> unat k" "unat k \<le> 20"
    "b \<in> set (blocks_of x y width height k)" "c \<in> set (blocks_of x y width height k)" "b \<noteq> c"
  shows "cell_bytes (block_cells len w h x y width height k b) \<inter> cell_bytes (block_cells len w h x y width height k c) = {}"
proof (rule ccontr)
  assume "\<not> ?thesis"
  then obtain j i i' where i: "i \<in> set (block_cells len w h x y width height k b)" "j \<in> {i, i + 1, i + 2}"
      and i': "i' \<in> set (block_cells len w h x y width height k c)" "j \<in> {i', i' + 1, i' + 2}"
    by (auto simp: cell_bytes_def)
  have "3 dvd i" "3 dvd i'" using i(1) i'(1) block_cells_aligned [OF assms(1)] by (auto simp: aligned_def list_all_iff)
  then have same: "i = i'" using aligned_overlap [of i i'] i(2) i'(2) by blast
  obtain bx bY cx cY where bc: "b = (bx, bY)" "c = (cx, cY)" by fastforce
  note eb = unat_block_end [OF assms(1-3), of bx bY] and ec = unat_block_end [OF assms(1-3), of cx cY]
  obtain py px where p: "unat bY \<le> unat py" "unat py < unat (bY + k)" "unat py < unat h"
    "unat bx \<le> unat px" "unat px < unat (bx + k)" "unat px < unat w" "i = pixel_index w py px"
    using i(1) by (auto simp: bc set_block_cells)
  obtain qy qx where q: "unat cY \<le> unat qy" "unat qy < unat (cY + k)" "unat qy < unat h"
    "unat cx \<le> unat qx" "unat qx < unat (cx + k)" "unat qx < unat w" "i' = pixel_index w qy qx"
    using i'(1) by (auto simp: bc set_block_cells)
  have "unat w * unat h * 3 \<le> 2 ^ 32" using assms(1) by (simp add: region_fits_def)
  from pixel_index_inj [OF this p(3,6) q(3,6)] have pq: "qy = py" "qx = px" using p(7) q(7) same by simp_all
  have mb: "unat x \<le> unat bx" "(unat bx - unat x) mod unat k = 0" "unat y \<le> unat bY" "(unat bY - unat y) mod unat k = 0"
    and mc: "unat x \<le> unat cx" "(unat cx - unat x) mod unat k = 0" "unat y \<le> unat cY" "(unat cY - unat y) mod unat k = 0"
    using assms(4,5) by (simp_all add: bc set_blocks_of set_urange_step)
  have k: "0 < unat k" using assms(2) by linarith
  have up: "unat px < unat bx + unat k" "unat py < unat bY + unat k" "unat px < unat cx + unat k" "unat py < unat cY + unat k"
    using p(2,5) q(2,5) eb(1,2) ec(1,2) assms(4,5) unfolding bc pq by metis+
  have lo: "unat cx \<le> unat px" "unat cY \<le> unat py" using q(1,4) unfolding pq by blast+
  have "unat bx = unat cx" by (rule same_block [OF k mb(1,2) mc(1,2) p(4) up(1) lo(1) up(3)])
  moreover have "unat bY = unat cY" by (rule same_block [OF k mb(3,4) mc(3,4) p(1) up(2) lo(2) up(4)])
  ultimately show False using assms(6) by (simp add: bc word_unat_eq_iff)
qed

lemma block_at_block:
  assumes "region_fits w h x y width height" "4 \<le> unat k" "unat k \<le> 20"
    "x \<le> px" "px < x + width" "y \<le> py" "py < y + height"
  shows "block_at x y k px py \<in> set (blocks_of x y width height k)"
    "unat (fst (block_at x y k px py)) \<le> unat px" "unat px < unat (fst (block_at x y k px py)) + unat k"
    "unat (snd (block_at x y k px py)) \<le> unat py" "unat py < unat (snd (block_at x y k px py)) + unat k"
proof -
  have step: "\<exists>u :: u32. of_nat (unat a + (unat p - unat a) div unat k * unat k) = u \<and> unat a \<le> unat u \<and> unat u \<le> unat p \<and>
      unat p < unat u + unat k \<and> (unat u - unat a) mod unat k = 0" if "a \<le> p" for a p :: u32
  proof -
    let ?n = "unat a + (unat p - unat a) div unat k * unat k"
    have le: "unat a \<le> unat p" using that by (simp add: word_le_nat_alt)
    have "(unat p - unat a) div unat k * unat k \<le> unat p - unat a" by simp
    then have n: "?n \<le> unat p" using le by linarith
    have "?n < 2 ^ LENGTH(32)" using n unsigned_less [of p, where 'a = nat] by (simp only: len_num1 le_less_trans)
    then have u: "unat (of_nat ?n :: u32) = ?n" unfolding unat_of_nat by (rule mod_less)
    have "unat p - unat a < (unat p - unat a) div unat k * unat k + unat k"
      using assms(2) by (metis dividend_less_div_times add.commute gr_zeroI not_numeral_le_zero)
    then have "unat p < ?n + unat k" using le by linarith
    then show ?thesis using n by (intro exI [where x = "of_nat ?n"] conjI refl) (unfold u, simp_all)
  qed
  from step [OF assms(4)] step [OF assms(6)]
  show "block_at x y k px py \<in> set (blocks_of x y width height k)"
    "unat (fst (block_at x y k px py)) \<le> unat px" "unat px < unat (fst (block_at x y k px py)) + unat k"
    "unat (snd (block_at x y k px py)) \<le> unat py" "unat py < unat (snd (block_at x y k px py)) + unat k"
    using assms(5,7) by (auto simp: block_at_def set_blocks_of set_urange_step word_less_nat_alt)
qed

lemma pixelated_core:
  assumes "region_fits w h x y width height" "strength \<le> 1"
    "x \<le> px" "px < x + width" "px < w" "y \<le> py" "py < y + height" "py < h"
    "pixel_index w py px + 2 < length d"
  defines "k \<equiv> block_size_of strength"
  shows "pixel (blur_region d w h x y width height strength) (pixel_index w py px) =
    average_colour d (block_cells (length d) w h x y width height k (block_at x y k px py))"
proof -
  note kb = block_size_bounds [OF assms(2), folded k_def]
  note ba = block_at_block [OF assms(1) kb assms(3,4,6,7)]
  let ?f = "block_cells (length d) w h x y width height k"
  obtain bx bY where b: "block_at x y k px py = (bx, bY)" by fastforce
  note e = unat_block_end [OF assms(1) kb ba(1) [unfolded b]]
  have "pixel_index w py px \<in> set (?f (block_at x y k px py))"
    unfolding b set_block_cells
    by (intro conjI, rule assms(9), rule exI [where x = py], rule exI [where x = px])
      (use ba(2-5) e assms(4,5,7,8) in \<open>simp add: b word_less_nat_alt\<close>)
  moreover have "sorted_wrt (\<lambda>a b. cell_bytes a \<inter> cell_bytes b = {}) (map ?f (blocks_of x y width height k))"
    using block_cells_disjoint [OF assms(1) kb] by (intro sorted_wrt_map_distinct distinct_blocks_of) blast
  moreover have "list_all (\<lambda>cells. aligned (length d) cells \<and> length cells < 2 ^ 32) (map ?f (blocks_of x y width height k))"
    using block_cells_aligned [OF assms(1)] block_cells_few [OF assms(1) kb] by (simp add: list_all_iff)
  ultimately show ?thesis
    unfolding blur_region_fold k_def [symmetric] using ba(1) by (intro fold_blur_in) simp_all
qed

text \<open>
  C40. Pixelation: for a strength up to one and a region whose coordinates do not wrap, every pixel of the
  region inside the image becomes the average colour its block had before, so the image keeps nothing of
  the region but one colour for each block.
\<close>

theorem region_pixelated:
  assumes "region_fits w h x y width height" "strength \<le> 1"
    "x \<le> px" "px < x + width" "px < w" "y \<le> py" "py < y + height" "py < h"
    "pixel_index w py px + 2 < length d"
  shows "pixel (blur_region d w h x y width height strength) (pixel_index w py px) =
    average_colour d (block_cells (length d) w h x y width height (block_size_of strength)
      (block_at x y (block_size_of strength) px py))"
  by (rule pixelated_core [OF assms])

lemma block_size_half: "block_size_of (1 / 2) = 10"
  by (simp add: block_size_of_def float_as_u32_def)

lemma small_uranges: "urange 0 1 = [0]" "urange 0 2 = [0, 1]"
  by code_simp+

theorem region_pixelated_witness:
  "pixel (blur_region [10, 20, 30, 30, 40, 50] 2 1 0 0 2 1 (1 / 2)) 3 = (20, 30, 40)"
proof -
  have "pixel_index 2 0 1 = 3" by (simp add: pixel_index_def)
  moreover have "region_fits 2 1 0 0 2 1" by (simp add: region_fits_def)
  moreover have "average_colour [10, 20, 30, 30, 40, 50] (block_cells 6 2 1 0 0 2 1 10 (block_at 0 0 10 1 0)) = (20, 30, 40)"
    by (simp add: block_at_def block_cells_def small_uranges pixel_index_def average_colour_def channel_sum_def)
  ultimately show ?thesis
    using region_pixelated [of 2 1 0 0 2 1 "1 / 2" 1 0 "[10, 20, 30, 30, 40, 50]"] by (simp add: block_size_half numeral_eq_Suc)
qed

theorem blur_region_confined_witness:
  "blur_region [10, 20, 30, 30, 40, 50] 2 1 1 0 1 1 (1 / 2) ! 0 = 10"
proof -
  have "0 \<notin> region_bytes 2 1 1 0 1 1"
  proof
    assume "0 \<in> region_bytes 2 1 1 0 1 1"
    then obtain py px where p: "py < 1" "1 \<le> px" "px < 2" "0 \<in> {pixel_index 2 py px, pixel_index 2 py px + 1, pixel_index 2 py px + 2}"
      by (auto simp: region_bytes_def)
    then have "py = 0" "px = 1" by (simp_all add: word_unat_eq_iff word_le_nat_alt word_less_nat_alt)
    then show False using p(4) by (simp add: pixel_index_def)
  qed
  then show ?thesis using blur_region_confined [of "[10, 20, 30, 30, 40, 50]" 2 1 1 0 1 1 "1 / 2" 0] by simp
qed

section \<open>What the filters do\<close>

lemma remove_fields_get: "hm_get (remove_fields names md) k = (if k \<in> set names then None else hm_get md k)"
  unfolding remove_fields_def by (induction names arbitrary: md) auto

lemma hash_field_get: "hm_get (hash_field h f md) k = (if k = f then map_option h (hm_get md k) else hm_get md k)"
  by (auto simp: hash_field_def split: option.split)

lemma hash_fields_get:
  "hm_get (fold (hash_field h) fs md) k = map_option (h ^^ count_list fs k) (hm_get md k)"
proof (induction fs arbitrary: md)
  case (Cons f fs)
  show ?case
    by (cases "hm_get md k") (auto simp add: Cons hash_field_get funpow_swap1)
qed (simp add: option.map_id)

text \<open>
  The metadata filter removes every field it is told to remove, replaces every field it is told to hash
  by the hash of its value, once for each time the field is listed, and leaves the other fields alone.
\<close>

theorem pii_filter_exact:
  "hm_get (filter_metadata hash_value c PiiFilter md) k =
    (if k \<in> set (pv_pii_fields_to_remove c) then None
     else map_option (hash_value ^^ count_list (pv_pii_fields_to_hash c) k) (hm_get md k))"
  by (simp add: hash_fields_get remove_fields_get)

text \<open>
  No image is ever changed: whatever the configuration, the filters a manager starts with return the
  data they are given, report no detection and say that nothing was modified.
\<close>

theorem default_filters_change_no_image:
  "case fst (pm_process_image timer stream_id data width height (with_default_filters c)) of
     Inr r \<Rightarrow> pz_data r = data \<and> pz_detections r = [] \<and> \<not> pz_modified r
   | Inl _ \<Rightarrow> False"
  by (simp add: pm_process_image_def with_default_filters_def add_filter_def PrivacyManager_new_def FaceBlurFilter_new_def
      unmodified_def detect_faces_def Let_def)

end
