(* ===== verification/Packager.thy ===== *)
theory Packager
  imports Ring_Buffer Episode_Storage Mcap Privacy
begin

text \<open>
  The episode packager of the data collection plugin (\<open>robotics/data_collection/packager.rs\<close>): it takes
  the samples of an episode from the ring buffers, passes images through the privacy filters and writes
  the episode as an MCAP file with its metadata. The disk, the JSON codec, the calls of \<open>write_all\<close> that
  fail and the time taken are arguments. The progress callback is left out.
\<close>

section \<open>Configuration\<close>

datatype packager_error =
    PackagerIo string
  | PackagerMcap mcap_error
  | PackagerPrivacy privacy_error
  | NoDataAvailable
  | PackagerInvalidConfig string
  | PackagerEpisodeExists string
  | PackagingInProgress
  | PackagerSerializationError string

record packager_config =
  pk_output_dir :: path
  pk_mcap_config :: "mcap_writer_config option"
  pk_privacy_config :: privacy_config
  pk_streams :: "stream_config list"
  pk_include_metadata :: bool
  pk_include_urdf :: bool
  pk_include_calibration :: bool
  pk_max_episode_duration_secs :: f32
  pk_min_samples_per_stream :: u32

definition PackagerConfig_default :: packager_config where
  "PackagerConfig_default =
     \<lparr>pk_output_dir = ''episodes'', pk_mcap_config = None, pk_privacy_config = PrivacyConfig_default, pk_streams = [],
      pk_include_metadata = True, pk_include_urdf = True, pk_include_calibration = True,
      pk_max_episode_duration_secs = 300, pk_min_samples_per_stream = 10\<rparr>"

definition PackagerConfig_new :: "path \<Rightarrow> packager_config" where
  "PackagerConfig_new output_dir = PackagerConfig_default\<lparr>pk_output_dir := output_dir\<rparr>"

definition packager_with_stream :: "stream_config \<Rightarrow> packager_config \<Rightarrow> packager_config" where
  "packager_with_stream stream c = c\<lparr>pk_streams := pk_streams c @ [stream]\<rparr>"

definition packager_with_privacy :: "privacy_config \<Rightarrow> packager_config \<Rightarrow> packager_config" where
  "packager_with_privacy config c = c\<lparr>pk_privacy_config := config\<rparr>"

definition packager_with_mcap :: "mcap_writer_config \<Rightarrow> packager_config \<Rightarrow> packager_config" where
  "packager_with_mcap config c = c\<lparr>pk_mcap_config := Some config\<rparr>"

record episode_packager =
  ek_config :: packager_config
  ek_privacy_manager :: privacy_manager
  ek_urdf_data :: "u8 list option"
  ek_calibration_data :: "(string, u8 list) hmap option"
  ek_stream_schemas :: "(stream_id, mcap_schema) hmap"
  ek_is_packaging :: bool

definition EpisodePackager_new :: "packager_config \<Rightarrow> episode_packager" where
  "EpisodePackager_new config =
     \<lparr>ek_config = config, ek_privacy_manager = with_default_filters (pk_privacy_config config), ek_urdf_data = None,
      ek_calibration_data = None, ek_stream_schemas = [], ek_is_packaging = False\<rparr>"

definition set_urdf :: "u8 list \<Rightarrow> episode_packager \<Rightarrow> episode_packager" where
  "set_urdf urdf p = p\<lparr>ek_urdf_data := Some urdf\<rparr>"

definition set_calibration :: "string \<Rightarrow> u8 list \<Rightarrow> episode_packager \<Rightarrow> episode_packager" where
  "set_calibration camera_id data p =
     p\<lparr>ek_calibration_data := Some (hm_insert camera_id data
         (case ek_calibration_data p of Some m \<Rightarrow> m | None \<Rightarrow> []))\<rparr>"

definition packager_register_schema :: "stream_id \<Rightarrow> mcap_schema \<Rightarrow> episode_packager \<Rightarrow> episode_packager" where
  "packager_register_schema stream_id s p = p\<lparr>ek_stream_schemas := hm_insert stream_id s (ek_stream_schemas p)\<rparr>"

text \<open>What packaging does outside: directories and files on a disk \<open>'d\<close>, JSON, clocks.\<close>

record 'd packager_env =
  pe_create_dir_all :: "path \<Rightarrow> 'd \<Rightarrow> (string + unit) \<times> 'd"
  pe_create_file :: "path \<Rightarrow> 'd \<Rightarrow> (string + unit) \<times> 'd"
  pe_commit :: "path \<Rightarrow> u8 list \<Rightarrow> 'd \<Rightarrow> 'd"
  pe_write_text :: "path \<Rightarrow> string \<Rightarrow> 'd \<Rightarrow> (string + unit) \<times> 'd"
  pe_file_len :: "path \<Rightarrow> 'd \<Rightarrow> string + u64"
  pe_metadata_json :: "episode_metadata \<Rightarrow> string + string"
  pe_write_oracle :: write_oracle
  pe_timer :: "privacy_filter \<Rightarrow> u64"
  pe_elapsed_ms :: u64

section \<open>Images\<close>

definition find_stream :: "stream_id \<Rightarrow> stream_config list \<Rightarrow> stream_config option" where
  "find_stream stream_id cs = List.find (\<lambda>c. st_stream_id c = stream_id) cs"

definition is_image_stream :: "stream_config list \<Rightarrow> stream_id \<Rightarrow> bool" where
  "is_image_stream cs stream_id =
     (case find_stream stream_id cs of
        Some c \<Rightarrow> (case st_stream_type c of RgbCamera _ _ _ _ \<Rightarrow> True | DepthCamera _ _ _ _ _ \<Rightarrow> True | _ \<Rightarrow> False)
      | None \<Rightarrow>
          let name = to_lowercase stream_id in
          str_contains name ''camera'' \<or> str_contains name ''image'' \<or> str_contains name ''rgb'' \<or> str_contains name ''depth'')"

text \<open>The first configuration of the stream that is a camera gives the size.\<close>

fun image_dimensions :: "stream_config list \<Rightarrow> stream_id \<Rightarrow> u32 \<times> u32" where
  "image_dimensions [] stream_id = (640, 480)"
| "image_dimensions (c # cs) stream_id =
     (if st_stream_id c = stream_id
      then case st_stream_type c of
             RgbCamera _ width height _ \<Rightarrow> (width, height)
           | DepthCamera _ width height _ _ \<Rightarrow> (width, height)
           | _ \<Rightarrow> image_dimensions cs stream_id
      else image_dimensions cs stream_id)"

text \<open>The loop over the samples: images pass the privacy filters, \<open>n\<close> counts detections.\<close>

fun privacy_loop ::
  "(privacy_filter \<Rightarrow> u64) \<Rightarrow> layout \<Rightarrow> stream_config list \<Rightarrow> data_sample list \<Rightarrow> u64 \<Rightarrow> privacy_manager \<Rightarrow>
     (packager_error + data_sample list \<times> u64) \<times> privacy_manager" where
  "privacy_loop timer ly cs [] n m = (Inr ([], n), m)"
| "privacy_loop timer ly cs (s # ss) n m =
     (if is_image_stream cs (ds_stream_id s)
      then let (width, height) = image_dimensions cs (ds_stream_id s) in
           case pm_process_image timer (ds_stream_id s) (to_bytes ly (ds_data s)) width height m of
             (Inl e, m1) \<Rightarrow> (Inl (PackagerPrivacy e), m1)
           | (Inr r, m1) \<Rightarrow>
               let s1 = (if pz_modified r then s\<lparr>ds_data := Binary (pz_data r)\<rparr> else s);
                   n1 = (if pz_modified r then n + of_nat (length (pz_detections r)) else n)
               in (case privacy_loop timer ly cs ss n1 m1 of
                     (Inl e, m2) \<Rightarrow> (Inl e, m2)
                   | (Inr (ss1, n2), m2) \<Rightarrow> (Inr (s1 # ss1, n2), m2))
      else (case privacy_loop timer ly cs ss n m of
              (Inl e, m2) \<Rightarrow> (Inl e, m2)
            | (Inr (ss1, n2), m2) \<Rightarrow> (Inr (s # ss1, n2), m2)))"

section \<open>The file\<close>

definition setup_stream :: "write_oracle \<Rightarrow> (stream_id, mcap_schema) hmap \<Rightarrow> stream_id \<Rightarrow> unit mcap_op" where
  "setup_stream io schemas stream_id =
     mw_then (case hm_get schemas stream_id of
                Some s \<Rightarrow> register_schema io s
              | None \<Rightarrow> add_schema io (''omniedge/'' @ stream_id) ''jsonschema'' (utf8_bytes ''{}''))
       (\<lambda>schema_id. mw_then (add_channel io schema_id (''/'' @ stream_id) ''json'')
       (\<lambda>channel_id. mcap_register_stream stream_id channel_id))"

primrec mw_each :: "('a \<Rightarrow> unit mcap_op) \<Rightarrow> 'a list \<Rightarrow> unit mcap_op" where
  "mw_each f [] = mw_return ()"
| "mw_each f (x # xs) = mw_then (f x) (\<lambda>_. mw_each f xs)"

definition write_attachments :: "write_oracle \<Rightarrow> episode_packager \<Rightarrow> unit mcap_op" where
  "write_attachments io p =
     mw_then (case ek_urdf_data p of
                Some urdf \<Rightarrow> if pk_include_urdf (ek_config p) then add_attachment io ''robot.urdf'' ''application/xml'' urdf
                             else mw_return ()
              | None \<Rightarrow> mw_return ()) (\<lambda>_.
     (case ek_calibration_data p of
        Some cal \<Rightarrow> if pk_include_calibration (ek_config p)
          then mw_each (\<lambda>(camera_id, data).
                 add_attachment io (''calibration_'' @ camera_id @ ''.yaml'') ''application/x-yaml'' data) cal
          else mw_return ()
      | None \<Rightarrow> mw_return ()))"

definition episode_info :: "episode_id \<Rightarrow> timestamp_ns \<Rightarrow> timestamp_ns \<Rightarrow> u64 \<Rightarrow> (string, string) hmap" where
  "episode_info episode_id start_time end_time total_samples =
     [(''episode_id'', episode_id), (''start_time_ns'', show_nat (unat start_time)),
      (''end_time_ns'', show_nat (unat end_time)), (''sample_count'', show_nat (unat total_samples))]"

definition write_episode ::
  "write_oracle \<Rightarrow> layout \<Rightarrow> episode_packager \<Rightarrow> stream_id list \<Rightarrow> data_sample list \<Rightarrow> (string, string) hmap \<Rightarrow>
     mcap_statistics mcap_op" where
  "write_episode io ly p streams samples info =
     mw_then (mcap_start io) (\<lambda>_.
     mw_then (mw_each (setup_stream io (ek_stream_schemas p)) streams) (\<lambda>_.
     mw_then (mw_each (write_sample io ly) samples) (\<lambda>_.
     mw_then (write_attachments io p) (\<lambda>_.
     mw_then (mcap_add_metadata io ''episode_info'' info) (\<lambda>_.
     mcap_finish io)))))"

section \<open>Packaging\<close>

text \<open>The samples of the episode, stream by stream, and their number for each stream.\<close>

definition collected :: "buffer_manager \<Rightarrow> timestamp_ns \<Rightarrow> timestamp_ns \<Rightarrow> data_sample list" where
  "collected bm start_time end_time = concat (map (\<lambda>(k, b). get_range b start_time end_time) (bm_buffers bm))"

definition stream_counts :: "buffer_manager \<Rightarrow> timestamp_ns \<Rightarrow> timestamp_ns \<Rightarrow> (string, u64) hmap" where
  "stream_counts bm start_time end_time =
     map (\<lambda>(k, b). (k, of_nat (length (get_range b start_time end_time)))) (bm_buffers bm)"

text \<open>The part after the samples are there: privacy, the MCAP file, the metadata file.\<close>

definition write_metadata_file ::
  "'d packager_env \<Rightarrow> episode_id \<Rightarrow> episode_metadata \<Rightarrow> path \<Rightarrow> packager_config \<Rightarrow> 'd \<Rightarrow> (packager_error + path option) \<times> 'd" where
  "write_metadata_file env episode_id metadata episode_dir config d =
     (if pk_include_metadata config
      then let mpath = path_join episode_dir (episode_id @ ''_metadata.json'') in
           (case pe_metadata_json env metadata of
              Inl e \<Rightarrow> (Inl (PackagerSerializationError e), d)
            | Inr json \<Rightarrow>
                (case pe_write_text env mpath json d of
                   (Inl e, d1) \<Rightarrow> (Inl (PackagerIo e), d1)
                 | (Inr _, d1) \<Rightarrow> (Inr (Some mpath), d1)))
      else (Inr None, d))"

definition write_package ::
  "'d packager_env \<Rightarrow> layout \<Rightarrow> episode_id \<Rightarrow> (string, u64) hmap \<Rightarrow> data_sample list \<Rightarrow> timestamp_ns \<Rightarrow> timestamp_ns \<Rightarrow>
     episode_metadata \<Rightarrow> path \<Rightarrow> episode_packager \<times> 'd \<Rightarrow> (packager_error + package_result) \<times> episode_packager \<times> 'd" where
  "write_package env ly episode_id counts samples start_time end_time metadata episode_dir = (\<lambda>(p, d).
     let total_samples = of_nat (length samples) :: u64 in
     case privacy_loop (pe_timer env) ly (pk_streams (ek_config p)) samples 0 (ek_privacy_manager p) of
       (Inl e, pm) \<Rightarrow> (Inl e, p\<lparr>ek_privacy_manager := pm\<rparr>, d)
     | (Inr (processed, detections), pm) \<Rightarrow>
         let p1 = p\<lparr>ek_privacy_manager := pm\<rparr>;
             mcap_path = path_join episode_dir (episode_id @ ''.mcap'');
             config = (case pk_mcap_config (ek_config p1) of Some c \<Rightarrow> c | None \<Rightarrow> McapWriterConfig_default) in
         case pe_create_file env mcap_path d of
           (Inl e, d1) \<Rightarrow> (Inl (PackagerIo e), p1, d1)
         | (Inr _, d1) \<Rightarrow>
             (case write_episode (pe_write_oracle env) ly p1 (hm_keys counts) processed
                     (episode_info episode_id start_time end_time total_samples) (McapWriter_new config) of
                (Inl e, w) \<Rightarrow> (Inl (PackagerMcap e), p1, pe_commit env mcap_path (mw_writer w) d1)
              | (Inr _, w) \<Rightarrow>
                  (case write_metadata_file env episode_id metadata episode_dir (ek_config p1)
                          (pe_commit env mcap_path (mw_writer w) d1) of
                     (Inl e, d2) \<Rightarrow> (Inl e, p1, d2)
                   | (Inr metadata_path, d2) \<Rightarrow>
                       (case pe_file_len env mcap_path d2 of
                          Inl e \<Rightarrow> (Inl (PackagerIo e), p1, d2)
                        | Inr file_size \<Rightarrow>
                            (Inr \<lparr>pr_episode_id = episode_id, pr_mcap_path = mcap_path, pr_metadata_path = metadata_path,
                                  pr_total_samples = total_samples, pr_samples_per_stream = counts,
                                  pr_duration_ns = saturating_sub end_time start_time, pr_file_size_bytes = file_size,
                                  pr_privacy_detections = detections, pr_packaging_time_ms = 0\<rparr>, p1, d2)))))"

definition do_package ::
  "'d packager_env \<Rightarrow> layout \<Rightarrow> episode_id \<Rightarrow> buffer_manager \<Rightarrow> timestamp_ns \<Rightarrow> timestamp_ns \<Rightarrow> episode_metadata \<Rightarrow>
     episode_packager \<times> 'd \<Rightarrow> (packager_error + package_result) \<times> episode_packager \<times> 'd" where
  "do_package env ly episode_id bm start_time end_time metadata = (\<lambda>(p, d).
     case pe_create_dir_all env (pk_output_dir (ek_config p)) d of
       (Inl e, d1) \<Rightarrow> (Inl (PackagerIo e), p, d1)
     | (Inr _, d1) \<Rightarrow>
         let episode_dir = path_join (pk_output_dir (ek_config p)) episode_id in
         (case pe_create_dir_all env episode_dir d1 of
            (Inl e, d2) \<Rightarrow> (Inl (PackagerIo e), p, d2)
          | (Inr _, d2) \<Rightarrow>
              let all_samples = collected bm start_time end_time in
              if all_samples = [] then (Inl NoDataAvailable, p, d2)
              else write_package env ly episode_id (stream_counts bm start_time end_time)
                     (sort_key ds_timestamp_ns all_samples) start_time end_time metadata episode_dir (p, d2)))"

text \<open>
  The channels are numbered in the order of the buffers; the code walks the keys of a second hash map of counts,
  whose order Rust leaves open.
\<close>

definition package_episode ::
  "'d packager_env \<Rightarrow> layout \<Rightarrow> episode_id \<Rightarrow> buffer_manager \<Rightarrow> timestamp_ns \<Rightarrow> timestamp_ns \<Rightarrow> episode_metadata \<Rightarrow>
     episode_packager \<times> 'd \<Rightarrow> (packager_error + package_result) \<times> episode_packager \<times> 'd" where
  "package_episode env ly episode_id bm start_time end_time metadata = (\<lambda>(p, d).
     if ek_is_packaging p then (Inl PackagingInProgress, p, d)
     else case do_package env ly episode_id bm start_time end_time metadata (p\<lparr>ek_is_packaging := True\<rparr>, d) of
            (r, p1, d1) \<Rightarrow>
              (case r of Inl e \<Rightarrow> Inl e | Inr res \<Rightarrow> Inr (res\<lparr>pr_packaging_time_ms := pe_elapsed_ms env\<rparr>),
               p1\<lparr>ek_is_packaging := False\<rparr>, d1))"

record pending_episode =
  pg_episode_id :: episode_id
  pg_start_time :: timestamp_ns
  pg_end_time :: timestamp_ns
  pg_metadata :: episode_metadata

record batch_packager =
  bp_packager :: episode_packager
  bp_queue :: "pending_episode list"

definition BatchPackager_new :: "packager_config \<Rightarrow> batch_packager" where
  "BatchPackager_new config = \<lparr>bp_packager = EpisodePackager_new config, bp_queue = []\<rparr>"

definition bp_enqueue :: "pending_episode \<Rightarrow> batch_packager \<Rightarrow> batch_packager" where
  "bp_enqueue e b = b\<lparr>bp_queue := bp_queue b @ [e]\<rparr>"

fun process_episodes ::
  "'d packager_env \<Rightarrow> layout \<Rightarrow> buffer_manager \<Rightarrow> pending_episode list \<Rightarrow> episode_packager \<times> 'd \<Rightarrow>
     (packager_error + package_result) list \<times> episode_packager \<times> 'd" where
  "process_episodes env ly bm [] s = ([], s)"
| "process_episodes env ly bm (e # es) s =
     (case package_episode env ly (pg_episode_id e) bm (pg_start_time e) (pg_end_time e) (pg_metadata e) s of
        (r, s1) \<Rightarrow> (case process_episodes env ly bm es s1 of (rs, s2) \<Rightarrow> (r # rs, s2)))"

definition process_all ::
  "'d packager_env \<Rightarrow> layout \<Rightarrow> buffer_manager \<Rightarrow> batch_packager \<times> 'd \<Rightarrow>
     (packager_error + package_result) list \<times> batch_packager \<times> 'd" where
  "process_all env ly bm = (\<lambda>(b, d).
     case process_episodes env ly bm (bp_queue b) (bp_packager b, d) of
       (rs, p, d1) \<Rightarrow> (rs, b\<lparr>bp_packager := p, bp_queue := []\<rparr>, d1))"

section \<open>The filters pass every sample\<close>

lemma filter_image_unmodified: "\<exists>ns. filter_image timer data w h c f = Inr (unmodified data ns)"
  by (cases f) (auto simp: detect_faces_def Let_def)

lemma image_loop_unmodified:
  "\<exists>ns'. image_loop timer sid w h c fs (unmodified data ns) = Inr (unmodified data ns')"
proof (induction fs arbitrary: ns)
  case (Cons f fs)
  obtain k where k: "filter_image timer data w h c f = Inr (unmodified data k)"
    using filter_image_unmodified by blast
  show ?case
  proof (cases "applies_to sid f")
    case True
    then have "image_loop timer sid w h c (f # fs) (unmodified data ns) =
        image_loop timer sid w h c fs (unmodified data (ns + k))"
      using k by (simp add: unmodified_def)
    then show ?thesis using Cons.IH by simp
  qed (simp add: Cons.IH)
qed auto

lemma pm_process_image_unmodified:
  "\<exists>ns m1. pm_process_image timer sid data w h m = (Inr (unmodified data ns), m1)"
  using image_loop_unmodified [of timer sid w h "pm_config m" "pm_filters m" data 0]
  by (auto simp: pm_process_image_def Let_def)

lemma privacy_loop_passes: "\<exists>m1. privacy_loop timer ly cs ss n m = (Inr (ss, n), m1)"
proof (induction ss arbitrary: m)
  case (Cons s ss)
  show ?case
  proof (cases "is_image_stream cs (ds_stream_id s)")
    case True
    obtain w h where wh: "image_dimensions cs (ds_stream_id s) = (w, h)" by fastforce
    obtain ns m1 where "pm_process_image timer (ds_stream_id s) (to_bytes ly (ds_data s)) w h m =
        (Inr (unmodified (to_bytes ly (ds_data s)) ns), m1)"
      using pm_process_image_unmodified by blast
    then show ?thesis using True Cons.IH [of m1] wh by (auto simp: unmodified_def Let_def)
  next
    case False
    then show ?thesis using Cons.IH [of m] by auto
  qed
qed simp

section \<open>What the file holds\<close>

lemma flush_chunk_frame [simp]:
  "mw_channels (snd (mcap_flush_chunk no_fault m)) = mw_channels m"
  "mw_stream_to_channel (snd (mcap_flush_chunk no_fault m)) = mw_stream_to_channel m"
  by (simp_all add: mcap_flush_chunk_def Let_def)

lemma write_message_frame:
  "mw_channels (snd (write_message no_fault c t d m)) = mw_channels m"
  "mw_stream_to_channel (snd (write_message no_fault c t d m)) = mw_stream_to_channel m"
  by (simp_all add: write_message_def write_message_to_buffer_def write_message_record_def Let_def)

lemma write_samples_logged:
  assumes "mcap_logged m ms"
    "list_all (\<lambda>s. hm_get (mw_stream_to_channel m) (ds_stream_id s) = Some (ch (ds_stream_id s)) \<and>
       hm_contains (mw_channels m) (ch (ds_stream_id s))) ss"
  shows "\<exists>m'. mw_each (write_sample no_fault ly) ss m = (Inr (), m') \<and>
    mcap_logged m' (ms @ map (\<lambda>s. (ch (ds_stream_id s), ds_timestamp_ns s, to_bytes ly (ds_data s))) ss)"
  using assms
proof (induction ss arbitrary: m ms)
  case (Cons s ss)
  let ?c = "ch (ds_stream_id s)" and ?d = "to_bytes ly (ds_data s)"
  obtain m1 where m1: "write_message no_fault ?c (ds_timestamp_ns s) ?d m = (Inr (), m1)"
    "mcap_logged m1 (ms @ [(?c, ds_timestamp_ns s, ?d)])"
    using logged_write_message [OF Cons.prems(1), of ?c "ds_timestamp_ns s" ?d] Cons.prems(2) by auto
  have "mw_channels m1 = mw_channels m" "mw_stream_to_channel m1 = mw_stream_to_channel m"
    using write_message_frame [of ?c "ds_timestamp_ns s" ?d m] m1(1) by simp_all
  then obtain m2 where "mw_each (write_sample no_fault ly) ss m1 = (Inr (), m2)"
    "mcap_logged m2 ((ms @ [(?c, ds_timestamp_ns s, ?d)]) @
       map (\<lambda>s. (ch (ds_stream_id s), ds_timestamp_ns s, to_bytes ly (ds_data s))) ss)"
    using Cons.IH [OF m1(2)] Cons.prems(2) by auto
  moreover have "write_sample no_fault ly s m = (Inr (), m1)" using m1(1) Cons.prems(2) by (simp add: write_sample_def)
  ultimately show ?case by auto
qed (simp add: mw_return_def)

lemma setup_schema:
  assumes "mcap_logged m ms"
  shows "\<exists>i m1. (case hm_get schemas sid of Some s \<Rightarrow> register_schema no_fault s m
       | None \<Rightarrow> add_schema no_fault (''omniedge/'' @ sid) ''jsonschema'' (utf8_bytes ''{}'') m) = (Inr i, m1) \<and>
    mcap_logged m1 ms \<and> hm_contains (mw_schemas m1) i \<and> mw_channels m1 = mw_channels m \<and>
    mw_stream_to_channel m1 = mw_stream_to_channel m \<and> mw_next_channel_id m1 = mw_next_channel_id m"
proof (cases "hm_get schemas sid")
  case None
  then show ?thesis
    using logged_add_schema [OF assms, of "''omniedge/'' @ sid" "''jsonschema''" "utf8_bytes ''{}''"] logged_state [OF assms]
    by (simp add: add_schema_def register_schema_def write_schema_def mw_return_def hm_contains_def Let_def)
next
  case (Some s)
  then show ?thesis
    using logged_register_schema [OF assms, of s] logged_state [OF assms]
    by (simp add: register_schema_def write_schema_def mw_return_def hm_contains_def Let_def)
qed

lemma setup_stream_logged:
  assumes "mcap_logged m ms"
  shows "\<exists>m'. setup_stream no_fault schemas sid m = (Inr (), m') \<and> mcap_logged m' ms \<and>
    mw_stream_to_channel m' = hm_insert sid (mw_next_channel_id m) (mw_stream_to_channel m) \<and>
    (\<forall>c. hm_contains (mw_channels m') c \<longleftrightarrow> c = mw_next_channel_id m \<or> hm_contains (mw_channels m) c) \<and>
    mw_next_channel_id m' = mw_next_channel_id m + 1"
proof -
  let ?f = "case hm_get schemas sid of Some s \<Rightarrow> register_schema no_fault s
       | None \<Rightarrow> add_schema no_fault (''omniedge/'' @ sid) ''jsonschema'' (utf8_bytes ''{}'')"
  obtain i m1 where m1: "?f m = (Inr i, m1)" "mcap_logged m1 ms" "hm_contains (mw_schemas m1) i"
    "mw_channels m1 = mw_channels m" "mw_stream_to_channel m1 = mw_stream_to_channel m"
    "mw_next_channel_id m1 = mw_next_channel_id m"
    using setup_schema [OF assms, where schemas = schemas and sid = sid] by (auto split: option.splits)
  define m2 where "m2 = snd (add_channel no_fault i (''/'' @ sid) ''json'' m1)"
  have g: "add_channel no_fault i (''/'' @ sid) ''json'' m1 = (Inr (mw_next_channel_id m), m2)"
    "mw_next_channel_id m2 = mw_next_channel_id m + 1" "mw_stream_to_channel m2 = mw_stream_to_channel m"
    "\<forall>c. hm_contains (mw_channels m2) c \<longleftrightarrow> c = mw_next_channel_id m \<or> hm_contains (mw_channels m) c"
    using m1 logged_state [OF m1(2)]
    by (simp_all add: m2_def add_channel_def register_channel_def write_channel_def mw_return_def Channel_new_def
        hm_contains_insert Let_def)
  have l: "mcap_logged m2 ms" unfolding m2_def by (rule logged_add_channel [OF m1(2)])
  have "setup_stream no_fault schemas sid m = mcap_register_stream sid (mw_next_channel_id m) m2"
    using m1(1) g(1) unfolding setup_stream_def by (simp add: mw_then_def)
  also have "\<dots> = (Inr (), m2\<lparr>mw_stream_to_channel := hm_insert sid (mw_next_channel_id m) (mw_stream_to_channel m)\<rparr>)"
    using g(3,4) by (simp add: mcap_register_stream_def)
  finally show ?thesis
    using g(2,4) logged_same [OF l, of "m2\<lparr>mw_stream_to_channel := hm_insert sid (mw_next_channel_id m) (mw_stream_to_channel m)\<rparr>"]
    by simp
qed

text \<open>The channel of a stream: its position among the streams of the episode, from one.\<close>

definition channel_of :: "nat \<Rightarrow> stream_id list \<Rightarrow> stream_id \<Rightarrow> u16" where
  "channel_of n sids sid = of_nat (n + length (takeWhile (\<lambda>s. s \<noteq> sid) sids))"

lemma setup_streams_logged:
  assumes "mcap_logged m ms" "mw_next_channel_id m = of_nat n" "distinct sids"
  shows "\<exists>m'. mw_each (setup_stream no_fault schemas) sids m = (Inr (), m') \<and> mcap_logged m' ms \<and>
    (\<forall>sid. hm_get (mw_stream_to_channel m') sid =
       (if sid \<in> set sids then Some (channel_of n sids sid) else hm_get (mw_stream_to_channel m) sid)) \<and>
    (\<forall>sid \<in> set sids. hm_contains (mw_channels m') (channel_of n sids sid)) \<and>
    (\<forall>c. hm_contains (mw_channels m) c \<longrightarrow> hm_contains (mw_channels m') c)"
  using assms
proof (induction sids arbitrary: m n)
  case (Cons s sids)
  obtain m1 where m1: "setup_stream no_fault schemas s m = (Inr (), m1)" "mcap_logged m1 ms"
    "mw_stream_to_channel m1 = hm_insert s (of_nat n) (mw_stream_to_channel m)"
    "\<forall>c. hm_contains (mw_channels m1) c \<longleftrightarrow> c = of_nat n \<or> hm_contains (mw_channels m) c"
    "mw_next_channel_id m1 = of_nat (Suc n)"
    using setup_stream_logged [OF Cons.prems(1), of schemas s] Cons.prems(2) by (auto simp: add.commute)
  obtain m2 where m2: "mw_each (setup_stream no_fault schemas) sids m1 = (Inr (), m2)" "mcap_logged m2 ms"
    "\<forall>sid. hm_get (mw_stream_to_channel m2) sid =
       (if sid \<in> set sids then Some (channel_of (Suc n) sids sid) else hm_get (mw_stream_to_channel m1) sid)"
    "\<forall>sid \<in> set sids. hm_contains (mw_channels m2) (channel_of (Suc n) sids sid)"
    "\<forall>c. hm_contains (mw_channels m1) c \<longrightarrow> hm_contains (mw_channels m2) c"
    using Cons.IH [OF m1(2,5)] Cons.prems(3) by auto
  have ch: "channel_of n (s # sids) s = of_nat n" "\<And>sid. sid \<noteq> s \<Longrightarrow> channel_of n (s # sids) sid = channel_of (Suc n) sids sid"
    by (simp_all add: channel_of_def add.assoc)
  have "hm_get (mw_stream_to_channel m2) sid =
      (if sid \<in> set (s # sids) then Some (channel_of n (s # sids) sid) else hm_get (mw_stream_to_channel m) sid)" for sid
    using m2(3) m1(3) ch Cons.prems(3) by (cases "sid = s") simp_all
  moreover have "hm_contains (mw_channels m2) (channel_of n (s # sids) sid)" if "sid \<in> set (s # sids)" for sid
    using m2(4,5) m1(4) ch that by (cases "sid = s") simp_all
  ultimately show ?case using m1(1,4) m2(1,2,5) by (intro exI [of _ m2]) simp
qed (simp add: mw_return_def)


lemma add_attachment_logged:
  "mcap_logged m ms \<Longrightarrow> \<exists>m'. add_attachment no_fault n mt d m = (Inr (), m') \<and> mcap_logged m' ms"
  using logged_add_attachment [of m ms n mt d] logged_flush [of m ms] logged_state [of m ms]
  by (auto simp: add_attachment_def write_attachment_record_def)

lemma mw_each_logged:
  assumes "\<And>x m. x \<in> set xs \<Longrightarrow> mcap_logged m ms \<Longrightarrow> \<exists>m'. f x m = (Inr (), m') \<and> mcap_logged m' ms" "mcap_logged m ms"
  shows "\<exists>m'. mw_each f xs m = (Inr (), m') \<and> mcap_logged m' ms"
  using assms
proof (induction xs arbitrary: m)
  case (Cons x xs)
  obtain m1 where m1: "f x m = (Inr (), m1)" "mcap_logged m1 ms" using Cons.prems(1) [of x m] Cons.prems(2) by auto
  then show ?case using Cons.IH [OF _ m1(2)] Cons.prems(1) by simp
qed (simp add: mw_return_def)

lemma write_attachments_logged:
  assumes "mcap_logged m ms"
  shows "\<exists>m'. write_attachments no_fault p m = (Inr (), m') \<and> mcap_logged m' ms"
proof -
  let ?u = "case ek_urdf_data p of
      Some urdf \<Rightarrow> if pk_include_urdf (ek_config p) then add_attachment no_fault ''robot.urdf'' ''application/xml'' urdf
                   else mw_return ()
    | None \<Rightarrow> mw_return ()"
  have "\<exists>m1. ?u m = (Inr (), m1) \<and> mcap_logged m1 ms"
  proof (cases "ek_urdf_data p \<noteq> None \<and> pk_include_urdf (ek_config p)")
    case True
    then show ?thesis using add_attachment_logged [OF assms, of "''robot.urdf''" "''application/xml''"] by auto
  next
    case False
    then have "?u = mw_return ()" by (auto split: option.splits)
    then show ?thesis using assms by (simp add: mw_return_def)
  qed
  then obtain m1 where m1: "?u m = (Inr (), m1)" "mcap_logged m1 ms" by blast
  have "\<exists>m'. mw_each (\<lambda>(c, d). add_attachment no_fault (''calibration_'' @ c @ ''.yaml'') ''application/x-yaml'' d) cal m1
      = (Inr (), m') \<and> mcap_logged m' ms" for cal
    using add_attachment_logged by (intro mw_each_logged m1(2)) auto
  then show ?thesis using m1 unfolding write_attachments_def
    by (auto simp: mw_return_def split: option.splits)
qed

text \<open>The messages of an episode, as the writer sends them.\<close>

definition sent_samples :: "layout \<Rightarrow> stream_id list \<Rightarrow> data_sample list \<Rightarrow> sent list" where
  "sent_samples ly sids ss = map (\<lambda>s. (channel_of 1 sids (ds_stream_id s), ds_timestamp_ns s, to_bytes ly (ds_data s))) ss"

lemma write_episode_reads:
  assumes "distinct sids" "list_all (\<lambda>s. ds_stream_id s \<in> set sids) ss"
    "write_episode no_fault ly p sids ss info (McapWriter_new cfg) = (r, m)" "length (mw_writer m) < 2 ^ 64"
  shows "read_messages (mw_writer m) = Some (number (sent_samples ly sids ss)) \<and>
    (\<exists>st. r = Inr st \<and> st_message_count st = of_nat (length ss))"
proof -
  define m0 where "m0 = snd (mcap_start no_fault (McapWriter_new cfg))"
  have m0: "mcap_start no_fault (McapWriter_new cfg) = (Inr (), m0)" "mw_next_channel_id m0 = of_nat 1"
    by (simp_all add: m0_def mcap_start_def McapWriter_new_def mcap_write_header_def)
  obtain m1 where m1: "mw_each (setup_stream no_fault (ek_stream_schemas p)) sids m0 = (Inr (), m1)" "mcap_logged m1 []"
    "\<forall>sid. hm_get (mw_stream_to_channel m1) sid =
       (if sid \<in> set sids then Some (channel_of 1 sids sid) else hm_get (mw_stream_to_channel m0) sid)"
    "\<forall>sid \<in> set sids. hm_contains (mw_channels m1) (channel_of 1 sids sid)"
    using setup_streams_logged [OF logged_start [of cfg, folded m0_def] m0(2) assms(1), of "ek_stream_schemas p"] by blast
  obtain m2 where m2: "mw_each (write_sample no_fault ly) ss m1 = (Inr (), m2)" "mcap_logged m2 (sent_samples ly sids ss)"
    using write_samples_logged [OF m1(2), of "channel_of 1 sids" ss ly] m1(3,4) assms(2)
    unfolding sent_samples_def list_all_iff by auto
  obtain m3 where m3: "write_attachments no_fault p m2 = (Inr (), m3)" "mcap_logged m3 (sent_samples ly sids ss)"
    using write_attachments_logged [OF m2(2)] by blast
  define m4 where "m4 = snd (mcap_add_metadata no_fault ''episode_info'' info m3)"
  have m4: "mcap_add_metadata no_fault ''episode_info'' info m3 = (Inr (), m4)" "mcap_logged m4 (sent_samples ly sids ss)"
    using logged_add_metadata [OF m3(2)] logged_state [OF m3(2)]
    by (simp_all add: m4_def mcap_add_metadata_def write_metadata_record_def)
  have "write_episode no_fault ly p sids ss info (McapWriter_new cfg) = mcap_finish no_fault m4"
    using m0(1) m1(1) m2(1) m3(1) m4(1) by (simp add: write_episode_def)
  then show ?thesis
    using finished_reads [OF m4(2), of r m] assms(3,4) by (simp add: sent_samples_def)
qed

text \<open>Every sample is in the buffer of its stream; pushes and registrations keep this.\<close>

definition samples_filed :: "buffer_manager \<Rightarrow> bool" where
  "samples_filed bm \<longleftrightarrow> hm_wf (bm_buffers bm) \<and>
     list_all (\<lambda>(k, b). list_all (\<lambda>s. ds_stream_id s = k) (rb_samples b)) (bm_buffers bm)"

lemma get_range_filed:
  "samples_filed bm \<Longrightarrow> (k, b) \<in> set (bm_buffers bm) \<Longrightarrow> s \<in> set (get_range b st en) \<Longrightarrow> ds_stream_id s = k"
  by (auto simp: samples_filed_def list_all_iff get_range_def)

lemma collected_filed: "samples_filed bm \<Longrightarrow> s \<in> set (collected bm st en) \<Longrightarrow> ds_stream_id s \<in> set (stream_ids bm)"
  by (force simp: collected_def stream_ids_def hm_keys_def dest: get_range_filed)


lemma filed_insert:
  assumes "samples_filed bm" "list_all (\<lambda>s. ds_stream_id s = k) (rb_samples b)"
  shows "samples_filed (bm\<lparr>bm_buffers := hm_insert k b (bm_buffers bm)\<rparr>)"
proof -
  have "list_all (\<lambda>(k, b). list_all (\<lambda>s. ds_stream_id s = k) (rb_samples b)) (hm_insert k b m)"
    if "list_all (\<lambda>(k, b). list_all (\<lambda>s. ds_stream_id s = k) (rb_samples b)) m" for m
    using that assms(2) by (induction m) (auto simp: hm_insert_def)
  then show ?thesis using assms(1) by (simp add: samples_filed_def)
qed

lemma filed_new [simp]: "samples_filed (BufferManager_new limit)"
  by (simp add: samples_filed_def BufferManager_new_def)

lemma rb_samples_new [simp]: "rb_samples (RingBuffer_new s c age) = []"
  by (simp add: rb_samples_def RingBuffer_new_def)

lemma filed_register: "samples_filed bm \<Longrightarrow> samples_filed (snd (register_stream s c age bm))"
  by (simp add: register_stream_def filed_insert Let_def)

lemma filed_buffer:
  "samples_filed bm \<Longrightarrow> hm_get (bm_buffers bm) k = Some b \<Longrightarrow> list_all (\<lambda>s. ds_stream_id s = k) (rb_samples b)"
  by (auto simp: samples_filed_def hm_get_def list_all_iff dest!: map_of_SomeD)

lemma rb_push_samples:
  "rb_push ly s b = Some b' \<Longrightarrow> set (rb_samples b') \<subseteq> insert (s\<lparr>ds_sequence := rb_total_written b\<rparr>) (set (rb_samples b))"
  by (auto simp: rb_push_def rb_samples_def Let_def List.map_filter_def split: if_splits dest!: set_update_subset_insert [THEN subsetD])

lemma filed_push:
  assumes "samples_filed bm" "bm_push ly s bm = Some bm'"
  shows "samples_filed bm'"
proof -
  obtain b m1 where g: "get_or_create (ds_stream_id s) bm = (b, m1)" by fastforce
  have m1: "samples_filed m1" "list_all (\<lambda>x. ds_stream_id x = ds_stream_id s) (rb_samples b)"
    using g assms(1) filed_register [OF assms(1), of "ds_stream_id s" None None] filed_buffer [OF assms(1)]
    by (auto simp: get_or_create_def register_stream_def Let_def split: option.splits)
  obtain b' where b': "rb_push ly s b = Some b'"
    "bm' = m1\<lparr>bm_buffers := hm_insert (ds_stream_id s) b' (bm_buffers m1)\<rparr>"
    using assms(2) g by (auto simp: bm_push_def)
  have "list_all (\<lambda>x. ds_stream_id x = ds_stream_id s) (rb_samples b')"
    using rb_push_samples [OF b'(1)] m1(2) by (auto simp: list_all_iff)
  then show ?thesis using filed_insert [OF m1(1)] b'(2) by simp
qed


section \<open>A packaged episode\<close>

lemma last_path_join: "p \<noteq> [] \<Longrightarrow> List.last (path_join b p) = List.last p"
  by (simp add: path_join_def)

lemma episode_files_differ: "path_join b (i @ ''_metadata.json'') \<noteq> path_join b (i @ ''.mcap'')"
proof
  assume "path_join b (i @ ''_metadata.json'') = path_join b (i @ ''.mcap'')"
  then have "List.last (path_join b (i @ ''_metadata.json'')) = List.last (path_join b (i @ ''.mcap''))" by simp
  then show False by (simp add: last_path_join)
qed

lemma hm_keys_counts: "hm_keys (stream_counts bm st en) = stream_ids bm"
  by (auto simp: stream_counts_def stream_ids_def hm_keys_def)

text \<open>What a disk keeps of the two files: what \<open>BufWriter\<close> and \<open>fs::write\<close> store.\<close>

definition disk_keeps :: "'d packager_env \<Rightarrow> ('d \<Rightarrow> path \<Rightarrow> u8 list) \<Rightarrow> bool" where
  "disk_keeps env content \<longleftrightarrow> (\<forall>p bs d. content (pe_commit env p bs d) p = bs) \<and>
     (\<forall>p q t d. q \<noteq> p \<longrightarrow> content (snd (pe_write_text env q t d)) p = content d p)"

lemma write_metadata_keeps:
  assumes "write_metadata_file env i md dir cfg d = (r, d')" "disk_keeps env content"
  shows "content d' (path_join dir (i @ ''.mcap'')) = content d (path_join dir (i @ ''.mcap''))"
proof -
  have "d' = d \<or> (\<exists>json. d' = snd (pe_write_text env (path_join dir (i @ ''_metadata.json'')) json d))"
    using assms(1) by (auto simp: write_metadata_file_def Let_def split: if_splits sum.splits prod.splits) (metis snd_conv)+
  then show ?thesis using assms(2) episode_files_differ [of dir i] by (auto simp: disk_keeps_def)
qed

lemma write_package_file:
  assumes "write_package env ly i cs ss st en md dir (p, d) = (Inr r, p', d')" "disk_keeps env content"
  shows "\<exists>p1 info cfg stats m. write_episode (pe_write_oracle env) ly p1 (hm_keys cs) ss info (McapWriter_new cfg) = (Inr stats, m) \<and>
    content d' (pr_mcap_path r) = mw_writer m \<and> pr_mcap_path r = path_join dir (i @ ''.mcap'') \<and>
    pr_total_samples r = of_nat (length ss) \<and> pr_episode_id r = i"
proof -
  let ?mp = "path_join dir (i @ ''.mcap'')"
  obtain pm where pl: "privacy_loop (pe_timer env) ly (pk_streams (ek_config p)) ss 0 (ek_privacy_manager p) = (Inr (ss, 0), pm)"
    using privacy_loop_passes by blast
  define p1 where "p1 = p\<lparr>ek_privacy_manager := pm\<rparr>"
  define cfg where "cfg = (case pk_mcap_config (ek_config p1) of Some c \<Rightarrow> c | None \<Rightarrow> McapWriterConfig_default)"
  define info where "info = episode_info i st en (of_nat (length ss))"
  note defs = write_package_def p1_def [symmetric] cfg_def [symmetric] info_def [symmetric] Let_def
  obtain d1 where cf: "pe_create_file env ?mp d = (Inr (), d1)"
    using assms(1) pl by (cases "pe_create_file env ?mp d") (auto simp: defs split: sum.splits)
  obtain stats m where we: "write_episode (pe_write_oracle env) ly p1 (hm_keys cs) ss info (McapWriter_new cfg) = (Inr stats, m)"
    using assms(1) pl cf
    by (cases "write_episode (pe_write_oracle env) ly p1 (hm_keys cs) ss info (McapWriter_new cfg)")
      (auto simp: defs split: sum.splits)
  obtain mp d2 where wm: "write_metadata_file env i md dir (ek_config p1) (pe_commit env ?mp (mw_writer m) d1) = (Inr mp, d2)"
    using assms(1) pl cf we
    by (cases "write_metadata_file env i md dir (ek_config p1) (pe_commit env ?mp (mw_writer m) d1)")
      (auto simp: defs split: sum.splits)
  have "d' = d2" "pr_mcap_path r = ?mp" "pr_total_samples r = of_nat (length ss)" "pr_episode_id r = i"
    using assms(1) pl cf we wm by (auto simp: defs split: sum.splits)
  moreover have "content d2 ?mp = mw_writer m"
    using write_metadata_keeps [OF wm assms(2)] assms(2) by (simp add: disk_keeps_def)
  ultimately show ?thesis using we
    by (intro exI [of _ p1] exI [of _ info] exI [of _ cfg] exI [of _ stats] exI [of _ m]) simp
qed

lemma package_episode_writes:
  assumes "package_episode env ly i bm st en md (p, d) = (Inr r, p', d')"
  shows "\<exists>r0 p0 p1 d0 dir. write_package env ly i (stream_counts bm st en) (sort_key ds_timestamp_ns (collected bm st en))
      st en md dir (p0, d0) = (Inr r0, p1, d') \<and> pr_mcap_path r = pr_mcap_path r0 \<and> pr_total_samples r = pr_total_samples r0 \<and>
    pr_episode_id r = pr_episode_id r0"
proof -
  obtain r0 p1 where d: "do_package env ly i bm st en md (p\<lparr>ek_is_packaging := True\<rparr>, d) = (Inr r0, p1, d')"
    "r = r0\<lparr>pr_packaging_time_ms := pe_elapsed_ms env\<rparr>"
    using assms by (auto simp: package_episode_def split: if_splits prod.splits sum.splits)
  then have "\<exists>p0 d0 dir. write_package env ly i (stream_counts bm st en) (sort_key ds_timestamp_ns (collected bm st en))
      st en md dir (p0, d0) = (Inr r0, p1, d')"
    by (auto simp: do_package_def Let_def split: if_splits prod.splits sum.splits)
  then show ?thesis using d(2) by (intro exI [of _ r0]) auto
qed

lemma package_reads_back:
  assumes "pe_write_oracle env = no_fault" "disk_keeps env content" "samples_filed bm"
    "package_episode env ly i bm st en md (p, d) = (Inr r, p', d')"
  shows "(length (content d' (pr_mcap_path r)) < 2 ^ 64 \<longrightarrow>
      read_messages (content d' (pr_mcap_path r)) =
        Some (number (sent_samples ly (stream_ids bm) (sort_key ds_timestamp_ns (collected bm st en))))) \<and>
    pr_total_samples r = of_nat (length (collected bm st en)) \<and> pr_episode_id r = i"
proof -
  let ?ss = "sort_key ds_timestamp_ns (collected bm st en)"
  obtain r0 p0 p1 d0 dir where w: "write_package env ly i (stream_counts bm st en) ?ss st en md dir (p0, d0) = (Inr r0, p1, d')"
    "pr_mcap_path r = pr_mcap_path r0" "pr_total_samples r = pr_total_samples r0" "pr_episode_id r = pr_episode_id r0"
    using package_episode_writes [OF assms(4)] by blast
  from write_package_file [OF w(1) assms(2)] obtain p2 info cfg stats m where m:
    "write_episode no_fault ly p2 (stream_ids bm) ?ss info (McapWriter_new cfg) = (Inr stats, m)"
    "content d' (pr_mcap_path r) = mw_writer m" "pr_total_samples r0 = of_nat (length ?ss)" "pr_episode_id r0 = i"
    using w(2) assms(1) by (auto simp: hm_keys_counts)
  have "distinct (stream_ids bm)" using assms(3) by (simp add: samples_filed_def stream_ids_def hm_keys_def hm_wf_def)
  moreover have "list_all (\<lambda>s. ds_stream_id s \<in> set (stream_ids bm)) ?ss"
    using collected_filed [OF assms(3)] by (auto simp: list_all_iff)
  ultimately show ?thesis using write_episode_reads [OF _ _ m(1)] m(2-4) w(3,4) by auto
qed

text \<open>
  C39. When an episode is packaged and no write fails, the file on the disk, read back with the reader of
  the format, holds exactly the samples of the buffers whose timestamps lie in the episode, ordered by
  timestamp, each on the channel of its stream and with its bytes unchanged, and the result counts them.
\<close>

theorem packaged_episode_reads_back:
  assumes "pe_write_oracle env = no_fault" "disk_keeps env content" "samples_filed bm"
    "package_episode env ly i bm st en md (p, d) = (Inr r, p', d')" "length (content d' (pr_mcap_path r)) < 2 ^ 64"
  shows "read_messages (content d' (pr_mcap_path r)) =
      Some (number (sent_samples ly (stream_ids bm) (sort_key ds_timestamp_ns (collected bm st en)))) \<and>
    pr_total_samples r = of_nat (length (collected bm st en))"
  using package_reads_back [OF assms(1-4)] assms(5) by blast

definition example_disk :: "(path \<Rightarrow> u8 list) packager_env" where
  "example_disk =
     \<lparr>pe_create_dir_all = (\<lambda>p d. (Inr (), d)), pe_create_file = (\<lambda>p d. (Inr (), d(p := []))),
      pe_commit = (\<lambda>p bs d. d(p := bs)), pe_write_text = (\<lambda>p t d. (Inr (), d(p := utf8_bytes t))),
      pe_file_len = (\<lambda>p d. Inr (of_nat (length (d p)))), pe_metadata_json = (\<lambda>m. Inr ''{}''), pe_write_oracle = no_fault,
      pe_timer = (\<lambda>f. 0), pe_elapsed_ms = 0\<rparr>"

definition example_sample :: data_sample where
  "example_sample = DataSample_new ''imu'' 50 (Binary [7, 8])"

definition example_buffers :: buffer_manager where
  "example_buffers = (BufferManager_new 0)\<lparr>bm_buffers :=
     [(''imu'', (RingBuffer_new ''imu'' 1 60)\<lparr>rb_storage := [Some example_sample]\<rparr>)]\<rparr>"

definition example_metadata :: episode_metadata where
  "example_metadata = EpisodeMetadata_new 0 ''ep'' ''robot'' TriggerInfo_manual"

definition example_packager :: episode_packager where
  "example_packager = EpisodePackager_new PackagerConfig_default"

abbreviation example_package :: "(packager_error + package_result) \<times> episode_packager \<times> (path \<Rightarrow> u8 list)" where
  "example_package \<equiv> package_episode example_disk example_layout ''ep'' example_buffers 0 90 example_metadata
     (example_packager, \<lambda>p. [])"

lemma example_episode_written:
  assumes "ek_stream_schemas p = []" "ek_urdf_data p = None" "ek_calibration_data p = None"
    "write_episode no_fault example_layout p [''imu''] [example_sample] info (McapWriter_new McapWriterConfig_default) = (r, m)"
  shows "\<not> isl r" "length (mw_writer m) < 1500 + length (prefixed_map info)"
  using assms
  by (auto simp: write_episode_def setup_stream_def example_sample_def DataSample_new_def
      example_layout_def write_sample_def mcap_register_stream_def write_attachments_def EpisodePackager_new_def
      mcap_session_defs mcap_lengths MCAP_MAGIC_def hm_len_insert hm_len_def [of "[]"] utf8_bytes_def)

lemma example_info_small: "length (prefixed_map (episode_info ''ep'' 0 90 1)) < 1000"
  by (simp add: episode_info_def prefixed_map_length show_nat.simps)

lemma example_collected: "collected example_buffers 0 90 = [example_sample]" "stream_ids example_buffers = [''imu'']"
  "stream_counts example_buffers 0 90 = [(''imu'', 1)]"
  by (simp_all add: collected_def stream_ids_def stream_counts_def hm_keys_def example_buffers_def get_range_def rb_samples_def
      List.map_filter_def in_range_def example_sample_def DataSample_new_def)

lemma not_image: "\<not> is_image_stream [] ''imu''"
  by code_simp

lemma small_package:
  assumes "collected bm 0 90 = [example_sample]" "stream_counts bm 0 90 = [(''imu'', 1)]" "\<not> ek_is_packaging p"
    "ek_stream_schemas p = []" "ek_urdf_data p = None" "ek_calibration_data p = None" "pk_mcap_config (ek_config p) = None"
    "\<not> is_image_stream (pk_streams (ek_config p)) ''imu''"
  shows "\<exists>r p' d'. package_episode example_disk example_layout ''ep'' bm 0 90 md (p, d) = (Inr r, p', d') \<and>
    length (d' (pr_mcap_path r)) < 2 ^ 64"
proof -
  define p0 where "p0 = p\<lparr>ek_is_packaging := True\<rparr>"
  let ?dir = "path_join (pk_output_dir (ek_config p)) ''ep''"
  have pl: "privacy_loop (\<lambda>f. 0) example_layout (pk_streams (ek_config p0)) [example_sample] 0 (ek_privacy_manager p0) =
      (Inr ([example_sample], 0), ek_privacy_manager p0)"
    using assms(8) by (simp add: p0_def example_sample_def DataSample_new_def)
  have p0: "ek_config p0 = ek_config p" "ek_stream_schemas p0 = []" "ek_urdf_data p0 = None" "ek_calibration_data p0 = None"
    using assms(4-6) by (simp_all add: p0_def)
  obtain r m where w: "write_episode no_fault example_layout p0 [''imu''] [example_sample] (episode_info ''ep'' 0 90 1)
      (McapWriter_new McapWriterConfig_default) = (r, m)" by fastforce
  note e = example_episode_written [OF p0(2-4) w]
  then obtain st where "r = Inr st" by (cases r) auto
  have "\<exists>r0 d1. do_package example_disk example_layout ''ep'' bm 0 90 md (p0, d) = (Inr r0, p0, d1) \<and>
      d1 (pr_mcap_path r0) = mw_writer m"
    using pl p0 w \<open>r = Inr st\<close> episode_files_differ [of ?dir "''ep''"]
    by (simp add: do_package_def write_package_def write_metadata_file_def example_disk_def assms(1,2,7)
        hm_keys_def Let_def del: privacy_loop.simps)
  then show ?thesis using e(2) example_info_small assms(3)
    by (auto simp: package_episode_def p0_def)
qed

lemma example_package_ok:
  "\<exists>r p' d'. example_package = (Inr r, p', d') \<and> length (d' (pr_mcap_path r)) < 2 ^ 64"
  by (rule small_package)
    (simp_all add: example_collected not_image example_packager_def EpisodePackager_new_def PackagerConfig_default_def)

theorem packaged_episode_reads_back_witness:
  "\<exists>r p' d'. example_package = (Inr r, p', d') \<and>
     read_messages (d' (pr_mcap_path r)) =
       Some [\<lparr>mg_channel = 1, mg_sequence = 1, mg_log_time = 50, mg_publish_time = 50, mg_data = [7, 8]\<rparr>]"
proof -
  obtain r p' d' where r: "example_package = (Inr r, p', d')" "length (d' (pr_mcap_path r)) < 2 ^ 64"
    using example_package_ok by blast
  have k: "pe_write_oracle example_disk = no_fault" "disk_keeps example_disk (\<lambda>d. d)" "samples_filed example_buffers"
    by (simp_all add: example_disk_def disk_keeps_def samples_filed_def example_buffers_def rb_samples_def List.map_filter_def
        example_sample_def DataSample_new_def hm_wf_def)
  from packaged_episode_reads_back [where content = "\<lambda>d. d", OF k r] show ?thesis using r(1)
    by (simp add: example_collected sent_samples_def channel_of_def example_sample_def DataSample_new_def number_def stamped_def
        enumerate_simps example_layout_def)
qed

end
