(* ===== verification/Triggers.thy ===== *)
theory Triggers
  imports Samples
begin

text \<open>
  The triggers of the data collection plugin (\<open>robotics/data_collection/triggers.rs\<close> and
  \<open>trigger_impl.rs\<close>): the events and the context of an evaluation, the six implementations of the
  trait \<open>Trigger\<close>, and the manager that evaluates them with a cooldown. Times are 64-bit words and
  their sums wrap around, as they do in a release build. The decimal text of a float is a parameter.
  The trait is the locale \<open>trigger_contract\<close>; the manager's loop is generic in its operations.
\<close>

section \<open>Events and contexts\<close>

type_synonym trigger_id = string
type_synonym trigger_priority = priority

datatype trigger_error = TriggerNotFound string | AlreadyRegistered string | InvalidTriggerConfig string
  | EvaluationFailed string

datatype trigger_type = TtTeleop | TtFailure | TtAnomaly | TtPeriodic | TtManual | TtCustom

fun trigger_type_str :: "trigger_type \<Rightarrow> string" where
  "trigger_type_str TtTeleop = ''teleop''"
| "trigger_type_str TtFailure = ''failure''"
| "trigger_type_str TtAnomaly = ''anomaly''"
| "trigger_type_str TtPeriodic = ''periodic''"
| "trigger_type_str TtManual = ''manual''"
| "trigger_type_str TtCustom = ''custom''"

record trigger_event =
  te_trigger_id :: trigger_id
  te_trigger_type :: trigger_type
  te_timestamp_ns :: timestamp_ns
  te_priority :: trigger_priority
  te_reason :: string
  te_metadata :: "(string, string) hmap"
  te_pre_roll_ns :: u64
  te_post_roll_ns :: u64

definition TriggerEvent_new :: "trigger_id \<Rightarrow> trigger_type \<Rightarrow> timestamp_ns \<Rightarrow> string \<Rightarrow> trigger_event" where
  "TriggerEvent_new trigger_id trigger_type timestamp_ns reason =
     \<lparr>te_trigger_id = trigger_id, te_trigger_type = trigger_type, te_timestamp_ns = timestamp_ns,
      te_priority = NormalPrio, te_reason = reason, te_metadata = [],
      te_pre_roll_ns = 5000000000, te_post_roll_ns = 5000000000\<rparr>"

definition with_metadata :: "string \<Rightarrow> string \<Rightarrow> trigger_event \<Rightarrow> trigger_event" where
  "with_metadata key val e = e\<lparr>te_metadata := hm_insert key val (te_metadata e)\<rparr>"

definition suggested_duration_ns :: "trigger_event \<Rightarrow> u64" where
  "suggested_duration_ns e = te_pre_roll_ns e + te_post_roll_ns e"

record trigger_context =
  tc_timestamp_ns :: timestamp_ns
  tc_is_teleop_active :: bool
  tc_anomaly_score :: f32
  tc_failure_detected :: bool
  tc_failure_reason :: "string option"
  tc_time_since_last_trigger_ns :: u64
  tc_signals :: "(string, f64) hmap"

definition TriggerContext_new :: "timestamp_ns \<Rightarrow> trigger_context" where
  "TriggerContext_new timestamp_ns =
     \<lparr>tc_timestamp_ns = timestamp_ns, tc_is_teleop_active = False, tc_anomaly_score = 0,
      tc_failure_detected = False, tc_failure_reason = None, tc_time_since_last_trigger_ns = - 1,
      tc_signals = []\<rparr>"

definition clamp01 :: "f32 \<Rightarrow> f32" where
  "clamp01 x = (if x < 0 then 0 else if x > 1 then 1 else x)"

definition with_teleop :: "bool \<Rightarrow> trigger_context \<Rightarrow> trigger_context" where
  "with_teleop active c = c\<lparr>tc_is_teleop_active := active\<rparr>"

definition with_anomaly :: "f32 \<Rightarrow> trigger_context \<Rightarrow> trigger_context" where
  "with_anomaly score c = c\<lparr>tc_anomaly_score := clamp01 score\<rparr>"

definition with_failure :: "bool \<Rightarrow> string option \<Rightarrow> trigger_context \<Rightarrow> trigger_context" where
  "with_failure detected reason c = c\<lparr>tc_failure_detected := detected, tc_failure_reason := reason\<rparr>"

definition with_signal :: "string \<Rightarrow> f64 \<Rightarrow> trigger_context \<Rightarrow> trigger_context" where
  "with_signal name val c = c\<lparr>tc_signals := hm_insert name val (tc_signals c)\<rparr>"

section \<open>The implementations\<close>

datatype comparison = GreaterThan | GreaterThanOrEqual | LessThan | LessThanOrEqual | Equal

fun compare_signal :: "comparison \<Rightarrow> f64 \<Rightarrow> f64 \<Rightarrow> bool" where
  "compare_signal GreaterThan val threshold = (val > threshold)"
| "compare_signal GreaterThanOrEqual val threshold = (val \<ge> threshold)"
| "compare_signal LessThan val threshold = (val < threshold)"
| "compare_signal LessThanOrEqual val threshold = (val \<le> threshold)"
| "compare_signal Equal val threshold = (\<bar>val - threshold\<bar> < 1 / 2 ^ 52)"

fun comparison_str :: "comparison \<Rightarrow> string" where
  "comparison_str GreaterThan = ''>''"
| "comparison_str GreaterThanOrEqual = ''>=''"
| "comparison_str LessThan = ''<''"
| "comparison_str LessThanOrEqual = ''<=''"
| "comparison_str Equal = ''==''"

text \<open>The fields that all implementations have, and the fields of each.\<close>

datatype trigger_kind =
    Teleop bool
  | Failure
  | Anomaly f32
  | Periodic u64 u64
  | Manual bool "string option"
  | SignalThreshold string f64 comparison

record trigger =
  tr_id :: trigger_id
  tr_priority :: trigger_priority
  tr_pre_roll_ns :: u64
  tr_post_roll_ns :: u64
  tr_enabled :: bool
  tr_kind :: trigger_kind

definition TeleopTrigger_new :: "string \<Rightarrow> trigger" where
  "TeleopTrigger_new tid = \<lparr>tr_id = tid, tr_priority = HighPrio, tr_pre_roll_ns = 2000000000,
     tr_post_roll_ns = 10000000000, tr_enabled = True, tr_kind = Teleop False\<rparr>"

definition FailureTrigger_new :: "string \<Rightarrow> trigger" where
  "FailureTrigger_new tid = \<lparr>tr_id = tid, tr_priority = CriticalPrio, tr_pre_roll_ns = 10000000000,
     tr_post_roll_ns = 5000000000, tr_enabled = True, tr_kind = Failure\<rparr>"

definition AnomalyTrigger_new :: "string \<Rightarrow> f32 \<Rightarrow> trigger" where
  "AnomalyTrigger_new tid threshold = \<lparr>tr_id = tid, tr_priority = HighPrio, tr_pre_roll_ns = 5000000000,
     tr_post_roll_ns = 5000000000, tr_enabled = True, tr_kind = Anomaly (clamp01 threshold)\<rparr>"

definition PeriodicTrigger_new :: "string \<Rightarrow> u64 \<Rightarrow> trigger" where
  "PeriodicTrigger_new tid interval_ns = \<lparr>tr_id = tid, tr_priority = LowPrio, tr_pre_roll_ns = 5000000000,
     tr_post_roll_ns = 25000000000, tr_enabled = True, tr_kind = Periodic interval_ns (- 1)\<rparr>"

definition with_interval_secs :: "string \<Rightarrow> u64 \<Rightarrow> trigger" where
  "with_interval_secs tid interval_secs = PeriodicTrigger_new tid (interval_secs * 1000000000)"

definition ManualTrigger_new :: "string \<Rightarrow> trigger" where
  "ManualTrigger_new tid = \<lparr>tr_id = tid, tr_priority = NormalPrio, tr_pre_roll_ns = 5000000000,
     tr_post_roll_ns = 5000000000, tr_enabled = True, tr_kind = Manual False None\<rparr>"

definition SignalThresholdTrigger_new :: "string \<Rightarrow> string \<Rightarrow> comparison \<Rightarrow> f64 \<Rightarrow> trigger" where
  "SignalThresholdTrigger_new tid signal_name cmp threshold = \<lparr>tr_id = tid, tr_priority = NormalPrio,
     tr_pre_roll_ns = 5000000000, tr_post_roll_ns = 5000000000, tr_enabled = True,
     tr_kind = SignalThreshold signal_name threshold cmp\<rparr>"

fun tr_type :: "trigger_kind \<Rightarrow> trigger_type" where
  "tr_type (Teleop _) = TtTeleop"
| "tr_type Failure = TtFailure"
| "tr_type (Anomaly _) = TtAnomaly"
| "tr_type (Periodic _ _) = TtPeriodic"
| "tr_type (Manual _ _) = TtManual"
| "tr_type (SignalThreshold _ _ _) = TtCustom"

record float_format =
  ff_fixed3 :: "f64 \<Rightarrow> string"
  ff_show :: "f64 \<Rightarrow> string"

definition trigger_fires :: "trigger \<Rightarrow> trigger_context \<Rightarrow> string \<Rightarrow> trigger_event" where
  "trigger_fires t context reason =
     (TriggerEvent_new (tr_id t) (tr_type (tr_kind t)) (tc_timestamp_ns context) reason)
       \<lparr>te_priority := tr_priority t, te_pre_roll_ns := tr_pre_roll_ns t, te_post_roll_ns := tr_post_roll_ns t\<rparr>"

text \<open>\<open>Trigger::evaluate\<close>, one definition for each implementation, and the call through the trait object.\<close>

definition evaluate_teleop :: "trigger_context \<Rightarrow> trigger \<Rightarrow> bool \<Rightarrow> trigger_event option \<times> trigger" where
  "evaluate_teleop context t was =
     (let t' = t\<lparr>tr_kind := Teleop (tc_is_teleop_active context)\<rparr> in
      (if tc_is_teleop_active context \<and> \<not> was
       then Some (with_metadata ''trigger_edge'' ''rising'' (trigger_fires t context ''Teleoperation started''))
       else None, t'))"

definition evaluate_failure :: "trigger_context \<Rightarrow> trigger \<Rightarrow> trigger_event option \<times> trigger" where
  "evaluate_failure context t =
     (if tc_failure_detected context
      then let reason = (case tc_failure_reason context of Some r \<Rightarrow> r | None \<Rightarrow> ''Unknown failure'') in
           Some (with_metadata ''failure_reason'' reason (trigger_fires t context reason))
      else None, t)"

definition evaluate_anomaly :: "float_format \<Rightarrow> trigger_context \<Rightarrow> trigger \<Rightarrow> f32 \<Rightarrow> trigger_event option \<times> trigger" where
  "evaluate_anomaly ff context t threshold =
     (if tc_anomaly_score context \<ge> threshold
      then Some (with_metadata ''threshold'' (ff_show ff threshold)
             (with_metadata ''anomaly_score'' (ff_show ff (tc_anomaly_score context))
               (trigger_fires t context (''Anomaly detected: score '' @ ff_fixed3 ff (tc_anomaly_score context) @
                  '' >= threshold '' @ ff_fixed3 ff threshold))))
      else None, t)"

definition evaluate_periodic :: "trigger_context \<Rightarrow> trigger \<Rightarrow> u64 \<Rightarrow> u64 \<Rightarrow> trigger_event option \<times> trigger" where
  "evaluate_periodic context t interval_ns last_fire =
     (if last_fire = - 1 \<or> tc_timestamp_ns context \<ge> last_fire + interval_ns
      then (Some (with_metadata ''interval_ns'' (show_nat (unat interval_ns)) (trigger_fires t context ''Periodic capture'')),
            t\<lparr>tr_kind := Periodic interval_ns (tc_timestamp_ns context)\<rparr>)
      else (None, t))"

definition evaluate_manual :: "trigger_context \<Rightarrow> trigger \<Rightarrow> bool \<Rightarrow> string option \<Rightarrow> trigger_event option \<times> trigger" where
  "evaluate_manual context t pending pending_reason =
     (if pending
      then let reason = (case pending_reason of Some r \<Rightarrow> r | None \<Rightarrow> ''Manual trigger'') in
           (Some (with_metadata ''manual_reason'' reason (trigger_fires t context reason)),
            t\<lparr>tr_kind := Manual False None\<rparr>)
      else (None, t))"

definition evaluate_signal ::
  "float_format \<Rightarrow> trigger_context \<Rightarrow> trigger \<Rightarrow> string \<Rightarrow> f64 \<Rightarrow> comparison \<Rightarrow> trigger_event option \<times> trigger" where
  "evaluate_signal ff context t signal_name threshold cmp =
     (case hm_get (tc_signals context) signal_name of
        Some val \<Rightarrow>
          if compare_signal cmp val threshold
          then Some (with_metadata ''threshold'' (ff_show ff threshold)
                 (with_metadata ''signal_value'' (ff_show ff val)
                   (with_metadata ''signal_name'' signal_name
                     (trigger_fires t context (''Signal '' @ quoted signal_name @ '' '' @ comparison_str cmp @ '' '' @
                        ff_show ff threshold @ '' (value: '' @ ff_show ff val @ '')'')))))
          else None
      | None \<Rightarrow> None, t)"

definition evaluate_trigger :: "float_format \<Rightarrow> trigger_context \<Rightarrow> trigger \<Rightarrow> trigger_event option \<times> trigger" where
  "evaluate_trigger ff context t =
     (case tr_kind t of
        Teleop was \<Rightarrow> evaluate_teleop context t was
      | Failure \<Rightarrow> evaluate_failure context t
      | Anomaly threshold \<Rightarrow> evaluate_anomaly ff context t threshold
      | Periodic interval_ns last_fire \<Rightarrow> evaluate_periodic context t interval_ns last_fire
      | Manual pending pending_reason \<Rightarrow> evaluate_manual context t pending pending_reason
      | SignalThreshold signal_name threshold cmp \<Rightarrow> evaluate_signal ff context t signal_name threshold cmp)"

lemmas evaluate_defs = evaluate_trigger_def evaluate_teleop_def evaluate_failure_def evaluate_anomaly_def
  evaluate_periodic_def evaluate_manual_def evaluate_signal_def

definition reset_trigger :: "trigger \<Rightarrow> trigger" where
  "reset_trigger t =
     (case tr_kind t of
        Teleop _ \<Rightarrow> t\<lparr>tr_kind := Teleop False\<rparr>
      | Periodic interval_ns _ \<Rightarrow> t\<lparr>tr_kind := Periodic interval_ns (- 1)\<rparr>
      | Manual _ _ \<Rightarrow> t\<lparr>tr_kind := Manual False None\<rparr>
      | _ \<Rightarrow> t)"

definition set_enabled :: "bool \<Rightarrow> trigger \<Rightarrow> trigger" where
  "set_enabled enabled t = t\<lparr>tr_enabled := enabled\<rparr>"

text \<open>\<open>ManualTrigger::request\<close>, \<open>cancel\<close> and \<open>has_pending\<close>, on the fields of a manual trigger.\<close>

fun request_manual :: "string \<Rightarrow> trigger_kind \<Rightarrow> trigger_kind" where
  "request_manual reason (Manual _ _) = Manual True (Some reason)"
| "request_manual reason k = k"

fun cancel_manual :: "trigger_kind \<Rightarrow> trigger_kind" where
  "cancel_manual (Manual _ _) = Manual False None"
| "cancel_manual k = k"

fun has_pending :: "trigger_kind \<Rightarrow> bool" where
  "has_pending (Manual pending _) = pending"
| "has_pending _ = False"

definition roll_metadata :: "trigger \<Rightarrow> (string, string) hmap" where
  "roll_metadata t = [(''pre_roll_ns'', show_nat (unat (tr_pre_roll_ns t))), (''post_roll_ns'', show_nat (unat (tr_post_roll_ns t)))]"

definition config_metadata :: "float_format \<Rightarrow> trigger \<Rightarrow> (string, string) hmap" where
  "config_metadata ff t =
     (case tr_kind t of
        Teleop _ \<Rightarrow> roll_metadata t
      | Failure \<Rightarrow> roll_metadata t
      | Anomaly threshold \<Rightarrow> (''threshold'', ff_show ff threshold) # roll_metadata t
      | Periodic interval_ns _ \<Rightarrow> (''interval_ns'', show_nat (unat interval_ns)) # roll_metadata t
      | Manual _ _ \<Rightarrow> []
      | SignalThreshold signal_name threshold cmp \<Rightarrow>
          [(''signal_name'', signal_name), (''threshold'', ff_show ff threshold), (''comparison'', comparison_str cmp)])"

section \<open>The manager\<close>

record 't trigger_manager =
  tm_triggers :: "(trigger_id, 't) hmap"
  tm_active :: bool
  tm_last_trigger_times :: "(trigger_id, timestamp_ns) hmap"
  tm_cooldown_ns :: u64
  tm_enabled :: bool

definition TriggerManager_new :: "'t trigger_manager" where
  "TriggerManager_new =
     \<lparr>tm_triggers = [], tm_active = True, tm_last_trigger_times = [], tm_cooldown_ns = 1000000000, tm_enabled = True\<rparr>"

definition with_cooldown :: "u64 \<Rightarrow> 't trigger_manager \<Rightarrow> 't trigger_manager" where
  "with_cooldown cooldown_ns m = m\<lparr>tm_cooldown_ns := cooldown_ns\<rparr>"

definition tm_register :: "('t \<Rightarrow> trigger_id) \<Rightarrow> 't \<Rightarrow> 't trigger_manager \<Rightarrow> (trigger_error + unit) \<times> 't trigger_manager" where
  "tm_register ident t m =
     (let tid = ident t in
      if hm_contains (tm_triggers m) tid then (Inl (AlreadyRegistered tid), m)
      else (Inr (), m\<lparr>tm_triggers := hm_insert tid t (tm_triggers m)\<rparr>))"

definition tm_unregister :: "trigger_id \<Rightarrow> 't trigger_manager \<Rightarrow> (trigger_error + unit) \<times> 't trigger_manager" where
  "tm_unregister tid m =
     (if hm_contains (tm_triggers m) tid
      then (Inr (), m\<lparr>tm_triggers := hm_remove tid (tm_triggers m)\<rparr>)
      else (Inl (TriggerNotFound tid), m))"

definition in_cooldown :: "'t trigger_manager \<Rightarrow> trigger_context \<Rightarrow> trigger_id \<Rightarrow> bool" where
  "in_cooldown m context tid =
     (case hm_get (tm_last_trigger_times m) tid of
        Some last_time \<Rightarrow> tc_timestamp_ns context < last_time + tm_cooldown_ns m
      | None \<Rightarrow> False)"

text \<open>The loop of \<open>evaluate\<close>; an evaluation changes the state of its trigger.\<close>

fun evaluate_loop ::
  "('t \<Rightarrow> bool) \<Rightarrow> (trigger_context \<Rightarrow> 't \<Rightarrow> trigger_event option \<times> 't) \<Rightarrow> 't trigger_manager \<Rightarrow> trigger_context \<Rightarrow>
   (trigger_id, 't) hmap \<Rightarrow> trigger_event list \<times> (trigger_id, 't) hmap" where
  "evaluate_loop is_on eval m context [] = ([], [])"
| "evaluate_loop is_on eval m context ((tid, t) # ts) =
     (let (events, ts') = evaluate_loop is_on eval m context ts in
      if \<not> is_on t \<or> in_cooldown m context tid then (events, (tid, t) # ts')
      else case eval context t of
             (Some event, t') \<Rightarrow> (event # events, (tid, t') # ts')
           | (None, t') \<Rightarrow> (events, (tid, t') # ts'))"

text \<open>A stable sort, highest priority first.\<close>

definition sort_events :: "trigger_event list \<Rightarrow> trigger_event list" where
  "sort_events events = sort_key (\<lambda>e. - int (priority_rank (te_priority e))) events"

definition tm_evaluate ::
  "('t \<Rightarrow> bool) \<Rightarrow> (trigger_context \<Rightarrow> 't \<Rightarrow> trigger_event option \<times> 't) \<Rightarrow> trigger_context \<Rightarrow> 't trigger_manager \<Rightarrow>
   trigger_event list \<times> 't trigger_manager" where
  "tm_evaluate is_on eval context m =
     (if \<not> tm_enabled m then ([], m)
      else let (events, ts) = evaluate_loop is_on eval m context (tm_triggers m) in
           (sort_events events, m\<lparr>tm_triggers := ts\<rparr>))"

definition record_trigger_fired :: "trigger_event list \<Rightarrow> 't trigger_manager \<Rightarrow> 't trigger_manager" where
  "record_trigger_fired events m =
     m\<lparr>tm_last_trigger_times :=
        fold (\<lambda>event. hm_insert (te_trigger_id event) (te_timestamp_ns event)) events (tm_last_trigger_times m)\<rparr>"

definition reset_all :: "('t \<Rightarrow> 't) \<Rightarrow> 't trigger_manager \<Rightarrow> 't trigger_manager" where
  "reset_all reset m =
     m\<lparr>tm_triggers := map (\<lambda>(k, t). (k, reset t)) (tm_triggers m), tm_last_trigger_times := []\<rparr>"

record trigger_stats =
  ts_total_triggers :: nat
  ts_enabled_triggers :: nat
  ts_triggers_fired :: nat

definition tm_stats :: "('t \<Rightarrow> bool) \<Rightarrow> 't trigger_manager \<Rightarrow> trigger_stats" where
  "tm_stats is_on m =
     \<lparr>ts_total_triggers = length (tm_triggers m),
      ts_enabled_triggers = length (filter is_on (hm_values (tm_triggers m))),
      ts_triggers_fired = length (tm_last_trigger_times m)\<rparr>"

section \<open>The contract of a trigger and its client\<close>

definition tm_wf :: "('t \<Rightarrow> trigger_id) \<Rightarrow> 't trigger_manager \<Rightarrow> bool" where
  "tm_wf ident m = (hm_wf (tm_triggers m) \<and> (\<forall>(k, t) \<in> set (tm_triggers m). ident t = k))"

text \<open>One round of the plugin: evaluate, then record what fired.\<close>

definition tm_step ::
  "('t \<Rightarrow> bool) \<Rightarrow> (trigger_context \<Rightarrow> 't \<Rightarrow> trigger_event option \<times> 't) \<Rightarrow> trigger_context \<Rightarrow> 't trigger_manager \<Rightarrow>
   trigger_event list \<times> 't trigger_manager" where
  "tm_step is_on eval context m =
     (let (events, m1) = tm_evaluate is_on eval context m in (events, record_trigger_fired events m1))"

fun tm_run ::
  "('t \<Rightarrow> bool) \<Rightarrow> (trigger_context \<Rightarrow> 't \<Rightarrow> trigger_event option \<times> 't) \<Rightarrow> trigger_context list \<Rightarrow> 't trigger_manager \<Rightarrow>
   trigger_event list list" where
  "tm_run is_on eval [] m = []"
| "tm_run is_on eval (c # cs) m =
     (let (events, m') = tm_step is_on eval c m in events # tm_run is_on eval cs m')"

locale trigger_contract =
  fixes ident :: "'t \<Rightarrow> trigger_id"
    and is_on :: "'t \<Rightarrow> bool"
    and eval :: "trigger_context \<Rightarrow> 't \<Rightarrow> trigger_event option \<times> 't"
    and reset :: "'t \<Rightarrow> 't"
  assumes eval_ident: "ident (snd (eval c t)) = ident t"
    and eval_on: "is_on (snd (eval c t)) = is_on t"
    and event_id: "fst (eval c t) = Some e \<Longrightarrow> te_trigger_id e = ident t"
    and event_time: "fst (eval c t) = Some e \<Longrightarrow> te_timestamp_ns e = tc_timestamp_ns c"
    and reset_ident: "ident (reset t) = ident t"
    and reset_on: "is_on (reset t) = is_on t"
begin

lemma loop_triggers:
  "map fst (snd (evaluate_loop is_on eval m c ts)) = map fst ts
   \<and> (list_all (\<lambda>(k, t). ident t = k) ts \<longrightarrow> list_all (\<lambda>(k, t). ident t = k) (snd (evaluate_loop is_on eval m c ts)))"
proof (induction ts)
  case (Cons kt ts)
  obtain k t where kt: "kt = (k, t)" by (cases kt)
  obtain o' t' where e: "eval c t = (o', t')" by (cases "eval c t")
  obtain es ts' where l: "evaluate_loop is_on eval m c ts = (es, ts')" by (cases "evaluate_loop is_on eval m c ts")
  show ?case
    using Cons e l eval_ident [of c t] by (auto simp: kt split: option.splits)
qed simp

lemma loop_events:
  "list_all (\<lambda>(k, t). ident t = k) ts \<Longrightarrow> e \<in> set (fst (evaluate_loop is_on eval m c ts)) \<Longrightarrow>
   te_trigger_id e \<in> set (map fst ts) \<and> \<not> in_cooldown m c (te_trigger_id e) \<and> te_timestamp_ns e = tc_timestamp_ns c"
proof (induction ts)
  case (Cons kt ts)
  obtain k t where kt: "kt = (k, t)" by (cases kt)
  obtain o' t' where e: "eval c t = (o', t')" by (cases "eval c t")
  obtain es ts' where l: "evaluate_loop is_on eval m c ts = (es, ts')" by (cases "evaluate_loop is_on eval m c ts")
  show ?case
    using Cons e l event_id [of c t] event_time [of c t]
    by (auto simp: kt split: if_splits option.splits)
qed simp

lemma loop_distinct:
  "list_all (\<lambda>(k, t). ident t = k) ts \<Longrightarrow> distinct (map fst ts) \<Longrightarrow>
   distinct (map te_trigger_id (fst (evaluate_loop is_on eval m c ts)))"
proof (induction ts)
  case (Cons kt ts)
  obtain k t where kt: "kt = (k, t)" by (cases kt)
  obtain o' t' where e: "eval c t = (o', t')" by (cases "eval c t")
  obtain es ts' where l: "evaluate_loop is_on eval m c ts = (es, ts')" by (cases "evaluate_loop is_on eval m c ts")
  have "te_trigger_id e \<in> set (map fst ts)" if "e \<in> set es" for e
    using loop_events [of ts e m c] that l Cons.prems(1) by (simp add: kt)
  with Cons e l event_id [of c t] show ?case
    by (auto simp: kt split: if_splits option.splits)
qed simp

lemma set_sort_events [simp]: "set (sort_events es) = set es"
  by (simp add: sort_events_def)

lemma tm_wf_alt: "tm_wf ident m \<longleftrightarrow> distinct (map fst (tm_triggers m)) \<and> list_all (\<lambda>(k, t). ident t = k) (tm_triggers m)"
  by (auto simp: tm_wf_def hm_wf_def list_all_iff)

lemma tm_wf_new: "tm_wf ident TriggerManager_new"
  by (simp add: tm_wf_def TriggerManager_new_def)

lemma tm_wf_register: "tm_wf ident m \<Longrightarrow> tm_wf ident (snd (tm_register ident t m))"
  by (auto simp: tm_wf_def tm_register_def Let_def hm_mem_iff hm_get_insert split: if_splits)
    (auto dest!: hm_get_Some_mem)

lemma tm_wf_unregister: "tm_wf ident m \<Longrightarrow> tm_wf ident (snd (tm_unregister i m))"
  by (auto simp: tm_wf_def tm_unregister_def hm_remove_def hm_wf_filter)

lemma tm_wf_evaluate: "tm_wf ident m \<Longrightarrow> tm_wf ident (snd (tm_evaluate is_on eval c m))"
  using loop_triggers [of m c "tm_triggers m"]
  by (auto simp: tm_wf_alt tm_evaluate_def Let_def split: prod.splits)

lemma tm_wf_record: "tm_wf ident (record_trigger_fired es m) \<longleftrightarrow> tm_wf ident m"
  by (simp add: tm_wf_def record_trigger_fired_def)

lemma tm_wf_reset: "tm_wf ident m \<Longrightarrow> tm_wf ident (reset_all reset m)"
  by (auto simp: tm_wf_alt reset_all_def list_all_iff reset_ident o_def case_prod_beta)

lemma evaluate_events:
  "tm_wf ident m \<Longrightarrow> e \<in> set (fst (tm_evaluate is_on eval c m)) \<Longrightarrow>
   te_trigger_id e \<in> set (map fst (tm_triggers m)) \<and> \<not> in_cooldown m c (te_trigger_id e)
   \<and> te_timestamp_ns e = tc_timestamp_ns c"
  using loop_events [of "tm_triggers m" e m c]
  by (auto simp: tm_wf_alt tm_evaluate_def Let_def split: prod.splits if_splits)

lemma record_times:
  assumes "distinct (map te_trigger_id es)"
  shows "hm_get (tm_last_trigger_times (record_trigger_fired es m)) i =
    (case map_of (map (\<lambda>e. (te_trigger_id e, te_timestamp_ns e)) es) i of
       Some t \<Rightarrow> Some t | None \<Rightarrow> hm_get (tm_last_trigger_times m) i)"
proof -
  have "hm_get (fold (\<lambda>e. hm_insert (te_trigger_id e) (te_timestamp_ns e)) es h) i =
    (case map_of (map (\<lambda>e. (te_trigger_id e, te_timestamp_ns e)) es) i of Some t \<Rightarrow> Some t | None \<Rightarrow> hm_get h i)" for h
    using assms
  proof (induction es arbitrary: h)
    case (Cons e es)
    have "map_of (map (\<lambda>e. (te_trigger_id e, te_timestamp_ns e)) es) (te_trigger_id e) = None"
      using Cons.prems by (force simp: map_of_eq_None_iff)
    with Cons show ?case by (auto split: option.splits)
  qed simp
  then show ?thesis by (simp add: record_trigger_fired_def)
qed

lemma step_fields:
  "tm_wf ident m \<Longrightarrow> tm_wf ident (snd (tm_step is_on eval c m))"
  "tm_cooldown_ns (snd (tm_step is_on eval c m)) = tm_cooldown_ns m"
  using tm_wf_evaluate [of m c]
  by (auto simp: tm_step_def tm_wf_record split: prod.splits)
    (auto simp: tm_evaluate_def record_trigger_fired_def Let_def split: prod.splits if_splits)

lemma step_times:
  assumes "tm_wf ident m"
  shows "hm_get (tm_last_trigger_times (snd (tm_step is_on eval c m))) i =
    (if i \<in> te_trigger_id ` set (fst (tm_step is_on eval c m)) then Some (tc_timestamp_ns c)
     else hm_get (tm_last_trigger_times m) i)"
proof -
  obtain es m1 where ev: "tm_evaluate is_on eval c m = (es, m1)" by (cases "tm_evaluate is_on eval c m")
  have d: "distinct (map te_trigger_id es)"
  proof -
    have "distinct (map te_trigger_id (fst (evaluate_loop is_on eval m c (tm_triggers m))))"
      using assms by (intro loop_distinct) (simp_all add: tm_wf_alt)
    moreover have "es = [] \<or> es = sort_events (fst (evaluate_loop is_on eval m c (tm_triggers m)))"
      using ev by (auto simp: tm_evaluate_def Let_def split: prod.splits if_splits)
    ultimately show ?thesis by (auto simp: sort_events_def distinct_map)
  qed
  have l: "tm_last_trigger_times m1 = tm_last_trigger_times m"
    using ev by (auto simp: tm_evaluate_def Let_def split: prod.splits if_splits)
  have t: "te_timestamp_ns e = tc_timestamp_ns c" if "e \<in> set es" for e
    using evaluate_events [OF assms, of e c] that ev by simp
  show ?thesis
  proof (cases "i \<in> te_trigger_id ` set es")
    case True
    then obtain e where e: "e \<in> set es" "te_trigger_id e = i" by auto
    then have "map_of (map (\<lambda>e. (te_trigger_id e, te_timestamp_ns e)) es) i = Some (tc_timestamp_ns c)"
      using d t by (intro map_of_is_SomeI) (auto simp: o_def image_iff)
    with True show ?thesis by (simp add: tm_step_def ev record_times [OF d])
  next
    case False
    then have "map_of (map (\<lambda>e. (te_trigger_id e, te_timestamp_ns e)) es) i = None"
      by (auto simp: map_of_eq_None_iff image_iff)
    with False show ?thesis by (simp add: tm_step_def ev record_times [OF d] l)
  qed
qed

lemma step_not_cooling:
  assumes "tm_wf ident m" and "e \<in> set (fst (tm_step is_on eval c m))"
    and "hm_get (tm_last_trigger_times m) (te_trigger_id e) = Some t0"
    and "unat t0 + unat (tm_cooldown_ns m) < 2 ^ 64"
  shows "unat t0 + unat (tm_cooldown_ns m) \<le> unat (te_timestamp_ns e)" "te_timestamp_ns e = tc_timestamp_ns c"
proof -
  have "e \<in> set (fst (tm_evaluate is_on eval c m))" using assms(2) by (simp add: tm_step_def split: prod.splits)
  with evaluate_events [OF assms(1)] have n: "\<not> in_cooldown m c (te_trigger_id e)"
    and t: "te_timestamp_ns e = tc_timestamp_ns c" by blast+
  show "te_timestamp_ns e = tc_timestamp_ns c" by (rule t)
  have "unat (t0 + tm_cooldown_ns m) = unat t0 + unat (tm_cooldown_ns m)"
    using assms(4) by (simp add: unat_word_ariths)
  with n t assms(3) show "unat t0 + unat (tm_cooldown_ns m) \<le> unat (te_timestamp_ns e)"
    by (simp add: in_cooldown_def not_less word_le_nat_alt)
qed

lemma run_after:
  assumes "tm_wf ident m" and "hm_get (tm_last_trigger_times m) i = Some t0"
    and "unat t0 + unat (tm_cooldown_ns m) < 2 ^ 64"
    and "list_all (\<lambda>c. unat (tc_timestamp_ns c) + unat (tm_cooldown_ns m) < 2 ^ 64) cs"
    and "e \<in> set (concat (tm_run is_on eval cs m))" and "te_trigger_id e = i"
  shows "unat t0 + unat (tm_cooldown_ns m) \<le> unat (te_timestamp_ns e)"
  using assms
proof (induction cs arbitrary: m t0)
  case (Cons c cs)
  obtain es m' where s: "tm_step is_on eval c m = (es, m')" by (cases "tm_step is_on eval c m")
  note f = step_fields [where m = m and c = c, unfolded s snd_conv]
  show ?case
  proof (cases "e \<in> set es")
    case True
    with step_not_cooling(1) [of m e c t0] Cons.prems s show ?thesis by simp
  next
    case False
    then have later: "e \<in> set (concat (tm_run is_on eval cs m'))" using Cons.prems s by simp
    show ?thesis
    proof (cases "i \<in> te_trigger_id ` set es")
      case True
      then obtain e' where e': "e' \<in> set es" "te_trigger_id e' = i" by auto
      have t: "unat t0 + unat (tm_cooldown_ns m) \<le> unat (tc_timestamp_ns c)"
        using step_not_cooling [of m e' c t0] Cons.prems e' s by simp
      have "hm_get (tm_last_trigger_times m') i = Some (tc_timestamp_ns c)"
        using step_times [of m c i] Cons.prems(1) s True by simp
      from Cons.IH [OF f(1) this] later Cons.prems f(2) have
        "unat (tc_timestamp_ns c) + unat (tm_cooldown_ns m) \<le> unat (te_timestamp_ns e)" by simp
      with t show ?thesis by simp
    next
      case False
      then have "hm_get (tm_last_trigger_times m') i = Some t0"
        using step_times [of m c i] Cons.prems(1,2) s by simp
      from Cons.IH [OF f(1) this] later Cons.prems f(2) show ?thesis by simp
    qed
  qed
qed simp

lemma step_distinct: "tm_wf ident m \<Longrightarrow> distinct (map te_trigger_id (fst (tm_step is_on eval c m)))"
proof -
  assume wf: "tm_wf ident m"
  have "distinct (map te_trigger_id (fst (evaluate_loop is_on eval m c (tm_triggers m))))"
    using wf by (intro loop_distinct) (simp_all add: tm_wf_alt)
  then show ?thesis
    by (auto simp: tm_step_def tm_evaluate_def Let_def sort_events_def distinct_map split: prod.splits)
qed

lemma run_spaced:
  assumes "tm_wf ident m"
    and "list_all (\<lambda>c. unat (tc_timestamp_ns c) + unat (tm_cooldown_ns m) < 2 ^ 64) cs"
  shows "sorted_wrt (\<lambda>e1 e2. te_trigger_id e1 = te_trigger_id e2 \<longrightarrow>
      unat (te_timestamp_ns e1) + unat (tm_cooldown_ns m) \<le> unat (te_timestamp_ns e2))
    (concat (tm_run is_on eval cs m))"
  using assms
proof (induction cs arbitrary: m)
  case (Cons c cs)
  obtain es m' where s: "tm_step is_on eval c m = (es, m')" by (cases "tm_step is_on eval c m")
  note f = step_fields [where m = m and c = c, unfolded s snd_conv]
  have wf': "tm_wf ident m'" using f(1) Cons.prems(1) .
  have same: "sorted_wrt (\<lambda>e1 e2. te_trigger_id e1 = te_trigger_id e2 \<longrightarrow>
      unat (te_timestamp_ns e1) + unat (tm_cooldown_ns m) \<le> unat (te_timestamp_ns e2)) es"
    using step_distinct [OF Cons.prems(1), of c] unfolding s fst_conv distinct_map
    by (auto simp: sorted_wrt_iff_nth_less distinct_conv_nth inj_on_def) (metis nth_mem less_irrefl order.strict_trans)
  have "unat (te_timestamp_ns e1) + unat (tm_cooldown_ns m) \<le> unat (te_timestamp_ns e2)"
    if e: "e1 \<in> set es" "e2 \<in> set (concat (tm_run is_on eval cs m'))" "te_trigger_id e1 = te_trigger_id e2" for e1 e2
  proof -
    have t: "te_timestamp_ns e1 = tc_timestamp_ns c"
      using evaluate_events [OF Cons.prems(1), of e1 c] e(1) s by (auto simp: tm_step_def split: prod.splits)
    have "te_trigger_id e2 \<in> te_trigger_id ` set es" using e(1,3) by (metis image_eqI)
    then have "hm_get (tm_last_trigger_times m') (te_trigger_id e2) = Some (tc_timestamp_ns c)"
      using step_times [OF Cons.prems(1), of c "te_trigger_id e2"] s by simp
    from run_after [OF wf' this _ _ e(2) refl] f(2) Cons.prems(2) show ?thesis by (simp add: t)
  qed
  with same Cons.IH [OF wf'] Cons.prems(2) f(2) s show ?case by (simp add: sorted_wrt_append)
qed simp

end

section \<open>The six triggers meet the contract\<close>

lemma trigger_fires_fields [simp]:
  "te_trigger_id (trigger_fires t c r) = tr_id t" "te_timestamp_ns (trigger_fires t c r) = tc_timestamp_ns c"
  "te_trigger_id (with_metadata k v e) = te_trigger_id e" "te_timestamp_ns (with_metadata k v e) = te_timestamp_ns e"
  by (simp_all add: trigger_fires_def TriggerEvent_new_def with_metadata_def)

interpretation trig: trigger_contract tr_id tr_enabled "evaluate_trigger ff" reset_trigger for ff
  by unfold_locales
    (auto simp: evaluate_defs reset_trigger_def Let_def split: trigger_kind.splits if_splits option.splits)

text \<open>
  C30. The cooldown: whatever contexts the triggers are evaluated on, two events of one trigger are
  at least the cooldown apart, as long as no time plus the cooldown exceeds 64 bits.
\<close>

theorem cooldown_respected:
  assumes "tm_wf tr_id m"
    and "list_all (\<lambda>c. unat (tc_timestamp_ns c) + unat (tm_cooldown_ns m) < 2 ^ 64) cs"
  shows "sorted_wrt (\<lambda>e1 e2. te_trigger_id e1 = te_trigger_id e2 \<longrightarrow>
      unat (te_timestamp_ns e1) + unat (tm_cooldown_ns m) \<le> unat (te_timestamp_ns e2))
    (concat (tm_run tr_enabled (evaluate_trigger ff) cs m))"
  by (rule trig.run_spaced [OF assms])

text \<open>
  The events of an evaluation come from registered triggers, carry the time of the context, are
  not in their cooldown, and are ordered by descending priority; evaluating, registering,
  unregistering and resetting keep every trigger under its own id.
\<close>

theorem evaluate_events_sound:
  assumes "tm_wf tr_id m"
  shows "tm_wf tr_id (snd (tm_evaluate tr_enabled (evaluate_trigger ff) c m))
    \<and> tm_wf tr_id (snd (tm_register tr_id t m)) \<and> tm_wf tr_id (snd (tm_unregister i m))
    \<and> tm_wf tr_id (reset_all reset_trigger m)
    \<and> sorted_wrt (\<lambda>e1 e2. te_priority e2 \<le> te_priority e1) (fst (tm_evaluate tr_enabled (evaluate_trigger ff) c m))
    \<and> (\<forall>e \<in> set (fst (tm_evaluate tr_enabled (evaluate_trigger ff) c m)).
         te_trigger_id e \<in> set (map fst (tm_triggers m)) \<and> \<not> in_cooldown m c (te_trigger_id e)
         \<and> te_timestamp_ns e = tc_timestamp_ns c)"
proof -
  have "sorted_wrt (\<lambda>e1 e2. te_priority e2 \<le> te_priority e1) (sort_events es)" for es
  proof -
    have "sorted (map (\<lambda>e. - int (priority_rank (te_priority e))) (sort_events es))"
      by (simp add: sort_events_def)
    then show ?thesis by (simp add: sorted_map less_eq_priority_def)
  qed
  then have "sorted_wrt (\<lambda>e1 e2. te_priority e2 \<le> te_priority e1) (fst (tm_evaluate tr_enabled (evaluate_trigger ff) c m))"
    by (simp add: tm_evaluate_def Let_def split: prod.split)
  then show ?thesis
    using trig.tm_wf_evaluate [OF assms] trig.tm_wf_register [OF assms] trig.tm_wf_unregister [OF assms]
      trig.tm_wf_reset [OF assms] trig.evaluate_events [OF assms] by blast
qed

section \<open>When the triggers fire\<close>

fun eval_trace :: "float_format \<Rightarrow> trigger \<Rightarrow> trigger_context list \<Rightarrow> trigger_event option list" where
  "eval_trace ff t [] = []"
| "eval_trace ff t (c # cs) = (let (e, t') = evaluate_trigger ff c t in e # eval_trace ff t' cs)"

fun rising_edges :: "bool \<Rightarrow> bool list \<Rightarrow> bool list" where
  "rising_edges was [] = []"
| "rising_edges was (b # bs) = (b \<and> \<not> was) # rising_edges b bs"

text \<open>The reference for a periodic trigger: unbounded times, and no time at which it fired yet.\<close>

fun periodic_fires :: "nat \<Rightarrow> nat option \<Rightarrow> nat list \<Rightarrow> bool list" where
  "periodic_fires i l [] = []"
| "periodic_fires i l (t # ts) =
     (if (case l of None \<Rightarrow> True | Some l \<Rightarrow> t \<ge> l + i)
      then True # periodic_fires i (Some t) ts else False # periodic_fires i l ts)"

text \<open>
  Evaluated on every context, a teleoperation trigger fires exactly at the rising edges of the
  teleoperation signal.
\<close>

theorem teleop_fires_on_rising_edges:
  assumes "tr_kind t = Teleop was"
  shows "map (\<lambda>e. e \<noteq> None) (eval_trace ff t cs) = rising_edges was (map tc_is_teleop_active cs)"
  using assms
proof (induction cs arbitrary: t was)
  case (Cons c cs)
  have "tr_kind (snd (evaluate_trigger ff c t)) = Teleop (tc_is_teleop_active c)"
    using Cons.prems by (simp add: evaluate_defs Let_def)
  from Cons.IH [OF this] Cons.prems show ?case
    by (cases "evaluate_trigger ff c t") (auto simp: evaluate_defs Let_def split: if_splits)
qed simp

text \<open>
  C31. A new periodic trigger agrees with the reference on unbounded times: it fires at the first
  evaluation and then whenever the interval has passed since it last fired, provided no time
  plus the interval exceeds 64 bits and no time is the value that stands for \<open>never\<close>.
\<close>

theorem periodic_matches_reference:
  assumes "list_all (\<lambda>c. tc_timestamp_ns c \<noteq> - 1 \<and> unat (tc_timestamp_ns c) + unat i < 2 ^ 64) cs"
  shows "map (\<lambda>e. e \<noteq> None) (eval_trace ff (PeriodicTrigger_new n i) cs)
       = periodic_fires (unat i) None (map (\<lambda>c. unat (tc_timestamp_ns c)) cs)"
proof -
  have "map (\<lambda>e. e \<noteq> None) (eval_trace ff t cs)
       = periodic_fires (unat i) (if l = - 1 then None else Some (unat l)) (map (\<lambda>c. unat (tc_timestamp_ns c)) cs)"
    if "tr_kind t = Periodic i l" "l \<noteq> - 1 \<Longrightarrow> unat l + unat i < 2 ^ 64" for t l
    using assms that
  proof (induction cs arbitrary: t l)
    case (Cons c cs)
    have add: "unat (l + i) = unat l + unat i" if "l \<noteq> - 1"
      using Cons.prems(3) that by (simp add: unat_word_ariths)
    show ?case
    proof (cases "l = - 1 \<or> tc_timestamp_ns c \<ge> l + i")
      case True
      define t' where "t' = t\<lparr>tr_kind := Periodic i (tc_timestamp_ns c)\<rparr>"
      have "map (\<lambda>e. e \<noteq> None) (eval_trace ff t' cs)
          = periodic_fires (unat i) (Some (unat (tc_timestamp_ns c))) (map (\<lambda>c. unat (tc_timestamp_ns c)) cs)"
        using Cons.IH [of t' "tc_timestamp_ns c"] Cons.prems(1) by (simp add: t'_def)
      with True Cons.prems(2) add show ?thesis
        by (auto simp: evaluate_defs t'_def [symmetric] word_le_nat_alt)
    next
      case False
      with Cons.IH [of t l] Cons.prems add show ?thesis
        by (simp add: evaluate_defs word_le_nat_alt)
    qed
  qed simp
  from this [of "PeriodicTrigger_new n i" "- 1"] show ?thesis by (simp add: PeriodicTrigger_new_def)
qed

text \<open>
  A manual request is answered by exactly one event with its reason, at the next evaluation of
  the trigger; afterwards nothing is pending.
\<close>

theorem manual_request_fires_once:
  assumes "tr_kind t = request_manual r (Manual p q)"
  shows "\<exists>e t'. evaluate_trigger ff c t = (Some e, t') \<and> te_reason e = r \<and> te_timestamp_ns e = tc_timestamp_ns c
    \<and> \<not> has_pending (tr_kind t') \<and> fst (evaluate_trigger ff c' t') = None"
  using assms
  by (simp add: evaluate_defs Let_def with_metadata_def trigger_fires_def TriggerEvent_new_def)

text \<open>
  A demonstration that starts while the teleoperation trigger is in its cooldown is lost: the
  trigger is not evaluated then, so it misses the pause, and the signal seen after the cooldown is
  no rising edge.
\<close>

theorem teleop_restart_missed:
  "map length (tm_run tr_enabled (evaluate_trigger ff)
      (map (\<lambda>(t, b). with_teleop b (TriggerContext_new t))
         [(10000000000, True), (12000000000, False), (13000000000, True), (20000000000, True)])
      (snd (tm_register tr_id (TeleopTrigger_new ''teleop'') (with_cooldown 5000000000 TriggerManager_new))))
   = [1, 0, 0, 0]"
  by (simp add: tm_step_def tm_evaluate_def tm_register_def with_cooldown_def TriggerManager_new_def
      TeleopTrigger_new_def evaluate_defs with_teleop_def TriggerContext_new_def in_cooldown_def
      hm_contains_def hm_insert_def hm_get_def record_trigger_fired_def sort_events_def Let_def)

section \<open>The theorems at concrete inputs\<close>

definition demo_triggers :: "trigger trigger_manager" where
  "demo_triggers = snd (tm_register tr_id (PeriodicTrigger_new ''p'' 1) TriggerManager_new)"

abbreviation "plain_floats \<equiv> \<lparr>ff_fixed3 = (\<lambda>_. []), ff_show = (\<lambda>_. [])\<rparr>"

lemma demo_triggers_wf: "tm_wf tr_id demo_triggers"
  unfolding demo_triggers_def by (rule trig.tm_wf_register, rule trig.tm_wf_new)

theorem cooldown_respected_witness:
  "map te_timestamp_ns (concat (tm_run tr_enabled (evaluate_trigger plain_floats)
       [TriggerContext_new 5, TriggerContext_new 6, TriggerContext_new 1000000005] demo_triggers)) = [5, 1000000005]
   \<and> sorted_wrt (\<lambda>t1 t2. unat t1 + 1000000000 \<le> unat t2) (map te_timestamp_ns
       (concat (tm_run tr_enabled (evaluate_trigger plain_floats)
         [TriggerContext_new 5, TriggerContext_new 6, TriggerContext_new 1000000005] demo_triggers)))"
  (is "map _ (concat ?run) = _ \<and> _")
proof -
  have run: "map te_timestamp_ns (concat ?run) = [5, 1000000005]" "map te_trigger_id (concat ?run) = [''p'', ''p'']"
    by (simp_all add: demo_triggers_def tm_step_def tm_evaluate_def tm_register_def TriggerManager_new_def
      PeriodicTrigger_new_def evaluate_defs TriggerContext_new_def in_cooldown_def
      hm_contains_def hm_insert_def hm_get_def record_trigger_fired_def sort_events_def Let_def)
  have c: "tm_cooldown_ns demo_triggers = 1000000000"
    by (simp add: demo_triggers_def tm_register_def TriggerManager_new_def Let_def hm_contains_def)
  have "sorted_wrt (\<lambda>e1 e2. te_trigger_id e1 = te_trigger_id e2 \<longrightarrow>
      unat (te_timestamp_ns e1) + unat (tm_cooldown_ns demo_triggers) \<le> unat (te_timestamp_ns e2)) (concat ?run)"
    by (rule cooldown_respected [OF demo_triggers_wf]) (simp add: c TriggerContext_new_def)
  then have "sorted_wrt (\<lambda>e1 e2. unat (te_timestamp_ns e1) + 1000000000 \<le> unat (te_timestamp_ns e2)) (concat ?run)"
  proof (rule sorted_wrt_mono_rel [rotated])
    fix e1 e2
    assume e: "e1 \<in> set (concat ?run)" "e2 \<in> set (concat ?run)"
      and le: "te_trigger_id e1 = te_trigger_id e2 \<longrightarrow>
        unat (te_timestamp_ns e1) + unat (tm_cooldown_ns demo_triggers) \<le> unat (te_timestamp_ns e2)"
    have "te_trigger_id ` set (concat ?run) = {''p''}"
      using arg_cong [OF run(2), of set] by (simp only: set_map) simp
    then have "te_trigger_id e1 = te_trigger_id e2"
      using imageI [OF e(1), of te_trigger_id] imageI [OF e(2), of te_trigger_id] by (simp only:) simp
    with le have "unat (te_timestamp_ns e1) + unat (tm_cooldown_ns demo_triggers) \<le> unat (te_timestamp_ns e2)" by blast
    then show "unat (te_timestamp_ns e1) + 1000000000 \<le> unat (te_timestamp_ns e2)" by (simp add: c)
  qed
  with run(1) show ?thesis by (simp add: sorted_wrt_map)
qed

theorem evaluate_events_sound_witness:
  "tm_wf tr_id (snd (tm_evaluate tr_enabled (evaluate_trigger plain_floats) (TriggerContext_new 5) demo_triggers))"
  using evaluate_events_sound [OF demo_triggers_wf] by blast

theorem teleop_fires_on_rising_edges_witness:
  "map (\<lambda>e. e \<noteq> None) (eval_trace plain_floats (TeleopTrigger_new ''t'')
     (map (\<lambda>b. with_teleop b (TriggerContext_new 0)) [True, True, False, True])) = [True, False, False, True]"
  using teleop_fires_on_rising_edges [of "TeleopTrigger_new ''t''" False plain_floats
      "map (\<lambda>b. with_teleop b (TriggerContext_new 0)) [True, True, False, True]"]
  by (simp add: TeleopTrigger_new_def with_teleop_def)

theorem periodic_matches_reference_witness:
  "map (\<lambda>e. e \<noteq> None) (eval_trace plain_floats (PeriodicTrigger_new ''p'' 10) (map TriggerContext_new [3, 7, 13, 14]))
   = [True, False, True, False]"
  using periodic_matches_reference [of 10 "map TriggerContext_new [3, 7, 13, 14]" plain_floats "''p''"]
  by (simp add: TriggerContext_new_def)

theorem manual_request_fires_once_witness:
  "\<exists>e t'. evaluate_trigger plain_floats (TriggerContext_new 1)
      ((ManualTrigger_new ''m'')\<lparr>tr_kind := request_manual ''now'' (Manual False None)\<rparr>) = (Some e, t') \<and> te_reason e = ''now''"
  using manual_request_fires_once [of "(ManualTrigger_new ''m'')\<lparr>tr_kind := request_manual ''now'' (Manual False None)\<rparr>" "''now''"
      False None plain_floats "TriggerContext_new 1" "TriggerContext_new 1"] by auto

end
