(* ===== verification/Upload.thy ===== *)
theory Upload
  imports Episode_Storage "HOL-Library.Product_Lexorder" "HOL-Library.Multiset"
begin

text \<open>
  The upload manager of the data collection plugin (\<open>robotics/data_collection/upload.rs\<close>): providers,
  credentials and configuration, the queue of jobs, and the retry policy. The environment variables,
  the file system, the clock and the \<open>{:?}\<close> form of a path are arguments. The upload itself is the
  placeholder of the code: it reports success without sending anything.
\<close>

section \<open>Configuration\<close>

datatype upload_error =
    UploadIo string
  | Network string
  | AuthFailed string
  | UploadPermissionDenied string
  | BucketNotFound string
  | ObjectTooLarge u64 u64
  | RateLimited u32
  | UploadCancelled
  | MaxRetriesExceeded string
  | InvalidUploadConfig string
  | UploadEpisodeNotFound string
  | ProviderError string
  | UploadSerializationError string

datatype cloud_provider = S3 | Gcs | Azure | Minio | CustomProvider

fun default_endpoint :: "cloud_provider \<Rightarrow> string option" where
  "default_endpoint S3 = None"
| "default_endpoint Gcs = Some ''https://storage.googleapis.com''"
| "default_endpoint Azure = None"
| "default_endpoint Minio = Some ''http://localhost:9000''"
| "default_endpoint CustomProvider = None"

record s3_credentials =
  s3_access_key_id :: "string option"
  s3_secret_access_key :: "string option"
  s3_session_token :: "string option"
  s3_region :: string
  s3_profile :: "string option"
  s3_credentials_file :: "path option"
  s3_use_instance_credentials :: bool

text \<open>The derived \<open>Default\<close>: the region is empty, not the one \<open>serde\<close> fills in.\<close>

definition S3Credentials_default :: s3_credentials where
  "S3Credentials_default =
     \<lparr>s3_access_key_id = None, s3_secret_access_key = None, s3_session_token = None, s3_region = '''',
      s3_profile = None, s3_credentials_file = None, s3_use_instance_credentials = False\<rparr>"

definition default_region :: string where
  "default_region = ''us-east-1''"

type_synonym env_vars = "string \<Rightarrow> string option"

definition s3_from_env :: "env_vars \<Rightarrow> s3_credentials" where
  "s3_from_env env =
     \<lparr>s3_access_key_id = env ''AWS_ACCESS_KEY_ID'', s3_secret_access_key = env ''AWS_SECRET_ACCESS_KEY'',
      s3_session_token = env ''AWS_SESSION_TOKEN'',
      s3_region = (case env ''AWS_REGION'' of Some r \<Rightarrow> r
                   | None \<Rightarrow> (case env ''AWS_DEFAULT_REGION'' of Some r \<Rightarrow> r | None \<Rightarrow> default_region)),
      s3_profile = env ''AWS_PROFILE'', s3_credentials_file = None, s3_use_instance_credentials = False\<rparr>"

definition s3_with_keys :: "string \<Rightarrow> string \<Rightarrow> s3_credentials" where
  "s3_with_keys access_key_id secret_access_key =
     S3Credentials_default\<lparr>s3_access_key_id := Some access_key_id, s3_secret_access_key := Some secret_access_key\<rparr>"

definition s3_is_configured :: "s3_credentials \<Rightarrow> bool" where
  "s3_is_configured c =
     (s3_access_key_id c \<noteq> None \<and> s3_secret_access_key c \<noteq> None \<or> s3_profile c \<noteq> None \<or> s3_use_instance_credentials c)"

record gcs_credentials =
  gc_service_account_key :: "path option"
  gc_service_account_json :: "string option"
  gc_project_id :: "string option"
  gc_use_application_default :: bool

definition GcsCredentials_default :: gcs_credentials where
  "GcsCredentials_default =
     \<lparr>gc_service_account_key = None, gc_service_account_json = None, gc_project_id = None,
      gc_use_application_default = False\<rparr>"

definition gcs_from_env :: "env_vars \<Rightarrow> gcs_credentials" where
  "gcs_from_env env =
     \<lparr>gc_service_account_key = env ''GOOGLE_APPLICATION_CREDENTIALS'', gc_service_account_json = None,
      gc_project_id = (case env ''GOOGLE_CLOUD_PROJECT'' of Some p \<Rightarrow> Some p | None \<Rightarrow> env ''GCLOUD_PROJECT''),
      gc_use_application_default = True\<rparr>"

definition gcs_with_service_account :: "path \<Rightarrow> gcs_credentials" where
  "gcs_with_service_account p =
     \<lparr>gc_service_account_key = Some p, gc_service_account_json = None, gc_project_id = None,
      gc_use_application_default = False\<rparr>"

definition gcs_is_configured :: "gcs_credentials \<Rightarrow> bool" where
  "gcs_is_configured c =
     (gc_service_account_key c \<noteq> None \<or> gc_service_account_json c \<noteq> None \<or> gc_use_application_default c)"

record azure_credentials =
  az_account_name :: "string option"
  az_account_key :: "string option"
  az_connection_string :: "string option"
  az_sas_token :: "string option"
  az_use_managed_identity :: bool

definition AzureCredentials_default :: azure_credentials where
  "AzureCredentials_default =
     \<lparr>az_account_name = None, az_account_key = None, az_connection_string = None, az_sas_token = None,
      az_use_managed_identity = False\<rparr>"

definition azure_from_env :: "env_vars \<Rightarrow> azure_credentials" where
  "azure_from_env env =
     \<lparr>az_account_name = env ''AZURE_STORAGE_ACCOUNT'', az_account_key = env ''AZURE_STORAGE_KEY'',
      az_connection_string = env ''AZURE_STORAGE_CONNECTION_STRING'', az_sas_token = None,
      az_use_managed_identity = False\<rparr>"

definition azure_is_configured :: "azure_credentials \<Rightarrow> bool" where
  "azure_is_configured c =
     (az_connection_string c \<noteq> None \<or> az_account_name c \<noteq> None \<and> az_account_key c \<noteq> None
      \<or> az_sas_token c \<noteq> None \<or> az_use_managed_identity c)"

record upload_config =
  uc_provider :: cloud_provider
  uc_bucket :: string
  uc_prefix :: string
  uc_endpoint :: "string option"
  uc_s3_credentials :: s3_credentials
  uc_gcs_credentials :: gcs_credentials
  uc_azure_credentials :: azure_credentials
  uc_max_concurrent :: u32
  uc_max_retries :: u32
  uc_retry_delay_ms :: u64
  uc_multipart_threshold :: u64
  uc_chunk_size :: u64
  uc_verify_checksum :: bool
  uc_storage_class :: "string option"
  uc_custom_metadata :: "(string, string) hmap"
  uc_upload_metadata :: bool
  uc_delete_after_upload :: bool

definition UploadConfig_default :: upload_config where
  "UploadConfig_default =
     \<lparr>uc_provider = S3, uc_bucket = '''', uc_prefix = '''', uc_endpoint = None,
      uc_s3_credentials = S3Credentials_default, uc_gcs_credentials = GcsCredentials_default,
      uc_azure_credentials = AzureCredentials_default, uc_max_concurrent = 4, uc_max_retries = 3,
      uc_retry_delay_ms = 1000, uc_multipart_threshold = 100 * 1024 * 1024, uc_chunk_size = 8 * 1024 * 1024,
      uc_verify_checksum = True, uc_storage_class = None, uc_custom_metadata = [], uc_upload_metadata = True,
      uc_delete_after_upload = False\<rparr>"

definition config_s3 :: "env_vars \<Rightarrow> string \<Rightarrow> upload_config" where
  "config_s3 env bucket = UploadConfig_default\<lparr>uc_provider := S3, uc_bucket := bucket, uc_s3_credentials := s3_from_env env\<rparr>"

definition config_gcs :: "env_vars \<Rightarrow> string \<Rightarrow> upload_config" where
  "config_gcs env bucket = UploadConfig_default\<lparr>uc_provider := Gcs, uc_bucket := bucket, uc_gcs_credentials := gcs_from_env env\<rparr>"

definition config_azure :: "env_vars \<Rightarrow> string \<Rightarrow> upload_config" where
  "config_azure env container =
     UploadConfig_default\<lparr>uc_provider := Azure, uc_bucket := container, uc_azure_credentials := azure_from_env env\<rparr>"

definition config_minio :: "env_vars \<Rightarrow> string \<Rightarrow> string \<Rightarrow> upload_config" where
  "config_minio env bucket endpoint =
     UploadConfig_default\<lparr>uc_provider := Minio, uc_bucket := bucket, uc_endpoint := Some endpoint,
       uc_s3_credentials := s3_from_env env\<rparr>"

definition upload_is_configured :: "upload_config \<Rightarrow> bool" where
  "upload_is_configured c =
     (case uc_provider c of
        Gcs \<Rightarrow> gcs_is_configured (uc_gcs_credentials c)
      | Azure \<Rightarrow> azure_is_configured (uc_azure_credentials c)
      | _ \<Rightarrow> s3_is_configured (uc_s3_credentials c))"

definition credentials_message :: "cloud_provider \<Rightarrow> string" where
  "credentials_message p =
     (case p of
        Gcs \<Rightarrow> ''GCS credentials not configured. Set GOOGLE_APPLICATION_CREDENTIALS environment variable or configure service account in UploadConfig''
      | Azure \<Rightarrow> ''Azure credentials not configured. Set AZURE_STORAGE_CONNECTION_STRING environment variable or configure credentials in UploadConfig''
      | _ \<Rightarrow> ''S3 credentials not configured. Set AWS_ACCESS_KEY_ID and AWS_SECRET_ACCESS_KEY environment variables or configure credentials in UploadConfig'')"

definition upload_validate :: "upload_config \<Rightarrow> upload_error + unit" where
  "upload_validate c =
     (if uc_bucket c = '''' then Inl (InvalidUploadConfig ''Bucket name is required'')
      else if \<not> (case uc_provider c of
                    Gcs \<Rightarrow> gcs_is_configured (uc_gcs_credentials c)
                  | Azure \<Rightarrow> azure_is_configured (uc_azure_credentials c)
                  | _ \<Rightarrow> s3_is_configured (uc_s3_credentials c))
      then Inl (InvalidUploadConfig (credentials_message (uc_provider c)))
      else if uc_chunk_size c < 5 * 1024 * 1024 then Inl (InvalidUploadConfig ''Chunk size must be at least 5 MB'')
      else Inr ())"

definition object_key :: "upload_config \<Rightarrow> string \<Rightarrow> string \<Rightarrow> string" where
  "object_key c episode_id filename =
     (if uc_prefix c = '''' then episode_id @ ''/'' @ filename
      else trim_end_matches (CHR ''/'') (uc_prefix c) @ ''/'' @ episode_id @ ''/'' @ filename)"

section \<open>The queue\<close>

record upload_job =
  uj_episode_id :: episode_id
  uj_mcap_path :: path
  uj_metadata_path :: "path option"
  uj_priority :: int
  uj_created_at :: timestamp_ns

definition job_from_entry :: "timestamp_ns \<Rightarrow> index_entry \<Rightarrow> path \<Rightarrow> upload_job" where
  "job_from_entry now entry root_dir =
     \<lparr>uj_episode_id = ie_episode_id entry, uj_mcap_path = entry_mcap_path entry root_dir,
      uj_metadata_path = entry_metadata_path entry root_dir, uj_priority = 0, uj_created_at = now\<rparr>"

definition with_priority :: "int \<Rightarrow> upload_job \<Rightarrow> upload_job" where
  "with_priority p job = job\<lparr>uj_priority := p\<rparr>"

record upload_state =
  us_job :: upload_job
  us_bytes_uploaded :: u64
  us_retry_count :: u32
  us_cancelled :: bool

record upload_manager =
  um_config :: upload_config
  um_queue :: "upload_job list"
  um_active_uploads :: "(string, upload_state) hmap"
  um_cancel_flag :: bool
  um_session_bytes_uploaded :: u64

record upload_result =
  ur_episode_id :: episode_id
  ur_success :: bool
  ur_urls :: "string list"
  ur_bytes_uploaded :: u64
  ur_duration_ms :: u64
  ur_error :: "string option"
  ur_retries :: u32

text \<open>What an upload reads of the outside: files, their sizes, the time it takes.\<close>

record upload_env =
  ue_exists :: "path \<Rightarrow> bool"
  ue_file_len :: "path \<Rightarrow> u64 option"
  ue_debug_path :: "path \<Rightarrow> string"
  ue_elapsed_ms :: "upload_job \<Rightarrow> u64"

definition UploadManager_new :: "upload_config \<Rightarrow> upload_error + upload_manager" where
  "UploadManager_new config =
     and_then (upload_validate config) (\<lambda>_.
       Inr \<lparr>um_config = config, um_queue = [], um_active_uploads = [], um_cancel_flag = False,
            um_session_bytes_uploaded = 0\<rparr>)"

definition job_key :: "upload_job \<Rightarrow> int \<times> u64" where
  "job_key j = (- uj_priority j, uj_created_at j)"

definition enqueue_job :: "upload_job \<Rightarrow> upload_manager \<Rightarrow> upload_manager" where
  "enqueue_job job m =
     (if uj_episode_id job \<in> uj_episode_id ` set (um_queue m) then m
      else m\<lparr>um_queue := sort_key job_key (um_queue m @ [job])\<rparr>)"

definition enqueue_batch :: "upload_job list \<Rightarrow> upload_manager \<Rightarrow> upload_manager" where
  "enqueue_batch jobs m = fold enqueue_job jobs m"

definition cancel_all :: "upload_manager \<Rightarrow> upload_manager" where
  "cancel_all m =
     m\<lparr>um_cancel_flag := True, um_queue := [],
       um_active_uploads := map (\<lambda>(k, s). (k, s\<lparr>us_cancelled := True\<rparr>)) (um_active_uploads m)\<rparr>"

definition cancel_upload :: "string \<Rightarrow> upload_manager \<Rightarrow> upload_manager" where
  "cancel_upload episode_id m =
     m\<lparr>um_queue := filter (\<lambda>j. uj_episode_id j \<noteq> episode_id) (um_queue m),
       um_active_uploads := (case hm_get (um_active_uploads m) episode_id of
           Some s \<Rightarrow> hm_insert episode_id (s\<lparr>us_cancelled := True\<rparr>) (um_active_uploads m)
         | None \<Rightarrow> um_active_uploads m)\<rparr>"

text \<open>\<open>rsplit_once('/')\<close>, its first part.\<close>

definition before_last_slash :: "string \<Rightarrow> string option" where
  "before_last_slash s =
     (if CHR ''/'' \<in> set s then Some (rev (tl (dropWhile (\<lambda>c. c \<noteq> CHR ''/'') (rev s)))) else None)"

definition base_url :: "upload_config \<Rightarrow> string \<Rightarrow> string" where
  "base_url c mcap_key =
     (case uc_provider c of
        S3 \<Rightarrow> ''s3://'' @ uc_bucket c @ ''/'' @ mcap_key
      | Gcs \<Rightarrow> ''gs://'' @ uc_bucket c @ ''/'' @ mcap_key
      | Azure \<Rightarrow> ''https://'' @ (case az_account_name (uc_azure_credentials c) of Some n \<Rightarrow> n | None \<Rightarrow> ''account'') @
          ''.blob.core.windows.net/'' @ uc_bucket c @ ''/'' @ mcap_key
      | _ \<Rightarrow> (case uc_endpoint c of Some e \<Rightarrow> e | None \<Rightarrow> ''http://localhost:9000'') @ ''/'' @ uc_bucket c @ ''/'' @ mcap_key)"

definition do_upload :: "upload_env \<Rightarrow> upload_job \<Rightarrow> upload_manager \<Rightarrow> upload_result \<times> upload_manager" where
  "do_upload env job m =
     (if \<not> ue_exists env (uj_mcap_path job)
      then (\<lparr>ur_episode_id = uj_episode_id job, ur_success = False, ur_urls = [], ur_bytes_uploaded = 0,
             ur_duration_ms = ue_elapsed_ms env job,
             ur_error = Some (''File not found: '' @ ue_debug_path env (uj_mcap_path job)), ur_retries = 0\<rparr>, m)
      else
        let file_size = (case ue_file_len env (uj_mcap_path job) of Some n \<Rightarrow> n | None \<Rightarrow> 0);
            mcap_filename = (case path_file_name (uj_mcap_path job) of Some f \<Rightarrow> f | None \<Rightarrow> ''episode.mcap'');
            url = base_url (um_config m) (object_key (um_config m) (uj_episode_id job) mcap_filename);
            meta_urls = (if uc_upload_metadata (um_config m) then
                (case uj_metadata_path job of
                   Some p \<Rightarrow>
                     if ue_exists env p
                     then let meta_filename = (case path_file_name p of Some f \<Rightarrow> f | None \<Rightarrow> ''metadata.json'') in
                          (case before_last_slash url of Some pre \<Rightarrow> [pre @ ''/'' @ meta_filename] | None \<Rightarrow> [])
                     else []
                 | None \<Rightarrow> [])
              else [])
        in (\<lparr>ur_episode_id = uj_episode_id job, ur_success = True, ur_urls = url # meta_urls,
             ur_bytes_uploaded = file_size, ur_duration_ms = ue_elapsed_ms env job, ur_error = None, ur_retries = 0\<rparr>,
            m\<lparr>um_session_bytes_uploaded := um_session_bytes_uploaded m + file_size\<rparr>))"

text \<open>\<open>Vec::pop\<close> takes the last job of the queue.\<close>

definition process_next :: "upload_env \<Rightarrow> upload_manager \<Rightarrow> upload_result option \<times> upload_manager" where
  "process_next env m =
     (if um_cancel_flag m \<or> um_queue m = [] then (None, m)
      else
        let job = last (um_queue m);
            state = \<lparr>us_job = job, us_bytes_uploaded = 0, us_retry_count = 0, us_cancelled = False\<rparr>;
            m1 = m\<lparr>um_queue := butlast (um_queue m),
                   um_active_uploads := hm_insert (uj_episode_id job) state (um_active_uploads m)\<rparr>;
            (result, m2) = do_upload env job m1
        in (Some result, m2\<lparr>um_active_uploads := hm_remove (uj_episode_id job) (um_active_uploads m2)\<rparr>))"

definition upload_episode ::
  "upload_env \<Rightarrow> timestamp_ns \<Rightarrow> index_entry \<Rightarrow> path \<Rightarrow> upload_manager \<Rightarrow> (upload_error + upload_result) \<times> upload_manager" where
  "upload_episode env now entry root_dir m =
     (let job = job_from_entry now entry root_dir in
      if \<not> ue_exists env (uj_mcap_path job)
      then (Inl (UploadEpisodeNotFound (''MCAP file not found: '' @ ue_debug_path env (uj_mcap_path job))), m)
      else case process_next env (enqueue_job job m) of
             (Some r, m1) \<Rightarrow> (Inr r, m1)
           | (None, m1) \<Rightarrow> (Inl UploadCancelled, m1))"

record upload_session_stats =
  ux_queued :: u32
  ux_active :: u32
  ux_bytes_uploaded :: u64

definition session_stats :: "upload_manager \<Rightarrow> upload_session_stats" where
  "session_stats m =
     \<lparr>ux_queued = of_nat (length (um_queue m)), ux_active = of_nat (length (um_active_uploads m)),
      ux_bytes_uploaded = um_session_bytes_uploaded m\<rparr>"

section \<open>Retries\<close>

record retry_policy =
  rp_max_retries :: u32
  rp_initial_delay_ms :: u64
  rp_max_delay_ms :: u64
  rp_multiplier :: f32
  rp_jitter :: bool

definition RetryPolicy_default :: retry_policy where
  "RetryPolicy_default =
     \<lparr>rp_max_retries = 3, rp_initial_delay_ms = 1000, rp_max_delay_ms = 60000, rp_multiplier = 2, rp_jitter = True\<rparr>"

text \<open>\<open>rand_simple\<close>: the sub-second nanoseconds of the clock, modulo 1000, as a fraction.\<close>

definition rand_simple :: "u32 \<Rightarrow> f64" where
  "rand_simple nanos = real (unat (nanos mod 1000)) / 1000"

definition delay_for_attempt :: "u32 \<Rightarrow> retry_policy \<Rightarrow> u32 \<Rightarrow> u64" where
  "delay_for_attempt nanos p attempt =
     (let base_delay = real (unat (rp_initial_delay_ms p)) * power_int (rp_multiplier p) (sint attempt);
          delay = float_as_usize (min base_delay (real (unat (rp_max_delay_ms p)))) in
      if rp_jitter p
      then delay + float_as_usize (real (unat delay) * 0.25 * rand_simple nanos)
      else delay)"

section \<open>The life of an upload manager\<close>

text \<open>The operations a client may call between two states of the manager.\<close>

inductive upload_step :: "upload_manager \<Rightarrow> upload_manager \<Rightarrow> bool" where
  Enqueue: "upload_step m (enqueue_job job m)"
| EnqueueBatch: "upload_step m (enqueue_batch jobs m)"
| CancelAll: "upload_step m (cancel_all m)"
| CancelOne: "upload_step m (cancel_upload ep m)"
| ProcessNext: "upload_step m (snd (process_next env m))"
| UploadEpisode: "upload_step m (snd (upload_episode env now entry root_dir m))"

definition queue_ok :: "upload_manager \<Rightarrow> bool" where
  "queue_ok m \<longleftrightarrow> sorted (map job_key (um_queue m)) \<and> distinct (map uj_episode_id (um_queue m))"

lemma do_upload_manager:
  "snd (do_upload env job m) = m\<lparr>um_session_bytes_uploaded := um_session_bytes_uploaded m
     + ur_bytes_uploaded (fst (do_upload env job m))\<rparr>"
  by (simp add: do_upload_def Let_def)

lemma do_upload_episode [simp]: "ur_episode_id (fst (do_upload env job m)) = uj_episode_id job"
  by (simp add: do_upload_def Let_def)

lemma process_next_blocked [simp]: "um_cancel_flag m \<or> um_queue m = [] \<Longrightarrow> process_next env m = (None, m)"
  by (simp add: process_next_def)

lemma process_next_queue:
  "um_queue (snd (process_next env m)) = (if um_cancel_flag m then um_queue m else butlast (um_queue m))"
  by (simp add: process_next_def Let_def case_prod_unfold do_upload_manager)

lemma process_next_config [simp]:
  "um_config (snd (process_next env m)) = um_config m"
  "um_cancel_flag (snd (process_next env m)) = um_cancel_flag m"
  by (simp_all add: process_next_def Let_def case_prod_unfold do_upload_manager)

lemma process_next_result:
  assumes "\<not> um_cancel_flag m" "um_queue m = q @ [job]"
  shows "fst (process_next env m) = Some (fst (do_upload env job m))"
  using assms by (simp add: process_next_def Let_def case_prod_unfold do_upload_def)

lemma upload_episode_manager:
  "snd (upload_episode env now entry root_dir m) =
    (if ue_exists env (entry_mcap_path entry root_dir)
     then snd (process_next env (enqueue_job (job_from_entry now entry root_dir) m)) else m)"
  by (simp add: upload_episode_def job_from_entry_def Let_def split: prod.split option.split)

lemma enqueue_queue:
  "um_queue (enqueue_job job m) =
    (if uj_episode_id job \<in> uj_episode_id ` set (um_queue m) then um_queue m
     else sort_key job_key (um_queue m @ [job]))"
  by (simp add: enqueue_job_def)

lemma enqueue_fields [simp]:
  "um_config (enqueue_job job m) = um_config m" "um_cancel_flag (enqueue_job job m) = um_cancel_flag m"
  "um_session_bytes_uploaded (enqueue_job job m) = um_session_bytes_uploaded m"
  "um_active_uploads (enqueue_job job m) = um_active_uploads m"
  by (simp_all add: enqueue_job_def)

lemma distinct_map_sort_key: "distinct (map f (sort_key k xs)) \<longleftrightarrow> distinct (map f xs)"
  by (simp add: distinct_map distinct_sort inj_on_def)

lemma queue_ok_enqueue: "queue_ok m \<Longrightarrow> queue_ok (enqueue_job job m)"
  by (auto simp: queue_ok_def enqueue_queue distinct_map_sort_key)

lemma queue_ok_batch: "queue_ok m \<Longrightarrow> queue_ok (enqueue_batch jobs m)"
  unfolding enqueue_batch_def by (induction jobs arbitrary: m) (auto intro: queue_ok_enqueue)

lemma queue_ok_butlast: "queue_ok m \<Longrightarrow> um_queue m' = butlast (um_queue m) \<Longrightarrow> queue_ok m'"
  unfolding queue_ok_def
  by (cases "um_queue m" rule: rev_cases) (auto simp: sorted_append)

lemma queue_ok_process: "queue_ok m \<Longrightarrow> queue_ok (snd (process_next env m))"
  by (cases "um_cancel_flag m") (auto intro: queue_ok_butlast simp: process_next_queue)

lemma queue_ok_step: "upload_step m m' \<Longrightarrow> queue_ok m \<Longrightarrow> queue_ok m'"
proof (induction rule: upload_step.induct)
  case (CancelOne m ep)
  then show ?case
    by (simp add: queue_ok_def cancel_upload_def sorted_filter distinct_map_filter)
next
  case (UploadEpisode m env now entry root_dir)
  then show ?case by (simp add: upload_episode_manager queue_ok_enqueue queue_ok_process)
next
  case (CancelAll m)
  then show ?case by (simp add: queue_ok_def cancel_all_def)
qed (simp_all add: queue_ok_enqueue queue_ok_batch queue_ok_process)

lemma queue_ok_steps: "upload_step\<^sup>*\<^sup>* m m' \<Longrightarrow> queue_ok m \<Longrightarrow> queue_ok m'"
  by (induction rule: rtranclp_induct) (auto intro: queue_ok_step)

lemma queue_ok_new: "UploadManager_new c = Inr m \<Longrightarrow> queue_ok m"
  by (cases "upload_validate c") (auto simp: UploadManager_new_def queue_ok_def)

definition example_creds :: s3_credentials where
  "example_creds = s3_with_keys ''key'' ''secret''"

definition example_upload_config :: upload_config where
  "example_upload_config = UploadConfig_default\<lparr>uc_bucket := ''bucket'', uc_s3_credentials := example_creds\<rparr>"

definition example_uploads :: upload_manager where
  "example_uploads =
     \<lparr>um_config = example_upload_config, um_queue = [], um_active_uploads = [], um_cancel_flag = False,
      um_session_bytes_uploaded = 0\<rparr>"

definition example_job :: "string \<Rightarrow> int \<Rightarrow> upload_job" where
  "example_job e p = \<lparr>uj_episode_id = e, uj_mcap_path = ''/d/'' @ e, uj_metadata_path = None, uj_priority = p, uj_created_at = 7\<rparr>"

definition example_upload_env :: upload_env where
  "example_upload_env = \<lparr>ue_exists = (\<lambda>_. True), ue_file_len = (\<lambda>_. Some 10), ue_debug_path = (\<lambda>p. p), ue_elapsed_ms = (\<lambda>_. 1)\<rparr>"

definition example_upload_entry :: index_entry where
  "example_upload_entry =
     \<lparr>ie_episode_id = ''mine'', ie_path = ''mine'', ie_mcap_file = ''mine.mcap'', ie_metadata_file = None,
      ie_start_time_ns = 0, ie_end_time_ns = 1, ie_duration_seconds = 1, ie_size_bytes = 10, ie_sample_count = 1,
      ie_robot_id = ''r'', ie_uploaded = False, ie_uploaded_at = None, ie_upload_destination = None,
      ie_quality_score = 1, ie_created_at = 5, ie_labels = []\<rparr>"

lemmas upload_examples = example_creds_def example_upload_config_def example_uploads_def example_job_def
  example_upload_env_def UploadConfig_default_def s3_with_keys_def S3Credentials_default_def

lemma example_uploads_new: "UploadManager_new example_upload_config = Inr example_uploads"
  by (simp add: UploadManager_new_def upload_validate_def s3_is_configured_def upload_examples)

text \<open>
  C34. The queue is kept in descending order of priority and ascending order of age, and the next job
  is popped from its end: in every state a new manager can reach, the job \<open>process_next\<close> uploads is
  the one no queued job is less urgent than; among jobs of equal priority it is the youngest.
\<close>

theorem next_upload_is_least_urgent:
  assumes "UploadManager_new c = Inr m0" "upload_step\<^sup>*\<^sup>* m0 m" "process_next env m = (Some r, m')"
  shows "\<exists>job. um_queue m = um_queue m' @ [job] \<and> ur_episode_id r = uj_episode_id job \<and>
    list_all (\<lambda>k. uj_priority k > uj_priority job \<or>
      uj_priority k = uj_priority job \<and> uj_created_at k \<le> uj_created_at job) (um_queue m)"
proof -
  have ok: "queue_ok m" using assms(1,2) by (blast intro: queue_ok_steps queue_ok_new)
  have run: "\<not> um_cancel_flag m" "um_queue m \<noteq> []" using assms(3) by (auto simp: process_next_def split: if_splits)
  then obtain q job where q: "um_queue m = q @ [job]" by (metis rev_exhaust)
  have m': "um_queue m' = q" using assms(3) run(1) q process_next_queue [of env m] by simp
  have r: "ur_episode_id r = uj_episode_id job"
    using process_next_result [OF run(1) q, of env] assms(3) by simp
  have "list_all (\<lambda>k. job_key k \<le> job_key job) (um_queue m)"
    using ok q by (auto simp: queue_ok_def list_all_iff sorted_append)
  then have "list_all (\<lambda>k. uj_priority k > uj_priority job \<or>
      uj_priority k = uj_priority job \<and> uj_created_at k \<le> uj_created_at job) (um_queue m)"
    by (auto simp: list_all_iff job_key_def less_eq_prod_def)
  then show ?thesis using q m' r by auto
qed

theorem next_upload_is_least_urgent_witness:
  "let m = enqueue_job (example_job ''urgent'' 9) (enqueue_job (example_job ''idle'' 1) example_uploads) in
   map uj_episode_id (um_queue m) = [''urgent'', ''idle''] \<and>
   (\<exists>job. um_queue m = um_queue (snd (process_next example_upload_env m)) @ [job] \<and>
      ur_episode_id (the (fst (process_next example_upload_env m))) = uj_episode_id job \<and>
      list_all (\<lambda>k. uj_priority k > uj_priority job \<or>
        uj_priority k = uj_priority job \<and> uj_created_at k \<le> uj_created_at job) (um_queue m))"
proof -
  let ?m1 = "enqueue_job (example_job ''idle'' 1) example_uploads"
  let ?m = "enqueue_job (example_job ''urgent'' 9) ?m1"
  have q: "um_queue ?m = [example_job ''urgent'' 9, example_job ''idle'' 1]" "\<not> um_cancel_flag ?m"
    by (simp_all add: enqueue_queue upload_examples job_key_def less_eq_prod_def)
  have p: "process_next example_upload_env ?m =
      (Some (the (fst (process_next example_upload_env ?m))), snd (process_next example_upload_env ?m))"
    using process_next_result [of ?m "[example_job ''urgent'' 9]" "example_job ''idle'' 1" example_upload_env] q
    by (simp add: prod_eq_iff)
  have "upload_step\<^sup>*\<^sup>* example_uploads ?m"
    by (meson rtranclp.rtrancl_into_rtrancl rtranclp.rtrancl_refl upload_step.Enqueue)
  from next_upload_is_least_urgent [OF example_uploads_new this p]
  show ?thesis using q(1) by (simp add: Let_def example_job_def)
qed

lemma cancelled_step:
  "upload_step m m' \<Longrightarrow> um_cancel_flag m \<Longrightarrow>
    um_cancel_flag m' \<and> um_session_bytes_uploaded m' = um_session_bytes_uploaded m"
proof (induction rule: upload_step.induct)
  case (EnqueueBatch m jobs)
  have "um_cancel_flag (fold enqueue_job jobs m) = um_cancel_flag m \<and>
    um_session_bytes_uploaded (fold enqueue_job jobs m) = um_session_bytes_uploaded m" for m
    by (induction jobs arbitrary: m) simp_all
  then show ?case using EnqueueBatch by (simp add: enqueue_batch_def)
next
  case (UploadEpisode m env now entry root_dir)
  then show ?case by (simp add: upload_episode_manager)
qed (simp_all add: cancel_all_def cancel_upload_def)

lemma cancelled_steps:
  "upload_step\<^sup>*\<^sup>* m m' \<Longrightarrow> um_cancel_flag m \<Longrightarrow>
    um_cancel_flag m' \<and> um_session_bytes_uploaded m' = um_session_bytes_uploaded m"
  by (induction rule: rtranclp_induct) (auto dest: cancelled_step)

text \<open>
  \<open>cancel_all\<close> is final: whatever is called afterwards, no job is ever processed again, nothing
  more is counted as uploaded, and \<open>upload_episode\<close> answers \<open>Cancelled\<close> for every stored episode
  while leaving its job in the queue.
\<close>

theorem cancel_all_is_final:
  assumes "upload_step\<^sup>*\<^sup>* (cancel_all m) m'"
  shows "process_next env m' = (None, m') \<and>
    um_session_bytes_uploaded m' = um_session_bytes_uploaded m \<and>
    (case upload_episode env now entry root_dir m' of
       (r, m2) \<Rightarrow> if ue_exists env (entry_mcap_path entry root_dir)
                 then r = Inl UploadCancelled \<and> ie_episode_id entry \<in> uj_episode_id ` set (um_queue m2)
                 else m2 = m')"
proof -
  have c: "um_cancel_flag m'" "um_session_bytes_uploaded m' = um_session_bytes_uploaded m"
    using cancelled_steps [OF assms] by (simp_all add: cancel_all_def)
  then show ?thesis
    by (auto simp: upload_episode_def job_from_entry_def Let_def enqueue_queue)
qed

theorem cancel_all_is_final_witness:
  "let m' = enqueue_job (example_job ''late'' 0) (cancel_all example_uploads) in
   um_queue m' = [example_job ''late'' 0] \<and> process_next example_upload_env m' = (None, m')"
proof -
  have "upload_step\<^sup>*\<^sup>* (cancel_all example_uploads) (enqueue_job (example_job ''late'' 0) (cancel_all example_uploads))"
    by (meson rtranclp.rtrancl_into_rtrancl rtranclp.rtrancl_refl upload_step.Enqueue)
  then have "process_next example_upload_env (enqueue_job (example_job ''late'' 0) (cancel_all example_uploads)) =
    (None, enqueue_job (example_job ''late'' 0) (cancel_all example_uploads))"
    using cancel_all_is_final by blast
  then show ?thesis by (simp add: Let_def enqueue_queue cancel_all_def)
qed

section \<open>Draining the queue\<close>

text \<open>\<open>n\<close> calls of \<open>process_next\<close>, the results in the order they are returned.\<close>

primrec process_n :: "upload_env \<Rightarrow> nat \<Rightarrow> upload_manager \<Rightarrow> upload_result option list \<times> upload_manager" where
  "process_n env 0 m = ([], m)"
| "process_n env (Suc n) m =
     (case process_next env m of (r, m1) \<Rightarrow> case process_n env n m1 of (rs, m2) \<Rightarrow> (r # rs, m2))"

lemma do_upload_config:
  "um_config m' = um_config m \<Longrightarrow> fst (do_upload env job m') = fst (do_upload env job m)"
  by (simp add: do_upload_def Let_def)

lemma process_n_drain:
  assumes "\<not> um_cancel_flag m" "um_queue m = q"
  shows "fst (process_n env (length q) m) = map (\<lambda>job. Some (fst (do_upload env job m))) (rev q) \<and>
    um_queue (snd (process_n env (length q) m)) = []"
  using assms
proof (induction q arbitrary: m rule: rev_induct)
  case (snoc job q)
  obtain r m1 where p: "process_next env m = (r, m1)" by fastforce
  have m1: "um_queue m1 = q" "\<not> um_cancel_flag m1" "um_config m1 = um_config m"
    using process_next_queue [of env m] process_next_config [of env m] p snoc.prems by simp_all
  have r: "r = Some (fst (do_upload env job m))"
    using process_next_result [OF snoc.prems, of env] p by simp
  show ?case using snoc.IH [OF m1(2,1)] p r do_upload_config [OF m1(3)]
    by (simp add: case_prod_unfold cong: map_cong)
qed simp

text \<open>The bytes a job stands for: the length of its recording, nothing when the file is missing.\<close>

definition job_bytes :: "upload_env \<Rightarrow> upload_job \<Rightarrow> u64" where
  "job_bytes env job =
     (if ue_exists env (uj_mcap_path job)
      then (case ue_file_len env (uj_mcap_path job) of Some n \<Rightarrow> n | None \<Rightarrow> 0) else 0)"

lemma process_n_session:
  assumes "\<not> um_cancel_flag m" "um_queue m = q"
  shows "um_session_bytes_uploaded (snd (process_n env (length q) m)) =
    um_session_bytes_uploaded m + sum_list (map (job_bytes env) q)"
  using assms
proof (induction q arbitrary: m rule: rev_induct)
  case (snoc job q)
  obtain r m1 where p: "process_next env m = (r, m1)" by fastforce
  have m1: "um_queue m1 = q" "\<not> um_cancel_flag m1"
    using process_next_queue [of env m] process_next_config [of env m] p snoc.prems by simp_all
  have "um_session_bytes_uploaded m1 = um_session_bytes_uploaded m + job_bytes env job"
    using p snoc.prems by (auto simp: process_next_def do_upload_def job_bytes_def Let_def split: if_splits)
  then show ?case using snoc.IH [OF m1(2,1)] p by (simp add: case_prod_unfold)
qed simp

text \<open>
  C35. Without a cancellation, as many calls of \<open>process_next\<close> as there are queued jobs empty the queue and
  give one result for each job, from the end of the queue to its front. A job whose recording exists
  succeeds with the address made of the configuration, its episode and its file name, and with the
  length of the file; a job whose recording is missing fails, is not tried again and is gone from the queue too. The bytes
  counted for the session grow by the lengths of the files of the first kind.
\<close>

theorem queue_drains:
  assumes "\<not> um_cancel_flag m"
  shows "map (map_option (\<lambda>r. (ur_episode_id r, ur_success r, ur_bytes_uploaded r, take 1 (ur_urls r), ur_retries r)))
      (fst (process_n env (length (um_queue m)) m)) =
    map (\<lambda>job. Some (if ue_exists env (uj_mcap_path job)
        then (uj_episode_id job, True, job_bytes env job,
              [base_url (um_config m) (object_key (um_config m) (uj_episode_id job)
                 (case path_file_name (uj_mcap_path job) of Some f \<Rightarrow> f | None \<Rightarrow> ''episode.mcap''))], 0)
        else (uj_episode_id job, False, 0, [], 0))) (rev (um_queue m)) \<and>
    um_queue (snd (process_n env (length (um_queue m)) m)) = [] \<and>
    um_session_bytes_uploaded (snd (process_n env (length (um_queue m)) m)) =
      um_session_bytes_uploaded m + sum_list (map (job_bytes env) (um_queue m))"
  using process_n_drain [OF assms refl, of env] process_n_session [OF assms refl, of env]
  by (simp add: do_upload_def job_bytes_def Let_def)

definition partly_missing :: upload_env where
  "partly_missing = \<lparr>ue_exists = (\<lambda>p. p \<noteq> uj_mcap_path (example_job ''idle'' 1)), ue_file_len = (\<lambda>p. Some 5),
     ue_debug_path = (\<lambda>p. p), ue_elapsed_ms = (\<lambda>j. 1)\<rparr>"

theorem queue_drains_witness:
  "let m = enqueue_job (example_job ''urgent'' 9) (enqueue_job (example_job ''idle'' 1) example_uploads) in
   map (map_option (\<lambda>r. (ur_episode_id r, ur_success r, ur_bytes_uploaded r))) (fst (process_n partly_missing 2 m))
     = [Some (''idle'', False, 0), Some (''urgent'', True, 5)] \<and>
   um_queue (snd (process_n partly_missing 2 m)) = []"
proof -
  let ?m = "enqueue_job (example_job ''urgent'' 9) (enqueue_job (example_job ''idle'' 1) example_uploads)"
  have q: "um_queue ?m = [example_job ''urgent'' 9, example_job ''idle'' 1]" "\<not> um_cancel_flag ?m"
    by (simp_all add: enqueue_queue upload_examples job_key_def less_eq_prod_def)
  have e: "\<not> ue_exists partly_missing (uj_mcap_path (example_job ''idle'' 1))"
    "ue_exists partly_missing (uj_mcap_path (example_job ''urgent'' 9))"
    "job_bytes partly_missing (example_job ''urgent'' 9) = 5"
    by (simp_all add: partly_missing_def job_bytes_def example_job_def)
  let ?f = "map_option (\<lambda>(i, s, n, u, k). (i, s, n))"
  let ?rs = "map (map_option (\<lambda>r. (ur_episode_id r, ur_success r, ur_bytes_uploaded r, take 1 (ur_urls r), ur_retries r)))
    (fst (process_n partly_missing 2 ?m))"
  have "map ?f ?rs = [Some (''idle'', False, 0), Some (''urgent'', True, 5)] \<and> um_queue (snd (process_n partly_missing 2 ?m)) = []"
    using queue_drains [OF q(2), of partly_missing] unfolding q(1)
    by (simp add: numeral_2_eq_2 e del: process_n.simps) (simp add: example_job_def)
  then show ?thesis by (simp add: Let_def option.map_comp comp_def del: process_n.simps)
qed

section \<open>Uploading one episode\<close>

lemma sort_key_greatest_last:
  fixes f :: "'a \<Rightarrow> 'k :: linorder"
  assumes "\<And>y. y \<in> set xs \<Longrightarrow> f y \<le> f x"
  shows "sort_key f (xs @ [x]) = sort_key f xs @ [x]"
proof -
  have stable: "filter (\<lambda>y. f k = f y) (sort_key f xs) = filter (\<lambda>y. f k = f y) xs" for k
    using sort_key_stable [of f "f k" xs] by (simp only: eq_commute [of "f k"])
  show ?thesis
    using assms by (intro properties_for_sort_key) (simp_all add: sorted_append stable)
qed

lemma upload_episode_own:
  assumes "\<not> um_cancel_flag m" "ie_episode_id entry \<notin> uj_episode_id ` set (um_queue m)"
    "list_all (\<lambda>k. uj_priority k \<ge> 0 \<and> uj_created_at k \<le> now) (um_queue m)"
    "ue_exists env (entry_mcap_path entry root_dir)"
  shows "fst (upload_episode env now entry root_dir m) = Inr (fst (do_upload env (job_from_entry now entry root_dir) m)) \<and>
    um_queue (snd (upload_episode env now entry root_dir m)) = sort_key job_key (um_queue m)"
proof -
  let ?job = "job_from_entry now entry root_dir"
  have "job_key k \<le> job_key ?job" if "k \<in> set (um_queue m)" for k
    using assms(3) that by (auto simp: list_all_iff job_key_def job_from_entry_def less_eq_prod_def)
  then have q: "um_queue (enqueue_job ?job m) = sort_key job_key (um_queue m) @ [?job]"
    using assms(2) by (simp add: enqueue_queue sort_key_greatest_last job_from_entry_def)
  have r: "fst (process_next env (enqueue_job ?job m)) = Some (fst (do_upload env ?job m))"
    using process_next_result [OF _ q] assms(1) do_upload_config [of "enqueue_job ?job m" m] by simp
  have "um_queue (snd (process_next env (enqueue_job ?job m))) = sort_key job_key (um_queue m)"
    using assms(1) q by (simp add: process_next_queue)
  then show ?thesis using r assms(4)
    by (auto simp: upload_episode_def job_from_entry_def Let_def split: prod.split option.split)
qed

text \<open>
  \<open>upload_episode\<close> uploads the episode it is asked for when the episode is not queued yet and no
  queued job has a negative priority or a later creation time; the other jobs stay queued.
\<close>

theorem upload_episode_uploads_own:
  assumes "\<not> um_cancel_flag m" "ie_episode_id entry \<notin> uj_episode_id ` set (um_queue m)"
    "list_all (\<lambda>k. uj_priority k \<ge> 0 \<and> uj_created_at k \<le> now) (um_queue m)"
    "ue_exists env (entry_mcap_path entry root_dir)"
  shows "(case fst (upload_episode env now entry root_dir m) of
      Inr r \<Rightarrow> ur_episode_id r = ie_episode_id entry \<and> ur_success r
    | Inl _ \<Rightarrow> False) \<and>
    mset (um_queue (snd (upload_episode env now entry root_dir m))) = mset (um_queue m)"
  using upload_episode_own [OF assms] assms(4)
  by (simp add: do_upload_def Let_def job_from_entry_def)

theorem upload_episode_uploads_own_witness:
  "mset (um_queue (snd (upload_episode example_upload_env 8 example_upload_entry ''/d''
     (enqueue_job (example_job ''other'' 3) example_uploads)))) = {#example_job ''other'' 3#}"
proof -
  have q: "um_queue (enqueue_job (example_job ''other'' 3) example_uploads) = [example_job ''other'' 3]"
    by (simp add: enqueue_queue example_uploads_def)
  show ?thesis
    using upload_episode_uploads_own [of "enqueue_job (example_job ''other'' 3) example_uploads"
        example_upload_entry 8 example_upload_env "''/d''"]
    unfolding q by (simp add: upload_examples example_upload_entry_def)
qed

section \<open>Object keys\<close>

lemma split_at_last_slash:
  assumes "a @ CHR ''/'' # f = b @ CHR ''/'' # g" "CHR ''/'' \<notin> set f" "CHR ''/'' \<notin> set g"
  shows "a = b \<and> f = g"
  using assms by (auto simp: append_eq_append_conv2 append_eq_Cons_conv Cons_eq_append_conv)

text \<open>
  Under one configuration, different episodes and different files never share an object key, as
  long as file names hold no slash; episode identifiers may hold any character.
\<close>

theorem object_key_injective:
  assumes "object_key c e f = object_key c e' f'" "CHR ''/'' \<notin> set f" "CHR ''/'' \<notin> set f'"
  shows "e = e' \<and> f = f'"
proof -
  let ?p = "if uc_prefix c = '''' then [] else trim_end_matches (CHR ''/'') (uc_prefix c) @ ''/''"
  have key: "object_key c x y = (?p @ x) @ CHR ''/'' # y" for x y
    by (simp add: object_key_def)
  show ?thesis using split_at_last_slash [OF assms(1) [unfolded key] assms(2,3)] by simp
qed

theorem object_key_injective_witness:
  "object_key example_upload_config ''a/b'' ''c'' \<noteq> object_key example_upload_config ''a'' ''c''"
  using object_key_injective [of example_upload_config "''a/b''" "''c''" "''a''" "''c''"] by fastforce

section \<open>Retry delays\<close>

lemma float_as_usize_bound: "0 \<le> x \<Longrightarrow> x < 2 ^ 64 \<Longrightarrow> real (unat (float_as_usize x)) \<le> x"
proof -
  assume x: "0 \<le> x" "x < 2 ^ 64"
  show ?thesis
  proof (cases "x \<le> 0")
    case False
    have "0 \<le> \<lfloor>x\<rfloor>" "\<lfloor>x\<rfloor> < 2 ^ 64" using x False by (simp_all add: floor_less_iff)
    then have "int (unat (of_int \<lfloor>x\<rfloor> :: u64)) = \<lfloor>x\<rfloor>"
      by (simp add: unsigned_of_int take_bit_int_eq_self)
    then have "real (unat (of_int \<lfloor>x\<rfloor> :: u64)) = of_int \<lfloor>x\<rfloor>" by (metis of_int_of_nat_eq)
    then show ?thesis using False x by (simp add: float_as_usize_def)
  qed (use x in \<open>simp add: float_as_usize_def\<close>)
qed

text \<open>
  A retry never waits longer than the configured maximum plus a quarter of it, whatever the
  attempt and whatever the multiplier.
\<close>

theorem retry_delay_bounded:
  assumes "unat (rp_max_delay_ms p) < 2 ^ 63"
  shows "4 * unat (delay_for_attempt nanos p attempt) \<le> 5 * unat (rp_max_delay_ms p)"
proof -
  note of_nat_unat [simp del]
  define b where "b = min (real (unat (rp_initial_delay_ms p)) * power_int (rp_multiplier p) (sint attempt))
    (real (unat (rp_max_delay_ms p)))"
  define d where "d = float_as_usize b"
  define M where "M = real (unat (rp_max_delay_ms p))"
  have "0 \<le> M" unfolding M_def by (rule of_nat_0_le_iff)
  moreover have "M < 2 ^ 63"
    using assms of_nat_less_iff [of "unat (rp_max_delay_ms p)" "2 ^ 63", where 'a = real] by (simp add: M_def)
  ultimately have M: "0 \<le> M" "M < 2 ^ 63" .
  have "b \<le> M" by (simp add: b_def M_def)
  then have d: "real (unat d) \<le> M"
    using M float_as_usize_bound [of b] by (cases "0 \<le> b") (auto simp: d_def float_as_usize_def)
  define j where "j = float_as_usize (real (unat d) * 0.25 * rand_simple nanos)"
  have "unat (nanos mod 1000) < 1000" by (simp add: unat_mod)
  then have rs: "0 \<le> rand_simple nanos" "rand_simple nanos \<le> 1" 
    by (simp_all add: rand_simple_def)
  have jb: "real (unat d) * 0.25 * rand_simple nanos \<le> real (unat d) * 0.25 * 1"
    using rs by (intro mult_left_mono) simp_all
  then have "real (unat j) \<le> real (unat d) * 0.25 * rand_simple nanos"
    unfolding j_def using rs d M by (intro float_as_usize_bound) simp_all
  then have j: "real (unat j) \<le> real (unat d) / 4" using jb by simp
  have "real (unat d + unat j) < 2 ^ 64" using j d M by simp
  then have fits: "unat (d + j) = unat d + unat j"
    by (subst unat_add_lem [THEN iffD1]) (simp_all flip: of_nat_less_iff [where 'a = real])
  have "real (unat (d + j)) \<le> 5 / 4 * M" "real (unat d) \<le> 5 / 4 * M" using j d fits M by simp_all
  moreover have "delay_for_attempt nanos p attempt = (if rp_jitter p then d + j else d)"
    unfolding delay_for_attempt_def Let_def b_def d_def j_def by (rule refl)
  ultimately have "real (4 * unat (delay_for_attempt nanos p attempt)) \<le> real (5 * unat (rp_max_delay_ms p))"
    by (simp add: M_def [symmetric])
  then show ?thesis by (simp only: of_nat_le_iff)
qed

theorem retry_delay_bounded_witness:
  "4 * unat (delay_for_attempt 999 RetryPolicy_default 10) \<le> 300000"
  using retry_delay_bounded [of RetryPolicy_default 999 10] by (simp add: RetryPolicy_default_def)

end
