(* ===== verification/Collection.thy ===== *)
theory Collection
  imports Packager Triggers Upload
begin

text \<open>
  The data collection plugin (\<open>robotics/data_collection/plugin.rs\<close>): it puts samples into the ring
  buffers, starts an episode when a trigger fires or on request, and packages, stores and uploads the
  episode when it ends. The calls the program makes of it are steps on its state and the disk. The
  clock and fresh episode ids are arguments; \<open>None\<close> is a panic.
\<close>

section \<open>Configuration\<close>

datatype collection_error =
    NotInitialized
  | CollectionAlreadyRunning
  | CollectionNotRunning
  | CollectionConfigError string
  | CollectionBufferError string
  | CollectionPackagerError packager_error
  | CollectionStorageError storage_error
  | CollectionUploadError upload_error
  | CollectionIo string
  | EpisodeInProgress
  | NoEpisodeInProgress
  | CollectionStreamNotFound string

datatype collection_state = CsCreated | CsInitialized | CsRunning | CsRecording | CsPackaging | CsStopped | CsError

record buffer_settings =
  bf_memory_limit_bytes :: u64
  bf_default_capacity :: nat
  bf_max_age_seconds :: f32

definition BufferSettings_default :: buffer_settings where
  "BufferSettings_default = \<lparr>bf_memory_limit_bytes = 1024 * 1024 * 1024, bf_default_capacity = 1000, bf_max_age_seconds = 60\<rparr>"

record data_collection_config =
  cc_name :: string
  cc_robot_id :: string
  cc_fleet_id :: "string option"
  cc_streams :: "stream_config list"
  cc_buffer :: buffer_settings
  cc_storage :: storage_config
  cc_packager :: packager_config
  cc_privacy :: privacy_config
  cc_upload :: "upload_config option"
  cc_auto_upload :: bool
  cc_auto_start :: bool
  cc_default_episode_duration_secs :: f32
  cc_trigger_cooldown_secs :: f32

definition DataCollectionConfig_default :: data_collection_config where
  "DataCollectionConfig_default =
     \<lparr>cc_name = ''data-collection'', cc_robot_id = ''robot-001'', cc_fleet_id = None, cc_streams = [],
      cc_buffer = BufferSettings_default, cc_storage = StorageConfig_default, cc_packager = PackagerConfig_default,
      cc_privacy = PrivacyConfig_default, cc_upload = None, cc_auto_upload = False, cc_auto_start = False,
      cc_default_episode_duration_secs = 60, cc_trigger_cooldown_secs = 5\<rparr>"

definition DataCollectionConfig_new :: "string \<Rightarrow> data_collection_config" where
  "DataCollectionConfig_new robot_id = DataCollectionConfig_default\<lparr>cc_robot_id := robot_id\<rparr>"

definition collection_with_name :: "string \<Rightarrow> data_collection_config \<Rightarrow> data_collection_config" where
  "collection_with_name name c = c\<lparr>cc_name := name\<rparr>"

definition collection_with_stream :: "stream_config \<Rightarrow> data_collection_config \<Rightarrow> data_collection_config" where
  "collection_with_stream stream c = c\<lparr>cc_streams := cc_streams c @ [stream]\<rparr>"

definition collection_with_storage :: "storage_config \<Rightarrow> data_collection_config \<Rightarrow> data_collection_config" where
  "collection_with_storage config c = c\<lparr>cc_storage := config\<rparr>"

definition collection_with_upload :: "upload_config \<Rightarrow> data_collection_config \<Rightarrow> data_collection_config" where
  "collection_with_upload config c = c\<lparr>cc_upload := Some config\<rparr>"

definition collection_with_auto_upload :: "bool \<Rightarrow> data_collection_config \<Rightarrow> data_collection_config" where
  "collection_with_auto_upload is_on c = c\<lparr>cc_auto_upload := is_on\<rparr>"

definition collection_validate :: "data_collection_config \<Rightarrow> collection_error + unit" where
  "collection_validate c =
     (if cc_robot_id c = '''' then Inl (CollectionConfigError ''Robot ID is required'')
      else if cc_streams c = [] then Inl (CollectionConfigError ''At least one stream is required'')
      else case cc_upload c of
             Some upload \<Rightarrow> (case upload_validate upload of Inl e \<Rightarrow> Inl (CollectionUploadError e) | Inr _ \<Rightarrow> Inr ())
           | None \<Rightarrow> Inr ())"

section \<open>State\<close>

record active_episode =
  ae_episode_id :: episode_id
  ae_start_time_ns :: timestamp_ns
  ae_expected_end_ns :: timestamp_ns
  ae_trigger_event :: trigger_event
  ae_metadata :: episode_metadata

record collection_stats =
  cs_samples_received :: u64
  cs_episodes_started :: u64
  cs_episodes_completed :: u64
  cs_episodes_failed :: u64
  cs_bytes_packaged :: u64
  cs_bytes_uploaded :: u64
  cs_triggers_evaluated :: u64
  cs_triggers_fired :: u64

definition PluginStats_default :: collection_stats where
  "PluginStats_default =
     \<lparr>cs_samples_received = 0, cs_episodes_started = 0, cs_episodes_completed = 0, cs_episodes_failed = 0,
      cs_bytes_packaged = 0, cs_bytes_uploaded = 0, cs_triggers_evaluated = 0, cs_triggers_fired = 0\<rparr>"

record 't data_collection =
  dc_config :: data_collection_config
  dc_state :: collection_state
  dc_buffers :: buffer_manager
  dc_triggers :: "'t trigger_manager"
  dc_packager :: episode_packager
  dc_storage :: "storage_manager option"
  dc_upload :: "upload_manager option"
  dc_active :: "active_episode option"
  dc_stats :: collection_stats
  dc_enabled :: bool
  dc_running :: bool

text \<open>The outside: what packager, storage and upload manager use, and the triggers' own code.\<close>

record ('d, 't) collection_env =
  ce_packager :: "'d packager_env"
  ce_storage :: "'d storage_env"
  ce_upload :: "'d \<Rightarrow> upload_env"
  ce_layout :: layout
  ce_trigger_id :: "'t \<Rightarrow> trigger_id"
  ce_trigger_on :: "'t \<Rightarrow> bool"
  ce_trigger_eval :: "trigger_context \<Rightarrow> 't \<Rightarrow> trigger_event option \<times> 't"

type_synonym ('d, 't, 'a) collection_result = "(collection_error + 'a) \<times> 't data_collection \<times> 'd"

definition register_streams :: "data_collection_config \<Rightarrow> buffer_manager" where
  "register_streams config =
     fold (\<lambda>stream m. snd (register_stream (st_stream_id stream) (Some (bf_default_capacity (cc_buffer config)))
                             (Some (bf_max_age_seconds (cc_buffer config))) m))
       (cc_streams config) (BufferManager_new (bf_memory_limit_bytes (cc_buffer config)))"

definition DataCollectionPlugin_new :: "data_collection_config \<Rightarrow> collection_error + 't data_collection" where
  "DataCollectionPlugin_new config =
     and_then (collection_validate config) (\<lambda>_.
       Inr \<lparr>dc_config = config, dc_state = CsCreated, dc_buffers = register_streams config,
            dc_triggers = with_cooldown (float_as_usize (cc_trigger_cooldown_secs config * 1000000000)) TriggerManager_new,
            dc_packager = EpisodePackager_new ((cc_packager config)
              \<lparr>pk_output_dir := sg_root_dir (cc_storage config), pk_privacy_config := cc_privacy config,
               pk_streams := cc_streams config\<rparr>),
            dc_storage = None, dc_upload = None, dc_active = None, dc_stats = PluginStats_default,
            dc_enabled = True, dc_running = False\<rparr>)"

text \<open>The builder is a configuration that its methods update.\<close>

definition builder_name :: "string \<Rightarrow> data_collection_config \<Rightarrow> data_collection_config" where
  "builder_name x c = c\<lparr>cc_name := x\<rparr>"

definition builder_fleet_id :: "string \<Rightarrow> data_collection_config \<Rightarrow> data_collection_config" where
  "builder_fleet_id x c = c\<lparr>cc_fleet_id := Some x\<rparr>"

definition builder_stream :: "stream_config \<Rightarrow> data_collection_config \<Rightarrow> data_collection_config" where
  "builder_stream x c = c\<lparr>cc_streams := cc_streams c @ [x]\<rparr>"

definition builder_streams :: "stream_config list \<Rightarrow> data_collection_config \<Rightarrow> data_collection_config" where
  "builder_streams x c = c\<lparr>cc_streams := cc_streams c @ x\<rparr>"

definition builder_buffer :: "buffer_settings \<Rightarrow> data_collection_config \<Rightarrow> data_collection_config" where
  "builder_buffer x c = c\<lparr>cc_buffer := x\<rparr>"

definition builder_storage :: "storage_config \<Rightarrow> data_collection_config \<Rightarrow> data_collection_config" where
  "builder_storage x c = c\<lparr>cc_storage := x\<rparr>"

definition builder_storage_dir :: "path \<Rightarrow> data_collection_config \<Rightarrow> data_collection_config" where
  "builder_storage_dir x c = c\<lparr>cc_storage := (cc_storage c)\<lparr>sg_root_dir := x\<rparr>\<rparr>"

definition builder_privacy :: "privacy_config \<Rightarrow> data_collection_config \<Rightarrow> data_collection_config" where
  "builder_privacy x c = c\<lparr>cc_privacy := x\<rparr>"

definition builder_upload :: "upload_config \<Rightarrow> data_collection_config \<Rightarrow> data_collection_config" where
  "builder_upload x c = c\<lparr>cc_upload := Some x\<rparr>"

definition builder_auto_upload :: "bool \<Rightarrow> data_collection_config \<Rightarrow> data_collection_config" where
  "builder_auto_upload x c = c\<lparr>cc_auto_upload := x\<rparr>"

definition builder_auto_start :: "bool \<Rightarrow> data_collection_config \<Rightarrow> data_collection_config" where
  "builder_auto_start x c = c\<lparr>cc_auto_start := x\<rparr>"

definition builder_default_episode_duration :: "f32 \<Rightarrow> data_collection_config \<Rightarrow> data_collection_config" where
  "builder_default_episode_duration x c = c\<lparr>cc_default_episode_duration_secs := x\<rparr>"

definition builder_trigger_cooldown :: "f32 \<Rightarrow> data_collection_config \<Rightarrow> data_collection_config" where
  "builder_trigger_cooldown x c = c\<lparr>cc_trigger_cooldown_secs := x\<rparr>"

definition builder_build :: "data_collection_config \<Rightarrow> collection_error + 't data_collection" where
  "builder_build = DataCollectionPlugin_new"

section \<open>Lifecycle\<close>

definition run_plugin :: "'t data_collection \<Rightarrow> 't data_collection" where
  "run_plugin p = p\<lparr>dc_running := True, dc_state := CsRunning\<rparr>"

text \<open>
  \<open>initialize\<close> and \<open>start\<close> call each other; the \<open>start\<close> inside \<open>initialize\<close> meets the state
  \<open>Initialized\<close>, so it neither refuses nor initializes again.
\<close>

definition collection_initialize ::
  "('d, 't) collection_env \<Rightarrow> 't data_collection \<times> 'd \<Rightarrow> ('d, 't, unit) collection_result" where
  "collection_initialize env = (\<lambda>(p, d).
     if dc_state p \<noteq> CsCreated then (Inl (CollectionConfigError ''Plugin already initialized''), p, d)
     else case StorageManager_new (ce_storage env) (cc_storage (dc_config p)) d of
            (Inl e, d1) \<Rightarrow> (Inl (CollectionStorageError e), p, d1)
          | (Inr storage, d1) \<Rightarrow>
              let p1 = p\<lparr>dc_storage := Some storage\<rparr>;
                  upload = (case cc_upload (dc_config p) of
                              None \<Rightarrow> Inr (dc_upload p1)
                            | Some config \<Rightarrow> map_sum CollectionUploadError Some (UploadManager_new config)) in
              (case upload of
                 Inl e \<Rightarrow> (Inl e, p1, d1)
               | Inr u \<Rightarrow>
                   let p2 = p1\<lparr>dc_upload := u, dc_state := CsInitialized\<rparr>
                   in (Inr (), if cc_auto_start (dc_config p) then run_plugin p2 else p2, d1)))"

definition collection_start ::
  "('d, 't) collection_env \<Rightarrow> 't data_collection \<times> 'd \<Rightarrow> ('d, 't, unit) collection_result" where
  "collection_start env = (\<lambda>(p, d).
     if dc_state p = CsRunning \<or> dc_state p = CsRecording then (Inl CollectionAlreadyRunning, p, d)
     else if dc_state p = CsCreated
     then case collection_initialize env (p, d) of
            (Inl e, p1, d1) \<Rightarrow> (Inl e, p1, d1)
          | (Inr _, p1, d1) \<Rightarrow> (Inr (), run_plugin p1, d1)
     else (Inr (), run_plugin p, d))"

definition is_recording :: "'t data_collection \<Rightarrow> bool" where
  "is_recording p \<longleftrightarrow> dc_active p \<noteq> None"

section \<open>Samples and triggers\<close>

text \<open>The text of a trigger error, as \<open>thiserror\<close> renders it.\<close>

fun trigger_error_str :: "trigger_error \<Rightarrow> string" where
  "trigger_error_str (TriggerNotFound s) = ''Trigger not found: '' @ s"
| "trigger_error_str (AlreadyRegistered s) = ''Trigger already registered: '' @ s"
| "trigger_error_str (InvalidTriggerConfig s) = ''Invalid trigger configuration: '' @ s"
| "trigger_error_str (EvaluationFailed s) = ''Trigger evaluation failed: '' @ s"

definition collection_register_trigger ::
  "('d, 't) collection_env \<Rightarrow> 't \<Rightarrow> 't data_collection \<Rightarrow> (collection_error + unit) \<times> 't data_collection" where
  "collection_register_trigger env t p =
     (case tm_register (ce_trigger_id env) t (dc_triggers p) of
        (r, m) \<Rightarrow> (map_sum (CollectionConfigError \<circ> trigger_error_str) (\<lambda>u. u) r, p\<lparr>dc_triggers := m\<rparr>))"

definition take_sample :: "layout \<Rightarrow> data_sample \<Rightarrow> 't data_collection \<Rightarrow> 't data_collection option" where
  "take_sample ly s p =
     map_option (\<lambda>m. p\<lparr>dc_buffers := m,
                       dc_stats := (dc_stats p)\<lparr>cs_samples_received := cs_samples_received (dc_stats p) + 1\<rparr>\<rparr>)
       (bm_push ly s (dc_buffers p))"

fun take_samples :: "layout \<Rightarrow> data_sample list \<Rightarrow> 't data_collection \<Rightarrow> 't data_collection option" where
  "take_samples ly [] p = Some p"
| "take_samples ly (s # ss) p = Option.bind (take_sample ly s p) (take_samples ly ss)"

definition push_sample :: "layout \<Rightarrow> data_sample \<Rightarrow> 't data_collection \<Rightarrow> ((collection_error + unit) \<times> 't data_collection) option" where
  "push_sample ly s p =
     (if \<not> dc_running p then Some (Inl CollectionNotRunning, p) else map_option (Pair (Inr ())) (take_sample ly s p))"

definition push_samples :: "layout \<Rightarrow> data_sample list \<Rightarrow> 't data_collection \<Rightarrow> ((collection_error + unit) \<times> 't data_collection) option" where
  "push_samples ly ss p =
     (if \<not> dc_running p then Some (Inl CollectionNotRunning, p) else map_option (Pair (Inr ())) (take_samples ly ss p))"

definition start_episode_from_trigger :: "episode_id \<Rightarrow> timestamp_ns \<Rightarrow> trigger_event \<Rightarrow> 't data_collection \<Rightarrow> episode_id \<times> 't data_collection" where
  "start_episode_from_trigger episode_id clock event p =
     (let now = te_timestamp_ns event;
          start_time = saturating_sub now (te_pre_roll_ns event);
          expected_end = now + te_post_roll_ns event;
          info = \<lparr>tf_trigger_type = ManualEpisode, tf_trigger_time_ns = now, tf_confidence = None,
                  tf_pre_buffer_seconds = real (unat (te_pre_roll_ns event)) / 1000000000,
                  tf_post_buffer_seconds = real (unat (te_post_roll_ns event)) / 1000000000,
                  tf_priority = NormalPrio, tf_details = te_metadata event\<rparr>;
          metadata = (EpisodeMetadata_new clock episode_id (cc_robot_id (dc_config p)) info)
                       \<lparr>em_start_time_ns := start_time, em_fleet_id := cc_fleet_id (dc_config p)\<rparr>
      in (episode_id, p\<lparr>dc_active := Some \<lparr>ae_episode_id = episode_id, ae_start_time_ns = start_time,
                           ae_expected_end_ns = expected_end, ae_trigger_event = event, ae_metadata = metadata\<rparr>,
                        dc_state := CsRecording,
                        dc_stats := (dc_stats p)\<lparr>cs_episodes_started := cs_episodes_started (dc_stats p) + 1\<rparr>\<rparr>))"

definition process_triggers ::
  "('d, 't) collection_env \<Rightarrow> episode_id \<Rightarrow> timestamp_ns \<Rightarrow> trigger_context \<Rightarrow> 't data_collection \<Rightarrow>
     (collection_error + trigger_event list) \<times> 't data_collection" where
  "process_triggers env fresh clock context p =
     (if \<not> dc_running p then (Inl CollectionNotRunning, p)
      else if is_recording p then (Inr [], p)
      else let (events, m) = tm_evaluate (ce_trigger_on env) (ce_trigger_eval env) context (dc_triggers p) in
           case events of
             [] \<Rightarrow> (Inr [], p\<lparr>dc_triggers := m\<rparr>)
           | event # _ \<Rightarrow>
               (Inr events, snd (start_episode_from_trigger fresh clock event
                                   (p\<lparr>dc_triggers := record_trigger_fired events m\<rparr>))))"

definition start_episode_manual ::
  "episode_id \<Rightarrow> timestamp_ns \<Rightarrow> string \<Rightarrow> 't data_collection \<Rightarrow> (collection_error + episode_id) \<times> 't data_collection" where
  "start_episode_manual fresh now reason p =
     (if \<not> dc_running p then (Inl CollectionNotRunning, p)
      else if is_recording p then (Inl EpisodeInProgress, p)
      else let secs = cc_default_episode_duration_secs (dc_config p);
               event = (TriggerEvent_new ''manual'' TtManual now reason)
                         \<lparr>te_pre_roll_ns := float_as_usize (secs * 0.25 * 1000000000),
                          te_post_roll_ns := float_as_usize (secs * 0.75 * 1000000000)\<rparr>;
               (i, p1) = start_episode_from_trigger fresh now event p
           in (Inr i, p1))"

section \<open>The end of an episode\<close>

definition store_result_of ::
  "('d, 't) collection_env \<Rightarrow> timestamp_ns \<Rightarrow> package_result \<Rightarrow> episode_metadata \<Rightarrow> storage_manager option \<times> 'd \<Rightarrow>
     (collection_error + unit) \<times> storage_manager option \<times> 'd" where
  "store_result_of env clock result metadata = (\<lambda>(storage, d).
     case storage of
       None \<Rightarrow> (Inr (), None, d)
     | Some sm \<Rightarrow>
         (case store_episode (ce_storage env) clock result metadata (sm, d) of
            (r, sm1, d1) \<Rightarrow> (map_sum CollectionStorageError (\<lambda>_. ()) r, Some sm1, d1)))"

definition auto_upload :: "('d, 't) collection_env \<Rightarrow> timestamp_ns \<Rightarrow> package_result \<Rightarrow> 't data_collection \<Rightarrow> 'd \<Rightarrow> 't data_collection" where
  "auto_upload env clock result p d =
     (if cc_auto_upload (dc_config p)
      then case (dc_upload p, dc_storage p) of
             (Some upload, Some storage) \<Rightarrow>
               (case hm_get (ix_episodes (sm_index storage)) (pr_episode_id result) of
                  Some entry \<Rightarrow> p\<lparr>dc_upload := Some (snd (upload_episode (ce_upload env d) clock entry
                                                     (sg_root_dir (cc_storage (dc_config p))) upload))\<rparr>
                | None \<Rightarrow> p)
           | _ \<Rightarrow> p
      else p)"

definition finish_episode ::
  "('d, 't) collection_env \<Rightarrow> timestamp_ns \<Rightarrow> timestamp_ns \<Rightarrow> 't data_collection \<times> 'd \<Rightarrow> ('d, 't, package_result) collection_result" where
  "finish_episode env clock end_time_ns = (\<lambda>(p, d).
     case dc_active p of
       None \<Rightarrow> (Inl NoEpisodeInProgress, p, d)
     | Some episode \<Rightarrow>
         let metadata = set_end_time end_time_ns (ae_metadata episode);
             (r, k, d1) = package_episode (ce_packager env) (ce_layout env) (ae_episode_id episode) (dc_buffers p)
                            (ae_start_time_ns episode) end_time_ns metadata (dc_packager p, d);
             p1 = p\<lparr>dc_active := None, dc_state := CsPackaging, dc_packager := k\<rparr> in
         case r of
           Inl e \<Rightarrow> (Inl (CollectionPackagerError e), p1, d1)
         | Inr result \<Rightarrow>
             (case store_result_of env clock result metadata (dc_storage p1, d1) of
                (Inl e, st, d2) \<Rightarrow> (Inl e, p1\<lparr>dc_storage := st\<rparr>, d2)
              | (Inr _, st, d2) \<Rightarrow>
                  let p2 = auto_upload env clock result (p1\<lparr>dc_storage := st\<rparr>) d2 in
                  (Inr result, p2\<lparr>dc_state := CsRunning,
                     dc_stats := (dc_stats p2)\<lparr>cs_episodes_completed := cs_episodes_completed (dc_stats p2) + 1,
                       cs_bytes_packaged := cs_bytes_packaged (dc_stats p2) + pr_file_size_bytes result\<rparr>\<rparr>, d2)))"

definition check_episode_timeout ::
  "('d, 't) collection_env \<Rightarrow> timestamp_ns \<Rightarrow> timestamp_ns \<Rightarrow> 't data_collection \<times> 'd \<Rightarrow>
     ('d, 't, package_result option) collection_result" where
  "check_episode_timeout env clock now = (\<lambda>(p, d).
     if (case dc_active p of Some episode \<Rightarrow> now \<ge> ae_expected_end_ns episode | None \<Rightarrow> False)
     then case finish_episode env clock now (p, d) of (r, s) \<Rightarrow> (map_sum (\<lambda>e. e) Some r, s)
     else (Inr None, p, d))"

definition halt_collection :: "('d, 't) collection_env \<Rightarrow> 't data_collection \<times> 'd \<Rightarrow> ('d, 't, unit) collection_result" where
  "halt_collection env = (\<lambda>(p, d).
     let p1 = p\<lparr>dc_running := False, dc_state := CsStopped\<rparr> in
     case dc_storage p1 of
       None \<Rightarrow> (Inr (), p1, d)
     | Some sm \<Rightarrow>
         (case sm_flush (ce_storage env) (sm, d) of
            (r, sm1, d1) \<Rightarrow> (map_sum CollectionStorageError (\<lambda>u. u) r, p1\<lparr>dc_storage := Some sm1\<rparr>, d1)))"

definition collection_stop ::
  "('d, 't) collection_env \<Rightarrow> timestamp_ns \<Rightarrow> timestamp_ns \<Rightarrow> 't data_collection \<times> 'd \<Rightarrow> ('d, 't, unit) collection_result" where
  "collection_stop env clock now = (\<lambda>(p, d).
     if \<not> dc_running p then (Inl CollectionNotRunning, p, d)
     else if is_recording p
     then case finish_episode env clock now (p, d) of
            (Inl e, s) \<Rightarrow> (Inl e, s)
          | (Inr _, s) \<Rightarrow> halt_collection env s
     else halt_collection env (p, d))"

section \<open>What is being recorded\<close>

record active_episode_info =
  ai_episode_id :: episode_id
  ai_start_time_ns :: timestamp_ns
  ai_expected_end_ns :: timestamp_ns
  ai_trigger_type :: trigger_type
  ai_elapsed_ns :: u64
  ai_remaining_ns :: u64

text \<open>The clock is read twice.\<close>

definition active_episode_info_of :: "timestamp_ns \<Rightarrow> timestamp_ns \<Rightarrow> 't data_collection \<Rightarrow> active_episode_info option" where
  "active_episode_info_of now1 now2 p =
     map_option (\<lambda>e. \<lparr>ai_episode_id = ae_episode_id e, ai_start_time_ns = ae_start_time_ns e,
                      ai_expected_end_ns = ae_expected_end_ns e, ai_trigger_type = te_trigger_type (ae_trigger_event e),
                      ai_elapsed_ns = saturating_sub now1 (ae_start_time_ns e),
                      ai_remaining_ns = saturating_sub (ae_expected_end_ns e) now2\<rparr>) (dc_active p)"

definition elapsed_seconds :: "active_episode_info \<Rightarrow> f64" where
  "elapsed_seconds i = real (unat (ai_elapsed_ns i)) / 1000000000"

definition remaining_seconds :: "active_episode_info \<Rightarrow> f64" where
  "remaining_seconds i = real (unat (ai_remaining_ns i)) / 1000000000"

definition progress_percent :: "active_episode_info \<Rightarrow> f32" where
  "progress_percent i =
     (let total = saturating_sub (ai_expected_end_ns i) (ai_start_time_ns i) in
      if total > 0 then min (real (unat (ai_elapsed_ns i)) / real (unat total) * 100) 100 else 100)"

section \<open>The calls of a program\<close>

datatype 't collection_call =
    Initialize
  | Start
  | Stop timestamp_ns timestamp_ns
  | RegisterTrigger 't
  | PushSamples "data_sample list"
  | ProcessTriggers episode_id timestamp_ns trigger_context
  | StartManual episode_id timestamp_ns string
  | FinishEpisode timestamp_ns timestamp_ns
  | CheckTimeout timestamp_ns timestamp_ns

text \<open>The state after a call, if it does not panic, and whether the call returned \<open>Ok\<close>.\<close>

fun collection_step ::
  "('d, 't) collection_env \<Rightarrow> 't collection_call \<Rightarrow> 't data_collection \<times> 'd \<Rightarrow> (bool \<times> 't data_collection \<times> 'd) option" where
  "collection_step env Initialize s = (case collection_initialize env s of (r, s1) \<Rightarrow> Some (\<not> isl r, s1))"
| "collection_step env Start s = (case collection_start env s of (r, s1) \<Rightarrow> Some (\<not> isl r, s1))"
| "collection_step env (Stop clock now) s = (case collection_stop env clock now s of (r, s1) \<Rightarrow> Some (\<not> isl r, s1))"
| "collection_step env (RegisterTrigger t) (p, d) =
     (case collection_register_trigger env t p of (r, p1) \<Rightarrow> Some (\<not> isl r, p1, d))"
| "collection_step env (PushSamples ss) (p, d) =
     map_option (\<lambda>(r, p1). (\<not> isl r, p1, d)) (push_samples (ce_layout env) ss p)"
| "collection_step env (ProcessTriggers fresh clock context) (p, d) =
     (case process_triggers env fresh clock context p of (r, p1) \<Rightarrow> Some (\<not> isl r, p1, d))"
| "collection_step env (StartManual fresh now reason) (p, d) =
     (case start_episode_manual fresh now reason p of (r, p1) \<Rightarrow> Some (\<not> isl r, p1, d))"
| "collection_step env (FinishEpisode clock end_time) s =
     (case finish_episode env clock end_time s of (r, s1) \<Rightarrow> Some (\<not> isl r, s1))"
| "collection_step env (CheckTimeout clock now) s =
     (case check_episode_timeout env clock now s of (r, s1) \<Rightarrow> Some (\<not> isl r, s1))"

inductive collection_reachable :: "('d, 't) collection_env \<Rightarrow> 't data_collection \<times> 'd \<Rightarrow> bool" for env where
  created: "DataCollectionPlugin_new config = Inr p \<Longrightarrow> collection_reachable env (p, d)"
| call: "collection_reachable env s \<Longrightarrow> collection_step env c s = Some (done_ok, s') \<Longrightarrow> collection_reachable env s'"

text \<open>What holds between calls.\<close>

definition collection_ok :: "'t data_collection \<Rightarrow> bool" where
  "collection_ok p \<longleftrightarrow>
     (dc_state p = CsRecording \<longleftrightarrow> is_recording p) \<and>
     (dc_running p \<longleftrightarrow> dc_state p \<in> {CsRunning, CsRecording, CsPackaging}) \<and>
     (dc_state p \<noteq> CsCreated \<longrightarrow> dc_storage p \<noteq> None) \<and>
     dc_state p \<noteq> CsError \<and>
     \<not> ek_is_packaging (dc_packager p) \<and>
     samples_filed (dc_buffers p) \<and>
     cs_episodes_failed (dc_stats p) = 0 \<and> cs_bytes_uploaded (dc_stats p) = 0 \<and>
     cs_triggers_evaluated (dc_stats p) = 0 \<and> cs_triggers_fired (dc_stats p) = 0"

lemma filed_streams: "samples_filed (register_streams config)"
proof -
  have "samples_filed bm \<Longrightarrow> samples_filed (fold (\<lambda>s m. snd (register_stream (f s) c a m)) xs bm)"
    for bm f c a and xs :: "stream_config list"
    by (induction xs arbitrary: bm) (simp_all add: filed_register)
  then show ?thesis by (simp add: register_streams_def)
qed

lemma new_ok: "DataCollectionPlugin_new config = Inr p \<Longrightarrow> collection_ok p"
  by (auto simp: DataCollectionPlugin_new_def and_then_def collection_ok_def is_recording_def filed_streams
      EpisodePackager_new_def PluginStats_default_def split: sum.splits)

lemma initialize_ok: "collection_initialize env (p, d) = (r, p', d') \<Longrightarrow> collection_ok p \<Longrightarrow> collection_ok p'"
  by (auto simp: collection_initialize_def collection_ok_def is_recording_def run_plugin_def Let_def
      split: if_splits prod.splits sum.splits)

lemma initialized_ok:
  "collection_initialize env (p, d) = (Inr u, p', d') \<Longrightarrow> collection_ok p \<Longrightarrow> collection_ok (run_plugin p')"
  by (auto simp: collection_initialize_def collection_ok_def is_recording_def run_plugin_def Let_def
      split: if_splits prod.splits sum.splits)

lemma start_ok: "collection_start env (p, d) = (r, p', d') \<Longrightarrow> collection_ok p \<Longrightarrow> collection_ok p'"
  by (auto simp: collection_start_def split: if_splits prod.splits sum.splits
      dest: initialize_ok initialized_ok)
    (auto simp: collection_ok_def is_recording_def run_plugin_def)

lemma package_episode_idle: "package_episode env ly i bm st en md (k, d) = (r, k', d') \<Longrightarrow> \<not> ek_is_packaging k \<Longrightarrow> \<not> ek_is_packaging k'"
  by (auto simp: package_episode_def split: prod.splits)

lemma store_result_keeps: "store_result_of env c r m (st, d) = (x, st', d') \<Longrightarrow> st' = None \<longleftrightarrow> st = None"
  by (auto simp: store_result_of_def split: option.splits prod.splits)

lemma auto_upload_only: "\<exists>u. auto_upload env c r p d = p\<lparr>dc_upload := u\<rparr>"
proof -
  have "p = p\<lparr>dc_upload := dc_upload p\<rparr>" by simp
  then show ?thesis unfolding auto_upload_def by (auto split: option.splits intro: exI [of _ "dc_upload p"])
qed

text \<open>The three ends of an episode.\<close>

definition packaged :: "active_episode \<Rightarrow> episode_packager \<Rightarrow> 't data_collection \<Rightarrow> 't data_collection" where
  "packaged e k p = p\<lparr>dc_active := None, dc_state := CsPackaging, dc_packager := k\<rparr>"

definition completed_stats :: "package_result \<Rightarrow> collection_stats \<Rightarrow> collection_stats" where
  "completed_stats result st = st\<lparr>cs_episodes_completed := cs_episodes_completed st + 1,
     cs_bytes_packaged := cs_bytes_packaged st + pr_file_size_bytes result\<rparr>"

lemma finish_episode_cases:
  assumes "finish_episode env c en (p, d) = (r, p', d')" "dc_active p = Some e"
  obtains
    (package_failed) err k where
      "package_episode (ce_packager env) (ce_layout env) (ae_episode_id e) (dc_buffers p) (ae_start_time_ns e) en
         (set_end_time en (ae_metadata e)) (dc_packager p, d) = (Inl err, k, d')"
      "r = Inl (CollectionPackagerError err)" "p' = packaged e k p"
  | (store_failed) res k d1 st err where
      "package_episode (ce_packager env) (ce_layout env) (ae_episode_id e) (dc_buffers p) (ae_start_time_ns e) en
         (set_end_time en (ae_metadata e)) (dc_packager p, d) = (Inr res, k, d1)"
      "store_result_of env c res (set_end_time en (ae_metadata e)) (dc_storage p, d1) = (Inl err, st, d')"
      "r = Inl err" "p' = (packaged e k p)\<lparr>dc_storage := st\<rparr>"
  | (finished) res k d1 st u where
      "package_episode (ce_packager env) (ce_layout env) (ae_episode_id e) (dc_buffers p) (ae_start_time_ns e) en
         (set_end_time en (ae_metadata e)) (dc_packager p, d) = (Inr res, k, d1)"
      "store_result_of env c res (set_end_time en (ae_metadata e)) (dc_storage p, d1) = (Inr (), st, d')"
      "r = Inr res"
      "p' = (packaged e k p)\<lparr>dc_storage := st, dc_upload := u, dc_state := CsRunning,
         dc_stats := completed_stats res (dc_stats p)\<rparr>"
proof -
  let ?md = "set_end_time en (ae_metadata e)"
  obtain x k d1 where pk: "package_episode (ce_packager env) (ce_layout env) (ae_episode_id e) (dc_buffers p)
      (ae_start_time_ns e) en ?md (dc_packager p, d) = (x, k, d1)" by (metis prod_cases3)
  show thesis
  proof (cases x)
    case (Inl err)
    then show thesis using assms pk by (intro package_failed [of err k]) (simp_all add: finish_episode_def packaged_def)
  next
    case (Inr res)
    obtain y st d2 where sr: "store_result_of env c res ?md (dc_storage p, d1) = (y, st, d2)" by (metis prod_cases3)
    obtain u where u: "auto_upload env c res ((packaged e k p)\<lparr>dc_storage := st\<rparr>) d2 = (packaged e k p)\<lparr>dc_storage := st, dc_upload := u\<rparr>"
      using auto_upload_only [of env c res "(packaged e k p)\<lparr>dc_storage := st\<rparr>" d2] by blast
    have f: "finish_episode env c en (p, d) = (case y of
        Inl err \<Rightarrow> (Inl err, (packaged e k p)\<lparr>dc_storage := st\<rparr>, d2)
      | Inr _ \<Rightarrow> (Inr res, (packaged e k p)\<lparr>dc_storage := st, dc_upload := u, dc_state := CsRunning,
         dc_stats := completed_stats res (dc_stats p)\<rparr>, d2))"
      using u unfolding finish_episode_def
      by (simp add: assms(2) pk Inr sr packaged_def [symmetric] del: packaged_def split: sum.split)
         (simp add: packaged_def completed_stats_def)
    show thesis
    proof (cases y)
      case (Inl err)
      then show thesis using assms(1) f pk Inr sr by (intro store_failed [of res k d1 err st]) simp_all
    next
      case (Inr un)
      then show thesis using assms(1) f pk \<open>x = Inr res\<close> sr by (intro finished [of res k d1 st u]) simp_all
    qed
  qed
qed

lemma finish_ok:
  assumes "finish_episode env c en (p, d) = (r, p', d')" "collection_ok p"
  shows "collection_ok p'"
proof (cases "dc_active p")
  case None
  then show ?thesis using assms by (auto simp: finish_episode_def)
next
  case (Some e)
  have run: "dc_running p" "dc_storage p \<noteq> None" "\<not> ek_is_packaging (dc_packager p)"
    using assms(2) Some by (auto simp: collection_ok_def is_recording_def)
  note defs = collection_ok_def is_recording_def packaged_def completed_stats_def
  show ?thesis using assms(1) Some
  proof (cases rule: finish_episode_cases)
    case (package_failed err k)
    then show ?thesis using assms(2) run package_episode_idle [OF package_failed(1)] by (simp add: defs)
  next
    case (store_failed res k d1 st err)
    then show ?thesis
      using assms(2) run package_episode_idle [OF store_failed(1)] store_result_keeps [OF store_failed(2)] by (simp add: defs)
  next
    case (finished res k d1 st u)
    then show ?thesis
      using assms(2) run package_episode_idle [OF finished(1)] store_result_keeps [OF finished(2)] by (simp add: defs)
  qed
qed

lemma finish_not_recording:
  assumes "finish_episode env c en (p, d) = (r, p', d')"
  shows "\<not> is_recording p'"
proof (cases "dc_active p")
  case None
  then show ?thesis using assms by (auto simp: finish_episode_def is_recording_def)
next
  case (Some e)
  show ?thesis using assms Some by (cases rule: finish_episode_cases) (simp_all add: is_recording_def packaged_def)
qed

lemma halt_ok:
  "halt_collection env (p, d) = (r, p', d') \<Longrightarrow> collection_ok p \<Longrightarrow> \<not> is_recording p \<Longrightarrow> dc_running p \<Longrightarrow> collection_ok p'"
  by (auto simp: halt_collection_def collection_ok_def is_recording_def Let_def split: option.splits prod.splits)

lemma take_samples_ok: "take_samples ly ss p = Some p' \<Longrightarrow> collection_ok p \<Longrightarrow> collection_ok p'"
proof (induction ss arbitrary: p)
  case (Cons s ss)
  obtain p1 where p1: "take_sample ly s p = Some p1" "take_samples ly ss p1 = Some p'"
    using Cons.prems(1) by (auto simp: bind_eq_Some_conv)
  obtain m where m: "bm_push ly s (dc_buffers p) = Some m" "p1 = p\<lparr>dc_buffers := m,
      dc_stats := (dc_stats p)\<lparr>cs_samples_received := cs_samples_received (dc_stats p) + 1\<rparr>\<rparr>"
    using p1(1) by (auto simp: take_sample_def)
  have "samples_filed m" using filed_push [OF _ m(1)] Cons.prems(2) by (simp add: collection_ok_def)
  then have "collection_ok p1" using Cons.prems(2) m(2) by (simp add: collection_ok_def is_recording_def)
  then show ?case by (rule Cons.IH [OF p1(2)])
qed simp

lemma start_episode_ok:
  "collection_ok p \<Longrightarrow> dc_running p \<Longrightarrow> collection_ok (snd (start_episode_from_trigger i c e p))"
  by (auto simp: start_episode_from_trigger_def collection_ok_def is_recording_def Let_def)


lemma stop_ok:
  assumes "collection_stop env c now (p, d) = (r, p', d')" "collection_ok p"
  shows "collection_ok p'"
proof -
  consider "\<not> dc_running p" | "dc_running p" "\<not> is_recording p" | "dc_running p" "is_recording p" by blast
  then show ?thesis
  proof cases
    case 3
    obtain x p1 d1 where f: "finish_episode env c now (p, d) = (x, p1, d1)" by (metis prod_cases3)
    have ok: "collection_ok p1" "\<not> is_recording p1" using finish_ok [OF f assms(2)] finish_not_recording [OF f] by simp_all
    obtain e where e: "dc_active p = Some e" using 3 by (auto simp: is_recording_def)
    have "dc_running p1" using f e 3 by (cases rule: finish_episode_cases) (simp_all add: packaged_def)
    then show ?thesis using assms(1) 3 f ok halt_ok [of env p1 d1] by (auto simp: collection_stop_def split: sum.splits)
  qed (insert assms halt_ok [of env p d], auto simp: collection_stop_def)
qed

lemma triggers_ok:
  assumes "process_triggers env fresh c ctx p = (r, p')" "collection_ok p"
  shows "collection_ok p'"
proof -
  obtain events m where ev: "tm_evaluate (ce_trigger_on env) (ce_trigger_eval env) ctx (dc_triggers p) = (events, m)" by fastforce
  have keep: "collection_ok (p\<lparr>dc_triggers := m\<rparr>)" for m using assms(2) by (simp add: collection_ok_def is_recording_def)
  have "p' = p \<or> p' = p\<lparr>dc_triggers := m\<rparr> \<or>
      dc_running p \<and> (\<exists>e. p' = snd (start_episode_from_trigger fresh c e (p\<lparr>dc_triggers := record_trigger_fired events m\<rparr>)))"
    using assms(1) unfolding process_triggers_def ev
    by (cases "dc_running p"; cases "is_recording p"; cases events) auto
  then show ?thesis using assms(2) keep start_episode_ok [OF keep] by (auto simp del: snd_conv)
qed

lemma manual_ok:
  assumes "start_episode_manual fresh now reason p = (r, p')" "collection_ok p"
  shows "collection_ok p'"
proof -
  have "p' = p \<or> dc_running p \<and> (\<exists>e. p' = snd (start_episode_from_trigger fresh now e p))"
    using assms(1) unfolding start_episode_manual_def Let_def case_prod_unfold
    by (cases "dc_running p"; cases "is_recording p") auto
  then show ?thesis using assms(2) start_episode_ok by auto
qed

lemma timeout_ok:
  "check_episode_timeout env c now (p, d) = (r, p', d') \<Longrightarrow> collection_ok p \<Longrightarrow> collection_ok p'"
  using finish_ok [of env c now p d] by (auto simp: check_episode_timeout_def case_prod_unfold prod_eq_iff split: if_splits)

lemma register_trigger_ok:
  "collection_register_trigger env t p = (r, p') \<Longrightarrow> collection_ok p \<Longrightarrow> collection_ok p'"
  by (auto simp: collection_register_trigger_def case_prod_unfold collection_ok_def is_recording_def)

lemma step_ok:
  assumes "collection_step env c (p, d) = Some (done_ok, p', d')" "collection_ok p"
  shows "collection_ok p'"
proof (cases c)
  case (PushSamples ss)
  then show ?thesis using assms take_samples_ok [of "ce_layout env" ss p p'] by (auto simp: push_samples_def split: if_splits)
next
  case (ProcessTriggers fresh clock ctx)
  then show ?thesis using assms by (auto simp: case_prod_unfold intro: triggers_ok [OF prod.collapse [symmetric]])
next
  case (RegisterTrigger t)
  then show ?thesis using assms by (auto simp: case_prod_unfold intro: register_trigger_ok [OF prod.collapse [symmetric]])
next
  case (StartManual fresh now reason)
  then show ?thesis using assms by (auto simp: case_prod_unfold intro: manual_ok [OF prod.collapse [symmetric]])
qed (insert assms, auto split: prod.splits dest: initialize_ok start_ok stop_ok finish_ok timeout_ok)

lemma reachable_ok: "collection_reachable env s \<Longrightarrow> collection_ok (fst s)"
proof (induction rule: collection_reachable.induct)
  case (created config p d)
  then show ?case by (simp add: new_ok)
next
  case (call s c done_ok s')
  show ?case using step_ok [of env c "fst s" "snd s" done_ok "fst s'" "snd s'"] call.hyps(2) call.IH by simp
qed

text \<open>
  C37. Between the calls of a program the plugin is in one of its regular states: it records exactly
  while an episode is active, it runs exactly in the states running, recording and packaging, it has a
  storage manager once it is initialized, its packager is never left busy, every buffered sample is in
  the buffer of its stream, and the state \<open>Error\<close> is never entered. The counters of failed episodes,
  uploaded bytes, evaluated and fired triggers stay zero whatever happens.
\<close>

theorem collection_invariant:
  assumes "collection_reachable env (p, d)"
  shows "collection_ok p"
  using reachable_ok [OF assms] by simp

text \<open>A run: a plugin with one stream is created, started, given a sample and told to record.\<close>

definition example_env :: "(path \<Rightarrow> u8 list, trigger) collection_env" where
  "example_env = \<lparr>ce_packager = example_disk,
     ce_storage = \<lparr>se_exists = (\<lambda>p d. False), se_is_dir = (\<lambda>_ _. True), se_create_dir_all = (\<lambda>_ d. (Inr (), d)),
       se_remove_dir_all = (\<lambda>_ d. (Inr (), d)), se_read_index = (\<lambda>_ _. Inr EpisodeIndex_new),
       se_write_index = (\<lambda>_ _ d. (Inr (), d)), se_read_metadata = (\<lambda>_ _. Inl (StorageIo ''none'')),
       se_read_dir = (\<lambda>_ _. Inr []), se_file_len = (\<lambda>_ _. Inr 0), se_created_at = (\<lambda>_ _. Inr 0)\<rparr>,
     ce_upload = (\<lambda>d. example_upload_env), ce_layout = example_layout, ce_trigger_id = tr_id,
     ce_trigger_on = tr_enabled, ce_trigger_eval = evaluate_trigger \<lparr>ff_fixed3 = (\<lambda>_. ''0''), ff_show = (\<lambda>_. ''0'')\<rparr>\<rparr>"

definition example_storage_config :: storage_config where
  "example_storage_config = StorageConfig_default\<lparr>sg_max_storage_bytes := 0, sg_max_episodes := 0, sg_auto_cleanup := False\<rparr>"

definition example_config :: data_collection_config where
  "example_config = (DataCollectionConfig_new ''r'')
     \<lparr>cc_streams := [StreamConfig_new ''imu'' (Imu ''imu'' ''imu'' True) 100],
      cc_storage := example_storage_config, cc_buffer := BufferSettings_default\<lparr>bf_default_capacity := 1\<rparr>\<rparr>"

definition example_created :: "trigger data_collection" where
  "example_created = projr (DataCollectionPlugin_new example_config)"

definition example_storage :: storage_manager where
  "example_storage = \<lparr>sm_config = example_storage_config, sm_index = EpisodeIndex_new, sm_index_dirty = False\<rparr>"

definition example_started :: "trigger data_collection" where
  "example_started = run_plugin (example_created\<lparr>dc_storage := Some example_storage, dc_state := CsInitialized\<rparr>)"

definition example_pushed :: "trigger data_collection" where
  "example_pushed = the (take_sample example_layout example_sample example_started)"

definition example_recording :: "trigger data_collection" where
  "example_recording = snd (start_episode_manual ''ep'' 60 ''test'' example_pushed)"

lemmas example_config_defs = example_config_def DataCollectionConfig_new_def DataCollectionConfig_default_def
  StreamConfig_new_def BufferSettings_default_def

lemma example_new: "DataCollectionPlugin_new example_config = Inr example_created"
  by (simp add: example_created_def DataCollectionPlugin_new_def collection_validate_def and_then_def example_config_defs)

lemma example_created_facts:
  "dc_config example_created = example_config" "dc_state example_created = CsCreated" "dc_active example_created = None"
  "dc_upload example_created = None" "dc_storage example_created = None"
  "dc_packager example_created = EpisodePackager_new (PackagerConfig_default\<lparr>pk_output_dir := sg_root_dir example_storage_config,
     pk_privacy_config := PrivacyConfig_default, pk_streams := cc_streams example_config\<rparr>)"
  "dc_buffers example_created = snd (register_stream ''imu'' (Some 1) (Some 60) (BufferManager_new (1024 * 1024 * 1024)))"
  by (simp_all add: example_created_def DataCollectionPlugin_new_def collection_validate_def and_then_def example_config_defs
      register_streams_def)

lemma example_start: "collection_start example_env (example_created, d) = (Inr (), example_started, d)"
proof -
  have "collection_initialize example_env (example_created, d) =
      (Inr (), example_created\<lparr>dc_storage := Some example_storage, dc_state := CsInitialized\<rparr>, d)"
    by (simp add: collection_initialize_def StorageManager_new_def load_index_def example_env_def and_then_def
        example_created_facts example_config_defs example_storage_def)
  then show ?thesis by (simp add: collection_start_def example_started_def example_created_facts(2))
qed

lemma example_bm_push: "\<exists>b. bm_push example_layout example_sample (dc_buffers example_created) = Some b \<and>
    collected b 0 90 = [example_sample] \<and> stream_counts b 0 90 = [(''imu'', 1)] \<and> samples_filed b"
  by (simp add: example_created_facts bm_push_def get_or_create_def register_stream_def RingBuffer_new_def unwrap_or_def
      rb_push_def example_sample_def DataSample_new_def BufferManager_new_def Let_def hm_insert_def hm_get_def
      collected_def stream_counts_def get_range_def rb_samples_def List.map_filter_def in_range_def samples_filed_def hm_wf_def)

lemma example_push:
  "take_sample example_layout example_sample example_started = Some example_pushed"
  "collected (dc_buffers example_pushed) 0 90 = [example_sample]" "stream_counts (dc_buffers example_pushed) 0 90 = [(''imu'', 1)]"
  "dc_running example_pushed" "\<not> is_recording example_pushed" "dc_config example_pushed = example_config"
  "dc_storage example_pushed = Some example_storage" "dc_packager example_pushed = dc_packager example_created"
  using example_bm_push
  by (auto simp: example_pushed_def take_sample_def example_started_def run_plugin_def is_recording_def example_created_facts(1,3))

lemma example_manual:
  "start_episode_manual ''ep'' 60 ''test'' example_pushed = (Inr ''ep'', example_recording)"
  "dc_buffers example_recording = dc_buffers example_pushed" "dc_packager example_recording = dc_packager example_pushed"
  "dc_storage example_recording = Some example_storage"
  "\<exists>e. dc_active example_recording = Some e \<and> ae_episode_id e = ''ep'' \<and> ae_start_time_ns e = 0"
  using example_push(4-7)
  by (simp_all add: example_recording_def start_episode_manual_def start_episode_from_trigger_def Let_def
      TriggerEvent_new_def example_config_defs float_as_usize_def saturating_sub_def)

lemma example_reachable: "collection_reachable example_env (example_recording, d)"
proof -
  have "collection_reachable example_env (example_created, d)" by (rule created [OF example_new])
  then have "collection_reachable example_env (example_started, d)"
    by (rule call [where c = Start]) (simp add: example_start)
  then have "collection_reachable example_env (example_pushed, d)"
    by (rule call [where c = "PushSamples [example_sample]"])
      (use example_push(1) in \<open>simp add: push_samples_def example_started_def run_plugin_def example_env_def\<close>)
  then show ?thesis
    by (rule call [where c = "StartManual ''ep'' 60 ''test''"]) (simp add: example_manual(1))
qed

theorem collection_invariant_witness:
  "collection_ok example_recording \<and> is_recording example_recording"
proof -
  have "is_recording example_recording" using example_manual(5) by (auto simp: is_recording_def)
  with collection_invariant [OF example_reachable] show ?thesis by simp
qed

text \<open>
  C38. An episode that ends with an error is lost: whether packaging or storing fails, no episode is
  active afterwards, the plugin stays in the state packaging while it still runs, nothing is counted
  (not even as a failed episode), the buffers keep their samples, and the call cannot be repeated, since
  finishing again reports that there is no episode. Stopping the plugin in such a moment fails too and
  leaves it running.
\<close>

theorem failed_episode_is_lost:
  assumes "finish_episode env c en (p, d) = (Inl err, p', d')" "is_recording p"
  shows "\<not> is_recording p' \<and> dc_state p' = CsPackaging \<and> dc_running p' = dc_running p \<and> dc_stats p' = dc_stats p \<and>
    dc_buffers p' = dc_buffers p \<and> finish_episode env c2 en2 (p', d') = (Inl NoEpisodeInProgress, p', d') \<and>
    (if dc_running p then collection_stop env c en (p, d) = (Inl err, p', d')
     else collection_stop env c en (p, d) = (Inl CollectionNotRunning, p, d))"
proof -
  obtain e where e: "dc_active p = Some e" using assms(2) by (auto simp: is_recording_def)
  have lost: "\<not> is_recording p' \<and> dc_state p' = CsPackaging \<and> dc_running p' = dc_running p \<and> dc_stats p' = dc_stats p \<and>
    dc_buffers p' = dc_buffers p"
    using assms(1) e by (cases rule: finish_episode_cases) (simp_all add: packaged_def is_recording_def)
  then have "finish_episode env c2 en2 (p', d') = (Inl NoEpisodeInProgress, p', d')"
    by (simp add: finish_episode_def is_recording_def)
  with lost show ?thesis using assms by (simp add: collection_stop_def)
qed

text \<open>A disk that is full: no file can be created.\<close>

definition full_disk_env :: "(path \<Rightarrow> u8 list, trigger) collection_env" where
  "full_disk_env = example_env\<lparr>ce_packager := example_disk\<lparr>pe_create_dir_all := (\<lambda>p d. (Inl ''no space'', d))\<rparr>\<rparr>"

theorem failed_episode_is_lost_witness:
  "\<exists>p'. collection_stop full_disk_env 5 90 (example_recording, \<lambda>_. []) = (Inl (CollectionPackagerError (PackagerIo ''no space'')), p', \<lambda>_. []) \<and>
     dc_running p' \<and> \<not> is_recording p' \<and> cs_episodes_failed (dc_stats p') = 0"
proof -
  have run: "is_recording example_recording" "dc_running example_recording" "cs_episodes_failed (dc_stats example_recording) = 0"
    "\<not> ek_is_packaging (dc_packager example_recording)"
    using reachable_ok [OF example_reachable] example_manual(5) by (auto simp: collection_ok_def is_recording_def)
  obtain p' where f: "finish_episode full_disk_env 5 90 (example_recording, \<lambda>_. []) = (Inl (CollectionPackagerError (PackagerIo ''no space'')), p', \<lambda>_. [])"
    using example_manual(5) run(4)
    by (auto simp: finish_episode_def package_episode_def do_package_def full_disk_env_def example_env_def Let_def)
  from failed_episode_is_lost [OF f run(1), of 5 90] show ?thesis using run by auto
qed

text \<open>What the end of an episode hands to the packager.\<close>

definition package_active ::
  "('d, 't) collection_env \<Rightarrow> timestamp_ns \<Rightarrow> active_episode \<Rightarrow> 't data_collection \<times> 'd \<Rightarrow>
     (packager_error + package_result) \<times> episode_packager \<times> 'd" where
  "package_active env en e = (\<lambda>(p, d).
     package_episode (ce_packager env) (ce_layout env) (ae_episode_id e) (dc_buffers p) (ae_start_time_ns e) en
       (set_end_time en (ae_metadata e)) (dc_packager p, d))"

text \<open>
  C36. When the episode of a reachable plugin ends well, the packager has left a file on the disk (\<open>d1\<close>)
  that reads back as the samples buffered between the start of the episode, its pre-roll included, and
  its end; the storage took that package: the episode is in the index under its id with the size the package reports, and both limits
  of the storage hold, of bytes and of episodes; the plugin runs on without an active episode and
  counts one more completed episode. Assumed: no write of the file fails, the file is shorter than \<open>2 ^ 64\<close>
  bytes, and the total of the index does not overflow.
\<close>

theorem finished_episode_is_stored:
  assumes "collection_reachable env (p, d0)" "dc_active p = Some e" "dc_storage p = Some sm"
    "finish_episode env c en (p, d) = (Inr r, p', d')" "index_wf (sm_index sm)"
    "unat (ix_total_size_bytes (sm_index sm)) + unat (pr_file_size_bytes r) < 2 ^ 64"
    "pe_write_oracle (ce_packager env) = no_fault" "disk_keeps (ce_packager env) content"
    "length (content (snd (snd (package_active env en e (p, d)))) (pr_mcap_path r)) < 2 ^ 64"
  shows "\<exists>k d1 sm' entry. package_active env en e (p, d) = (Inr r, k, d1) \<and>
      read_messages (content d1 (pr_mcap_path r)) =
        Some (number (sent_samples (ce_layout env) (stream_ids (dc_buffers p))
          (sort_key ds_timestamp_ns (collected (dc_buffers p) (ae_start_time_ns e) en)))) \<and>
      store_episode (ce_storage env) c r (set_end_time en (ae_metadata e)) (sm, d1) = (Inr entry, sm', d') \<and>
      dc_storage p' = Some sm' \<and> hm_get (ix_episodes (sm_index sm')) (ae_episode_id e) = Some entry \<and>
      ie_size_bytes entry = pr_file_size_bytes r \<and>
      (sg_max_storage_bytes (sm_config sm) = 0 \<or> ix_total_size_bytes (sm_index sm') \<le> sg_max_storage_bytes (sm_config sm)) \<and>
      (sg_max_episodes (sm_config sm) = 0 \<or> ix_episode_count (sm_index sm') \<le> sg_max_episodes (sm_config sm)) \<and>
      dc_state p' = CsRunning \<and> \<not> is_recording p' \<and> dc_running p' \<and>
      cs_episodes_completed (dc_stats p') = cs_episodes_completed (dc_stats p) + 1"
proof -
  have ok: "samples_filed (dc_buffers p)" "dc_running p"
    using reachable_ok [OF assms(1)] assms(2) by (auto simp: collection_ok_def is_recording_def)
  show ?thesis using assms(4,2)
  proof (cases rule: finish_episode_cases)
    case (finished res k d1 st u)
    have res: "res = r" using finished(3) by simp
    obtain sm' entry where st: "store_episode (ce_storage env) c r (set_end_time en (ae_metadata e)) (sm, d1) = (Inr entry, sm', d')"
      "st = Some sm'"
      using finished(2) assms(3) res by (auto simp: store_result_of_def split: prod.splits sum.splits) (metis obj_sumE map_sum.simps sum.distinct(1))
    have pk: "package_active env en e (p, d) = (Inr r, k, d1)" using finished(1) res by (simp add: package_active_def)
    note rb = package_reads_back [OF assms(7,8) ok(1) finished(1) [unfolded res]]
    have size: "ie_size_bytes entry = pr_file_size_bytes r"
      using st(1) by (auto simp: store_episode_def from_package_result_def Let_def split: if_splits prod.splits sum.splits)
    show ?thesis
      using store_result [OF assms(5,6) st(1)] rb size st finished(4) ok(2) res pk assms(9)
      by (intro exI [of _ k] exI [of _ d1] exI [of _ sm'] exI [of _ entry]) (simp add: packaged_def is_recording_def completed_stats_def)
  qed simp_all
qed

theorem finished_episode_is_stored_witness:
  "\<exists>r p' k d1 sm' entry. finish_episode example_env 5 90 (example_recording, \<lambda>_. []) = (Inr r, p', d1) \<and>
     (\<exists>e. dc_active example_recording = Some e \<and> package_active example_env 90 e (example_recording, \<lambda>_. []) = (Inr r, k, d1)) \<and>
     read_messages (d1 (pr_mcap_path r)) = Some (number (sent_samples example_layout (stream_ids (dc_buffers example_recording)) [example_sample])) \<and>
     dc_storage p' = Some sm' \<and> hm_get (ix_episodes (sm_index sm')) ''ep'' = Some entry \<and>
     dc_state p' = CsRunning"
proof -
  obtain e where e: "dc_active example_recording = Some e" "ae_episode_id e = ''ep''" "ae_start_time_ns e = 0"
    using example_manual(5) by blast
  have k: "\<not> ek_is_packaging (dc_packager example_recording)" "ek_stream_schemas (dc_packager example_recording) = []"
    "ek_urdf_data (dc_packager example_recording) = None" "ek_calibration_data (dc_packager example_recording) = None"
    "pk_mcap_config (ek_config (dc_packager example_recording)) = None"
    "\<not> is_image_stream (pk_streams (ek_config (dc_packager example_recording))) ''imu''"
    by (simp_all add: example_manual(3) example_push(8) example_created_facts(6) EpisodePackager_new_def PackagerConfig_default_def
        example_config_defs is_image_stream_def find_stream_def)
  obtain r k' d1 where pk: "package_episode example_disk example_layout ''ep'' (dc_buffers example_recording) 0 90
      (set_end_time 90 (ae_metadata e)) (dc_packager example_recording, \<lambda>_. []) = (Inr r, k', d1)"
    "length (d1 (pr_mcap_path r)) < 2 ^ 64"
    using small_package [OF _ _ k, of "dc_buffers example_recording"] example_push(2,3) example_manual(2) by metis
  have "\<exists>entry sm'. store_episode (ce_storage example_env) 5 r (set_end_time 90 (ae_metadata e)) (example_storage, d1) = (Inr entry, sm', d1)"
    by (simp add: store_episode_def make_room_def check_limits_def save_index_def example_storage_def example_storage_config_def
        example_env_def EpisodeIndex_new_def StorageConfig_default_def hm_contains_def hm_get_def Let_def)
  then obtain p' where f: "finish_episode example_env 5 90 (example_recording, \<lambda>_. []) = (Inr r, p', d1)"
    using e pk(1) example_manual(4) by (auto simp: finish_episode_def example_env_def store_result_of_def Let_def)
  have env: "pe_write_oracle (ce_packager example_env) = no_fault" "disk_keeps (ce_packager example_env) (\<lambda>d. d)"
    by (simp_all add: example_env_def example_disk_def disk_keeps_def)
  have "index_wf (sm_index example_storage)" "unat (ix_total_size_bytes (sm_index example_storage)) + unat (pr_file_size_bytes r) < 2 ^ 64"
    using unsigned_less [of "pr_file_size_bytes r", where ?'a = nat]
    by (simp_all add: example_storage_def index_wf_new) (simp add: EpisodeIndex_new_def)
  note wf = this
  have a: "package_active example_env 90 e (example_recording, \<lambda>_. []) = (Inr r, k', d1)"
    using pk(1) e(2,3) by (simp add: package_active_def example_env_def)
  then have "length (snd (snd (package_active example_env 90 e (example_recording, \<lambda>_. []))) (pr_mcap_path r)) < 2 ^ 64"
    using pk(2) by simp
  from finished_episode_is_stored [where content = "\<lambda>d. d", OF example_reachable e(1) example_manual(4) f wf env this]
  obtain sm' entry where s: "dc_storage p' = Some sm'" "hm_get (ix_episodes (sm_index sm')) ''ep'' = Some entry" "dc_state p' = CsRunning"
    "read_messages (d1 (pr_mcap_path r)) = Some (number (sent_samples (ce_layout example_env) (stream_ids (dc_buffers example_recording))
       (sort_key ds_timestamp_ns (collected (dc_buffers example_recording) 0 90))))"
    using a e(2,3) by auto
  have "sort_key ds_timestamp_ns (collected (dc_buffers example_recording) 0 90) = [example_sample]"
    by (simp add: example_manual(2) example_push(2))
  then show ?thesis
    using f a e(1) s by (intro exI [of _ r] exI [of _ p'] exI [of _ k'] exI [of _ d1] exI [of _ sm'] exI [of _ entry]) (simp add: example_env_def)
qed

end
