(* ===== verification/Spec2Isabelle.thy ===== *)
theory Spec2Isabelle
  imports Rate_Limit Command_Filter Ssh_Auth Policy_Cache Ssh_Session Health Emergency Sftp
    Ssh_Server Forwarding Recording Fleet Ssh_Handler Incubator Mesh_Manager Tun
    Plugin_Manager Kinematics Collection
begin

text \<open>
  A verification of OmniEdge, a mesh VPN with SSH access between its nodes. The repository
  (\<open>src/crates\<close>) has these parts: \<open>omni-ssh\<close> (the SSH server that authenticates by VPN identity,
  with policies, command filtering, SFTP, port forwarding, session recording, break-glass access,
  health monitoring and fleet execution), \<open>omni-core\<close> (connection manager, routing, configuration,
  updater), \<open>omni-proto\<close> (signalling messages), \<open>omni-plugin\<close> (WebAssembly plugins and robot data
  collection), \<open>omni-api\<close> (cloud client), \<open>omni-tun\<close>, \<open>omni-helper\<close>, \<open>omni-cli\<close> and the desktop
  application. This development covers the security core, \<open>crates/omni-ssh/src\<close>, the mesh
  (\<open>omni-proto\<close>, the peer table and packet dispatcher of \<open>omni-core\<close>, and the tunnel table of
  \<open>omni-tun\<close>), and \<open>omni-plugin\<close>: its plugin system and its collection of robot data.

  \<^bold>\<open>How the parts interact.\<close> The server (\<open>server/mod.rs\<close>) accepts a TCP connection, asks the rate
  limiter, checks that the address is in the VPN and hands the stream to the SSH library with a
  connection handler. The handler authenticates the user: identity and policy come from the
  \<open>SshBackend\<close>, whose policy is served by the policy cache. The action of the deciding rule then
  configures the session: command filter, SFTP server, forwarding, recording, maximal duration.
  Emergency access issues temporary grants outside the policy. Fleet execution uses the SSH client
  on many nodes. Below all this, the dispatcher of \<open>omni-core\<close> receives the packets of the mesh on one
  socket: disco pings and pongs between peers, answers of relays, and the messages of the signalling
  server, which \<open>omni-proto\<close> decodes. It keeps the table of peers and configures WireGuard through
  \<open>omni-tun\<close>. The plugin manager discovers packages through its loader, keeps them in the registry and
  runs them in a sandbox whose host functions are the only way out. The data collection keeps the last
  samples of every stream in ring buffers; a trigger that fires starts an episode, whose samples the
  packager passes through the privacy filters and writes to an MCAP file when it ends; the storage manager keeps the files within limits and the upload
  queue sends them off. Cameras and their poses come from the configuration and the kinematic model.

  \<^bold>\<open>Theories and sources.\<close>
  \<^item> \<open>Prelude\<close>: machine integers, clock readings, the \<open>?\<close> operator, hash maps with the locale
    \<open>kv_store\<close> of their laws (interpreted on the association lists that model \<open>HashMap\<close> and
    \<open>DashMap\<close>), strings, decimal numbers, addresses, UTF-8. \<open>Paths\<close>: \<open>std::path\<close> on Unix, normal paths. \<open>Machines\<close>:
    runs of operations, with the locales \<open>invariant_machine\<close>, \<open>guarded_machine\<close>, \<open>counted_machine\<close> and
    \<open>framed_machine\<close> that carry an invariant or a fixed part from one operation to every run; the
    components interpret them on their own step functions.
  \<^item> \<open>Ssh_Types\<close> (\<open>types.rs\<close> and the data types of \<open>server/mod.rs\<close>): records and enumerations.
  \<^item> \<open>Rate_Limit\<close> (\<open>server/rate_limit.rs\<close>): windows, failure counts and bans; the bound on granted
    connections for any interleaving of operations, bans, the clean-up being invisible.
  \<^item> \<open>Ssh_Server\<close> (\<open>server/mod.rs\<close>): both connection handlers, the accept loop, policy change and
    shutdown; a run of the server refines a run of the limiter, so its admissions are bounded, and
    bans and the limit of concurrent connections are never applied.
  \<^item> \<open>Ssh_Auth\<close> (\<open>server/auth.rs\<close>): policy evaluation and authentication; access is granted exactly
    under the conditions stated, errors come from the backend only, the time window.
  \<^item> \<open>Command_Filter\<close> (\<open>server/command_filter.rs\<close>): what passes the filter, exactly.
  \<^item> \<open>Policy_Cache\<close> (\<open>policy/mod.rs\<close>): memory and disk cache, expiry, and the fall-back to the disk, which
    deadlocks on the lock of the cache: a call that does not return is \<open>None\<close>.
  \<^item> \<open>Ssh_Session\<close> (\<open>server/session.rs\<close>, \<open>server/config.rs\<close>): session expiry, configuration.
  \<^item> \<open>Sftp\<close> (\<open>sftp/mod.rs\<close>): every request of the server handler over an abstract file system;
    confinement to the root directory, by where paths lead and not by their text, with the cases in
    which a client escapes it; read-only sessions, handles, directory listing, size limit.
  \<^item> \<open>Emergency\<close> (\<open>emergency/mod.rs\<close>): grants, token cache, revocation, waiting for approval.
  \<^item> \<open>Health\<close> (\<open>health/mod.rs\<close>): connection trackers and the monitor that shares them.
  \<^item> \<open>Forwarding\<close> (\<open>forwarding/mod.rs\<close>): parsing of specifications, forward handles and statistics,
    the copy loop, the SOCKS5 handshake.
  \<^item> \<open>Recording\<close> (\<open>recording/mod.rs\<close>): recorder, file, cloud and integrity writers (the locale
    \<open>line_writer\<close> is their interface), signed chunks and their verification; a verified chunk is authentic
    or exhibits a forgery of the MAC or a collision of the hash.
  \<^item> \<open>Fleet\<close> (\<open>fleet/mod.rs\<close>): target resolution, execution, summary, and the tasks under the
    semaphore as a step relation.

  \<^item> \<open>Ssh_Handler\<close> (\<open>server/handler.rs\<close>): the callbacks of one connection over a world of terminals,
    recorders, tasks and SFTP servers; sessions need a grant, executed commands pass the filter, what
    is typed does not. \<open>Pty\<close> (\<open>server/pty.rs\<close>): the terminal task and the lock it shares with the input.
    \<open>Incubator\<close> (\<open>server/incubator.rs\<close>): command line, environment and the dropping of privileges.
  \<^item> \<open>Mesh_Proto\<close> (\<open>omni-proto\<close>): handling of signalling packets. \<open>Mesh_Peers\<close> and \<open>Mesh_Manager\<close>
    (\<open>omni-core/src/manager.rs\<close>): addresses, strategies, peers, and the dispatcher as a machine over
    packets and ticks; the identity of a peer is kept by every step. \<open>Tun\<close> (\<open>omni-tun\<close>): the WireGuard
    peers of the interface and their recovery after a reset.
  \<^item> \<open>Plugin_Registry\<close> (\<open>omni-plugin/src/manifest.rs\<close>, \<open>registry.rs\<close>): manifests, the registry, its index
    by capability and its saved state. \<open>Plugin_Host\<close> (\<open>host/mod.rs\<close>, \<open>sandbox.rs\<close>): what a plugin can make
    the host do. \<open>Plugin_Manager\<close> (\<open>loader.rs\<close>, \<open>manager.rs\<close>): packages, their checks, installation and the
    life cycle; only enabled plugins run.
  \<^item> The data collection (\<open>omni-plugin/src/robotics/data_collection\<close>). \<open>Transforms\<close> (\<open>transform.rs\<close>): rotations in
    their representations and rigid transforms, over the reals. \<open>Cameras\<close> (\<open>camera_config.rs\<close>): configuration,
    its checks, the pinhole model. \<open>Kinematics\<close> (\<open>urdf.rs\<close>): links, joints, chains and poses; a chain may
    be endless, so \<open>compute_chain\<close> is a partial function and returning is a theorem. \<open>Samples\<close> (\<open>types.rs\<close>,
    \<open>streams.rs\<close>): samples and streams. \<open>Ring_Buffer\<close> (\<open>buffer.rs\<close>): a buffer refines the list of the last
    samples; extraction of an episode. \<open>Triggers\<close> (\<open>triggers.rs\<close>, \<open>trigger_impl.rs\<close>): every trigger and the
    manager, over the locale \<open>trigger_contract\<close>; cool-down, reference for the periodic trigger.
    \<open>Episode_Metadata\<close> (\<open>metadata.rs\<close>) and \<open>Episode_Storage\<close> (\<open>storage.rs\<close>): the index, limits and
    clean-up, over the locale \<open>remove_invariant\<close>. \<open>Upload\<close> (\<open>upload.rs\<close>): the queue and its order, retries.
    \<open>Mcap\<close> (\<open>mcap_writer.rs\<close>): the bytes of the file, and a reader that gets back what was written.
    \<open>Privacy\<close> (\<open>privacy.rs\<close>): pixelation and the filters of images and metadata. \<open>Packager\<close> (\<open>packager.rs\<close>):
    from the ring buffers to the files of an episode; the file reads back as the samples of the episode.
    \<open>Collection\<close> (\<open>plugin.rs\<close>): the plugin that drives all of these, as a machine over the calls of a
    program; its states, the end of an episode when it succeeds and when it fails.
  \<^item> This theory: a connection together with its SFTP servers, and the dispatcher together with the
    tunnels it configures.

  \<^bold>\<open>Conventions.\<close> A Rust struct is a record, an enumeration a datatype, a counter a word of its
  width (additions wrap, as in a release build), a fallible call a sum whose left side is the error.
  A method that changes its receiver returns it. A call reads the clock once. An operation on a
  \<open>DashMap\<close> or under a lock is atomic; where calls interleave, runs are lists of operations and the
  theorems hold for every list. Text is a list of bytes (\<open>string\<close>); case conversion is that of
  ASCII. Branches for Unix are modelled.

  \<^bold>\<open>Parameters.\<close> Code outside the repository is an argument: regular expressions, the semaphore of
  tokio, the packet formats, endpoint sets and WireGuard control of the crate \<open>omninervous\<close>, the answers of the backend, the SSH library's \<open>run_stream\<close>, the file system, HTTP replies,
  JSON, base64, SHA-256 and HMAC, the text of IPv6 addresses. Results of I/O calls that vary from
  call to call are given as lists (scripts): the copy loop consumes the events its \<open>select\<close> sees, the
  approval loop the replies to its polls. Running out of a script is the value \<open>None\<close>, that is, not
  yet returned; \<open>wait_for_approval\<close> is shown to return within its time-out, so for it enough replies
  give a result.

  \<^bold>\<open>Not modelled.\<close> Logging and serialisation of derived formats; the SFTP client wrapper, the SSH
  client and the stand-alone backend; in \<open>omni-core\<close> joining a network, login, configuration, routing
  and the updater; in \<open>omni-plugin\<close> the widgets, and of the data collection its
  codecs, enrichment and HTTP interface. These have logic of their own that this development leaves out. The remaining crates are glue over the
  operating system and over HTTP.
\<close>

section \<open>A connection and its SFTP servers\<close>

text \<open>
  C8. A read-only connection stays read-only over SFTP. If every authentication that the policy accepts on
  a connection grants a read-only action, then no SFTP server the connection starts changes the file
  system, whatever requests the client sends it.
\<close>

theorem connection_sftp_read_only:
  assumes "handler_run p xs (make_handler config a cid, world_init) = (h, w)" and "ss \<in> set (hw_sftp w)"
    and "\<And>lu act. grants xs (sa_ip a) lu act \<Longrightarrow> act_read_only act"
    and "\<And>opts q fs. \<not> oo_write opts \<Longrightarrow> \<not> oo_append opts \<Longrightarrow> snd (fs_open api opts q fs) = fs"
  shows "snd (sftp_run api qs (sftp_new da (ss_config ss) (ss_conn_id ss) (ss_user ss), fs)) = fs"
proof -
  have "sftp_granted p (grants xs (sa_ip a)) ss"
    using handler_run_ok [of p a xs config cid] assms(1,2) by (simp add: handler_ok_def list_all_iff)
  with assms(3) have ro: "\<not> sf_allow_write (ss_config ss)" by (auto simp: sftp_granted_def)
  have "open_reads api" using assms(4) by (simp add: open_reads_def)
  from sftp_run_read_only [OF this, of fs "(sftp_new da (ss_config ss) (ss_conn_id ss) (ss_user ss), fs)" qs] ro
  show ?thesis by (simp add: unchanged_def sftp_new_def)
qed

text \<open>
  C9. SFTP stays in the home directory. For every SFTP server of a connection there is a local user that
  the policy has granted to the connection such that, for any requests, every path handed to a call that
  opens, creates, changes or removes something names an entry below that user's home directory and leads below it, symbolic links
  and \<open>..\<close> resolved, and is within the allowed paths of the session. It is assumed that every user the policy
  grants has a home directory in the user data base (without one the root directory is \<open>None\<close> and
  nothing is confined) and that \<open>canonicalize\<close> behaves as \<open>realpath\<close>. What a path leads to that is itself a symbolic link, and a
  change of permissions on a path used before, are left out, as in \<open>Sftp.sftp_paths_confined\<close>: there the server does leave the directory.
\<close>

theorem connection_sftp_confined:
  assumes "handler_run p xs (make_handler config a cid, world_init) = (h, w)" and "ss \<in> set (hw_sftp w)"
    and "\<And>lu act. grants xs (sa_ip a) lu act \<Longrightarrow> \<exists>home. get_user_home p lu = Some home"
    and "canonicalize_laws api"
  shows "\<exists>lu act home. grants xs (sa_ip a) lu act \<and> get_user_home p lu = Some home
    \<and> log_in (path_confined api (ss_config ss) home)
        (snd (snd (sftp_run (logged api) qs (sftp_new da (ss_config ss) (ss_conn_id ss) (ss_user ss), fs, []))))"
proof -
  have "sftp_granted p (grants xs (sa_ip a)) ss"
    using handler_run_ok [of p a xs config cid] assms(1,2) by (simp add: handler_ok_def list_all_iff)
  then obtain lu act home where g: "grants xs (sa_ip a) lu act" "get_user_home p lu = Some home"
      "sf_root_dir (ss_config ss) = Some home"
    using assms(3) by (fastforce simp: sftp_granted_def)
  then show ?thesis using sftp_run_log [OF resolves_confined [OF assms(4) g(3)]] by blast
qed

section \<open>The mesh and its tunnels\<close>

text \<open>The calls of \<open>add_peer\<close> among the outputs of the dispatcher.\<close>

fun add_peer_of :: "mesh_out \<Rightarrow> (string \<times> socket_addr option \<times> string list) option" where
  "add_peer_of (AddPeer key ep ips) = Some (key, ep, ips)"
| "add_peer_of x = None"

lemma add_peer_of_iff: "add_peer_of x = Some (key, ep, ips) \<longleftrightarrow> x = AddPeer key ep ips"
  by (cases x) auto

definition tun_follows :: "peer_call list \<Rightarrow> mesh_out list \<Rightarrow> bool" where
  "tun_follows cs os \<longleftrightarrow>
     map (\<lambda>c. (cl_key c, cl_endpoint c, cl_ips c)) cs = List.map_filter add_peer_of os"

lemma last_config_key: "k \<in> cl_key ` set cs \<Longrightarrow> last_config cs k \<noteq> None"
  by (auto simp: last_config_def find_None_iff)

text \<open>
  Departed peers keep their tunnel. A key that the dispatcher has once configured stays in the WireGuard
  interface with some endpoint and addresses, whatever happens afterwards, also when the signalling
  server reports that the peer has left and the dispatcher drops it from its table.
\<close>

theorem departed_peer_stays_configured:
  assumes "\<And>k ep ips ka i. content (snd (wg_set_peer ops k ep ips ka i)) = (content i)(k \<mapsto> \<lparr>pc_endpoint = ep, pc_allowed_ips = ips\<rparr>)"
    and "\<And>i. content (wg_soft_shutdown ops i) = (\<lambda>k. None)"
    and "ot_known_peers tun = []" and "content (ot_interface tun) = (\<lambda>k. None)"
    and "AddPeer key ep ips \<in> set (fst (mesh_run p xs (mesh_start p enc)))"
    and "tun_follows cs (fst (mesh_run p (xs @ ys) (mesh_start p enc)))"
  shows "content (ot_interface (fold (tun_call ops) cs tun)) key \<noteq> None"
proof -
  have "(key, ep, ips) \<in> set (List.map_filter add_peer_of (fst (mesh_run p (xs @ ys) (mesh_start p enc))))"
    using assms(5) unfolding set_map_filter_iff
    by (intro bexI [of _ "AddPeer key ep ips"]) (simp_all add: run_ops_append split_beta Let_def)
  then have "(key, ep, ips) \<in> (\<lambda>c. (cl_key c, cl_endpoint c, cl_ips c)) ` set cs"
    using assms(6) unfolding tun_follows_def set_map [symmetric] by simp
  then have "key \<in> cl_key ` set cs" by auto
  moreover have "content (ot_interface (fold (tun_call ops) cs tun)) = last_config cs"
    using assms(1-4) by (rule tun_content)
  ultimately show ?thesis by (simp add: last_config_key)
qed

text \<open>Witnesses for the properties of this theory.\<close>

definition demo_sftp :: sftp_session where
  "demo_sftp = hd (hw_sftp (snd (handler_run demo_params demo_ops demo_start)))"

lemma demo_sftp_in: "demo_sftp \<in> set (hw_sftp (snd (handler_run demo_params demo_ops demo_start)))"
  using demo_sessions unfolding demo_sftp_def
  by (cases "hw_sftp (snd (handler_run demo_params demo_ops demo_start))") auto

lemma demo_run:
  "handler_run demo_params demo_ops (make_handler SshServerConfig_default demo_addr ''c1'', world_init)
   = (fst (handler_run demo_params demo_ops demo_start), snd (handler_run demo_params demo_ops demo_start))"
  by (simp add: demo_start_def)

theorem connection_sftp_read_only_witness:
  "snd (sftp_run mem_api [QSymlink 1 ''l'' ''/etc/new'', QOpen 2 ''l'' create_flags]
     (sftp_new no_attrs (ss_config demo_sftp) (ss_conn_id demo_sftp) (ss_user demo_sftp), snd srv_state))
   = snd srv_state"
  by (rule connection_sftp_read_only [OF demo_run demo_sftp_in]) (auto simp: demo_only_grant mf_open_def split: sum.split)

theorem connection_sftp_confined_witness:
  "log_in (path_confined mem_api (ss_config demo_sftp) ''/srv'')
     (snd (snd (sftp_run (logged mem_api) srv_visit
        (sftp_new no_attrs (ss_config demo_sftp) (ss_conn_id demo_sftp) (ss_user demo_sftp), snd srv_state, []))))"
  using connection_sftp_confined [OF demo_run demo_sftp_in _ mem_api_laws, of srv_visit no_attrs "snd srv_state"]
  by (simp add: demo_only_grant get_user_home_def demo_params_def)

definition leaving :: "(socket_addr list, unit) mesh_params" where
  "leaving = demo_mesh\<lparr>mm_sg := demo_signaling\<lparr>sg_type := \<lambda>b. Some HeartbeatAck,
     sg_heartbeat_ack := \<lambda>b s. Inr ([], [V4 10 0 0 2])\<rparr>\<rparr>"

lemma leaving_run:
  "fst (mesh_run leaving ([rogue] @ [announced]) (mesh_start leaving ())) = fst (mesh_run leaving [rogue] (mesh_start leaving ()))"
  "hm_get (ms_peers (snd (mesh_run leaving ([rogue] @ [announced]) (mesh_start leaving ())))) (V4 10 0 0 2) = None"
  by (simp_all add: leaving_def demo_mesh_eval split_beta on_signaling_def proto_handle_packet_def decode_message_def
    parse_with_hmac_fallback_def on_update_def remove_vips_def)

lemma leaving_adds:
  "List.map_filter add_peer_of (fst (mesh_run leaving [rogue] (mesh_start leaving ())))
   = [(mm_hex leaving (demo_key 66), Some (SocketAddr (V4 6 6 6 6) 666), allowed_ips leaving (V4 10 0 0 2) None)]"
  by (simp add: leaving_def demo_mesh_eval wg_peer_def allowed_ips_def)

theorem departed_peer_stays_configured_witness:
  "hm_get (ms_peers (snd (mesh_run leaving ([rogue] @ [announced]) (mesh_start leaving ())))) (V4 10 0 0 2) = None
   \<and> ot_interface (fold (tun_call table_ops)
        [\<lparr>cl_now = 0, cl_key = mm_hex leaving (demo_key 66), cl_endpoint = Some (SocketAddr (V4 6 6 6 6) 666),
          cl_ips = allowed_ips leaving (V4 10 0 0 2) None\<rparr>]
        (new_userspace (\<lambda>_ k. None) ''omni0'')) (mm_hex leaving (demo_key 66)) \<noteq> None"
proof (rule conjI [OF leaving_run(2)], rule departed_peer_stays_configured [where content = "\<lambda>i. i"])
  let ?os = "fst (mesh_run leaving [rogue] (mesh_start leaving ()))"
  have "(mm_hex leaving (demo_key 66), Some (SocketAddr (V4 6 6 6 6) 666), allowed_ips leaving (V4 10 0 0 2) None)
      \<in> set (List.map_filter add_peer_of ?os)"
    unfolding leaving_adds by simp
  then show "AddPeer (mm_hex leaving (demo_key 66)) (Some (SocketAddr (V4 6 6 6 6) 666))
      (allowed_ips leaving (V4 10 0 0 2) None) \<in> set ?os"
    unfolding set_map_filter_iff add_peer_of_iff by blast
  show "tun_follows [\<lparr>cl_now = 0, cl_key = mm_hex leaving (demo_key 66), cl_endpoint = Some (SocketAddr (V4 6 6 6 6) 666),
      cl_ips = allowed_ips leaving (V4 10 0 0 2) None\<rparr>] (fst (mesh_run leaving ([rogue] @ [announced]) (mesh_start leaving ())))"
    unfolding tun_follows_def leaving_run(1) leaving_adds by simp
qed (simp_all add: table_ops_def new_userspace_def)

end
